(* ===== verification/Prelude.thy ===== *)
theory Prelude
  imports Complex_Main
begin

text \<open>
  Shared vocabulary of the development.

  \<^item> Collections: \<open>grid\<close> (closure of the decimal grid under the arithmetic the code
    does), \<open>frame\<close> (which tables an operation leaves alone) and \<open>table\<close> (reads after
    writes on a table).
  \<^item> Tables: the rows of one SQL table are a list in insertion order. \<open>tget\<close> is a lookup
    by primary key (\<open>session.get\<close>, \<open>scalar_one_or_none\<close>), \<open>tput\<close> the flush of a
    changed ORM object back to its row, \<open>tupd\<close> a bulk \<open>UPDATE ... WHERE\<close>.
  \<^item> Outcomes: an operation returns the Python exception or its value, with the database
    state that is committed when it returns. An exception that rolls the transaction
    back is written as the state of the last commit.
\<close>

named_theorems grid "closure of the decimal grid"
named_theorems frame "tables an operation does not touch"
named_theorems table "reads after writes on a table"

section \<open>Tables\<close>

definition tget :: "('r \<Rightarrow> 'k) \<Rightarrow> 'k \<Rightarrow> 'r list \<Rightarrow> 'r option" where
  "tget key k rows = List.find (\<lambda>r. key r = k) rows"

definition tput :: "('r \<Rightarrow> 'k) \<Rightarrow> 'r \<Rightarrow> 'r list \<Rightarrow> 'r list" where
  "tput key r rows = map (\<lambda>x. if key x = key r then r else x) rows"

definition tupd :: "('r \<Rightarrow> bool) \<Rightarrow> ('r \<Rightarrow> 'r) \<Rightarrow> 'r list \<Rightarrow> 'r list" where
  "tupd p f rows = map (\<lambda>x. if p x then f x else x) rows"

definition tkeys :: "('r \<Rightarrow> 'k) \<Rightarrow> 'r list \<Rightarrow> bool" where
  "tkeys key rows = distinct (map key rows)"

lemma tget_Nil [simp]: "tget key k [] = None"
  by (simp add: tget_def)

lemma tget_Cons [simp]:
  "tget key k (r # rows) = (if key r = k then Some r else tget key k rows)"
  by (simp add: tget_def)

lemma tget_append:
  "tget key k (xs @ ys) = (case tget key k xs of None \<Rightarrow> tget key k ys | Some r \<Rightarrow> Some r)"
  by (induction xs) auto

lemma tget_Some: "tget key k rows = Some r \<Longrightarrow> r \<in> set rows \<and> key r = k"
  by (induction rows) (auto split: if_splits)

lemma tget_None_iff: "tget key k rows = None \<longleftrightarrow> k \<notin> key ` set rows"
  by (induction rows) auto

lemma tget_in_set: "tkeys key rows \<Longrightarrow> r \<in> set rows \<Longrightarrow> tget key (key r) rows = Some r"
  by (induction rows) (auto simp: tkeys_def)

lemma tput_Nil [simp]: "tput key r [] = []"
  by (simp add: tput_def)

lemma tput_Cons [simp]:
  "tput key r (x # rows) = (if key x = key r then r else x) # tput key r rows"
  by (simp add: tput_def)

lemma map_key_tput [simp]: "map key (tput key r rows) = map key rows"
  by (induction rows) auto

lemma tkeys_tput [simp]: "tkeys key (tput key r rows) = tkeys key rows"
  by (simp add: tkeys_def)

lemma keys_tput [simp]: "key ` set (tput key r rows) = key ` set rows"
  by (metis list.set_map map_key_tput)

lemma tget_tput [table]:
  "tget key k (tput key r rows) =
     (if k = key r then (if k \<in> key ` set rows then Some r else None) else tget key k rows)"
  by (induction rows) auto

lemma tget_tput_same [table]:
  "tget key (key r) rows = Some r0 \<Longrightarrow> tget key (key r) (tput key r rows) = Some r"
  by (induction rows) (auto split: if_splits)

lemma tput_absent: "tget key (key r) rows = None \<Longrightarrow> tput key r rows = rows"
  by (induction rows) (auto split: if_splits)

lemma tput_id: "tkeys key rows \<Longrightarrow> tget key (key r) rows = Some r \<Longrightarrow> tput key r rows = rows"
  by (induction rows) (auto split: if_splits simp: tkeys_def tput_def image_iff intro!: map_idI)

lemma set_tput_cases: "x \<in> set (tput key r rows) \<Longrightarrow> x = r \<or> x \<in> set rows \<and> key x \<noteq> key r"
  by (induction rows) (auto split: if_splits)

text \<open>
  What a write does to a total over the table: the old row's share goes, the new one's
  comes. Every conservation proof of the development rests on this fact.
\<close>

lemma sum_list_tput:
  fixes h :: "'r \<Rightarrow> 'a :: ab_group_add"
  assumes "tkeys key rows" and "tget key (key r) rows = Some r0"
  shows "sum_list (map h (tput key r rows)) = sum_list (map h rows) - h r0 + h r"
  using assms
proof (induction rows)
  case Nil
  then show ?case by simp
next
  case (Cons x rows)
  show ?case
  proof (cases "key x = key r")
    case True
    with Cons.prems have "r0 = x" and "tget key (key r) rows = None"
      by (auto simp: tkeys_def tget_None_iff)
    with True show ?thesis by (simp add: tput_absent)
  next
    case False
    with Cons show ?thesis by (simp add: tkeys_def)
  qed
qed

lemma sum_list_nonneg_member:
  fixes h :: "'r \<Rightarrow> 'a :: ordered_comm_monoid_add"
  assumes "\<And>x. x \<in> set rows \<Longrightarrow> 0 \<le> h x" and "r \<in> set rows"
  shows "h r \<le> sum_list (map h rows)"
  using assms
proof (induction rows)
  case Nil
  then show ?case by simp
next
  case (Cons x rows)
  have "0 \<le> h x" and "0 \<le> sum_list (map h rows)"
    using Cons.prems(1) by (auto intro!: sum_list_nonneg)
  then show ?case
    using Cons.IH Cons.prems by (auto intro: add_increasing add_increasing2)
qed

lemma tupd_Nil [simp]: "tupd p f [] = []"
  by (simp add: tupd_def)

lemma tupd_Cons [simp]: "tupd p f (x # rows) = (if p x then f x else x) # tupd p f rows"
  by (simp add: tupd_def)

lemma tget_tupd [table]:
  assumes "\<And>x. key (f x) = key x"
  shows "tget key k (tupd p f rows) = map_option (\<lambda>x. if p x then f x else x) (tget key k rows)"
  using assms by (induction rows) auto

lemma map_tupd: "(\<And>x. h (f x) = h x) \<Longrightarrow> map h (tupd p f rows) = map h rows"
  by (induction rows) auto

section \<open>Lists\<close>

text \<open>The first occurrence of every element, in order: the loops that keep a \<open>seen\<close> set.\<close>

definition uniq :: "'a list \<Rightarrow> 'a list" where
  "uniq xs = rev (remdups (rev xs))"

lemma set_uniq [simp]: "set (uniq xs) = set xs"
  by (simp add: uniq_def)

lemma distinct_uniq [simp]: "distinct (uniq xs)"
  by (simp add: uniq_def)

section \<open>Outcomes\<close>

type_synonym ('e, 'a, 'w) outcome = "('e + 'a) \<times> 'w"

definition succeeds :: "('e, 'a, 'w) outcome \<Rightarrow> bool" where
  "succeeds r = (case fst r of Inl _ \<Rightarrow> False | Inr _ \<Rightarrow> True)"

lemma succeeds_simps [simp]:
  "succeeds (Inl e, w) = False" "succeeds (Inr x, w) = True"
  by (simp_all add: succeeds_def)

lemma fst_case_sum_pair [simp]: "fst (case s of Inl e \<Rightarrow> (Inl e, w) | Inr x \<Rightarrow> f x) =
   (case s of Inl e \<Rightarrow> Inl e | Inr x \<Rightarrow> fst (f x))"
  by (cases s) auto

lemma outcome_cases [case_names fails returns]:
  assumes "\<And>e w'. r = (Inl e, w') \<Longrightarrow> P" and "\<And>x w'. r = (Inr x, w') \<Longrightarrow> P"
  shows P
  using assms by (cases r; cases "fst r") auto

lemma find_Some_set: "List.find P xs = Some x \<Longrightarrow> x \<in> set xs \<and> P x"
  by (induction xs) (auto split: if_splits)

lemma tkeys_filter:
  assumes "tkeys key rows"
  shows "distinct (map key (filter P rows))" and "tget key i rows = Some r \<Longrightarrow> i \<in> key ` set (filter P rows) \<longleftrightarrow> P r"
proof -
  show "distinct (map key (filter P rows))" using assms by (simp add: tkeys_def distinct_map_filter)
  assume g: "tget key i rows = Some r"
  have r: "r \<in> set rows" "key r = i" using tget_Some [OF g] by auto
  have "x = r" if "x \<in> set rows" "i = key x" for x using tget_in_set [OF assms that(1)] that(2) g by simp
  then show "i \<in> key ` set (filter P rows) \<longleftrightarrow> P r" unfolding set_filter image_iff using r by blast
qed

end
