(* ===== verification/Money.thy ===== *)
theory Money
  imports Prelude
begin

text \<open>
  \<open>backend/app/money.py\<close>: the canonical money arithmetic. A finite \<open>Decimal\<close> is a
  rational; the columns of the schema hold multiples of \<open>10^-8\<close>.
\<close>

section \<open>Decimals\<close>

type_synonym decimal = rat

text \<open>\<open>Decimal(str(x))\<close> of a caller's value: a number, an infinity or a NaN.\<close>

datatype pydecimal = Finite decimal | PosInfinity | NegInfinity | NotANumber

definition is_finite :: "pydecimal \<Rightarrow> bool" where
  "is_finite v = (case v of Finite _ \<Rightarrow> True | _ \<Rightarrow> False)"

definition MONEY_PRECISION :: nat where "MONEY_PRECISION = 28"
definition MONEY_SCALE :: nat where "MONEY_SCALE = 8"

section \<open>Rounding\<close>

text \<open>\<open>ROUND_HALF_EVEN\<close>, the mode \<open>MONEY_ROUNDING\<close> pins.\<close>

definition round_half_even :: "rat \<Rightarrow> int" where
  "round_half_even x =
     (let f = \<lfloor>x\<rfloor>; r = x - of_int f
      in if r < 1/2 then f else if 1/2 < r then f + 1 else if even f then f else f + 1)"

definition quantize_money :: "decimal \<Rightarrow> nat \<Rightarrow> decimal" where
  "quantize_money v decimals = of_int (round_half_even (v * 10 ^ decimals)) / 10 ^ decimals"

text \<open>
  What a \<open>Numeric(28, 8)\<close> column keeps of a value written to it: PostgreSQL rounds a
  \<open>numeric\<close> to the column's scale, ties away from zero.
\<close>

definition round_half_away :: "rat \<Rightarrow> int" where
  "round_half_away x = (if x < 0 then - \<lfloor>1/2 - x\<rfloor> else \<lfloor>x + 1/2\<rfloor>)"

definition column :: "decimal \<Rightarrow> decimal" where
  "column x = of_int (round_half_away (x * 10 ^ MONEY_SCALE)) / 10 ^ MONEY_SCALE"

section \<open>The decimal grid\<close>

text \<open>\<open>on_grid d x\<close>: \<open>x\<close> has at most \<open>d\<close> fractional digits.\<close>

definition on_grid :: "nat \<Rightarrow> decimal \<Rightarrow> bool" where
  "on_grid d x = (of_int \<lfloor>x * 10 ^ d\<rfloor> = x * 10 ^ d)"

abbreviation storable :: "decimal \<Rightarrow> bool" where
  "storable x \<equiv> on_grid MONEY_SCALE x"

lemma on_grid_iff: "on_grid d x \<longleftrightarrow> (\<exists>n::int. x * 10 ^ d = of_int n)"
  unfolding on_grid_def by (metis floor_of_int)

lemma on_gridI: "x * 10 ^ d = of_int n \<Longrightarrow> on_grid d x"
  by (auto simp: on_grid_iff)

lemma on_grid_0 [grid, simp]: "on_grid d 0"
  by (simp add: on_grid_def)

lemma on_grid_add [grid]: "on_grid d x \<Longrightarrow> on_grid d y \<Longrightarrow> on_grid d (x + y)"
  unfolding on_grid_iff by (metis distrib_right of_int_add)

lemma on_grid_diff [grid]: "on_grid d x \<Longrightarrow> on_grid d y \<Longrightarrow> on_grid d (x - y)"
  unfolding on_grid_iff by (metis left_diff_distrib of_int_diff)

lemma on_grid_max [grid]: "on_grid d x \<Longrightarrow> on_grid d y \<Longrightarrow> on_grid d (max x y)"
  by (simp add: max_def)

lemma on_grid_quantize [grid, simp]: "on_grid d (quantize_money v d)"
  by (auto simp: on_grid_iff quantize_money_def)

lemma on_grid_column [grid, simp]: "storable (column x)"
  by (auto simp: on_grid_iff column_def)

lemma on_grid_mono:
  assumes "on_grid d x" and "d \<le> e"
  shows "on_grid e x"
proof -
  from assms(1) obtain n :: int where n: "x * 10 ^ d = of_int n"
    by (auto simp: on_grid_iff)
  have "x * 10 ^ e = (x * 10 ^ d) * 10 ^ (e - d)"
    using assms(2) by (simp add: mult.assoc flip: power_add)
  also have "\<dots> = of_int (n * 10 ^ (e - d))"
    by (simp add: n)
  finally show ?thesis by (rule on_gridI)
qed

lemma storable_quantize [grid]: "d \<le> MONEY_SCALE \<Longrightarrow> storable (quantize_money v d)"
  by (blast intro: on_grid_mono on_grid_quantize)

lemma round_half_even_of_int [simp]: "round_half_even (of_int n) = n"
  by (simp add: round_half_even_def)

lemma round_half_away_of_int [simp]: "round_half_away (of_int n) = n"
proof -
  have "\<lfloor>of_int n + (1/2 :: rat)\<rfloor> = n" and "\<lfloor>(1/2 :: rat) - of_int n\<rfloor> = - n"
    by linarith+
  then show ?thesis by (simp add: round_half_away_def)
qed

lemma quantize_on_grid [simp]: "on_grid d x \<Longrightarrow> quantize_money x d = x"
  unfolding on_grid_iff quantize_money_def by (elim exE) (simp add: divide_eq_eq)

lemma column_storable [simp]: "storable x \<Longrightarrow> column x = x"
  unfolding on_grid_iff column_def by (elim exE) (simp add: divide_eq_eq)

lemma quantize_idem [simp]: "quantize_money (quantize_money v d) d = quantize_money v d"
  by simp

lemma round_half_even_bounds: "of_int (round_half_even x) \<le> x + 1/2 \<and> x - 1/2 \<le> of_int (round_half_even x)"
  unfolding round_half_even_def Let_def by (auto; linarith)

lemma round_half_even_mono: "x \<le> y \<Longrightarrow> round_half_even x \<le> round_half_even y"
proof -
  assume le: "x \<le> y"
  then have f: "\<lfloor>x\<rfloor> \<le> \<lfloor>y\<rfloor>" by (rule floor_mono)
  show ?thesis
  proof (cases "\<lfloor>x\<rfloor> = \<lfloor>y\<rfloor>")
    case True
    with le show ?thesis by (auto simp: round_half_even_def Let_def)
  next
    case False
    with f have "\<lfloor>x\<rfloor> + 1 \<le> \<lfloor>y\<rfloor>" by linarith
    moreover have "round_half_even x \<le> \<lfloor>x\<rfloor> + 1" and "\<lfloor>y\<rfloor> \<le> round_half_even y"
      by (auto simp: round_half_even_def Let_def)
    ultimately show ?thesis by linarith
  qed
qed

lemma quantize_mono: "x \<le> y \<Longrightarrow> quantize_money x d \<le> quantize_money y d"
  unfolding quantize_money_def
  by (intro divide_right_mono) (auto intro!: round_half_even_mono mult_right_mono)

lemma quantize_le_grid: "x \<le> g \<Longrightarrow> on_grid d g \<Longrightarrow> quantize_money x d \<le> g"
  using quantize_mono [of x g d] by simp

lemma quantize_ge_grid: "g \<le> x \<Longrightarrow> on_grid d g \<Longrightarrow> g \<le> quantize_money x d"
  using quantize_mono [of g x d] by simp

lemma quantize_nonneg [simp]: "0 \<le> x \<Longrightarrow> 0 \<le> quantize_money x d"
  by (rule quantize_ge_grid) simp_all

lemma quantize_0 [simp]: "quantize_money 0 d = 0"
  by simp

lemma grid_gap:
  assumes "on_grid d x" and "on_grid d y" and "x < y"
  shows "x + 1 / 10 ^ d \<le> y"
proof -
  obtain m n :: int where m: "x * 10 ^ d = of_int m" and n: "y * 10 ^ d = of_int n"
    using assms(1,2) by (auto simp: on_grid_iff)
  have "(of_int m :: rat) < of_int n"
    using assms(3) by (simp flip: m n)
  then have "(of_int (m + 1) :: rat) \<le> of_int n"
    by (simp del: of_int_add)
  then have "(x + 1 / 10 ^ d) * 10 ^ d \<le> y * 10 ^ d"
    by (simp add: m n distrib_right)
  then show ?thesis by simp
qed

section \<open>Properties\<close>

lemma round_half_even_nearest:
  "\<bar>of_int (round_half_even x) - x\<bar> \<le> \<bar>of_int n - (x :: rat)\<bar>"
proof -
  define f :: rat where "f = of_int \<lfloor>x\<rfloor>"
  have f: "f \<le> x" "x < f + 1" unfolding f_def by linarith+
  have k: "of_int (round_half_even x) = f \<and> x - f \<le> 1/2 \<or>
      of_int (round_half_even x) = f + 1 \<and> 1/2 \<le> x - f"
    by (auto simp: round_half_even_def Let_def f_def)
  have "of_int n \<le> f \<or> f + 1 \<le> (of_int n :: rat)"
  proof (cases "n \<le> \<lfloor>x\<rfloor>")
    case False
    then have "\<lfloor>x\<rfloor> + 1 \<le> n" by simp
    then have "(of_int (\<lfloor>x\<rfloor> + 1) :: rat) \<le> of_int n" by (simp only: of_int_le_iff)
    then show ?thesis by (simp add: f_def)
  qed (simp add: f_def)
  with f k show ?thesis by linarith
qed

lemma quantize_nearest:
  assumes "on_grid d g"
  shows "\<bar>quantize_money v d - v\<bar> \<le> \<bar>g - v\<bar>"
proof -
  obtain n :: int where n: "g * 10 ^ d = of_int n"
    using assms by (auto simp: on_grid_iff)
  have scale: "\<bar>y - v\<bar> * 10 ^ d = \<bar>y * 10 ^ d - v * 10 ^ d\<bar>" for y :: rat
    by (simp add: left_diff_distrib [symmetric] abs_mult)
  have "\<bar>quantize_money v d - v\<bar> * 10 ^ d \<le> \<bar>g - v\<bar> * 10 ^ d"
    unfolding scale n using round_half_even_nearest [of "v * 10 ^ d" n]
    by (simp add: quantize_money_def)
  then show ?thesis by simp
qed

text \<open>
  \<open>quantize_money\<close> returns a value with at most the requested number of fractional
  digits, and no other such value is closer to the argument.
\<close>

theorem quantize_money_rounds_to_nearest:
  assumes "on_grid d g"
  shows "on_grid d (quantize_money v d) \<and> \<bar>quantize_money v d - v\<bar> \<le> \<bar>g - v\<bar>"
  using quantize_nearest [OF assms] by simp

lemma quantize_money_rounds_to_nearest_witness:
  "on_grid 2 (quantize_money (1005 / 1000) 2)
     \<and> \<bar>quantize_money (1005 / 1000) 2 - 1005 / 1000\<bar> \<le> \<bar>101 / 100 - 1005 / 1000 :: rat\<bar>"
  by (rule quantize_money_rounds_to_nearest) (simp add: on_grid_def)

end
