(* ===== verification/Models.thy ===== *)
theory Models
  imports Money
begin

text \<open>
  \<open>backend/app/models.py\<close>: the enums and the mapped classes the money core reads and
  writes, one record per table and one field per column (relationships and the computed
  search vector are left out: they hold no data of their own; so are the surrogate id and
  the \<open>created_at\<close> and \<open>updated_at\<close> stamps of the rows that no operation finds by them). A nullable column is an
  option, a timestamp is a number of seconds, a \<open>Numeric(28, 8)\<close> column is a \<open>decimal\<close>.
  The second half is the database: the tables, the id sequences, and what has been handed
  to the WebSocket manager and the bot.
\<close>

section \<open>Enums\<close>

datatype DealStatus =
    cancelled | pending_confirmation | pending_payment | in_progress | completed
  | arbitration | resolved_for_buyer | resolved_for_seller | pending_cancellation
  | cancelled_for_inactivity | pending_topup

definition status_value :: "DealStatus \<Rightarrow> string" where
  "status_value st = (case st of
      cancelled \<Rightarrow> ''cancelled'' | pending_confirmation \<Rightarrow> ''pending_confirmation''
    | pending_payment \<Rightarrow> ''pending_payment'' | in_progress \<Rightarrow> ''in_progress''
    | completed \<Rightarrow> ''completed'' | arbitration \<Rightarrow> ''arbitration''
    | resolved_for_buyer \<Rightarrow> ''resolved_for_buyer'' | resolved_for_seller \<Rightarrow> ''resolved_for_seller''
    | pending_cancellation \<Rightarrow> ''pending_cancellation''
    | cancelled_for_inactivity \<Rightarrow> ''cancelled_for_inactivity'' | pending_topup \<Rightarrow> ''pending_topup'')"

definition TERMINAL_DEAL_STATUSES :: "DealStatus list" where
  "TERMINAL_DEAL_STATUSES =
     [cancelled, completed, resolved_for_buyer, resolved_for_seller, cancelled_for_inactivity]"

datatype NotificationType = NT_deals | NT_deposits | NT_system

datatype ServiceStatus = SV_draft | SV_active | SV_paused | SV_banned

datatype WalletDepositProvider = cryptobot | crystalpay

datatype WalletDepositStatus = DS_pending | DS_paid | DS_expired | DS_refunded

datatype WalletWithdrawStatus = WS_pending | WS_approved | WS_sent | WS_rejected

text \<open>\<open>WalletDeposit.purpose\<close>: the three values the CHECK constraint admits.\<close>

datatype deposit_purpose = P_wallet | P_trust | P_deal_topup

text \<open>\<open>Currency.kind\<close>.\<close>

datatype currency_kind = K_fiat | K_crypto | K_other string

section \<open>JSON values and texts\<close>

text \<open>A JSON value of a notification payload.\<close>

datatype json = JInt int | JStr string | JBool bool | JNull

type_synonym payload = "(string \<times> json) list"

text \<open>The \<open>meta\<close> of a ledger row and the payload of an audit or approval row; \<open>MDec\<close> is
  \<open>str\<close> of a \<open>Decimal\<close>.\<close>

datatype meta_value =
    MInt int | MStr string | MDec decimal | MBool bool | MNull
  | MObj "(string \<times> meta_value) list" | MKeys "string list"

type_synonym meta = "(string \<times> meta_value) list"

text \<open>How a text names a user: \<open>username or tg_user_id\<close>.\<close>

datatype mention = AtUsername string | AtTgId int

text \<open>How a text names a payout address: whole, shortened to \<open>head...tail\<close>, or the
  CryptoBot account of the user.\<close>

datatype address_label = WholeAddress string | ShortAddress string string | ToCryptoBot

text \<open>The notification texts of the money core: one constructor per title and body template,
  applied to the values the template interpolates.\<close>

datatype notice =
    N_new_deal mention int decimal string
  | N_new_deal_awaiting_payment mention int decimal string
  | N_topup_for_closed_deal decimal string int
  | N_topup_partial decimal string decimal int
  | N_topup_balance_short decimal string decimal int
  | N_deal_paid int
  | N_deal_awaits_seller int
  | N_topup_expired int
  | N_topup_cancelled int
  | N_deal_accepted int
  | N_deal_declined int bool
  | N_deal_completed decimal string int
  | N_cancel_requested int string
  | N_cancel_revoked int
  | N_cancel_accepted int bool
  | N_arbitration_opened int string
  | N_arbitration_resolved int bool
  | N_inactivity_closed int
  | N_deposit_credited decimal string
  | N_trust_credited decimal string
  | N_deposit_expired decimal string
  | N_withdraw_sent decimal string address_label
  | N_withdraw_failed decimal string
  | N_withdraw_request mention decimal string address_label
  | N_withdraw_swept decimal string
  | N_withdraw_rejected decimal string "string option"
  | N_deposit_marked_paid decimal string
  | N_deposit_refunded decimal string
  | N_admin_released_seller decimal string int
  | N_admin_released_buyer int
  | N_admin_refunded_buyer decimal string int
  | N_admin_refunded_seller int
  | N_admin_split decimal string int
  | N_admin_arbitration int
  | N_admin_arbiter_assigned int
  | N_admin_deleted int "(decimal \<times> string) option"
  | N_arbiter_claimed int
  | N_review_received mention int
  | N_account string "string option"
  | N_role "(string \<times> bool) list"
  | N_rating "decimal option"
  | N_trust_set decimal

text \<open>The status dictionaries the webhook handlers return and the inbox stores.\<close>

datatype webhook_result =
    WR_status_not_paid | WR_missing_invoice_id | WR_unknown_invoice | WR_already_paid
  | WR_amount_mismatch | WR_credited deposit_purpose | WR_already_terminal | WR_expired
  | WR_deposit_not_pending | WR_ignored_state string | WR_ignored_type string
  | WR_processing_failed

section \<open>Tables\<close>

record user =
  u_id :: int
  u_tg_user_id :: int
  u_username :: "string option"
  u_display_name :: string
  u_photo_url :: "string option"
  u_banner_url :: "string option"
  u_description :: string
  u_is_admin :: bool
  u_is_arbiter :: bool
  u_deals_total :: int
  u_deals_success :: int
  u_deals_failed :: int
  u_deals_arbitrage :: int
  u_deals_sum_override :: decimal
  u_good :: int
  u_bad :: int
  u_pin_hash :: "string option"
  u_pin_attempts :: int
  u_pin_locked_until :: "int option"
  u_pin_reset_code_hash :: "string option"
  u_pin_reset_expires :: "int option"
  u_pin_session_epoch :: int
  u_pin_reset_attempts :: int
  u_pin_reset_window_started_at :: "int option"
  u_dm_deals :: bool
  u_dm_deposits :: bool
  u_dm_system :: bool
  u_is_anonymous_deals :: bool
  u_is_hidden_profile :: bool
  u_is_banned :: bool
  u_ban_reason :: "string option"
  u_is_frozen :: bool
  u_freeze_reason :: "string option"
  u_is_vip :: bool
  u_last_ip :: "string option"
  u_last_login_at :: "int option"
  u_language_code :: "string option"
  u_login_count :: int
  u_sessions_count :: int
  u_trust_deposit_balance :: decimal
  u_country :: "string option"
  u_display_currency_code :: "string option"
  u_rating_manual :: "decimal option"
  u_totp_secret :: "string option"
  u_totp_enabled :: bool
  u_totp_last_counter :: int
  u_totp_session_epoch :: int
  u_pin_last_activity_at :: "int option"
  u_created_at :: int

record deal =
  d_id :: int
  d_buyer_id :: int
  d_seller_id :: int
  d_description :: string
  d_status :: DealStatus
  d_confirm_buyer :: bool
  d_confirm_seller :: bool
  d_created_at :: int
  d_completed_at :: "int option"
  d_currency_id :: int
  d_amount :: decimal
  d_commission_amount :: "decimal option"
  d_in_progress_at :: "int option"
  d_cancellation_initiator_id :: "int option"
  d_cancellation_reason :: "string option"
  d_cancellation_requested_at :: "int option"
  d_arbitration_initiator_id :: "int option"
  d_arbitration_reason :: "string option"
  d_arbitration_resolved_by :: "int option"
  d_arbitration_resolution :: "string option"
  d_arbitration_resolved_at :: "int option"
  d_payment_provider :: string
  d_topup_deposit_id :: "int option"
  d_commission_paid :: bool

record notification =
  n_id :: int
  n_recipient_id :: int
  n_type :: NotificationType
  n_notice :: notice
  n_payload :: "payload option"
  n_is_read :: bool
  n_created_at :: int

record notification_dlq =
  q_notification_id :: "int option"
  q_recipient_id :: int
  q_reason :: string
  q_encoded_bytes :: nat
  q_payload_keys :: "string list"
  q_payload_excerpt :: "string option"

record app_settings =
  s_id :: int
  s_deal_commission_percent :: decimal
  s_inactivity_pending_confirmation_days :: int
  s_inactivity_pending_cancellation_days :: int
  s_max_active_services_per_user :: int
  s_vip_commission_percent :: decimal
  s_maintenance_enabled :: bool
  s_maintenance_message :: string
  s_auto_withdraw_enabled :: bool
  s_pending_topup_expiry_hours :: int
  s_pin_reset_price_usd :: decimal
  s_faq_stats_badge_enabled :: bool
  s_faq_stats_users :: int
  s_faq_stats_deals :: int
  s_faq_stats_total_usd :: decimal

text \<open>The default message is translated here. The row \<open>INSERT INTO app_settings DEFAULT VALUES\<close> makes.\<close>

definition default_app_settings :: app_settings where
  "default_app_settings =
     \<lparr> s_id = 1, s_deal_commission_percent = 5, s_inactivity_pending_confirmation_days = 7,
       s_inactivity_pending_cancellation_days = 3, s_max_active_services_per_user = 10, s_vip_commission_percent = -1,
       s_maintenance_enabled = False, s_maintenance_message = ''Service under maintenance. Come back later.'', s_auto_withdraw_enabled = False,
       s_pending_topup_expiry_hours = 24, s_pin_reset_price_usd = 3,
       s_faq_stats_badge_enabled = False, s_faq_stats_users = 0, s_faq_stats_deals = 0,
       s_faq_stats_total_usd = 0 \<rparr>"

record currency =
  c_id :: int
  c_code :: string
  c_name :: string
  c_network :: string
  c_icon_url :: string
  c_decimals :: nat
  c_min_deposit :: decimal
  c_min_withdraw :: decimal
  c_is_active :: bool
  c_sort_order :: int
  c_address_regex :: string
  c_kind :: currency_kind

record currency_usd_rate =
  r_id :: int
  r_currency_id :: int
  r_usd_rate :: decimal
  r_source :: string
  r_observed_at :: int
  r_updated_by_id :: "int option"

record user_balance =
  b_user_id :: int
  b_currency_id :: int
  b_amount :: decimal
  b_locked :: decimal

record ledger_entry =
  l_user_id :: int
  l_currency_id :: int
  l_event_type :: string
  l_source_type :: string
  l_source_id :: "int option"
  l_provider :: "string option"
  l_provider_event_id :: "string option"
  l_amount_before :: decimal
  l_amount_delta :: decimal
  l_amount_after :: decimal
  l_locked_before :: decimal
  l_locked_delta :: decimal
  l_locked_after :: decimal
  l_meta :: "meta option"

record wallet_deposit =
  dep_id :: int
  dep_user_id :: int
  dep_currency_id :: int
  dep_amount :: decimal
  dep_provider :: WalletDepositProvider
  dep_provider_invoice_id :: string
  dep_pay_url :: string
  dep_status :: WalletDepositStatus
  dep_purpose :: deposit_purpose
  dep_linked_deal_id :: "int option"
  dep_created_at :: int
  dep_paid_at :: "int option"
  dep_paid_amount :: "decimal option"

record wallet_withdrawal =
  wd_id :: int
  wd_user_id :: int
  wd_currency_id :: int
  wd_amount :: decimal
  wd_address :: "string option"
  wd_status :: WalletWithdrawStatus
  wd_admin_note :: string
  wd_created_at :: int
  wd_processed_at :: "int option"

record admin_approval_request =
  ar_id :: int
  ar_action :: string
  ar_target_type :: string
  ar_target_id :: int
  ar_status :: string
  ar_requested_by_id :: "int option"
  ar_approved_by_id :: "int option"
  ar_executed_by_id :: "int option"
  ar_currency_id :: "int option"
  ar_rate_id :: "int option"
  ar_amount :: "decimal option"
  ar_amount_usd_estimate :: "decimal option"
  ar_reason :: "string option"
  ar_payload :: "meta option"
  ar_created_at :: int
  ar_approved_at :: "int option"
  ar_executed_at :: "int option"
  ar_rejected_at :: "int option"

record admin_audit_log =
  al_actor_id :: "int option"
  al_action :: string
  al_target_type :: "string option"
  al_target_id :: "int option"
  al_reason :: "string option"
  al_payload :: "meta option"

text \<open>The payload column repeats the body of the delivery and has no field here; the error
  column is the class of the exception.\<close>

datatype py_exception = AnHTTPException | AValueError | AnOtherException

record provider_webhook_event =
  we_id :: int
  we_provider :: WalletDepositProvider
  we_event_id :: string
  we_event_type :: string
  we_provider_invoice_id :: "string option"
  we_status :: string
  we_attempts :: int
  we_raw_sha256 :: string
  we_headers_json :: "(string \<times> string) list"
  we_result_json :: "webhook_result option"
  we_error :: "py_exception option"
  we_created_at :: int
  we_processed_at :: "int option"

record provider_webhook_outbox =
  wo_webhook_event_id :: int
  wo_kind :: string
  wo_status :: string
  wo_payload_json :: webhook_result

text \<open>The catalogue, the reviews and the codes of the account transfer. The rendered columns of a
  service (photos, search vector) have no field.\<close>

record category =
  cat_id :: int
  cat_slug :: string
  cat_name :: string
  cat_icon :: string

record service =
  sv_id :: int
  sv_owner_id :: int
  sv_category_id :: int
  sv_title :: string
  sv_description :: string
  sv_price :: decimal
  sv_status :: ServiceStatus
  sv_ban_reason :: "string option"
  sv_views :: int
  sv_deals_count :: int
  sv_deposit :: decimal
  sv_rating_manual :: "decimal option"
  sv_photo_urls :: "string list"
  sv_created_at :: int
  sv_currency_id :: "int option"

record review =
  rv_id :: int
  rv_author_id :: int
  rv_target_id :: int
  rv_deal_id :: "int option"
  rv_rating :: int
  rv_text :: string
  rv_created_at :: int

record account_transfer_code =
  tc_id :: int
  tc_source_user_id :: int
  tc_code_hash :: string
  tc_expires_at :: int
  tc_consumed_at :: "int option"
  tc_target_tg_user_id :: "int option"
  tc_created_at :: int

record forum =
  fo_id :: int
  fo_owner_id :: int
  fo_name :: string
  fo_url :: string

record service_comment =
  sc_id :: int
  sc_service_id :: int
  sc_author_id :: int
  sc_text :: string
  sc_rating :: "int option"
  sc_created_at :: int

end
