(* ===== verification/World.thy ===== *)
theory World
  imports Models
begin

text \<open>
  The database and the session. A \<open>world\<close> is the committed state of the tables, with the
  id sequences and the list of events handed to the WebSocket manager and the bot. A helper
  that runs inside a transaction (no \<open>commit\<close> of its own) takes a world and returns
  \<open>py_error + ('a \<times> world)\<close>: an exception leaves the transaction to be rolled back by the
  session context manager. An operation that commits returns an outcome: the exception or
  the value, with the state that is committed when it returns.

  One SQL row is locked by one transaction at a time, so a single transaction is a function
  of the world it starts from; an operation with several commits is one function per
  transaction, and anything may happen between two of them.
\<close>

section \<open>Exceptions\<close>

text \<open>What a raise says: one constructor per message of the code.\<close>

datatype detail =
    E_self_deal | E_amount_not_positive | E_commission_below_precision
  | E_buyer_vanished | E_currency_vanished | E_no_currency
  | E_cancel_topup_buyer_only | E_bad_status
  | E_accept_seller_only | E_decline_seller_only | E_finish_buyer_only
  | E_not_participant | E_cancel_only_in_progress | E_no_cancel_request
  | E_revoke_initiator_only | E_initiator_cannot_accept
  | E_no_arbitration_reason | E_arbiter_only | E_not_in_arbitration | E_bad_winner
  | E_deal_not_found | E_user_not_found | E_forbidden | E_buyer_creates
  | E_currency_not_supported string
  | E_min_deposit decimal string | E_unknown_purpose | E_unknown_provider
  | E_provider_not_configured WalletDepositProvider
  | E_provider_failed WalletDepositProvider | E_no_pay_url WalletDepositProvider
  | E_min_withdraw decimal string | E_bad_address | E_no_delivery_path
  | E_insufficient_funds | E_settings_row | E_other string | E_referenced "string list"
  | E_body_too_large | E_bad_content_length | E_webhooks_disabled | E_bad_signature
  | E_body_not_json | E_body_not_object
  | E_withdrawal_not_found | E_currency_not_found | E_withdrawal_decided
  | E_withdrawal_not_approved | E_deposit_not_found | E_deposit_not_paid
  | E_approval_not_found | E_approval_not_approved | E_approval_mismatch
  | E_approval_second_admin | E_approval_not_pending | E_not_active | E_deal_closed
  | E_assign_only_in_arbitration | E_not_an_arbiter

datatype py_error =
    HTTP nat detail
  | ValueErr detail
  | InsufficientFundsError decimal decimal "string option"
  | InvalidOperation
  | IntegrityError
  | DataError
  | RuntimeErr detail
  | NoResultFound

text \<open>\<open>except ValueError as e: raise HTTPException(400, str(e))\<close>, the handler of every deal
  endpoint; \<open>InsufficientFundsError\<close> is a \<open>ValueError\<close> and says \<open>E_insufficient_funds\<close>.\<close>

definition value_error_detail :: "py_error \<Rightarrow> detail option" where
  "value_error_detail e =
     (case e of ValueErr d \<Rightarrow> Some d
      | InsufficientFundsError _ _ _ \<Rightarrow> Some E_insufficient_funds
      | _ \<Rightarrow> None)"

section \<open>Events\<close>

datatype ws_event =
    WsNotification int int NotificationType notice "payload option"
  | WsDealUpdated int int "DealStatus option"
  | WsPinReset int
  | WsRead int "int list" bool "NotificationType option"

text \<open>The two messages the bot sends outside the notifier: a code in the clear.\<close>

datatype code_message = PinResetCode string | TransferCode string

datatype event =
    Publish ws_event
  | SendDM int NotificationType notice "payload option"
  | SendCode int code_message
  | CloseSockets int

section \<open>The database\<close>

record world =
  t_users :: "user list"
  t_currencies :: "currency list"
  t_usd_rates :: "currency_usd_rate list"
  t_balances :: "user_balance list"
  t_deals :: "deal list"
  t_deposits :: "wallet_deposit list"
  t_withdrawals :: "wallet_withdrawal list"
  t_ledger :: "ledger_entry list"
  t_notifications :: "notification list"
  t_dlq :: "notification_dlq list"
  t_app_settings :: "app_settings option"
  t_approvals :: "admin_approval_request list"
  t_audit :: "admin_audit_log list"
  t_webhook_events :: "provider_webhook_event list"
  t_webhook_outbox :: "provider_webhook_outbox list"
  t_categories :: "category list"
  t_services :: "service list"
  t_reviews :: "review list"
  t_transfer_codes :: "account_transfer_code list"
  t_forums :: "forum list"
  t_comments :: "service_comment list"
  seq_deals :: int
  seq_deposits :: int
  seq_withdrawals :: int
  seq_notifications :: int
  seq_approvals :: int
  seq_webhook_events :: int
  seq_currencies :: int
  seq_categories :: int
  seq_reviews :: int
  seq_transfer_codes :: int
  seq_users :: int
  seq_services :: int
  seq_forums :: int
  seq_comments :: int
  sent_events :: "event list"

type_synonym 'a tx = "world \<Rightarrow> py_error + ('a \<times> world)"
type_synonym 'a result = "(py_error, 'a, world) outcome"

definition run_tx :: "world \<Rightarrow> py_error + ('a \<times> world) \<Rightarrow> 'a result" where
  "run_tx w r = (case r of Inl e \<Rightarrow> (Inl e, w) | Inr (x, w') \<Rightarrow> (Inr x, w'))"

definition emit :: "event list \<Rightarrow> world \<Rightarrow> world" where
  "emit es w = w \<lparr> sent_events := sent_events w @ es \<rparr>"

section \<open>Reads\<close>

definition bkey :: "user_balance \<Rightarrow> int \<times> int" where
  "bkey b = (b_user_id b, b_currency_id b)"

definition get_user :: "int \<Rightarrow> world \<Rightarrow> user option" where
  "get_user i w = tget u_id i (t_users w)"

definition get_currency :: "int \<Rightarrow> world \<Rightarrow> currency option" where
  "get_currency i w = tget c_id i (t_currencies w)"

definition get_balance :: "int \<Rightarrow> int \<Rightarrow> world \<Rightarrow> user_balance option" where
  "get_balance u c w = tget bkey (u, c) (t_balances w)"

definition get_deal :: "int \<Rightarrow> world \<Rightarrow> deal option" where
  "get_deal i w = tget d_id i (t_deals w)"

definition get_deposit :: "int \<Rightarrow> world \<Rightarrow> wallet_deposit option" where
  "get_deposit i w = tget dep_id i (t_deposits w)"

definition get_withdrawal :: "int \<Rightarrow> world \<Rightarrow> wallet_withdrawal option" where
  "get_withdrawal i w = tget wd_id i (t_withdrawals w)"

section \<open>Writes\<close>

text \<open>
  The flush of a changed object to its row. The money columns are \<open>Numeric(28, 8)\<close>, so
  what the row keeps of a value is its \<open>column\<close>.
\<close>

definition balance_row :: "user_balance \<Rightarrow> user_balance" where
  "balance_row b = b \<lparr> b_amount := column (b_amount b), b_locked := column (b_locked b) \<rparr>"

definition deal_row :: "deal \<Rightarrow> deal" where
  "deal_row d = d \<lparr> d_amount := column (d_amount d),
                   d_commission_amount := map_option column (d_commission_amount d) \<rparr>"

definition deposit_row :: "wallet_deposit \<Rightarrow> wallet_deposit" where
  "deposit_row d = d \<lparr> dep_amount := column (dep_amount d),
                      dep_paid_amount := map_option column (dep_paid_amount d) \<rparr>"

definition withdrawal_row :: "wallet_withdrawal \<Rightarrow> wallet_withdrawal" where
  "withdrawal_row x = x \<lparr> wd_amount := column (wd_amount x) \<rparr>"

definition save_balance :: "user_balance \<Rightarrow> world \<Rightarrow> world" where
  "save_balance b w = w \<lparr> t_balances := tput bkey (balance_row b) (t_balances w) \<rparr>"

definition save_deal :: "deal \<Rightarrow> world \<Rightarrow> world" where
  "save_deal d w = w \<lparr> t_deals := tput d_id (deal_row d) (t_deals w) \<rparr>"

definition save_deposit :: "wallet_deposit \<Rightarrow> world \<Rightarrow> world" where
  "save_deposit d w = w \<lparr> t_deposits := tput dep_id (deposit_row d) (t_deposits w) \<rparr>"

definition save_withdrawal :: "wallet_withdrawal \<Rightarrow> world \<Rightarrow> world" where
  "save_withdrawal x w =
     w \<lparr> t_withdrawals := tput wd_id (withdrawal_row x) (t_withdrawals w) \<rparr>"

definition save_user :: "user \<Rightarrow> world \<Rightarrow> world" where
  "save_user u w = w \<lparr> t_users := tput u_id
     (u \<lparr> u_trust_deposit_balance := column (u_trust_deposit_balance u) \<rparr>) (t_users w) \<rparr>"

text \<open>\<open>session.add\<close> and \<open>flush\<close> of a new object: the sequence gives its id.\<close>

definition insert_deal :: "deal \<Rightarrow> world \<Rightarrow> deal \<times> world" where
  "insert_deal d w =
     (let d' = d \<lparr> d_id := seq_deals w \<rparr>
      in (d', w \<lparr> t_deals := t_deals w @ [deal_row d'], seq_deals := seq_deals w + 1 \<rparr>))"

text \<open>The deposits table is UNIQUE on \<open>(provider, provider_invoice_id)\<close>.\<close>

definition insert_deposit :: "wallet_deposit \<Rightarrow> wallet_deposit tx" where
  "insert_deposit d w =
     (if \<exists>x \<in> set (t_deposits w). dep_provider x = dep_provider d
           \<and> dep_provider_invoice_id x = dep_provider_invoice_id d
      then Inl IntegrityError
      else let d' = d \<lparr> dep_id := seq_deposits w \<rparr>
           in Inr (d', w \<lparr> t_deposits := t_deposits w @ [deposit_row d'],
                          seq_deposits := seq_deposits w + 1 \<rparr>))"

definition insert_withdrawal :: "wallet_withdrawal \<Rightarrow> world \<Rightarrow> wallet_withdrawal \<times> world" where
  "insert_withdrawal x w =
     (let x' = x \<lparr> wd_id := seq_withdrawals w \<rparr>
      in (x', w \<lparr> t_withdrawals := t_withdrawals w @ [withdrawal_row x'],
                 seq_withdrawals := seq_withdrawals w + 1 \<rparr>))"

text \<open>\<open>update(User).where(User.id.in_(ids)).values(...)\<close>.\<close>

definition bump_users :: "int list \<Rightarrow> (user \<Rightarrow> user) \<Rightarrow> world \<Rightarrow> world" where
  "bump_users ids f w = w \<lparr> t_users := tupd (\<lambda>u. u_id u \<in> set ids) f (t_users w) \<rparr>"

lemma run_tx_simps [simp]:
  "run_tx w (Inl e) = (Inl e, w)" "run_tx w (Inr (x, w')) = (Inr x, w')"
  by (simp_all add: run_tx_def)

end
