(* ===== verification/Ledger.thy ===== *)
theory Ledger
  imports World
begin

text \<open>
  \<open>backend/app/services_ledger.py\<close>: the append-only trail of balance changes and the USD
  estimate the admin panel shows. \<open>ledger_event\<close> gathers the keyword arguments of a
  \<open>record_*\<close> call.
\<close>

record ledger_event =
  ev_type :: string
  ev_source_type :: string
  ev_source_id :: "int option"
  ev_provider :: "string option"
  ev_provider_event_id :: "string option"
  ev_meta :: "meta option"

definition ledger_row :: "ledger_entry \<Rightarrow> ledger_entry" where
  "ledger_row e = e \<lparr>
     l_amount_before := column (l_amount_before e), l_amount_delta := column (l_amount_delta e),
     l_amount_after := column (l_amount_after e), l_locked_before := column (l_locked_before e),
     l_locked_delta := column (l_locked_delta e), l_locked_after := column (l_locked_after e) \<rparr>"

definition append_ledger :: "ledger_entry \<Rightarrow> world \<Rightarrow> world" where
  "append_ledger e w = w \<lparr> t_ledger := t_ledger w @ [ledger_row e] \<rparr>"

definition latest_usd_rate :: "int \<Rightarrow> world \<Rightarrow> currency_usd_rate option" where
  "latest_usd_rate cid w = List.find (\<lambda>r. r_currency_id r = cid) (t_usd_rates w)"

definition usd_estimate :: "decimal \<Rightarrow> currency_usd_rate option \<Rightarrow> decimal option" where
  "usd_estimate amount rate = map_option (\<lambda>r. amount * r_usd_rate r) rate"

definition record_balance_ledger ::
  "user_balance \<Rightarrow> decimal \<Rightarrow> decimal \<Rightarrow> ledger_event \<Rightarrow> world \<Rightarrow> ledger_entry option \<times> world" where
  "record_balance_ledger balance before_amount before_locked ev w =
     (let after_amount = b_amount balance;
          after_locked = b_locked balance;
          amount_delta = after_amount - before_amount;
          locked_delta = after_locked - before_locked
      in if amount_delta = 0 \<and> locked_delta = 0 then (None, w)
         else let entry =
           \<lparr> l_user_id = b_user_id balance, l_currency_id = b_currency_id balance,
             l_event_type = ev_type ev, l_source_type = ev_source_type ev,
             l_source_id = ev_source_id ev, l_provider = ev_provider ev,
             l_provider_event_id = ev_provider_event_id ev,
             l_amount_before = before_amount, l_amount_delta = amount_delta,
             l_amount_after = after_amount,
             l_locked_before = before_locked, l_locked_delta = locked_delta,
             l_locked_after = after_locked, l_meta = ev_meta ev \<rparr>
         in (Some entry, append_ledger entry w))"

definition record_synthetic_ledger ::
  "int \<Rightarrow> int \<Rightarrow> decimal \<Rightarrow> decimal \<Rightarrow> ledger_event \<Rightarrow> world \<Rightarrow> ledger_entry option \<times> world" where
  "record_synthetic_ledger user_id currency_id before_amount after_amount ev w =
     (let amount_delta = after_amount - before_amount
      in if amount_delta = 0 then (None, w)
         else let entry =
           \<lparr> l_user_id = user_id, l_currency_id = currency_id,
             l_event_type = ev_type ev, l_source_type = ev_source_type ev,
             l_source_id = ev_source_id ev, l_provider = ev_provider ev,
             l_provider_event_id = ev_provider_event_id ev,
             l_amount_before = before_amount, l_amount_delta = amount_delta,
             l_amount_after = after_amount,
             l_locked_before = 0, l_locked_delta = 0, l_locked_after = 0,
             l_meta = ev_meta ev \<rparr>
         in (Some entry, append_ledger entry w))"

text \<open>The state a \<open>record_*\<close> call leaves, when its result is not used.\<close>

abbreviation ledgered ::
  "user_balance \<Rightarrow> decimal \<Rightarrow> decimal \<Rightarrow> ledger_event \<Rightarrow> world \<Rightarrow> world" where
  "ledgered b x y ev w \<equiv> snd (record_balance_ledger b x y ev w)"

definition deal_event :: "string \<Rightarrow> meta \<Rightarrow> ledger_event" where
  "deal_event ty m = \<lparr> ev_type = ty, ev_source_type = ''deal'', ev_source_id = None,
     ev_provider = None, ev_provider_event_id = None, ev_meta = Some m \<rparr>"

section \<open>Frame\<close>

text \<open>Writing the ledger changes nothing but the ledger.\<close>

lemma ledgered_only_ledger:
  "ledgered b x y ev w = w \<lparr> t_ledger := t_ledger (ledgered b x y ev w) \<rparr>"
  by (simp add: record_balance_ledger_def append_ledger_def Let_def)

lemma ledgered_frame [simp, frame]:
  "t_users (ledgered b x y ev w) = t_users w"
  "t_currencies (ledgered b x y ev w) = t_currencies w"
  "t_balances (ledgered b x y ev w) = t_balances w"
  "t_deals (ledgered b x y ev w) = t_deals w"
  "t_deposits (ledgered b x y ev w) = t_deposits w"
  "t_withdrawals (ledgered b x y ev w) = t_withdrawals w"
  "t_notifications (ledgered b x y ev w) = t_notifications w"
  "t_app_settings (ledgered b x y ev w) = t_app_settings w"
  "t_approvals (ledgered b x y ev w) = t_approvals w"
  "seq_deals (ledgered b x y ev w) = seq_deals w"
  "seq_deposits (ledgered b x y ev w) = seq_deposits w"
  "seq_withdrawals (ledgered b x y ev w) = seq_withdrawals w"
  "sent_events (ledgered b x y ev w) = sent_events w"
  by (simp_all add: record_balance_ledger_def append_ledger_def Let_def)

lemma synthetic_frame [simp, frame]:
  "t_balances (snd (record_synthetic_ledger u c x y ev w)) = t_balances w"
  "t_deals (snd (record_synthetic_ledger u c x y ev w)) = t_deals w"
  "t_deposits (snd (record_synthetic_ledger u c x y ev w)) = t_deposits w"
  "t_withdrawals (snd (record_synthetic_ledger u c x y ev w)) = t_withdrawals w"
  "t_users (snd (record_synthetic_ledger u c x y ev w)) = t_users w"
  "t_currencies (snd (record_synthetic_ledger u c x y ev w)) = t_currencies w"
  "t_app_settings (snd (record_synthetic_ledger u c x y ev w)) = t_app_settings w"
  "seq_deals (snd (record_synthetic_ledger u c x y ev w)) = seq_deals w"
  "seq_deposits (snd (record_synthetic_ledger u c x y ev w)) = seq_deposits w"
  "seq_withdrawals (snd (record_synthetic_ledger u c x y ev w)) = seq_withdrawals w"
  by (simp_all add: record_synthetic_ledger_def append_ledger_def Let_def)

section \<open>Consistency of an entry\<close>

text \<open>An entry is consistent when its snapshots and deltas agree.\<close>

definition entry_consistent :: "ledger_entry \<Rightarrow> bool" where
  "entry_consistent e \<longleftrightarrow>
     l_amount_before e + l_amount_delta e = l_amount_after e \<and>
     l_locked_before e + l_locked_delta e = l_locked_after e"

lemma record_balance_entry:
  "fst (record_balance_ledger b x y ev w) = Some e \<Longrightarrow>
     entry_consistent e \<and> l_amount_after e = b_amount b \<and> l_locked_after e = b_locked b
     \<and> l_amount_before e = x \<and> l_locked_before e = y
     \<and> t_ledger (ledgered b x y ev w) = t_ledger w @ [ledger_row e]"
  by (auto simp: record_balance_ledger_def entry_consistent_def append_ledger_def Let_def
      split: if_splits)

lemma entry_row_consistent:
  assumes "entry_consistent e"
    and "storable (l_amount_before e)" and "storable (l_amount_after e)"
    and "storable (l_locked_before e)" and "storable (l_locked_after e)"
  shows "entry_consistent (ledger_row e)"
proof -
  have "l_amount_delta e = l_amount_after e - l_amount_before e"
    and "l_locked_delta e = l_locked_after e - l_locked_before e"
    using assms(1) by (auto simp: entry_consistent_def)
  with assms have "storable (l_amount_delta e)" and "storable (l_locked_delta e)"
    by (auto intro: grid)
  with assms show ?thesis
    by (simp add: entry_consistent_def ledger_row_def)
qed

end
