(* ===== verification/Notifier.thy ===== *)
theory Notifier
  imports World "HOL-Library.List_Lexorder" "HOL-Library.Char_ord"
begin

text \<open>
  \<open>backend/app/notifier.py\<close>: the durable notification row (with the payload cap and its
  dead-letter row) written inside the caller's transaction, and the WebSocket and bot
  fan-out after the commit. The HTML text of a DM is modelled on strings; the delivery
  itself (aiogram, Redis) is the list of events of the world.
\<close>

section \<open>json.dumps\<close>

text \<open>\<open>json.dumps\<close> with its defaults (\<open>ensure_ascii\<close>, separators \<open>", "\<close> and \<open>": "\<close>) on the
  payloads the code builds. The result is ASCII, so its UTF-8 encoding has its length.\<close>

fun show_nat_fuel :: "nat \<Rightarrow> nat \<Rightarrow> string" where
  "show_nat_fuel 0 n = []"
| "show_nat_fuel (Suc k) n =
     (if n < 10 then [char_of (48 + n)]
      else show_nat_fuel k (n div 10) @ [char_of (48 + n mod 10)])"

definition show_nat :: "nat \<Rightarrow> string" where
  "show_nat n = show_nat_fuel (Suc n) n"

definition show_int :: "int \<Rightarrow> string" where
  "show_int i = (if i < 0 then CHR ''-'' # show_nat (nat (- i)) else show_nat (nat i))"

definition hex_digit :: "nat \<Rightarrow> char" where
  "hex_digit n = char_of (if n < 10 then 48 + n else 87 + n)"

definition json_escape_char :: "char \<Rightarrow> string" where
  "json_escape_char c =
     (let n = of_char c :: nat in
      if n = 34 then [CHR 0x5C, CHR 0x22]
      else if n = 92 then [CHR 0x5C, CHR 0x5C]
      else if n = 10 then [CHR 0x5C, CHR ''n'']
      else if n = 13 then [CHR 0x5C, CHR ''r'']
      else if n = 9 then [CHR 0x5C, CHR ''t'']
      else if n = 8 then [CHR 0x5C, CHR ''b'']
      else if n = 12 then [CHR 0x5C, CHR ''f'']
      else if 32 \<le> n \<and> n \<le> 126 then [c]
      else [CHR 0x5C, CHR ''u'', CHR ''0'', CHR ''0'', hex_digit (n div 16), hex_digit (n mod 16)])"

definition json_string :: "string \<Rightarrow> string" where
  "json_string s = [CHR 0x22] @ concat (map json_escape_char s) @ [CHR 0x22]"

fun json_value :: "json \<Rightarrow> string" where
  "json_value (JInt i) = show_int i"
| "json_value (JStr s) = json_string s"
| "json_value (JBool b) = (if b then ''true'' else ''false'')"
| "json_value JNull = ''null''"

fun json_members :: "payload \<Rightarrow> string" where
  "json_members [] = []"
| "json_members [(k, v)] = json_string k @ '': '' @ json_value v"
| "json_members ((k, v) # p) = json_string k @ '': '' @ json_value v @ '', '' @ json_members p"

definition json_dumps :: "payload \<Rightarrow> string" where
  "json_dumps p = ''{'' @ json_members p @ ''}''"

section \<open>The payload cap\<close>

definition NOTIFICATION_PAYLOAD_MAX_BYTES :: nat where
  "NOTIFICATION_PAYLOAD_MAX_BYTES = 4096"

definition NOTIFICATION_PAYLOAD_DLQ_EXCERPT_BYTES :: nat where
  "NOTIFICATION_PAYLOAD_DLQ_EXCERPT_BYTES = 8192"

record payload_cap_result =
  cap_stored :: "payload option"
  cap_dlq_excerpt :: "string option"
  cap_dlq_encoded_bytes :: nat
  cap_dlq_keys :: "string list option"

definition was_dropped :: "payload_cap_result \<Rightarrow> bool" where
  "was_dropped r = (cap_dlq_excerpt r \<noteq> None)"

definition check_payload_cap :: "payload option \<Rightarrow> payload_cap_result" where
  "check_payload_cap payload =
     (case payload of
        None \<Rightarrow> \<lparr> cap_stored = None, cap_dlq_excerpt = None, cap_dlq_encoded_bytes = 0,
                  cap_dlq_keys = None \<rparr>
      | Some p \<Rightarrow>
          if p = [] then \<lparr> cap_stored = None, cap_dlq_excerpt = None,
                           cap_dlq_encoded_bytes = 0, cap_dlq_keys = None \<rparr>
          else let encoded = json_dumps p; encoded_bytes = length encoded in
            if NOTIFICATION_PAYLOAD_MAX_BYTES < encoded_bytes
            then \<lparr> cap_stored = None,
                   cap_dlq_excerpt = Some (take NOTIFICATION_PAYLOAD_DLQ_EXCERPT_BYTES encoded),
                   cap_dlq_encoded_bytes = encoded_bytes,
                   cap_dlq_keys = Some (sort (map fst p)) \<rparr>
            else \<lparr> cap_stored = Some p, cap_dlq_excerpt = None, cap_dlq_encoded_bytes = 0,
                   cap_dlq_keys = None \<rparr>)"

definition payload_within_cap :: "payload option \<Rightarrow> payload option" where
  "payload_within_cap payload = cap_stored (check_payload_cap payload)"

section \<open>Direct messages\<close>

definition dm_enabled :: "user \<Rightarrow> NotificationType \<Rightarrow> bool" where
  "dm_enabled recipient ty =
     (case ty of NT_deals \<Rightarrow> u_dm_deals recipient
      | NT_deposits \<Rightarrow> u_dm_deposits recipient
      | NT_system \<Rightarrow> u_dm_system recipient)"

text \<open>\<open>html.escape\<close> (with \<open>quote=True\<close>).\<close>

definition html_escape_char :: "char \<Rightarrow> string" where
  "html_escape_char c =
     (if c = CHR ''&'' then ''&amp;'' else if c = CHR ''<'' then ''&lt;''
      else if c = CHR ''>'' then ''&gt;'' else if c = CHR 0x22 then ''&quot;''
      else if c = CHR 0x27 then ''&#x27;'' else [c])"

definition html_escape :: "string \<Rightarrow> string" where
  "html_escape s = concat (map html_escape_char s)"

definition format_dm :: "string \<Rightarrow> string \<Rightarrow> string" where
  "format_dm title body =
     (let title_html = html_escape title; body_html = html_escape body
      in if body_html \<noteq> []
         then ''<b>'' @ title_html @ ''</b>'' @ [CHR 0x0A] @ body_html
         else ''<b>'' @ title_html @ ''</b>'')"

section \<open>Insert, dispatch, publish\<close>

text \<open>\<open>notifier.insert\<close>: the notification row, and the dead-letter row of a dropped
  payload, inside the caller's transaction.\<close>

definition notifier_insert ::
  "int \<Rightarrow> int \<Rightarrow> NotificationType \<Rightarrow> notice \<Rightarrow> payload option \<Rightarrow> world
     \<Rightarrow> (notification \<times> payload option) \<times> world" where
  "notifier_insert now recipient_id ty nt payload w =
     (let cap = check_payload_cap payload;
          notif = \<lparr> n_id = seq_notifications w, n_recipient_id = recipient_id, n_type = ty,
                    n_notice = nt, n_payload = cap_stored cap, n_is_read = False,
                    n_created_at = now \<rparr>;
          w1 = w \<lparr> t_notifications := t_notifications w @ [notif],
                   seq_notifications := seq_notifications w + 1 \<rparr>;
          w2 = (if was_dropped cap
                then w1 \<lparr> t_dlq := t_dlq w1 @
                       [\<lparr> q_notification_id = Some (n_id notif), q_recipient_id = recipient_id,
                          q_reason = ''payload_over_cap'',
                          q_encoded_bytes = cap_dlq_encoded_bytes cap,
                          q_payload_keys = (case cap_dlq_keys cap of None \<Rightarrow> [] | Some ks \<Rightarrow> ks),
                          q_payload_excerpt = cap_dlq_excerpt cap \<rparr>] \<rparr>
                else w1)
      in ((notif, cap_stored cap), w2))"

definition dispatch_after_commit :: "notification \<times> payload option \<Rightarrow> world \<Rightarrow> world" where
  "dispatch_after_commit p w =
     (case p of (notif, ws_payload) \<Rightarrow>
        let w1 = emit [Publish (WsNotification (n_recipient_id notif) (n_id notif) (n_type notif)
                          (n_notice notif) ws_payload)] w
        in case get_user (n_recipient_id notif) w1 of
             None \<Rightarrow> w1
           | Some recipient \<Rightarrow>
               if dm_enabled recipient (n_type notif)
               then emit [SendDM (u_tg_user_id recipient) (n_type notif) (n_notice notif) ws_payload] w1
               else w1)"

text \<open>\<open>services_deals._safe_dispatch\<close> and the same loop in \<open>services_wallet\<close>.\<close>

definition safe_dispatch :: "(notification \<times> payload option) list \<Rightarrow> world \<Rightarrow> world" where
  "safe_dispatch pending w = fold dispatch_after_commit pending w"

definition publish_deal_update :: "int \<Rightarrow> int list \<Rightarrow> DealStatus option \<Rightarrow> world \<Rightarrow> world" where
  "publish_deal_update deal_id recipient_ids status w =
     emit (map (\<lambda>r. Publish (WsDealUpdated r deal_id status)) (uniq recipient_ids)) w"

text \<open>Inserting the same notice for several recipients, in order (the loops over the two
  parties, the arbiters or the admins).\<close>

fun notify_each ::
  "int \<Rightarrow> int list \<Rightarrow> NotificationType \<Rightarrow> notice \<Rightarrow> payload option \<Rightarrow> world
     \<Rightarrow> (notification \<times> payload option) list \<times> world" where
  "notify_each now [] ty nt p w = ([], w)"
| "notify_each now (r # rs) ty nt p w =
     (case notifier_insert now r ty nt p w of (n, w1) \<Rightarrow>
      case notify_each now rs ty nt p w1 of (ns, w2) \<Rightarrow> (n # ns, w2))"

section \<open>Frame\<close>

lemma emit_frame [simp, frame]:
  "t_users (emit es w) = t_users w"
  "t_currencies (emit es w) = t_currencies w"
  "t_usd_rates (emit es w) = t_usd_rates w"
  "t_balances (emit es w) = t_balances w"
  "t_deals (emit es w) = t_deals w"
  "t_deposits (emit es w) = t_deposits w"
  "t_withdrawals (emit es w) = t_withdrawals w"
  "t_ledger (emit es w) = t_ledger w"
  "t_app_settings (emit es w) = t_app_settings w"
  "t_approvals (emit es w) = t_approvals w"
  "t_audit (emit es w) = t_audit w"
  "seq_deals (emit es w) = seq_deals w"
  "seq_deposits (emit es w) = seq_deposits w"
  "seq_withdrawals (emit es w) = seq_withdrawals w"
  "seq_approvals (emit es w) = seq_approvals w"
  "t_notifications (emit es w) = t_notifications w"
  "t_dlq (emit es w) = t_dlq w"
  "seq_notifications (emit es w) = seq_notifications w"
  by (simp_all add: emit_def)

lemma notifier_insert_frame [simp, frame]:
  "t_users (snd (notifier_insert now r ty nt p w)) = t_users w"
  "t_currencies (snd (notifier_insert now r ty nt p w)) = t_currencies w"
  "t_usd_rates (snd (notifier_insert now r ty nt p w)) = t_usd_rates w"
  "t_balances (snd (notifier_insert now r ty nt p w)) = t_balances w"
  "t_deals (snd (notifier_insert now r ty nt p w)) = t_deals w"
  "t_deposits (snd (notifier_insert now r ty nt p w)) = t_deposits w"
  "t_withdrawals (snd (notifier_insert now r ty nt p w)) = t_withdrawals w"
  "t_ledger (snd (notifier_insert now r ty nt p w)) = t_ledger w"
  "t_app_settings (snd (notifier_insert now r ty nt p w)) = t_app_settings w"
  "t_approvals (snd (notifier_insert now r ty nt p w)) = t_approvals w"
  "t_audit (snd (notifier_insert now r ty nt p w)) = t_audit w"
  "seq_deals (snd (notifier_insert now r ty nt p w)) = seq_deals w"
  "seq_deposits (snd (notifier_insert now r ty nt p w)) = seq_deposits w"
  "seq_withdrawals (snd (notifier_insert now r ty nt p w)) = seq_withdrawals w"
  "seq_approvals (snd (notifier_insert now r ty nt p w)) = seq_approvals w"
  "sent_events (snd (notifier_insert now r ty nt p w)) = sent_events w"
  by (simp_all add: notifier_insert_def Let_def)

lemma dispatch_frame [simp, frame]:
  "t_users (dispatch_after_commit n w) = t_users w"
  "t_currencies (dispatch_after_commit n w) = t_currencies w"
  "t_usd_rates (dispatch_after_commit n w) = t_usd_rates w"
  "t_balances (dispatch_after_commit n w) = t_balances w"
  "t_deals (dispatch_after_commit n w) = t_deals w"
  "t_deposits (dispatch_after_commit n w) = t_deposits w"
  "t_withdrawals (dispatch_after_commit n w) = t_withdrawals w"
  "t_ledger (dispatch_after_commit n w) = t_ledger w"
  "t_app_settings (dispatch_after_commit n w) = t_app_settings w"
  "t_approvals (dispatch_after_commit n w) = t_approvals w"
  "t_audit (dispatch_after_commit n w) = t_audit w"
  "seq_deals (dispatch_after_commit n w) = seq_deals w"
  "seq_deposits (dispatch_after_commit n w) = seq_deposits w"
  "seq_withdrawals (dispatch_after_commit n w) = seq_withdrawals w"
  "seq_approvals (dispatch_after_commit n w) = seq_approvals w"
  "t_notifications (dispatch_after_commit n w) = t_notifications w"
  "t_dlq (dispatch_after_commit n w) = t_dlq w"
  "seq_notifications (dispatch_after_commit n w) = seq_notifications w"
  by (simp_all add: dispatch_after_commit_def Let_def split: prod.splits option.splits)

lemma safe_dispatch_frame [simp, frame]:
  "t_users (safe_dispatch ns w) = t_users w"
  "t_currencies (safe_dispatch ns w) = t_currencies w"
  "t_usd_rates (safe_dispatch ns w) = t_usd_rates w"
  "t_balances (safe_dispatch ns w) = t_balances w"
  "t_deals (safe_dispatch ns w) = t_deals w"
  "t_deposits (safe_dispatch ns w) = t_deposits w"
  "t_withdrawals (safe_dispatch ns w) = t_withdrawals w"
  "t_ledger (safe_dispatch ns w) = t_ledger w"
  "t_app_settings (safe_dispatch ns w) = t_app_settings w"
  "t_approvals (safe_dispatch ns w) = t_approvals w"
  "t_audit (safe_dispatch ns w) = t_audit w"
  "seq_deals (safe_dispatch ns w) = seq_deals w"
  "seq_deposits (safe_dispatch ns w) = seq_deposits w"
  "seq_withdrawals (safe_dispatch ns w) = seq_withdrawals w"
  "seq_approvals (safe_dispatch ns w) = seq_approvals w"
  "t_notifications (safe_dispatch ns w) = t_notifications w"
  "t_dlq (safe_dispatch ns w) = t_dlq w"
  "seq_notifications (safe_dispatch ns w) = seq_notifications w"
  unfolding safe_dispatch_def by (induction ns arbitrary: w) simp_all

lemma publish_frame [simp, frame]:
  "t_users (publish_deal_update i rs st w) = t_users w"
  "t_currencies (publish_deal_update i rs st w) = t_currencies w"
  "t_usd_rates (publish_deal_update i rs st w) = t_usd_rates w"
  "t_balances (publish_deal_update i rs st w) = t_balances w"
  "t_deals (publish_deal_update i rs st w) = t_deals w"
  "t_deposits (publish_deal_update i rs st w) = t_deposits w"
  "t_withdrawals (publish_deal_update i rs st w) = t_withdrawals w"
  "t_ledger (publish_deal_update i rs st w) = t_ledger w"
  "t_app_settings (publish_deal_update i rs st w) = t_app_settings w"
  "t_approvals (publish_deal_update i rs st w) = t_approvals w"
  "t_audit (publish_deal_update i rs st w) = t_audit w"
  "seq_deals (publish_deal_update i rs st w) = seq_deals w"
  "seq_deposits (publish_deal_update i rs st w) = seq_deposits w"
  "seq_withdrawals (publish_deal_update i rs st w) = seq_withdrawals w"
  "seq_approvals (publish_deal_update i rs st w) = seq_approvals w"
  "t_notifications (publish_deal_update i rs st w) = t_notifications w"
  "t_dlq (publish_deal_update i rs st w) = t_dlq w"
  "seq_notifications (publish_deal_update i rs st w) = seq_notifications w"
  by (simp_all add: publish_deal_update_def)

lemma notify_each_frame [simp, frame]:
  "t_users (snd (notify_each now rs ty nt p w)) = t_users w"
  "t_currencies (snd (notify_each now rs ty nt p w)) = t_currencies w"
  "t_usd_rates (snd (notify_each now rs ty nt p w)) = t_usd_rates w"
  "t_balances (snd (notify_each now rs ty nt p w)) = t_balances w"
  "t_deals (snd (notify_each now rs ty nt p w)) = t_deals w"
  "t_deposits (snd (notify_each now rs ty nt p w)) = t_deposits w"
  "t_withdrawals (snd (notify_each now rs ty nt p w)) = t_withdrawals w"
  "t_ledger (snd (notify_each now rs ty nt p w)) = t_ledger w"
  "t_app_settings (snd (notify_each now rs ty nt p w)) = t_app_settings w"
  "t_approvals (snd (notify_each now rs ty nt p w)) = t_approvals w"
  "t_audit (snd (notify_each now rs ty nt p w)) = t_audit w"
  "seq_deals (snd (notify_each now rs ty nt p w)) = seq_deals w"
  "seq_deposits (snd (notify_each now rs ty nt p w)) = seq_deposits w"
  "seq_withdrawals (snd (notify_each now rs ty nt p w)) = seq_withdrawals w"
  "seq_approvals (snd (notify_each now rs ty nt p w)) = seq_approvals w"
  "sent_events (snd (notify_each now rs ty nt p w)) = sent_events w"
  by (induction rs arbitrary: w) (simp_all split: prod.splits, (metis notifier_insert_frame snd_conv)+)

section \<open>Escaping\<close>

lemma html_escape_Cons: "html_escape (c # s) = html_escape_char c @ html_escape s"
  by (simp add: html_escape_def)

lemma html_escape_char_safe:
  "x \<in> set (html_escape_char c) \<Longrightarrow> x \<notin> {CHR ''<'', CHR ''>'', CHR 0x22, CHR 0x27}"
  by (auto simp: html_escape_char_def split: if_splits)

lemma html_escape_safe: "x \<in> set (html_escape s) \<Longrightarrow> x \<notin> {CHR ''<'', CHR ''>'', CHR 0x22, CHR 0x27}"
  using html_escape_char_safe unfolding html_escape_def by fastforce

lemma html_escape_char_prefix_free:
  "html_escape_char c @ xs = html_escape_char d @ ys \<Longrightarrow> c = d \<and> xs = ys"
  by (auto simp: html_escape_char_def split: if_splits)

lemma html_escape_inj: "html_escape s = html_escape t \<Longrightarrow> s = t"
proof (induction s arbitrary: t)
  case Nil
  then show ?case by (cases t) (auto simp: html_escape_def html_escape_char_def split: if_splits)
next
  case (Cons c s)
  show ?case
  proof (cases t)
    case Nil
    with Cons.prems show ?thesis by (auto simp: html_escape_def html_escape_char_def split: if_splits)
  next
    case (Cons d t')
    with Cons.prems html_escape_char_prefix_free [of c "html_escape s" d "html_escape t'"]
    have "c = d" "html_escape s = html_escape t'" by (auto simp: html_escape_Cons)
    with Cons Cons.IH show ?thesis by simp
  qed
qed

section \<open>Properties\<close>

text \<open>
  The row \<open>notifier.insert\<close> writes never stores a payload over the cap: a payload within
  it is stored as given, one over it is dropped and recorded once in the dead-letter table
  with its size, its keys and an excerpt.
\<close>

theorem notifier_insert_caps_payload:
  "case notifier_insert now r ty nt payload w of ((n, p), w') \<Rightarrow>
     n_payload n = p \<and> t_notifications w' = t_notifications w @ [n] \<and> n_recipient_id n = r
     \<and> (p = None \<or> p = payload \<and> length (json_dumps (the p)) \<le> NOTIFICATION_PAYLOAD_MAX_BYTES)
     \<and> (case payload of
          None \<Rightarrow> p = None \<and> t_dlq w' = t_dlq w
        | Some q \<Rightarrow>
            if q = [] then p = None \<and> t_dlq w' = t_dlq w
            else if length (json_dumps q) \<le> NOTIFICATION_PAYLOAD_MAX_BYTES
            then p = Some q \<and> t_dlq w' = t_dlq w
            else p = None \<and> (\<exists>row. t_dlq w' = t_dlq w @ [row] \<and> q_recipient_id row = r
                   \<and> q_notification_id row = Some (n_id n)
                   \<and> q_encoded_bytes row = length (json_dumps q)
                   \<and> q_payload_keys row = sort (map fst q)
                   \<and> q_payload_excerpt row =
                       Some (take NOTIFICATION_PAYLOAD_DLQ_EXCERPT_BYTES (json_dumps q))))"
  by (auto simp: notifier_insert_def check_payload_cap_def was_dropped_def Let_def
      split: option.splits)

text \<open>
  The HTML of a direct message holds no markup but its own: the title and the body carry
  no angle bracket and no quote, and escaping loses nothing (no two texts look alike).
\<close>

theorem format_dm_escapes_user_text:
  "\<exists>t b. format_dm title body = ''<b>'' @ t @ ''</b>'' @ b
     \<and> set (t @ b) \<inter> {CHR ''<'', CHR ''>'', CHR 0x22, CHR 0x27} = {}
     \<and> (\<forall>title' body'. (html_escape title', html_escape body') = (html_escape title, html_escape body)
          \<longleftrightarrow> title' = title \<and> body' = body)"
proof -
  define b where "b = (if html_escape body \<noteq> [] then [CHR 0x0A] @ html_escape body else [])"
  have "format_dm title body = ''<b>'' @ html_escape title @ ''</b>'' @ b"
    by (simp add: format_dm_def Let_def b_def)
  moreover have "set (html_escape title @ b) \<inter> {CHR ''<'', CHR ''>'', CHR 0x22, CHR 0x27} = {}"
    using html_escape_safe [of _ title] html_escape_safe [of _ body] by (auto simp: b_def)
  ultimately show ?thesis
    using html_escape_inj by blast
qed

end
