(* ===== verification/Accounts.thy ===== *)
theory Accounts
  imports Ledger Notifier
begin

text \<open>
  What the balance helpers promise: a user's money in one currency is a pair of a free and
  a held part, and a helper changes one or two such pairs. \<open>accounts\<close> reads the pairs off
  the \<open>user_balances\<close> table (a missing row is an empty account, which is what the upsert of
  \<open>lock_user_balance\<close> makes of it); the \<open>a_*\<close> operations are the specification the wallet
  and escrow code refines.
\<close>

section \<open>The specification\<close>

type_synonym accounts = "int \<Rightarrow> int \<Rightarrow> decimal \<times> decimal"

definition a_upd :: "int \<Rightarrow> int \<Rightarrow> (decimal \<times> decimal \<Rightarrow> decimal \<times> decimal) \<Rightarrow> accounts \<Rightarrow> accounts" where
  "a_upd u c f A = (\<lambda>u' c'. if u' = u \<and> c' = c then f (A u c) else A u' c')"

definition a_lock :: "int \<Rightarrow> int \<Rightarrow> decimal \<Rightarrow> accounts \<Rightarrow> accounts" where
  "a_lock u c x = a_upd u c (\<lambda>(free, held). (free - x, held + x))"

definition a_unlock :: "int \<Rightarrow> int \<Rightarrow> decimal \<Rightarrow> accounts \<Rightarrow> accounts" where
  "a_unlock u c x = a_upd u c (\<lambda>(free, held). (free + x, max 0 (held - x)))"

definition a_credit :: "int \<Rightarrow> int \<Rightarrow> decimal \<Rightarrow> accounts \<Rightarrow> accounts" where
  "a_credit u c x = a_upd u c (\<lambda>(free, held). (free + x, held))"

definition a_burn :: "int \<Rightarrow> int \<Rightarrow> decimal \<Rightarrow> accounts \<Rightarrow> accounts" where
  "a_burn u c x = a_upd u c (\<lambda>(free, held). (free, max 0 (held - x)))"

lemma a_upd_cong: "f (A u c) = g (A u c) \<Longrightarrow> a_upd u c f A = a_upd u c g A"
  by (auto simp: a_upd_def fun_eq_iff)

lemmas a_defs = a_upd_def a_lock_def a_unlock_def a_credit_def a_burn_def

section \<open>The table as accounts\<close>

definition accounts :: "world \<Rightarrow> accounts" where
  "accounts w = (\<lambda>u c. case get_balance u c w of None \<Rightarrow> (0, 0) | Some b \<Rightarrow> (b_amount b, b_locked b))"

abbreviation free :: "world \<Rightarrow> int \<Rightarrow> int \<Rightarrow> decimal" where
  "free w u c \<equiv> fst (accounts w u c)"

abbreviation held :: "world \<Rightarrow> int \<Rightarrow> int \<Rightarrow> decimal" where
  "held w u c \<equiv> snd (accounts w u c)"

text \<open>The shape of the balance table: one row per user and currency, non-negative columns
  of eight digits.\<close>

definition balance_ok :: "user_balance \<Rightarrow> bool" where
  "balance_ok b \<longleftrightarrow> 0 \<le> b_amount b \<and> 0 \<le> b_locked b \<and> storable (b_amount b) \<and> storable (b_locked b)"

definition balances_ok :: "world \<Rightarrow> bool" where
  "balances_ok w \<longleftrightarrow> tkeys bkey (t_balances w) \<and> list_all balance_ok (t_balances w)"

lemma accounts_cong [frame]: "t_balances w' = t_balances w \<Longrightarrow> accounts w' = accounts w"
  by (simp add: accounts_def get_balance_def)

lemma balances_ok_cong [frame]: "t_balances w' = t_balances w \<Longrightarrow> balances_ok w' = balances_ok w"
  by (simp add: balances_ok_def)

lemma get_balance_key: "get_balance u c w = Some b \<Longrightarrow> b_user_id b = u \<and> b_currency_id b = c"
  unfolding get_balance_def by (drule tget_Some) (simp add: bkey_def)

lemma get_balance_ok: "balances_ok w \<Longrightarrow> get_balance u c w = Some b \<Longrightarrow> balance_ok b"
  unfolding get_balance_def balances_ok_def by (drule tget_Some) (simp add: list_all_iff)

lemma accounts_Some: "get_balance u c w = Some b \<Longrightarrow> accounts w u c = (b_amount b, b_locked b)"
  by (simp add: accounts_def)

lemma accounts_ok:
  "balances_ok w \<Longrightarrow> 0 \<le> free w u c \<and> 0 \<le> held w u c
     \<and> storable (free w u c) \<and> storable (held w u c)"
  using get_balance_ok [of w u c]
  by (cases "get_balance u c w") (auto simp: accounts_def balance_ok_def)

lemma balance_ok_row [simp]: "balance_ok b \<Longrightarrow> balance_row b = b"
  by (simp add: balance_ok_def balance_row_def)

lemma bkey_balance_row [simp]: "bkey (balance_row b) = bkey b"
  by (simp add: bkey_def balance_row_def)

lemma get_balance_save:
  assumes "get_balance (b_user_id b) (b_currency_id b) w = Some b0"
  shows "get_balance u c (save_balance b w) =
    (if u = b_user_id b \<and> c = b_currency_id b then Some (balance_row b) else get_balance u c w)"
proof -
  have "tget bkey (bkey b) (t_balances w) = Some b0"
    using assms by (simp add: get_balance_def bkey_def)
  then have "bkey b \<in> bkey ` set (t_balances w)"
    by (auto dest!: tget_Some intro: rev_image_eqI)
  moreover have "bkey b = (b_user_id b, b_currency_id b)"
    by (simp add: bkey_def)
  ultimately show ?thesis
    by (auto simp: get_balance_def save_balance_def tget_tput)
qed

text \<open>Writing a well-formed row back is an update of one account.\<close>

lemma accounts_save:
  assumes "get_balance (b_user_id b) (b_currency_id b) w = Some b0" and "balance_ok b"
  shows "accounts (save_balance b w)
     = a_upd (b_user_id b) (b_currency_id b) (\<lambda>_. (b_amount b, b_locked b)) (accounts w)"
  using assms by (intro ext) (simp add: accounts_def a_upd_def get_balance_save)

lemma balances_ok_save:
  assumes "balances_ok w" and "balance_ok b"
  shows "balances_ok (save_balance b w)"
  using assms by (auto simp: balances_ok_def save_balance_def list_all_iff dest: set_tput_cases)

lemma save_balance_frame [simp, frame]:
  "t_users (save_balance b w) = t_users w"
  "t_currencies (save_balance b w) = t_currencies w"
  "t_deals (save_balance b w) = t_deals w"
  "t_deposits (save_balance b w) = t_deposits w"
  "t_withdrawals (save_balance b w) = t_withdrawals w"
  "t_ledger (save_balance b w) = t_ledger w"
  "t_notifications (save_balance b w) = t_notifications w"
  "t_app_settings (save_balance b w) = t_app_settings w"
  "t_approvals (save_balance b w) = t_approvals w"
  "seq_deals (save_balance b w) = seq_deals w"
  "seq_deposits (save_balance b w) = seq_deposits w"
  "seq_withdrawals (save_balance b w) = seq_withdrawals w"
  "sent_events (save_balance b w) = sent_events w"
  by (simp_all add: save_balance_def)

section \<open>Totals\<close>

text \<open>The money of a currency: free and held, over every row.\<close>

definition worth :: "int \<Rightarrow> user_balance \<Rightarrow> decimal" where
  "worth c b = (if b_currency_id b = c then b_amount b + b_locked b else 0)"

definition total :: "int \<Rightarrow> world \<Rightarrow> decimal" where
  "total c w = sum_list (map (worth c) (t_balances w))"

definition acc_sum :: "int set \<Rightarrow> int \<Rightarrow> accounts \<Rightarrow> decimal" where
  "acc_sum U c A = (\<Sum>u\<in>U. fst (A u c) + snd (A u c))"

lemma acc_sum_upd:
  assumes "finite U" and "u \<in> U"
  shows "acc_sum U c' (a_upd u c f A) = acc_sum U c' A +
    (if c' = c then fst (f (A u c)) + snd (f (A u c)) - (fst (A u c) + snd (A u c)) else 0)"
proof -
  have "acc_sum U c' B = fst (B u c') + snd (B u c') + acc_sum (U - {u}) c' B" for B
    using assms by (simp add: acc_sum_def sum.remove)
  moreover have "acc_sum (U - {u}) c' (a_upd u c f A) = acc_sum (U - {u}) c' A"
    by (auto simp: acc_sum_def a_upd_def intro!: sum.cong)
  ultimately show ?thesis by (simp add: a_upd_def)
qed

lemma total_rows:
  assumes "finite U" and "b_user_id ` set rows \<subseteq> U" and "tkeys bkey rows"
  shows "sum_list (map (worth c) rows) =
    (\<Sum>u\<in>U. case tget bkey (u, c) rows of None \<Rightarrow> 0 | Some b \<Rightarrow> b_amount b + b_locked b)"
  using assms(2,3)
proof (induction rows)
  case Nil
  then show ?case by simp
next
  case (Cons r rows)
  let ?g = "\<lambda>rows u. case tget bkey (u, c) rows of None \<Rightarrow> 0 | Some b \<Rightarrow> b_amount b + b_locked b"
  from Cons.prems have IH: "sum_list (map (worth c) rows) = (\<Sum>u\<in>U. ?g rows u)"
    by (intro Cons.IH) (auto simp: tkeys_def)
  show ?case
  proof (cases "b_currency_id r = c")
    case True
    have fresh: "tget bkey (b_user_id r, c) rows = None"
      using Cons.prems(2) True by (auto simp: tget_None_iff tkeys_def bkey_def)
    have U: "b_user_id r \<in> U" using Cons.prems(1) by simp
    have "(\<Sum>u\<in>U. ?g (r # rows) u) =
        ?g (r # rows) (b_user_id r) + (\<Sum>u\<in>U - {b_user_id r}. ?g (r # rows) u)"
      using assms(1) U by (rule sum.remove)
    also have "(\<Sum>u\<in>U - {b_user_id r}. ?g (r # rows) u) = (\<Sum>u\<in>U - {b_user_id r}. ?g rows u)"
      by (intro sum.cong) (auto simp: bkey_def)
    also have "\<dots> = (\<Sum>u\<in>U. ?g rows u)"
      using sum.remove [OF assms(1) U, of "?g rows"] fresh by simp
    also have "?g (r # rows) (b_user_id r) = worth c r"
      using True by (simp add: bkey_def worth_def)
    finally show ?thesis using IH by simp
  next
    case False
    then have "(\<Sum>u\<in>U. ?g (r # rows) u) = (\<Sum>u\<in>U. ?g rows u)"
      by (intro sum.cong) (auto simp: bkey_def)
    moreover have "worth c r = 0"
      using False by (simp add: worth_def)
    ultimately show ?thesis using IH by simp
  qed
qed

lemma total_acc_sum:
  assumes "finite U" and "b_user_id ` set (t_balances w) \<subseteq> U" and "balances_ok w"
  shows "total c w = acc_sum U c (accounts w)"
  unfolding total_def acc_sum_def using assms
  by (subst total_rows [OF assms(1,2)])
    (auto simp: balances_ok_def accounts_def get_balance_def intro!: sum.cong split: option.splits)

text \<open>Two worlds' totals compare over one finite set of users.\<close>

lemma totals_over:
  assumes "balances_ok w" and "balances_ok w'" and "finite V"
  shows "\<exists>U. finite U \<and> V \<subseteq> U \<and> total c w = acc_sum U c (accounts w)
           \<and> total c w' = acc_sum U c (accounts w')"
  by (rule exI [of _ "V \<union> b_user_id ` set (t_balances w) \<union> b_user_id ` set (t_balances w')"])
    (use assms in \<open>auto intro!: total_acc_sum\<close>)

end
