(* ===== verification/Providers.thy ===== *)
theory Providers
  imports World
begin

text \<open>
  \<open>backend/app/config.py\<close> (the settings the money core reads) and the two payment
  providers' clients, \<open>backend/app/cryptopay.py\<close> and \<open>backend/app/crystalpay.py\<close>: the
  dataclasses, what a request carries, the signature checks. The services behind the
  clients are the record \<open>provider_api\<close>, an argument of every operation that calls them:
  the reply to each request, \<open>None\<close> for a \<open>CryptoPayError\<close> or \<open>CrystalpayError\<close>. SHA and HMAC
  are arguments too.
\<close>

section \<open>Settings\<close>

record settings =
  cfg_cryptobot_token :: string
  cfg_crystalpay_login :: string
  cfg_crystalpay_secret :: string
  cfg_webapp_url :: string
  cfg_public_api_url :: string
  cfg_webhook_base_url :: string
  cfg_wallet_deposit_expiry_seconds :: int
  cfg_wallet_withdrawal_stale_seconds :: int

definition to_upper :: "char \<Rightarrow> char" where
  "to_upper c = (let n = of_char c :: nat in if 97 \<le> n \<and> n \<le> 122 then char_of (n - 32) else c)"

definition to_lower :: "char \<Rightarrow> char" where
  "to_lower c = (let n = of_char c :: nat in if 65 \<le> n \<and> n \<le> 90 then char_of (n + 32) else c)"

definition is_space :: "char \<Rightarrow> bool" where
  "is_space c = (let n = of_char c :: nat in 9 \<le> n \<and> n \<le> 13 \<or> 28 \<le> n \<and> n \<le> 32)"

definition strip :: "string \<Rightarrow> string" where
  "strip s = rev (dropWhile is_space (rev (dropWhile is_space s)))"

definition is_cryptopay_configured :: "settings \<Rightarrow> bool" where
  "is_cryptopay_configured cfg =
     (let token = strip (cfg_cryptobot_token cfg);
          placeholders = [''000000:FAKE'', ''0000000000:FAKE'', ''000000:REPLACE_ME'',
                          ''0000000000:REPLACE_ME'']
      in token \<noteq> [] \<and> token \<notin> set placeholders)"

section \<open>Clients\<close>

record cryptopay_invoice =
  inv_invoice_id :: int
  inv_status :: string
  inv_asset :: string
  inv_amount :: string
  inv_pay_url :: string
  inv_bot_invoice_url :: "string option"
  inv_mini_app_invoice_url :: "string option"
  inv_web_app_invoice_url :: "string option"

record cryptopay_transfer =
  tr_transfer_id :: int
  tr_user_id :: int
  tr_asset :: string
  tr_amount :: string
  tr_status :: string

record crystalpay_invoice =
  ci_id :: string
  ci_url :: string
  ci_state :: string

definition INVOICE_STATE_PAID :: string where "INVOICE_STATE_PAID = ''payed''"
definition INVOICE_STATE_UNAVAILABLE :: string where "INVOICE_STATE_UNAVAILABLE = ''unavailable''"
definition INVOICE_STATE_FAILED :: string where "INVOICE_STATE_FAILED = ''failed''"

text \<open>The arguments of \<open>CryptoPay.create_invoice\<close>: an asset, or a fiat code with the assets
  accepted at checkout; the amount is \<open>str\<close> of the exact decimal.\<close>

datatype invoice_price = CryptoAsset string | FiatPrice string string

record cryptopay_invoice_request =
  cir_price :: invoice_price
  cir_amount :: decimal
  cir_expires_in :: "int option"

record crystalpay_invoice_request =
  yir_amount :: decimal
  yir_currency :: string
  yir_lifetime :: int
  yir_extra_user :: int
  yir_callback_url :: "string option"

record transfer_request =
  trq_user_id :: int
  trq_asset :: string
  trq_amount :: decimal
  trq_spend_id :: int

record provider_api =
  cp_create_invoice :: "cryptopay_invoice_request \<Rightarrow> cryptopay_invoice option"
  cp_get_invoices :: "string \<Rightarrow> cryptopay_invoice list option"
  cp_transfer :: "transfer_request \<Rightarrow> cryptopay_transfer option"
  cp_get_transfers :: "int \<Rightarrow> cryptopay_transfer list option"
  yp_create_invoice :: "crystalpay_invoice_request \<Rightarrow> crystalpay_invoice option"
  yp_get_invoice :: "string \<Rightarrow> crystalpay_invoice option"

section \<open>Webhook signatures\<close>

text \<open>CryptoBot: HMAC-SHA256 of the raw body, keyed by the SHA-256 of the token.\<close>

definition verify_webhook_signature ::
  "(string \<Rightarrow> string) \<Rightarrow> (string \<Rightarrow> string \<Rightarrow> string) \<Rightarrow> string \<Rightarrow> string \<Rightarrow> string option \<Rightarrow> bool" where
  "verify_webhook_signature sha256 hmac_sha256_hex secret body signature =
     (case signature of None \<Rightarrow> False
      | Some sig \<Rightarrow>
          if sig = [] \<or> secret = [] then False
          else hmac_sha256_hex (sha256 secret) body = sig)"

text \<open>Crystalpay: SHA-1 of \<open>id:secret\<close>, compared with the lower-cased signature.\<close>

definition verify_crystalpay_signature ::
  "(string \<Rightarrow> string) \<Rightarrow> string \<Rightarrow> string option \<Rightarrow> string option \<Rightarrow> bool" where
  "verify_crystalpay_signature sha1_hex invoice_id salt signature =
     (case (salt, signature) of
        (Some s, Some sig) \<Rightarrow>
          if invoice_id = [] \<or> s = [] \<or> sig = [] then False
          else sha1_hex (invoice_id @ '':'' @ s) = map to_lower sig
      | _ \<Rightarrow> False)"

lemma to_upper_idem [simp]: "to_upper (to_upper c) = to_upper c"
  by (cases "97 \<le> (of_char c :: nat) \<and> (of_char c :: nat) \<le> 122") (auto simp: to_upper_def Let_def)

end
