(* ===== verification/Wallet.thy ===== *)
theory Wallet
  imports Accounts Providers
begin

text \<open>
  \<open>backend/app/services_wallet.py\<close>, first part: payout addresses, currency lookup, and the
  balance rows with the \<open>FOR UPDATE\<close> lock every money-moving flow takes.
\<close>

section \<open>Payout addresses\<close>

definition WITHDRAW_ADDRESS_MAX_LEN :: nat where "WITHDRAW_ADDRESS_MAX_LEN = 256"

definition forbidden_address_char :: "char \<Rightarrow> bool" where
  "forbidden_address_char c = (let n = of_char c :: nat in n < 32 \<or> n = 127 \<or> n = 92)"

text \<open>What the child process that runs \<open>re.fullmatch\<close> ends with.\<close>

datatype regex_outcome = RegexTimeout | RegexNoResult | RegexOk bool | RegexReError | RegexWorkerError

definition safe_fullmatch :: "(string \<Rightarrow> string \<Rightarrow> regex_outcome) \<Rightarrow> string \<Rightarrow> string \<Rightarrow> bool" where
  "safe_fullmatch worker pattern str =
     (case worker pattern str of
        RegexTimeout \<Rightarrow> False
      | RegexNoResult \<Rightarrow> False
      | RegexOk value \<Rightarrow> value
      | RegexReError \<Rightarrow> False
      | RegexWorkerError \<Rightarrow> False)"

definition truncate_address :: "string \<Rightarrow> address_label" where
  "truncate_address addr =
     (let head = 6; tail = 6 in
      if length addr \<le> head + tail + 3 then WholeAddress addr
      else ShortAddress (take head addr) (drop (length addr - tail) addr))"

definition withdraw_destination_label :: "string option \<Rightarrow> address_label" where
  "withdraw_destination_label address =
     (case address of None \<Rightarrow> ToCryptoBot
      | Some a \<Rightarrow> if a = [] then ToCryptoBot else truncate_address a)"

definition sanitise_withdraw_address :: "string \<Rightarrow> string" where
  "sanitise_withdraw_address raw =
     (let cleaned = strip (filter (\<lambda>c. \<not> forbidden_address_char c) raw)
      in take WITHDRAW_ADDRESS_MAX_LEN cleaned)"

section \<open>Currencies\<close>

definition get_currency_by_code :: "string \<Rightarrow> world \<Rightarrow> py_error + currency" where
  "get_currency_by_code code w =
     (case List.find (\<lambda>c. c_code c = map to_upper code \<and> c_is_active c) (t_currencies w) of
        None \<Rightarrow> Inl (HTTP 404 (E_currency_not_supported code))
      | Some cur \<Rightarrow> Inr cur)"

section \<open>Balances\<close>

definition empty_balance :: "int \<Rightarrow> int \<Rightarrow> user_balance" where
  "empty_balance u c = \<lparr> b_user_id = u, b_currency_id = c, b_amount = 0, b_locked = 0 \<rparr>"

text \<open>\<open>INSERT ... ON CONFLICT (user_id, currency_id) DO NOTHING\<close>.\<close>

definition upsert_balance :: "int \<Rightarrow> int \<Rightarrow> world \<Rightarrow> world" where
  "upsert_balance u c w =
     (case get_balance u c w of
        Some _ \<Rightarrow> w
      | None \<Rightarrow> w \<lparr> t_balances := t_balances w @ [empty_balance u c] \<rparr>)"

definition get_or_create_balance :: "int \<Rightarrow> int \<Rightarrow> user_balance tx" where
  "get_or_create_balance u c w =
     (case get_balance u c w of
        Some bal \<Rightarrow> Inr (bal, w)
      | None \<Rightarrow>
          let w1 = upsert_balance u c w
          in case get_balance u c w1 of None \<Rightarrow> Inl NoResultFound | Some bal \<Rightarrow> Inr (bal, w1))"

definition lock_user_balance :: "int \<Rightarrow> int \<Rightarrow> user_balance tx" where
  "lock_user_balance u c w =
     (case get_balance u c w of
        Some bal \<Rightarrow> Inr (bal, w)
      | None \<Rightarrow>
          let w1 = upsert_balance u c w
          in case get_balance u c w1 of None \<Rightarrow> Inl NoResultFound | Some bal \<Rightarrow> Inr (bal, w1))"

definition list_balances :: "int \<Rightarrow> currency_kind option \<Rightarrow> world \<Rightarrow> (currency \<times> user_balance option) list" where
  "list_balances user_id kind w =
     (let currencies = sort_key c_sort_order
            (filter (\<lambda>c. c_is_active c \<and> (case kind of None \<Rightarrow> True | Some k \<Rightarrow> c_kind c = k))
               (t_currencies w))
      in map (\<lambda>c. (c, get_balance user_id (c_id c) w)) currencies)"

subsection \<open>The lock\<close>

lemma lock_user_balance_total:
  "\<exists>b w1. lock_user_balance u c w = Inr (b, w1)"
proof (cases "get_balance u c w")
  case None
  then have "get_balance u c (upsert_balance u c w) = Some (empty_balance u c)"
    by (simp add: upsert_balance_def get_balance_def tget_append bkey_def empty_balance_def)
  with None show ?thesis by (simp add: lock_user_balance_def Let_def)
qed (simp add: lock_user_balance_def)

lemma lock_user_balance_no_error [simp]: "lock_user_balance u c w \<noteq> Inl e"
  using lock_user_balance_total [of u c w] by auto

lemma lock_user_balance_effect:
  assumes "lock_user_balance u c w = Inr (b, w1)"
  shows "(w1 = w \<and> get_balance u c w = Some b) \<or>
         (get_balance u c w = None \<and> b = empty_balance u c
            \<and> w1 = w \<lparr> t_balances := t_balances w @ [b] \<rparr>)"
proof (cases "get_balance u c w")
  case None
  then have "upsert_balance u c w = w \<lparr> t_balances := t_balances w @ [empty_balance u c] \<rparr>"
    by (simp add: upsert_balance_def)
  moreover have "get_balance u c \<dots> = Some (empty_balance u c)"
    using None by (simp add: get_balance_def tget_append bkey_def empty_balance_def)
  ultimately show ?thesis using None assms by (auto simp: lock_user_balance_def Let_def)
qed (use assms in \<open>simp add: lock_user_balance_def\<close>)

lemma accounts_new_row:
  "get_balance u c w = None \<Longrightarrow>
     accounts (w \<lparr> t_balances := t_balances w @ [empty_balance u c] \<rparr>) = accounts w"
  by (intro ext) (auto simp: accounts_def get_balance_def tget_append empty_balance_def bkey_def
      split: option.splits)

lemma balances_ok_new_row:
  "get_balance u c w = None \<Longrightarrow> balances_ok w \<Longrightarrow>
     balances_ok (w \<lparr> t_balances := t_balances w @ [empty_balance u c] \<rparr>)"
  by (auto simp: balances_ok_def tkeys_def get_balance_def tget_None_iff empty_balance_def
      balance_ok_def bkey_def)

lemma lock_user_balance_ok:
  assumes "lock_user_balance u c w = Inr (b, w1)"
  shows "get_balance u c w1 = Some b" and "b_user_id b = u" and "b_currency_id b = c"
    and "accounts w1 = accounts w" and "accounts w u c = (b_amount b, b_locked b)"
proof -
  note * = lock_user_balance_effect [OF assms]
  show get: "get_balance u c w1 = Some b"
    using * by (auto simp: get_balance_def tget_append bkey_def empty_balance_def)
  then show "b_user_id b = u" and "b_currency_id b = c"
    by (auto dest: get_balance_key)
  show acc: "accounts w1 = accounts w"
    using * accounts_new_row [of u c w] by auto
  show "accounts w u c = (b_amount b, b_locked b)"
    using accounts_Some [OF get] acc by simp
qed

lemma lock_user_balance_balances_ok:
  assumes "lock_user_balance u c w = Inr (b, w1)" and "balances_ok w"
  shows "balances_ok w1" and "balance_ok b"
proof -
  show "balances_ok w1"
    using lock_user_balance_effect [OF assms(1)] balances_ok_new_row [of u c w] assms(2) by auto
  then show "balance_ok b"
    using lock_user_balance_ok(1) [OF assms(1)] by (rule get_balance_ok)
qed

lemma lock_user_balance_keeps:
  "lock_user_balance u c w = Inr (b, w1) \<Longrightarrow> get_balance u' c' w = Some b' \<Longrightarrow>
     get_balance u' c' w1 = Some b'"
  by (drule lock_user_balance_effect) (auto simp: get_balance_def tget_append)

lemma lock_user_balance_frame [frame]:
  assumes "lock_user_balance u c w = Inr (b, w1)"
  shows "t_users w1 = t_users w" and "t_currencies w1 = t_currencies w"
    and "t_deals w1 = t_deals w" and "t_deposits w1 = t_deposits w"
    and "t_withdrawals w1 = t_withdrawals w" and "t_ledger w1 = t_ledger w"
    and "t_app_settings w1 = t_app_settings w" and "t_notifications w1 = t_notifications w"
    and "seq_deals w1 = seq_deals w" and "seq_deposits w1 = seq_deposits w"
    and "seq_withdrawals w1 = seq_withdrawals w" and "sent_events w1 = sent_events w"
    and "t_approvals w1 = t_approvals w"
  using lock_user_balance_effect [OF assms] by auto

text \<open>Lock, assign the two columns, flush: one account is set.\<close>

lemma lock_assign:
  assumes lock: "lock_user_balance u c w = Inr (b, w1)" and ok: "balances_ok w"
    and xy: "0 \<le> x" "0 \<le> y" "storable x" "storable y"
  shows "accounts (save_balance (b \<lparr> b_amount := x, b_locked := y \<rparr>) w1)
           = a_upd u c (\<lambda>_. (x, y)) (accounts w)"
    and "balances_ok (save_balance (b \<lparr> b_amount := x, b_locked := y \<rparr>) w1)"
proof -
  let ?b = "b \<lparr> b_amount := x, b_locked := y \<rparr>"
  have ok': "balance_ok ?b" using xy by (simp add: balance_ok_def)
  note l = lock_user_balance_ok [OF lock]
  then have "get_balance (b_user_id ?b) (b_currency_id ?b) w1 = Some b" by simp
  from accounts_save [OF this ok'] show
    "accounts (save_balance ?b w1) = a_upd u c (\<lambda>_. (x, y)) (accounts w)"
    using l by simp
  show "balances_ok (save_balance ?b w1)"
    using lock_user_balance_balances_ok(1) [OF lock ok] ok' by (rule balances_ok_save)
qed

section \<open>Properties\<close>

lemma set_dropWhile_subset: "set (dropWhile P s) \<subseteq> set s"
  by (meson set_dropWhileD subsetI)

lemma set_strip: "set (strip s) \<subseteq> set s"
  unfolding strip_def using set_dropWhile_subset by (metis (no_types, lifting) set_rev subset_trans)

text \<open>
  The payout address that is stored has at most 256 characters, none of them a control
  character or a backslash, and every one of them from the user's input.
\<close>

theorem sanitised_address_is_clean:
  "length (sanitise_withdraw_address raw) \<le> WITHDRAW_ADDRESS_MAX_LEN
     \<and> list_all (\<lambda>c. \<not> forbidden_address_char c) (sanitise_withdraw_address raw)
     \<and> set (sanitise_withdraw_address raw) \<subseteq> set raw"
proof -
  have "set (sanitise_withdraw_address raw) \<subseteq> set (filter (\<lambda>c. \<not> forbidden_address_char c) raw)"
    unfolding sanitise_withdraw_address_def Let_def
    using set_strip set_take_subset by (metis subset_trans)
  then show ?thesis
    by (auto simp: sanitise_withdraw_address_def Let_def list_all_iff)
qed

lemma get_currency_by_code_again:
  assumes "get_currency_by_code code w = Inr cur" and "t_currencies w' = t_currencies w"
  shows "get_currency_by_code (c_code cur) w' = Inr cur"
proof -
  have "c_code cur = map to_upper code"
    using assms(1) by (auto simp: get_currency_by_code_def split: option.splits dest!: find_Some_set)
  then have "map to_upper (c_code cur) = map to_upper code"
    by simp
  then show ?thesis using assms by (auto simp: get_currency_by_code_def split: option.splits)
qed

end
