(* ===== verification/Sample.thy ===== *)
theory Sample
  imports Wallet
begin

text \<open>
  One small database the concrete instances of the properties are evaluated on: a sample_buyer, a
  seller and an administrator, one currency of two digits, a deal in every phase, and
  deposits and withdrawals in every status.
\<close>

definition sample_user :: "int \<Rightarrow> string \<Rightarrow> bool \<Rightarrow> user" where
  "sample_user i name sample_admin =
     \<lparr> u_id = i, u_tg_user_id = 1000 + i, u_username = Some name, u_display_name = name,
       u_photo_url = None, u_banner_url = None, u_description = [], u_is_admin = sample_admin,
       u_is_arbiter = False, u_deals_total = 0, u_deals_success = 0, u_deals_failed = 0,
       u_deals_arbitrage = 0, u_deals_sum_override = 0, u_good = 0, u_bad = 0,
       u_pin_hash = None, u_pin_attempts = 0, u_pin_locked_until = None,
       u_pin_reset_code_hash = None, u_pin_reset_expires = None, u_pin_session_epoch = 0,
       u_pin_reset_attempts = 0, u_pin_reset_window_started_at = None, u_dm_deals = True,
       u_dm_deposits = True, u_dm_system = True, u_is_anonymous_deals = False,
       u_is_hidden_profile = False, u_is_banned = False, u_ban_reason = None,
       u_is_frozen = False, u_freeze_reason = None, u_is_vip = False, u_last_ip = None,
       u_last_login_at = None, u_language_code = None, u_login_count = 0,
       u_sessions_count = 0, u_trust_deposit_balance = 0, u_country = None,
       u_display_currency_code = None, u_rating_manual = None, u_totp_secret = None,
       u_totp_enabled = False, u_totp_last_counter = 0, u_totp_session_epoch = 0,
       u_pin_last_activity_at = None, u_created_at = 0 \<rparr>"

definition sample_buyer :: user where "sample_buyer = sample_user 1 ''alice'' False"
definition sample_seller :: user where "sample_seller = sample_user 2 ''bob'' False"
definition sample_admin :: user where "sample_admin = sample_user 3 ''root'' True"

definition usdt :: currency where
  "usdt = \<lparr> c_id = 7, c_code = ''USDT'', c_name = ''Tether'', c_network = ''TRC20'', c_icon_url = [],
     c_decimals = 2, c_min_deposit = 1, c_min_withdraw = 1, c_is_active = True, c_sort_order = 0,
     c_address_regex = [], c_kind = K_crypto \<rparr>"

definition sample_deal :: "int \<Rightarrow> DealStatus \<Rightarrow> decimal \<Rightarrow> deal" where
  "sample_deal i st amt =
     \<lparr> d_id = i, d_buyer_id = 1, d_seller_id = 2, d_description = [], d_status = st,
       d_confirm_buyer = False, d_confirm_seller = False, d_created_at = 0,
       d_completed_at = None, d_currency_id = 7, d_amount = amt, d_commission_amount = Some 1,
       d_in_progress_at = None,
       d_cancellation_initiator_id = (if st = pending_cancellation then Some 1 else None),
       d_cancellation_reason = None,
       d_cancellation_requested_at = (if st = pending_cancellation then Some 0 else None),
       d_arbitration_initiator_id = None,
       d_arbitration_reason = None, d_arbitration_resolved_by = None,
       d_arbitration_resolution = None, d_arbitration_resolved_at = None,
       d_payment_provider = ''cryptobot'',
       d_topup_deposit_id = (if st = pending_topup then Some 11 else None),
       d_commission_paid = (st \<noteq> pending_topup) \<rparr>"

definition sample_deposit ::
  "int \<Rightarrow> WalletDepositStatus \<Rightarrow> deposit_purpose \<Rightarrow> int option \<Rightarrow> decimal \<Rightarrow> wallet_deposit" where
  "sample_deposit i st pu linked amt =
     \<lparr> dep_id = i, dep_user_id = 1, dep_currency_id = 7, dep_amount = amt, dep_provider = cryptobot,
       dep_provider_invoice_id = [char_of (64 + nat i)], dep_pay_url = ''https://t.me'',
       dep_status = st, dep_purpose = pu, dep_linked_deal_id = linked, dep_created_at = 0,
       dep_paid_at = None, dep_paid_amount = None \<rparr>"

definition sample_withdrawal :: "int \<Rightarrow> WalletWithdrawStatus \<Rightarrow> decimal \<Rightarrow> wallet_withdrawal" where
  "sample_withdrawal i st amt =
     \<lparr> wd_id = i, wd_user_id = 1, wd_currency_id = 7, wd_amount = amt, wd_address = None,
       wd_status = st, wd_admin_note = [], wd_created_at = 0, wd_processed_at = None \<rparr>"

definition sample_deals :: "deal list" where
  "sample_deals = [sample_deal 5 in_progress 25, sample_deal 6 pending_confirmation 15,
     sample_deal 8 pending_topup 50, sample_deal 9 pending_cancellation 10,
     sample_deal 10 arbitration 20, sample_deal 12 completed 30]"

definition sample_deposits :: "wallet_deposit list" where
  "sample_deposits = [sample_deposit 11 DS_pending P_deal_topup (Some 8) 51,
     sample_deposit 13 DS_pending P_wallet None 20, sample_deposit 14 DS_paid P_wallet None 10,
     sample_deposit 15 DS_expired P_wallet None 5]"

definition sample_withdrawals :: "wallet_withdrawal list" where
  "sample_withdrawals = [sample_withdrawal 4 WS_pending 5, sample_withdrawal 16 WS_approved 6,
     sample_withdrawal 17 WS_sent 9]"

definition sample_settings :: app_settings where "sample_settings = default_app_settings"

definition sample_world :: world where
  "sample_world =
     \<lparr> t_users = [sample_buyer, sample_seller, sample_admin], t_currencies = [usdt], t_usd_rates = [],
       t_balances = [\<lparr> b_user_id = 1, b_currency_id = 7, b_amount = 100, b_locked = 81 \<rparr>,
                     \<lparr> b_user_id = 2, b_currency_id = 7, b_amount = 3, b_locked = 0 \<rparr>],
       t_deals = sample_deals, t_deposits = sample_deposits, t_withdrawals = sample_withdrawals,
       t_ledger = [], t_notifications = [], t_dlq = [], t_app_settings = Some sample_settings,
       t_approvals = [], t_audit = [], t_webhook_events = [], t_webhook_outbox = [],
       t_categories = [], t_services = [], t_reviews = [], t_transfer_codes = [],
       t_forums = [], t_comments = [],
       seq_deals = 100, seq_deposits = 100, seq_withdrawals = 100, seq_notifications = 1,
       seq_approvals = 1, seq_webhook_events = 1, seq_currencies = 100, seq_categories = 1,
       seq_reviews = 1, seq_transfer_codes = 1, seq_users = 100, seq_services = 1, seq_forums = 1, seq_comments = 1, sent_events = [] \<rparr>"

text \<open>The configuration of the instances: both providers answer, the CryptoBot token is set.\<close>

definition sample_cfg :: settings where
  "sample_cfg = \<lparr> cfg_cryptobot_token = ''123:ABC'', cfg_crystalpay_login = ''login'',
     cfg_crystalpay_secret = ''secret'', cfg_webapp_url = [], cfg_public_api_url = [],
     cfg_webhook_base_url = [], cfg_wallet_deposit_expiry_seconds = 3600,
     cfg_wallet_withdrawal_stale_seconds = 600 \<rparr>"

definition sample_invoice :: cryptopay_invoice where
  "sample_invoice = \<lparr> inv_invoice_id = 77, inv_status = ''active'', inv_asset = ''USDT'',
     inv_amount = ''5'', inv_pay_url = ''https://t.me/77'', inv_bot_invoice_url = None,
     inv_mini_app_invoice_url = None, inv_web_app_invoice_url = None \<rparr>"

definition sample_transfer :: cryptopay_transfer where
  "sample_transfer = \<lparr> tr_transfer_id = 9, tr_user_id = 1001, tr_asset = ''USDT'', tr_amount = ''5'',
     tr_status = ''completed'' \<rparr>"

definition sample_api :: provider_api where
  "sample_api = \<lparr> cp_create_invoice = (\<lambda>_. Some sample_invoice), cp_get_invoices = (\<lambda>_. None),
     cp_transfer = (\<lambda>_. Some sample_transfer), cp_get_transfers = (\<lambda>_. Some [sample_transfer]),
     yp_create_invoice = (\<lambda>_. None), yp_get_invoice = (\<lambda>_. None) \<rparr>"

section \<open>What is where\<close>

lemmas sample_rows = sample_world_def sample_deals_def sample_deposits_def sample_withdrawals_def
lemmas sample_user_rows = sample_buyer_def sample_seller_def sample_admin_def sample_user_def

lemma sample_deal_simps [simp]:
  "d_id (sample_deal i st a) = i" "d_buyer_id (sample_deal i st a) = 1"
  "d_seller_id (sample_deal i st a) = 2" "d_status (sample_deal i st a) = st"
  "d_currency_id (sample_deal i st a) = 7" "d_amount (sample_deal i st a) = a"
  "d_commission_amount (sample_deal i st a) = Some 1"
  "d_commission_paid (sample_deal i st a) = (st \<noteq> pending_topup)"
  "d_topup_deposit_id (sample_deal i st a) = (if st = pending_topup then Some 11 else None)"
  "d_cancellation_initiator_id (sample_deal i st a) = (if st = pending_cancellation then Some 1 else None)"
  "d_payment_provider (sample_deal i st a) = ''cryptobot''"
  by (simp_all add: sample_deal_def)

lemma sample_deposit_simps [simp]:
  "dep_id (sample_deposit i st pu l a) = i" "dep_user_id (sample_deposit i st pu l a) = 1"
  "dep_currency_id (sample_deposit i st pu l a) = 7" "dep_amount (sample_deposit i st pu l a) = a"
  "dep_status (sample_deposit i st pu l a) = st" "dep_purpose (sample_deposit i st pu l a) = pu"
  "dep_linked_deal_id (sample_deposit i st pu l a) = l"
  "dep_provider (sample_deposit i st pu l a) = cryptobot"
  "dep_provider_invoice_id (sample_deposit i st pu l a) = [char_of (64 + nat i)]"
  "dep_created_at (sample_deposit i st pu l a) = 0"
  by (simp_all add: sample_deposit_def)

lemma sample_withdrawal_simps [simp]:
  "wd_id (sample_withdrawal i st a) = i" "wd_user_id (sample_withdrawal i st a) = 1"
  "wd_currency_id (sample_withdrawal i st a) = 7" "wd_amount (sample_withdrawal i st a) = a"
  "wd_status (sample_withdrawal i st a) = st"
  by (simp_all add: sample_withdrawal_def)

lemma sample_ids [simp]: "u_id sample_buyer = 1" "u_id sample_seller = 2" "u_id sample_admin = 3"
  "c_id usdt = 7" "c_decimals usdt = 2" "c_code usdt = ''USDT''" "u_is_admin sample_admin"
  "c_min_deposit usdt = 1" "c_min_withdraw usdt = 1" "c_address_regex usdt = []"
  by (simp_all add: sample_user_rows usdt_def)

lemma sample_get [simp]:
  "get_currency 7 sample_world = Some usdt"
  "get_user 1 sample_world = Some sample_buyer" "get_user 2 sample_world = Some sample_seller"
  "get_user 3 sample_world = Some sample_admin"
  "get_deal 5 sample_world = Some (sample_deal 5 in_progress 25)"
  "get_deal 6 sample_world = Some (sample_deal 6 pending_confirmation 15)"
  "get_deal 8 sample_world = Some (sample_deal 8 pending_topup 50)"
  "get_deal 9 sample_world = Some (sample_deal 9 pending_cancellation 10)"
  "get_deal 10 sample_world = Some (sample_deal 10 arbitration 20)"
  "get_deal 12 sample_world = Some (sample_deal 12 completed 30)"
  "get_deposit 11 sample_world = Some (sample_deposit 11 DS_pending P_deal_topup (Some 8) 51)"
  "get_deposit 13 sample_world = Some (sample_deposit 13 DS_pending P_wallet None 20)"
  "get_deposit 14 sample_world = Some (sample_deposit 14 DS_paid P_wallet None 10)"
  "get_deposit 15 sample_world = Some (sample_deposit 15 DS_expired P_wallet None 5)"
  "get_withdrawal 4 sample_world = Some (sample_withdrawal 4 WS_pending 5)"
  "get_withdrawal 16 sample_world = Some (sample_withdrawal 16 WS_approved 6)"
  "get_withdrawal 17 sample_world = Some (sample_withdrawal 17 WS_sent 9)"
  by (simp_all add: get_currency_def get_user_def get_deal_def get_deposit_def get_withdrawal_def
      sample_rows)

lemma storable_numeral [simp]: "on_grid d (numeral n)" "on_grid d 1" "on_grid d (- 1)"
proof -
  have "on_grid d (of_int k)" for k :: int by (rule on_gridI [of _ _ "k * 10 ^ d"]) simp
  from this [of "numeral n"] this [of 1] this [of "- 1"]
  show "on_grid d (numeral n)" "on_grid d 1" "on_grid d (- 1)" by simp_all
qed

lemma sample_balances_ok [simp]: "balances_ok sample_world"
  by (simp add: balances_ok_def sample_rows tkeys_def balance_ok_def bkey_def)

lemma sample_accounts [simp]:
  "accounts sample_world u c = (if u = 1 \<and> c = 7 then (100, 81) else if u = 2 \<and> c = 7 then (3, 0) else (0, 0))"
  by (auto simp: accounts_def get_balance_def sample_rows bkey_def)

end
