(* ===== verification/Trail.thy ===== *)
theory Trail
  imports Sample
begin

text \<open>
  What the ledger owes its readers: \<open>audited w w'\<close> says that the entries written between two
  states add up to the change of every account, free and held, and that each entry agrees
  with itself. The operations of the following theories are shown to be audited; the few
  that write a balance and no entry are findings.
\<close>

section \<open>Entries that explain a change\<close>

definition posted_amount :: "ledger_entry list \<Rightarrow> int \<Rightarrow> int \<Rightarrow> decimal" where
  "posted_amount es u c =
     sum_list (map (\<lambda>e. if l_user_id e = u \<and> l_currency_id e = c then l_amount_delta e else 0) es)"

definition posted_locked :: "ledger_entry list \<Rightarrow> int \<Rightarrow> int \<Rightarrow> decimal" where
  "posted_locked es u c =
     sum_list (map (\<lambda>e. if l_user_id e = u \<and> l_currency_id e = c then l_locked_delta e else 0) es)"

definition explains :: "ledger_entry list \<Rightarrow> world \<Rightarrow> world \<Rightarrow> bool" where
  "explains es w w' \<longleftrightarrow> t_ledger w' = t_ledger w @ es \<and> list_all entry_consistent es \<and>
     (\<forall>u c. free w' u c = free w u c + posted_amount es u c \<and>
            held w' u c = held w u c + posted_locked es u c)"

definition audited :: "world \<Rightarrow> world \<Rightarrow> bool" where
  "audited w w' \<longleftrightarrow> (\<exists>es. explains es w w')"

lemma posted_simps [simp]:
  "posted_amount [] u c = 0" "posted_locked [] u c = 0"
  "posted_amount (xs @ ys) u c = posted_amount xs u c + posted_amount ys u c"
  "posted_locked (xs @ ys) u c = posted_locked xs u c + posted_locked ys u c"
  "posted_amount [e] u c = (if l_user_id e = u \<and> l_currency_id e = c then l_amount_delta e else 0)"
  "posted_locked [e] u c = (if l_user_id e = u \<and> l_currency_id e = c then l_locked_delta e else 0)"
  by (simp_all add: posted_amount_def posted_locked_def)

lemma audited_refl [simp]: "audited w w"
  unfolding audited_def explains_def by (rule exI [of _ "[]"]) simp

lemma explains_trans: "explains es w w1 \<Longrightarrow> explains es' w1 w2 \<Longrightarrow> explains (es @ es') w w2"
  by (auto simp: explains_def)

lemma audited_trans [trans]: "audited w w1 \<Longrightarrow> audited w1 w2 \<Longrightarrow> audited w w2"
  unfolding audited_def by (blast intro: explains_trans)

lemma audited_same:
  assumes "t_balances w' = t_balances w1" and "t_ledger w' = t_ledger w1" and "audited w w1"
  shows "audited w w'"
  using assms accounts_cong [OF assms(1)] by (simp add: audited_def explains_def)

lemma audited_from:
  assumes "accounts w = accounts w0" and "t_ledger w = t_ledger w0" and "audited w w'"
  shows "audited w0 w'"
  using assms by (simp add: audited_def explains_def)

lemma record_balance_explains:
  assumes acc: "accounts w1 = a_upd (b_user_id b) (b_currency_id b) (\<lambda>_. (b_amount b, b_locked b)) (accounts w)"
    and led: "t_ledger w1 = t_ledger w"
    and before: "accounts w (b_user_id b) (b_currency_id b) = (x, y)"
    and st: "storable x" "storable y" "storable (b_amount b)" "storable (b_locked b)"
  shows "audited w (ledgered b x y ev w1)"
proof (cases "fst (record_balance_ledger b x y ev w1)")
  case None
  then have "b_amount b = x" "b_locked b = y" and w': "ledgered b x y ev w1 = w1"
    by (auto simp: record_balance_ledger_def Let_def split: if_splits)
  with acc before have "accounts w1 = accounts w"
    by (auto simp: a_upd_def fun_eq_iff)
  with led w' show ?thesis
    by (auto simp: audited_def explains_def intro!: exI [of _ "[]"])
next
  case (Some e)
  note r = record_balance_entry [OF Some]
  have key: "l_user_id e = b_user_id b" "l_currency_id e = b_currency_id b"
    using Some by (auto simp: record_balance_ledger_def Let_def split: if_splits)
  have d: "l_amount_delta e = b_amount b - x" "l_locked_delta e = b_locked b - y"
    using r by (auto simp: entry_consistent_def)
  have dst: "storable (b_amount b - x)" "storable (b_locked b - y)"
    using st by (auto intro: grid)
  have row: "entry_consistent (ledger_row e)"
    using r st by (intro entry_row_consistent) auto
  have acc': "accounts (ledgered b x y ev w1) = accounts w1"
    by (rule accounts_cong) simp
  have "explains [ledger_row e] w (ledgered b x y ev w1)"
    unfolding explains_def acc' acc
    using r row led key d dst before by (auto simp: a_upd_def ledger_row_def)
  then show ?thesis by (auto simp: audited_def)
qed

lemma audited_write:
  assumes lock: "lock_user_balance (b_user_id b') (b_currency_id b') w = Inr (b, w1)"
    and ok: "balances_ok w" "balance_ok b'"
    and bal: "t_balances w2 = t_balances (save_balance b' w1)" and led: "t_ledger w2 = t_ledger w"
  shows "audited w (ledgered b' (b_amount b) (b_locked b) ev w2)"
proof (rule record_balance_explains)
  note l = lock_user_balance_ok [OF lock] and lb = lock_user_balance_balances_ok [OF lock ok(1)]
  show "accounts w2 = a_upd (b_user_id b') (b_currency_id b') (\<lambda>_. (b_amount b', b_locked b')) (accounts w)"
    using accounts_save [OF l(1) ok(2)] l(4) accounts_cong [OF bal] by simp
  show "accounts w (b_user_id b') (b_currency_id b') = (b_amount b, b_locked b)" by (rule l(5))
  show "storable (b_amount b)" "storable (b_locked b)" "storable (b_amount b')" "storable (b_locked b')"
    using lb(2) ok(2) by (auto simp: balance_ok_def)
qed (rule led)

text \<open>A row written under its lock: what happens to the accounts.\<close>

lemma written_row:
  assumes lock: "lock_user_balance u c w = Inr (b, w1)" and ok: "balances_ok w" "balance_ok b'"
    and key: "b_user_id b' = u" "b_currency_id b' = c"
    and w': "t_balances w' = t_balances (save_balance b' w1)"
  shows "accounts w' = a_upd u c (\<lambda>_. (b_amount b', b_locked b')) (accounts w)" and "balances_ok w'"
    and "total c' w' = total c' w
           + (if c' = c then b_amount b' + b_locked b' - (b_amount b + b_locked b) else 0)"
proof -
  note l = lock_user_balance_ok [OF lock] and lb = lock_user_balance_balances_ok [OF lock ok(1)]
  have "get_balance (b_user_id b') (b_currency_id b') w1 = Some b" using l key by simp
  from accounts_save [OF this ok(2)]
  show acc: "accounts w' = a_upd u c (\<lambda>_. (b_amount b', b_locked b')) (accounts w)"
    using accounts_cong [OF w'] l(4) key by simp
  show bal: "balances_ok w'"
    using balances_ok_save [OF lb(1) ok(2)] balances_ok_cong [OF w'] by simp
  obtain U where "finite U" "{u} \<subseteq> U" "total c' w = acc_sum U c' (accounts w)"
    "total c' w' = acc_sum U c' (accounts w')"
    using totals_over [OF ok(1) bal, of "{u}"] by auto
  then show "total c' w' = total c' w
           + (if c' = c then b_amount b' + b_locked b' - (b_amount b + b_locked b) else 0)"
    using l(5) by (simp add: acc acc_sum_upd)
qed

text \<open>A row credited under its lock, with its ledger entry.\<close>

lemma credited_row:
  assumes lock: "lock_user_balance u c w = Inr (b, w1)" and ok: "balances_ok w"
    and x: "0 \<le> x" "storable x"
    and w': "t_balances w' = t_balances (save_balance (b \<lparr> b_amount := b_amount b + x \<rparr>) w1)"
  shows "accounts w' = a_credit u c x (accounts w)" and "balances_ok w'"
    and "total c' w' = total c' w + (if c' = c then x else 0)"
    and "t_ledger w2 = t_ledger w \<Longrightarrow>
           t_balances w2 = t_balances (save_balance (b \<lparr> b_amount := b_amount b + x \<rparr>) w1) \<Longrightarrow>
           audited w (ledgered (b \<lparr> b_amount := b_amount b + x \<rparr>) (b_amount b) (b_locked b) ev w2)"
proof -
  let ?b = "b \<lparr> b_amount := b_amount b + x \<rparr>"
  note l = lock_user_balance_ok [OF lock] and lb = lock_user_balance_balances_ok [OF lock ok]
  have ok': "balance_ok ?b" using lb(2) x by (auto simp: balance_ok_def grid)
  have key: "b_user_id ?b = u" "b_currency_id ?b = c" using l by simp_all
  note r = written_row [OF lock ok ok' key w']
  show "accounts w' = a_credit u c x (accounts w)"
    using r(1) l(5) by (auto simp: a_credit_def intro!: a_upd_cong)
  show "balances_ok w'" "total c' w' = total c' w + (if c' = c then x else 0)" using r(2,3) by simp_all
  show "t_ledger w2 = t_ledger w \<Longrightarrow> t_balances w2 = t_balances (save_balance ?b w1) \<Longrightarrow>
      audited w (ledgered ?b (b_amount b) (b_locked b) ev w2)"
    using lock ok ok' key by (intro audited_write) simp_all
qed

lemma audited_row:
  assumes get: "get_balance (b_user_id b') (b_currency_id b') w = Some b"
    and "balances_ok w" "balance_ok b'"
    and "t_balances w2 = t_balances (save_balance b' w)" and "t_ledger w2 = t_ledger w"
  shows "audited w (ledgered b' (b_amount b) (b_locked b) ev w2)"
  by (rule audited_write [of _ _ _ w]) (use assms in \<open>simp_all add: lock_user_balance_def\<close>)

lemma ledgered_ledger_cong:
  "t_ledger w = t_ledger w' \<Longrightarrow> t_ledger (ledgered b x y ev w) = t_ledger (ledgered b x y ev w')"
  by (simp add: record_balance_ledger_def append_ledger_def Let_def)

lemma audited_two_writes:
  assumes ok: "balances_ok w" "balance_ok p'" "balance_ok q'"
    and getp: "get_balance (b_user_id p') (b_currency_id p') w = Some p"
    and getq: "get_balance (b_user_id q') (b_currency_id q') w = Some q"
    and ne: "b_user_id p' \<noteq> b_user_id q'"
  shows "audited w (ledgered q' (b_amount q) (b_locked q) ev2
           (ledgered p' (b_amount p) (b_locked p) ev1 (save_balance q' (save_balance p' w))))"
proof -
  let ?v1 = "ledgered p' (b_amount p) (b_locked p) ev1 (save_balance p' w)"
  let ?v2 = "ledgered q' (b_amount q) (b_locked q) ev2 (save_balance q' ?v1)"
  have v1: "audited w ?v1"
    by (rule audited_row [OF getp ok(1,2)]) simp_all
  have "balances_ok ?v1"
    using balances_ok_save [OF ok(1,2)] balances_ok_cong [of ?v1 "save_balance p' w"] by simp
  moreover have "get_balance (b_user_id q') (b_currency_id q') ?v1 = Some q"
    using getq ne get_balance_save [OF getp] by (simp add: get_balance_def)
  ultimately have "audited ?v1 ?v2"
    by (intro audited_row ok) simp_all
  with v1 have "audited w ?v2" by (rule audited_trans)
  then show ?thesis
    by (rule audited_same [rotated 2])
      (auto simp: save_balance_def intro!: ledgered_ledger_cong)
qed

section \<open>Two rows locked in order\<close>

lemma lock_pair:
  assumes 1: "lock_user_balance (min p q) c w = Inr (b1, w1)"
    and 2: "lock_user_balance (max p q) c w1 = Inr (b2, w2)"
  shows "get_balance p c w2 = Some (if p = min p q then b1 else b2)"
    and "get_balance q c w2 = Some (if p = min p q then b2 else b1)"
    and "accounts w2 = accounts w" and "t_ledger w2 = t_ledger w"
    and "balances_ok w \<Longrightarrow> balances_ok w2"
proof -
  have a: "get_balance (min p q) c w2 = Some b1"
    using lock_user_balance_keeps [OF 2 lock_user_balance_ok(1) [OF 1]] .
  moreover have b: "get_balance (max p q) c w2 = Some b2"
    using lock_user_balance_ok(1) [OF 2] .
  ultimately show "get_balance p c w2 = Some (if p = min p q then b1 else b2)"
    "get_balance q c w2 = Some (if p = min p q then b2 else b1)"
    by (auto simp: min_def max_def split: if_splits)
  show "accounts w2 = accounts w"
    using lock_user_balance_ok(4) [OF 1] lock_user_balance_ok(4) [OF 2] by simp
  show "t_ledger w2 = t_ledger w"
    using lock_user_balance_frame [OF 1] lock_user_balance_frame [OF 2] by simp
  show "balances_ok w \<Longrightarrow> balances_ok w2"
    using lock_user_balance_balances_ok(1) [OF 2 lock_user_balance_balances_ok(1) [OF 1]] .
qed

end
