(* ===== verification/Escrow.thy ===== *)
theory Escrow
  imports Trail
begin

text \<open>
  \<open>backend/app/services_deals.py\<close>, the settings row and the balance helpers: \<open>_debit\<close>,
  \<open>_refund\<close>, \<open>_refund_principal\<close> and \<open>_release_to\<close>, with the proof that each is the
  account operation of \<open>Accounts\<close> it stands for. The locale \<open>escrow_ops\<close> is what the deal
  lifecycle relies on; its interpretation is at the end.
\<close>

section \<open>Settings and commission\<close>

text \<open>\<open>_settings\<close> commits the row it inserts, whatever the caller does later.\<close>

definition settings_row :: "world \<Rightarrow> app_settings \<times> world" where
  "settings_row w =
     (case t_app_settings w of
        Some s \<Rightarrow> (s, w)
      | None \<Rightarrow> (default_app_settings, w \<lparr> t_app_settings := Some default_app_settings \<rparr>))"

definition commission_of :: "decimal \<Rightarrow> decimal \<Rightarrow> nat \<Rightarrow> decimal" where
  "commission_of amount percent decimals = quantize_money (amount * percent / 100) decimals"

definition resolve_commission_rate :: "app_settings \<Rightarrow> user \<Rightarrow> user \<Rightarrow> decimal" where
  "resolve_commission_rate settings buyer seller =
     (let rate = s_deal_commission_percent settings;
          vip_rate = s_vip_commission_percent settings
      in if 0 \<le> vip_rate \<and> (u_is_vip buyer \<or> u_is_vip seller) then vip_rate else rate)"

section \<open>Balance helpers\<close>

definition debit :: "int \<Rightarrow> int \<Rightarrow> decimal \<Rightarrow> user_balance tx" where
  "debit user_id currency_id amount w =
     (case lock_user_balance user_id currency_id w of Inl e \<Rightarrow> Inl e | Inr (bal, w1) \<Rightarrow>
        let current = b_amount bal; before_locked = b_locked bal in
        if current < amount
        then Inl (InsufficientFundsError amount current
                    (map_option c_code (get_currency currency_id w1)))
        else let bal' = bal \<lparr> b_amount := current - amount, b_locked := b_locked bal + amount \<rparr>;
                 w2 = save_balance bal' w1
             in Inr (bal', ledgered bal' current before_locked
                       (deal_event ''deal.lock'' [(''amount'', MDec amount)]) w2))"

definition refund :: "int \<Rightarrow> int \<Rightarrow> decimal \<Rightarrow> user_balance tx" where
  "refund user_id currency_id amount w =
     (case lock_user_balance user_id currency_id w of Inl e \<Rightarrow> Inl e | Inr (bal, w1) \<Rightarrow>
        let bal' = bal \<lparr> b_amount := b_amount bal + amount,
                         b_locked := max 0 (b_locked bal - amount) \<rparr>;
            w2 = save_balance bal' w1
        in Inr (bal', ledgered bal' (b_amount bal) (b_locked bal)
                  (deal_event ''deal.refund'' [(''amount'', MDec amount)]) w2))"

definition refund_principal :: "int \<Rightarrow> int \<Rightarrow> decimal \<Rightarrow> user_balance tx" where
  "refund_principal user_id currency_id amt w =
     (case lock_user_balance user_id currency_id w of Inl e \<Rightarrow> Inl e | Inr (bal, w1) \<Rightarrow>
        let bal' = bal \<lparr> b_amount := b_amount bal + amt,
                         b_locked := max 0 (b_locked bal - amt) \<rparr>;
            w2 = save_balance bal' w1
        in Inr (bal', ledgered bal' (b_amount bal) (b_locked bal)
                  (deal_event ''deal.refund_principal'' [(''amount'', MDec amt)]) w2))"

text \<open>
  The two rows are locked in ascending order of user id. When payer and payee are the same
  user, \<open>first\<close> and \<open>second\<close> are one object, which both assignments change.
\<close>

definition release_to :: "int \<Rightarrow> int \<Rightarrow> int \<Rightarrow> decimal \<Rightarrow> decimal \<Rightarrow> unit tx" where
  "release_to payer_id payee_id currency_id locked_amount payout_amount w =
     (let first_id = min payer_id payee_id; second_id = max payer_id payee_id in
      case lock_user_balance first_id currency_id w of Inl e \<Rightarrow> Inl e | Inr (first, w1) \<Rightarrow>
      case lock_user_balance second_id currency_id w1 of Inl e \<Rightarrow> Inl e | Inr (second, w2) \<Rightarrow>
        let payer = (if payer_id = first_id then first else second);
            payee = (if payer_id = first_id then second else first);
            m = [(''locked_amount'', MDec locked_amount), (''payout_amount'', MDec payout_amount)];
            payer1 = payer \<lparr> b_locked := max 0 (b_locked payer - locked_amount) \<rparr>;
            payee1 = (if payer_id = payee_id then payer1 else payee);
            payee2 = payee1 \<lparr> b_amount := b_amount payee1 + payout_amount \<rparr>;
            payer2 = (if payer_id = payee_id then payee2 else payer1);
            w3 = save_balance payee2 (save_balance payer2 w2);
            w4 = ledgered payer2 (b_amount payer) (b_locked payer)
                   (deal_event ''deal.release_debit'' m) w3;
            w5 = ledgered payee2 (b_amount payee) (b_locked payee)
                   (deal_event ''deal.release_credit'' m) w4
        in Inr ((), w5))"

section \<open>The helpers refine the account operations\<close>

lemma settings_row_frame [simp, frame]:
  "t_users (snd (settings_row w)) = t_users w"
  "t_currencies (snd (settings_row w)) = t_currencies w"
  "t_balances (snd (settings_row w)) = t_balances w"
  "t_deals (snd (settings_row w)) = t_deals w"
  "t_deposits (snd (settings_row w)) = t_deposits w"
  "t_withdrawals (snd (settings_row w)) = t_withdrawals w"
  "t_ledger (snd (settings_row w)) = t_ledger w"
  "seq_deals (snd (settings_row w)) = seq_deals w"
  "seq_deposits (snd (settings_row w)) = seq_deposits w"
  "seq_withdrawals (snd (settings_row w)) = seq_withdrawals w"
  "sent_events (snd (settings_row w)) = sent_events w"
  by (simp_all add: settings_row_def split: option.splits)

lemma settings_row_id: "t_app_settings w = Some s \<Longrightarrow> settings_row w = (s, w)"
  by (simp add: settings_row_def)

lemma debit_refines:
  assumes ok: "balances_ok w" and x: "0 \<le> x" "storable x"
    and run: "debit u c x w = Inr (b, w')"
  shows "x \<le> free w u c" and "accounts w' = a_lock u c x (accounts w)" and "balances_ok w'"
proof -
  obtain bal w1 where lock: "lock_user_balance u c w = Inr (bal, w1)"
    using lock_user_balance_total by blast
  note l = lock_user_balance_ok [OF lock] and lb = lock_user_balance_balances_ok [OF lock ok]
  have le: "\<not> b_amount bal < x" using run lock by (auto simp: debit_def Let_def)
  then show "x \<le> free w u c" using l by simp
  let ?w2 = "save_balance (bal \<lparr> b_amount := b_amount bal - x, b_locked := b_locked bal + x \<rparr>) w1"
  have w': "t_balances w' = t_balances ?w2"
    using run lock le by (auto simp: debit_def Let_def)
  have "0 \<le> b_amount bal - x" "0 \<le> b_locked bal + x" "storable (b_amount bal - x)"
    "storable (b_locked bal + x)"
    using le lb(2) x by (auto simp: balance_ok_def intro: grid)
  note a = lock_assign [OF lock ok this]
  show "accounts w' = a_lock u c x (accounts w)"
    using a(1) accounts_cong [OF w'] l(5) by (auto simp: a_lock_def intro!: a_upd_cong)
  show "balances_ok w'" using a(2) balances_ok_cong [OF w'] by simp
qed

lemma debit_insufficient:
  assumes "debit u c x w = Inl e"
  shows "free w u c < x"
    and "e = InsufficientFundsError x (free w u c) (map_option c_code (get_currency c w))"
proof -
  obtain bal w1 where lock: "lock_user_balance u c w = Inr (bal, w1)"
    using lock_user_balance_total by blast
  note l = lock_user_balance_ok [OF lock] and f = lock_user_balance_frame [OF lock]
  show "free w u c < x"
    using assms lock l by (auto simp: debit_def Let_def split: if_splits)
  show "e = InsufficientFundsError x (free w u c) (map_option c_code (get_currency c w))"
    using assms lock l f by (auto simp: debit_def Let_def get_currency_def split: if_splits)
qed

lemma refund_principal_total: "\<exists>b w'. refund_principal u c x w = Inr (b, w')"
  using lock_user_balance_total [of u c w] by (auto simp: refund_principal_def Let_def)

lemma refund_principal_refines:
  assumes ok: "balances_ok w" and x: "0 \<le> x" "storable x"
    and run: "refund_principal u c x w = Inr (b, w')"
  shows "accounts w' = a_unlock u c x (accounts w)" and "balances_ok w'"
proof -
  obtain bal w1 where lock: "lock_user_balance u c w = Inr (bal, w1)"
    using lock_user_balance_total by blast
  note l = lock_user_balance_ok [OF lock] and lb = lock_user_balance_balances_ok [OF lock ok]
  let ?w2 = "save_balance (bal \<lparr> b_amount := b_amount bal + x,
                                b_locked := max 0 (b_locked bal - x) \<rparr>) w1"
  have w': "t_balances w' = t_balances ?w2"
    using run lock by (auto simp: refund_principal_def Let_def)
  have "0 \<le> b_amount bal + x" "0 \<le> max 0 (b_locked bal - x)" "storable (b_amount bal + x)"
    "storable (max 0 (b_locked bal - x))"
    using lb(2) x by (auto simp: balance_ok_def intro: grid)
  note a = lock_assign [OF lock ok this]
  show "accounts w' = a_unlock u c x (accounts w)"
    using a(1) accounts_cong [OF w'] l(5) by (auto simp: a_unlock_def intro!: a_upd_cong)
  show "balances_ok w'" using a(2) balances_ok_cong [OF w'] by simp
qed

lemma refund_is_unlock:
  "refund u c x w = Inr (b, w') \<Longrightarrow> balances_ok w \<Longrightarrow> 0 \<le> x \<Longrightarrow> storable x \<Longrightarrow>
     accounts w' = a_unlock u c x (accounts w) \<and> balances_ok w'"
proof -
  assume run: "refund u c x w = Inr (b, w')" and ok: "balances_ok w" and x: "0 \<le> x" "storable x"
  obtain b' w'' where rp: "refund_principal u c x w = Inr (b', w'')"
    using refund_principal_total by blast
  have "t_balances w' = t_balances w''"
    using run rp lock_user_balance_total [of u c w]
    by (auto simp: refund_def refund_principal_def Let_def)
  with refund_principal_refines [OF ok x rp] show ?thesis
    using accounts_cong [of w' w''] balances_ok_cong [of w' w''] by simp
qed

lemma release_to_total: "\<exists>w'. release_to p q c l x w = Inr ((), w')"
proof -
  obtain b1 w1 where 1: "lock_user_balance (min p q) c w = Inr (b1, w1)"
    using lock_user_balance_total by blast
  obtain b2 w2 where 2: "lock_user_balance (max p q) c w1 = Inr (b2, w2)"
    using lock_user_balance_total by blast
  from 1 2 show ?thesis by (simp add: release_to_def Let_def)
qed

lemma release_to_refines:
  assumes ok: "balances_ok w" and l: "storable l" and x: "0 \<le> x" "storable x"
    and run: "release_to p q c l x w = Inr ((), w')"
  shows "accounts w' = a_credit q c x (a_burn p c l (accounts w))" and "balances_ok w'"
proof -
  obtain b1 w1 where 1: "lock_user_balance (min p q) c w = Inr (b1, w1)"
    using lock_user_balance_total by blast
  obtain b2 w2 where 2: "lock_user_balance (max p q) c w1 = Inr (b2, w2)"
    using lock_user_balance_total by blast
  note pr = lock_pair [OF 1 2]
  define payer where "payer = (if p = min p q then b1 else b2)"
  define payee where "payee = (if p = min p q then b2 else b1)"
  note ok2 = pr(5) [OF ok] and acc2 = pr(3)
  have gp: "get_balance p c w2 = Some payer" and gq: "get_balance q c w2 = Some payee"
    using pr by (auto simp: payer_def payee_def)
  note kp = get_balance_key [OF gp] and kq = get_balance_key [OF gq]
  note okp = get_balance_ok [OF ok2 gp] and okq = get_balance_ok [OF ok2 gq]
  define payer1 where "payer1 = payer \<lparr> b_locked := max 0 (b_locked payer - l) \<rparr>"
  define payee1 where "payee1 = (if p = q then payer1 else payee)"
  define payee2 where "payee2 = payee1 \<lparr> b_amount := b_amount payee1 + x \<rparr>"
  define payer2 where "payer2 = (if p = q then payee2 else payer1)"
  have ok1: "balance_ok payer2" "balance_ok payee2"
    using okp okq l x
    by (auto simp: balance_ok_def payer1_def payee1_def payee2_def payer2_def intro: grid)
  have key: "b_user_id payer2 = p" "b_currency_id payer2 = c"
    "b_user_id payee2 = q" "b_currency_id payee2 = c"
    using kp kq by (auto simp: payer1_def payee1_def payee2_def payer2_def)
  let ?w3 = "save_balance payee2 (save_balance payer2 w2)"
  have w': "t_balances w' = t_balances ?w3"
    using run 1 2
    by (auto simp: release_to_def Let_def payer1_def payee1_def payee2_def payer2_def
        payer_def payee_def)
  have a1: "accounts (save_balance payer2 w2)
      = a_upd p c (\<lambda>_. (b_amount payer2, b_locked payer2)) (accounts w2)"
    using accounts_save [of payer2 w2 payer] gp ok1 key by simp
  have "get_balance q c (save_balance payer2 w2) \<noteq> None"
    using get_balance_save [of payer2 w2 payer q c] gp gq key by auto
  then obtain b0 where "get_balance (b_user_id payee2) (b_currency_id payee2)
      (save_balance payer2 w2) = Some b0"
    using key by auto
  note a2 = accounts_save [OF this ok1(2)]
  have "accounts w2 p c = (b_amount payer, b_locked payer)"
    and "accounts w2 q c = (b_amount payee, b_locked payee)"
    using accounts_Some gp gq by blast+
  then show "accounts w' = a_credit q c x (a_burn p c l (accounts w))"
    using a1 a2 accounts_cong [OF w'] key acc2 gp gq
    by (auto simp: a_credit_def a_burn_def a_upd_def fun_eq_iff payer1_def payee1_def payee2_def
        payer2_def)
  show "balances_ok w'"
    using balances_ok_save [OF balances_ok_save [OF ok2 ok1(1)] ok1(2)] balances_ok_cong [OF w']
    by simp
qed

section \<open>The helpers are audited\<close>

lemma debit_audited:
  assumes ok: "balances_ok w" and x: "0 \<le> x" "storable x" and run: "debit u c x w = Inr (b, w')"
  shows "audited w w'"
proof -
  obtain bal w1 where lock: "lock_user_balance u c w = Inr (bal, w1)"
    using lock_user_balance_total by blast
  note l = lock_user_balance_ok [OF lock] and lb = lock_user_balance_balances_ok [OF lock ok]
    and f = lock_user_balance_frame [OF lock]
  show ?thesis
    using run lock l lb x f ok
    by (auto simp: debit_def Let_def balance_ok_def split: if_splits
        intro!: audited_write simp: grid)
qed

lemma refund_principal_audited:
  assumes ok: "balances_ok w" and x: "0 \<le> x" "storable x" and run: "refund_principal u c x w = Inr (b, w')"
  shows "audited w w'"
proof -
  obtain bal w1 where lock: "lock_user_balance u c w = Inr (bal, w1)"
    using lock_user_balance_total by blast
  note l = lock_user_balance_ok [OF lock] and lb = lock_user_balance_balances_ok [OF lock ok]
    and f = lock_user_balance_frame [OF lock]
  show ?thesis
    using run lock l lb x f ok
    by (auto simp: refund_principal_def Let_def balance_ok_def 
        intro!: audited_write simp: grid)
qed


lemma release_to_audited:
  assumes ok: "balances_ok w" and l: "storable l" and x: "0 \<le> x" "storable x" and ne: "p \<noteq> q"
    and run: "release_to p q c l x w = Inr ((), w')"
  shows "audited w w'"
proof -
  obtain b1 w1 where 1: "lock_user_balance (min p q) c w = Inr (b1, w1)"
    using lock_user_balance_total by blast
  obtain b2 w2 where 2: "lock_user_balance (max p q) c w1 = Inr (b2, w2)"
    using lock_user_balance_total by blast
  note pr = lock_pair [OF 1 2]
  define payer where "payer = (if p = min p q then b1 else b2)"
  define payee where "payee = (if p = min p q then b2 else b1)"
  have gp: "get_balance p c w2 = Some payer" and gq: "get_balance q c w2 = Some payee"
    using pr by (auto simp: payer_def payee_def)
  note k = get_balance_key [OF gp] get_balance_key [OF gq]
  note o = get_balance_ok [OF pr(5) [OF ok] gp] get_balance_ok [OF pr(5) [OF ok] gq]
  let ?p = "payer \<lparr> b_locked := max 0 (b_locked payer - l) \<rparr>"
  let ?q = "payee \<lparr> b_amount := b_amount payee + x \<rparr>"
  obtain ev1 ev2 where w': "w' = ledgered ?q (b_amount payee) (b_locked payee) ev2
      (ledgered ?p (b_amount payer) (b_locked payer) ev1 (save_balance ?q (save_balance ?p w2)))"
    using run 1 2 ne by (auto simp: release_to_def Let_def payer_def payee_def)
  have "audited w2 w'"
    unfolding w' using o k gp gq ne l x pr(5) [OF ok]
    by (intro audited_two_writes) (auto simp: balance_ok_def grid)
  then show ?thesis by (rule audited_from [rotated 2]) (use pr in simp_all)
qed

section \<open>Frame\<close>

lemma debit_frame [frame]:
  assumes "debit u c x w = Inr (b, w')"
  shows "t_users w' = t_users w"
    and "t_currencies w' = t_currencies w"
    and "t_deals w' = t_deals w"
    and "t_deposits w' = t_deposits w"
    and "t_withdrawals w' = t_withdrawals w"
    and "t_notifications w' = t_notifications w"
    and "t_app_settings w' = t_app_settings w"
    and "t_approvals w' = t_approvals w"
    and "seq_deals w' = seq_deals w"
    and "seq_deposits w' = seq_deposits w"
    and "seq_withdrawals w' = seq_withdrawals w"
    and "sent_events w' = sent_events w"
proof -
  obtain bal w1 where lock: "lock_user_balance u c w = Inr (bal, w1)"
    using lock_user_balance_total by blast
  note lock_user_balance_frame [OF lock]
  with assms lock show "t_users w' = t_users w"
    "t_currencies w' = t_currencies w"
    "t_deals w' = t_deals w"
    "t_deposits w' = t_deposits w"
    "t_withdrawals w' = t_withdrawals w"
    "t_notifications w' = t_notifications w"
    "t_app_settings w' = t_app_settings w"
    "t_approvals w' = t_approvals w"
    "seq_deals w' = seq_deals w"
    "seq_deposits w' = seq_deposits w"
    "seq_withdrawals w' = seq_withdrawals w"
    "sent_events w' = sent_events w"
    by (auto simp: debit_def Let_def split: if_splits)
qed

lemma refund_principal_frame [frame]:
  assumes "refund_principal u c x w = Inr (b, w')"
  shows "t_users w' = t_users w"
    and "t_currencies w' = t_currencies w"
    and "t_deals w' = t_deals w"
    and "t_deposits w' = t_deposits w"
    and "t_withdrawals w' = t_withdrawals w"
    and "t_notifications w' = t_notifications w"
    and "t_app_settings w' = t_app_settings w"
    and "t_approvals w' = t_approvals w"
    and "seq_deals w' = seq_deals w"
    and "seq_deposits w' = seq_deposits w"
    and "seq_withdrawals w' = seq_withdrawals w"
    and "sent_events w' = sent_events w"
proof -
  obtain bal w1 where lock: "lock_user_balance u c w = Inr (bal, w1)"
    using lock_user_balance_total by blast
  note lock_user_balance_frame [OF lock]
  with assms lock show "t_users w' = t_users w"
    "t_currencies w' = t_currencies w"
    "t_deals w' = t_deals w"
    "t_deposits w' = t_deposits w"
    "t_withdrawals w' = t_withdrawals w"
    "t_notifications w' = t_notifications w"
    "t_app_settings w' = t_app_settings w"
    "t_approvals w' = t_approvals w"
    "seq_deals w' = seq_deals w"
    "seq_deposits w' = seq_deposits w"
    "seq_withdrawals w' = seq_withdrawals w"
    "sent_events w' = sent_events w"
    by (auto simp: refund_principal_def Let_def split: if_splits)
qed

lemma release_to_frame [frame]:
  assumes "release_to p q c l x w = Inr ((), w')"
  shows "t_users w' = t_users w"
    and "t_currencies w' = t_currencies w"
    and "t_deals w' = t_deals w"
    and "t_deposits w' = t_deposits w"
    and "t_withdrawals w' = t_withdrawals w"
    and "t_notifications w' = t_notifications w"
    and "t_app_settings w' = t_app_settings w"
    and "t_approvals w' = t_approvals w"
    and "seq_deals w' = seq_deals w"
    and "seq_deposits w' = seq_deposits w"
    and "seq_withdrawals w' = seq_withdrawals w"
    and "sent_events w' = sent_events w"
proof -
  obtain b1 w1 where 1: "lock_user_balance (min p q) c w = Inr (b1, w1)"
    using lock_user_balance_total by blast
  obtain b2 w2 where 2: "lock_user_balance (max p q) c w1 = Inr (b2, w2)"
    using lock_user_balance_total by blast
  note lock_user_balance_frame [OF 1] lock_user_balance_frame [OF 2]
  with assms 1 2 show "t_users w' = t_users w"
    "t_currencies w' = t_currencies w"
    "t_deals w' = t_deals w"
    "t_deposits w' = t_deposits w"
    "t_withdrawals w' = t_withdrawals w"
    "t_notifications w' = t_notifications w"
    "t_app_settings w' = t_app_settings w"
    "t_approvals w' = t_approvals w"
    "seq_deals w' = seq_deals w"
    "seq_deposits w' = seq_deposits w"
    "seq_withdrawals w' = seq_withdrawals w"
    "sent_events w' = sent_events w"
    by (auto simp: release_to_def Let_def)
qed

section \<open>The escrow interface\<close>

text \<open>
  What the deal lifecycle asks of the wallet: hold a buyer's money, give it back, pay it to
  the seller; each is its account operation and keeps the table well formed.
\<close>

locale escrow_ops =
  fixes hold :: "int \<Rightarrow> int \<Rightarrow> decimal \<Rightarrow> world \<Rightarrow> py_error + world"
    and unhold :: "int \<Rightarrow> int \<Rightarrow> decimal \<Rightarrow> world \<Rightarrow> py_error + world"
    and pay :: "int \<Rightarrow> int \<Rightarrow> int \<Rightarrow> decimal \<Rightarrow> world \<Rightarrow> py_error + world"
  assumes hold_spec: "balances_ok w \<Longrightarrow> 0 \<le> x \<Longrightarrow> storable x \<Longrightarrow> hold u c x w = Inr w' \<Longrightarrow>
      x \<le> free w u c \<and> accounts w' = a_lock u c x (accounts w) \<and> balances_ok w'"
    and hold_succeeds: "x \<le> free w u c \<Longrightarrow> \<exists>w'. hold u c x w = Inr w'"
    and unhold_spec: "balances_ok w \<Longrightarrow> 0 \<le> x \<Longrightarrow> storable x \<Longrightarrow> unhold u c x w = Inr w' \<Longrightarrow>
      accounts w' = a_unlock u c x (accounts w) \<and> balances_ok w'"
    and unhold_succeeds: "\<exists>w'. unhold u c x w = Inr w'"
    and pay_spec: "balances_ok w \<Longrightarrow> 0 \<le> x \<Longrightarrow> storable x \<Longrightarrow> pay p q c x w = Inr w' \<Longrightarrow>
      accounts w' = a_credit q c x (a_burn p c x (accounts w)) \<and> balances_ok w'"
    and pay_succeeds: "\<exists>w'. pay p q c x w = Inr w'"
begin

lemma hold_unhold:
  assumes "balances_ok w" "0 \<le> x" "storable x" "hold u c x w = Inr w1" "unhold u c x w1 = Inr w2"
  shows "accounts w2 = accounts w"
proof -
  from hold_spec [OF assms(1-4)] have a: "accounts w1 = a_lock u c x (accounts w)"
    and "balances_ok w1" by auto
  from unhold_spec [OF this(2) assms(2,3,5)] have "accounts w2 = a_unlock u c x (accounts w1)"
    by simp
  moreover have "0 \<le> held w u c" using accounts_ok [OF assms(1)] by simp
  ultimately show ?thesis
    unfolding a by (auto simp: a_lock_def a_unlock_def a_upd_def fun_eq_iff split: prod.splits)
qed

text \<open>Money is neither made nor lost: holding and giving back keep the total of every
  currency, and so does paying out what was held.\<close>

lemma hold_total:
  assumes "balances_ok w" "0 \<le> x" "storable x" "hold u c x w = Inr w'"
  shows "total c' w' = total c' w"
proof -
  from hold_spec [OF assms] have a: "accounts w' = a_lock u c x (accounts w)" "balances_ok w'"
    by auto
  obtain U where "finite U" "{u} \<subseteq> U" "total c' w = acc_sum U c' (accounts w)"
    "total c' w' = acc_sum U c' (accounts w')"
    using totals_over [OF assms(1) a(2), of "{u}"] by auto
  then show ?thesis
    by (simp add: a(1) a_lock_def acc_sum_upd split: prod.splits)
qed

lemma unhold_total:
  assumes "balances_ok w" "0 \<le> x" "storable x" "unhold u c x w = Inr w'" "x \<le> held w u c"
  shows "total c' w' = total c' w"
proof -
  from unhold_spec [OF assms(1-4)] have a: "accounts w' = a_unlock u c x (accounts w)"
    "balances_ok w'" by auto
  obtain U where "finite U" "{u} \<subseteq> U" "total c' w = acc_sum U c' (accounts w)"
    "total c' w' = acc_sum U c' (accounts w')"
    using totals_over [OF assms(1) a(2), of "{u}"] by auto
  with assms(5) show ?thesis
    by (simp add: a(1) a_unlock_def acc_sum_upd split: prod.splits)
qed

lemma pay_total:
  assumes "balances_ok w" "0 \<le> x" "storable x" "pay p q c x w = Inr w'" "x \<le> held w p c"
  shows "total c' w' = total c' w"
proof -
  from pay_spec [OF assms(1-4)] have a: "accounts w' = a_credit q c x (a_burn p c x (accounts w))"
    "balances_ok w'" by auto
  obtain U where U: "finite U" "{p, q} \<subseteq> U" and t: "total c' w = acc_sum U c' (accounts w)"
    "total c' w' = acc_sum U c' (accounts w')"
    using totals_over [OF assms(1) a(2), of "{p, q}"] by auto
  have "acc_sum U c' (a_burn p c x (accounts w)) = acc_sum U c' (accounts w) - (if c' = c then x else 0)"
    using U assms(5) by (auto simp: a_burn_def acc_sum_upd max_def split: prod.splits)
  moreover have "acc_sum U c' (a_credit q c x B) = acc_sum U c' B + (if c' = c then x else 0)" for B
    using U by (simp add: a_credit_def acc_sum_upd split: prod.splits)
  ultimately show ?thesis using t by (simp add: a(1))
qed

end

definition escrow_hold :: "int \<Rightarrow> int \<Rightarrow> decimal \<Rightarrow> world \<Rightarrow> py_error + world" where
  "escrow_hold u c x w = map_sum id snd (debit u c x w)"

definition escrow_unhold :: "int \<Rightarrow> int \<Rightarrow> decimal \<Rightarrow> world \<Rightarrow> py_error + world" where
  "escrow_unhold u c x w = map_sum id snd (refund_principal u c x w)"

definition escrow_pay :: "int \<Rightarrow> int \<Rightarrow> int \<Rightarrow> decimal \<Rightarrow> world \<Rightarrow> py_error + world" where
  "escrow_pay p q c x w = map_sum id snd (release_to p q c x x w)"

lemma escrow_Inr:
  "map_sum id snd r = Inr w' \<longleftrightarrow> (\<exists>b. r = Inr (b, w'))"
  by (cases r) auto

interpretation wallet_escrow: escrow_ops escrow_hold escrow_unhold escrow_pay
proof
  fix w w' u c x
  assume "balances_ok w" "0 \<le> x" "storable x" "escrow_hold u c x w = Inr w'"
  then show "x \<le> free w u c \<and> accounts w' = a_lock u c x (accounts w) \<and> balances_ok w'"
    by (auto simp: escrow_hold_def escrow_Inr dest: debit_refines)
next
  fix w u c x
  assume "x \<le> free w u c"
  then show "\<exists>w'. escrow_hold u c x w = Inr w'"
    using debit_insufficient(1) [of u c x w]
    by (cases "debit u c x w") (auto simp: escrow_hold_def)
next
  fix w w' u c x
  assume "balances_ok w" "0 \<le> x" "storable x" "escrow_unhold u c x w = Inr w'"
  then show "accounts w' = a_unlock u c x (accounts w) \<and> balances_ok w'"
    by (auto simp: escrow_unhold_def escrow_Inr dest: refund_principal_refines)
next
  fix w u c x
  show "\<exists>w'. escrow_unhold u c x w = Inr w'"
    using refund_principal_total [of u c x w] by (auto simp: escrow_unhold_def)
next
  fix w w' p q c x
  assume "balances_ok w" "0 \<le> x" "storable x" "escrow_pay p q c x w = Inr w'"
  then show "accounts w' = a_credit q c x (a_burn p c x (accounts w)) \<and> balances_ok w'"
    by (auto simp: escrow_pay_def escrow_Inr dest: release_to_refines)
next
  fix w p q c x
  show "\<exists>w'. escrow_pay p q c x w = Inr w'"
    using release_to_total [of p q c x x w] by (auto simp: escrow_pay_def)
qed

section \<open>Properties\<close>

text \<open>
  Taking the lock on a balance returns its one row, made empty when it is missing, and
  taking it again returns the same row: no account changes and no second row appears.
\<close>

theorem lock_user_balance_returns_the_row:
  assumes "balances_ok w"
  shows "\<exists>b w1. lock_user_balance u c w = Inr (b, w1) \<and> get_balance u c w1 = Some b
    \<and> balances_ok w1 \<and> accounts w1 = accounts w \<and> accounts w u c = (b_amount b, b_locked b)
    \<and> lock_user_balance u c w1 = Inr (b, w1)
    \<and> t_balances w1 = (if get_balance u c w = None then t_balances w @ [empty_balance u c] else t_balances w)"
proof -
  obtain b w1 where lock: "lock_user_balance u c w = Inr (b, w1)"
    using lock_user_balance_total by blast
  note l = lock_user_balance_ok [OF lock]
  have "lock_user_balance u c w1 = Inr (b, w1)"
    using l(1) by (simp add: lock_user_balance_def)
  moreover have "t_balances w1 = (if get_balance u c w = None then t_balances w @ [empty_balance u c] else t_balances w)"
    using lock_user_balance_effect [OF lock] by auto
  ultimately show ?thesis
    using lock l lock_user_balance_balances_ok(1) [OF lock assms] by blast
qed

lemma lock_user_balance_returns_the_row_witness:
  "\<exists>b w1. lock_user_balance 5 7 sample_world = Inr (b, w1) \<and> get_balance 5 7 w1 = Some b
    \<and> lock_user_balance 5 7 w1 = Inr (b, w1) \<and> accounts w1 = accounts sample_world"
  using lock_user_balance_returns_the_row [OF sample_balances_ok, of 5 7] by blast

text \<open>
  \<open>_debit\<close> locks an amount only when the free money covers it, and otherwise raises
  \<open>InsufficientFundsError\<close> with the amounts it compared: the free part never goes negative.
\<close>

theorem debit_never_overdraws:
  assumes "balances_ok w" and "0 \<le> x" and "storable x"
  shows "case debit u c x w of
      Inl e \<Rightarrow> free w u c < x
        \<and> e = InsufficientFundsError x (free w u c) (map_option c_code (get_currency c w))
    | Inr (b, w') \<Rightarrow> x \<le> free w u c \<and> accounts w' = a_lock u c x (accounts w) \<and> 0 \<le> free w' u c
        \<and> get_balance u c w' = Some b \<and> balances_ok w' \<and> audited w w'"
proof (cases "debit u c x w")
  case (Inl e)
  then show ?thesis using debit_insufficient [OF Inl] by simp
next
  case (Inr r)
  obtain b w' where r: "r = (b, w')" by (cases r)
  note run = Inr [unfolded r]
  note d = debit_refines [OF assms run]
  have "get_balance u c w' = Some b"
  proof -
    obtain bal w1 where lock: "lock_user_balance u c w = Inr (bal, w1)"
      using lock_user_balance_total by blast
    note l = lock_user_balance_ok [OF lock] and lb = lock_user_balance_balances_ok [OF lock assms(1)]
    let ?b = "bal \<lparr> b_amount := b_amount bal - x, b_locked := b_locked bal + x \<rparr>"
    have b: "b = ?b" and w': "t_balances w' = t_balances (save_balance ?b w1)" and le: "x \<le> b_amount bal"
      using run lock by (auto simp: debit_def Let_def split: if_splits)
    have "balance_ok ?b" using lb(2) le assms(2,3) by (auto simp: balance_ok_def grid)
    then show ?thesis
      using get_balance_save [of ?b w1 bal u c] l w' b by (simp add: get_balance_def)
  qed
  with d show ?thesis using run assms accounts_ok [OF d(3), of u c] debit_audited [OF assms run]
    by (simp add: r)
qed

lemma debit_never_overdraws_witness:
  "case debit 1 7 101 sample_world of
      Inl e \<Rightarrow> e = InsufficientFundsError 101 100 (Some ''USDT'')
    | Inr (b, w') \<Rightarrow> False"
  using debit_never_overdraws [OF sample_balances_ok, of 101 1 7] by (auto split: sum.splits)

text \<open>
  What \<open>_debit\<close> locks \<open>_refund_principal\<close> gives back: the two together leave every account
  as it was, neither makes or loses money, and the ledger explains both.
\<close>

theorem debit_then_refund_restores:
  assumes "balances_ok w" and "0 \<le> x" and "storable x" and "x \<le> free w u c"
  shows "\<exists>b w1 b' w2. debit u c x w = Inr (b, w1) \<and> refund_principal u c x w1 = Inr (b', w2)
           \<and> accounts w1 = a_lock u c x (accounts w) \<and> accounts w2 = accounts w
           \<and> total c' w1 = total c' w \<and> audited w w1 \<and> audited w1 w2"
proof -
  obtain w1 where h: "escrow_hold u c x w = Inr w1"
    using wallet_escrow.hold_succeeds [OF assms(4)] by blast
  obtain w2 where r: "escrow_unhold u c x w1 = Inr w2"
    using wallet_escrow.unhold_succeeds by blast
  have s: "accounts w1 = a_lock u c x (accounts w)" "balances_ok w1"
    using wallet_escrow.hold_spec [OF assms(1-3) h] by auto
  have t: "accounts w2 = accounts w" "total c' w1 = total c' w"
    using wallet_escrow.hold_unhold [OF assms(1-3) h r] wallet_escrow.hold_total [OF assms(1-3) h] by auto
  from h r obtain b b' where b: "debit u c x w = Inr (b, w1)" and b': "refund_principal u c x w1 = Inr (b', w2)"
    by (auto simp: escrow_hold_def escrow_unhold_def escrow_Inr)
  have a: "audited w w1" "audited w1 w2"
    using debit_audited [OF assms(1-3) b] refund_principal_audited [OF s(2) assms(2,3) b'] .
  show ?thesis
    using s(1) t a b b' by blast
qed

lemma debit_then_refund_restores_witness:
  "\<exists>b w1 b' w2. debit 1 7 30 sample_world = Inr (b, w1) \<and> refund_principal 1 7 30 w1 = Inr (b', w2)
     \<and> accounts w1 = a_lock 1 7 30 (accounts sample_world) \<and> accounts w2 = accounts sample_world
     \<and> total 7 w1 = total 7 sample_world \<and> audited sample_world w1 \<and> audited w1 w2"
  by (rule debit_then_refund_restores) simp_all

text \<open>
  C16. \<open>_release_to\<close> pays what the payer's account holds: the amount leaves the payer's locked
  part and reaches the payee's free part, no other account moves, the total of every currency
  is kept and the ledger explains the change.
\<close>

theorem release_pays_seller_from_held:
  assumes "balances_ok w" and "0 \<le> x" and "storable x" and "x \<le> held w p c" and "p \<noteq> q"
  shows "\<exists>w'. release_to p q c x x w = Inr ((), w')
           \<and> held w' p c = held w p c - x \<and> free w' p c = free w p c
           \<and> free w' q c = free w q c + x \<and> held w' q c = held w q c
           \<and> (\<forall>u c'. (u, c') \<notin> {(p, c), (q, c)} \<longrightarrow> accounts w' u c' = accounts w u c')
           \<and> total c' w' = total c' w \<and> audited w w'"
proof -
  obtain w' where run: "release_to p q c x x w = Inr ((), w')" 
    using release_to_total by blast
  then have pay: "escrow_pay p q c x w = Inr w'" by (simp add: escrow_pay_def)
  note a = wallet_escrow.pay_spec [OF assms(1-3) pay]
  have "total c' w' = total c' w"
    by (rule wallet_escrow.pay_total [OF assms(1-3) pay assms(4)])
  moreover have "audited w w'" by (rule release_to_audited [OF assms(1,3,2,3,5) run])
  ultimately show ?thesis
    using run a assms(4,5) by (auto simp: a_credit_def a_burn_def a_upd_def split: prod.splits)
qed

lemma release_pays_seller_from_held_witness:
  "\<exists>w'. release_to 1 2 7 25 25 sample_world = Inr ((), w') \<and> held w' 1 7 = 56 \<and> free w' 2 7 = 28"
  using release_pays_seller_from_held [OF sample_balances_ok, of 25 1 7 2] by fastforce

text \<open>
  The commission of a non-negative amount at a rate between nought and a hundred percent
  lies between nought and the amount, on the currency's grid.
\<close>

theorem commission_within_amount:
  assumes "0 \<le> percent" and "percent \<le> 100" and "0 \<le> amt" and "on_grid d amt"
  shows "0 \<le> commission_of amt percent d \<and> commission_of amt percent d \<le> amt
    \<and> on_grid d (commission_of amt percent d)"
proof -
  have "amt * percent \<le> amt * 100" using assms by (intro mult_left_mono) auto
  then have le: "amt * percent / 100 \<le> amt" by simp
  have ge: "0 \<le> amt * percent / 100" using assms by simp
  from quantize_le_grid [OF le assms(4)] quantize_nonneg [OF ge]
  show ?thesis unfolding commission_of_def by simp
qed

lemma commission_within_amount_witness:
  "0 \<le> commission_of (1999 / 100) 5 2 \<and> commission_of (1999 / 100) 5 2 \<le> 1999 / 100
    \<and> on_grid 2 (commission_of (1999 / 100) 5 2)"
  by (rule commission_within_amount) (simp_all add: on_grid_def)

end
