(* ===== verification/Books.thy ===== *)
theory Books
  imports Escrow
begin

text \<open>
  The books: what the \<open>locked\<close> column has to equal. A deal from its confirmation request to
  its end, and a withdrawal from its request to its payout, hold their amount; the locked
  part of an account is the sum of what is held on it. The locale \<open>deal_op\<close> states what an
  operation on one deal promises, and proves once what follows for all of them.
\<close>

section \<open>Holds\<close>

definition holds_escrow :: "DealStatus \<Rightarrow> bool" where
  "holds_escrow st =
     (st = pending_confirmation \<or> st = in_progress \<or> st = pending_cancellation \<or> st = arbitration)"

definition deal_hold :: "deal \<Rightarrow> int \<Rightarrow> int \<Rightarrow> decimal" where
  "deal_hold d u c =
     (if d_buyer_id d = u \<and> d_currency_id d = c \<and> holds_escrow (d_status d) then d_amount d else 0)"

definition escrow :: "world \<Rightarrow> int \<Rightarrow> int \<Rightarrow> decimal" where
  "escrow w u c = sum_list (map (\<lambda>d. deal_hold d u c) (t_deals w))"

definition withdrawal_open :: "WalletWithdrawStatus \<Rightarrow> bool" where
  "withdrawal_open st = (st = WS_pending \<or> st = WS_approved)"

definition withdrawal_hold :: "wallet_withdrawal \<Rightarrow> int \<Rightarrow> int \<Rightarrow> decimal" where
  "withdrawal_hold x u c =
     (if wd_user_id x = u \<and> wd_currency_id x = c \<and> withdrawal_open (wd_status x) then wd_amount x else 0)"

definition reserved :: "world \<Rightarrow> int \<Rightarrow> int \<Rightarrow> decimal" where
  "reserved w u c = sum_list (map (\<lambda>x. withdrawal_hold x u c) (t_withdrawals w))"

section \<open>Well-formed tables\<close>

text \<open>A deal's amount is positive and has at most the digits of its currency; its parties differ.\<close>

definition deal_ok :: "world \<Rightarrow> deal \<Rightarrow> bool" where
  "deal_ok w d \<longleftrightarrow> 0 < d_amount d \<and> storable (d_amount d) \<and> d_buyer_id d \<noteq> d_seller_id d \<and>
     (case get_currency (d_currency_id d) w of
        None \<Rightarrow> True | Some cur \<Rightarrow> on_grid (c_decimals cur) (d_amount d))"

definition deals_ok :: "world \<Rightarrow> bool" where
  "deals_ok w \<longleftrightarrow> tkeys d_id (t_deals w) \<and>
     list_all (\<lambda>d. deal_ok w d \<and> d_id d < seq_deals w) (t_deals w)"

definition withdrawals_ok :: "world \<Rightarrow> bool" where
  "withdrawals_ok w \<longleftrightarrow> tkeys wd_id (t_withdrawals w) \<and>
     list_all (\<lambda>x. 0 < wd_amount x \<and> storable (wd_amount x) \<and> wd_id x < seq_withdrawals w)
       (t_withdrawals w)"

definition deposits_ok :: "world \<Rightarrow> bool" where
  "deposits_ok w \<longleftrightarrow> tkeys dep_id (t_deposits w) \<and>
     list_all (\<lambda>x. 0 \<le> dep_amount x \<and> storable (dep_amount x) \<and> dep_id x < seq_deposits w)
       (t_deposits w)"

definition currencies_ok :: "world \<Rightarrow> bool" where
  "currencies_ok w \<longleftrightarrow> tkeys c_id (t_currencies w) \<and>
     list_all (\<lambda>c. c_decimals c \<le> MONEY_SCALE) (t_currencies w)"

definition books_balance :: "world \<Rightarrow> bool" where
  "books_balance w \<longleftrightarrow> (\<forall>u c. held w u c = escrow w u c + reserved w u c)"

definition books_ok :: "world \<Rightarrow> bool" where
  "books_ok w \<longleftrightarrow> balances_ok w \<and> deals_ok w \<and> withdrawals_ok w \<and> deposits_ok w
     \<and> currencies_ok w \<and> books_balance w"

lemma deposit_row_simps [simp]:
  "dep_id (deposit_row x) = dep_id x" "dep_amount (deposit_row x) = column (dep_amount x)"
  "dep_status (deposit_row x) = dep_status x" "dep_linked_deal_id (deposit_row x) = dep_linked_deal_id x"
  by (simp_all add: deposit_row_def)

lemma save_deposit_frame [simp, frame]:
  "t_users (save_deposit x w) = t_users w" "t_currencies (save_deposit x w) = t_currencies w"
  "t_balances (save_deposit x w) = t_balances w" "t_deals (save_deposit x w) = t_deals w"
  "t_withdrawals (save_deposit x w) = t_withdrawals w" "t_ledger (save_deposit x w) = t_ledger w"
  "t_app_settings (save_deposit x w) = t_app_settings w"
  "seq_deals (save_deposit x w) = seq_deals w" "seq_deposits (save_deposit x w) = seq_deposits w"
  "seq_withdrawals (save_deposit x w) = seq_withdrawals w"
  "t_deposits (save_deposit x w) = tput dep_id (deposit_row x) (t_deposits w)"
  by (simp_all add: save_deposit_def)

section \<open>Reading and writing deals\<close>

lemma holds_escrow_simps [simp]:
  "holds_escrow pending_confirmation" "holds_escrow in_progress"
  "holds_escrow pending_cancellation" "holds_escrow arbitration"
  "\<not> holds_escrow cancelled" "\<not> holds_escrow completed" "\<not> holds_escrow resolved_for_buyer"
  "\<not> holds_escrow resolved_for_seller" "\<not> holds_escrow cancelled_for_inactivity"
  "\<not> holds_escrow pending_topup" "\<not> holds_escrow pending_payment"
  by (simp_all add: holds_escrow_def)

lemma deal_hold_nonneg: "0 < d_amount d \<Longrightarrow> 0 \<le> deal_hold d u c"
  by (simp add: deal_hold_def)

lemma withdrawal_hold_nonneg: "0 < wd_amount x \<Longrightarrow> 0 \<le> withdrawal_hold x u c"
  by (simp add: withdrawal_hold_def)

lemma deal_row_ok [simp]:
  "storable (d_amount d) \<Longrightarrow> d_amount (deal_row d) = d_amount d"
  "d_id (deal_row d) = d_id d" "d_status (deal_row d) = d_status d"
  "d_buyer_id (deal_row d) = d_buyer_id d" "d_seller_id (deal_row d) = d_seller_id d"
  "d_currency_id (deal_row d) = d_currency_id d"
  by (simp_all add: deal_row_def)

lemma deal_hold_row [simp]: "storable (d_amount d) \<Longrightarrow> deal_hold (deal_row d) = deal_hold d"
  by (intro ext) (simp add: deal_hold_def)

lemma get_deal_in: "get_deal i w = Some d \<Longrightarrow> d \<in> set (t_deals w) \<and> d_id d = i"
  unfolding get_deal_def by (rule tget_Some)

lemma get_deal_ok: "deals_ok w \<Longrightarrow> get_deal i w = Some d \<Longrightarrow> deal_ok w d"
  by (drule get_deal_in) (auto simp: deals_ok_def list_all_iff)

lemma reserved_nonneg: "withdrawals_ok w \<Longrightarrow> 0 \<le> reserved w u c"
  unfolding reserved_def withdrawals_ok_def
  by (intro sum_list_nonneg) (auto simp: list_all_iff intro!: withdrawal_hold_nonneg)

lemma escrow_nonneg: "deals_ok w \<Longrightarrow> 0 \<le> escrow w u c"
  unfolding escrow_def deals_ok_def
  by (intro sum_list_nonneg) (auto simp: list_all_iff deal_ok_def intro!: deal_hold_nonneg)

lemma deal_hold_le_escrow:
  "deals_ok w \<Longrightarrow> get_deal i w = Some d \<Longrightarrow> deal_hold d u c \<le> escrow w u c"
  unfolding escrow_def
  by (rule sum_list_nonneg_member [of _ "\<lambda>d. deal_hold d u c"])
    (auto simp: deals_ok_def list_all_iff deal_ok_def dest!: get_deal_in intro!: deal_hold_nonneg)

lemma withdrawal_hold_le_reserved:
  "withdrawals_ok w \<Longrightarrow> get_withdrawal i w = Some x \<Longrightarrow> withdrawal_hold x u c \<le> reserved w u c"
  unfolding reserved_def get_withdrawal_def
  by (rule sum_list_nonneg_member [of _ "\<lambda>x. withdrawal_hold x u c"])
    (auto simp: withdrawals_ok_def list_all_iff dest!: tget_Some intro!: withdrawal_hold_nonneg)

text \<open>In balanced books what a deal holds is there.\<close>

lemma deal_hold_le_held:
  assumes "books_ok w" and "get_deal i w = Some d"
  shows "deal_hold d u c \<le> held w u c"
  using assms deal_hold_le_escrow [of w i d u c] reserved_nonneg [of w u c]
  by (auto simp: books_ok_def books_balance_def)

lemma withdrawal_hold_le_held:
  assumes "books_ok w" and "get_withdrawal i w = Some x"
  shows "withdrawal_hold x u c \<le> held w u c"
  using assms withdrawal_hold_le_reserved [of w i x u c] escrow_nonneg [of w u c]
  by (auto simp: books_ok_def books_balance_def)

lemma quantize_deal_amount:
  "deal_ok w d \<Longrightarrow> get_currency (d_currency_id d) w = Some cur \<Longrightarrow>
     quantize_money (d_amount d) (c_decimals cur) = d_amount d"
  by (simp add: deal_ok_def)

lemma get_currency_id: "get_currency i w = Some cur \<Longrightarrow> c_id cur = i"
  unfolding get_currency_def by (drule tget_Some) simp

section \<open>Writing one row\<close>

lemma books_ok_step:
  assumes "books_ok w" and "balances_ok w'" and "deals_ok w'" and "withdrawals_ok w'"
    and "deposits_ok w'" and "t_currencies w' = t_currencies w"
    and "\<And>u c. held w' u c - held w u c = escrow w' u c - escrow w u c + (reserved w' u c - reserved w u c)"
  shows "books_ok w'"
  using assms(1-6) assms(7) by (simp add: books_ok_def books_balance_def currencies_ok_def)

lemma deal_ok_cong: "t_currencies w' = t_currencies w \<Longrightarrow> deal_ok w' d = deal_ok w d"
  by (simp add: deal_ok_def get_currency_def)

lemma deals_same:
  assumes "deals_ok w" and "t_deals w' = t_deals w" and "seq_deals w' = seq_deals w"
    and "t_currencies w' = t_currencies w"
  shows "deals_ok w'" and "escrow w' = escrow w"
  using assms by (auto simp: deals_ok_def escrow_def deal_ok_cong [OF assms(4)] fun_eq_iff)

lemma deals_insert:
  assumes ok: "deals_ok w" and rows: "t_deals w' = t_deals w @ [r]" and "d_id r = seq_deals w"
    and "seq_deals w' = seq_deals w + 1" and cur: "t_currencies w' = t_currencies w" and "deal_ok w r"
  shows "deals_ok w'" and "escrow w' u c = escrow w u c + deal_hold r u c"
  using assms by (auto simp: deals_ok_def escrow_def deal_ok_cong [OF cur] tkeys_def list_all_iff)

lemma deals_update:
  assumes ok: "deals_ok w" and get: "get_deal (d_id r) w = Some d"
    and rows: "t_deals w' = tput d_id r (t_deals w)" and seq: "seq_deals w' = seq_deals w"
    and cur: "t_currencies w' = t_currencies w" and r: "deal_ok w r"
  shows "deals_ok w'" and "escrow w' u c = escrow w u c - deal_hold d u c + deal_hold r u c"
proof -
  have keys: "tkeys d_id (t_deals w)" using ok by (simp add: deals_ok_def)
  have "d_id r < seq_deals w"
    using ok get_deal_in [OF get] by (auto simp: deals_ok_def list_all_iff)
  then show "deals_ok w'"
    using ok r by (auto simp: deals_ok_def rows seq deal_ok_cong [OF cur] list_all_iff
        dest!: set_tput_cases)
  show "escrow w' u c = escrow w u c - deal_hold d u c + deal_hold r u c"
    using sum_list_tput [OF keys, of r d "\<lambda>d. deal_hold d u c"] get
    by (simp add: escrow_def rows get_deal_def)
qed

lemma withdrawals_same:
  assumes "withdrawals_ok w" and "t_withdrawals w' = t_withdrawals w"
    and "seq_withdrawals w' = seq_withdrawals w"
  shows "withdrawals_ok w'" and "reserved w' = reserved w"
  using assms by (auto simp: withdrawals_ok_def reserved_def fun_eq_iff)

lemma withdrawals_insert:
  assumes ok: "withdrawals_ok w" and rows: "t_withdrawals w' = t_withdrawals w @ [r]"
    and "wd_id r = seq_withdrawals w" and "seq_withdrawals w' = seq_withdrawals w + 1"
    and "0 < wd_amount r" and "storable (wd_amount r)"
  shows "withdrawals_ok w'" and "reserved w' u c = reserved w u c + withdrawal_hold r u c"
  using assms by (auto simp: withdrawals_ok_def reserved_def tkeys_def list_all_iff)

lemma withdrawals_update:
  assumes ok: "withdrawals_ok w" and get: "get_withdrawal (wd_id r) w = Some x"
    and rows: "t_withdrawals w' = tput wd_id r (t_withdrawals w)"
    and seq: "seq_withdrawals w' = seq_withdrawals w"
    and r: "0 < wd_amount r" "storable (wd_amount r)"
  shows "withdrawals_ok w'"
    and "reserved w' u c = reserved w u c - withdrawal_hold x u c + withdrawal_hold r u c"
proof -
  have keys: "tkeys wd_id (t_withdrawals w)" using ok by (simp add: withdrawals_ok_def)
  have "wd_id r < seq_withdrawals w"
    using ok get by (auto simp: withdrawals_ok_def list_all_iff get_withdrawal_def dest!: tget_Some)
  then show "withdrawals_ok w'"
    using ok r by (auto simp: withdrawals_ok_def rows seq list_all_iff dest!: set_tput_cases)
  show "reserved w' u c = reserved w u c - withdrawal_hold x u c + withdrawal_hold r u c"
    using sum_list_tput [OF keys, of r x "\<lambda>d. withdrawal_hold d u c"] get
    by (simp add: reserved_def rows get_withdrawal_def)
qed

lemma get_deposit_ok:
  "deposits_ok w \<Longrightarrow> get_deposit i w = Some x \<Longrightarrow>
     0 \<le> dep_amount x \<and> storable (dep_amount x) \<and> dep_id x = i \<and> i < seq_deposits w"
  unfolding get_deposit_def by (drule tget_Some) (auto simp: deposits_ok_def list_all_iff)

lemma deposits_same:
  "deposits_ok w \<Longrightarrow> t_deposits w' = t_deposits w \<Longrightarrow> seq_deposits w' = seq_deposits w \<Longrightarrow> deposits_ok w'"
  by (simp add: deposits_ok_def)

lemma deposits_insert:
  assumes "deposits_ok w" and "t_deposits w' = t_deposits w @ [r]" and "dep_id r = seq_deposits w"
    and "seq_deposits w' = seq_deposits w + 1" and "0 \<le> dep_amount r" and "storable (dep_amount r)"
  shows "deposits_ok w'"
  using assms by (auto simp: deposits_ok_def tkeys_def list_all_iff)

lemma deposits_update:
  assumes "deposits_ok w" and "get_deposit (dep_id r) w = Some x"
    and "t_deposits w' = tput dep_id r (t_deposits w)" and "seq_deposits w' = seq_deposits w"
    and "0 \<le> dep_amount r" and "storable (dep_amount r)"
  shows "deposits_ok w'" and "get_deposit (dep_id r) w' = Some r"
    and "i \<noteq> dep_id r \<Longrightarrow> get_deposit i w' = get_deposit i w"
proof -
  show "deposits_ok w'"
    using assms get_deposit_ok [OF assms(1,2)]
    by (auto simp: deposits_ok_def list_all_iff dest!: set_tput_cases)
  show "get_deposit (dep_id r) w' = Some r"
    using tget_tput_same [OF assms(2) [unfolded get_deposit_def]] assms(3)
    by (simp add: get_deposit_def)
  show "i \<noteq> dep_id r \<Longrightarrow> get_deposit i w' = get_deposit i w"
    using assms(3) by (simp add: get_deposit_def tget_tput)
qed

section \<open>Operations on one deal\<close>

definition same_deal :: "deal \<Rightarrow> deal \<Rightarrow> bool" where
  "same_deal d d' \<longleftrightarrow> d_id d' = d_id d \<and> d_buyer_id d' = d_buyer_id d \<and> d_seller_id d' = d_seller_id d
     \<and> d_currency_id d' = d_currency_id d \<and> d_amount d' = d_amount d"

text \<open>
  \<open>op d w\<close> runs on the locked row \<open>d\<close>. It fails without a trace or moves the deal from one of
  \<open>sources\<close> to one of \<open>targets\<close>, writes that row and no other, and changes the locked money
  of every account by exactly what the deal holds less or more.
\<close>

locale deal_op =
  fixes op :: "deal \<Rightarrow> world \<Rightarrow> deal result"
    and sources :: "DealStatus list"
    and targets :: "DealStatus list"
  assumes fails_clean: "op d w = (Inl e, w') \<Longrightarrow> w' = w"
    and source: "op d w = (Inr d', w') \<Longrightarrow> d_status d \<in> set sources"
    and target: "op d w = (Inr d', w') \<Longrightarrow> d_status d' \<in> set targets"
    and identity: "op d w = (Inr d', w') \<Longrightarrow> same_deal d d'"
    and writes_row: "op d w = (Inr d', w') \<Longrightarrow> t_deals w' = tput d_id (deal_row d') (t_deals w)"
    and others: "op d w = (Inr d', w') \<Longrightarrow> t_withdrawals w' = t_withdrawals w
      \<and> t_deposits w' = t_deposits w \<and> t_currencies w' = t_currencies w
      \<and> seq_deals w' = seq_deals w \<and> seq_deposits w' = seq_deposits w
      \<and> seq_withdrawals w' = seq_withdrawals w"
    and money: "op d w = (Inr d', w') \<Longrightarrow> balances_ok w \<Longrightarrow> deal_ok w d \<Longrightarrow>
      deal_hold d (d_buyer_id d) (d_currency_id d) \<le> held w (d_buyer_id d) (d_currency_id d) \<Longrightarrow>
      balances_ok w' \<and> (\<forall>u c. held w' u c = held w u c - deal_hold d u c + deal_hold d' u c)"
    and trail: "op d w = (Inr d', w') \<Longrightarrow> balances_ok w \<Longrightarrow> deal_ok w d \<Longrightarrow> audited w w'"
    and conserves: "op d w = (Inr d', w') \<Longrightarrow> balances_ok w \<Longrightarrow> deal_ok w d \<Longrightarrow>
      deal_hold d (d_buyer_id d) (d_currency_id d) \<le> held w (d_buyer_id d) (d_currency_id d) \<Longrightarrow>
      total c w' = total c w"
begin

text \<open>The row found afterwards is the one the operation returned.\<close>

lemma row_after:
  assumes "op d w = (Inr d', w')" and "get_deal (d_id d) w = Some d"
  shows "get_deal (d_id d) w' = Some (deal_row d')"
proof -
  have "d_id (deal_row d') = d_id d"
    using identity [OF assms(1)] by (simp add: same_deal_def)
  with writes_row [OF assms(1)] tget_tput_same [of d_id "deal_row d'" "t_deals w" d] assms(2)
  show ?thesis by (simp add: get_deal_def)
qed

lemma other_rows:
  assumes "op d w = (Inr d', w')" and "i \<noteq> d_id d"
  shows "get_deal i w' = get_deal i w"
proof -
  have "d_id (deal_row d') = d_id d"
    using identity [OF assms(1)] by (simp add: same_deal_def)
  with writes_row [OF assms(1)] assms(2) show ?thesis
    by (simp add: get_deal_def tget_tput)
qed

text \<open>When no target is a source, a second run on the row left behind is refused: two
  requests on one deal never both move its money.\<close>

lemma no_repeat:
  assumes "op d w = (Inr d', w')" and "get_deal (d_id d) w = Some d"
    and "set sources \<inter> set targets = {}" and "get_deal (d_id d) w' = Some d2"
  shows "\<not> succeeds (op d2 w')"
proof
  assume "succeeds (op d2 w')"
  then obtain d3 w3 where "op d2 w' = (Inr d3, w3)"
    by (cases "op d2 w'") (auto simp: succeeds_def split: sum.splits)
  then have "d_status d2 \<in> set sources" by (rule source)
  moreover have "d_status d2 \<in> set targets"
    using row_after [OF assms(1,2)] assms(4) target [OF assms(1)] by simp
  ultimately show False using assms(3) by auto
qed

lemma keeps_deal_ok:
  assumes "op d w = (Inr d', w')" and "deal_ok w d"
  shows "deal_ok w' (deal_row d')"
  using assms(2) identity [OF assms(1)] others [OF assms(1)]
  by (auto simp: deal_ok_def same_deal_def get_currency_def split: option.splits)

lemma keeps_books:
  assumes ok: "books_ok w" and get: "get_deal (d_id d) w = Some d"
    and run: "op d w = (Inr d', w')"
  shows "books_ok w'"
proof -
  note same = identity [OF run] and oth = others [OF run]
  have dok: "deal_ok w d" and "deals_ok w" "withdrawals_ok w" "deposits_ok w"
    and bal: "balances_ok w"
    using ok get by (auto simp: books_ok_def intro: get_deal_ok)
  have st: "storable (d_amount d')" using dok same by (simp add: deal_ok_def same_deal_def)
  have "deal_ok w (deal_row d')"
    using keeps_deal_ok [OF run dok] oth deal_ok_cong [of w' w] by simp
  moreover have "get_deal (d_id (deal_row d')) w = Some d"
    using get same by (simp add: same_deal_def)
  ultimately have "deals_ok w'" and "escrow w' u c = escrow w u c - deal_hold d u c + deal_hold d' u c" for u c
    using deals_update [OF \<open>deals_ok w\<close>, of "deal_row d'" d w'] writes_row [OF run] oth st by simp_all
  moreover have "withdrawals_ok w'" and "reserved w' = reserved w"
    using withdrawals_same [OF \<open>withdrawals_ok w\<close>, of w'] oth by simp_all
  moreover have "deposits_ok w'"
    using deposits_same [OF \<open>deposits_ok w\<close>, of w'] oth by simp
  moreover note m = money [OF run bal dok deal_hold_le_held [OF ok get]]
  have "held w' u c - held w u c = deal_hold d' u c - deal_hold d u c" for u c
    using m by simp
  ultimately show ?thesis
    using m oth by (intro books_ok_step [OF ok]) simp_all
qed

lemma refused: "d_status d \<notin> set sources \<Longrightarrow> \<exists>e. op d w = (Inl e, w)"
  using source fails_clean by (cases "op d w"; cases "fst (op d w)") force+

lemma effects:
  assumes ok: "books_ok w" and get: "get_deal (d_id d) w = Some d" and run: "op d w = (Inr d', w')"
  shows "books_ok w' \<and> total c w' = total c w \<and> audited w w'
    \<and> get_deal (d_id d) w' = Some (deal_row d')"
  using keeps_books [OF ok get run] row_after [OF run get] trail [OF run] conserves [OF run]
    deal_hold_le_held [OF ok get] get_deal_ok [OF _ get] ok
  by (simp add: books_ok_def)

end

section \<open>Locked money under the account operations\<close>

lemma held_unlock:
  "x \<le> held w u c \<Longrightarrow> accounts w' = a_unlock u c x (accounts w) \<Longrightarrow>
     held w' u' c' = held w u' c' - (if u' = u \<and> c' = c then x else 0)"
  by (auto simp: a_unlock_def a_upd_def split: prod.splits)

lemma held_pay:
  "x \<le> held w p c \<Longrightarrow> accounts w' = a_credit q c y (a_burn p c x (accounts w)) \<Longrightarrow>
     held w' u' c' = held w u' c' - (if u' = p \<and> c' = c then x else 0)"
  by (auto simp: a_credit_def a_burn_def a_upd_def split: prod.splits)

lemma held_lock:
  "accounts w' = a_lock u c x (accounts w) \<Longrightarrow>
     held w' u' c' = held w u' c' + (if u' = u \<and> c' = c then x else 0)"
  by (auto simp: a_lock_def a_upd_def split: prod.splits)

lemma held_credit:
  "accounts w' = a_credit u c x (accounts w) \<Longrightarrow> held w' = held w"
  by (intro ext) (auto simp: a_credit_def a_upd_def split: prod.splits)

section \<open>Operations that settle a deal\<close>

lemma deal_hold_none [simp]: "\<not> holds_escrow (d_status d) \<Longrightarrow> deal_hold d u c = 0"
  by (simp add: deal_hold_def)

text \<open>Refunding, or paying out, what a deal holds takes exactly that off the locked money.\<close>

lemma refund_deal:
  assumes "balances_ok w" and "deal_ok w d" and "holds_escrow (d_status d)"
    and le: "deal_hold d (d_buyer_id d) (d_currency_id d) \<le> held w (d_buyer_id d) (d_currency_id d)"
    and cur: "get_currency (d_currency_id d) w = Some cur"
    and run: "refund_principal (d_buyer_id d) (c_id cur)
                (quantize_money (d_amount d) (c_decimals cur)) w = Inr (b, w1)"
  shows "balances_ok w1 \<and> (\<forall>u c. held w1 u c = held w u c - deal_hold d u c)
           \<and> t_deals w1 = t_deals w \<and> t_withdrawals w1 = t_withdrawals w
           \<and> t_deposits w1 = t_deposits w \<and> t_currencies w1 = t_currencies w
           \<and> seq_deals w1 = seq_deals w \<and> seq_deposits w1 = seq_deposits w
           \<and> seq_withdrawals w1 = seq_withdrawals w"
proof -
  have run': "refund_principal (d_buyer_id d) (d_currency_id d) (d_amount d) w = Inr (b, w1)"
    using run quantize_deal_amount [OF assms(2) cur] get_currency_id [OF cur] by simp
  have x: "0 \<le> d_amount d" "storable (d_amount d)" using assms(2) by (auto simp: deal_ok_def)
  note r = refund_principal_refines [OF assms(1) x run']
  have "d_amount d \<le> held w (d_buyer_id d) (d_currency_id d)"
    using le assms(3) by (simp add: deal_hold_def)
  from held_unlock [OF this r(1)] have
    "held w1 u c = held w u c - deal_hold d u c" for u c
    using assms(3) by (auto simp: deal_hold_def)
  with r(2) refund_principal_frame [OF run'] show ?thesis by simp
qed

lemma release_deal:
  assumes "balances_ok w" and "deal_ok w d" and "holds_escrow (d_status d)"
    and le: "deal_hold d (d_buyer_id d) (d_currency_id d) \<le> held w (d_buyer_id d) (d_currency_id d)"
    and cur: "get_currency (d_currency_id d) w = Some cur"
    and run: "release_to (d_buyer_id d) (d_seller_id d) (c_id cur)
                (quantize_money (d_amount d) (c_decimals cur))
                (quantize_money (d_amount d) (c_decimals cur)) w = Inr ((), w1)"
  shows "balances_ok w1 \<and> (\<forall>u c. held w1 u c = held w u c - deal_hold d u c)
           \<and> t_deals w1 = t_deals w \<and> t_withdrawals w1 = t_withdrawals w
           \<and> t_deposits w1 = t_deposits w \<and> t_currencies w1 = t_currencies w
           \<and> seq_deals w1 = seq_deals w \<and> seq_deposits w1 = seq_deposits w
           \<and> seq_withdrawals w1 = seq_withdrawals w"
proof -
  have run': "release_to (d_buyer_id d) (d_seller_id d) (d_currency_id d) (d_amount d)
      (d_amount d) w = Inr ((), w1)"
    using run quantize_deal_amount [OF assms(2) cur] get_currency_id [OF cur] by simp
  have x: "0 \<le> d_amount d" "storable (d_amount d)" using assms(2) by (auto simp: deal_ok_def)
  note r = release_to_refines [OF assms(1) x(2) x run']
  have "d_amount d \<le> held w (d_buyer_id d) (d_currency_id d)"
    using le assms(3) by (simp add: deal_hold_def)
  from held_pay [OF this r(1)] have
    "held w1 u c = held w u c - deal_hold d u c" for u c
    using assms(3) by (auto simp: deal_hold_def)
  with r(2) release_to_frame [OF run'] show ?thesis by simp
qed

lemma get_currency_by_code_found:
  "get_currency_by_code code w = Inr cur \<Longrightarrow> currencies_ok w \<Longrightarrow>
     get_currency (c_id cur) w = Some cur \<and> c_decimals cur \<le> MONEY_SCALE \<and> c_is_active cur"
  by (auto simp: get_currency_by_code_def get_currency_def currencies_ok_def list_all_iff
      split: option.splits dest!: find_Some_set intro: tget_in_set)

lemma deal_ok_row: "deal_ok w d \<Longrightarrow> deal_ok w (deal_row d)"
  by (auto simp: deal_ok_def split: option.splits)

lemma same_deal_refl [simp]: "same_deal d d"
  by (simp add: same_deal_def)

lemma deal_ok_same: "same_deal d d' \<Longrightarrow> deal_ok w d \<Longrightarrow> deal_ok w d'"
  by (auto simp: same_deal_def deal_ok_def split: option.splits)

lemma held_credit_at: "accounts w' = a_credit u c x (accounts w) \<Longrightarrow> held w' u' c' = held w u' c'"
  by (simp add: a_credit_def a_upd_def split: prod.splits)

lemma books_quiet:
  assumes ok: "books_ok w" and bal: "balances_ok w'" and dep: "deposits_ok w'"
    and held: "\<And>u c. held w' u c = held w u c" and deals: "t_deals w' = t_deals w" "seq_deals w' = seq_deals w"
    and cur: "t_currencies w' = t_currencies w"
    and wd: "t_withdrawals w' = t_withdrawals w" "seq_withdrawals w' = seq_withdrawals w"
  shows "books_ok w'"
proof -
  have oks: "deals_ok w" "withdrawals_ok w" using ok by (auto simp: books_ok_def)
  note ds = deals_same [OF oks(1) deals cur] and ws = withdrawals_same [OF oks(2) wd]
  show ?thesis by (rule books_ok_step [OF ok bal ds(1) ws(1) dep cur]) (simp add: ds(2) ws(2) held)
qed

lemma books_new_deal:
  assumes ok: "books_ok w" and bal: "balances_ok w'" and d: "deal_ok w d" "d_id d = seq_deals w"
    and rows: "t_deals w' = t_deals w @ [deal_row d]" and seq: "seq_deals w' = seq_deals w + 1"
    and cur: "t_currencies w' = t_currencies w"
    and wd: "t_withdrawals w' = t_withdrawals w" "seq_withdrawals w' = seq_withdrawals w"
    and dep: "deposits_ok w'"
    and held: "\<And>u c. held w' u c = held w u c + deal_hold d u c"
  shows "books_ok w'"
proof -
  have oks: "deals_ok w" "withdrawals_ok w" using ok by (auto simp: books_ok_def)
  have id: "d_id (deal_row d) = seq_deals w" using d(2) by simp
  have st: "deal_hold (deal_row d) = deal_hold d" using d(1) by (simp add: deal_ok_def)
  note di = deals_insert [OF oks(1) rows id seq cur deal_ok_row [OF d(1)]]
    and ws = withdrawals_same [OF oks(2) wd]
  show ?thesis
    by (rule books_ok_step [OF ok bal di(1) ws(1) dep cur]) (simp add: di(2) ws(2) held st)
qed

text \<open>Two databases with the same money tables have the same books.\<close>

definition same_books :: "world \<Rightarrow> world \<Rightarrow> bool" where
  "same_books w' w \<longleftrightarrow> t_balances w' = t_balances w \<and> t_deals w' = t_deals w
     \<and> t_withdrawals w' = t_withdrawals w \<and> t_deposits w' = t_deposits w
     \<and> t_currencies w' = t_currencies w \<and> t_ledger w' = t_ledger w \<and> seq_deals w' = seq_deals w
     \<and> seq_deposits w' = seq_deposits w \<and> seq_withdrawals w' = seq_withdrawals w"

lemma same_booksD:
  assumes "same_books w' w"
  shows "accounts w' = accounts w" and "total c w' = total c w" and "audited w w'"
    and "books_ok w' = books_ok w"
  using assms
  by (auto simp: same_books_def accounts_def get_balance_def total_def audited_def explains_def
      books_ok_def balances_ok_def deals_ok_def deal_ok_def get_currency_def withdrawals_ok_def
      deposits_ok_def
      escrow_def reserved_def books_balance_def currencies_ok_def intro!: exI [of _ "[]"])

lemma same_books_refl [simp]: "same_books w w"
  by (simp add: same_books_def)

lemma same_books_trans: "same_books w2 w1 \<Longrightarrow> same_books w1 w \<Longrightarrow> same_books w2 w"
  by (simp add: same_books_def)

text \<open>\<open>moved d w w1\<close>: the principal of \<open>d\<close> went back to the buyer or to the seller.
  \<open>closed_by d' w1 w'\<close>: what follows writes the row of \<open>d'\<close> and no other money table.\<close>

definition moved :: "deal \<Rightarrow> world \<Rightarrow> world \<Rightarrow> bool" where
  "moved d w w1 \<longleftrightarrow> (\<exists>cur. get_currency (d_currency_id d) w = Some cur \<and>
     ((\<exists>b. refund_principal (d_buyer_id d) (c_id cur)
             (quantize_money (d_amount d) (c_decimals cur)) w = Inr (b, w1)) \<or>
      release_to (d_buyer_id d) (d_seller_id d) (c_id cur)
        (quantize_money (d_amount d) (c_decimals cur))
        (quantize_money (d_amount d) (c_decimals cur)) w = Inr ((), w1)))"

definition closed_by :: "deal \<Rightarrow> world \<Rightarrow> world \<Rightarrow> bool" where
  "closed_by d' w1 w' \<longleftrightarrow> t_deals w' = tput d_id (deal_row d') (t_deals w1)
     \<and> t_balances w' = t_balances w1 \<and> t_withdrawals w' = t_withdrawals w1
     \<and> t_deposits w' = t_deposits w1 \<and> t_currencies w' = t_currencies w1
     \<and> seq_deals w' = seq_deals w1 \<and> seq_deposits w' = seq_deposits w1
     \<and> seq_withdrawals w' = seq_withdrawals w1 \<and> t_ledger w' = t_ledger w1"

lemma moved_frame:
  "moved d w w1 \<Longrightarrow> t_deals w1 = t_deals w \<and> t_withdrawals w1 = t_withdrawals w
     \<and> t_deposits w1 = t_deposits w \<and> t_currencies w1 = t_currencies w
     \<and> seq_deals w1 = seq_deals w \<and> seq_deposits w1 = seq_deposits w
     \<and> seq_withdrawals w1 = seq_withdrawals w"
  unfolding moved_def by (auto dest: refund_principal_frame release_to_frame)

lemma moved_books:
  assumes "moved d w w1" and "balances_ok w" and "deal_ok w d" and "holds_escrow (d_status d)"
    and "deal_hold d (d_buyer_id d) (d_currency_id d) \<le> held w (d_buyer_id d) (d_currency_id d)"
  shows "balances_ok w1 \<and> (\<forall>u c. held w1 u c = held w u c - deal_hold d u c)"
  using assms(1) refund_deal [OF assms(2-5)] release_deal [OF assms(2-5)]
  unfolding moved_def by blast

text \<open>The two shapes of \<open>moved\<close>, at the amount and the currency of the deal.\<close>

lemma moved_cases:
  assumes "moved d w w1" and "deal_ok w d"
  shows "escrow_unhold (d_buyer_id d) (d_currency_id d) (d_amount d) w = Inr w1 \<or>
         escrow_pay (d_buyer_id d) (d_seller_id d) (d_currency_id d) (d_amount d) w = Inr w1"
  using assms(1) quantize_deal_amount [OF assms(2)] get_currency_id
  unfolding moved_def escrow_unhold_def escrow_pay_def escrow_Inr by fastforce

lemma moved_audited:
  assumes "moved d w w1" and "balances_ok w" and "deal_ok w d"
  shows "audited w w1"
  using moved_cases [OF assms(1,3)] assms(2,3)
  by (auto simp: escrow_unhold_def escrow_pay_def escrow_Inr deal_ok_def
      intro: refund_principal_audited release_to_audited less_imp_le)

lemma moved_total:
  assumes "moved d w w1" and "balances_ok w" and "deal_ok w d"
    and "d_amount d \<le> held w (d_buyer_id d) (d_currency_id d)"
  shows "total c w1 = total c w"
  using moved_cases [OF assms(1,3)] assms(2-4)
  by (auto simp: deal_ok_def intro: wallet_escrow.unhold_total wallet_escrow.pay_total
      less_imp_le)

locale settling_op =
  fixes op :: "deal \<Rightarrow> world \<Rightarrow> deal result"
    and sources :: "DealStatus list"
    and targets :: "DealStatus list"
  assumes settle_clean: "op d w = (Inl e, w') \<Longrightarrow> w' = w"
    and settles: "op d w = (Inr d', w') \<Longrightarrow>
      \<exists>w1. moved d w w1 \<and> closed_by d' w1 w' \<and> same_deal d d'
        \<and> d_status d \<in> set sources \<and> d_status d' \<in> set targets"
    and sources_hold: "st \<in> set sources \<Longrightarrow> holds_escrow st"
    and targets_free: "st \<in> set targets \<Longrightarrow> \<not> holds_escrow st"

sublocale settling_op \<subseteq> deal_op
proof
  fix d w e w' assume "op d w = (Inl e, w')" then show "w' = w" by (rule settle_clean)
next
  fix d w d' w' assume run: "op d w = (Inr d', w')"
  from settles [OF run] obtain w1 where m: "moved d w w1" and c: "closed_by d' w1 w'"
    and s: "same_deal d d'" "d_status d \<in> set sources" "d_status d' \<in> set targets" by blast
  note f = moved_frame [OF m]
  show "d_status d \<in> set sources" "d_status d' \<in> set targets" "same_deal d d'" using s by auto
  show "t_deals w' = tput d_id (deal_row d') (t_deals w)" using c f by (simp add: closed_by_def)
  show "t_withdrawals w' = t_withdrawals w \<and> t_deposits w' = t_deposits w
      \<and> t_currencies w' = t_currencies w \<and> seq_deals w' = seq_deals w
      \<and> seq_deposits w' = seq_deposits w \<and> seq_withdrawals w' = seq_withdrawals w"
    using c f by (simp add: closed_by_def)
  assume "balances_ok w" "deal_ok w d"
    "deal_hold d (d_buyer_id d) (d_currency_id d) \<le> held w (d_buyer_id d) (d_currency_id d)"
  from moved_books [OF m this(1,2) sources_hold [OF s(2)] this(3)]
  have "balances_ok w1" and "\<forall>u c. held w1 u c = held w u c - deal_hold d u c" by auto
  moreover have "t_balances w' = t_balances w1" using c by (simp add: closed_by_def)
  ultimately show "balances_ok w' \<and> (\<forall>u c. held w' u c = held w u c - deal_hold d u c + deal_hold d' u c)"
    using targets_free [OF s(3)] accounts_cong [of w' w1] balances_ok_cong [of w' w1] by simp
next
  fix d w d' w' c assume run: "op d w = (Inr d', w')" and ok: "balances_ok w" "deal_ok w d"
  from settles [OF run] obtain w1 where m: "moved d w w1" and c: "closed_by d' w1 w'"
    and src: "d_status d \<in> set sources" by blast
  show "audited w w'"
    using moved_audited [OF m ok] c by (auto simp: closed_by_def intro: audited_same)
  assume "deal_hold d (d_buyer_id d) (d_currency_id d) \<le> held w (d_buyer_id d) (d_currency_id d)"
  then have "d_amount d \<le> held w (d_buyer_id d) (d_currency_id d)"
    using sources_hold [OF src] by (simp add: deal_hold_def)
  from moved_total [OF m ok this] show "total c w' = total c w"
    using c by (simp add: closed_by_def total_def)
qed

section \<open>Reading balanced books\<close>

lemma get_deal_facts:
  assumes "books_ok w" and "get_deal (d_id d) w = Some d"
  shows "balances_ok w" "deal_ok w d" "0 \<le> d_amount d" "storable (d_amount d)"
    "d_buyer_id d \<noteq> d_seller_id d"
  using assms get_deal_ok [of w "d_id d" d] by (auto simp: books_ok_def deal_ok_def)

lemma closed_accounts: "closed_by d' w1 w' \<Longrightarrow> accounts w' = accounts w1"
  by (simp add: closed_by_def accounts_def get_balance_def)

lemma get_deal_new:
  assumes "deals_ok w" and "t_deals w' = t_deals w @ [deal_row d]" and "d_id d = seq_deals w"
  shows "get_deal (d_id d) w' = Some (deal_row d)"
proof -
  have "tget d_id (seq_deals w) (t_deals w) = None"
    using assms(1) by (auto simp: tget_None_iff deals_ok_def list_all_iff)
  then show ?thesis using assms(2,3) by (simp add: get_deal_def tget_append)
qed

lemma lock_books:
  assumes "lock_user_balance u c w = Inr (b, w1)" and "books_ok w"
  shows "books_ok w1" and "accounts w1 = accounts w" and "audited w w1"
proof -
  have oks: "balances_ok w" "deposits_ok w" using assms(2) by (auto simp: books_ok_def)
  note l = lock_user_balance_ok [OF assms(1)] and f = lock_user_balance_frame [OF assms(1)]
  show acc: "accounts w1 = accounts w" by (rule l(4))
  show "audited w w1" using acc f by (auto simp: audited_def explains_def intro!: exI [of _ "[]"])
  have "deposits_ok w1" using deposits_same [OF oks(2)] f by simp
  then show "books_ok w1"
    by (rule books_quiet [OF assms(2) lock_user_balance_balances_ok(1) [OF assms(1) oks(1)]])
      (simp_all add: acc f)
qed

section \<open>The sample database is balanced\<close>

lemma sample_deals_ok: "deals_ok sample_world"
  by (simp add: deals_ok_def tkeys_def deal_ok_def get_currency_def sample_rows)

lemma sample_withdrawals_ok: "withdrawals_ok sample_world"
  by (simp add: withdrawals_ok_def tkeys_def sample_rows)

lemma sample_currencies_ok: "currencies_ok sample_world"
  by (simp add: currencies_ok_def tkeys_def sample_rows MONEY_SCALE_def)

lemma sample_deposits_ok: "deposits_ok sample_world"
  by (simp add: deposits_ok_def tkeys_def sample_rows)

lemma sample_escrow: "escrow sample_world u c = (if u = 1 \<and> c = 7 then 70 else 0)"
  by (auto simp: escrow_def sample_rows deal_hold_def)

lemma sample_reserved: "reserved sample_world u c = (if u = 1 \<and> c = 7 then 11 else 0)"
  by (auto simp: reserved_def sample_rows withdrawal_hold_def withdrawal_open_def)

lemma sample_books_ok [simp]: "books_ok sample_world"
  by (simp add: books_ok_def sample_deals_ok sample_withdrawals_ok sample_deposits_ok
      sample_currencies_ok
      books_balance_def sample_escrow sample_reserved)

lemma sample_usdt: "get_currency_by_code ''USDT'' sample_world = Inr usdt"
  by (simp add: get_currency_by_code_def sample_rows usdt_def to_upper_def)

lemma sample_settings_row: "settings_row sample_world = (default_app_settings, sample_world)"
  by (simp add: settings_row_def sample_rows sample_settings_def)

lemma sample_lock: "lock_user_balance 1 7 sample_world =
    Inr (\<lparr> b_user_id = 1, b_currency_id = 7, b_amount = 100, b_locked = 81 \<rparr>, sample_world)"
  by (simp add: lock_user_balance_def get_balance_def sample_rows bkey_def)

lemma sample_strings: "show_int 77 = ''77''" "strip ''123:ABC'' = ''123:ABC''"
  by code_simp+

end
