(* ===== verification/Deals.thy ===== *)
theory Deals
  imports Books
begin

text \<open>
  \<open>backend/app/services_deals.py\<close>, the lifecycle of a deal, and its endpoints in
  \<open>backend/app/routers/deals.py\<close>. An operation gets the row \<open>_get_locked\<close> returned; it
  commits once, and only then hands the notifications over. The locale \<open>deal_op\<close> is what
  every operation on an existing deal promises; each operation is an interpretation of it.
\<close>

section \<open>Shared pieces\<close>

definition deal_payload :: "int \<Rightarrow> payload option" where
  "deal_payload i = Some [(''deal_id'', JInt i)]"

definition mention_of :: "user \<Rightarrow> mention" where
  "mention_of u = (case u_username u of
      Some n \<Rightarrow> if n = [] then AtTgId (u_tg_user_id u) else AtUsername n
    | None \<Rightarrow> AtTgId (u_tg_user_id u))"

text \<open>What follows the commit: \<open>_safe_dispatch\<close> and \<open>notifier.publish_deal_update\<close>.\<close>

definition after_commit ::
  "deal \<Rightarrow> int list \<Rightarrow> (notification \<times> payload option) list \<Rightarrow> world \<Rightarrow> world" where
  "after_commit d recipients pending w =
     publish_deal_update (d_id d) recipients (Some (d_status d)) (safe_dispatch pending w)"

abbreviation parties :: "deal \<Rightarrow> int list" where
  "parties d \<equiv> [d_buyer_id d, d_seller_id d]"

text \<open>The deal's currency, for the operations that raise when it is gone.\<close>

definition deal_currency :: "deal \<Rightarrow> world \<Rightarrow> py_error + currency" where
  "deal_currency d w =
     (case get_currency (d_currency_id d) w of
        None \<Rightarrow> Inl (ValueErr E_currency_vanished) | Some c \<Rightarrow> Inr c)"

definition new_deal ::
  "int \<Rightarrow> int \<Rightarrow> int \<Rightarrow> decimal \<Rightarrow> decimal \<Rightarrow> int \<Rightarrow> string \<Rightarrow> DealStatus
     \<Rightarrow> string \<Rightarrow> bool \<Rightarrow> deal" where
  "new_deal now buyer seller amt commission currency_id description st provider paid =
     \<lparr> d_id = 0, d_buyer_id = buyer, d_seller_id = seller, d_description = description,
       d_status = st, d_confirm_buyer = False, d_confirm_seller = False, d_created_at = now,
       d_completed_at = None, d_currency_id = currency_id, d_amount = amt,
       d_commission_amount = Some commission, d_in_progress_at = None,
       d_cancellation_initiator_id = None, d_cancellation_reason = None,
       d_cancellation_requested_at = None, d_arbitration_initiator_id = None,
       d_arbitration_reason = None, d_arbitration_resolved_by = None,
       d_arbitration_resolution = None, d_arbitration_resolved_at = None,
       d_payment_provider = provider, d_topup_deposit_id = None, d_commission_paid = paid \<rparr>"

section \<open>Create\<close>

definition create_deal ::
  "int \<Rightarrow> user \<Rightarrow> user \<Rightarrow> string \<Rightarrow> pydecimal \<Rightarrow> string \<Rightarrow> string
     \<Rightarrow> world \<Rightarrow> deal result" where
  "create_deal now buyer seller currency_code amount description payment_provider w =
     (if u_id buyer = u_id seller then (Inl (ValueErr E_self_deal), w)
      else case get_currency_by_code currency_code w of Inl e \<Rightarrow> (Inl e, w) | Inr currency \<Rightarrow>
      case settings_row w of (settings, w0) \<Rightarrow>
      case amount of
        Finite raw \<Rightarrow>
          if raw \<le> 0 then (Inl (ValueErr E_amount_not_positive), w0)
          else let amt = quantize_money raw (c_decimals currency) in
          if amt \<le> 0 then (Inl (ValueErr E_amount_not_positive), w0)
          else let rate = resolve_commission_rate settings buyer seller;
                   commission = commission_of amt rate (c_decimals currency) in
          (case debit (u_id buyer) (c_id currency) amt w0 of
             Inl e \<Rightarrow> (Inl e, w0)
           | Inr (_, w1) \<Rightarrow>
               case insert_deal (new_deal now (u_id buyer) (u_id seller) amt commission
                      (c_id currency) description pending_confirmation payment_provider True) w1
               of (d, w2) \<Rightarrow>
               case notifier_insert now (u_id seller) NT_deals
                      (N_new_deal (mention_of buyer) (d_id d) amt (c_code currency))
                      (deal_payload (d_id d)) w2
               of (n, w3) \<Rightarrow> (Inr d, after_commit d (parties d) [n] w3))
      | _ \<Rightarrow> (Inl (ValueErr E_amount_not_positive), w0))"

section \<open>Confirmation and completion\<close>

definition accept_deal :: "int \<Rightarrow> deal \<Rightarrow> user \<Rightarrow> world \<Rightarrow> deal result" where
  "accept_deal now deal u w =
     (if u_id u \<noteq> d_seller_id deal then (Inl (ValueErr E_accept_seller_only), w)
      else if d_status deal \<noteq> pending_confirmation then (Inl (ValueErr E_bad_status), w)
      else let d = deal \<lparr> d_status := in_progress, d_in_progress_at := Some now,
                         d_confirm_buyer := True, d_confirm_seller := True \<rparr>;
               w1 = bump_users (parties d) (\<lambda>x. x \<lparr> u_deals_total := u_deals_total x + 1 \<rparr>)
                      (save_deal d w)
           in case notifier_insert now (d_buyer_id d) NT_deals (N_deal_accepted (d_id d))
                     (deal_payload (d_id d)) w1
              of (n, w2) \<Rightarrow> (Inr d, after_commit d (parties d) [n] w2))"

definition decline_deal :: "int \<Rightarrow> deal \<Rightarrow> user \<Rightarrow> world \<Rightarrow> deal result" where
  "decline_deal now deal u w =
     (if u_id u \<noteq> d_seller_id deal then (Inl (ValueErr E_decline_seller_only), w)
      else if d_status deal \<noteq> pending_confirmation then (Inl (ValueErr E_bad_status), w)
      else case deal_currency deal w of Inl e \<Rightarrow> (Inl e, w) | Inr currency \<Rightarrow>
      let amt = quantize_money (d_amount deal) (c_decimals currency) in
      case refund_principal (d_buyer_id deal) (c_id currency) amt w of
        Inl e \<Rightarrow> (Inl e, w)
      | Inr (_, w1) \<Rightarrow>
          let d = deal \<lparr> d_status := cancelled, d_completed_at := Some now \<rparr>;
              w2 = save_deal d w1
          in case notifier_insert now (d_buyer_id d) NT_deals
                    (N_deal_declined (d_id d) (d_commission_paid d)) (deal_payload (d_id d)) w2
             of (n, w3) \<Rightarrow> (Inr d, after_commit d (parties d) [n] w3))"

definition finish_deal :: "int \<Rightarrow> deal \<Rightarrow> user \<Rightarrow> world \<Rightarrow> deal result" where
  "finish_deal now deal u w =
     (if u_id u \<noteq> d_buyer_id deal then (Inl (ValueErr E_finish_buyer_only), w)
      else if d_status deal \<noteq> in_progress then (Inl (ValueErr E_bad_status), w)
      else case deal_currency deal w of Inl e \<Rightarrow> (Inl e, w) | Inr currency \<Rightarrow>
      let amt = quantize_money (d_amount deal) (c_decimals currency) in
      case release_to (d_buyer_id deal) (d_seller_id deal) (c_id currency) amt amt w of
        Inl e \<Rightarrow> (Inl e, w)
      | Inr (_, w1) \<Rightarrow>
          let d = deal \<lparr> d_status := completed, d_completed_at := Some now \<rparr>;
              w2 = bump_users (parties d) (\<lambda>x. x \<lparr> u_deals_success := u_deals_success x + 1 \<rparr>)
                     (save_deal d w1)
          in case notifier_insert now (d_seller_id d) NT_deals
                    (N_deal_completed amt (c_code currency) (d_id d)) (deal_payload (d_id d)) w2
             of (n, w3) \<Rightarrow> (Inr d, after_commit d (parties d) [n] w3))"

section \<open>Cancellation by agreement\<close>

definition other_party :: "deal \<Rightarrow> user \<Rightarrow> int" where
  "other_party d u = (if u_id u = d_buyer_id d then d_seller_id d else d_buyer_id d)"

definition request_cancel :: "int \<Rightarrow> string \<Rightarrow> deal \<Rightarrow> user \<Rightarrow> world \<Rightarrow> deal result" where
  "request_cancel now reason deal u w =
     (if u_id u \<notin> set (parties deal) then (Inl (ValueErr E_not_participant), w)
      else if d_status deal \<noteq> in_progress then (Inl (ValueErr E_cancel_only_in_progress), w)
      else let d = deal \<lparr> d_status := pending_cancellation,
                         d_cancellation_initiator_id := Some (u_id u),
                         d_cancellation_reason := Some reason,
                         d_cancellation_requested_at := Some now \<rparr>;
               w1 = save_deal d w
           in case notifier_insert now (other_party d u) NT_deals (N_cancel_requested (d_id d) reason)
                     (deal_payload (d_id d)) w1
              of (n, w2) \<Rightarrow> (Inr d, after_commit d (parties d) [n] w2))"

definition revoke_cancel :: "int \<Rightarrow> deal \<Rightarrow> user \<Rightarrow> world \<Rightarrow> deal result" where
  "revoke_cancel now deal u w =
     (if d_status deal \<noteq> pending_cancellation then (Inl (ValueErr E_no_cancel_request), w)
      else if Some (u_id u) \<noteq> d_cancellation_initiator_id deal
      then (Inl (ValueErr E_revoke_initiator_only), w)
      else let d = deal \<lparr> d_status := in_progress, d_cancellation_initiator_id := None,
                         d_cancellation_reason := None, d_cancellation_requested_at := None \<rparr>;
               w1 = save_deal d w
           in case notifier_insert now (other_party d u) NT_deals (N_cancel_revoked (d_id d))
                     (deal_payload (d_id d)) w1
              of (n, w2) \<Rightarrow> (Inr d, after_commit d (parties d) [n] w2))"

definition accept_cancel :: "int \<Rightarrow> deal \<Rightarrow> user \<Rightarrow> world \<Rightarrow> deal result" where
  "accept_cancel now deal u w =
     (if d_status deal \<noteq> pending_cancellation then (Inl (ValueErr E_no_cancel_request), w)
      else if u_id u \<notin> set (parties deal) then (Inl (ValueErr E_not_participant), w)
      else if Some (u_id u) = d_cancellation_initiator_id deal
      then (Inl (ValueErr E_initiator_cannot_accept), w)
      else case deal_currency deal w of Inl e \<Rightarrow> (Inl e, w) | Inr currency \<Rightarrow>
      let amt = quantize_money (d_amount deal) (c_decimals currency) in
      case refund_principal (d_buyer_id deal) (c_id currency) amt w of
        Inl e \<Rightarrow> (Inl e, w)
      | Inr (_, w1) \<Rightarrow>
          let d = deal \<lparr> d_status := cancelled, d_completed_at := Some now \<rparr>;
              w2 = save_deal d w1
          in case notify_each now (uniq (parties d)) NT_deals
                    (N_cancel_accepted (d_id d) (d_commission_paid d)) (deal_payload (d_id d)) w2
             of (ns, w3) \<Rightarrow> (Inr d, after_commit d (parties d) ns w3))"

section \<open>Arbitration\<close>

definition ARBITRATION_ELIGIBLE :: "DealStatus list" where
  "ARBITRATION_ELIGIBLE = [in_progress, pending_cancellation]"

definition start_arbitration :: "int \<Rightarrow> string \<Rightarrow> deal \<Rightarrow> user \<Rightarrow> world \<Rightarrow> deal result" where
  "start_arbitration now reason deal u w =
     (if u_id u \<notin> set (parties deal) then (Inl (ValueErr E_not_participant), w)
      else if d_status deal \<notin> set ARBITRATION_ELIGIBLE then (Inl (ValueErr E_bad_status), w)
      else if reason = [] \<or> strip reason = [] then (Inl (ValueErr E_no_arbitration_reason), w)
      else let d = deal \<lparr> d_status := arbitration, d_arbitration_initiator_id := Some (u_id u),
                         d_arbitration_reason := Some reason \<rparr>;
               w1 = bump_users (parties d) (\<lambda>x. x \<lparr> u_deals_arbitrage := u_deals_arbitrage x + 1 \<rparr>)
                      (save_deal d w);
               arbiters = filter u_is_arbiter (t_users w1);
               admins = filter u_is_admin (t_users w1);
               arbiter_ids = uniq (map u_id (arbiters @ admins))
           in case notify_each now arbiter_ids NT_deals (N_arbitration_opened (d_id d) reason)
                     (deal_payload (d_id d)) w1
              of (ns, w2) \<Rightarrow> (Inr d, after_commit d (parties d @ arbiter_ids) ns w2))"

text \<open>The UTF-8 bytes of the label the arbiter's note is appended under.\<close>

definition ARBITER_NOTE_LABEL :: string where
  "ARBITER_NOTE_LABEL =
     [CHR 0xE2, CHR 0x80, CHR 0x94, CHR 0x20, CHR 0xD0, CHR 0xA0, CHR 0xD0, CHR 0xB5, CHR
      0xD1, CHR 0x88, CHR 0xD0, CHR 0xB5, CHR 0xD0, CHR 0xBD, CHR 0xD0, CHR 0xB8, CHR 0xD0,
      CHR 0xB5, CHR 0x20, CHR 0xD0, CHR 0xB0, CHR 0xD1, CHR 0x80, CHR 0xD0, CHR 0xB1, CHR
      0xD0, CHR 0xB8, CHR 0xD1, CHR 0x82, CHR 0xD1, CHR 0x80, CHR 0xD0, CHR 0xB0, CHR 0x3A,
      CHR 0x20]"

definition with_arbiter_note :: "string option \<Rightarrow> string \<Rightarrow> string option" where
  "with_arbiter_note reason note =
     (if note = [] then reason
      else Some (strip ((case reason of None \<Rightarrow> [] | Some r \<Rightarrow> r)
                        @ [CHR 0x0A] @ ARBITER_NOTE_LABEL @ note)))"

definition resolve_arbitration ::
  "int \<Rightarrow> string \<Rightarrow> string \<Rightarrow> deal \<Rightarrow> user \<Rightarrow> world \<Rightarrow> deal result" where
  "resolve_arbitration now winner note deal admin w =
     (if \<not> (u_is_admin admin \<or> u_is_arbiter admin) then (Inl (ValueErr E_arbiter_only), w)
      else if d_status deal \<noteq> arbitration then (Inl (ValueErr E_not_in_arbitration), w)
      else if winner \<notin> {''buyer'', ''seller''} then (Inl (ValueErr E_bad_winner), w)
      else case deal_currency deal w of Inl e \<Rightarrow> (Inl e, w) | Inr currency \<Rightarrow>
      let amt = quantize_money (d_amount deal) (c_decimals currency);
          for_buyer = (winner = ''buyer'');
          moved = (if for_buyer
                   then map_sum id snd (refund_principal (d_buyer_id deal) (c_id currency) amt w)
                   else map_sum id snd (release_to (d_buyer_id deal) (d_seller_id deal)
                                          (c_id currency) amt amt w)) in
      case moved of
        Inl e \<Rightarrow> (Inl e, w)
      | Inr w1 \<Rightarrow>
          let d = deal \<lparr> d_status := (if for_buyer then resolved_for_buyer else resolved_for_seller),
                        d_arbitration_resolved_by := Some (u_id admin),
                        d_arbitration_resolution := Some winner,
                        d_arbitration_resolved_at := Some now,
                        d_completed_at := Some now,
                        d_arbitration_reason := with_arbiter_note (d_arbitration_reason deal) note \<rparr>;
              winner_id = (if for_buyer then d_buyer_id d else d_seller_id d);
              loser_id = (if for_buyer then d_seller_id d else d_buyer_id d);
              w2 = bump_users [loser_id] (\<lambda>x. x \<lparr> u_deals_failed := u_deals_failed x + 1 \<rparr>)
                     (save_deal d w1);
              w3 = bump_users [winner_id] (\<lambda>x. x \<lparr> u_deals_success := u_deals_success x + 1 \<rparr>) w2
          in case notifier_insert now winner_id NT_deals (N_arbitration_resolved (d_id d) True)
                    (deal_payload (d_id d)) w3 of (winner_n, w4) \<Rightarrow>
             case notifier_insert now loser_id NT_deals (N_arbitration_resolved (d_id d) False)
                    (deal_payload (d_id d)) w4 of (loser_n, w5) \<Rightarrow>
               (Inr d, after_commit d (parties d @ [u_id admin]) [winner_n, loser_n] w5))"

section \<open>Inactivity sweep\<close>

definition days :: "int \<Rightarrow> int" where "days n = n * 86400"

definition inactivity_stale :: "int \<Rightarrow> app_settings \<Rightarrow> deal \<Rightarrow> bool" where
  "inactivity_stale now settings d =
     (let pc_cutoff = now - days (s_inactivity_pending_confirmation_days settings);
          pcanc_cutoff = now - days (s_inactivity_pending_cancellation_days settings)
      in d_status d = pending_confirmation \<and> d_created_at d \<le> pc_cutoff \<or>
         d_status d = pending_cancellation \<and>
           (case d_cancellation_requested_at d of None \<Rightarrow> False | Some t \<Rightarrow> t \<le> pcanc_cutoff))"

text \<open>The loop body: refund, close, notify; the deal object as it stands afterwards.\<close>

definition sweep_inactivity_row ::
  "int \<Rightarrow> deal \<Rightarrow> world
     \<Rightarrow> py_error + (((notification \<times> payload option) list \<times> nat \<times> deal) \<times> world)" where
  "sweep_inactivity_row now deal w =
     (case get_currency (d_currency_id deal) w of
        None \<Rightarrow> Inr (([], 0, deal), w)
      | Some currency \<Rightarrow>
          let amt = quantize_money (d_amount deal) (c_decimals currency) in
          case refund_principal (d_buyer_id deal) (c_id currency) amt w of
            Inl e \<Rightarrow> Inl e
          | Inr (_, w1) \<Rightarrow>
              let d = deal \<lparr> d_status := (if d_status deal = pending_confirmation
                                          then cancelled_for_inactivity else cancelled),
                            d_completed_at := Some now \<rparr>
              in case notify_each now (parties d) NT_deals (N_inactivity_closed (d_id d))
                        (deal_payload (d_id d)) (save_deal d w1)
                 of (ns, w2) \<Rightarrow> Inr ((ns, 1, d), w2))"

fun sweep_inactivity_rows ::
  "int \<Rightarrow> deal list \<Rightarrow> world
     \<Rightarrow> py_error + (((notification \<times> payload option) list \<times> nat \<times> deal list) \<times> world)" where
  "sweep_inactivity_rows now [] w = Inr (([], 0, []), w)"
| "sweep_inactivity_rows now (d # ds) w =
     (case sweep_inactivity_row now d w of Inl e \<Rightarrow> Inl e | Inr ((ns, k, d'), w1) \<Rightarrow>
      case sweep_inactivity_rows now ds w1 of Inl e \<Rightarrow> Inl e | Inr ((ns', k', ds'), w2) \<Rightarrow>
        Inr ((ns @ ns', k + k', d' # ds'), w2))"

text \<open>\<open>skip_locked\<close> is the set of rows other transactions hold at the moment of the select.\<close>

definition sweep_inactivity :: "int \<Rightarrow> (int \<Rightarrow> bool) \<Rightarrow> world \<Rightarrow> nat result" where
  "sweep_inactivity now skip_locked w =
     (case settings_row w of (settings, w0) \<Rightarrow>
      let rows = filter (\<lambda>d. inactivity_stale now settings d \<and> \<not> skip_locked (d_id d)) (t_deals w0) in
      case sweep_inactivity_rows now rows w0 of
        Inl e \<Rightarrow> (Inl e, w0)
      | Inr ((pending, affected, rows'), w1) \<Rightarrow>
          (Inr affected,
           fold (\<lambda>d. publish_deal_update (d_id d) (parties d) (Some (d_status d))) rows'
             (safe_dispatch pending w1)))"

section \<open>Endpoints\<close>

definition get_locked :: "int \<Rightarrow> world \<Rightarrow> py_error + deal" where
  "get_locked deal_id w =
     (case get_deal deal_id w of None \<Rightarrow> Inl (HTTP 404 E_deal_not_found) | Some d \<Rightarrow> Inr d)"

definition participant_or_admin :: "deal \<Rightarrow> user \<Rightarrow> py_error + unit" where
  "participant_or_admin deal u =
     (if u_id u \<in> set (parties deal) then Inr ()
      else if u_is_admin u \<or> u_is_arbiter u then Inr ()
      else Inl (HTTP 403 E_forbidden))"

definition value_error_400 :: "py_error \<Rightarrow> py_error" where
  "value_error_400 e = (case value_error_detail e of None \<Rightarrow> e | Some d \<Rightarrow> HTTP 400 d)"

definition on_locked_deal :: "(deal \<Rightarrow> world \<Rightarrow> deal result) \<Rightarrow> int \<Rightarrow> world \<Rightarrow> deal result" where
  "on_locked_deal op deal_id w =
     (case get_locked deal_id w of
        Inl e \<Rightarrow> (Inl e, w)
      | Inr d \<Rightarrow> (case op d w of (r, w') \<Rightarrow> (map_sum value_error_400 id r, w')))"

definition accept_deal_endpoint :: "int \<Rightarrow> int \<Rightarrow> user \<Rightarrow> world \<Rightarrow> deal result" where
  "accept_deal_endpoint now deal_id u = on_locked_deal (\<lambda>d. accept_deal now d u) deal_id"

definition decline_deal_endpoint :: "int \<Rightarrow> int \<Rightarrow> user \<Rightarrow> world \<Rightarrow> deal result" where
  "decline_deal_endpoint now deal_id u = on_locked_deal (\<lambda>d. decline_deal now d u) deal_id"

definition finish_deal_endpoint :: "int \<Rightarrow> int \<Rightarrow> user \<Rightarrow> world \<Rightarrow> deal result" where
  "finish_deal_endpoint now deal_id u = on_locked_deal (\<lambda>d. finish_deal now d u) deal_id"

definition cancel_request_endpoint :: "int \<Rightarrow> int \<Rightarrow> string \<Rightarrow> user \<Rightarrow> world \<Rightarrow> deal result" where
  "cancel_request_endpoint now deal_id reason u =
     on_locked_deal (\<lambda>d. request_cancel now reason d u) deal_id"

definition cancel_revoke_endpoint :: "int \<Rightarrow> int \<Rightarrow> user \<Rightarrow> world \<Rightarrow> deal result" where
  "cancel_revoke_endpoint now deal_id u = on_locked_deal (\<lambda>d. revoke_cancel now d u) deal_id"

definition cancel_accept_endpoint :: "int \<Rightarrow> int \<Rightarrow> user \<Rightarrow> world \<Rightarrow> deal result" where
  "cancel_accept_endpoint now deal_id u = on_locked_deal (\<lambda>d. accept_cancel now d u) deal_id"

definition debate_endpoint :: "int \<Rightarrow> int \<Rightarrow> string \<Rightarrow> user \<Rightarrow> world \<Rightarrow> deal result" where
  "debate_endpoint now deal_id reason u =
     on_locked_deal (\<lambda>d. start_arbitration now reason d u) deal_id"

definition resolve_error :: "py_error \<Rightarrow> py_error" where
  "resolve_error e = (case value_error_detail e of
      None \<Rightarrow> e
    | Some d \<Rightarrow> if d = E_arbiter_only then HTTP 403 d else HTTP 400 d)"

definition resolve_endpoint ::
  "int \<Rightarrow> int \<Rightarrow> string \<Rightarrow> string \<Rightarrow> user \<Rightarrow> world \<Rightarrow> deal result" where
  "resolve_endpoint now deal_id winner note u w =
     (case get_locked deal_id w of
        Inl e \<Rightarrow> (Inl e, w)
      | Inr d \<Rightarrow> (case resolve_arbitration now winner note d u w of
                   (r, w') \<Rightarrow> (map_sum resolve_error id r, w')))"

section \<open>The operations keep the books\<close>

lemma after_commit_frame [simp, frame]:
  "t_users (after_commit d rs ps w) = t_users w"
  "t_currencies (after_commit d rs ps w) = t_currencies w"
  "t_balances (after_commit d rs ps w) = t_balances w"
  "t_deals (after_commit d rs ps w) = t_deals w"
  "t_deposits (after_commit d rs ps w) = t_deposits w"
  "t_withdrawals (after_commit d rs ps w) = t_withdrawals w"
  "t_ledger (after_commit d rs ps w) = t_ledger w"
  "t_app_settings (after_commit d rs ps w) = t_app_settings w"
  "t_approvals (after_commit d rs ps w) = t_approvals w"
  "t_audit (after_commit d rs ps w) = t_audit w"
  "t_notifications (after_commit d rs ps w) = t_notifications w"
  "seq_deals (after_commit d rs ps w) = seq_deals w"
  "seq_deposits (after_commit d rs ps w) = seq_deposits w"
  "seq_withdrawals (after_commit d rs ps w) = seq_withdrawals w"
  by (simp_all add: after_commit_def)

lemma save_deal_frame [simp, frame]:
  "t_users (save_deal d w) = t_users w"
  "t_currencies (save_deal d w) = t_currencies w"
  "t_balances (save_deal d w) = t_balances w"
  "t_deposits (save_deal d w) = t_deposits w"
  "t_withdrawals (save_deal d w) = t_withdrawals w"
  "t_ledger (save_deal d w) = t_ledger w"
  "t_app_settings (save_deal d w) = t_app_settings w"
  "t_approvals (save_deal d w) = t_approvals w"
  "t_audit (save_deal d w) = t_audit w"
  "t_notifications (save_deal d w) = t_notifications w"
  "seq_deals (save_deal d w) = seq_deals w"
  "seq_deposits (save_deal d w) = seq_deposits w"
  "seq_withdrawals (save_deal d w) = seq_withdrawals w"
  "t_deals (save_deal d w) = tput d_id (deal_row d) (t_deals w)"
  by (simp_all add: save_deal_def)

lemma bump_users_frame [simp, frame]:
  "t_currencies (bump_users is f w) = t_currencies w"
  "t_balances (bump_users is f w) = t_balances w"
  "t_deals (bump_users is f w) = t_deals w"
  "t_deposits (bump_users is f w) = t_deposits w"
  "t_withdrawals (bump_users is f w) = t_withdrawals w"
  "t_ledger (bump_users is f w) = t_ledger w"
  "t_app_settings (bump_users is f w) = t_app_settings w"
  "t_approvals (bump_users is f w) = t_approvals w"
  "t_audit (bump_users is f w) = t_audit w"
  "t_notifications (bump_users is f w) = t_notifications w"
  "seq_deals (bump_users is f w) = seq_deals w"
  "seq_deposits (bump_users is f w) = seq_deposits w"
  "seq_withdrawals (bump_users is f w) = seq_withdrawals w"
  by (simp_all add: bump_users_def)

lemmas same_money = accounts_def get_balance_def balances_ok_def total_def audited_def explains_def

interpretation accept: deal_op "\<lambda>d. accept_deal now d u" "[pending_confirmation]" "[in_progress]"
  for now u
  by unfold_locales
    (auto simp: accept_deal_def Let_def case_prod_beta same_deal_def same_money deal_hold_def
      split: if_splits)

interpretation request: deal_op "\<lambda>d. request_cancel now reason d u" "[in_progress]"
  "[pending_cancellation]" for now reason u
  by unfold_locales
    (auto simp: request_cancel_def Let_def case_prod_beta same_deal_def same_money deal_hold_def
      split: if_splits)

interpretation revoke: deal_op "\<lambda>d. revoke_cancel now d u" "[pending_cancellation]" "[in_progress]"
  for now u
  by unfold_locales
    (auto simp: revoke_cancel_def Let_def case_prod_beta same_deal_def same_money deal_hold_def
      split: if_splits)

interpretation debate: deal_op "\<lambda>d. start_arbitration now reason d u" ARBITRATION_ELIGIBLE
  "[arbitration]" for now reason u
  by unfold_locales
    (auto simp: start_arbitration_def ARBITRATION_ELIGIBLE_def Let_def case_prod_beta same_deal_def
      same_money deal_hold_def split: if_splits)

lemma decline_settles:
  "decline_deal now d u w = (Inr d', w') \<Longrightarrow>
     \<exists>w1. moved d w w1 \<and> closed_by d' w1 w' \<and> same_deal d d'
       \<and> d_status d = pending_confirmation \<and> d_status d' = cancelled"
  by (auto simp: decline_deal_def deal_currency_def moved_def closed_by_def same_deal_def Let_def
      case_prod_beta split: if_splits option.splits sum.splits)

lemma finish_settles:
  "finish_deal now d u w = (Inr d', w') \<Longrightarrow>
     \<exists>w1. moved d w w1 \<and> closed_by d' w1 w' \<and> same_deal d d'
       \<and> d_status d = in_progress \<and> d_status d' = completed"
  by (auto simp: finish_deal_def deal_currency_def moved_def closed_by_def same_deal_def Let_def
      case_prod_beta split: if_splits option.splits sum.splits)

lemma accept_cancel_settles:
  "accept_cancel now d u w = (Inr d', w') \<Longrightarrow>
     \<exists>w1. moved d w w1 \<and> closed_by d' w1 w' \<and> same_deal d d'
       \<and> d_status d = pending_cancellation \<and> d_status d' = cancelled"
  by (auto simp: accept_cancel_def deal_currency_def moved_def closed_by_def same_deal_def Let_def
      case_prod_beta split: if_splits option.splits sum.splits)

lemma resolve_settles:
  "resolve_arbitration now winner note d u w = (Inr d', w') \<Longrightarrow>
     \<exists>w1. moved d w w1 \<and> closed_by d' w1 w' \<and> same_deal d d' \<and> d_status d = arbitration
       \<and> d_status d' = (if winner = ''buyer'' then resolved_for_buyer else resolved_for_seller)"
  by (auto simp: resolve_arbitration_def deal_currency_def moved_def closed_by_def same_deal_def
      Let_def case_prod_beta escrow_Inr split: if_splits option.splits sum.splits)

interpretation decline: settling_op "\<lambda>d. decline_deal now d u" "[pending_confirmation]" "[cancelled]"
  for now u
  by unfold_locales
    ((drule decline_settles, force) |
      (auto simp: decline_deal_def Let_def case_prod_beta split: if_splits sum.splits)[1])+

interpretation finish: settling_op "\<lambda>d. finish_deal now d u" "[in_progress]" "[completed]" for now u
  by unfold_locales
    ((drule finish_settles, force) |
      (auto simp: finish_deal_def Let_def case_prod_beta split: if_splits sum.splits)[1])+

interpretation accept_cancel: settling_op "\<lambda>d. accept_cancel now d u" "[pending_cancellation]"
  "[cancelled]" for now u
  by unfold_locales
    ((drule accept_cancel_settles, force) |
      (auto simp: accept_cancel_def Let_def case_prod_beta split: if_splits sum.splits)[1])+

interpretation resolve: settling_op "\<lambda>d. resolve_arbitration now winner remark d u" "[arbitration]"
  "[resolved_for_buyer, resolved_for_seller]" for now winner remark u
  by unfold_locales
    ((drule resolve_settles, force) |
      (auto simp: resolve_arbitration_def Let_def case_prod_beta split: if_splits sum.splits)[1])+

section \<open>What each settlement does to the accounts\<close>

lemma finish_pays:
  assumes "finish_deal now d u w = (Inr d', w')" and "books_ok w" "get_deal (d_id d) w = Some d"
  shows "accounts w' = a_credit (d_seller_id d) (d_currency_id d) (d_amount d)
           (a_burn (d_buyer_id d) (d_currency_id d) (d_amount d) (accounts w))"
proof -
  note f = get_deal_facts [OF assms(2,3)]
  from assms(1) obtain w1 where "closed_by d' w1 w'"
    and "escrow_pay (d_buyer_id d) (d_seller_id d) (d_currency_id d) (d_amount d) w = Inr w1"
    using quantize_deal_amount [OF f(2)] get_currency_id
    by (fastforce simp: finish_deal_def deal_currency_def closed_by_def Let_def escrow_pay_def
        case_prod_beta split: if_splits option.splits sum.splits)
  then show ?thesis
    using wallet_escrow.pay_spec [OF f(1,3,4)] closed_accounts by simp
qed

lemma decline_refunds:
  assumes "decline_deal now d u w = (Inr d', w')" and "books_ok w" "get_deal (d_id d) w = Some d"
  shows "accounts w' = a_unlock (d_buyer_id d) (d_currency_id d) (d_amount d) (accounts w)"
proof -
  note f = get_deal_facts [OF assms(2,3)]
  from assms(1) obtain w1 where "closed_by d' w1 w'"
    and "escrow_unhold (d_buyer_id d) (d_currency_id d) (d_amount d) w = Inr w1"
    using quantize_deal_amount [OF f(2)] get_currency_id
    by (fastforce simp: decline_deal_def deal_currency_def closed_by_def Let_def escrow_unhold_def
        case_prod_beta split: if_splits option.splits sum.splits)
  then show ?thesis
    using wallet_escrow.unhold_spec [OF f(1,3,4)] closed_accounts by simp
qed

lemma accept_cancel_refunds:
  assumes "accept_cancel now d u w = (Inr d', w')" and "books_ok w" "get_deal (d_id d) w = Some d"
  shows "accounts w' = a_unlock (d_buyer_id d) (d_currency_id d) (d_amount d) (accounts w)"
proof -
  note f = get_deal_facts [OF assms(2,3)]
  from assms(1) obtain w1 where "closed_by d' w1 w'"
    and "escrow_unhold (d_buyer_id d) (d_currency_id d) (d_amount d) w = Inr w1"
    using quantize_deal_amount [OF f(2)] get_currency_id
    by (fastforce simp: accept_cancel_def deal_currency_def closed_by_def Let_def escrow_unhold_def
        case_prod_beta split: if_splits option.splits sum.splits)
  then show ?thesis
    using wallet_escrow.unhold_spec [OF f(1,3,4)] closed_accounts by simp
qed

lemma resolve_moves:
  assumes "resolve_arbitration now winner remark d u w = (Inr d', w')" and "balances_ok w" "deal_ok w d"
  shows "accounts w' = (if winner = ''buyer''
           then a_unlock (d_buyer_id d) (d_currency_id d) (d_amount d) (accounts w)
           else a_credit (d_seller_id d) (d_currency_id d) (d_amount d)
             (a_burn (d_buyer_id d) (d_currency_id d) (d_amount d) (accounts w)))"
proof -
  have x: "0 \<le> d_amount d" "storable (d_amount d)" using assms(3) by (simp_all add: deal_ok_def)
  from assms(1) obtain w1 where "closed_by d' w1 w'"
    and "if winner = ''buyer'' then escrow_unhold (d_buyer_id d) (d_currency_id d) (d_amount d) w = Inr w1
         else escrow_pay (d_buyer_id d) (d_seller_id d) (d_currency_id d) (d_amount d) w = Inr w1"
    using quantize_deal_amount [OF assms(3)] get_currency_id
    by (fastforce simp: resolve_arbitration_def deal_currency_def closed_by_def Let_def escrow_unhold_def escrow_pay_def
        case_prod_beta split: if_splits option.splits sum.splits)
  then show ?thesis
    using wallet_escrow.unhold_spec [OF assms(2) x] wallet_escrow.pay_spec [OF assms(2) x] closed_accounts
    by (simp split: if_splits)
qed

lemma resolve_pays:
  assumes "resolve_arbitration now winner remark d u w = (Inr d', w')" and "books_ok w" "get_deal (d_id d) w = Some d"
  shows "accounts w' = (if winner = ''buyer''
           then a_unlock (d_buyer_id d) (d_currency_id d) (d_amount d) (accounts w)
           else a_credit (d_seller_id d) (d_currency_id d) (d_amount d)
             (a_burn (d_buyer_id d) (d_currency_id d) (d_amount d) (accounts w)))"
  using resolve_moves [OF assms(1) get_deal_facts(1,2) [OF assms(2,3)]] .

lemma finish_succeeds:
  assumes "u_id u = d_buyer_id d" and "d_status d = in_progress"
    and "get_currency (d_currency_id d) w = Some cur"
  shows "\<exists>d' w'. finish_deal now d u w = (Inr d', w')"
  using assms release_to_total [of "d_buyer_id d" "d_seller_id d" "c_id cur"
      "quantize_money (d_amount d) (c_decimals cur)" "quantize_money (d_amount d) (c_decimals cur)" w]
  by (auto simp: finish_deal_def deal_currency_def Let_def case_prod_beta)

lemma decline_succeeds:
  assumes "u_id u = d_seller_id d" and "d_status d = pending_confirmation"
    and "get_currency (d_currency_id d) w = Some cur"
  shows "\<exists>d' w'. decline_deal now d u w = (Inr d', w')"
  using assms refund_principal_total [of "d_buyer_id d" "c_id cur"
      "quantize_money (d_amount d) (c_decimals cur)" w]
  by (auto simp: decline_deal_def deal_currency_def Let_def case_prod_beta)

lemma accept_cancel_succeeds:
  assumes "u_id u \<in> set (parties d)" and "d_status d = pending_cancellation"
    and "d_cancellation_initiator_id d \<noteq> Some (u_id u)"
    and "get_currency (d_currency_id d) w = Some cur"
  shows "\<exists>d' w'. accept_cancel now d u w = (Inr d', w')"
  using assms refund_principal_total [of "d_buyer_id d" "c_id cur"
      "quantize_money (d_amount d) (c_decimals cur)" w]
  by (auto simp: accept_cancel_def deal_currency_def Let_def case_prod_beta)

lemma resolve_succeeds:
  assumes "u_is_admin u \<or> u_is_arbiter u" and "d_status d = arbitration"
    and "winner \<in> {''buyer'', ''seller''}"
    and "get_currency (d_currency_id d) w = Some cur"
  shows "\<exists>d' w'. resolve_arbitration now winner remark d u w = (Inr d', w')"
  using assms refund_principal_total [of "d_buyer_id d" "c_id cur"
      "quantize_money (d_amount d) (c_decimals cur)" w]
    release_to_total [of "d_buyer_id d" "d_seller_id d" "c_id cur"
      "quantize_money (d_amount d) (c_decimals cur)" "quantize_money (d_amount d) (c_decimals cur)" w]
  by (auto simp: resolve_arbitration_def deal_currency_def Let_def case_prod_beta)

section \<open>Creating a deal\<close>

lemma users_bump:
  assumes "\<And>x. u_id (f x) = u_id x"
  shows "tget u_id i (t_users (bump_users is f w))
    = map_option (\<lambda>x. if i \<in> set is then f x else x) (tget u_id i (t_users w))"
  using tget_tupd [of u_id f i "\<lambda>u. u_id u \<in> set is" "t_users w"] assms
  by (cases "tget u_id i (t_users w)") (auto simp: bump_users_def dest: tget_Some)

lemma new_deal_ok:
  assumes "get_currency_by_code code w = Inr cur" and "currencies_ok w" and "b \<noteq> s"
    and "0 < quantize_money raw (c_decimals cur)"
  shows "deal_ok w ((new_deal now b s (quantize_money raw (c_decimals cur)) com (c_id cur) desc st prov paid) \<lparr> d_id := i \<rparr>)"
  using assms get_currency_by_code_found [OF assms(1,2)]
  by (simp add: deal_ok_def new_deal_def storable_quantize)

lemma insert_deal_effect:
  assumes "insert_deal d w = (d', w')"
  shows "d' = d \<lparr> d_id := seq_deals w \<rparr>" and "t_deals w' = t_deals w @ [deal_row d']"
    and "seq_deals w' = seq_deals w + 1" and "t_balances w' = t_balances w"
    and "t_withdrawals w' = t_withdrawals w" and "t_currencies w' = t_currencies w"
    and "seq_withdrawals w' = seq_withdrawals w" and "t_ledger w' = t_ledger w"
    and "t_users w' = t_users w" and "t_deposits w' = t_deposits w" and "seq_deposits w' = seq_deposits w"
  using assms by (auto simp: insert_deal_def Let_def)

lemma deal_hold_new:
  "deal_hold (new_deal now b s amt com cid desc st prov paid \<lparr> d_id := i \<rparr>) u c =
     (if u = b \<and> c = cid \<and> holds_escrow st then amt else 0)"
  by (auto simp: deal_hold_def new_deal_def)

section \<open>The inactivity sweep\<close>

text \<open>One iteration of the sweep as an operation on a deal.\<close>

definition sweep_op :: "int \<Rightarrow> deal \<Rightarrow> world \<Rightarrow> deal result" where
  "sweep_op now d w =
     (if d_status d \<noteq> pending_confirmation \<and> d_status d \<noteq> pending_cancellation
      then (Inl (ValueErr E_bad_status), w)
      else case sweep_inactivity_row now d w of
        Inl e \<Rightarrow> (Inl e, w)
      | Inr ((ns, k, d'), w') \<Rightarrow> if k = 0 then (Inl (ValueErr E_currency_vanished), w) else (Inr d', w'))"

lemma sweep_settles:
  "sweep_op now d w = (Inr d', w') \<Longrightarrow>
     \<exists>w1. moved d w w1 \<and> closed_by d' w1 w' \<and> same_deal d d'
       \<and> d_status d \<in> {pending_confirmation, pending_cancellation}
       \<and> d_status d' \<in> {cancelled_for_inactivity, cancelled}"
  by (auto simp: sweep_op_def sweep_inactivity_row_def moved_def closed_by_def same_deal_def Let_def
      case_prod_beta split: if_splits option.splits sum.splits)

interpretation sweep: settling_op "sweep_op now" "[pending_confirmation, pending_cancellation]"
  "[cancelled_for_inactivity, cancelled]" for now
  by unfold_locales
    ((drule sweep_settles, force) |
      (auto simp: sweep_op_def Let_def case_prod_beta split: if_splits sum.splits)[1])+

lemma sweep_row_cases:
  "(get_currency (d_currency_id d) w = None \<and> sweep_inactivity_row now d w = Inr (([], 0, d), w)) \<or>
   (\<exists>ns d' w'. sweep_inactivity_row now d w = Inr ((ns, 1, d'), w'))"
proof (cases "get_currency (d_currency_id d) w")
  case (Some cur)
  obtain b w1 where "refund_principal (d_buyer_id d) (c_id cur)
      (quantize_money (d_amount d) (c_decimals cur)) w = Inr (b, w1)"
    using refund_principal_total by blast
  with Some show ?thesis by (simp add: sweep_inactivity_row_def Let_def case_prod_beta)
qed (simp add: sweep_inactivity_row_def)

text \<open>What becomes of a stale deal's row: closed, when its currency is known.\<close>

definition swept :: "deal \<Rightarrow> world \<Rightarrow> deal option \<Rightarrow> bool" where
  "swept d w r \<longleftrightarrow>
     (if get_currency (d_currency_id d) w = None then r = Some d
      else \<exists>d'. r = Some d' \<and> same_deal d d'
         \<and> d_status d' = (if d_status d = pending_confirmation then cancelled_for_inactivity
                         else cancelled))"

lemma swept_cong: "t_currencies w' = t_currencies w \<Longrightarrow> swept d w' r = swept d w r"
  by (simp add: swept_def get_currency_def)

text \<open>What the sweep owes to each account: the amounts of the buyer's deals that it closes.\<close>

definition refund_sum :: "deal list \<Rightarrow> world \<Rightarrow> int \<Rightarrow> int \<Rightarrow> decimal" where
  "refund_sum ds w u c = sum_list (map d_amount (filter (\<lambda>d. d_buyer_id d = u \<and> d_currency_id d = c
     \<and> get_currency (d_currency_id d) w \<noteq> None) ds))"

lemma refund_sum_cong: "t_currencies w' = t_currencies w \<Longrightarrow> refund_sum ds w' u c = refund_sum ds w u c"
  by (simp add: refund_sum_def get_currency_def)

lemma sweep_refunds:
  assumes "sweep_op now d w = (Inr d', w')" and "books_ok w" "get_deal (d_id d) w = Some d"
  shows "accounts w' u c = (free w u c + refund_sum [d] w u c, held w u c - refund_sum [d] w u c)"
proof -
  note f = get_deal_facts [OF assms(2,3)]
  from assms(1) obtain w1 where "closed_by d' w1 w'" and "get_currency (d_currency_id d) w \<noteq> None"
    and "escrow_unhold (d_buyer_id d) (d_currency_id d) (d_amount d) w = Inr w1" and st: "holds_escrow (d_status d)"
    using quantize_deal_amount [OF f(2)] get_currency_id
    by (fastforce simp: sweep_op_def sweep_inactivity_row_def closed_by_def Let_def escrow_unhold_def holds_escrow_def
        case_prod_beta split: if_splits option.splits sum.splits)
  moreover have "d_amount d \<le> held w (d_buyer_id d) (d_currency_id d)"
    using deal_hold_le_held [OF assms(2,3), of "d_buyer_id d" "d_currency_id d"] st by (simp add: deal_hold_def)
  ultimately show ?thesis
    using wallet_escrow.unhold_spec [OF f(1,3,4)] closed_accounts
    by (auto simp: refund_sum_def a_unlock_def a_upd_def split: prod.splits)
qed

lemma sweep_rows_effect:
  assumes "sweep_inactivity_rows now ds w = Inr ((ns, k, ds'), w')"
    and "books_ok w" and "distinct (map d_id ds)"
    and "\<And>d. d \<in> set ds \<Longrightarrow> get_deal (d_id d) w = Some d
           \<and> d_status d \<in> {pending_confirmation, pending_cancellation}"
  shows "books_ok w' \<and> total c w' = total c w \<and> audited w w' \<and> t_currencies w' = t_currencies w
    \<and> (\<forall>i. i \<notin> d_id ` set ds \<longrightarrow> get_deal i w' = get_deal i w)
    \<and> (\<forall>d \<in> set ds. swept d w (get_deal (d_id d) w'))
    \<and> (\<forall>u c. accounts w' u c = (free w u c + refund_sum ds w u c, held w u c - refund_sum ds w u c))"
  using assms
proof (induction ds arbitrary: w ns k ds')
  case Nil
  then show ?case by (simp add: refund_sum_def)
next
  case (Cons d ds)
  have get: "get_deal (d_id d) w = Some d" and st: "d_status d \<in> {pending_confirmation, pending_cancellation}"
    using Cons.prems(4) by auto
  have fresh: "d_id d \<notin> d_id ` set ds" using Cons.prems(3) by auto
  consider (gone) "get_currency (d_currency_id d) w = None" "sweep_inactivity_row now d w = Inr (([], 0, d), w)"
    | (closed) ns1 d' w1 where "sweep_inactivity_row now d w = Inr ((ns1, 1, d'), w1)"
    using sweep_row_cases [of d w now] by metis
  then show ?case
  proof cases
    case gone
    then obtain ns2 k2 ds2 where "sweep_inactivity_rows now ds w = Inr ((ns2, k2, ds2), w')"
      using Cons.prems(1) by (auto split: sum.splits prod.splits)
    from Cons.IH [OF this Cons.prems(2)] Cons.prems(3,4) gone(1) fresh get show ?thesis
      by (auto simp: swept_def refund_sum_def)
  next
    case closed
    then obtain ns2 k2 ds2 where rest: "sweep_inactivity_rows now ds w1 = Inr ((ns2, k2, ds2), w')"
      using Cons.prems(1) by (auto split: sum.splits prod.splits)
    have run: "sweep_op now d w = (Inr d', w1)"
      using st closed by (auto simp: sweep_op_def)
    note e = sweep.effects [OF Cons.prems(2) get run] and o = sweep.others [OF run]
      and same = sweep.identity [OF run]
    have "get_deal (d_id x) w1 = Some x" if "x \<in> set ds" for x
    proof -
      have "d_id x \<noteq> d_id d" using fresh that by (metis imageI)
      then show ?thesis using sweep.other_rows [OF run, of "d_id x"] that Cons.prems(4) [of x] by simp
    qed
    with Cons.prems(3,4) have
      IH: "books_ok w' \<and> total c w' = total c w1 \<and> audited w1 w' \<and> t_currencies w' = t_currencies w1
    \<and> (\<forall>i. i \<notin> d_id ` set ds \<longrightarrow> get_deal i w' = get_deal i w1)
    \<and> (\<forall>d \<in> set ds. swept d w1 (get_deal (d_id d) w'))
    \<and> (\<forall>u c. accounts w' u c = (free w1 u c + refund_sum ds w1 u c, held w1 u c - refund_sum ds w1 u c))"
      using e by (intro Cons.IH [OF rest]) auto
    have st': "d_status (deal_row d') = (if d_status d = pending_confirmation then cancelled_for_inactivity else cancelled)"
      and "get_currency (d_currency_id d) w \<noteq> None"
      using run st by (auto simp: sweep_op_def sweep_inactivity_row_def Let_def case_prod_beta
          split: if_splits option.splits sum.splits)
    moreover have row: "get_deal (d_id d) w' = Some (deal_row d')" using IH fresh e by simp
    moreover have sd: "same_deal d (deal_row d')"
      using same get_deal_facts [OF Cons.prems(2) get] by (simp add: same_deal_def)
    ultimately have "swept d w (get_deal (d_id d) w')" by (auto simp: swept_def)
    show ?thesis
    proof (intro conjI ballI allI impI)
      show "audited w w'" using e IH audited_trans by blast
      fix i assume "i \<notin> d_id ` set (d # ds)"
      then show "get_deal i w' = get_deal i w" using IH sweep.other_rows [OF run, of i] by simp
    next
      fix x assume "x \<in> set (d # ds)"
      then show "swept x w (get_deal (d_id x) w')"
        using IH \<open>swept d w (get_deal (d_id d) w')\<close> swept_cong [of w1 w x] o by auto
    next
      fix u c
      have "refund_sum ds w1 u c = refund_sum ds w u c" by (rule refund_sum_cong) (use o in simp)
      moreover have "refund_sum (d # ds) w u c = refund_sum [d] w u c + refund_sum ds w u c" by (auto simp: refund_sum_def)
      ultimately have "refund_sum (d # ds) w u c = refund_sum [d] w u c + refund_sum ds w1 u c" by simp
      then show "accounts w' u c = (free w u c + refund_sum (d # ds) w u c, held w u c - refund_sum (d # ds) w u c)"
        using IH sweep_refunds [OF run Cons.prems(2) get, of u c] by simp
    qed (use e IH o in simp_all)
  qed
qed

lemma sweep_rows_total: "\<exists>ns k ds' w'. sweep_inactivity_rows now ds w = Inr ((ns, k, ds'), w')"
proof (induction ds arbitrary: w)
  case (Cons d ds)
  obtain ns k d' w1 where "sweep_inactivity_row now d w = Inr ((ns, k, d'), w1)"
    using sweep_row_cases [of d w now] by blast
  moreover obtain ns' k' ds' w' where "sweep_inactivity_rows now ds w1 = Inr ((ns', k', ds'), w')"
    using Cons.IH by blast
  ultimately show ?case by simp
qed simp

lemma publish_fold_frame:
  "same_books (fold (\<lambda>d. publish_deal_update (d_id d) (parties d) (Some (d_status d))) ds w) w
   \<and> t_app_settings (fold (\<lambda>d. publish_deal_update (d_id d) (parties d) (Some (d_status d))) ds w) = t_app_settings w"
  by (induction ds arbitrary: w) (auto simp: same_books_def)

lemma settings_same_books: "same_books (snd (settings_row w)) w"
  by (simp add: same_books_def)

section \<open>Refusals\<close>

text \<open>A refusal: the database is as it was and the answer is a 4xx.\<close>

definition refusal :: "'a result \<Rightarrow> world \<Rightarrow> bool" where
  "refusal r w = (case r of (Inl e, w') \<Rightarrow> w' = w \<and> (\<exists>code x. e = HTTP code x \<and> code \<in> {400, 403, 404})
     | (Inr x, w') \<Rightarrow> True)"

lemma value_error_400_HTTP: "value_error_detail e \<noteq> None \<Longrightarrow> \<exists>x. value_error_400 e = HTTP 400 x"
  by (auto simp: value_error_400_def)

lemma resolve_error_HTTP:
  "value_error_detail e \<noteq> None \<Longrightarrow> \<exists>code x. resolve_error e = HTTP code x \<and> code \<in> {400, 403, 404}"
  by (auto simp: resolve_error_def)

lemma on_locked_deal_refusal:
  assumes "\<And>d e w'. op d w = (Inl e, w') \<Longrightarrow> w' = w"
    and "\<And>d e w'. op d w = (Inl e, w') \<Longrightarrow> value_error_detail e \<noteq> None"
  shows "refusal (on_locked_deal op i w) w"
proof (cases "get_deal i w")
  case (Some d)
  show ?thesis
  proof (cases rule: outcome_cases [of "op d w"])
    case (fails e w')
    with assms(1) [OF fails] value_error_400_HTTP [OF assms(2) [OF fails]] Some show ?thesis
      by (auto simp: on_locked_deal_def get_locked_def refusal_def)
  qed (use Some in \<open>simp add: on_locked_deal_def get_locked_def refusal_def\<close>)
qed (simp add: on_locked_deal_def get_locked_def refusal_def)

lemma no_refund_error [simp]: "refund_principal u c x w \<noteq> Inl e" "release_to p q c y z w \<noteq> Inl e"
  using refund_principal_total [of u c x w] release_to_total [of p q c y z w] by auto

lemma no_unhold_error [simp]:
  "map_sum id snd (refund_principal u c x w) \<noteq> Inl e"
  "map_sum id snd (release_to p q c y z w) \<noteq> Inl e"
  using no_refund_error by (metis map_sum.simps(2) old.sum.exhaust sum.distinct(1))+

lemma ops_raise_value_errors:
  "accept_deal now d u w = (Inl e, w') \<Longrightarrow> value_error_detail e \<noteq> None"
  "decline_deal now d u w = (Inl e, w') \<Longrightarrow> value_error_detail e \<noteq> None"
  "finish_deal now d u w = (Inl e, w') \<Longrightarrow> value_error_detail e \<noteq> None"
  "request_cancel now reason d u w = (Inl e, w') \<Longrightarrow> value_error_detail e \<noteq> None"
  "revoke_cancel now d u w = (Inl e, w') \<Longrightarrow> value_error_detail e \<noteq> None"
  "accept_cancel now d u w = (Inl e, w') \<Longrightarrow> value_error_detail e \<noteq> None"
  "start_arbitration now reason d u w = (Inl e, w') \<Longrightarrow> value_error_detail e \<noteq> None"
  by (auto simp: accept_deal_def decline_deal_def finish_deal_def request_cancel_def revoke_cancel_def
      accept_cancel_def start_arbitration_def deal_currency_def value_error_detail_def Let_def
      case_prod_beta split: if_splits option.splits sum.splits)

lemma resolve_raises_value_errors:
  "resolve_arbitration now winner remark d u w = (Inl e, w') \<Longrightarrow> value_error_detail e \<noteq> None"
  by (auto simp: resolve_arbitration_def deal_currency_def value_error_detail_def Let_def escrow_Inr
      case_prod_beta split: if_splits option.splits sum.splits)

section \<open>Properties\<close>

lemma create_deal_effect:
  assumes "books_ok w"
  shows "case create_deal now b s code amount desc prov w of
      (Inl e, w') \<Rightarrow> w' = w \<or> w' = snd (settings_row w)
    | (Inr d, w') \<Rightarrow> (\<exists>cur raw. get_currency_by_code code w = Inr cur \<and> amount = Finite raw
        \<and> d_amount d = quantize_money raw (c_decimals cur) \<and> 0 < d_amount d
        \<and> d_amount d \<le> free w (u_id b) (c_id cur)
        \<and> d_commission_amount d = Some (commission_of (d_amount d)
             (resolve_commission_rate (fst (settings_row w)) b s) (c_decimals cur))
        \<and> accounts w' = a_lock (u_id b) (c_id cur) (d_amount d) (accounts w)
        \<and> total c w' = total c w)
        \<and> d_id d = seq_deals w \<and> d_buyer_id d = u_id b \<and> d_seller_id d = u_id s \<and> u_id b \<noteq> u_id s
        \<and> d_status d = pending_confirmation \<and> t_deals w' = t_deals w @ [deal_row d]
        \<and> audited w w' \<and> books_ok w'"
proof (cases rule: outcome_cases [of "create_deal now b s code amount desc prov w"])
  case (fails e w')
  then show ?thesis
    by (auto simp: create_deal_def Let_def case_prod_beta split: if_splits sum.splits pydecimal.splits)
next
  case (returns d w')
  let ?w0 = "snd (settings_row w)" and ?st = "fst (settings_row w)"
  obtain cur raw amt com bal w1 where
    cur: "get_currency_by_code code w = Inr cur" and raw: "amount = Finite raw" and ne: "u_id b \<noteq> u_id s"
    and amt: "amt = quantize_money raw (c_decimals cur)" "0 < amt"
    and com: "com = commission_of amt (resolve_commission_rate ?st b s) (c_decimals cur)"
    and deb: "debit (u_id b) (c_id cur) amt ?w0 = Inr (bal, w1)"
    and d: "d = fst (insert_deal
      (new_deal now (u_id b) (u_id s) amt com (c_id cur) desc pending_confirmation prov True) w1)"
    and w': "same_books w' (snd (insert_deal
      (new_deal now (u_id b) (u_id s) amt com (c_id cur) desc pending_confirmation prov True) w1))"
    using returns by (auto simp: create_deal_def Let_def case_prod_beta same_books_def
        split: if_splits sum.splits pydecimal.splits prod.splits)
  let ?nd = "new_deal now (u_id b) (u_id s) amt com (c_id cur) desc pending_confirmation prov True"
  define w2 where "w2 = snd (insert_deal ?nd w1)"
  have ins: "insert_deal ?nd w1 = (d, w2)"
    using d by (simp add: w2_def)
  note w' = w' [folded w2_def, unfolded same_books_def]
  have ok: "balances_ok w" "deals_ok w" "withdrawals_ok w" "currencies_ok w"
    using assms by (auto simp: books_ok_def)
  have ok0: "balances_ok ?w0" and acc0: "accounts ?w0 = accounts w"
    using ok balances_ok_cong [of ?w0 w] accounts_cong [of ?w0 w] by simp_all
  have x: "0 \<le> amt" "storable amt"
    using amt get_currency_by_code_found [OF cur ok(4)] by (auto intro: storable_quantize)
  note r = debit_refines [OF ok0 x deb] and f = debit_frame [OF deb] and i = insert_deal_effect [OF ins]
  have eq: "t_balances w' = t_balances w1" using w' i(4) by simp
  have acc: "accounts w' = a_lock (u_id b) (c_id cur) amt (accounts w)" and okb: "balances_ok w'"
    using r(2,3) acc0 accounts_cong [OF eq] balances_ok_cong [OF eq] by simp_all
  have tot: "total c w' = total c w"
    using wallet_escrow.hold_total [OF ok0 x, of "u_id b" "c_id cur" w1 c] deb eq
    by (simp add: escrow_hold_def total_def)
  have aud: "audited w w'"
  proof (rule audited_same)
    show "audited w w1"
      by (rule audited_from [of ?w0, OF acc0 _ debit_audited [OF ok0 x deb]]) simp
    show "t_balances w' = t_balances w1" by (rule eq)
    show "t_ledger w' = t_ledger w1" using w' i(8) by simp
  qed
  have id: "d_id d = seq_deals w" and frm: "t_deals w' = t_deals w @ [deal_row d]"
    "seq_deals w' = seq_deals w + 1" "t_currencies w' = t_currencies w"
    "t_withdrawals w' = t_withdrawals w" "seq_withdrawals w' = seq_withdrawals w"
    using w' i f by simp_all
  have dok: "deal_ok w d"
    using new_deal_ok [OF cur ok(4) ne, where raw = raw and now = now and com = com and desc = desc
        and st = pending_confirmation and prov = prov and paid = True and i = "seq_deals w1"]
      amt i(1) by simp
  have "held w' u c = held w u c + deal_hold d u c" for u c
    using held_lock [OF acc, of u c] by (simp add: deal_hold_new i(1))
  moreover have "deposits_ok w'"
    using deposits_same [of w w'] assms w' i(10,11) f by (simp add: books_ok_def)
  ultimately have "books_ok w'" by (intro books_new_deal [OF assms okb dok id frm])
  then show ?thesis
    using returns cur raw amt com ne acc tot aud frm i(1) f r acc0
    by (auto simp: new_deal_def)
qed

text \<open>
  C4. Creating a deal locks exactly its quantised amount of the buyer's free money, which it
  needs to have: one deal is added, awaiting the seller, with the commission of the rate
  that applies; no other account changes, the total is kept, the ledger explains the change
  and the books balance. A refusal leaves at most the default settings row behind.
\<close>

theorem create_deal_locks_amount:
  assumes "books_ok w"
  shows "case create_deal now b s code amount desc prov w of
      (Inl e, w') \<Rightarrow> w' = w \<or> w' = snd (settings_row w)
    | (Inr d, w') \<Rightarrow> (\<exists>cur raw. get_currency_by_code code w = Inr cur \<and> amount = Finite raw
        \<and> d_amount d = quantize_money raw (c_decimals cur) \<and> 0 < d_amount d
        \<and> d_amount d \<le> free w (u_id b) (c_id cur)
        \<and> d_commission_amount d = Some (commission_of (d_amount d)
             (resolve_commission_rate (fst (settings_row w)) b s) (c_decimals cur))
        \<and> accounts w' = a_lock (u_id b) (c_id cur) (d_amount d) (accounts w)
        \<and> total c w' = total c w)
        \<and> d_id d = seq_deals w \<and> d_buyer_id d = u_id b \<and> d_seller_id d = u_id s \<and> u_id b \<noteq> u_id s
        \<and> d_status d = pending_confirmation \<and> t_deals w' = t_deals w @ [deal_row d]
        \<and> audited w w' \<and> books_ok w'"
  by (rule create_deal_effect [OF assms])

lemma create_deal_locks_amount_witness:
  "case create_deal 9 sample_buyer sample_seller ''USDT'' (Finite (1234 / 100)) [] ''cryptobot'' sample_world of
      (Inl e, w') \<Rightarrow> False
    | (Inr d, w') \<Rightarrow> d_id d = 100 \<and> d_status d = pending_confirmation \<and> books_ok w'"
proof -
  have "succeeds (create_deal 9 sample_buyer sample_seller ''USDT'' (Finite (1234 / 100)) [] ''cryptobot''
      sample_world)"
    by (simp add: create_deal_def Let_def case_prod_beta get_currency_by_code_def sample_rows usdt_def
        to_upper_def settings_row_def quantize_money_def round_half_even_def debit_def
        lock_user_balance_def get_balance_def bkey_def sample_user_rows succeeds_def)
  then show ?thesis
    using create_deal_locks_amount [OF sample_books_ok, where now = 9 and b = sample_buyer and s = sample_seller
        and code = "''USDT''" and amount = "Finite (1234 / 100)" and desc = "[]" and prov = "''cryptobot''"]
    by (auto simp: succeeds_def sample_rows split: prod.splits sum.splits)
qed

text \<open>
  Accepting succeeds only for the seller of an unconfirmed deal; it starts the work, counts
  one deal for each party and moves no money. A refusal changes nothing.
\<close>

theorem accept_deal_starts_work:
  "case accept_deal now d u w of
      (Inl e, w') \<Rightarrow> w' = w \<and> (u_id u \<noteq> d_seller_id d \<or> d_status d \<noteq> pending_confirmation)
    | (Inr d', w') \<Rightarrow> u_id u = d_seller_id d \<and> d_status d = pending_confirmation
        \<and> d' = d \<lparr> d_status := in_progress, d_in_progress_at := Some now,
                  d_confirm_buyer := True, d_confirm_seller := True \<rparr>
        \<and> t_deals w' = tput d_id (deal_row d') (t_deals w)
        \<and> t_balances w' = t_balances w \<and> t_ledger w' = t_ledger w
        \<and> (\<forall>i. get_user i w' = map_option (\<lambda>x. if i \<in> set (parties d)
                  then x \<lparr> u_deals_total := u_deals_total x + 1 \<rparr> else x) (get_user i w))"
  by (auto simp: accept_deal_def Let_def case_prod_beta users_bump get_user_def split: if_splits)

lemma accept_deal_starts_work_witness:
  "case accept_deal 9 (sample_deal 6 pending_confirmation 15) sample_seller sample_world of
      (Inl e, w') \<Rightarrow> False
    | (Inr d', w') \<Rightarrow> d_status d' = in_progress \<and> t_balances w' = t_balances sample_world"
  using accept_deal_starts_work [where d = "sample_deal 6 pending_confirmation 15" and now = 9
      and u = sample_seller and w = sample_world]
  by (auto split: prod.splits sum.splits)

text \<open>
  C3. Finishing a deal succeeds only for its buyer, in \<open>in_progress\<close>, and then moves exactly
  the deal's amount from the buyer's locked money to the seller's free money: every other
  account is untouched, the currency's total is kept, the ledger explains the change and the
  books still balance. A refusal leaves the database as it was, and only happens for the
  reasons given.
\<close>

theorem finish_deal_pays_seller:
  assumes "books_ok w" and "get_deal (d_id d) w = Some d"
  shows "case finish_deal now d u w of
      (Inl e, w') \<Rightarrow> w' = w \<and> (u_id u \<noteq> d_buyer_id d \<or> d_status d \<noteq> in_progress
                              \<or> get_currency (d_currency_id d) w = None)
    | (Inr d', w') \<Rightarrow> u_id u = d_buyer_id d \<and> d_status d = in_progress
        \<and> get_deal (d_id d) w' = Some (deal_row d') \<and> d_status d' = completed
        \<and> accounts w' = a_credit (d_seller_id d) (d_currency_id d) (d_amount d)
             (a_burn (d_buyer_id d) (d_currency_id d) (d_amount d) (accounts w))
        \<and> total c w' = total c w \<and> audited w w' \<and> books_ok w'"
proof (cases rule: outcome_cases [of "finish_deal now d u w"])
  case (fails e w')
  with finish.fails_clean [OF fails] finish_succeeds [of u d w _ now] show ?thesis by fastforce
next
  case (returns d' w')
  from finish.effects [OF assms returns] finish_pays [OF returns assms] finish_settles [OF returns]
  show ?thesis using returns by (auto simp: finish_deal_def split: if_splits)
qed

lemma finish_deal_pays_seller_witness:
  "case finish_deal 9 (sample_deal 5 in_progress 25) sample_buyer sample_world of
      (Inl e, w') \<Rightarrow> False
    | (Inr d', w') \<Rightarrow> d_status d' = completed \<and> accounts w' 1 7 = (100, 56) \<and> accounts w' 2 7 = (28, 0)"
  using finish_deal_pays_seller [OF sample_books_ok,
      where d = "sample_deal 5 in_progress 25" and now = 9 and u = sample_buyer and c = 7]
  by (auto simp: a_credit_def a_burn_def a_upd_def split: prod.splits sum.splits)

text \<open>
  Declining succeeds only for the seller of an unconfirmed deal and gives the buyer back
  exactly what was locked; nothing else moves, and a refusal changes nothing.
\<close>

theorem decline_deal_refunds_buyer:
  assumes "books_ok w" and "get_deal (d_id d) w = Some d"
  shows "case decline_deal now d u w of
      (Inl e, w') \<Rightarrow> w' = w \<and> (u_id u \<noteq> d_seller_id d \<or> d_status d \<noteq> pending_confirmation
                              \<or> get_currency (d_currency_id d) w = None)
    | (Inr d', w') \<Rightarrow> u_id u = d_seller_id d \<and> d_status d = pending_confirmation
        \<and> get_deal (d_id d) w' = Some (deal_row d') \<and> d_status d' = cancelled
        \<and> accounts w' = a_unlock (d_buyer_id d) (d_currency_id d) (d_amount d) (accounts w)
        \<and> total c w' = total c w \<and> audited w w' \<and> books_ok w'"
proof (cases rule: outcome_cases [of "decline_deal now d u w"])
  case (fails e w')
  with decline.fails_clean [OF fails] decline_succeeds [of u d w _ now] show ?thesis by fastforce
next
  case (returns d' w')
  from decline.effects [OF assms returns] decline_refunds [OF returns assms] decline_settles [OF returns]
  show ?thesis using returns by (auto simp: decline_deal_def split: if_splits)
qed

lemma decline_deal_refunds_buyer_witness:
  "case decline_deal 9 (sample_deal 6 pending_confirmation 15) sample_seller sample_world of
      (Inl e, w') \<Rightarrow> False
    | (Inr d', w') \<Rightarrow> d_status d' = cancelled \<and> accounts w' 1 7 = (115, 66)"
  using decline_deal_refunds_buyer [OF sample_books_ok,
      where d = "sample_deal 6 pending_confirmation 15" and now = 9 and u = sample_seller and c = 7]
  by (auto simp: a_unlock_def a_upd_def split: prod.splits sum.splits)

text \<open>
  A cancellation is accepted only by the party that did not ask for it; the buyer gets
  back exactly the locked amount, and a refusal changes nothing.
\<close>

theorem accept_cancel_refunds_buyer:
  assumes "books_ok w" and "get_deal (d_id d) w = Some d"
  shows "case accept_cancel now d u w of
      (Inl e, w') \<Rightarrow> w' = w \<and> (u_id u \<notin> set (parties d) \<or> d_status d \<noteq> pending_cancellation
          \<or> d_cancellation_initiator_id d = Some (u_id u) \<or> get_currency (d_currency_id d) w = None)
    | (Inr d', w') \<Rightarrow> u_id u \<in> set (parties d) \<and> d_cancellation_initiator_id d \<noteq> Some (u_id u)
        \<and> get_deal (d_id d) w' = Some (deal_row d') \<and> d_status d' = cancelled
        \<and> accounts w' = a_unlock (d_buyer_id d) (d_currency_id d) (d_amount d) (accounts w)
        \<and> total c w' = total c w \<and> audited w w' \<and> books_ok w'"
proof (cases rule: outcome_cases [of "accept_cancel now d u w"])
  case (fails e w')
  with accept_cancel.fails_clean [OF fails] accept_cancel_succeeds [of u d w _ now]
  show ?thesis by fastforce
next
  case (returns d' w')
  from accept_cancel.effects [OF assms returns] accept_cancel_refunds [OF returns assms]
    accept_cancel_settles [OF returns]
  show ?thesis using returns by (auto simp: accept_cancel_def split: if_splits)
qed

lemma accept_cancel_refunds_buyer_witness:
  "case accept_cancel 9 (sample_deal 9 pending_cancellation 10) sample_seller sample_world of
      (Inl e, w') \<Rightarrow> False
    | (Inr d', w') \<Rightarrow> d_status d' = cancelled \<and> accounts w' 1 7 = (110, 71)"
  using accept_cancel_refunds_buyer [OF sample_books_ok,
      where d = "sample_deal 9 pending_cancellation 10" and now = 9 and u = sample_seller and c = 7]
  by (auto simp: a_unlock_def a_upd_def split: prod.splits sum.splits)

text \<open>
  C12. Only an admin or an arbiter resolves an arbitration; the locked amount goes whole to the
  winner (back to the buyer, or to the seller), the status says who won, and a refusal
  changes nothing.
\<close>

theorem resolve_arbitration_pays_winner:
  assumes "books_ok w" and "get_deal (d_id d) w = Some d"
  shows "case resolve_arbitration now winner remark d u w of
      (Inl e, w') \<Rightarrow> w' = w \<and> (\<not> (u_is_admin u \<or> u_is_arbiter u) \<or> d_status d \<noteq> arbitration
          \<or> winner \<notin> {''buyer'', ''seller''} \<or> get_currency (d_currency_id d) w = None)
    | (Inr d', w') \<Rightarrow> (u_is_admin u \<or> u_is_arbiter u) \<and> d_status d = arbitration
        \<and> get_deal (d_id d) w' = Some (deal_row d')
        \<and> (d_status d', accounts w') =
           (if winner = ''buyer''
            then (resolved_for_buyer,
                  a_unlock (d_buyer_id d) (d_currency_id d) (d_amount d) (accounts w))
            else (resolved_for_seller,
                  a_credit (d_seller_id d) (d_currency_id d) (d_amount d)
                    (a_burn (d_buyer_id d) (d_currency_id d) (d_amount d) (accounts w))))
        \<and> total c w' = total c w \<and> audited w w' \<and> books_ok w'"
proof (cases rule: outcome_cases [of "resolve_arbitration now winner remark d u w"])
  case (fails e w')
  with resolve.fails_clean [OF fails] resolve_succeeds [of u d winner w _ now remark]
  show ?thesis by fastforce
next
  case (returns d' w')
  from resolve.effects [OF assms returns] resolve_pays [OF returns assms] resolve_settles [OF returns]
  show ?thesis using returns by (auto simp: resolve_arbitration_def split: if_splits)
qed

lemma resolve_arbitration_pays_winner_witness:
  "case resolve_arbitration 9 ''seller'' [] (sample_deal 10 arbitration 20) sample_admin sample_world of
      (Inl e, w') \<Rightarrow> False
    | (Inr d', w') \<Rightarrow> d_status d' = resolved_for_seller \<and> accounts w' 1 7 = (100, 61)
        \<and> accounts w' 2 7 = (23, 0)"
  using resolve_arbitration_pays_winner [OF sample_books_ok,
      where d = "sample_deal 10 arbitration 20" and now = 9 and winner = "''seller''" and remark = "[]" and u = sample_admin and c = 7]
  by (auto simp: a_credit_def a_burn_def a_upd_def split: prod.splits sum.splits)

text \<open>
  A deal in a terminal status is final: every lifecycle operation, by whoever, raises and
  leaves the database unchanged, so its money cannot move a second time.
\<close>

theorem terminal_deal_is_final:
  assumes "d_status d \<in> set TERMINAL_DEAL_STATUSES"
  shows "list_all (\<lambda>op. \<exists>e. op d w = (Inl e, w))
    [\<lambda>d. accept_deal now d u, \<lambda>d. decline_deal now d u, \<lambda>d. finish_deal now d u,
     \<lambda>d. request_cancel now reason d u, \<lambda>d. revoke_cancel now d u, \<lambda>d. accept_cancel now d u,
     \<lambda>d. start_arbitration now reason d u, \<lambda>d. resolve_arbitration now winner remark d u]"
  using assms
  by (simp only: list.pred_inject, intro conjI TrueI accept.refused decline.refused
      finish.refused request.refused revoke.refused accept_cancel.refused debate.refused
      resolve.refused)
    (auto simp: TERMINAL_DEAL_STATUSES_def ARBITRATION_ELIGIBLE_def)

lemma terminal_deal_is_final_witness:
  "list_all (\<lambda>op. \<exists>e. op (sample_deal 12 completed 30) sample_world = (Inl e, sample_world))
    [\<lambda>d. accept_deal 9 d sample_buyer, \<lambda>d. decline_deal 9 d sample_buyer,
     \<lambda>d. finish_deal 9 d sample_buyer, \<lambda>d. request_cancel 9 ''r'' d sample_buyer,
     \<lambda>d. revoke_cancel 9 d sample_buyer, \<lambda>d. accept_cancel 9 d sample_buyer,
     \<lambda>d. start_arbitration 9 ''r'' d sample_buyer,
     \<lambda>d. resolve_arbitration 9 ''buyer'' [] d sample_buyer]"
  by (rule terminal_deal_is_final) (simp add: TERMINAL_DEAL_STATUSES_def)

definition sweep_rows :: "int \<Rightarrow> (int \<Rightarrow> bool) \<Rightarrow> world \<Rightarrow> deal list" where
  "sweep_rows now skip w = filter (\<lambda>d. inactivity_stale now (fst (settings_row w)) d \<and> \<not> skip (d_id d)) (t_deals w)"

lemma sweep_inactivity_effect:
  assumes "books_ok w"
  shows "\<exists>n w'. sweep_inactivity now skip w = (Inr n, w') \<and> books_ok w' \<and> total c w' = total c w
    \<and> audited w w'
    \<and> (\<forall>d. get_deal (d_id d) w = Some d \<longrightarrow>
         (if inactivity_stale now (fst (settings_row w)) d \<and> \<not> skip (d_id d)
          then swept d w (get_deal (d_id d) w') else get_deal (d_id d) w' = Some d))
    \<and> (\<forall>u c. accounts w' u c = (free w u c + refund_sum (sweep_rows now skip w) w u c,
         held w u c - refund_sum (sweep_rows now skip w) w u c))"
proof -
  let ?w0 = "snd (settings_row w)" and ?st = "fst (settings_row w)"
  let ?ds = "filter (\<lambda>d. inactivity_stale now ?st d \<and> \<not> skip (d_id d)) (t_deals ?w0)"
  have keys: "tkeys d_id (t_deals w)" using assms by (simp add: books_ok_def deals_ok_def)
  note s0 = same_booksD [OF settings_same_books [of w]]
  have get0: "get_deal i ?w0 = get_deal i w" for i by (simp add: get_deal_def)
  obtain ns k ds' w1 where run: "sweep_inactivity_rows now ?ds ?w0 = Inr ((ns, k, ds'), w1)"
    using sweep_rows_total by blast
  define w' where "w' = fold (\<lambda>d. publish_deal_update (d_id d) (parties d) (Some (d_status d))) ds'
    (safe_dispatch ns w1)"
  have "same_books w' w1"
    using publish_fold_frame [of ds' "safe_dispatch ns w1"] by (simp add: w'_def same_books_def)
  note s1 = same_booksD [OF this]
  have get1: "get_deal i w' = get_deal i w1" for i
    using \<open>same_books w' w1\<close> by (simp add: get_deal_def same_books_def)
  have member: "d \<in> set (t_deals w) \<longleftrightarrow> get_deal (d_id d) w = Some d" for d
    using tget_in_set [OF keys] get_deal_in by (auto simp: get_deal_def)
  have "distinct (map d_id ?ds)" using keys by (simp add: tkeys_def distinct_map_filter)
  moreover have "get_deal (d_id d) ?w0 = Some d \<and> d_status d \<in> {pending_confirmation, pending_cancellation}"
    if "d \<in> set ?ds" for d
    using that member [of d] by (auto simp: inactivity_stale_def Let_def get0)
  ultimately have eff: "books_ok w1 \<and> total c w1 = total c ?w0 \<and> audited ?w0 w1
      \<and> (\<forall>i. i \<notin> d_id ` set ?ds \<longrightarrow> get_deal i w1 = get_deal i ?w0)
      \<and> (\<forall>d \<in> set ?ds. swept d ?w0 (get_deal (d_id d) w1))
      \<and> (\<forall>u c. accounts w1 u c = (free ?w0 u c + refund_sum ?ds ?w0 u c, held ?w0 u c - refund_sum ?ds ?w0 u c))"
    using sweep_rows_effect [OF run, where c = c] assms s0(4) by blast
  have out: "d_id d \<notin> d_id ` set ?ds" if "get_deal (d_id d) w = Some d" "d \<notin> set ?ds" for d
    using that member keys by (force simp: get_deal_def dest: tget_in_set)
  have "sweep_inactivity now skip w = (Inr k, w')"
    by (simp add: sweep_inactivity_def case_prod_beta run [simplified] w'_def)
  moreover have "swept d w (get_deal (d_id d) w')" if "d \<in> set ?ds" for d
  proof -
    have "swept d ?w0 (get_deal (d_id d) w1)" using eff that by blast
    then show ?thesis using swept_cong [of ?w0 w d] get1 by simp
  qed
  moreover have "get_deal (d_id d) w' = Some d" if "get_deal (d_id d) w = Some d" "d \<notin> set ?ds" for d
  proof -
    have "get_deal (d_id d) w1 = get_deal (d_id d) ?w0" using eff out [OF that] by blast
    then show ?thesis using get0 get1 that(1) by simp
  qed
  moreover have "audited w w'"
    using eff s0(3) s1(3) audited_trans by blast
  moreover have "accounts w' u c = (free w u c + refund_sum (sweep_rows now skip w) w u c,
         held w u c - refund_sum (sweep_rows now skip w) w u c)" for u c
    using eff s0(1) s1(1) refund_sum_cong [of ?w0 w ?ds u c] by (simp add: sweep_rows_def)
  ultimately show ?thesis
    using eff s0(2) s1(2,4) member by auto
qed

text \<open>
  C13. The inactivity sweep never fails: every stale deal it can lock (an unconfirmed deal or an
  unanswered cancellation past its cutoff, in a known currency) ends closed with its money
  back at the buyer: the free money of every account grows by exactly the amounts of its own deals
  that were closed, its locked money shrinks by the same, and no other account changes. Every other
  deal keeps its row, no money is made or lost, and the books balance afterwards.
\<close>

theorem sweep_inactivity_closes_stale_deals:
  assumes "books_ok w"
  shows "\<exists>n w'. sweep_inactivity now skip w = (Inr n, w') \<and> books_ok w' \<and> total c w' = total c w
    \<and> audited w w'
    \<and> (\<forall>d. get_deal (d_id d) w = Some d \<longrightarrow>
         (if inactivity_stale now (fst (settings_row w)) d \<and> \<not> skip (d_id d)
          then swept d w (get_deal (d_id d) w') else get_deal (d_id d) w' = Some d))
    \<and> (\<forall>u c. accounts w' u c = (free w u c + refund_sum (sweep_rows now skip w) w u c,
         held w u c - refund_sum (sweep_rows now skip w) w u c))"
  by (rule sweep_inactivity_effect [OF assms])

lemma sweep_inactivity_closes_stale_deals_witness:
  "\<exists>n w'. sweep_inactivity (9 * 86400) (\<lambda>_. False) sample_world = (Inr n, w') \<and> books_ok w'
     \<and> get_deal 5 w' = Some (sample_deal 5 in_progress 25)
     \<and> (\<exists>d'. get_deal 9 w' = Some d' \<and> d_status d' = cancelled) \<and> accounts w' 1 7 = (125, 56)"
proof -
  have st: "settings_row sample_world = (default_app_settings, sample_world)"
    by (simp add: settings_row_def sample_rows sample_settings_def)
  have stale: "inactivity_stale (9 * 86400) default_app_settings (sample_deal i s x)
      = (s = pending_confirmation \<or> s = pending_cancellation)" for i s x
    by (simp add: inactivity_stale_def days_def default_app_settings_def sample_deal_def)
  have sum: "refund_sum (sweep_rows (9 * 86400) (\<lambda>_. False) sample_world) sample_world 1 7 = 25"
    by (simp add: refund_sum_def sweep_rows_def st) (simp add: sample_rows stale [simplified] get_currency_def usdt_def)
  obtain n w' where run: "sweep_inactivity (9 * 86400) (\<lambda>_. False) sample_world = (Inr n, w')"
    and ok: "books_ok w'"
    and all: "\<forall>d. get_deal (d_id d) sample_world = Some d \<longrightarrow>
         (if inactivity_stale (9 * 86400) default_app_settings d
          then swept d sample_world (get_deal (d_id d) w') else get_deal (d_id d) w' = Some d)"
    and acc: "accounts w' 1 7 = (125, 56)"
    using sweep_inactivity_closes_stale_deals [OF sample_books_ok,
        where now = "9 * 86400" and skip = "\<lambda>_. False" and c = 7] st sum by auto
  show ?thesis
    using run ok acc all [rule_format, of "sample_deal 9 pending_cancellation 10"]
      all [rule_format, of "sample_deal 5 in_progress 25"] stale
    by (auto simp: swept_def)
qed

text \<open>
  A deal endpoint that answers with an error has changed nothing, and its answer is a 400,
  403 or 404: no operation fails half done or with a server error.
\<close>

theorem deal_endpoints_refuse_cleanly:
  "list_all (\<lambda>r. refusal r w)
    [accept_deal_endpoint now i u w, decline_deal_endpoint now i u w, finish_deal_endpoint now i u w,
     cancel_request_endpoint now i reason u w, cancel_revoke_endpoint now i u w,
     cancel_accept_endpoint now i u w, debate_endpoint now i reason u w,
     resolve_endpoint now i winner remark u w]"
proof -
  have "refusal (resolve_endpoint now i winner remark u w) w"
  proof (cases "get_deal i w")
    case (Some d)
    show ?thesis
    proof (cases rule: outcome_cases [of "resolve_arbitration now winner remark d u w"])
      case (fails e w')
      with resolve.fails_clean [OF fails] resolve_error_HTTP [OF resolve_raises_value_errors [OF fails]] Some
      show ?thesis by (auto simp: resolve_endpoint_def get_locked_def refusal_def)
    qed (use Some in \<open>simp add: resolve_endpoint_def get_locked_def refusal_def\<close>)
  qed (simp add: resolve_endpoint_def get_locked_def refusal_def)
  then show ?thesis
    by (simp add: accept_deal_endpoint_def decline_deal_endpoint_def finish_deal_endpoint_def
        cancel_request_endpoint_def cancel_revoke_endpoint_def cancel_accept_endpoint_def
        debate_endpoint_def)
      (intro conjI on_locked_deal_refusal; (rule accept.fails_clean decline.fails_clean
        finish.fails_clean request.fails_clean revoke.fails_clean accept_cancel.fails_clean
        debate.fails_clean ops_raise_value_errors; assumption))
qed

end
