(* ===== verification/Invoices.thy ===== *)
theory Invoices
  imports Wallet
begin

text \<open>
  \<open>backend/app/services_wallet.py\<close>, \<open>create_deposit_invoice\<close> and its two providers. The
  provider is asked inside the caller's transaction; the row it makes is committed by the
  caller, or by \<open>create_deposit_invoice_commit\<close> for the wallet endpoint.
\<close>

section \<open>Parameters\<close>

definition purpose_of_string :: "string \<Rightarrow> deposit_purpose option" where
  "purpose_of_string s =
     (if s = ''wallet'' then Some P_wallet else if s = ''trust'' then Some P_trust
      else if s = ''deal_topup'' then Some P_deal_topup else None)"

definition provider_of_string :: "string \<Rightarrow> WalletDepositProvider option" where
  "provider_of_string s =
     (if s = ''crystalpay'' then Some crystalpay else if s = ''cryptobot'' then Some cryptobot
      else None)"

definition provider_value :: "WalletDepositProvider \<Rightarrow> string" where
  "provider_value p = (case p of cryptobot \<Rightarrow> ''cryptobot'' | crystalpay \<Rightarrow> ''crystalpay'')"

definition purpose_value :: "deposit_purpose \<Rightarrow> string" where
  "purpose_value p =
     (case p of P_wallet \<Rightarrow> ''wallet'' | P_trust \<Rightarrow> ''trust'' | P_deal_topup \<Rightarrow> ''deal_topup'')"

definition new_deposit ::
  "int \<Rightarrow> user \<Rightarrow> currency \<Rightarrow> decimal \<Rightarrow> WalletDepositProvider \<Rightarrow> string \<Rightarrow> string
     \<Rightarrow> deposit_purpose \<Rightarrow> wallet_deposit" where
  "new_deposit now u cur amount provider invoice_id pay_url purpose =
     \<lparr> dep_id = 0, dep_user_id = u_id u, dep_currency_id = c_id cur, dep_amount = amount,
       dep_provider = provider, dep_provider_invoice_id = invoice_id, dep_pay_url = pay_url,
       dep_status = DS_pending, dep_purpose = purpose, dep_linked_deal_id = None,
       dep_created_at = now, dep_paid_at = None, dep_paid_amount = None \<rparr>"

section \<open>CryptoBot\<close>

definition CRYPTOBOT_FIAT_ACCEPTED_ASSETS :: string where
  "CRYPTOBOT_FIAT_ACCEPTED_ASSETS = ''USDT,TON,BTC,ETH,USDC,LTC,BNB,TRX''"

fun first_url :: "string option list \<Rightarrow> string" where
  "first_url [] = []"
| "first_url (None # us) = first_url us"
| "first_url (Some u # us) = (if u = [] then first_url us else u)"

definition cryptobot_pay_url :: "cryptopay_invoice \<Rightarrow> string" where
  "cryptobot_pay_url i =
     first_url [inv_mini_app_invoice_url i, inv_bot_invoice_url i, Some (inv_pay_url i),
                inv_web_app_invoice_url i]"

definition cryptobot_request :: "settings \<Rightarrow> currency \<Rightarrow> decimal \<Rightarrow> cryptopay_invoice_request" where
  "cryptobot_request cfg cur amount =
     (let expiry_seconds = cfg_wallet_deposit_expiry_seconds cfg
      in \<lparr> cir_price = (if c_kind cur = K_fiat
                        then FiatPrice (c_code cur) CRYPTOBOT_FIAT_ACCEPTED_ASSETS
                        else CryptoAsset (c_code cur)),
           cir_amount = amount,
           cir_expires_in = (if 0 < expiry_seconds then Some expiry_seconds else None) \<rparr>)"

definition create_cryptobot_deposit ::
  "int \<Rightarrow> settings \<Rightarrow> provider_api \<Rightarrow> user \<Rightarrow> currency \<Rightarrow> decimal
     \<Rightarrow> deposit_purpose \<Rightarrow> wallet_deposit tx" where
  "create_cryptobot_deposit now cfg api u cur amount purpose w =
     (if \<not> is_cryptopay_configured cfg then Inl (HTTP 502 (E_provider_not_configured cryptobot))
      else case cp_create_invoice api (cryptobot_request cfg cur amount) of
        None \<Rightarrow> Inl (HTTP 502 (E_provider_failed cryptobot))
      | Some invoice \<Rightarrow>
          let pay_url = cryptobot_pay_url invoice in
          if pay_url = [] then Inl (HTTP 502 (E_no_pay_url cryptobot))
          else insert_deposit (new_deposit now u cur amount cryptobot
                 (show_int (inv_invoice_id invoice)) pay_url purpose) w)"

section \<open>Crystalpay\<close>

text \<open>The lifetime of a Crystalpay invoice, in minutes, rounded up.\<close>

definition crystalpay_lifetime :: "settings \<Rightarrow> int" where
  "crystalpay_lifetime cfg =
     (let expiry_seconds = cfg_wallet_deposit_expiry_seconds cfg
      in if expiry_seconds \<le> 0 then 30 else max 1 ((expiry_seconds + 59) div 60))"

definition crystalpay_callback :: "settings \<Rightarrow> string option" where
  "crystalpay_callback cfg =
     (let base0 = (if cfg_webhook_base_url cfg \<noteq> [] then cfg_webhook_base_url cfg
                   else if cfg_public_api_url cfg \<noteq> [] then cfg_public_api_url cfg
                   else cfg_webapp_url cfg);
          base = rev (dropWhile (\<lambda>c. c = CHR ''/'') (rev base0))
      in if take 8 (map to_lower base) = ''https://''
         then Some (base @ ''/api/payments/webhook/crystalpay'') else None)"

definition create_crystalpay_deposit ::
  "int \<Rightarrow> settings \<Rightarrow> provider_api \<Rightarrow> user \<Rightarrow> currency \<Rightarrow> decimal \<Rightarrow> deposit_purpose
     \<Rightarrow> wallet_deposit tx" where
  "create_crystalpay_deposit now cfg api u cur amount purpose w =
     (if cfg_crystalpay_login cfg = [] \<or> cfg_crystalpay_secret cfg = []
      then Inl (HTTP 502 (E_provider_not_configured crystalpay))
      else case yp_create_invoice api
             \<lparr> yir_amount = amount, yir_currency = c_code cur, yir_lifetime = crystalpay_lifetime cfg,
               yir_extra_user = u_id u, yir_callback_url = crystalpay_callback cfg \<rparr> of
        None \<Rightarrow> Inl (HTTP 502 (E_provider_failed crystalpay))
      | Some invoice \<Rightarrow>
          if ci_id invoice = [] \<or> ci_url invoice = []
          then Inl (HTTP 502 (E_no_pay_url crystalpay))
          else insert_deposit (new_deposit now u cur amount crystalpay
                 (ci_id invoice) (ci_url invoice) purpose) w)"

section \<open>create_deposit_invoice\<close>

definition create_deposit_invoice ::
  "int \<Rightarrow> settings \<Rightarrow> provider_api \<Rightarrow> user \<Rightarrow> string \<Rightarrow> decimal \<Rightarrow> string
     \<Rightarrow> string \<Rightarrow> bool \<Rightarrow> wallet_deposit tx" where
  "create_deposit_invoice now cfg api u currency_code amount purpose provider min_check w =
     (case get_currency_by_code currency_code w of Inl e \<Rightarrow> Inl e | Inr currency \<Rightarrow>
      let amount_d = quantize_money amount (c_decimals currency) in
      if min_check \<and> amount_d < c_min_deposit currency
      then Inl (HTTP 400 (E_min_deposit (c_min_deposit currency) (c_code currency)))
      else case purpose_of_string purpose of None \<Rightarrow> Inl (HTTP 400 E_unknown_purpose) | Some pu \<Rightarrow>
      (case provider_of_string provider of
         Some crystalpay \<Rightarrow> create_crystalpay_deposit now cfg api u currency amount_d pu w
       | Some cryptobot \<Rightarrow> create_cryptobot_deposit now cfg api u currency amount_d pu w
       | None \<Rightarrow> Inl (HTTP 400 E_unknown_provider)))"

definition create_deposit_invoice_commit ::
  "int \<Rightarrow> settings \<Rightarrow> provider_api \<Rightarrow> user \<Rightarrow> string \<Rightarrow> decimal \<Rightarrow> string
     \<Rightarrow> string \<Rightarrow> world \<Rightarrow> wallet_deposit result" where
  "create_deposit_invoice_commit now cfg api u currency_code amount purpose provider w =
     run_tx w (create_deposit_invoice now cfg api u currency_code amount purpose provider True w)"

section \<open>Invoices touch the deposits only\<close>

lemma insert_deposit_effect:
  "insert_deposit d w = Inr (dep, w') \<Longrightarrow> dep = d \<lparr> dep_id := seq_deposits w \<rparr>
    \<and> w' = w \<lparr> t_deposits := t_deposits w @ [deposit_row dep], seq_deposits := seq_deposits w + 1 \<rparr>"
  by (auto simp: insert_deposit_def Let_def split: if_splits)

lemma create_deposit_invoice_effect:
  assumes "create_deposit_invoice now cfg api u code amount purpose provider check w = Inr (dep, w')"
  shows "\<exists>cur. get_currency_by_code code w = Inr cur \<and> dep_id dep = seq_deposits w
      \<and> dep_user_id dep = u_id u \<and> dep_currency_id dep = c_id cur
      \<and> dep_amount dep = quantize_money amount (c_decimals cur) \<and> dep_status dep = DS_pending
      \<and> purpose_of_string purpose = Some (dep_purpose dep) \<and> dep_linked_deal_id dep = None
      \<and> w' = w \<lparr> t_deposits := t_deposits w @ [deposit_row dep], seq_deposits := seq_deposits w + 1 \<rparr>"
  using assms
  by (auto simp: create_deposit_invoice_def create_cryptobot_deposit_def create_crystalpay_deposit_def
      Let_def new_deposit_def dest!: insert_deposit_effect
      split: sum.splits if_splits option.splits WalletDepositProvider.splits)

end
