(* ===== verification/Topup.thy ===== *)
theory Topup
  imports Deals Invoices
begin

text \<open>
  \<open>backend/app/services_deals.py\<close>, the commission-via-invoice flow: a deal is funded by the
  buyer's balance or by a deposit invoice, the paid invoice activates it, and an unpaid one
  is swept or cancelled.
\<close>

section \<open>Creation\<close>

text \<open>The amounts of a new deal, all at the digits of the currency.\<close>

record topup_terms =
  tt_amt :: decimal
  tt_commission :: decimal
  tt_needed :: decimal
  tt_topup_principal :: decimal
  tt_invoice_total :: decimal

definition topup_terms_of :: "app_settings \<Rightarrow> user \<Rightarrow> user \<Rightarrow> currency \<Rightarrow> decimal \<Rightarrow> decimal \<Rightarrow> topup_terms" where
  "topup_terms_of settings buyer seller currency amt balance_amount =
     (let dec = c_decimals currency;
          rate = resolve_commission_rate settings buyer seller;
          commission = commission_of amt rate dec;
          needed = quantize_money (amt + commission) dec;
          topup_principal = quantize_money (max 0 (amt - balance_amount)) dec;
          invoice_total = quantize_money (topup_principal + commission) dec
      in \<lparr> tt_amt = amt, tt_commission = commission, tt_needed = needed,
           tt_topup_principal = topup_principal, tt_invoice_total = invoice_total \<rparr>)"

text \<open>The balance covers the principal and the commission: no invoice.\<close>

definition create_deal_balance_funded ::
  "int \<Rightarrow> user \<Rightarrow> user \<Rightarrow> currency \<Rightarrow> string \<Rightarrow> string \<Rightarrow> topup_terms \<Rightarrow> user_balance \<Rightarrow> world
     \<Rightarrow> deal \<times> world" where
  "create_deal_balance_funded now buyer seller currency description payment_provider t bal w1 =
     (let bal' = bal \<lparr> b_amount := b_amount bal - tt_needed t,
                       b_locked := b_locked bal + tt_amt t \<rparr>;
          w2 = save_balance bal' w1
      in case insert_deal (new_deal now (u_id buyer) (u_id seller) (tt_amt t) (tt_commission t)
                (c_id currency) description pending_confirmation payment_provider True) w2
         of (d, w3) \<Rightarrow>
         let w4 = ledgered bal' (b_amount bal) (b_locked bal)
                    \<lparr> ev_type = ''deal.create_balance_funded'', ev_source_type = ''deal'',
                      ev_source_id = Some (d_id d), ev_provider = None,
                      ev_provider_event_id = None,
                      ev_meta = Some [(''commission'', MDec (tt_commission t)),
                                      (''principal'', MDec (tt_amt t))] \<rparr> w3
         in case notifier_insert now (u_id seller) NT_deals
                   (N_new_deal (mention_of buyer) (d_id d) (tt_amt t) (c_code currency))
                   (deal_payload (d_id d)) w4
            of (n, w5) \<Rightarrow> (d, after_commit d (parties d) [n] w5))"

text \<open>The balance does not: the deal waits for the invoice linked to it.\<close>

definition create_deal_invoice_funded ::
  "int \<Rightarrow> settings \<Rightarrow> provider_api \<Rightarrow> user \<Rightarrow> user \<Rightarrow> currency \<Rightarrow> string \<Rightarrow> string \<Rightarrow> topup_terms
     \<Rightarrow> (deal \<times> wallet_deposit) tx" where
  "create_deal_invoice_funded now cfg api buyer seller currency description payment_provider t w1 =
     (case insert_deal (new_deal now (u_id buyer) (u_id seller) (tt_amt t) (tt_commission t)
             (c_id currency) description pending_topup payment_provider False) w1
      of (d, w2) \<Rightarrow>
      if tt_invoice_total t \<le> 0 then Inl (ValueErr E_commission_below_precision)
      else let skip_min = (tt_invoice_total t < c_min_deposit currency) in
      case create_deposit_invoice now cfg api buyer (c_code currency) (tt_invoice_total t)
             ''deal_topup'' payment_provider (\<not> skip_min) w2
      of Inl e \<Rightarrow> Inl e
       | Inr (dep, w3) \<Rightarrow>
           let dep' = dep \<lparr> dep_linked_deal_id := Some (d_id d) \<rparr>;
               d' = d \<lparr> d_topup_deposit_id := Some (dep_id dep) \<rparr>;
               w4 = save_deal d' (save_deposit dep' w3)
           in case notifier_insert now (u_id seller) NT_deals
                     (N_new_deal_awaiting_payment (mention_of buyer) (d_id d') (tt_amt t)
                        (c_code currency))
                     (deal_payload (d_id d')) w4
              of (n, w5) \<Rightarrow> Inr ((d', dep'), after_commit d' (parties d') [n] w5))"

definition create_deal_with_topup ::
  "int \<Rightarrow> settings \<Rightarrow> provider_api \<Rightarrow> user \<Rightarrow> user \<Rightarrow> string \<Rightarrow> pydecimal \<Rightarrow> string \<Rightarrow> string
     \<Rightarrow> world \<Rightarrow> (deal \<times> wallet_deposit option) result" where
  "create_deal_with_topup now cfg api buyer seller currency_code amount description
       payment_provider w =
     (if u_id buyer = u_id seller then (Inl (ValueErr E_self_deal), w)
      else case get_currency_by_code currency_code w of Inl e \<Rightarrow> (Inl e, w) | Inr currency \<Rightarrow>
      case settings_row w of (settings, w0) \<Rightarrow>
      case amount of
        Finite raw \<Rightarrow>
          if raw \<le> 0 then (Inl (ValueErr E_amount_not_positive), w0)
          else let amt = quantize_money raw (c_decimals currency) in
          if amt \<le> 0 then (Inl (ValueErr E_amount_not_positive), w0)
          else (case lock_user_balance (u_id buyer) (c_id currency) w0 of
             Inl e \<Rightarrow> (Inl e, w0)
           | Inr (bal, w1) \<Rightarrow>
               let t = topup_terms_of settings buyer seller currency amt (b_amount bal) in
               if tt_needed t \<le> b_amount bal
               then (case create_deal_balance_funded now buyer seller currency description
                            payment_provider t bal w1
                     of (d, w2) \<Rightarrow> (Inr (d, None), w2))
               else (case create_deal_invoice_funded now cfg api buyer seller currency description
                            payment_provider t w1
                     of Inl e \<Rightarrow> (Inl e, w0)
                      | Inr ((d, dep), w2) \<Rightarrow> (Inr (d, Some dep), w2)))
      | _ \<Rightarrow> (Inl (ValueErr E_amount_not_positive), w0))"

section \<open>Settlement of a paid invoice\<close>

definition commission_due :: "deal \<Rightarrow> currency \<Rightarrow> decimal" where
  "commission_due deal currency =
     (let commission = quantize_money (case d_commission_amount deal of None \<Rightarrow> 0 | Some c \<Rightarrow> c)
                         (c_decimals currency)
      in if d_commission_paid deal then 0 else commission)"

definition issue_remaining_topup_invoice ::
  "int \<Rightarrow> settings \<Rightarrow> provider_api \<Rightarrow> deal \<Rightarrow> currency \<Rightarrow> decimal
     \<Rightarrow> world \<Rightarrow> py_error + ((deal \<times> wallet_deposit option) \<times> world)" where
  "issue_remaining_topup_invoice now cfg api deal currency current_balance w =
     (case get_user (d_buyer_id deal) w of
        None \<Rightarrow> Inl (ValueErr E_buyer_vanished)
      | Some buyer \<Rightarrow>
          let amt = quantize_money (d_amount deal) (c_decimals currency);
              principal_gap = max 0 (amt - current_balance);
              invoice_total = quantize_money (principal_gap + commission_due deal currency)
                                (c_decimals currency)
          in if invoice_total \<le> 0 then Inr ((deal, None), w)
             else case create_deposit_invoice now cfg api buyer (c_code currency) invoice_total
                         ''deal_topup''
                         (if d_payment_provider deal = [] then ''cryptobot''
                          else d_payment_provider deal) False w
                  of Inl e \<Rightarrow> Inl e
                   | Inr (dep, w1) \<Rightarrow>
                       let dep' = dep \<lparr> dep_linked_deal_id := Some (d_id deal) \<rparr>;
                           deal' = deal \<lparr> d_topup_deposit_id := Some (dep_id dep) \<rparr>
                       in Inr ((deal', Some dep'), save_deal deal' (save_deposit dep' w1)))"

definition deposit_event :: "string \<Rightarrow> wallet_deposit \<Rightarrow> meta \<Rightarrow> ledger_event" where
  "deposit_event ty dep m =
     \<lparr> ev_type = ty, ev_source_type = ''deposit'', ev_source_id = Some (dep_id dep),
       ev_provider = Some (provider_value (dep_provider dep)),
       ev_provider_event_id = Some (dep_provider_invoice_id dep), ev_meta = Some m \<rparr>"

definition mark_deposit_paid :: "int \<Rightarrow> decimal option \<Rightarrow> wallet_deposit \<Rightarrow> wallet_deposit" where
  "mark_deposit_paid now paid dep =
     dep \<lparr> dep_status := DS_paid, dep_paid_at := Some now,
           dep_paid_amount := (case paid of None \<Rightarrow> dep_paid_amount dep | Some x \<Rightarrow> Some x) \<rparr>"

text \<open>The deal is gone or closed: the money goes to the buyer's free balance.\<close>

definition topup_late_credit ::
  "int \<Rightarrow> wallet_deposit \<Rightarrow> deal \<Rightarrow> currency \<Rightarrow> decimal \<Rightarrow> world \<Rightarrow> wallet_deposit result" where
  "topup_late_credit now deposit deal currency paid w =
     (case lock_user_balance (d_buyer_id deal) (c_id currency) w of
        Inl e \<Rightarrow> (Inl e, w)
      | Inr (bal, w1) \<Rightarrow>
          let bal' = bal \<lparr> b_amount := b_amount bal + paid \<rparr>;
              w2 = ledgered bal' (b_amount bal) (b_locked bal)
                     (deposit_event ''deal_topup.late_credit'' deposit
                        [(''deal_id'', MInt (d_id deal)), (''paid'', MDec paid)])
                     (save_balance bal' w1);
              dep = mark_deposit_paid now (Some paid) deposit;
              w3 = save_deposit dep w2
          in case notifier_insert now (d_buyer_id deal) NT_deposits
                    (N_topup_for_closed_deal paid (c_code currency) (d_id deal))
                    (Some [(''deposit_id'', JInt (dep_id dep)), (''currency'', JStr (c_code currency)),
                           (''deal_id'', JInt (d_id deal))]) w3
             of (n, w4) \<Rightarrow> (Inr dep, dispatch_after_commit n w4))"

text \<open>The payment does not yet pay for the deal: credit it (less the commission, when it is
  collected now) and attach an invoice for the rest.\<close>

definition topup_partial ::
  "int \<Rightarrow> settings \<Rightarrow> provider_api \<Rightarrow> wallet_deposit \<Rightarrow> deal \<Rightarrow> currency \<Rightarrow> decimal \<Rightarrow> decimal
     \<Rightarrow> decimal \<Rightarrow> user_balance \<Rightarrow> (decimal \<Rightarrow> notice) \<Rightarrow> wallet_deposit tx" where
  "topup_partial now cfg api deposit deal currency paid due credit bal mk_notice w1 =
     (let bal' = bal \<lparr> b_amount := b_amount bal + credit \<rparr>;
          w2 = ledgered bal' (b_amount bal) (b_locked bal)
                 (deposit_event ''deal_topup.partial_credit'' deposit
                    [(''deal_id'', MInt (d_id deal)), (''paid'', MDec paid),
                     (''commission_due'', MDec due)])
                 (save_balance bal' w1);
          dep = mark_deposit_paid now (Some paid) deposit;
          w3 = save_deal deal (save_deposit dep w2)
      in case issue_remaining_topup_invoice now cfg api deal currency (b_amount bal') w3 of
           Inl e \<Rightarrow> Inl e
         | Inr ((deal', replacement), w4) \<Rightarrow>
             let deficit = (case replacement of None \<Rightarrow> 0 | Some r \<Rightarrow> dep_amount r) in
             case notifier_insert now (d_buyer_id deal') NT_deals (mk_notice deficit)
                    (Some [(''deal_id'', JInt (d_id deal')), (''deposit_id'', JInt (dep_id dep)),
                           (''replacement_deposit_id'',
                              case replacement of None \<Rightarrow> JNull | Some r \<Rightarrow> JInt (dep_id r)),
                           (''kind'', JStr ''underpayment'')]) w4
             of (n, w5) \<Rightarrow> Inr (dep, after_commit deal' (parties deal') [n] w5))"

text \<open>The balance now covers the principal: lock it and ask the seller.\<close>

definition topup_activate ::
  "int \<Rightarrow> wallet_deposit \<Rightarrow> deal \<Rightarrow> currency \<Rightarrow> decimal \<Rightarrow> decimal \<Rightarrow> decimal \<Rightarrow> decimal
     \<Rightarrow> user_balance \<Rightarrow> world \<Rightarrow> wallet_deposit \<times> world" where
  "topup_activate now deposit deal currency amt paid due credit bal w1 =
     (let new_balance = b_amount bal + credit;
          bal' = bal \<lparr> b_amount := new_balance - amt, b_locked := b_locked bal + amt \<rparr>;
          w2 = ledgered bal' (b_amount bal) (b_locked bal)
                 (deposit_event ''deal_topup.activate'' deposit
                    [(''deal_id'', MInt (d_id deal)), (''paid'', MDec paid),
                     (''commission_due'', MDec due)])
                 (save_balance bal' w1);
          dep = mark_deposit_paid now (Some paid) deposit;
          d = deal \<lparr> d_status := pending_confirmation, d_commission_paid := True \<rparr>;
          w3 = save_deal d (save_deposit dep w2)
      in case notifier_insert now (d_seller_id d) NT_deals (N_deal_paid (d_id d))
                (deal_payload (d_id d)) w3 of (n, w4) \<Rightarrow>
         case notifier_insert now (d_buyer_id d) NT_deals (N_deal_awaits_seller (d_id d))
                (deal_payload (d_id d)) w4 of (nb, w5) \<Rightarrow>
           (dep, after_commit d (parties d) [n, nb] w5))"

definition complete_deal_topup_payment ::
  "int \<Rightarrow> settings \<Rightarrow> provider_api \<Rightarrow> wallet_deposit \<Rightarrow> decimal option \<Rightarrow> world
     \<Rightarrow> wallet_deposit result" where
  "complete_deal_topup_payment now cfg api deposit paid_amount w =
     (if dep_status deposit = DS_paid then (Inr deposit, w)
      else case dep_linked_deal_id deposit of
        None \<Rightarrow> let dep = mark_deposit_paid now paid_amount deposit in (Inr dep, save_deposit dep w)
      | Some did \<Rightarrow>
      case get_deal did w of
        None \<Rightarrow> let dep = mark_deposit_paid now paid_amount deposit in (Inr dep, save_deposit dep w)
      | Some deal \<Rightarrow>
      case deal_currency deal w of Inl e \<Rightarrow> (Inl e, w) | Inr currency \<Rightarrow>
      let paid = quantize_money (case paid_amount of None \<Rightarrow> dep_amount deposit | Some x \<Rightarrow> x)
                   (c_decimals currency) in
      if d_status deal \<noteq> pending_topup
      then topup_late_credit now deposit deal currency paid w
      else let amt = quantize_money (d_amount deal) (c_decimals currency);
               due = commission_due deal currency in
      case lock_user_balance (d_buyer_id deal) (c_id currency) w of Inl e \<Rightarrow> (Inl e, w)
      | Inr (bal, w1) \<Rightarrow>
      if paid < due
      then run_tx w (topup_partial now cfg api deposit deal currency paid due paid bal
             (\<lambda>deficit. N_topup_partial paid (c_code currency) deficit (d_id deal)) w1)
      else let credit = quantize_money (paid - due) (c_decimals currency);
               deal1 = (if 0 < due then deal \<lparr> d_commission_paid := True \<rparr> else deal) in
      if b_amount bal + credit < amt
      then run_tx w (topup_partial now cfg api deposit deal1 currency paid due credit bal
             (\<lambda>deficit. N_topup_balance_short paid (c_code currency) deficit (d_id deal)) w1)
      else case topup_activate now deposit deal1 currency amt paid due credit bal w1 of
             (dep, w2) \<Rightarrow> (Inr dep, w2))"

section \<open>Expiry and cancellation\<close>

text \<open>The linked invoice of a deal that ends in \<open>pending_topup\<close> expires with it.\<close>

definition expire_topup_deposit :: "deal \<Rightarrow> world \<Rightarrow> world" where
  "expire_topup_deposit deal w =
     (case d_topup_deposit_id deal of
        None \<Rightarrow> w
      | Some i \<Rightarrow>
          (case get_deposit i w of
             None \<Rightarrow> w
           | Some dep \<Rightarrow>
               if dep_status dep = DS_pending
               then save_deposit (dep \<lparr> dep_status := DS_expired \<rparr>) w else w))"

definition sweep_topup_row ::
  "int \<Rightarrow> deal \<Rightarrow> world \<Rightarrow> ((notification \<times> payload option) list \<times> deal) \<times> world" where
  "sweep_topup_row now deal w =
     (let w1 = expire_topup_deposit deal w;
          d = deal \<lparr> d_status := cancelled_for_inactivity, d_completed_at := Some now \<rparr>
      in case notify_each now (parties d) NT_deals (N_topup_expired (d_id d))
                (deal_payload (d_id d)) (save_deal d w1)
         of (ns, w2) \<Rightarrow> ((ns, d), w2))"

fun sweep_topup_rows ::
  "int \<Rightarrow> deal list \<Rightarrow> world \<Rightarrow> ((notification \<times> payload option) list \<times> deal list) \<times> world" where
  "sweep_topup_rows now [] w = (([], []), w)"
| "sweep_topup_rows now (d # ds) w =
     (case sweep_topup_row now d w of ((ns, d'), w1) \<Rightarrow>
      case sweep_topup_rows now ds w1 of ((ns', ds'), w2) \<Rightarrow> ((ns @ ns', d' # ds'), w2))"

definition topup_stale :: "int \<Rightarrow> int \<Rightarrow> deal \<Rightarrow> bool" where
  "topup_stale now expiry_hours d =
     (d_status d = pending_topup \<and> d_created_at d \<le> now - expiry_hours * 3600)"

definition sweep_pending_topup :: "int \<Rightarrow> (int \<Rightarrow> bool) \<Rightarrow> world \<Rightarrow> nat result" where
  "sweep_pending_topup now skip_locked w =
     (case settings_row w of (settings, w0) \<Rightarrow>
      let h = s_pending_topup_expiry_hours settings; expiry_hours = (if h = 0 then 24 else h) in
      if expiry_hours \<le> 0 then (Inr 0, w0)
      else let rows = filter (\<lambda>d. topup_stale now expiry_hours d \<and> \<not> skip_locked (d_id d))
                        (t_deals w0) in
      case sweep_topup_rows now rows w0 of ((pending, rows'), w1) \<Rightarrow>
        (Inr (length rows),
         fold (\<lambda>d. publish_deal_update (d_id d) (parties d) (Some (d_status d))) rows'
           (safe_dispatch pending w1)))"

definition cancel_pending_topup :: "int \<Rightarrow> deal \<Rightarrow> user \<Rightarrow> world \<Rightarrow> deal result" where
  "cancel_pending_topup now deal u w =
     (if u_id u \<noteq> d_buyer_id deal then (Inl (ValueErr E_cancel_topup_buyer_only), w)
      else if d_status deal \<noteq> pending_topup then (Inl (ValueErr E_bad_status), w)
      else let w1 = expire_topup_deposit deal w;
               d = deal \<lparr> d_status := cancelled, d_completed_at := Some now \<rparr>
           in case notifier_insert now (d_seller_id d) NT_deals (N_topup_cancelled (d_id d))
                     (deal_payload (d_id d)) (save_deal d w1)
              of (n, w2) \<Rightarrow> (Inr d, after_commit d (parties d) [n] w2))"

section \<open>Endpoints\<close>

definition cancel_topup_endpoint :: "int \<Rightarrow> int \<Rightarrow> user \<Rightarrow> world \<Rightarrow> deal result" where
  "cancel_topup_endpoint now deal_id u = on_locked_deal (\<lambda>d. cancel_pending_topup now d u) deal_id"

definition user_by_name :: "string \<Rightarrow> world \<Rightarrow> user option" where
  "user_by_name name w = List.find (\<lambda>u. u_username u = Some name) (t_users w)"

definition create_deal_with_topup_endpoint ::
  "int \<Rightarrow> settings \<Rightarrow> provider_api \<Rightarrow> user \<Rightarrow> string \<Rightarrow> string \<Rightarrow> string \<Rightarrow> pydecimal \<Rightarrow> string
     \<Rightarrow> string \<Rightarrow> world \<Rightarrow> (deal \<times> wallet_deposit option) result" where
  "create_deal_with_topup_endpoint now cfg api u role counterparty currency_code amount
       description payment_provider w =
     (if role \<noteq> ''buyer'' then (Inl (HTTP 400 E_buyer_creates), w)
      else case user_by_name counterparty w of
        None \<Rightarrow> (Inl (HTTP 404 E_user_not_found), w)
      | Some seller \<Rightarrow>
          (case create_deal_with_topup now cfg api u seller currency_code amount description
                  payment_provider w
           of (r, w') \<Rightarrow> (map_sum value_error_400 id r, w')))"

end
