(* ===== verification/Deposits.thy ===== *)
theory Deposits
  imports Topup
begin

text \<open>
  \<open>backend/app/services_wallet.py\<close>, the life of a deposit after its invoice: credited once
  (to the wallet, to the trust balance, or to the deal it tops up), expired, polled.
\<close>

section \<open>credit_deposit\<close>

text \<open>\<open>quantize_money(Decimal(str(paid_amount)))\<close> and its comparison with the nominal amount:
  infinities cannot be quantised, a NaN cannot be ordered.\<close>

definition reported_amount :: "pydecimal option \<Rightarrow> nat \<Rightarrow> py_error + decimal option" where
  "reported_amount paid_amount decimals =
     (case paid_amount of
        None \<Rightarrow> Inr None
      | Some (Finite x) \<Rightarrow> Inr (Some (quantize_money x decimals))
      | Some _ \<Rightarrow> Inl InvalidOperation)"

definition finite_amount :: "pydecimal option \<Rightarrow> decimal option" where
  "finite_amount p = (case p of Some (Finite x) \<Rightarrow> Some x | _ \<Rightarrow> None)"

text \<open>\<open>session.refresh(deposit, ["status", "paid_at"])\<close>.\<close>

definition refresh_deposit :: "wallet_deposit \<Rightarrow> world \<Rightarrow> wallet_deposit" where
  "refresh_deposit dep w =
     (case get_deposit (dep_id dep) w of
        None \<Rightarrow> dep
      | Some row \<Rightarrow> dep \<lparr> dep_status := dep_status row, dep_paid_at := dep_paid_at row \<rparr>)"

definition paid_deposit ::
  "int \<Rightarrow> decimal \<Rightarrow> decimal option \<Rightarrow> wallet_deposit \<Rightarrow> wallet_deposit" where
  "paid_deposit now credit_amount reported dep =
     mark_deposit_paid now reported (dep \<lparr> dep_amount := credit_amount \<rparr>)"

definition credit_meta :: "wallet_deposit \<Rightarrow> decimal option \<Rightarrow> meta" where
  "credit_meta dep reported =
     [(''purpose'', MStr (purpose_value (dep_purpose dep))),
      (''reported_amount'', case reported of None \<Rightarrow> MNull | Some x \<Rightarrow> MDec x)]"

text \<open>The notification and the commit both branches end with.\<close>

definition notify_credit ::
  "int \<Rightarrow> wallet_deposit \<Rightarrow> currency option \<Rightarrow> decimal \<Rightarrow> world \<Rightarrow> wallet_deposit result" where
  "notify_credit now dep currency credit_amount w =
     (case currency of
        None \<Rightarrow> (Inr dep, w)
      | Some cur \<Rightarrow>
          (case notifier_insert now (dep_user_id dep) NT_deposits
                  (N_deposit_credited credit_amount (c_code cur))
                  (Some [(''deposit_id'', JInt (dep_id dep)), (''currency'', JStr (c_code cur))]) w
           of (n, w') \<Rightarrow> (Inr dep, dispatch_after_commit n w')))"

definition credit_trust ::
  "int \<Rightarrow> wallet_deposit \<Rightarrow> currency option \<Rightarrow> decimal \<Rightarrow> decimal option \<Rightarrow> world
     \<Rightarrow> wallet_deposit result" where
  "credit_trust now deposit currency credit_amount reported w =
     (case get_user (dep_user_id deposit) w of
        None \<Rightarrow> (Inl NoResultFound, w)
      | Some user_row \<Rightarrow>
          let dep0 = refresh_deposit deposit w in
          if dep_status dep0 = DS_paid then (Inr dep0, w)
          else let before_trust = u_trust_deposit_balance user_row;
                   after_trust = before_trust + credit_amount;
                   w1 = save_user (user_row \<lparr> u_trust_deposit_balance := after_trust \<rparr>) w;
                   dep = paid_deposit now credit_amount reported dep0;
                   w2 = save_deposit dep w1;
                   w3 = snd (record_synthetic_ledger (u_id user_row) (dep_currency_id dep)
                          before_trust after_trust
                          (deposit_event ''deposit.trust_credit'' dep (credit_meta dep reported)) w2)
               in notify_credit now dep currency credit_amount w3)"

definition credit_wallet ::
  "int \<Rightarrow> wallet_deposit \<Rightarrow> currency option \<Rightarrow> decimal \<Rightarrow> decimal option \<Rightarrow> world
     \<Rightarrow> wallet_deposit result" where
  "credit_wallet now deposit currency credit_amount reported w =
     (case lock_user_balance (dep_user_id deposit) (dep_currency_id deposit) w of
        Inl e \<Rightarrow> (Inl e, w)
      | Inr (bal, w1) \<Rightarrow>
          let dep0 = refresh_deposit deposit w1 in
          if dep_status dep0 = DS_paid then (Inr dep0, w)
          else let bal' = bal \<lparr> b_amount := b_amount bal + credit_amount \<rparr>;
                   dep = paid_deposit now credit_amount reported dep0;
                   w2 = save_deposit dep (save_balance bal' w1);
                   w3 = ledgered bal' (b_amount bal) (b_locked bal)
                          (deposit_event ''deposit.wallet_credit'' dep (credit_meta dep reported)) w2
               in notify_credit now dep currency credit_amount w3)"

definition credit_deposit ::
  "int \<Rightarrow> settings \<Rightarrow> provider_api \<Rightarrow> wallet_deposit \<Rightarrow> pydecimal option \<Rightarrow> world
     \<Rightarrow> wallet_deposit result" where
  "credit_deposit now cfg api deposit paid_amount w =
     (if dep_status deposit = DS_paid then (Inr deposit, w)
      else let currency = get_currency (dep_currency_id deposit) w;
               decimals = (case currency of None \<Rightarrow> 8 | Some c \<Rightarrow> c_decimals c);
               nominal = quantize_money (dep_amount deposit) decimals in
      case reported_amount paid_amount decimals of Inl e \<Rightarrow> (Inl e, w) | Inr reported \<Rightarrow>
      let credit_amount = (case reported of None \<Rightarrow> nominal | Some r \<Rightarrow> max nominal r) in
      case dep_purpose deposit of
        P_deal_topup \<Rightarrow> complete_deal_topup_payment now cfg api deposit (finite_amount paid_amount) w
      | P_trust \<Rightarrow> credit_trust now deposit currency credit_amount reported w
      | P_wallet \<Rightarrow> credit_wallet now deposit currency credit_amount reported w)"

section \<open>Expiry\<close>

definition build_expired_notification ::
  "int \<Rightarrow> wallet_deposit \<Rightarrow> world \<Rightarrow> (notification \<times> payload option) list \<times> world" where
  "build_expired_notification now dep w =
     (case get_currency (dep_currency_id dep) w of
        None \<Rightarrow> ([], w)
      | Some cur \<Rightarrow>
          (case notifier_insert now (dep_user_id dep) NT_deposits
                  (N_deposit_expired (dep_amount dep) (c_code cur))
                  (Some [(''deposit_id'', JInt (dep_id dep)), (''currency'', JStr (c_code cur))]) w
           of (n, w') \<Rightarrow> ([n], w')))"

text \<open>Flip the row to \<open>expired\<close>, with its notification, in one transaction.\<close>

definition expire_deposit ::
  "int \<Rightarrow> wallet_deposit \<Rightarrow> world \<Rightarrow> ((notification \<times> payload option) list \<times> wallet_deposit) \<times> world" where
  "expire_deposit now deposit w =
     (let dep = deposit \<lparr> dep_status := DS_expired \<rparr> in
      case build_expired_notification now dep (save_deposit dep w) of (ns, w') \<Rightarrow> ((ns, dep), w'))"

fun expire_deposits ::
  "int \<Rightarrow> wallet_deposit list \<Rightarrow> world \<Rightarrow> (notification \<times> payload option) list \<times> world" where
  "expire_deposits now [] w = ([], w)"
| "expire_deposits now (d # ds) w =
     (case expire_deposit now d w of ((ns, _), w1) \<Rightarrow>
      case expire_deposits now ds w1 of (ns', w2) \<Rightarrow> (ns @ ns', w2))"

definition sweep_expired_deposits :: "int \<Rightarrow> settings \<Rightarrow> (int \<Rightarrow> bool) \<Rightarrow> world \<Rightarrow> nat result" where
  "sweep_expired_deposits now cfg skip_locked w =
     (let expiry_seconds = cfg_wallet_deposit_expiry_seconds cfg in
      if expiry_seconds \<le> 0 then (Inr 0, w)
      else let cutoff = now - expiry_seconds;
               rows = filter (\<lambda>d. dep_status d = DS_pending \<and> dep_created_at d \<le> cutoff
                                   \<and> \<not> skip_locked (dep_id d)) (t_deposits w) in
      if rows = [] then (Inr 0, w)
      else case expire_deposits now rows w of
             (pending, w') \<Rightarrow> (Inr (length rows), safe_dispatch pending w'))"

section \<open>Polling\<close>

text \<open>Both re-read the row under its lock (\<open>populate_existing\<close>) and act only on a pending one.\<close>

definition lock_and_credit_deposit ::
  "int \<Rightarrow> settings \<Rightarrow> provider_api \<Rightarrow> wallet_deposit \<Rightarrow> world \<Rightarrow> wallet_deposit result" where
  "lock_and_credit_deposit now cfg api deposit w =
     (case get_deposit (dep_id deposit) w of
        None \<Rightarrow> (Inl NoResultFound, w)
      | Some locked \<Rightarrow>
          if dep_status locked \<noteq> DS_pending then (Inr locked, w)
          else credit_deposit now cfg api locked None w)"

definition lock_and_expire_deposit ::
  "int \<Rightarrow> wallet_deposit \<Rightarrow> world \<Rightarrow> wallet_deposit result" where
  "lock_and_expire_deposit now deposit w =
     (case get_deposit (dep_id deposit) w of
        None \<Rightarrow> (Inl NoResultFound, w)
      | Some locked \<Rightarrow>
          if dep_status locked \<noteq> DS_pending then (Inr locked, w)
          else case expire_deposit now locked w of
                 ((ns, dep), w') \<Rightarrow> (Inr dep, safe_dispatch ns w'))"

definition poll_cryptobot_deposit ::
  "int \<Rightarrow> settings \<Rightarrow> provider_api \<Rightarrow> wallet_deposit \<Rightarrow> world \<Rightarrow> wallet_deposit result" where
  "poll_cryptobot_deposit now cfg api deposit w =
     (if cfg_cryptobot_token cfg = [] then (Inr deposit, w)
      else case cp_get_invoices api (dep_provider_invoice_id deposit) of
        None \<Rightarrow> (Inr deposit, w)
      | Some [] \<Rightarrow> (Inr deposit, w)
      | Some (row # _) \<Rightarrow>
          if inv_status row = ''paid'' then lock_and_credit_deposit now cfg api deposit w
          else if inv_status row = ''expired'' then lock_and_expire_deposit now deposit w
          else (Inr deposit, w))"

definition poll_crystalpay_deposit ::
  "int \<Rightarrow> settings \<Rightarrow> provider_api \<Rightarrow> wallet_deposit \<Rightarrow> world \<Rightarrow> wallet_deposit result" where
  "poll_crystalpay_deposit now cfg api deposit w =
     (if cfg_crystalpay_login cfg = [] \<or> cfg_crystalpay_secret cfg = [] then (Inr deposit, w)
      else case yp_get_invoice api (dep_provider_invoice_id deposit) of
        None \<Rightarrow> (Inr deposit, w)
      | Some invoice \<Rightarrow>
          if ci_state invoice = INVOICE_STATE_PAID
          then lock_and_credit_deposit now cfg api deposit w
          else if ci_state invoice \<in> {INVOICE_STATE_UNAVAILABLE, INVOICE_STATE_FAILED}
          then lock_and_expire_deposit now deposit w
          else (Inr deposit, w))"

definition poll_deposit_status ::
  "int \<Rightarrow> settings \<Rightarrow> provider_api \<Rightarrow> wallet_deposit \<Rightarrow> world \<Rightarrow> wallet_deposit result" where
  "poll_deposit_status now cfg api deposit w =
     (if dep_status deposit \<noteq> DS_pending then (Inr deposit, w)
      else case dep_provider deposit of
        crystalpay \<Rightarrow> poll_crystalpay_deposit now cfg api deposit w
      | cryptobot \<Rightarrow> poll_cryptobot_deposit now cfg api deposit w)"

end
