(* ===== verification/Payments.thy ===== *)
theory Payments
  imports Deposits
begin

text \<open>
  \<open>backend/app/services_payments.py\<close>: what a verified webhook delivery does to the deposit
  it names.
\<close>

section \<open>Payloads\<close>

text \<open>\<open>payload["amount"]\<close>: absent, not a number, or what \<open>Decimal(str(x))\<close> makes of it.\<close>

datatype reported = RMissing | RUnparseable | RDecimal pydecimal

record webhook_payload =
  wp_status :: "string option"
  wp_invoice_id :: "string option"
  wp_id :: "string option"
  wp_state :: "string option"
  wp_amount :: reported

section \<open>Lookup and amounts\<close>

definition find_wallet_deposit :: "string \<Rightarrow> WalletDepositProvider \<Rightarrow> world \<Rightarrow> wallet_deposit option" where
  "find_wallet_deposit provider_invoice_id provider w =
     List.find (\<lambda>d. dep_provider d = provider \<and> dep_provider_invoice_id d = provider_invoice_id)
       (t_deposits w)"

definition AMOUNT_MISMATCH_TOLERANCE :: decimal where
  "AMOUNT_MISMATCH_TOLERANCE = 1 / 10 ^ 8"

definition parse_paid_amount :: "reported \<Rightarrow> pydecimal option" where
  "parse_paid_amount r =
     (case r of RMissing \<Rightarrow> None | RUnparseable \<Rightarrow> None | RDecimal d \<Rightarrow> Some d)"

text \<open>Ordering a NaN raises \<open>InvalidOperation\<close>: the \<open>try\<close> covers the parsing only.\<close>

definition amounts_match :: "reported \<Rightarrow> decimal \<Rightarrow> py_error + bool" where
  "amounts_match r expected =
     (case r of
        RMissing \<Rightarrow> Inr False
      | RUnparseable \<Rightarrow> Inr False
      | RDecimal (Finite x) \<Rightarrow> Inr (expected - AMOUNT_MISMATCH_TOLERANCE \<le> x)
      | RDecimal PosInfinity \<Rightarrow> Inr True
      | RDecimal NegInfinity \<Rightarrow> Inr False
      | RDecimal NotANumber \<Rightarrow> Inl InvalidOperation)"

section \<open>CryptoBot\<close>

text \<open>The amount check and the credit, common to the two providers' paid branches.\<close>

definition check_and_credit ::
  "int \<Rightarrow> settings \<Rightarrow> provider_api \<Rightarrow> wallet_deposit \<Rightarrow> reported \<Rightarrow> world
     \<Rightarrow> webhook_result result" where
  "check_and_credit now cfg api wallet r w =
     (case (if dep_purpose wallet \<noteq> P_deal_topup then amounts_match r (dep_amount wallet)
            else Inr True) of
        Inl e \<Rightarrow> (Inl e, w)
      | Inr ok \<Rightarrow>
          if \<not> ok then (Inr WR_amount_mismatch, w)
          else (case credit_deposit now cfg api wallet (parse_paid_amount r) w of
                  (Inl e, w') \<Rightarrow> (Inl e, w')
                | (Inr _, w') \<Rightarrow> (Inr (WR_credited (dep_purpose wallet)), w')))"

definition handle_invoice_paid ::
  "int \<Rightarrow> settings \<Rightarrow> provider_api \<Rightarrow> webhook_payload \<Rightarrow> world \<Rightarrow> webhook_result result" where
  "handle_invoice_paid now cfg api payload w =
     (if wp_status payload \<noteq> Some ''paid'' then (Inr WR_status_not_paid, w)
      else case wp_invoice_id payload of
        None \<Rightarrow> (Inr WR_missing_invoice_id, w)
      | Some provider_id \<Rightarrow>
      case find_wallet_deposit provider_id cryptobot w of
        None \<Rightarrow> (Inr WR_unknown_invoice, w)
      | Some wallet \<Rightarrow>
          if dep_status wallet = DS_paid then (Inr WR_already_paid, w)
          else check_and_credit now cfg api wallet (wp_amount payload) w)"

text \<open>Terminal states are sticky; a pending row expires, with its notification.\<close>

definition expire_by_webhook :: "int \<Rightarrow> wallet_deposit \<Rightarrow> world \<Rightarrow> webhook_result result" where
  "expire_by_webhook now wallet w =
     (if dep_status wallet \<in> {DS_paid, DS_expired, DS_refunded} then (Inr WR_already_terminal, w)
      else case expire_deposit now wallet w of
             ((ns, _), w') \<Rightarrow> (Inr WR_expired, safe_dispatch ns w'))"

definition handle_invoice_expired :: "int \<Rightarrow> webhook_payload \<Rightarrow> world \<Rightarrow> webhook_result result" where
  "handle_invoice_expired now payload w =
     (case wp_invoice_id payload of
        None \<Rightarrow> (Inr WR_missing_invoice_id, w)
      | Some provider_id \<Rightarrow>
      case find_wallet_deposit provider_id cryptobot w of
        None \<Rightarrow> (Inr WR_unknown_invoice, w)
      | Some wallet \<Rightarrow> expire_by_webhook now wallet w)"

section \<open>Crystalpay\<close>

definition crystalpay_provider_id :: "webhook_payload \<Rightarrow> string option" where
  "crystalpay_provider_id payload =
     (case wp_id payload of
        Some i \<Rightarrow> if i = [] then wp_invoice_id payload else Some i
      | None \<Rightarrow> wp_invoice_id payload)"

definition handle_crystalpay_invoice ::
  "int \<Rightarrow> settings \<Rightarrow> provider_api \<Rightarrow> webhook_payload \<Rightarrow> world \<Rightarrow> webhook_result result" where
  "handle_crystalpay_invoice now cfg api payload w =
     (case crystalpay_provider_id payload of
        None \<Rightarrow> (Inr WR_missing_invoice_id, w)
      | Some provider_id \<Rightarrow>
      let state = map to_lower (case wp_state payload of None \<Rightarrow> [] | Some s \<Rightarrow> s) in
      case find_wallet_deposit provider_id crystalpay w of
        None \<Rightarrow> (Inr WR_unknown_invoice, w)
      | Some wallet \<Rightarrow>
          if state = INVOICE_STATE_PAID then
            (if dep_status wallet = DS_paid then (Inr WR_already_paid, w)
             else if dep_status wallet \<in> {DS_expired, DS_refunded}
             then (Inr WR_deposit_not_pending, w)
             else check_and_credit now cfg api wallet (wp_amount payload) w)
          else if state \<in> {INVOICE_STATE_UNAVAILABLE, INVOICE_STATE_FAILED}
          then expire_by_webhook now wallet w
          else (Inr (WR_ignored_state (if state = [] then ''unknown'' else state)), w))"

end
