(* ===== verification/Crediting.thy ===== *)
theory Crediting
  imports Payments
begin

text \<open>
  What the deposit and webhook code promises: a deposit is credited once, under the lock of its
  row; sweeps and polls leave settled rows alone; a delivery credits only what it pays for.
\<close>

section \<open>Crediting a wallet deposit\<close>

text \<open>A deposit of the database, and the object the caller holds: only its status may be stale.\<close>

definition deposit_in :: "wallet_deposit \<Rightarrow> wallet_deposit \<Rightarrow> world \<Rightarrow> bool" where
  "deposit_in dep row w \<longleftrightarrow> get_deposit (dep_id dep) w = Some row
     \<and> row = dep \<lparr> dep_status := dep_status row, dep_paid_at := dep_paid_at row \<rparr>"

lemma deposit_inD:
  assumes "deposit_in dep row w"
  shows "get_deposit (dep_id dep) w = Some row" "dep_id row = dep_id dep" "dep_amount row = dep_amount dep"
    "dep_user_id row = dep_user_id dep" "dep_currency_id row = dep_currency_id dep"
    "dep_purpose row = dep_purpose dep" "refresh_deposit dep w = row"
proof -
  show g: "get_deposit (dep_id dep) w = Some row" using assms by (simp add: deposit_in_def)
  obtain s p where row: "row = dep \<lparr> dep_status := s, dep_paid_at := p \<rparr>"
    using assms unfolding deposit_in_def by blast
  show "dep_id row = dep_id dep" "dep_amount row = dep_amount dep"
    "dep_user_id row = dep_user_id dep" "dep_currency_id row = dep_currency_id dep"
    "dep_purpose row = dep_purpose dep" by (simp_all add: row)
  show "refresh_deposit dep w = row" unfolding refresh_deposit_def g by (simp add: row)
qed

lemma deposit_in_row: "get_deposit i w = Some row \<Longrightarrow> deposit_in row row w"
  unfolding deposit_in_def get_deposit_def by (frule tget_Some) simp

lemma refresh_cong: "t_deposits w' = t_deposits w \<Longrightarrow> refresh_deposit dep w' = refresh_deposit dep w"
  by (simp add: refresh_deposit_def get_deposit_def)

lemma notify_credit_effect:
  "\<exists>w'. notify_credit now dep cur x w = (Inr dep, w') \<and> same_books w' w \<and> t_users w' = t_users w"
  by (auto simp: notify_credit_def same_books_def case_prod_beta split: option.splits)

text \<open>What a credit amounts to: the larger of the nominal and the reported amount.\<close>

definition credit_due :: "wallet_deposit \<Rightarrow> decimal option \<Rightarrow> currency \<Rightarrow> decimal" where
  "credit_due dep reported cur =
     (let nominal = quantize_money (dep_amount dep) (c_decimals cur)
      in case reported of None \<Rightarrow> nominal | Some r \<Rightarrow> max nominal (quantize_money r (c_decimals cur)))"

lemma max_grid: "on_grid d x \<Longrightarrow> on_grid d y \<Longrightarrow> on_grid d (max x y)"
  by (auto simp: max_def)

lemma credit_due_ok:
  assumes "books_ok w" and "deposit_in dep row w" and "get_currency (dep_currency_id dep) w = Some cur"
  shows "0 \<le> credit_due dep r cur" "storable (credit_due dep r cur)"
proof -
  have d: "deposits_ok w" "currencies_ok w" using assms(1) by (auto simp: books_ok_def)
  note D = deposit_inD [OF assms(2)]
  have a: "0 \<le> dep_amount dep" using get_deposit_ok [OF d(1) D(1)] D(3) by simp
  have "cur \<in> set (t_currencies w)" using assms(3) unfolding get_currency_def by (auto dest: tget_Some)
  then have k: "c_decimals cur \<le> MONEY_SCALE" using d(2) by (auto simp: currencies_ok_def list_all_iff)
  show "0 \<le> credit_due dep r cur"
    using quantize_nonneg [OF a, of "c_decimals cur"]
    by (auto simp: credit_due_def Let_def intro: max.coboundedI1 split: option.splits)
  show "storable (credit_due dep r cur)"
    using storable_quantize [OF k] by (simp add: credit_due_def Let_def max_def split: option.splits)
qed

lemma credit_wallet_effect:
  assumes run: "credit_wallet now dep cur x rep w = (r, w')" and ok: "books_ok w"
    and d: "deposit_in dep row w" and st: "dep_status row \<noteq> DS_paid" and x: "0 \<le> x" "storable x"
  shows "r = Inr (paid_deposit now x rep row) \<and> books_ok w' \<and> audited w w'
    \<and> accounts w' = a_credit (dep_user_id dep) (dep_currency_id dep) x (accounts w)
    \<and> total c w' = total c w + (if c = dep_currency_id dep then x else 0)
    \<and> get_deposit (dep_id dep) w' = Some (deposit_row (paid_deposit now x rep row))
    \<and> t_deals w' = t_deals w \<and> t_users w' = t_users w"
proof -
  have oks: "balances_ok w" "deposits_ok w" using ok by (auto simp: books_ok_def)
  note D = deposit_inD [OF d]
  obtain bal w1 where lock: "lock_user_balance (dep_user_id dep) (dep_currency_id dep) w = Inr (bal, w1)"
    using lock_user_balance_total by blast
  note f = lock_user_balance_frame [OF lock]
  let ?b = "bal \<lparr> b_amount := b_amount bal + x \<rparr>"
  let ?dep = "paid_deposit now x rep row"
  let ?ev = "deposit_event ''deposit.wallet_credit'' ?dep (credit_meta ?dep rep)"
  define w2 where "w2 = save_deposit ?dep (save_balance ?b w1)"
  define w3 where "w3 = ledgered ?b (b_amount bal) (b_locked bal) ?ev w2"
  have ref: "refresh_deposit dep w1 = row" using refresh_cong [of w1 w dep] f D(7) by simp
  obtain w4 where n: "notify_credit now ?dep cur x w3 = (Inr ?dep, w4)" "same_books w4 w3" "t_users w4 = t_users w3"
    using notify_credit_effect by blast
  have r: "r = Inr ?dep" "w' = w4"
    using run lock ref st n(1) by (simp_all add: credit_wallet_def Let_def w2_def w3_def)
  have b2: "t_balances w2 = t_balances (save_balance ?b w1)" and b3: "t_balances w3 = t_balances (save_balance ?b w1)"
    by (simp_all add: w2_def w3_def)
  note c = credited_row [OF lock oks(1) x b3]
  have aud: "audited w w3"
    unfolding w3_def by (rule credited_row(4) [OF lock oks(1) x b3 _ b2]) (simp add: w2_def f)
  have drow: "get_deposit (dep_id (deposit_row ?dep)) w = Some row"
    using D by (simp add: paid_deposit_def mark_deposit_paid_def)
  have "0 \<le> dep_amount (deposit_row ?dep)" "storable (dep_amount (deposit_row ?dep))"
    using x by (simp_all add: paid_deposit_def mark_deposit_paid_def)
  note du = deposits_update [OF oks(2) drow _ _ this, of w3]
  have du': "deposits_ok w3" "get_deposit (dep_id dep) w3 = Some (deposit_row ?dep)"
    using du(1,2) D(2) by (simp_all add: w3_def w2_def f paid_deposit_def mark_deposit_paid_def)
  have b: "books_ok w3"
    by (rule books_quiet [OF ok c(2) du'(1) held_credit_at [OF c(1)]]) (simp_all add: w3_def w2_def f)
  have same: "t_deals w3 = t_deals w" "t_users w3 = t_users w" by (simp_all add: w3_def w2_def f)
  have g: "get_deposit (dep_id dep) w4 = get_deposit (dep_id dep) w3" "t_deals w4 = t_deals w3"
    using n(2) by (simp_all add: same_books_def get_deposit_def)
  show ?thesis
    using same_booksD [OF n(2)] r b c(1) c(3) [of c] du'(2) audited_trans [OF aud] same n(3) g by auto
qed

lemma credit_deposit_unfold:
  assumes "get_currency (dep_currency_id dep) w = Some cur" and "dep_status dep \<noteq> DS_paid"
    and "dep_purpose dep = P_wallet"
  shows "credit_deposit now cfg api dep (map_option Finite reported) w =
     credit_wallet now dep (Some cur) (credit_due dep reported cur)
       (map_option (\<lambda>r. quantize_money r (c_decimals cur)) reported) w"
  using assms by (simp add: credit_deposit_def Let_def reported_amount_def credit_due_def split: option.splits)

text \<open>
  C7. A wallet deposit is credited once: the larger of the nominal and the reported amount
  reaches the free money of its user and nobody else's, the row says paid, the ledger explains
  it and the books balance. A row that is paid already, also when the object at hand is stale,
  stays as it is, and so does everything when the credit is asked for again.
\<close>

theorem credit_deposit_credits_once:
  assumes "books_ok w" and "deposit_in dep row w" and "dep_purpose dep = P_wallet"
    and "get_currency (dep_currency_id dep) w = Some cur"
  shows "\<exists>dep' w'. credit_deposit now cfg api dep (map_option Finite reported) w = (Inr dep', w')
    \<and> books_ok w' \<and> audited w w'
    \<and> (if dep_status dep = DS_paid \<or> dep_status row = DS_paid then w' = w
       else dep_status dep' = DS_paid \<and> dep_amount dep' = credit_due dep reported cur
         \<and> get_deposit (dep_id dep) w' = Some (deposit_row dep')
         \<and> accounts w' = a_credit (dep_user_id dep) (dep_currency_id dep) (credit_due dep reported cur) (accounts w)
         \<and> total c w' = total c w + (if c = dep_currency_id dep then credit_due dep reported cur else 0))
    \<and> credit_deposit later cfg api dep' again w' = (Inr dep', w')"
proof (cases "dep_status dep = DS_paid \<or> dep_status row = DS_paid")
  case True
  have "dep_status dep \<noteq> DS_paid \<Longrightarrow> credit_wallet now dep (Some cur) (credit_due dep reported cur)
       (map_option (\<lambda>r. quantize_money r (c_decimals cur)) reported) w = (Inr row, w)"
  proof -
    assume "dep_status dep \<noteq> DS_paid"
    obtain bal w1 where lock: "lock_user_balance (dep_user_id dep) (dep_currency_id dep) w = Inr (bal, w1)"
      using lock_user_balance_total by blast
    have "refresh_deposit dep w1 = row"
      using refresh_cong [of w1 w dep] lock_user_balance_frame [OF lock] deposit_inD(7) [OF assms(2)] by simp
    then show ?thesis using lock True \<open>dep_status dep \<noteq> DS_paid\<close> by (simp add: credit_wallet_def Let_def)
  qed
  then have "credit_deposit now cfg api dep (map_option Finite reported) w
      = (Inr (if dep_status dep = DS_paid then dep else row), w)"
    using credit_deposit_unfold [OF assms(4) _ assms(3)] by (simp add: credit_deposit_def)
  then show ?thesis using True assms(1) by (auto simp: credit_deposit_def)
next
  case False
  then have st: "dep_status dep \<noteq> DS_paid" "dep_status row \<noteq> DS_paid" by simp_all
  let ?rep = "map_option (\<lambda>r. quantize_money r (c_decimals cur)) reported"
  obtain r w' where run: "credit_wallet now dep (Some cur) (credit_due dep reported cur) ?rep w = (r, w')"
    by fastforce
  note e = credit_wallet_effect [OF run assms(1,2) st(2) credit_due_ok [OF assms(1,2,4)], of c]
  have p: "dep_status (paid_deposit now x rp row) = DS_paid" "dep_amount (paid_deposit now x rp row) = x" for x rp
    by (simp_all add: paid_deposit_def mark_deposit_paid_def)
  have "credit_deposit now cfg api dep (map_option Finite reported) w = (r, w')"
    using credit_deposit_unfold [OF assms(4) st(1) assms(3)] run by simp
  then show ?thesis
    using e p False by (intro exI conjI) (auto simp: credit_deposit_def)
qed

lemma credit_deposit_credits_once_witness:
  "\<exists>dep' w'. credit_deposit 9 sample_cfg sample_api (sample_deposit 13 DS_pending P_wallet None 20)
       (Some (Finite (205 / 10))) sample_world = (Inr dep', w')
     \<and> accounts w' 1 7 = (241 / 2, 81)
     \<and> credit_deposit 10 sample_cfg sample_api dep' (Some (Finite 20)) w' = (Inr dep', w')"
proof -
  let ?d = "sample_deposit 13 DS_pending P_wallet None 20"
  have in13: "deposit_in ?d ?d sample_world" by (rule deposit_in_row [of 13]) simp
  have "credit_due ?d (Some (205 / 10)) usdt = 41 / 2"
    by (simp add: credit_due_def quantize_money_def round_half_even_def)
  then show ?thesis
    using credit_deposit_credits_once [OF sample_books_ok in13, where cur = usdt and reported = "Some (205 / 10)"
        and c = 7 and now = 9 and cfg = sample_cfg and api = sample_api and later = 10 and again = "Some (Finite 20)"]
    by (auto simp: a_defs)
qed


section \<open>Trust deposits\<close>

lemma get_user_save:
  "get_user (u_id u) w = Some u0 \<Longrightarrow> storable (u_trust_deposit_balance u) \<Longrightarrow>
     get_user i (save_user u w) = (if i = u_id u then Some u else get_user i w)"
  
  by (auto simp: get_user_def save_user_def tget_tput dest!: tget_Some) (metis imageI)

lemma save_user_frame [simp, frame]:
  "t_currencies (save_user u w) = t_currencies w" "t_balances (save_user u w) = t_balances w"
  "t_deals (save_user u w) = t_deals w" "t_deposits (save_user u w) = t_deposits w"
  "t_withdrawals (save_user u w) = t_withdrawals w" "t_ledger (save_user u w) = t_ledger w"
  "t_app_settings (save_user u w) = t_app_settings w" "seq_deals (save_user u w) = seq_deals w"
  "seq_deposits (save_user u w) = seq_deposits w" "seq_withdrawals (save_user u w) = seq_withdrawals w"
  by (simp_all add: save_user_def)

text \<open>
  A trust deposit raises its user's trust balance by what is due and touches no wallet
  balance and no other user.
\<close>

theorem trust_deposit_raises_trust_only:
  assumes "books_ok w" and "deposit_in dep row w" and "dep_purpose dep = P_trust"
    and "get_currency (dep_currency_id dep) w = Some cur" and "dep_status dep \<noteq> DS_paid"
    and "get_user (dep_user_id dep) w = Some u" and "storable (u_trust_deposit_balance u)"
  shows "\<exists>dep' w'. credit_deposit now cfg api dep (map_option Finite reported) w = (Inr dep', w')
    \<and> (if dep_status row = DS_paid then w' = w
       else dep_status dep' = DS_paid \<and> get_deposit (dep_id dep) w' = Some (deposit_row dep')
         \<and> get_user i w' = (if i = dep_user_id dep
              then Some (u \<lparr> u_trust_deposit_balance := u_trust_deposit_balance u + credit_due dep reported cur \<rparr>)
              else get_user i w))
    \<and> t_balances w' = t_balances w \<and> books_ok w'"
proof -
  let ?x = "credit_due dep reported cur" and ?rep = "map_option (\<lambda>r. quantize_money r (c_decimals cur)) reported"
  note D = deposit_inD [OF assms(2)] and x = credit_due_ok [OF assms(1,2,4), of reported]
  have run: "credit_deposit now cfg api dep (map_option Finite reported) w = credit_trust now dep (Some cur) ?x ?rep w"
    using assms(3-5) by (simp add: credit_deposit_def Let_def reported_amount_def credit_due_def split: option.splits)
  show ?thesis
  proof (cases "dep_status row = DS_paid")
    case True
    then have "credit_trust now dep (Some cur) ?x ?rep w = (Inr row, w)"
      using assms(6) D(7) by (simp add: credit_trust_def Let_def)
    then show ?thesis using run True assms(1) by simp
  next
    case False
    let ?u = "u \<lparr> u_trust_deposit_balance := u_trust_deposit_balance u + ?x \<rparr>"
    let ?dep = "paid_deposit now ?x ?rep row"
    define w2 where "w2 = save_deposit ?dep (save_user ?u w)"
    define w3 where "w3 = snd (record_synthetic_ledger (u_id u) (dep_currency_id ?dep)
        (u_trust_deposit_balance u) (u_trust_deposit_balance u + ?x)
        (deposit_event ''deposit.trust_credit'' ?dep (credit_meta ?dep ?rep)) w2)"
    obtain w4 where n: "notify_credit now ?dep (Some cur) ?x w3 = (Inr ?dep, w4)" "same_books w4 w3" "t_users w4 = t_users w3"
      using notify_credit_effect by blast
    have r: "credit_deposit now cfg api dep (map_option Finite reported) w = (Inr ?dep, w4)"
      using run assms(6) False D(7) n(1) by (simp add: credit_trust_def Let_def w2_def w3_def)
    have "u_id u = dep_user_id dep" using assms(6) by (auto simp: get_user_def dest: tget_Some)
    moreover have "storable (u_trust_deposit_balance u + ?x)" using assms(7) x by (simp add: grid)
    moreover have "t_users w3 = t_users (save_user ?u w)" by (simp add: w3_def w2_def save_deposit_def)
    ultimately have user: "get_user i w4 = (if i = dep_user_id dep then Some ?u else get_user i w)"
      using get_user_save [of ?u w u i] assms(6) n(3) by (simp add: get_user_def)
    have dok: "deposits_ok w" using assms(1) by (simp add: books_ok_def)
    have drow: "get_deposit (dep_id (deposit_row ?dep)) w = Some row"
      using D by (simp add: paid_deposit_def mark_deposit_paid_def)
    have "0 \<le> dep_amount (deposit_row ?dep)" "storable (dep_amount (deposit_row ?dep))"
      using x by (simp_all add: paid_deposit_def mark_deposit_paid_def)
    note du = deposits_update [OF dok drow _ _ this, of w3]
    have du': "deposits_ok w3" "get_deposit (dep_id dep) w3 = Some (deposit_row ?dep)"
      using du(1,2) D(2) by (simp_all add: w3_def w2_def paid_deposit_def mark_deposit_paid_def)
    have bal: "t_balances w3 = t_balances w" by (simp add: w3_def w2_def)
    have "balances_ok w3" using balances_ok_cong [OF bal] assms(1) by (simp add: books_ok_def)
    then have "books_ok w3"
      using accounts_cong [OF bal] by (intro books_quiet [OF assms(1) _ du'(1)]) (simp_all add: w3_def w2_def)
    moreover have "get_deposit (dep_id dep) w4 = get_deposit (dep_id dep) w3" "t_balances w4 = t_balances w3"
      using n(2) by (simp_all add: same_books_def get_deposit_def)
    ultimately show ?thesis
      using r user du'(2) bal False same_booksD(4) [OF n(2)]
      by (simp add: paid_deposit_def mark_deposit_paid_def)
  qed
qed

section \<open>Expiry\<close>

definition expired_row :: "wallet_deposit \<Rightarrow> wallet_deposit" where
  "expired_row dep = deposit_row (dep \<lparr> dep_status := DS_expired \<rparr>)"

lemma expire_deposit_effect:
  assumes run: "expire_deposit now dep w = (r, w')" and ok: "books_ok w"
    and get: "get_deposit (dep_id dep) w = Some dep"
  shows "books_ok w' \<and> t_balances w' = t_balances w \<and> t_ledger w' = t_ledger w \<and> t_deals w' = t_deals w
    \<and> (\<forall>i. get_deposit i w' = (if i = dep_id dep then Some (expired_row dep) else get_deposit i w))"
proof -
  let ?d = "dep \<lparr> dep_status := DS_expired \<rparr>"
  have s: "same_books w' (save_deposit ?d w)"
    using run by (auto simp: expire_deposit_def build_expired_notification_def Let_def case_prod_beta same_books_def
        split: option.splits)
  have oks: "balances_ok w" "deposits_ok w" using ok by (auto simp: books_ok_def)
  have row: "get_deposit (dep_id (deposit_row ?d)) w = Some dep" using get by simp
  have "0 \<le> dep_amount (deposit_row ?d)" "storable (dep_amount (deposit_row ?d))"
    using get_deposit_ok [OF oks(2) get] by simp_all
  note du = deposits_update [OF oks(2) row _ _ this, of "save_deposit ?d w"]
  have "books_ok (save_deposit ?d w)"
    using balances_ok_cong [of "save_deposit ?d w" w] accounts_cong [of "save_deposit ?d w" w] oks du(1)
    by (intro books_quiet [OF ok]) simp_all
  then have "books_ok w'" using same_booksD(4) [OF s] by simp
  moreover have "get_deposit i w' = (if i = dep_id dep then Some (expired_row dep) else get_deposit i w)" for i
    using s du(2) du(3) [of i] by (auto simp: same_books_def get_deposit_def expired_row_def)
  ultimately show ?thesis using s by (simp add: same_books_def)
qed

lemma expire_deposits_effect:
  assumes "expire_deposits now ds w = (ns, w')" and "books_ok w" and "distinct (map dep_id ds)"
    and "\<And>d. d \<in> set ds \<Longrightarrow> get_deposit (dep_id d) w = Some d"
  shows "books_ok w' \<and> t_balances w' = t_balances w \<and> t_ledger w' = t_ledger w \<and> t_deals w' = t_deals w
    \<and> (\<forall>i. i \<notin> dep_id ` set ds \<longrightarrow> get_deposit i w' = get_deposit i w)
    \<and> (\<forall>d \<in> set ds. get_deposit (dep_id d) w' = Some (expired_row d))"
  using assms
proof (induction ds arbitrary: w ns)
  case Nil
  then show ?case by simp
next
  case (Cons d ds)
  obtain r w1 ns2 where row: "expire_deposit now d w = (r, w1)" and rest: "expire_deposits now ds w1 = (ns2, w')"
    using Cons.prems(1) by (auto simp: case_prod_beta prod_eq_iff)
  have get: "get_deposit (dep_id d) w = Some d" using Cons.prems(4) by simp
  note e = expire_deposit_effect [OF row Cons.prems(2) get]
  have fresh: "dep_id d \<notin> dep_id ` set ds" using Cons.prems(3) by auto
  have "get_deposit (dep_id x) w1 = Some x" if "x \<in> set ds" for x
    using e fresh that Cons.prems(4) [of x] by (auto simp: image_iff)
  from Cons.IH [OF rest _ _ this] Cons.prems(3) e have
    IH: "books_ok w' \<and> t_balances w' = t_balances w1 \<and> t_ledger w' = t_ledger w1 \<and> t_deals w' = t_deals w1
    \<and> (\<forall>i. i \<notin> dep_id ` set ds \<longrightarrow> get_deposit i w' = get_deposit i w1)
    \<and> (\<forall>d \<in> set ds. get_deposit (dep_id d) w' = Some (expired_row d))" by simp
  show ?case
  proof (intro conjI allI impI ballI)
    fix x assume "x \<in> set (d # ds)"
    then show "get_deposit (dep_id x) w' = Some (expired_row x)" using IH e fresh by auto
  qed (use IH e in auto)
qed

definition deposit_stale :: "int \<Rightarrow> settings \<Rightarrow> wallet_deposit \<Rightarrow> bool" where
  "deposit_stale now cfg dep \<longleftrightarrow> 0 < cfg_wallet_deposit_expiry_seconds cfg \<and> dep_status dep = DS_pending
     \<and> dep_created_at dep \<le> now - cfg_wallet_deposit_expiry_seconds cfg"

lemma expiry_sweep_effect:
  assumes "books_ok w"
  shows "\<exists>n w'. sweep_expired_deposits now cfg skip w = (Inr n, w') \<and> books_ok w'
    \<and> t_balances w' = t_balances w \<and> t_ledger w' = t_ledger w \<and> t_deals w' = t_deals w
    \<and> (\<forall>i. get_deposit i w' = map_option
          (\<lambda>d. if deposit_stale now cfg d \<and> \<not> skip (dep_id d) then expired_row d else d) (get_deposit i w))"
proof -
  let ?P = "\<lambda>d. deposit_stale now cfg d \<and> \<not> skip (dep_id d)"
  define rows where "rows = filter ?P (t_deposits w)"
  obtain ns w1 where run: "expire_deposits now rows w = (ns, w1)" by fastforce
  define w2 where "w2 = (if rows = [] then w else safe_dispatch ns w1)"
  have keys: "tkeys dep_id (t_deposits w)" using assms by (simp add: books_ok_def deposits_ok_def)
  have run': "sweep_expired_deposits now cfg skip w = (Inr (length rows), w2)"
  proof (cases "0 < cfg_wallet_deposit_expiry_seconds cfg")
    case True
    then have "filter (\<lambda>d. dep_status d = DS_pending \<and>
        dep_created_at d \<le> now - cfg_wallet_deposit_expiry_seconds cfg \<and> \<not> skip (dep_id d)) (t_deposits w) = rows"
      by (simp add: rows_def deposit_stale_def)
    with True show ?thesis using run
      by (simp add: sweep_expired_deposits_def Let_def case_prod_beta w2_def)
  next
    case False
    then have "rows = []" by (simp add: rows_def deposit_stale_def)
    then show ?thesis using False by (simp add: sweep_expired_deposits_def w2_def)
  qed
  have in_t: "get_deposit (dep_id d) w = Some d" if "d \<in> set rows" for d
    using that tget_in_set [OF keys] by (simp add: get_deposit_def rows_def)
  have "rows = [] \<Longrightarrow> w1 = w" using run by auto
  then have s: "same_books w2 w1" by (auto simp: same_books_def w2_def)
  have dist: "distinct (map dep_id rows)" unfolding rows_def by (rule tkeys_filter(1) [OF keys])
  note e = expire_deposits_effect [OF run assms dist, OF in_t]
  have rows: "get_deposit i w2 = map_option (\<lambda>d. if ?P d then expired_row d else d) (get_deposit i w)" for i
  proof (cases "get_deposit i w")
    case None
    then have "i \<notin> dep_id ` set rows" using in_t by auto
    then have "get_deposit i w1 = None" using e None by simp
    then show ?thesis using s None by (simp add: same_books_def get_deposit_def)
  next
    case (Some d)
    have d: "d \<in> set (t_deposits w)" "dep_id d = i" using Some unfolding get_deposit_def by (auto dest: tget_Some)
    have mem: "i \<in> dep_id ` set rows \<longleftrightarrow> ?P d" unfolding rows_def
      by (rule tkeys_filter(2) [OF keys]) (use Some in \<open>simp add: get_deposit_def\<close>)
    have "?P d \<Longrightarrow> d \<in> set rows" using d by (simp add: rows_def)
    then have "get_deposit i w1 = Some (if ?P d then expired_row d else d)" using e mem d Some by auto
    then show ?thesis using s Some by (simp add: same_books_def get_deposit_def)
  qed
  have "books_ok w2" "t_balances w2 = t_balances w" "t_ledger w2 = t_ledger w" "t_deals w2 = t_deals w"
    using e s same_booksD(4) [OF s] by (simp_all add: same_books_def)
  then show ?thesis using run' rows by blast
qed

text \<open>
  The expiry sweep never fails and expires exactly the pending deposits past their age that
  it can lock: paid, refunded and younger ones keep their rows, and no money moves.
\<close>

theorem expiry_sweep_spares_settled_deposits:
  assumes "books_ok w"
  shows "\<exists>n w'. sweep_expired_deposits now cfg skip w = (Inr n, w') \<and> books_ok w'
    \<and> t_balances w' = t_balances w \<and> t_ledger w' = t_ledger w \<and> t_deals w' = t_deals w
    \<and> (\<forall>i. get_deposit i w' = map_option
          (\<lambda>d. if deposit_stale now cfg d \<and> \<not> skip (dep_id d) then expired_row d else d) (get_deposit i w))"
  by (rule expiry_sweep_effect [OF assms])

text \<open>
  Polling acts on the row under its lock: when that is no longer pending, nothing changes,
  whatever the provider answers and however stale the caller's object is.
\<close>

theorem poll_leaves_settled_deposit:
  assumes "get_deposit (dep_id dep) w = Some row" and "dep_status row \<noteq> DS_pending"
  shows "\<exists>r. poll_deposit_status now cfg api dep w = (Inr r, w)"
  using assms
  by (auto simp: poll_deposit_status_def poll_cryptobot_deposit_def poll_crystalpay_deposit_def
      lock_and_credit_deposit_def lock_and_expire_deposit_def
      split: WalletDepositProvider.splits option.splits list.splits)


definition trust_world :: world where
  "trust_world = save_deposit (sample_deposit 13 DS_pending P_trust None 20) sample_world"

lemma trust_world_facts:
  "books_ok trust_world" "get_deposit 13 trust_world = Some (sample_deposit 13 DS_pending P_trust None 20)"
  "get_currency 7 trust_world = Some usdt" "get_user 1 trust_world = Some sample_buyer"
proof -
  let ?d = "sample_deposit 13 DS_pending P_trust None 20"
  have same: "deposit_row ?d = ?d" by (simp add: deposit_row_def sample_deposit_def)
  have row: "get_deposit (dep_id (deposit_row ?d)) sample_world = Some (sample_deposit 13 DS_pending P_wallet None 20)"
    by simp
  note du = deposits_update [OF sample_deposits_ok row, of trust_world]
  have d: "deposits_ok trust_world" and "get_deposit 13 trust_world = Some ?d"
    using du(1,2) same by (simp_all add: trust_world_def)
  then show "get_deposit 13 trust_world = Some ?d" by simp
  have bal: "t_balances trust_world = t_balances sample_world" by (simp add: trust_world_def)
  have "balances_ok trust_world" using balances_ok_cong [OF bal] by simp
  then show "books_ok trust_world"
    by (rule books_quiet [OF sample_books_ok _ d]) (simp_all only: accounts_cong [OF bal], simp_all add: trust_world_def)
  show "get_currency 7 trust_world = Some usdt" "get_user 1 trust_world = Some sample_buyer"
    using sample_get by (simp_all add: get_currency_def get_user_def trust_world_def save_deposit_def)
qed

lemma trust_deposit_raises_trust_only_witness:
  "\<exists>dep' w'. credit_deposit 9 sample_cfg sample_api (sample_deposit 13 DS_pending P_trust None 20) None
       trust_world = (Inr dep', w')
     \<and> map_option u_trust_deposit_balance (get_user 1 w') = Some 20 \<and> t_balances w' = t_balances trust_world"
proof -
  let ?d = "sample_deposit 13 DS_pending P_trust None 20"
  have in13: "deposit_in ?d ?d trust_world" by (rule deposit_in_row [OF trust_world_facts(2)])
  have "credit_due ?d None usdt = 20" "u_trust_deposit_balance sample_buyer = 0"
    by (simp_all add: credit_due_def sample_user_rows)
  then show ?thesis
    using trust_deposit_raises_trust_only [OF trust_world_facts(1) in13, where cur = usdt and reported = None
        and i = 1 and now = 9 and cfg = sample_cfg and api = sample_api and u = sample_buyer] trust_world_facts
    by auto
qed

lemma expiry_sweep_spares_settled_deposits_witness:
  "\<exists>n w'. sweep_expired_deposits 7200 sample_cfg (\<lambda>_. False) sample_world = (Inr n, w')
     \<and> map_option dep_status (get_deposit 13 w') = Some DS_expired
     \<and> get_deposit 14 w' = Some (sample_deposit 14 DS_paid P_wallet None 10)"
proof -
  have st: "deposit_stale 7200 sample_cfg (sample_deposit 13 DS_pending P_wallet None 20)"
    "\<not> deposit_stale 7200 sample_cfg (sample_deposit 14 DS_paid P_wallet None 10)"
    by (simp_all add: deposit_stale_def sample_cfg_def)
  obtain n w' where w: "sweep_expired_deposits 7200 sample_cfg (\<lambda>_. False) sample_world = (Inr n, w')"
    "\<forall>i. get_deposit i w' = map_option
        (\<lambda>d. if deposit_stale 7200 sample_cfg d \<and> \<not> False then expired_row d else d) (get_deposit i sample_world)"
    using expiry_sweep_spares_settled_deposits [OF sample_books_ok, where now = 7200 and cfg = sample_cfg
        and skip = "\<lambda>_. False"] by blast
  show ?thesis
    using w(1) spec [OF w(2), of 13] spec [OF w(2), of 14] st by (simp add: expired_row_def)
qed

lemma poll_leaves_settled_deposit_witness:
  "\<exists>r. poll_deposit_status 9 sample_cfg sample_api (sample_deposit 14 DS_pending P_wallet None 10) sample_world
     = (Inr r, sample_world)"
  by (rule poll_leaves_settled_deposit [where row = "sample_deposit 14 DS_paid P_wallet None 10"]) simp_all

section \<open>Deliveries\<close>

lemma credit_deposit_fails_clean:
  "credit_deposit now cfg api dep paid w = (Inl e, w') \<Longrightarrow> w' = w"
  by (auto simp: credit_deposit_def credit_trust_def credit_wallet_def complete_deal_topup_payment_def
      topup_late_credit_def notify_credit_def run_tx_def Let_def case_prod_beta
      split: if_splits sum.splits option.splits deposit_purpose.splits)

lemma credit_deposit_finite:
  "credit_deposit now cfg api dep (Some p) w = (Inr r, w') \<Longrightarrow> dep_status dep \<noteq> DS_paid \<Longrightarrow> \<exists>x. p = Finite x"
  by (cases p) (auto simp: credit_deposit_def reported_amount_def Let_def)

text \<open>What a verified report has to say before a deposit is credited.\<close>

definition pays :: "reported \<Rightarrow> wallet_deposit \<Rightarrow> bool" where
  "pays r dep = (dep_purpose dep = P_deal_topup \<or>
     (\<exists>x. r = RDecimal (Finite x) \<and> dep_amount dep - AMOUNT_MISMATCH_TOLERANCE \<le> x))"

lemma check_and_credit_fails: "check_and_credit now cfg api dep r w = (Inl e, w') \<Longrightarrow> w' = w"
  by (auto simp: check_and_credit_def split: sum.splits prod.splits if_splits dest: credit_deposit_fails_clean)

lemma check_and_credit_returns:
  "check_and_credit now cfg api dep r w = (Inr res, w') \<Longrightarrow> dep_status dep \<noteq> DS_paid \<Longrightarrow>
     res = WR_amount_mismatch \<and> w' = w \<or> res = WR_credited (dep_purpose dep) \<and> pays r dep"
  by (auto simp: check_and_credit_def amounts_match_def pays_def parse_paid_amount_def
      split: sum.splits prod.splits reported.splits pydecimal.splits if_splits
      dest: credit_deposit_finite)

lemma expire_by_webhook_returns:
  "\<exists>res w'. expire_by_webhook now dep w = (Inr res, w') \<and>
     (res = WR_already_terminal \<and> w' = w \<or> res = WR_expired \<and> dep_status dep = DS_pending)"
  by (cases "dep_status dep") (auto simp: expire_by_webhook_def case_prod_beta)

text \<open>
  A CryptoBot delivery changes the database only by crediting the unpaid deposit it names,
  and then the report is paid and the amount covers the invoice (up to 1e-8, unless a deal
  top-up); every other answer, and every failure, leaves everything as it was.
\<close>

theorem webhook_credits_only_full_payments:
  "case handle_invoice_paid now cfg api payload w of
     (Inl e, w') \<Rightarrow> w' = w
   | (Inr res, w') \<Rightarrow> (case res of
        WR_credited p \<Rightarrow> \<exists>i dep. wp_invoice_id payload = Some i \<and> find_wallet_deposit i cryptobot w = Some dep
          \<and> wp_status payload = Some ''paid'' \<and> dep_status dep \<noteq> DS_paid \<and> p = dep_purpose dep
          \<and> pays (wp_amount payload) dep
      | _ \<Rightarrow> w' = w)"
proof (cases rule: outcome_cases [of "handle_invoice_paid now cfg api payload w"])
  case (fails e w')
  then show ?thesis
    by (auto simp: handle_invoice_paid_def split: option.splits if_splits dest: check_and_credit_fails)
next
  case (returns res w')
  then show ?thesis
    by (auto simp: handle_invoice_paid_def split: option.splits if_splits dest!: check_and_credit_returns)
qed

text \<open>
  A Crystalpay delivery changes only a pending deposit it names: it is credited when the
  report covers the invoice, or expired; every other answer leaves everything as it was.
\<close>

theorem crystalpay_credits_only_pending_deposits:
  "case handle_crystalpay_invoice now cfg api payload w of
     (Inl e, w') \<Rightarrow> w' = w
   | (Inr res, w') \<Rightarrow> (case res of
        WR_credited p \<Rightarrow> \<exists>i dep. crystalpay_provider_id payload = Some i
          \<and> find_wallet_deposit i crystalpay w = Some dep \<and> dep_status dep = DS_pending \<and> p = dep_purpose dep
          \<and> pays (wp_amount payload) dep
      | WR_expired \<Rightarrow> \<exists>i dep. crystalpay_provider_id payload = Some i
          \<and> find_wallet_deposit i crystalpay w = Some dep \<and> dep_status dep = DS_pending
      | _ \<Rightarrow> w' = w)"
proof (cases "crystalpay_provider_id payload")
  case None
  then show ?thesis by (simp add: handle_crystalpay_invoice_def)
next
  case (Some i)
  show ?thesis
  proof (cases "find_wallet_deposit i crystalpay w")
    case None
    with Some show ?thesis by (simp add: handle_crystalpay_invoice_def Let_def)
  next
    case dep: (Some dep)
    obtain res w1 where x: "expire_by_webhook now dep w = (Inr res, w1)"
      "res = WR_already_terminal \<and> w1 = w \<or> res = WR_expired \<and> dep_status dep = DS_pending"
      using expire_by_webhook_returns by blast
    note unfold = handle_crystalpay_invoice_def Let_def Some dep option.case
    show ?thesis
    proof (cases "check_and_credit now cfg api dep (wp_amount payload) w" rule: outcome_cases)
      case (fails e w')
      with x show ?thesis
        unfolding unfold using check_and_credit_fails [OF fails] by (cases "dep_status dep") (auto simp: Some dep)
    next
      case (returns r w')
      with x show ?thesis
        unfolding unfold using check_and_credit_returns [OF returns]
        by (cases "dep_status dep") (auto simp: Some dep)
    qed
  qed
qed

lemma find_wallet_deposit_in:
  "deposits_ok w \<Longrightarrow> find_wallet_deposit i p w = Some dep \<Longrightarrow> get_deposit (dep_id dep) w = Some dep"
  by (auto simp: find_wallet_deposit_def get_deposit_def deposits_ok_def dest!: find_Some_set intro: tget_in_set)

text \<open>
  The CryptoBot handler credits a deposit that is expired or refunded already, which the
  Crystalpay handler refuses.
\<close>

theorem cryptobot_credits_closed_deposit:
  assumes "books_ok w" and "find_wallet_deposit i cryptobot w = Some dep" and "dep_purpose dep = P_wallet"
    and "dep_status dep = DS_expired \<or> dep_status dep = DS_refunded"
    and "get_currency (dep_currency_id dep) w = Some cur"
    and "wp_invoice_id payload = Some i" and "wp_status payload = Some ''paid''"
    and "wp_amount payload = RDecimal (Finite (dep_amount dep))"
  shows "\<exists>w'. handle_invoice_paid now cfg api payload w = (Inr (WR_credited P_wallet), w')
     \<and> accounts w' = a_credit (dep_user_id dep) (dep_currency_id dep)
          (quantize_money (dep_amount dep) (c_decimals cur)) (accounts w)"
proof -
  have "deposits_ok w" using assms(1) by (simp add: books_ok_def)
  from deposit_in_row [OF find_wallet_deposit_in [OF this assms(2)]] have d: "deposit_in dep dep w" .
  have st: "dep_status dep \<noteq> DS_paid" using assms(4) by auto
  let ?x = "credit_due dep (Some (dep_amount dep)) cur"
  obtain r w' where run: "credit_wallet now dep (Some cur) ?x (Some (quantize_money (dep_amount dep) (c_decimals cur))) w = (r, w')"
    by fastforce
  note e = credit_wallet_effect [OF run assms(1) d st credit_due_ok [OF assms(1) d assms(5)]]
  have "credit_deposit now cfg api dep (Some (Finite (dep_amount dep))) w = (r, w')"
    using credit_deposit_unfold [OF assms(5) st assms(3), where reported = "Some (dep_amount dep)"] run by simp
  then show ?thesis
    using e assms st
    by (simp add: handle_invoice_paid_def check_and_credit_def amounts_match_def AMOUNT_MISMATCH_TOLERANCE_def
        parse_paid_amount_def credit_due_def)
qed

lemma cryptobot_credits_closed_deposit_witness:
  "\<exists>w'. handle_invoice_paid 9 sample_cfg sample_api
       \<lparr> wp_status = Some ''paid'', wp_invoice_id = Some ''O'', wp_id = None, wp_state = None,
         wp_amount = RDecimal (Finite 5) \<rparr> sample_world = (Inr (WR_credited P_wallet), w')
     \<and> accounts w' 1 7 = (105, 81)"
proof -
  have "char_of (75 :: nat) = CHR ''K''" "char_of (77 :: nat) = CHR ''M''" "char_of (78 :: nat) = CHR ''N''"
    "char_of (79 :: nat) = CHR ''O''" by code_simp+
  then have f: "find_wallet_deposit ''O'' cryptobot sample_world = Some (sample_deposit 15 DS_expired P_wallet None 5)"
    by (simp add: find_wallet_deposit_def sample_rows)
  show ?thesis
    using cryptobot_credits_closed_deposit [OF sample_books_ok f, where cur = usdt and now = 9 and cfg = sample_cfg
      and api = sample_api and payload = "\<lparr> wp_status = Some ''paid'', wp_invoice_id = Some ''O'', wp_id = None,
         wp_state = None, wp_amount = RDecimal (Finite 5) \<rparr>"]
    by (auto simp: a_defs)
qed

end
