(* ===== verification/Webhooks.thy ===== *)
theory Webhooks
  imports Crediting
begin

text \<open>
  \<open>backend/app/services_webhooks.py\<close> and \<open>backend/app/routers/payments.py\<close>: the inbox that
  records every delivery once per \<open>(provider, event_id)\<close>, and the two webhook endpoints.
  \<open>json.loads\<close> of a body and the hash functions are arguments.
\<close>

section \<open>The inbox\<close>

definition has_infix :: "string \<Rightarrow> string \<Rightarrow> bool" where
  "has_infix pat s = (\<exists>i \<in> set [0..<Suc (length s)]. take (length pat) (drop i s) = pat)"

text \<open>Credentials and signatures are recorded as present or absent, never as a value.\<close>

definition safe_header :: "string \<times> string \<Rightarrow> string \<times> string" where
  "safe_header kv =
     (case kv of (key, value) \<Rightarrow>
        let lower = map to_lower key;
            deny = [''authorization'', ''crypto-pay-api-signature'', ''cookie'', ''set-cookie'']
        in if lower \<in> set deny \<or> has_infix ''signature'' lower
           then (lower, if value \<noteq> [] then ''<present>'' else [])
           else (lower, take 512 value))"

definition safe_headers :: "(string \<times> string) list \<Rightarrow> (string \<times> string) list" where
  "safe_headers hs = map safe_header hs"

definition raw_event_id :: "(string \<Rightarrow> string) \<Rightarrow> string \<Rightarrow> string" where
  "raw_event_id sha256_hex raw = ''sha256:'' @ sha256_hex raw"

definition find_event :: "WalletDepositProvider \<Rightarrow> string \<Rightarrow> world \<Rightarrow> provider_webhook_event option" where
  "find_event provider event_id w =
     List.find (\<lambda>e. we_provider e = provider \<and> we_event_id e = event_id) (t_webhook_events w)"

definition save_event :: "provider_webhook_event \<Rightarrow> world \<Rightarrow> world" where
  "save_event e w = w \<lparr> t_webhook_events := tput we_id e (t_webhook_events w) \<rparr>"

definition acquire_webhook_event ::
  "int \<Rightarrow> (string \<Rightarrow> string) \<Rightarrow> WalletDepositProvider \<Rightarrow> string \<Rightarrow> string \<Rightarrow> string option
     \<Rightarrow> (string \<times> string) list \<Rightarrow> string \<Rightarrow> world \<Rightarrow> (provider_webhook_event \<times> bool) \<times> world" where
  "acquire_webhook_event now sha256_hex provider event_id event_type invoice_id headers raw w =
     (case find_event provider event_id w of
        Some e \<Rightarrow>
          let e' = e \<lparr> we_attempts := we_attempts e + 1 \<rparr> in ((e', True), save_event e' w)
      | None \<Rightarrow>
          let e = \<lparr> we_id = seq_webhook_events w, we_provider = provider, we_event_id = event_id,
                    we_event_type = event_type, we_provider_invoice_id = invoice_id,
                    we_status = ''processing'', we_attempts = 1, we_raw_sha256 = sha256_hex raw,
                    we_headers_json = headers, we_result_json = None, we_error = None,
                    we_created_at = now, we_processed_at = Some now \<rparr>
          in ((e, False), w \<lparr> t_webhook_events := t_webhook_events w @ [e],
                            seq_webhook_events := seq_webhook_events w + 1 \<rparr>))"

definition mark_webhook_event ::
  "int \<Rightarrow> string \<Rightarrow> webhook_result option \<Rightarrow> py_exception option \<Rightarrow> provider_webhook_event
     \<Rightarrow> provider_webhook_event" where
  "mark_webhook_event now status r err e =
     e \<lparr> we_status := status, we_result_json := r, we_error := err, we_processed_at := Some now \<rparr>"

definition enqueue_webhook_outbox ::
  "provider_webhook_event \<Rightarrow> string \<Rightarrow> webhook_result \<Rightarrow> world \<Rightarrow> world" where
  "enqueue_webhook_outbox e kind r w =
     w \<lparr> t_webhook_outbox := t_webhook_outbox w @
          [\<lparr> wo_webhook_event_id = we_id e, wo_kind = kind, wo_status = ''ready'',
             wo_payload_json = r \<rparr>] \<rparr>"

section \<open>Endpoints\<close>

definition WEBHOOK_PROCESSING_RETRY_AFTER :: int where
  "WEBHOOK_PROCESSING_RETRY_AFTER = 600"

definition MAX_WEBHOOK_BODY_BYTES :: nat where
  "MAX_WEBHOOK_BODY_BYTES = 65536"

text \<open>A \<open>Content-Length\<close> header: absent, a number, or garbage.\<close>

datatype content_length = NoLength | Length int | BadLength

fun read_chunks :: "string list \<Rightarrow> string \<Rightarrow> py_error + string" where
  "read_chunks [] acc = Inr acc"
| "read_chunks (c # cs) acc =
     (if MAX_WEBHOOK_BODY_BYTES < length (acc @ c) then Inl (HTTP 413 E_body_too_large)
      else read_chunks cs (acc @ c))"

definition read_limited_webhook_body :: "content_length \<Rightarrow> string list \<Rightarrow> py_error + string" where
  "read_limited_webhook_body cl chunks =
     (case cl of
        BadLength \<Rightarrow> Inl (HTTP 400 E_bad_content_length)
      | Length n \<Rightarrow> if int MAX_WEBHOOK_BODY_BYTES < n then Inl (HTTP 413 E_body_too_large)
                    else read_chunks chunks []
      | NoLength \<Rightarrow> read_chunks chunks [])"

definition webhook_processing_is_fresh :: "int \<Rightarrow> provider_webhook_event \<Rightarrow> bool" where
  "webhook_processing_is_fresh now e =
     (let since = (case we_processed_at e of None \<Rightarrow> we_created_at e | Some t \<Rightarrow> t)
      in now - since < WEBHOOK_PROCESSING_RETRY_AFTER)"

datatype webhook_response =
    Fresh webhook_result
  | Duplicate "webhook_result option" string

definition exception_class :: "py_error \<Rightarrow> py_exception" where
  "exception_class e = (case e of HTTP _ _ \<Rightarrow> AnHTTPException
     | ValueErr _ \<Rightarrow> AValueError | InsufficientFundsError _ _ _ \<Rightarrow> AValueError
     | _ \<Rightarrow> AnOtherException)"

definition mark_webhook_failed :: "int \<Rightarrow> provider_webhook_event \<Rightarrow> py_error \<Rightarrow> world \<Rightarrow> world" where
  "mark_webhook_failed now e err w =
     (case tget we_id (we_id e) (t_webhook_events w) of
        None \<Rightarrow> w
      | Some row \<Rightarrow> save_event (mark_webhook_event now ''failed'' (Some WR_processing_failed)
                       (Some (exception_class err)) row) w)"

text \<open>
  The part both endpoints share: acquire the event, answer a duplicate from the inbox, else
  mark it \<open>processing\<close> (committed), run the handler, and record how it ended.
\<close>

definition process_webhook ::
  "int \<Rightarrow> (provider_webhook_event \<times> bool) \<times> world \<Rightarrow> (world \<Rightarrow> webhook_result result) \<Rightarrow> bool
     \<Rightarrow> webhook_response result" where
  "process_webhook now acquired handler handled =
     (case acquired of ((e, duplicate), w1) \<Rightarrow>
      if duplicate \<and> we_status e \<in> {''processed'', ''ignored''}
      then (Inr (Duplicate (we_result_json e) (we_status e)), w1)
      else if duplicate \<and> we_status e = ''processing'' \<and> webhook_processing_is_fresh now e
      then (Inr (Duplicate None (we_status e)), w1)
      else let e1 = e \<lparr> we_status := ''processing'', we_processed_at := Some now \<rparr>;
               w2 = save_event e1 w1 in
      case handler w2 of
        (Inl err, w3) \<Rightarrow> (Inl err, mark_webhook_failed now e1 err w3)
      | (Inr r, w3) \<Rightarrow>
          (Inr (Fresh r),
           if handled
           then save_event (mark_webhook_event now ''processed'' (Some r) None e1)
                  (enqueue_webhook_outbox e1 ''deposit_reconcile'' r w3)
           else save_event (mark_webhook_event now ''ignored'' (Some r) None e1) w3))"

record cryptobot_update =
  cu_update_id :: "string option"
  cu_update_type :: "string option"
  cu_payload :: webhook_payload

datatype 'b json_body = NotJson | NotObject | Body 'b

definition cryptobot_webhook ::
  "int \<Rightarrow> settings \<Rightarrow> provider_api \<Rightarrow> (string \<Rightarrow> string) \<Rightarrow> (string \<Rightarrow> string) \<Rightarrow> (string \<Rightarrow> string \<Rightarrow> string)
     \<Rightarrow> (string \<Rightarrow> cryptobot_update json_body) \<Rightarrow> content_length \<Rightarrow> string list \<Rightarrow> string option
     \<Rightarrow> (string \<times> string) list \<Rightarrow> world \<Rightarrow> webhook_response result" where
  "cryptobot_webhook now cfg api sha256_hex sha256 hmac loads cl chunks signature headers w =
     (case read_limited_webhook_body cl chunks of Inl e \<Rightarrow> (Inl e, w) | Inr raw \<Rightarrow>
      if cfg_cryptobot_token cfg = [] then (Inl (HTTP 503 E_webhooks_disabled), w)
      else if \<not> verify_webhook_signature sha256 hmac (cfg_cryptobot_token cfg) raw signature
      then (Inl (HTTP 401 E_bad_signature), w)
      else case loads raw of
        NotJson \<Rightarrow> (Inl (HTTP 400 E_body_not_json), w)
      | NotObject \<Rightarrow> (Inl (HTTP 400 E_body_not_object), w)
      | Body body \<Rightarrow>
          let payload = cu_payload body;
              event_id = (case cu_update_id body of None \<Rightarrow> raw_event_id sha256_hex raw | Some i \<Rightarrow> i);
              ty = (case cu_update_type body of None \<Rightarrow> ''unknown''
                      | Some t \<Rightarrow> if t = [] then ''unknown'' else t);
              handled = (ty = ''invoice_paid'' \<or> ty = ''invoice_expired'')
          in process_webhook now
               (acquire_webhook_event now sha256_hex cryptobot event_id ty (wp_invoice_id payload)
                  (safe_headers headers) raw w)
               (\<lambda>w2. if ty = ''invoice_paid''
                     then (if wp_status payload = Some ''expired''
                           then handle_invoice_expired now payload w2
                           else handle_invoice_paid now cfg api payload w2)
                     else if ty = ''invoice_expired'' then handle_invoice_expired now payload w2
                     else (Inr (WR_ignored_type ty), w2))
               handled)"

definition crystalpay_webhook ::
  "int \<Rightarrow> settings \<Rightarrow> provider_api \<Rightarrow> (string \<Rightarrow> string) \<Rightarrow> (string \<Rightarrow> string)
     \<Rightarrow> (string \<Rightarrow> (webhook_payload \<times> string option) json_body) \<Rightarrow> content_length \<Rightarrow> string list
     \<Rightarrow> (string \<times> string) list \<Rightarrow> world \<Rightarrow> webhook_response result" where
  "crystalpay_webhook now cfg api sha256_hex sha1_hex loads cl chunks headers w =
     (let secret = cfg_crystalpay_secret cfg in
      if secret = [] then (Inl (HTTP 503 E_webhooks_disabled), w)
      else case read_limited_webhook_body cl chunks of Inl e \<Rightarrow> (Inl e, w) | Inr raw \<Rightarrow>
      case loads raw of
        NotJson \<Rightarrow> (Inl (HTTP 400 E_body_not_json), w)
      | NotObject \<Rightarrow> (Inl (HTTP 400 E_body_not_object), w)
      | Body (body, signature) \<Rightarrow>
          let invoice_id = crystalpay_provider_id body;
              invoice_id_str = (case invoice_id of None \<Rightarrow> [] | Some i \<Rightarrow> i);
              state = (case wp_state body of None \<Rightarrow> ''unknown''
                         | Some s \<Rightarrow> if s = [] then ''unknown'' else s) in
          if \<not> verify_crystalpay_signature sha1_hex invoice_id_str (Some secret) signature
          then (Inl (HTTP 401 E_bad_signature), w)
          else process_webhook now
                 (acquire_webhook_event now sha256_hex crystalpay
                    ((if invoice_id_str = [] then raw_event_id sha256_hex raw else invoice_id_str)
                     @ '':'' @ state)
                    state invoice_id (safe_headers headers) raw w)
                 (\<lambda>w2. handle_crystalpay_invoice now cfg api body w2)
                 True)"

end
