(* ===== verification/Inbox.thy ===== *)
theory Inbox
  imports Webhooks
begin

text \<open>
  What the webhook inbox promises: bodies are bounded, secrets are not stored, an unsigned
  delivery changes nothing, and a delivery is processed once. The locale \<open>inbox_endpoint\<close> asks
  of a handler only that it leaves the inbox alone; both endpoints are interpretations of it.
\<close>

section \<open>What the inbox keeps\<close>

text \<open>
  What the inbox stores of a header is at most 512 characters, and of a credential or a
  signature only whether it was there.
\<close>

theorem safe_headers_hide_secrets:
  assumes "(key, value) \<in> set (safe_headers hs)"
  shows "length value \<le> 512 \<and>
    (if key \<in> {''authorization'', ''crypto-pay-api-signature'', ''cookie'', ''set-cookie''}
        \<or> has_infix ''signature'' key
     then value = [] \<or> value = ''<present>''
     else \<exists>k v. (k, v) \<in> set hs \<and> key = map to_lower k \<and> value = take 512 v)"
proof -
  obtain k v where kv: "(k, v) \<in> set hs" "safe_header (k, v) = (key, value)"
    using assms by (force simp: safe_headers_def)
  then have "key = map to_lower k" by (auto simp: safe_header_def Let_def split: if_splits)
  with kv show ?thesis by (auto simp: safe_header_def Let_def split: if_splits)
qed

lemma safe_headers_hide_secrets_witness:
  "length ''<present>'' \<le> 512 \<and> (''<present>'' = [] \<or> ''<present>'' = ''<present>'')
     \<and> (''x-signature'', ''<present>'') \<in> set (safe_headers [(''X-Signature'', ''deadbeef'')])"
proof -
  have "safe_headers [(''X-Signature'', ''deadbeef'')] = [(''x-signature'', ''<present>'')]" by code_simp
  moreover have "has_infix ''signature'' ''x-signature''" by code_simp
  ultimately show ?thesis
    using safe_headers_hide_secrets [of "''x-signature''" "''<present>''" "[(''X-Signature'', ''deadbeef'')]"] by simp
qed

section \<open>Bodies\<close>

lemma read_chunks_spec:
  "read_chunks cs acc = (if length (acc @ concat cs) \<le> MAX_WEBHOOK_BODY_BYTES \<or> cs = []
     then Inr (acc @ concat cs) else Inl (HTTP 413 E_body_too_large))"
  by (induction cs arbitrary: acc) auto

lemma webhook_body_spec:
  "read_limited_webhook_body cl chunks =
     (if cl = BadLength then Inl (HTTP 400 E_bad_content_length)
      else if (\<exists>n. cl = Length n \<and> int MAX_WEBHOOK_BODY_BYTES < n)
              \<or> MAX_WEBHOOK_BODY_BYTES < length (concat chunks)
      then Inl (HTTP 413 E_body_too_large) else Inr (concat chunks))"
proof -
  have "read_chunks chunks [] = (if MAX_WEBHOOK_BODY_BYTES < length (concat chunks)
      then Inl (HTTP 413 E_body_too_large) else Inr (concat chunks))"
    by (auto simp: read_chunks_spec)
  then show ?thesis by (cases cl) (simp_all add: read_limited_webhook_body_def)
qed

text \<open>
  Reading a body in chunks agrees with the specification: the concatenation when it has at
  most 65536 bytes and the announced length does not exceed that, else 400 or 413.
\<close>

theorem webhook_body_is_bounded:
  "read_limited_webhook_body cl chunks =
     (if cl = BadLength then Inl (HTTP 400 E_bad_content_length)
      else if (\<exists>n. cl = Length n \<and> int MAX_WEBHOOK_BODY_BYTES < n)
              \<or> MAX_WEBHOOK_BODY_BYTES < length (concat chunks)
      then Inl (HTTP 413 E_body_too_large) else Inr (concat chunks))"
  by (rule webhook_body_spec)

section \<open>Unsigned deliveries\<close>

text \<open>
  A delivery whose signature does not verify is refused by either endpoint with a 4xx or 503
  and leaves the database as it was.
\<close>

theorem unsigned_delivery_is_refused:
  assumes "\<not> verify_webhook_signature sha256 hmac (cfg_cryptobot_token cfg) (concat chunks) signature"
    and "loads' (concat chunks) = Body (body, signature')"
    and "\<not> verify_crystalpay_signature sha1_hex
             (case crystalpay_provider_id body of None \<Rightarrow> [] | Some i \<Rightarrow> i) (Some (cfg_crystalpay_secret cfg)) signature'"
  shows "(\<exists>code e. cryptobot_webhook now cfg api sha256_hex sha256 hmac loads cl chunks signature headers w
           = (Inl (HTTP code e), w) \<and> code \<in> {400, 401, 413, 503})
    \<and> (\<exists>code e. crystalpay_webhook now cfg api sha256_hex sha1_hex loads' cl chunks headers w
           = (Inl (HTTP code e), w) \<and> code \<in> {400, 401, 413, 503})"
  using assms
  by (auto simp: cryptobot_webhook_def crystalpay_webhook_def webhook_body_spec Let_def split: if_splits)

lemma unsigned_delivery_is_refused_witness:
  "(\<exists>code e. cryptobot_webhook 9 sample_cfg sample_api id id (\<lambda>_ _. ''s'') (\<lambda>_. NotJson) NoLength [''x''] None []
       sample_world = (Inl (HTTP code e), sample_world) \<and> code \<in> {400, 401, 413, 503})
   \<and> (\<exists>code e. crystalpay_webhook 9 sample_cfg sample_api id (\<lambda>_. ''ab'')
       (\<lambda>_. Body (\<lparr> wp_status = None, wp_invoice_id = None, wp_id = Some ''M'', wp_state = None,
          wp_amount = RMissing \<rparr>, None)) NoLength [''x''] [] sample_world
       = (Inl (HTTP code e), sample_world) \<and> code \<in> {400, 401, 413, 503})"
  by (rule unsigned_delivery_is_refused [where signature' = None and body = "\<lparr> wp_status = None,
        wp_invoice_id = None, wp_id = Some ''M'', wp_state = None, wp_amount = RMissing \<rparr>"])
    (simp_all add: verify_webhook_signature_def verify_crystalpay_signature_def)

text \<open>The money operations do not touch the inbox.\<close>

definition inbox :: "world \<Rightarrow> provider_webhook_event list \<times> int" where
  "inbox w = (t_webhook_events w, seq_webhook_events w)"

lemma inbox_rows [simp]:
  "inbox (ledgered b x y ev w) = inbox w"
  "inbox (snd (record_synthetic_ledger i c x y ev w)) = inbox w"
  "inbox (save_balance b w) = inbox w" "inbox (save_deposit dep w) = inbox w"
  "inbox (save_deal d w) = inbox w" "inbox (save_user u w) = inbox w"
  "inbox (snd (notifier_insert now r ty nt p w)) = inbox w"
  "inbox (emit es w) = inbox w"
  by (simp_all add: inbox_def record_balance_ledger_def record_synthetic_ledger_def append_ledger_def Let_def
      save_balance_def save_deposit_def save_deal_def save_user_def notifier_insert_def emit_def)

lemma inbox_dispatch [simp]:
  "inbox (dispatch_after_commit n w) = inbox w" "inbox (safe_dispatch ns w) = inbox w"
  "inbox (publish_deal_update i us st w) = inbox w" "inbox (after_commit d us ns w) = inbox w"
proof -
  show d: "inbox (dispatch_after_commit n w) = inbox w" for n w
    by (simp add: dispatch_after_commit_def case_prod_beta Let_def split: option.splits)
  show s: "inbox (safe_dispatch ns w) = inbox w" for w
    unfolding safe_dispatch_def by (induction ns arbitrary: w) (simp_all add: d)
  show "inbox (publish_deal_update i us st w) = inbox w" "inbox (after_commit d us ns w) = inbox w"
    by (simp_all add: publish_deal_update_def after_commit_def s)
qed

lemma inbox_lock: "lock_user_balance u c w = Inr (b, w') \<Longrightarrow> inbox w' = inbox w"
  by (auto simp: lock_user_balance_def upsert_balance_def inbox_def Let_def split: option.splits if_splits)

lemma inbox_invoice:
  "create_deposit_invoice now cfg api u code x pu prov chk w = Inr (dep, w') \<Longrightarrow> inbox w' = inbox w"
  by (drule create_deposit_invoice_effect) (auto simp: inbox_def)

lemma inbox_remaining:
  "issue_remaining_topup_invoice now cfg api d cur x w = Inr (r, w') \<Longrightarrow> inbox w' = inbox w"
  by (auto simp: issue_remaining_topup_invoice_def Let_def split: option.splits if_splits sum.splits
      dest!: inbox_invoice)

lemma inbox_partial:
  "topup_partial now cfg api dep d cur paid due credit bal mk w = Inr (r, w') \<Longrightarrow> inbox w' = inbox w"
  by (auto simp: topup_partial_def Let_def case_prod_beta split: sum.splits dest!: inbox_remaining)

lemma inbox_activate:
  "inbox (snd (topup_activate now dep d cur amt paid due credit bal w)) = inbox w"
  by (simp add: topup_activate_def Let_def case_prod_beta)

lemma inbox_topup:
  "complete_deal_topup_payment now cfg api dep paid w = (r, w') \<Longrightarrow> inbox w' = inbox w"
  using inbox_activate
  by (auto simp: complete_deal_topup_payment_def topup_late_credit_def run_tx_def Let_def case_prod_beta
      split: if_splits option.splits sum.splits dest!: inbox_lock inbox_partial)

lemma inbox_credit: "credit_deposit now cfg api dep paid w = (r, w') \<Longrightarrow> inbox w' = inbox w"
  by (auto simp: credit_deposit_def credit_trust_def credit_wallet_def notify_credit_def Let_def case_prod_beta
      split: if_splits option.splits sum.splits deposit_purpose.splits dest!: inbox_lock inbox_topup)

lemma inbox_expire [simp]: "inbox (snd (expire_deposit now dep w)) = inbox w"
  by (auto simp: expire_deposit_def build_expired_notification_def Let_def case_prod_beta split: option.splits)

lemma inbox_expire_by_webhook: "expire_by_webhook now dep w = (r, w') \<Longrightarrow> inbox w' = inbox w"
  by (auto simp: expire_by_webhook_def case_prod_beta split: if_splits)

lemma inbox_check: "check_and_credit now cfg api dep x w = (r, w') \<Longrightarrow> inbox w' = inbox w"
  by (auto simp: check_and_credit_def split: sum.splits if_splits prod.splits dest!: inbox_credit)

lemma inbox_handlers:
  "handle_invoice_paid now cfg api p w = (r, w') \<Longrightarrow> inbox w' = inbox w"
  "handle_invoice_expired now p w = (r', w'') \<Longrightarrow> inbox w'' = inbox w"
  "handle_crystalpay_invoice now cfg api p w = (r'', w''') \<Longrightarrow> inbox w''' = inbox w"
  by (auto simp: handle_invoice_paid_def handle_invoice_expired_def handle_crystalpay_invoice_def Let_def
      split: if_splits option.splits dest!: inbox_check inbox_expire_by_webhook)

section \<open>A delivery is processed once\<close>

text \<open>Events have one row per id, and the sequence is ahead of them.\<close>

definition events_ok :: "world \<Rightarrow> bool" where
  "events_ok w \<longleftrightarrow> tkeys we_id (t_webhook_events w) \<and>
     list_all (\<lambda>e. we_id e < seq_webhook_events w) (t_webhook_events w)"

lemma find_append:
  "List.find P (xs @ ys) = (case List.find P xs of None \<Rightarrow> List.find P ys | Some x \<Rightarrow> Some x)"
  by (induction xs) auto

lemma find_tput_same:
  "tkeys key rows \<Longrightarrow> List.find P rows = Some x \<Longrightarrow> P r \<Longrightarrow> key r = key x \<Longrightarrow>
     List.find P (tput key r rows) = Some r"
proof (induction rows)
  case (Cons a rows)
  show ?case
  proof (cases "P a")
    case True
    with Cons.prems show ?thesis by simp
  next
    case False
    with Cons.prems(2) have f: "List.find P rows = Some x" by simp
    then have "key x \<in> key ` set rows" by (auto dest: find_Some_set)
    with Cons.prems have "key a \<noteq> key r" by (auto simp: tkeys_def)
    moreover have "tkeys key rows" using Cons.prems(1) by (simp add: tkeys_def)
    ultimately show ?thesis using Cons.IH [OF _ f Cons.prems(3,4)] False by simp
  qed
qed simp

lemma save_event_effect:
  assumes "events_ok w" and "find_event p i w = Some e" and "we_id e' = we_id e"
    and "we_provider e' = p" and "we_event_id e' = i"
  shows "events_ok (save_event e' w)" and "find_event p i (save_event e' w) = Some e'"
    and "same_books (save_event e' w) w"
proof -
  have "e \<in> set (t_webhook_events w)"
    using assms(2) by (auto simp: find_event_def dest: find_Some_set)
  then have "we_id e' < seq_webhook_events w" using assms(1,3) by (auto simp: events_ok_def list_all_iff)
  then show "events_ok (save_event e' w)"
    using assms(1) by (auto simp: events_ok_def save_event_def list_all_iff tput_def tkeys_def o_def
        if_distrib [of we_id] cong: if_cong)
  show "find_event p i (save_event e' w) = Some e'"
    using assms find_tput_same [of we_id "t_webhook_events w" _ e e']
    by (simp add: find_event_def save_event_def events_ok_def)
  show "same_books (save_event e' w) w" by (simp add: same_books_def save_event_def)
qed

lemma acquire_known:
  assumes "events_ok w" and "find_event p i w = Some e0"
  shows "\<exists>e w'. acquire_webhook_event now h p i ty inv_id hs raw w = ((e, True), w') \<and> events_ok w'
    \<and> find_event p i w' = Some e \<and> same_books w' w
    \<and> we_status e = we_status e0 \<and> we_result_json e = we_result_json e0
    \<and> we_provider e = p \<and> we_event_id e = i"
proof -
  have "we_provider e0 = p" "we_event_id e0 = i"
    using assms(2) by (auto simp: find_event_def dest: find_Some_set)
  then show ?thesis
    using save_event_effect [OF assms, of "e0 \<lparr> we_attempts := we_attempts e0 + 1 \<rparr>"] assms(2)
    by (simp add: acquire_webhook_event_def Let_def)
qed

lemma acquire_new:
  assumes "events_ok w" and "find_event p i w = None"
  shows "\<exists>e w'. acquire_webhook_event now h p i ty inv_id hs raw w = ((e, False), w') \<and> events_ok w'
    \<and> find_event p i w' = Some e \<and> same_books w' w \<and> we_provider e = p \<and> we_event_id e = i"
proof -
  have "seq_webhook_events w \<notin> we_id ` set (t_webhook_events w)"
    using assms(1) by (force simp: events_ok_def list_all_iff)
  moreover have "List.find (\<lambda>e. we_provider e = p \<and> we_event_id e = i) (t_webhook_events w) = None"
    using assms(2) by (simp add: find_event_def)
  ultimately show ?thesis
    using assms(1)
    by (auto simp: acquire_webhook_event_def assms(2) Let_def events_ok_def tkeys_def list_all_iff find_event_def
        find_append same_books_def)
qed

text \<open>What an endpoint gets from the inbox, whatever its handler does to the money.\<close>

locale inbox_endpoint =
  fixes handler :: "int \<Rightarrow> world \<Rightarrow> webhook_result result"
  assumes leaves_inbox: "handler now w = (r, w') \<Longrightarrow> inbox w' = inbox w"
begin

lemma answers_from_inbox:
  assumes "events_ok w" and "find_event p i w = Some e" and "we_status e \<in> {''processed'', ''ignored''}"
  shows "\<exists>w'. process_webhook now (acquire_webhook_event now h p i ty inv_id hs raw w) (handler now) handled
      = (Inr (Duplicate (we_result_json e) (we_status e)), w') \<and> same_books w' w"
  using acquire_known [OF assms(1,2), of now h ty inv_id hs raw] assms(3)
  by (auto simp: process_webhook_def)

lemma records_result:
  assumes "events_ok w"
    and run: "process_webhook now (acquire_webhook_event now h p i ty inv_id hs raw w) (handler now) handled
      = (Inr (Fresh r), w')"
  shows "events_ok w' \<and> (\<exists>e. find_event p i w' = Some e \<and> we_result_json e = Some r
           \<and> we_status e = (if handled then ''processed'' else ''ignored''))"
proof -
  obtain e dup w1 where acq: "acquire_webhook_event now h p i ty inv_id hs raw w = ((e, dup), w1)"
    and w1: "events_ok w1" "find_event p i w1 = Some e" "we_provider e = p" "we_event_id e = i"
    using acquire_known [OF assms(1)] acquire_new [OF assms(1)]
    by (cases "find_event p i w") (metis, metis)
  let ?e = "e \<lparr> we_status := ''processing'', we_processed_at := Some now \<rparr>"
  have w2: "events_ok (save_event ?e w1)" "find_event p i (save_event ?e w1) = Some ?e"
    using save_event_effect [OF w1(1,2), of ?e] w1(3,4) by simp_all
  obtain w3 where h: "handler now (save_event ?e w1) = (Inr r, w3)"
    and w': "w' = (if handled
           then save_event (mark_webhook_event now ''processed'' (Some r) None ?e)
                  (enqueue_webhook_outbox ?e ''deposit_reconcile'' r w3)
           else save_event (mark_webhook_event now ''ignored'' (Some r) None ?e) w3)"
    using run acq by (auto simp: process_webhook_def Let_def split: if_splits prod.splits sum.splits)
  have i3: "inbox w3 = inbox (save_event ?e w1)" by (rule leaves_inbox [OF h])
  have w3: "events_ok w3" "find_event p i w3 = Some ?e"
    using w2 i3 by (simp_all add: inbox_def events_ok_def find_event_def)
  then have w4: "events_ok (enqueue_webhook_outbox ?e k r w3)" "find_event p i (enqueue_webhook_outbox ?e k r w3) = Some ?e" for k
    by (simp_all add: enqueue_webhook_outbox_def events_ok_def find_event_def)
  show ?thesis
    unfolding w' using save_event_effect [OF w3] save_event_effect [OF w4] w1(3,4)
    by (auto simp: mark_webhook_event_def)
qed

lemma processed_once:
  assumes "events_ok w"
    and "process_webhook now (acquire_webhook_event now h p i ty inv_id hs raw w) (handler now) handled
      = (Inr (Fresh r), w')"
  shows "\<exists>st w''. process_webhook later (acquire_webhook_event later h' p i ty' inv_id' hs' raw' w')
           (handler later) handled = (Inr (Duplicate (Some r) st), w'') \<and> same_books w'' w'"
proof -
  from records_result [OF assms] obtain e where e: "events_ok w'" "find_event p i w' = Some e"
    "we_result_json e = Some r" "we_status e \<in> {''processed'', ''ignored''}" by (auto split: if_splits)
  show ?thesis
    using answers_from_inbox [OF e(1,2,4), where now = later and h = h' and ty = ty' and inv_id = inv_id' and hs = hs'
        and raw = raw' and handled = handled] e(3) by auto
qed

end

definition cryptobot_handler ::
  "settings \<Rightarrow> provider_api \<Rightarrow> string \<Rightarrow> webhook_payload \<Rightarrow> int \<Rightarrow> world \<Rightarrow> webhook_result result" where
  "cryptobot_handler cfg api ty payload now w2 =
     (if ty = ''invoice_paid''
      then (if wp_status payload = Some ''expired''
            then handle_invoice_expired now payload w2
            else handle_invoice_paid now cfg api payload w2)
      else if ty = ''invoice_expired'' then handle_invoice_expired now payload w2
      else (Inr (WR_ignored_type ty), w2))"

interpretation cb: inbox_endpoint "cryptobot_handler cfg api ty payload" for cfg api ty payload
  by unfold_locales (auto simp: cryptobot_handler_def split: if_splits dest: inbox_handlers)

interpretation cp: inbox_endpoint "\<lambda>now. handle_crystalpay_invoice now cfg api payload" for cfg api payload
  by unfold_locales (rule inbox_handlers)

text \<open>
  C8. A CryptoBot delivery is processed once: the same body delivered again later is answered
  from the inbox, with the first result, and no money table changes.
\<close>

theorem cryptobot_delivery_processed_once:
  assumes "events_ok w"
    and "cryptobot_webhook now cfg api sha_hex sha hmac loads cl chunks sig headers w = (Inr (Fresh r), w1)"
  shows "\<exists>st w2. cryptobot_webhook later cfg api sha_hex sha hmac loads cl chunks sig headers' w1
           = (Inr (Duplicate (Some r) st), w2) \<and> same_books w2 w1"
  using assms(2) cb.processed_once [OF assms(1)]
  by (auto simp: cryptobot_webhook_def Let_def cryptobot_handler_def [symmetric]
      split: sum.splits if_splits json_body.splits)

text \<open>
  A Crystalpay delivery is processed once per invoice and state, whatever else its body says:
  also a first delivery whose amount did not match is the last one that is looked at.
\<close>

theorem crystalpay_state_processed_once:
  assumes "events_ok w"
    and "crystalpay_webhook now cfg api sha_hex sha1 loads cl chunks headers w = (Inr (Fresh r), w1)"
    and "loads (concat chunks) = Body (body, sig)" and "loads (concat chunks') = Body (body', sig')"
    and "crystalpay_provider_id body' = crystalpay_provider_id body" and "wp_state body' = wp_state body"
    and "sig' = sig" and "length (concat chunks') \<le> MAX_WEBHOOK_BODY_BYTES"
  shows "\<exists>st w2. crystalpay_webhook later cfg api sha_hex sha1 loads NoLength chunks' headers' w1
           = (Inr (Duplicate (Some r) st), w2) \<and> same_books w2 w1"
proof -
  let ?i = "case crystalpay_provider_id body of None \<Rightarrow> [] | Some i \<Rightarrow> i"
  let ?st = "case wp_state body of None \<Rightarrow> ''unknown'' | Some s \<Rightarrow> if s = [] then ''unknown'' else s"
  have raw: "read_limited_webhook_body cl chunks = Inr (concat chunks)"
    using assms(2) by (auto simp: crystalpay_webhook_def Let_def webhook_body_spec split: if_splits)
  have v: "verify_crystalpay_signature sha1 ?i (Some (cfg_crystalpay_secret cfg)) sig" "cfg_crystalpay_secret cfg \<noteq> []"
    using assms(2,3) raw by (auto simp: crystalpay_webhook_def Let_def split: if_splits)
  then have ne: "?i \<noteq> []" by (auto simp: verify_crystalpay_signature_def split: option.splits if_splits)
  have run: "process_webhook now (acquire_webhook_event now sha_hex crystalpay (?i @ '':'' @ ?st) ?st
      (crystalpay_provider_id body) (safe_headers headers) (concat chunks) w)
      (handle_crystalpay_invoice now cfg api body) True = (Inr (Fresh r), w1)"
    using assms(2,3) raw v ne by (simp add: crystalpay_webhook_def Let_def)
  have "crystalpay_webhook later cfg api sha_hex sha1 loads NoLength chunks' headers' w1 =
      process_webhook later (acquire_webhook_event later sha_hex crystalpay (?i @ '':'' @ ?st) ?st
        (crystalpay_provider_id body) (safe_headers headers') (concat chunks') w1)
        (handle_crystalpay_invoice later cfg api body') True"
    using assms(4-8) v ne by (simp add: crystalpay_webhook_def Let_def webhook_body_spec)
  moreover from cp.records_result [OF assms(1) run] obtain e where e: "events_ok w1"
    "find_event crystalpay (?i @ '':'' @ ?st) w1 = Some e" "we_result_json e = Some r"
    "we_status e \<in> {''processed'', ''ignored''}" by auto
  moreover note cp.answers_from_inbox [OF e(1,2,4), where payload = body' and now = later and cfg = cfg and api = api
      and h = sha_hex and ty = ?st and inv_id = "crystalpay_provider_id body" and hs = "safe_headers headers'"
      and raw = "concat chunks'" and handled = True]
  ultimately show ?thesis by auto
qed

section \<open>Witnesses\<close>

definition paid_update :: "decimal \<Rightarrow> cryptobot_update" where
  "paid_update x = \<lparr> cu_update_id = Some ''1'', cu_update_type = Some ''invoice_paid'',
     cu_payload = \<lparr> wp_status = Some ''paid'', wp_invoice_id = Some ''M'', wp_id = None, wp_state = None,
       wp_amount = RDecimal (Finite x) \<rparr> \<rparr>"

lemma sample_events_ok: "events_ok sample_world"
  by (simp add: events_ok_def sample_rows tkeys_def)

lemma cryptobot_delivery_processed_once_witness:
  "\<exists>w1 st w2. cryptobot_webhook 9 sample_cfg sample_api id id (\<lambda>_ _. ''s'') (\<lambda>_. Body (paid_update 1)) NoLength
       [''b''] (Some ''s'') [] sample_world = (Inr (Fresh WR_amount_mismatch), w1)
     \<and> cryptobot_webhook 10 sample_cfg sample_api id id (\<lambda>_ _. ''s'') (\<lambda>_. Body (paid_update 1)) NoLength
       [''b''] (Some ''s'') [] w1 = (Inr (Duplicate (Some WR_amount_mismatch) st), w2) \<and> same_books w2 w1"
proof -
  have c: "char_of (75 :: nat) = CHR ''K''" "char_of (77 :: nat) = CHR ''M''" "char_of (78 :: nat) = CHR ''N''"
    "char_of (79 :: nat) = CHR ''O''" by code_simp+
  have "\<exists>w1. cryptobot_webhook 9 sample_cfg sample_api id id (\<lambda>_ _. ''s'') (\<lambda>_. Body (paid_update 1)) NoLength
       [''b''] (Some ''s'') [] sample_world = (Inr (Fresh WR_amount_mismatch), w1)"
    by (simp add: cryptobot_webhook_def webhook_body_spec MAX_WEBHOOK_BODY_BYTES_def sample_cfg_def
        verify_webhook_signature_def paid_update_def Let_def process_webhook_def acquire_webhook_event_def
        find_event_def sample_rows handle_invoice_paid_def find_wallet_deposit_def save_event_def c
        check_and_credit_def amounts_match_def AMOUNT_MISMATCH_TOLERANCE_def)
  then obtain w1 where run: "cryptobot_webhook 9 sample_cfg sample_api id id (\<lambda>_ _. ''s'') (\<lambda>_. Body (paid_update 1))
       NoLength [''b''] (Some ''s'') [] sample_world = (Inr (Fresh WR_amount_mismatch), w1)" by blast
  from cryptobot_delivery_processed_once [OF sample_events_ok run, where later = 10 and headers' = "[]"] run
  show ?thesis by blast
qed

definition crystalpay_deposit :: wallet_deposit where
  "crystalpay_deposit = (sample_deposit 13 DS_pending P_wallet None 20) \<lparr> dep_provider := crystalpay \<rparr>"

definition crystalpay_world :: world where
  "crystalpay_world = sample_world \<lparr> t_deposits := [crystalpay_deposit] \<rparr>"

definition paid_body :: "decimal \<Rightarrow> webhook_payload" where
  "paid_body x = \<lparr> wp_status = None, wp_invoice_id = None, wp_id = Some ''M'', wp_state = Some ''payed'',
     wp_amount = RDecimal (Finite x) \<rparr>"

definition sample_loads :: "string \<Rightarrow> (webhook_payload \<times> string option) json_body" where
  "sample_loads raw = Body (paid_body (if raw = ''short'' then 1 else 20), Some ''ab'')"

lemma crystalpay_state_processed_once_witness:
  "\<exists>w1 st w2. crystalpay_webhook 9 sample_cfg sample_api id (\<lambda>_. ''ab'') sample_loads NoLength
       [''short''] [] crystalpay_world = (Inr (Fresh WR_amount_mismatch), w1)
     \<and> crystalpay_webhook 10 sample_cfg sample_api id (\<lambda>_. ''ab'') sample_loads NoLength
       [''full''] [] w1 = (Inr (Duplicate (Some WR_amount_mismatch) st), w2) \<and> same_books w2 w1"
proof -
  have c: "char_of (77 :: nat) = CHR ''M''" and l: "to_lower CHR ''p'' = CHR ''p''" "to_lower CHR ''a'' = CHR ''a''"
    "to_lower CHR ''y'' = CHR ''y''" "to_lower CHR ''e'' = CHR ''e''" "to_lower CHR ''d'' = CHR ''d''"
    "to_lower CHR ''b'' = CHR ''b''" by code_simp+
  have ok: "events_ok crystalpay_world"
    by (simp add: events_ok_def crystalpay_world_def sample_rows tkeys_def)
  have id: "crystalpay_provider_id (paid_body x) = Some ''M''" "wp_state (paid_body x) = Some ''payed''"
    "wp_amount (paid_body x) = RDecimal (Finite x)" for x
    by (simp_all add: crystalpay_provider_id_def paid_body_def)
  have "\<exists>w1. crystalpay_webhook 9 sample_cfg sample_api id (\<lambda>_. ''ab'') sample_loads NoLength
       [''short''] [] crystalpay_world = (Inr (Fresh WR_amount_mismatch), w1)"
    by (simp add: crystalpay_webhook_def webhook_body_spec MAX_WEBHOOK_BODY_BYTES_def sample_cfg_def
        verify_crystalpay_signature_def sample_loads_def id l Let_def process_webhook_def acquire_webhook_event_def
        find_event_def crystalpay_world_def sample_world_def handle_crystalpay_invoice_def find_wallet_deposit_def
        save_event_def c check_and_credit_def amounts_match_def AMOUNT_MISMATCH_TOLERANCE_def
        crystalpay_deposit_def INVOICE_STATE_PAID_def)
  then obtain w1 where run: "crystalpay_webhook 9 sample_cfg sample_api id (\<lambda>_. ''ab'') sample_loads NoLength
       [''short''] [] crystalpay_world = (Inr (Fresh WR_amount_mismatch), w1)" by blast
  have "\<exists>st w2. crystalpay_webhook 10 sample_cfg sample_api id (\<lambda>_. ''ab'') sample_loads NoLength
       [''full''] [] w1 = (Inr (Duplicate (Some WR_amount_mismatch) st), w2) \<and> same_books w2 w1"
    by (rule crystalpay_state_processed_once [OF ok run, where body = "paid_body 1" and body' = "paid_body 20"
        and sig = "Some ''ab''" and sig' = "Some ''ab''"])
      (simp_all add: sample_loads_def id MAX_WEBHOOK_BODY_BYTES_def)
  with run show ?thesis by blast
qed

end
