(* ===== verification/Withdrawals.thy ===== *)
theory Withdrawals
  imports Deposits
begin

text \<open>
  \<open>backend/app/services_wallet.py\<close>, withdrawals: \<open>create_withdrawal\<close> in its three phases (the
  CryptoBot transfer runs between two transactions, while anything may happen to the
  database), and the sweep that reconciles withdrawals left pending.
\<close>

section \<open>Phase 1: lock the funds\<close>

definition auto_withdraw_enabled :: "world \<Rightarrow> bool" where
  "auto_withdraw_enabled w =
     (case t_app_settings w of None \<Rightarrow> False | Some s \<Rightarrow> s_auto_withdraw_enabled s)"

definition admin_exists :: "world \<Rightarrow> bool" where
  "admin_exists w = list_ex u_is_admin (t_users w)"

text \<open>The optional address: sanitised, emptied, checked against the currency's pattern.\<close>

definition checked_address ::
  "(string \<Rightarrow> string \<Rightarrow> regex_outcome) \<Rightarrow> currency \<Rightarrow> string option \<Rightarrow> py_error + string option" where
  "checked_address worker currency address =
     (case address of
        None \<Rightarrow> Inr None
      | Some raw \<Rightarrow>
          let a = sanitise_withdraw_address raw in
          if a = [] then Inr None
          else if c_address_regex currency \<noteq> [] \<and> \<not> safe_fullmatch worker (c_address_regex currency) a
          then Inl (HTTP 400 E_bad_address)
          else Inr (Some a))"

definition withdrawal_event :: "string \<Rightarrow> int \<Rightarrow> ledger_event" where
  "withdrawal_event ty i =
     \<lparr> ev_type = ty, ev_source_type = ''withdrawal'', ev_source_id = Some i, ev_provider = None,
       ev_provider_event_id = None, ev_meta = None \<rparr>"

definition new_withdrawal ::
  "int \<Rightarrow> user \<Rightarrow> currency \<Rightarrow> decimal \<Rightarrow> string option \<Rightarrow> wallet_withdrawal" where
  "new_withdrawal now u cur amount address =
     \<lparr> wd_id = 0, wd_user_id = u_id u, wd_currency_id = c_id cur, wd_amount = amount,
       wd_address = address, wd_status = WS_pending, wd_admin_note = [], wd_created_at = now,
       wd_processed_at = None \<rparr>"

definition lock_withdrawal ::
  "int \<Rightarrow> user \<Rightarrow> currency \<Rightarrow> decimal \<Rightarrow> string option \<Rightarrow> wallet_withdrawal tx" where
  "lock_withdrawal now u currency amount address w =
     (case lock_user_balance (u_id u) (c_id currency) w of Inl e \<Rightarrow> Inl e | Inr (bal, w1) \<Rightarrow>
      if b_amount bal < amount then Inl (HTTP 400 E_insufficient_funds)
      else let bal' = bal \<lparr> b_amount := b_amount bal - amount, b_locked := b_locked bal + amount \<rparr> in
      case insert_withdrawal (new_withdrawal now u currency amount address) (save_balance bal' w1)
      of (x, w2) \<Rightarrow>
        Inr (x, ledgered bal' (b_amount bal) (b_locked bal)
                  ((withdrawal_event ''withdrawal.lock'' (wd_id x))
                     \<lparr> ev_meta := Some [(''status'', MStr ''pending'')] \<rparr>) w2))"

record withdrawal_plan =
  wp_withdrawal :: wallet_withdrawal
  wp_currency :: currency
  wp_auto :: bool
  wp_admin_exists :: bool

definition create_withdrawal_phase1 ::
  "int \<Rightarrow> settings \<Rightarrow> (string \<Rightarrow> string \<Rightarrow> regex_outcome) \<Rightarrow> user \<Rightarrow> string \<Rightarrow> decimal
     \<Rightarrow> string option \<Rightarrow> world \<Rightarrow> withdrawal_plan result" where
  "create_withdrawal_phase1 now cfg worker u currency_code amount address w =
     (case get_currency_by_code currency_code w of Inl e \<Rightarrow> (Inl e, w) | Inr currency \<Rightarrow>
      if amount < c_min_withdraw currency
      then (Inl (HTTP 400 (E_min_withdraw (c_min_withdraw currency) (c_code currency))), w)
      else case checked_address worker currency address of Inl e \<Rightarrow> (Inl e, w) | Inr addr \<Rightarrow>
      let cryptopay_configured = is_cryptopay_configured cfg;
          auto = (if cryptopay_configured then auto_withdraw_enabled w else False);
          admins = admin_exists w in
      if \<not> auto \<and> \<not> admins then (Inl (HTTP 503 E_no_delivery_path), w)
      else (case lock_withdrawal now u currency amount addr w of
              Inl e \<Rightarrow> (Inl e, w)
            | Inr (x, w1) \<Rightarrow>
                (Inr \<lparr> wp_withdrawal = x, wp_currency = currency,
                       wp_auto = (auto \<and> cryptopay_configured), wp_admin_exists = admins \<rparr>, w1)))"

section \<open>Phase 2: the transfer\<close>

text \<open>The \<open>spend_id\<close> is \<open>wd:<id>\<close>, the same on every attempt.\<close>

definition transfer_of :: "user \<Rightarrow> currency \<Rightarrow> decimal \<Rightarrow> wallet_withdrawal \<Rightarrow> transfer_request" where
  "transfer_of u currency amount x =
     \<lparr> trq_user_id = u_tg_user_id u, trq_asset = c_code currency, trq_amount = amount,
       trq_spend_id = wd_id x \<rparr>"

section \<open>Phase 3: settle\<close>

definition transfer_note :: "string \<Rightarrow> int \<Rightarrow> string" where
  "transfer_note pre i = pre @ ''cryptobot_transfer_id='' @ show_int i"

text \<open>The transfer failed and no admin can take over: give the money back, or \<open>None\<close> when a
  row is gone.\<close>

definition withdrawal_auto_failed_refund ::
  "int \<Rightarrow> user \<Rightarrow> currency \<Rightarrow> decimal \<Rightarrow> wallet_withdrawal \<Rightarrow> world
     \<Rightarrow> (wallet_withdrawal \<times> world) option" where
  "withdrawal_auto_failed_refund now u currency amount x w =
     (case (get_withdrawal (wd_id x) w, get_balance (u_id u) (c_id currency) w) of
        (Some w_locked, Some bal) \<Rightarrow>
          let bal' = bal \<lparr> b_amount := b_amount bal + amount,
                           b_locked := max 0 (b_locked bal - amount) \<rparr>;
              x' = w_locked \<lparr> wd_status := WS_rejected, wd_processed_at := Some now,
                              wd_admin_note := ''auto-withdraw failed; no admins available'' \<rparr>;
              w1 = save_withdrawal x' (save_balance bal' w);
              w2 = ledgered bal' (b_amount bal) (b_locked bal)
                     (withdrawal_event ''withdrawal.auto_failed_refund'' (wd_id x')) w1
          in (case notifier_insert now (u_id u) NT_deposits
                    (N_withdraw_failed amount (c_code currency))
                    (Some [(''withdrawal_id'', JInt (wd_id x'))]) w2
              of (n, w3) \<Rightarrow> Some (x', dispatch_after_commit n w3))
      | _ \<Rightarrow> None)"

text \<open>The transfer succeeded: take the amount off the freshly locked balance.\<close>

definition withdrawal_sent ::
  "int \<Rightarrow> user \<Rightarrow> currency \<Rightarrow> decimal \<Rightarrow> wallet_withdrawal \<Rightarrow> cryptopay_transfer \<Rightarrow> world
     \<Rightarrow> wallet_withdrawal \<times> world" where
  "withdrawal_sent now u currency amount x tr w =
     (case get_withdrawal (wd_id x) w of
        None \<Rightarrow> (x, w)
      | Some w_locked \<Rightarrow>
          if wd_status w_locked = WS_sent then (w_locked, w)
          else if wd_status w_locked \<noteq> WS_pending then (w_locked, w)
          else let w1 = (case get_balance (wd_user_id w_locked) (wd_currency_id w_locked) w of
                           None \<Rightarrow> w
                         | Some bal \<Rightarrow>
                             let bal' = bal \<lparr> b_locked := max 0 (b_locked bal - amount) \<rparr>
                             in ledgered bal' (b_amount bal) (b_locked bal)
                                  ((withdrawal_event ''withdrawal.sent'' (wd_id w_locked))
                                     \<lparr> ev_provider := Some ''cryptobot'',
                                       ev_provider_event_id := Some (show_int (tr_transfer_id tr)) \<rparr>)
                                  (save_balance bal' w));
                   x' = w_locked \<lparr> wd_status := WS_sent, wd_processed_at := Some now,
                                   wd_admin_note := transfer_note [] (tr_transfer_id tr) \<rparr>;
                   w2 = save_withdrawal x' w1
               in case notifier_insert now (u_id u) NT_deposits
                         (N_withdraw_sent amount (c_code currency)
                            (withdraw_destination_label (wd_address x)))
                         (Some [(''withdrawal_id'', JInt (wd_id x'))]) w2
                  of (n, w3) \<Rightarrow> (x', dispatch_after_commit n w3))"

text \<open>Manual mode: every admin gets the request.\<close>

definition withdrawal_queue ::
  "int \<Rightarrow> user \<Rightarrow> currency \<Rightarrow> decimal \<Rightarrow> wallet_withdrawal \<Rightarrow> world \<Rightarrow> world" where
  "withdrawal_queue now u currency amount x w =
     (case notify_each now (map u_id (filter u_is_admin (t_users w))) NT_system
             (N_withdraw_request (mention_of u) amount (c_code currency)
                (withdraw_destination_label (wd_address x)))
             (Some [(''withdrawal_id'', JInt (wd_id x))]) w
      of (ns, w1) \<Rightarrow> safe_dispatch ns w1)"

text \<open>
  The whole operation; \<open>others\<close> is what the rest of the system commits while the transfer
  is under way.
\<close>

definition create_withdrawal ::
  "int \<Rightarrow> settings \<Rightarrow> provider_api \<Rightarrow> (string \<Rightarrow> string \<Rightarrow> regex_outcome) \<Rightarrow> user \<Rightarrow> string
     \<Rightarrow> decimal \<Rightarrow> string option \<Rightarrow> (world \<Rightarrow> world) \<Rightarrow> world \<Rightarrow> wallet_withdrawal result" where
  "create_withdrawal now cfg api worker u currency_code amount address others w =
     (case create_withdrawal_phase1 now cfg worker u currency_code amount address w of
        (Inl e, w1) \<Rightarrow> (Inl e, w1)
      | (Inr plan, w1) \<Rightarrow>
          let x = wp_withdrawal plan; currency = wp_currency plan in
          if wp_auto plan
          then (case cp_transfer api (transfer_of u currency amount x) of
                  Some tr \<Rightarrow>
                    (case withdrawal_sent now u currency amount x tr (others w1) of
                       (x', w2) \<Rightarrow> (Inr x', w2))
                | None \<Rightarrow>
                    (case (if wp_admin_exists plan then None
                           else withdrawal_auto_failed_refund now u currency amount x (others w1)) of
                       Some (x', w2) \<Rightarrow> (Inr x', w2)
                     | None \<Rightarrow> (Inr x, withdrawal_queue now u currency amount x (others w1))))
          else (Inr x, withdrawal_queue now u currency amount x w1))"

section \<open>Reconciliation of stale withdrawals\<close>

definition stale_candidate :: "int \<Rightarrow> wallet_withdrawal \<Rightarrow> bool" where
  "stale_candidate cutoff x = (wd_status x = WS_pending \<and> wd_created_at x \<le> cutoff)"

definition append_note :: "string \<Rightarrow> string \<Rightarrow> string" where
  "append_note existing stamp = existing @ (if existing \<noteq> [] then [CHR 0x0A] else []) @ stamp"

definition completed_transfer :: "cryptopay_transfer list \<Rightarrow> cryptopay_transfer option" where
  "completed_transfer ts = List.find (\<lambda>t. tr_status t = ''completed'') ts"

text \<open>
  Phase C for one candidate. \<open>candidate\<close> is the object of phase A: the locking select does
  not ask for \<open>populate_existing\<close>, so the status it rechecks is the one the object already
  carries; only the existence of the row comes from the database. The flush writes the
  three columns that are assigned.
\<close>

definition reconcile_withdrawal ::
  "int \<Rightarrow> wallet_withdrawal \<Rightarrow> cryptopay_transfer option \<Rightarrow> world
     \<Rightarrow> py_error + (((notification \<times> payload option) list \<times> nat) \<times> world)" where
  "reconcile_withdrawal now candidate matched w =
     (case get_withdrawal (wd_id candidate) w of
        None \<Rightarrow> Inr (([], 0), w)
      | Some row \<Rightarrow>
          let w_locked = candidate in
          if wd_status w_locked \<noteq> WS_pending then Inr (([], 0), w)
          else case lock_user_balance (wd_user_id candidate) (wd_currency_id candidate) w of
            Inl e \<Rightarrow> Inl e
          | Inr (bal, w1) \<Rightarrow>
              let amount = wd_amount candidate;
                  code = (case get_currency (wd_currency_id candidate) w1 of
                            None \<Rightarrow> [] | Some c \<Rightarrow> c_code c) in
              case (case matched of
                      Some t \<Rightarrow>
                        (bal \<lparr> b_locked := max 0 (b_locked bal - amount) \<rparr>, WS_sent,
                         transfer_note ''sweep-reconcile: '' (tr_transfer_id t),
                         N_withdraw_sent amount code
                           (withdraw_destination_label (wd_address candidate)))
                    | None \<Rightarrow>
                        (bal \<lparr> b_amount := b_amount bal + amount,
                              b_locked := max 0 (b_locked bal - amount) \<rparr>, WS_rejected,
                         ''sweep-reconcile: no cryptobot transfer for spend_id=wd:''
                           @ show_int (wd_id candidate) @ '', funds refunded'',
                         N_withdraw_swept amount code))
              of (bal', st, stamp, nt) \<Rightarrow>
                let row' = row \<lparr> wd_status := st, wd_processed_at := Some now,
                                  wd_admin_note := append_note (wd_admin_note w_locked) stamp \<rparr>
                in case notifier_insert now (wd_user_id candidate) NT_deposits nt
                          (Some [(''withdrawal_id'', JInt (wd_id candidate))])
                          (save_withdrawal row' (save_balance bal' w1))
                   of (n, w2) \<Rightarrow> Inr (([n], 1), w2))"

text \<open>\<open>others\<close> commits between the phases: what other sessions do during the HTTP call for a
  candidate.\<close>

fun reconcile_all ::
  "int \<Rightarrow> provider_api \<Rightarrow> (int \<Rightarrow> world \<Rightarrow> world) \<Rightarrow> wallet_withdrawal list \<Rightarrow> world
     \<Rightarrow> py_error + (((notification \<times> payload option) list \<times> nat) \<times> world)" where
  "reconcile_all now api others [] w = Inr (([], 0), w)"
| "reconcile_all now api others (c # cs) w =
     (let w0 = others (wd_id c) w in
      case cp_get_transfers api (wd_id c) of
        None \<Rightarrow> reconcile_all now api others cs w0
      | Some transfers \<Rightarrow>
          (case reconcile_withdrawal now c (completed_transfer transfers) w0 of
             Inl e \<Rightarrow> Inl e
           | Inr ((ns, k), w1) \<Rightarrow>
               (case reconcile_all now api others cs w1 of
                  Inl e \<Rightarrow> Inl e
                | Inr ((ns', k'), w2) \<Rightarrow> Inr ((ns @ ns', k + k'), w2))))"

definition sweep_stale_withdrawals ::
  "int \<Rightarrow> settings \<Rightarrow> provider_api \<Rightarrow> (int \<Rightarrow> world \<Rightarrow> world) \<Rightarrow> world \<Rightarrow> nat result" where
  "sweep_stale_withdrawals now cfg api others w =
     (let stale_seconds = cfg_wallet_withdrawal_stale_seconds cfg in
      if stale_seconds \<le> 0 then (Inr 0, w)
      else if \<not> is_cryptopay_configured cfg then (Inr 0, w)
      else let cutoff = now - stale_seconds;
               candidates = filter (stale_candidate cutoff) (t_withdrawals w) in
      if candidates = [] then (Inr 0, w)
      else case reconcile_all now api others candidates w of
             Inl e \<Rightarrow> (Inl e, w)
           | Inr ((pending, reconciled), w1) \<Rightarrow> (Inr reconciled, safe_dispatch pending w1))"

end
