(* ===== verification/AdminMoney.thy ===== *)
theory AdminMoney
  imports Withdrawals
begin

text \<open>
  The admin endpoints that move wallet money: \<open>decide_withdrawal\<close>
  (\<open>backend/app/routers/admin/withdrawals.py\<close>), \<open>adjust_user_balance\<close> and
  \<open>upsert_currency_rate\<close> (\<open>wallets.py\<close>), \<open>mark_paid\<close> and \<open>refund_deposit\<close>
  (\<open>deposits.py\<close>), with \<open>log_admin_action\<close> (\<open>backend/app/admin_audit.py\<close>, without its
  payload size cap and client address).
\<close>

section \<open>Audit\<close>

definition log_admin_action ::
  "user \<Rightarrow> string \<Rightarrow> string \<Rightarrow> int \<Rightarrow> string option \<Rightarrow> meta \<Rightarrow> world \<Rightarrow> world" where
  "log_admin_action actor action target_type target_id reason payload w =
     w \<lparr> t_audit := t_audit w @
          [\<lparr> al_actor_id = Some (u_id actor), al_action = action,
             al_target_type = Some target_type, al_target_id = Some target_id,
             al_reason = reason, al_payload = (if payload = [] then None else Some payload) \<rparr>] \<rparr>"

section \<open>Withdrawal decisions\<close>

record decision =
  dec_action :: string
  dec_note :: "string option"

definition note_text :: "string option \<Rightarrow> string" where
  "note_text n = (case n of None \<Rightarrow> [] | Some t \<Rightarrow> t)"

definition withdrawal_meta :: "wallet_withdrawal \<Rightarrow> currency \<Rightarrow> meta" where
  "withdrawal_meta x cur = [(''user_id'', MInt (wd_user_id x)), (''currency'', MStr (c_code cur)),
     (''amount'', MDec (wd_amount x))]"

definition full_destination :: "string option \<Rightarrow> address_label" where
  "full_destination a = (case a of None \<Rightarrow> ToCryptoBot | Some s \<Rightarrow> if s = [] then ToCryptoBot else WholeAddress s)"

text \<open>Take the amount of a withdrawal off the locked money of its account, when there is one.\<close>

definition burn_withdrawal :: "ledger_event \<Rightarrow> wallet_withdrawal \<Rightarrow> world \<Rightarrow> world" where
  "burn_withdrawal ev x w =
     (case get_balance (wd_user_id x) (wd_currency_id x) w of
        None \<Rightarrow> w
      | Some bal \<Rightarrow>
          let bal' = bal \<lparr> b_locked := max 0 (b_locked bal - wd_amount x) \<rparr>
          in ledgered bal' (b_amount bal) (b_locked bal) ev (save_balance bal' w))"

definition return_withdrawal :: "ledger_event \<Rightarrow> wallet_withdrawal \<Rightarrow> world \<Rightarrow> world" where
  "return_withdrawal ev x w =
     (case get_balance (wd_user_id x) (wd_currency_id x) w of
        None \<Rightarrow> w
      | Some bal \<Rightarrow>
          let bal' = bal \<lparr> b_amount := b_amount bal + wd_amount x,
                           b_locked := max 0 (b_locked bal - wd_amount x) \<rparr>
          in ledgered bal' (b_amount bal) (b_locked bal) ev (save_balance bal' w))"

definition notify_withdrawal ::
  "int \<Rightarrow> notice \<Rightarrow> wallet_withdrawal \<Rightarrow> world \<Rightarrow> (notification \<times> payload option) \<times> world" where
  "notify_withdrawal now nt x w =
     notifier_insert now (wd_user_id x) NT_deposits nt (Some [(''withdrawal_id'', JInt (wd_id x))]) w"

text \<open>The row, its currency and its user, for the three actions.\<close>

definition decision_target :: "int \<Rightarrow> world \<Rightarrow> py_error + (wallet_withdrawal \<times> currency \<times> user)" where
  "decision_target i w =
     (case get_withdrawal i w of
        None \<Rightarrow> Inl (HTTP 404 E_withdrawal_not_found)
      | Some x \<Rightarrow>
      case get_currency (wd_currency_id x) w of
        None \<Rightarrow> Inl (HTTP 404 E_currency_not_found)
      | Some cur \<Rightarrow>
      case get_user (wd_user_id x) w of
        None \<Rightarrow> Inl (HTTP 404 E_user_not_found)
      | Some u \<Rightarrow> Inr (x, cur, u))"

definition approve_withdrawal_row :: "string option \<Rightarrow> wallet_withdrawal \<Rightarrow> wallet_withdrawal" where
  "approve_withdrawal_row remark x = x \<lparr> wd_status := WS_approved, wd_admin_note := note_text remark \<rparr>"

text \<open>Approve, the transfer failed: stamp the row, keep the funds locked, answer 502.\<close>

definition approve_failed ::
  "user \<Rightarrow> string option \<Rightarrow> wallet_withdrawal \<Rightarrow> currency \<Rightarrow> world \<Rightarrow> world" where
  "approve_failed admin remark x cur w =
     (let w1 = (case get_withdrawal (wd_id x) w of
                  None \<Rightarrow> w
                | Some row \<Rightarrow>
                    let err_tag = ''[auto-send failed] CryptoPayError'';
                        existing = strip (wd_admin_note row)
                    in save_withdrawal (row \<lparr> wd_admin_note :=
                         (if existing \<noteq> [] then strip (existing @ [CHR 0x0A] @ err_tag)
                          else err_tag) \<rparr>) w)
      in log_admin_action admin ''withdrawal.auto_send_failed'' ''withdrawal'' (wd_id x) remark
           (withdrawal_meta x cur @ [(''auto'', MBool True)]) w1)"

text \<open>
  Approve, phase 3. The second select has no \<open>populate_existing\<close> and phase 1's object is in
  the session, so the status it checks is the one phase 1 wrote; only the existence of the
  row is news. The flush writes the two columns that are assigned, whatever the row holds.
\<close>

definition approve_phase3 ::
  "int \<Rightarrow> user \<Rightarrow> string option \<Rightarrow> wallet_withdrawal \<Rightarrow> currency \<Rightarrow> cryptopay_transfer \<Rightarrow> world
     \<Rightarrow> wallet_withdrawal result" where
  "approve_phase3 now admin remark x cur tr w =
     (case get_withdrawal (wd_id x) w of
        None \<Rightarrow> (Inl (HTTP 404 E_withdrawal_not_found), w)
      | Some row \<Rightarrow>
          let w_locked = x in
          if wd_status w_locked \<notin> {WS_approved, WS_sent}
          then (Inl (HTTP 409 E_withdrawal_decided), w)
          else if wd_status w_locked = WS_sent then (Inr w_locked, w)
          else let w1 = burn_withdrawal
                          ((withdrawal_event ''withdrawal.sent'' (wd_id w_locked))
                             \<lparr> ev_provider := Some ''cryptobot'',
                               ev_provider_event_id := Some (show_int (tr_transfer_id tr)) \<rparr>)
                          w_locked w;
                   x' = w_locked \<lparr> wd_status := WS_sent, wd_processed_at := Some now \<rparr>;
                   row' = row \<lparr> wd_status := WS_sent, wd_processed_at := Some now \<rparr>
               in case notify_withdrawal now
                         (N_withdraw_sent (wd_amount x') (c_code cur) (full_destination (wd_address x')))
                         x' (save_withdrawal row' w1)
                  of (n, w2) \<Rightarrow>
                    (Inr x', dispatch_after_commit n
                       (log_admin_action admin ''withdrawal.auto_send'' ''withdrawal'' (wd_id x') remark
                          (withdrawal_meta x' cur @ [(''auto'', MBool True),
                             (''cryptobot_transfer_id'', MInt (tr_transfer_id tr))]) w2)))"

text \<open>Approve: \<open>others\<close> commits while the transfer runs.\<close>

definition decide_approve ::
  "int \<Rightarrow> settings \<Rightarrow> provider_api \<Rightarrow> user \<Rightarrow> string option \<Rightarrow> (world \<Rightarrow> world)
     \<Rightarrow> wallet_withdrawal \<Rightarrow> currency \<Rightarrow> user \<Rightarrow> world \<Rightarrow> wallet_withdrawal result" where
  "decide_approve now cfg api admin remark others x cur u w =
     (if wd_status x \<noteq> WS_pending then (Inl (HTTP 409 E_withdrawal_decided), w)
      else let x1 = approve_withdrawal_row remark x; w1 = save_withdrawal x1 w in
      if is_cryptopay_configured cfg
      then (case cp_transfer api (transfer_of u cur (wd_amount x1) x1) of
              None \<Rightarrow> (Inl (HTTP 502 (E_provider_failed cryptobot)),
                       approve_failed admin remark x1 cur (others w1))
            | Some tr \<Rightarrow> approve_phase3 now admin remark x1 cur tr (others w1))
      else (Inr x1, log_admin_action admin ''withdrawal.approve'' ''withdrawal'' (wd_id x1) remark
              (withdrawal_meta x1 cur @ [(''auto'', MBool False),
                 (''cryptobot_transfer_id'', MNull)]) w1))"

definition decide_reject ::
  "int \<Rightarrow> user \<Rightarrow> string option \<Rightarrow> wallet_withdrawal \<Rightarrow> currency \<Rightarrow> world \<Rightarrow> wallet_withdrawal result" where
  "decide_reject now admin remark x cur w =
     (if wd_status x \<notin> {WS_pending, WS_approved} then (Inl (HTTP 409 E_withdrawal_decided), w)
      else let w1 = return_withdrawal
                      ((withdrawal_event ''withdrawal.reject'' (wd_id x))
                         \<lparr> ev_meta := Some [(''admin_id'', MInt (u_id admin))] \<rparr>) x w;
               x' = x \<lparr> wd_status := WS_rejected, wd_admin_note := note_text remark,
                        wd_processed_at := Some now \<rparr>
           in case notify_withdrawal now (N_withdraw_rejected (wd_amount x') (c_code cur) remark) x'
                     (save_withdrawal x' w1)
              of (n, w2) \<Rightarrow>
                (Inr x', dispatch_after_commit n
                   (log_admin_action admin ''withdrawal.reject'' ''withdrawal'' (wd_id x') remark
                      (withdrawal_meta x' cur) w2)))"

definition decide_mark_sent ::
  "int \<Rightarrow> user \<Rightarrow> string option \<Rightarrow> wallet_withdrawal \<Rightarrow> currency \<Rightarrow> world \<Rightarrow> wallet_withdrawal result" where
  "decide_mark_sent now admin remark x cur w =
     (if wd_status x \<noteq> WS_approved then (Inl (HTTP 409 E_withdrawal_not_approved), w)
      else let w1 = burn_withdrawal
                      ((withdrawal_event ''withdrawal.sent'' (wd_id x))
                         \<lparr> ev_meta := Some [(''admin_id'', MInt (u_id admin)),
                                            (''manual'', MBool True)] \<rparr>) x w;
               x' = x \<lparr> wd_status := WS_sent,
                        wd_admin_note := (if note_text remark \<noteq> [] then note_text remark
                                          else wd_admin_note x),
                        wd_processed_at := Some now \<rparr>
           in case notify_withdrawal now
                     (N_withdraw_sent (wd_amount x') (c_code cur) (full_destination (wd_address x'))) x'
                     (save_withdrawal x' w1)
              of (n, w2) \<Rightarrow>
                (Inr x', dispatch_after_commit n
                   (log_admin_action admin ''withdrawal.mark_sent'' ''withdrawal'' (wd_id x') remark
                      (withdrawal_meta x' cur) w2)))"

definition decide_withdrawal ::
  "int \<Rightarrow> settings \<Rightarrow> provider_api \<Rightarrow> user \<Rightarrow> int \<Rightarrow> decision \<Rightarrow> (world \<Rightarrow> world) \<Rightarrow> world
     \<Rightarrow> wallet_withdrawal result" where
  "decide_withdrawal now cfg api admin i body others w =
     (case decision_target i w of Inl e \<Rightarrow> (Inl e, w) | Inr (x, cur, u) \<Rightarrow>
      if dec_action body = ''approve''
      then decide_approve now cfg api admin (dec_note body) others x cur u w
      else if dec_action body = ''reject'' then decide_reject now admin (dec_note body) x cur w
      else if dec_action body = ''mark_sent'' then decide_mark_sent now admin (dec_note body) x cur w
      else (Inr x, w))"

section \<open>Wallets\<close>

definition currency_with_code :: "string \<Rightarrow> world \<Rightarrow> currency option" where
  "currency_with_code code w = List.find (\<lambda>c. c_code c = code) (t_currencies w)"

definition adjust_user_balance ::
  "user \<Rightarrow> int \<Rightarrow> string \<Rightarrow> decimal \<Rightarrow> string option \<Rightarrow> world \<Rightarrow> user_balance result" where
  "adjust_user_balance admin user_id currency_code delta reason w =
     (case get_user user_id w of
        None \<Rightarrow> (Inl (HTTP 404 E_user_not_found), w)
      | Some u \<Rightarrow>
      case currency_with_code currency_code w of
        None \<Rightarrow> (Inl (HTTP 404 E_currency_not_found), w)
      | Some currency \<Rightarrow>
      case lock_user_balance (u_id u) (c_id currency) w of Inl e \<Rightarrow> (Inl e, w) | Inr (bal, w1) \<Rightarrow>
      let before_amount = b_amount bal; new_amount = before_amount + delta in
      if new_amount < 0 then (Inl (HTTP 400 E_insufficient_funds), w)
      else let bal' = bal \<lparr> b_amount := new_amount \<rparr>;
               w2 = ledgered bal' before_amount (b_locked bal)
                      \<lparr> ev_type = ''admin_wallet.adjust'', ev_source_type = ''admin_adjustment'',
                        ev_source_id = Some (u_id u), ev_provider = None,
                        ev_provider_event_id = None,
                        ev_meta = Some [(''admin_id'', MInt (u_id admin)),
                          (''reason'', case reason of None \<Rightarrow> MNull | Some r \<Rightarrow> MStr r)] \<rparr>
                      (save_balance bal' w1)
           in (Inr bal', log_admin_action admin ''wallet.adjust'' ''user'' (u_id u) reason
                 [(''currency'', MStr (c_code currency)), (''delta'', MDec delta),
                  (''before_amount'', MDec before_amount), (''after_amount'', MDec new_amount)] w2))"

definition upsert_currency_rate ::
  "int \<Rightarrow> user \<Rightarrow> string \<Rightarrow> decimal \<Rightarrow> string \<Rightarrow> int option \<Rightarrow> world \<Rightarrow> currency_usd_rate result" where
  "upsert_currency_rate now admin currency_code usd_rate source observed_at w =
     (case currency_with_code currency_code w of
        None \<Rightarrow> (Inl (HTTP 404 E_currency_not_found), w)
      | Some currency \<Rightarrow>
          let old = latest_usd_rate (c_id currency) w;
              rate = \<lparr> r_id = (case old of None \<Rightarrow> int (length (t_usd_rates w)) | Some r \<Rightarrow> r_id r),
                       r_currency_id = c_id currency, r_usd_rate = usd_rate, r_source = source,
                       r_observed_at = (case observed_at of None \<Rightarrow> now | Some t \<Rightarrow> t),
                       r_updated_by_id = Some (u_id admin) \<rparr>;
              row = rate \<lparr> r_usd_rate := column usd_rate \<rparr>;
              w1 = w \<lparr> t_usd_rates := (case old of
                         None \<Rightarrow> t_usd_rates w @ [row]
                       | Some _ \<Rightarrow> tput r_currency_id row (t_usd_rates w)) \<rparr>
          in (Inr rate, log_admin_action admin ''wallet.rate_upsert'' ''currency'' (c_id currency) None
                [(''currency'', MStr (c_code currency)),
                 (''before_usd_rate'', case old of None \<Rightarrow> MNull | Some r \<Rightarrow> MDec (r_usd_rate r)),
                 (''after_usd_rate'', MDec usd_rate), (''source'', MStr source)] w1))"

section \<open>Deposits\<close>

definition deposit_notice ::
  "int \<Rightarrow> wallet_deposit \<Rightarrow> currency \<Rightarrow> notice \<Rightarrow> world \<Rightarrow> (notification \<times> payload option) \<times> world" where
  "deposit_notice now d cur nt w =
     notifier_insert now (dep_user_id d) NT_deposits nt
       (Some [(''deposit_id'', JInt (dep_id d)), (''currency'', JStr (c_code cur))]) w"

definition mark_paid ::
  "int \<Rightarrow> user \<Rightarrow> string option \<Rightarrow> int \<Rightarrow> world \<Rightarrow> wallet_deposit result" where
  "mark_paid now admin reason deposit_id w =
     (case get_deposit deposit_id w of
        None \<Rightarrow> (Inl (HTTP 404 E_deposit_not_found), w)
      | Some d \<Rightarrow>
      if dep_status d = DS_paid then (Inr d, w)
      else case get_currency (dep_currency_id d) w of
        None \<Rightarrow> (Inl (HTTP 500 E_currency_not_found), w)
      | Some currency \<Rightarrow>
      case lock_user_balance (dep_user_id d) (dep_currency_id d) w of Inl e \<Rightarrow> (Inl e, w)
      | Inr (bal, w1) \<Rightarrow>
          let bal' = bal \<lparr> b_amount := b_amount bal + dep_amount d \<rparr>;
              d' = d \<lparr> dep_status := DS_paid, dep_paid_at := Some now \<rparr>
          in case deposit_notice now d' currency (N_deposit_marked_paid (dep_amount d') (c_code currency))
                    (save_deposit d' (save_balance bal' w1))
             of (n, w2) \<Rightarrow>
               (Inr d', dispatch_after_commit n
                  (log_admin_action admin ''deposit.mark_paid'' ''deposit'' (dep_id d') reason
                     [(''user_id'', MInt (dep_user_id d')), (''currency'', MStr (c_code currency)),
                      (''amount'', MDec (dep_amount d'))] w2)))"

definition refund_deposit ::
  "int \<Rightarrow> user \<Rightarrow> string option \<Rightarrow> int \<Rightarrow> world \<Rightarrow> wallet_deposit result" where
  "refund_deposit now admin reason deposit_id w =
     (case get_deposit deposit_id w of
        None \<Rightarrow> (Inl (HTTP 404 E_deposit_not_found), w)
      | Some d \<Rightarrow>
      if dep_status d \<noteq> DS_paid then (Inl (HTTP 400 E_deposit_not_paid), w)
      else case get_currency (dep_currency_id d) w of
        None \<Rightarrow> (Inl (HTTP 500 E_currency_not_found), w)
      | Some currency \<Rightarrow>
      case get_balance (dep_user_id d) (dep_currency_id d) w of
        None \<Rightarrow> (Inl (HTTP 400 E_insufficient_funds), w)
      | Some bal \<Rightarrow>
          if b_amount bal < dep_amount d then (Inl (HTTP 400 E_insufficient_funds), w)
          else let bal' = bal \<lparr> b_amount := b_amount bal - dep_amount d \<rparr>;
                   d' = d \<lparr> dep_status := DS_refunded, dep_paid_at := None \<rparr>
               in case deposit_notice now d' currency (N_deposit_refunded (dep_amount d') (c_code currency))
                         (save_deposit d' (save_balance bal' w))
                  of (n, w2) \<Rightarrow>
                    (Inr d', dispatch_after_commit n
                       (log_admin_action admin ''deposit.refund'' ''deposit'' (dep_id d') reason
                          [(''user_id'', MInt (dep_user_id d')), (''currency'', MStr (c_code currency)),
                           (''amount'', MDec (dep_amount d'))] w2)))"

end
