(* ===== verification/AdminDeals.thy ===== *)
theory AdminDeals
  imports AdminMoney
begin

text \<open>
  \<open>backend/app/routers/admin/deals.py\<close>: the maker-checker approvals, and the admin actions
  on a deal: force-release, force-refund, split, force-arbitration, arbiter assignment,
  deletion. (The chat messages and media files a deletion also removes are not modelled.)
\<close>

section \<open>Approvals\<close>

definition estimate_usd :: "currency \<Rightarrow> decimal \<Rightarrow> world \<Rightarrow> decimal option \<times> currency_usd_rate option" where
  "estimate_usd cur amount w =
     (case latest_usd_rate (c_id cur) w of
        None \<Rightarrow> (None, None)
      | Some rate \<Rightarrow> (Some (amount * r_usd_rate rate), Some rate))"

definition audit_deal :: "user \<Rightarrow> deal \<Rightarrow> string \<Rightarrow> string option \<Rightarrow> meta \<Rightarrow> world \<Rightarrow> world" where
  "audit_deal admin d action reason payload w =
     log_admin_action admin action ''deal'' (d_id d) reason payload w"

definition get_approval :: "int \<Rightarrow> world \<Rightarrow> admin_approval_request option" where
  "get_approval i w = tget ar_id i (t_approvals w)"

definition save_approval :: "admin_approval_request \<Rightarrow> world \<Rightarrow> world" where
  "save_approval a w = w \<lparr> t_approvals := tput ar_id a (t_approvals w) \<rparr>"

definition new_approval ::
  "int \<Rightarrow> user \<Rightarrow> deal \<Rightarrow> currency \<Rightarrow> string \<Rightarrow> decimal \<Rightarrow> decimal option
     \<Rightarrow> currency_usd_rate option \<Rightarrow> string option \<Rightarrow> meta \<Rightarrow> int \<Rightarrow> admin_approval_request" where
  "new_approval now admin d cur action amount amount_usd rate reason payload i =
     \<lparr> ar_id = i, ar_action = action, ar_target_type = ''deal'', ar_target_id = d_id d,
       ar_status = ''pending'', ar_requested_by_id = Some (u_id admin), ar_approved_by_id = None,
       ar_executed_by_id = None, ar_currency_id = Some (c_id cur),
       ar_rate_id = map_option r_id rate, ar_amount = Some (column amount),
       ar_amount_usd_estimate = map_option column amount_usd, ar_reason = reason,
       ar_payload = Some payload, ar_created_at = now, ar_approved_at = None,
       ar_executed_at = None, ar_rejected_at = None \<rparr>"

text \<open>
  \<open>Inr None\<close>: no approval is needed. \<open>Inr (Some a)\<close> with \<open>a\<close> pending: the request was filed
  or found (committed), the action must not run. With \<open>a\<close> approved: it may.
\<close>

definition ensure_approval_or_create ::
  "int \<Rightarrow> decimal \<Rightarrow> user \<Rightarrow> deal \<Rightarrow> currency \<Rightarrow> string \<Rightarrow> decimal \<Rightarrow> string option \<Rightarrow> meta
     \<Rightarrow> int option \<Rightarrow> world \<Rightarrow> admin_approval_request option result" where
  "ensure_approval_or_create now threshold admin d cur action amount reason payload approval_id w =
     (if threshold \<le> 0 then (Inr None, w)
      else case estimate_usd cur amount w of (amount_usd, rate) \<Rightarrow>
      if (case amount_usd of None \<Rightarrow> False | Some x \<Rightarrow> x < threshold) then (Inr None, w)
      else case approval_id of
        None \<Rightarrow>
          (case List.find (\<lambda>a. ar_action a = action \<and> ar_target_type a = ''deal''
                   \<and> ar_target_id a = d_id d \<and> ar_status a = ''pending''
                   \<and> ar_payload a = Some payload) (t_approvals w)
           of Some existing \<Rightarrow> (Inr (Some existing), w)
            | None \<Rightarrow>
                let a = new_approval now admin d cur action amount amount_usd rate reason payload
                          (seq_approvals w);
                    w1 = w \<lparr> t_approvals := t_approvals w @ [a], seq_approvals := seq_approvals w + 1 \<rparr>
                in (Inr (Some a),
                    audit_deal admin d ''deal.approval_requested'' reason
                      [(''approval_id'', MInt (ar_id a)), (''requested_action'', MStr action),
                       (''currency'', MStr (c_code cur)), (''amount'', MDec amount),
                       (''amount_usd_estimate'', case amount_usd of None \<Rightarrow> MNull | Some x \<Rightarrow> MDec x),
                       (''threshold_usd'', MDec threshold),
                       (''rate_missing'', MBool (amount_usd = None))] w1))
      | Some i \<Rightarrow>
          (case get_approval i w of
             None \<Rightarrow> (Inl (HTTP 404 E_approval_not_found), w)
           | Some a \<Rightarrow>
               if ar_status a \<noteq> ''approved'' then (Inl (HTTP 409 E_approval_not_approved), w)
               else if ar_target_type a \<noteq> ''deal'' \<or> ar_target_id a \<noteq> d_id d \<or> ar_action a \<noteq> action
               then (Inl (HTTP 400 E_approval_mismatch), w)
               else if ar_payload a \<noteq> Some payload then (Inl (HTTP 400 E_approval_mismatch), w)
               else if ar_requested_by_id a = Some (u_id admin) \<and> ar_approved_by_id a = None
               then (Inl (HTTP 400 E_approval_second_admin), w)
               else (Inr (Some a), w)))"

definition mark_approval_executed :: "int \<Rightarrow> admin_approval_request option \<Rightarrow> user \<Rightarrow> world \<Rightarrow> world" where
  "mark_approval_executed now approval admin w =
     (case approval of
        None \<Rightarrow> w
      | Some a \<Rightarrow> save_approval (a \<lparr> ar_status := ''executed'', ar_executed_by_id := Some (u_id admin),
                                   ar_executed_at := Some now \<rparr>) w)"

definition approve_deal_approval :: "int \<Rightarrow> int \<Rightarrow> user \<Rightarrow> world \<Rightarrow> admin_approval_request result" where
  "approve_deal_approval now approval_id admin w =
     (case get_approval approval_id w of
        None \<Rightarrow> (Inl (HTTP 404 E_approval_not_found), w)
      | Some a \<Rightarrow>
          if ar_status a \<noteq> ''pending'' then (Inl (HTTP 409 E_approval_not_pending), w)
          else if ar_requested_by_id a = Some (u_id admin)
          then (Inl (HTTP 400 E_approval_second_admin), w)
          else let a' = a \<lparr> ar_status := ''approved'', ar_approved_by_id := Some (u_id admin),
                            ar_approved_at := Some now \<rparr>
               in (Inr a', log_admin_action admin ''deal.approval_approved'' ''deal'' (ar_target_id a')
                     None [(''approval_id'', MInt (ar_id a')),
                           (''requested_action'', MStr (ar_action a'))] (save_approval a' w)))"

definition reject_deal_approval :: "int \<Rightarrow> int \<Rightarrow> user \<Rightarrow> world \<Rightarrow> admin_approval_request result" where
  "reject_deal_approval now approval_id admin w =
     (case get_approval approval_id w of
        None \<Rightarrow> (Inl (HTTP 404 E_approval_not_found), w)
      | Some a \<Rightarrow>
          if ar_status a \<noteq> ''pending'' then (Inl (HTTP 409 E_approval_not_pending), w)
          else let a' = a \<lparr> ar_status := ''rejected'', ar_rejected_at := Some now \<rparr>
               in (Inr a', log_admin_action admin ''deal.approval_rejected'' ''deal'' (ar_target_id a')
                     None [(''approval_id'', MInt (ar_id a')),
                           (''requested_action'', MStr (ar_action a'))] (save_approval a' w)))"

section \<open>Moving the locked money\<close>

definition is_terminal :: "DealStatus \<Rightarrow> bool" where
  "is_terminal st = (st = cancelled \<or> st = completed \<or> st = resolved_for_buyer
     \<or> st = resolved_for_seller \<or> st = cancelled_for_inactivity)"

definition is_active_for_money_movement :: "DealStatus \<Rightarrow> bool" where
  "is_active_for_money_movement st = (st = pending_confirmation \<or> st = in_progress
     \<or> st = pending_cancellation \<or> st = arbitration)"

definition lock_buyer_seller_balances ::
  "deal \<Rightarrow> int \<Rightarrow> world \<Rightarrow> py_error + ((user_balance \<times> user_balance) \<times> world)" where
  "lock_buyer_seller_balances d currency_id w =
     (let first_id = min (d_buyer_id d) (d_seller_id d);
          second_id = max (d_buyer_id d) (d_seller_id d) in
      case lock_user_balance first_id currency_id w of Inl e \<Rightarrow> Inl e | Inr (first, w1) \<Rightarrow>
      case lock_user_balance second_id currency_id w1 of Inl e \<Rightarrow> Inl e | Inr (second, w2) \<Rightarrow>
        Inr (if d_buyer_id d = first_id then (first, second) else (second, first), w2))"

definition admin_deal_event :: "string \<Rightarrow> deal \<Rightarrow> meta option \<Rightarrow> ledger_event" where
  "admin_deal_event ty d m =
     \<lparr> ev_type = ty, ev_source_type = ''deal'', ev_source_id = Some (d_id d), ev_provider = None,
       ev_provider_event_id = None, ev_meta = m \<rparr>"

text \<open>Buyer and seller of a deal are different users, so the two rows are different objects.\<close>

definition release_locked_to_seller :: "deal \<Rightarrow> currency \<Rightarrow> (decimal \<times> decimal) tx" where
  "release_locked_to_seller d cur w =
     (let amt = quantize_money (d_amount d) (c_decimals cur) in
      case lock_buyer_seller_balances d (c_id cur) w of Inl e \<Rightarrow> Inl e | Inr ((buyer, seller), w1) \<Rightarrow>
        let buyer' = buyer \<lparr> b_locked := max 0 (b_locked buyer - amt) \<rparr>;
            seller' = seller \<lparr> b_amount := b_amount seller + amt \<rparr>;
            w2 = save_balance seller' (save_balance buyer' w1);
            w3 = ledgered buyer' (b_amount buyer) (b_locked buyer)
                   (admin_deal_event ''admin_deal.force_release.debit'' d None) w2;
            w4 = ledgered seller' (b_amount seller) (b_locked seller)
                   (admin_deal_event ''admin_deal.force_release.credit'' d None) w3
        in Inr ((amt, amt), w4))"

definition refund_locked_to_buyer :: "deal \<Rightarrow> currency \<Rightarrow> (decimal \<times> decimal) tx" where
  "refund_locked_to_buyer d cur w =
     (let amt = quantize_money (d_amount d) (c_decimals cur) in
      case lock_user_balance (d_buyer_id d) (c_id cur) w of Inl e \<Rightarrow> Inl e | Inr (buyer, w1) \<Rightarrow>
        let buyer' = buyer \<lparr> b_amount := b_amount buyer + amt,
                             b_locked := max 0 (b_locked buyer - amt) \<rparr>
        in Inr ((amt, amt), ledgered buyer' (b_amount buyer) (b_locked buyer)
                   (admin_deal_event ''admin_deal.force_refund'' d None) (save_balance buyer' w1)))"

definition split_shares :: "deal \<Rightarrow> currency \<Rightarrow> decimal \<Rightarrow> decimal \<times> decimal \<times> decimal" where
  "split_shares d cur buyer_percent =
     (let amt = quantize_money (d_amount d) (c_decimals cur);
          buyer_share = quantize_money (amt * buyer_percent / 100) (c_decimals cur)
      in (amt, buyer_share, amt - buyer_share))"

definition split_locked ::
  "deal \<Rightarrow> currency \<Rightarrow> decimal \<Rightarrow> (decimal \<times> decimal \<times> decimal) tx" where
  "split_locked d cur buyer_percent w =
     (case split_shares d cur buyer_percent of (amt, buyer_share, seller_share) \<Rightarrow>
      case lock_buyer_seller_balances d (c_id cur) w of Inl e \<Rightarrow> Inl e | Inr ((buyer, seller), w1) \<Rightarrow>
        let m = Some [(''buyer_percent'', MDec buyer_percent)];
            buyer' = buyer \<lparr> b_amount := b_amount buyer + buyer_share,
                             b_locked := max 0 (b_locked buyer - amt) \<rparr>;
            seller' = seller \<lparr> b_amount := b_amount seller + seller_share \<rparr>;
            w2 = save_balance seller' (save_balance buyer' w1);
            w3 = ledgered buyer' (b_amount buyer) (b_locked buyer)
                   (admin_deal_event ''admin_deal.split.buyer'' d m) w2;
            w4 = ledgered seller' (b_amount seller) (b_locked seller)
                   (admin_deal_event ''admin_deal.split.seller'' d m) w3
        in Inr ((amt, buyer_share, seller_share), w4))"

section \<open>Actions\<close>

text \<open>The locked row, its phase, its currency: the checks the three money actions begin with.\<close>

definition money_action_target :: "int \<Rightarrow> world \<Rightarrow> py_error + (deal \<times> currency)" where
  "money_action_target deal_id w =
     (case get_deal deal_id w of
        None \<Rightarrow> Inl (HTTP 404 E_deal_not_found)
      | Some d \<Rightarrow>
          if \<not> is_active_for_money_movement (d_status d) then Inl (HTTP 400 E_not_active)
          else case get_currency (d_currency_id d) w of
                 None \<Rightarrow> Inl (HTTP 500 E_currency_vanished)
               | Some cur \<Rightarrow> Inr (d, cur))"

text \<open>How the three actions close a deal.\<close>

definition admin_close :: "int \<Rightarrow> user \<Rightarrow> bool \<Rightarrow> deal \<Rightarrow> deal" where
  "admin_close now admin for_buyer d =
     d \<lparr> d_status := (if for_buyer then resolved_for_buyer else resolved_for_seller),
         d_completed_at := Some now, d_arbitration_resolved_by := Some (u_id admin),
         d_arbitration_resolution := Some (if for_buyer then ''buyer'' else ''seller''),
         d_arbitration_resolved_at := (case d_arbitration_resolved_at d of
                                         None \<Rightarrow> Some now | Some t \<Rightarrow> Some t) \<rparr>"

text \<open>What follows the money: audit, approval, both notifications, commit, dispatch.\<close>

definition finish_money_action ::
  "int \<Rightarrow> user \<Rightarrow> deal \<Rightarrow> string \<Rightarrow> string option \<Rightarrow> meta \<Rightarrow> admin_approval_request option
     \<Rightarrow> (int \<times> notice) \<times> (int \<times> notice) \<Rightarrow> world \<Rightarrow> world" where
  "finish_money_action now admin d action reason m approval notices w =
     (case notices of ((r1, n1), (r2, n2)) \<Rightarrow>
      let w1 = audit_deal admin d action reason m (save_deal d w);
          w2 = mark_approval_executed now approval admin w1
      in case notifier_insert now r1 NT_deals n1 (deal_payload (d_id d)) w2 of (p1, w3) \<Rightarrow>
         case notifier_insert now r2 NT_deals n2 (deal_payload (d_id d)) w3 of (p2, w4) \<Rightarrow>
           safe_dispatch [p1, p2] w4)"

record force_body =
  fb_reason :: "string option"
  fb_approval_id :: "int option"

definition approval_meta :: "admin_approval_request option \<Rightarrow> meta_value" where
  "approval_meta a = (case a of None \<Rightarrow> MNull | Some r \<Rightarrow> MInt (ar_id r))"

text \<open>An approval that \<open>ensure_approval_or_create\<close> returned in \<open>pending\<close> stops the action.\<close>

definition blocking :: "admin_approval_request option \<Rightarrow> bool" where
  "blocking a = (case a of None \<Rightarrow> False | Some r \<Rightarrow> ar_status r = ''pending'')"

definition force_release ::
  "int \<Rightarrow> decimal \<Rightarrow> user \<Rightarrow> int \<Rightarrow> force_body \<Rightarrow> world
     \<Rightarrow> (deal \<times> admin_approval_request option) result" where
  "force_release now threshold admin deal_id body w =
     (case money_action_target deal_id w of Inl e \<Rightarrow> (Inl e, w) | Inr (d, cur) \<Rightarrow>
      let amt = quantize_money (d_amount d) (c_decimals cur) in
      case ensure_approval_or_create now threshold admin d cur ''deal.force_release'' amt
             (fb_reason body) [(''currency'', MStr (c_code cur)), (''amount'', MDec amt)]
             (fb_approval_id body) w
      of (Inl e, w1) \<Rightarrow> (Inl e, w1)
       | (Inr approval, w1) \<Rightarrow>
      if blocking approval then (Inr (d, approval), w1)
      else (case release_locked_to_seller d cur w1 of
        Inl e \<Rightarrow> (Inl e, w1)
      | Inr ((locked, payout), w2) \<Rightarrow>
          let d' = admin_close now admin False d
          in (Inr (d', None),
              finish_money_action now admin d' ''deal.force_release'' (fb_reason body)
                [(''before_status'', MStr (status_value (d_status d))),
                 (''after_status'', MStr (status_value (d_status d'))),
                 (''currency'', MStr (c_code cur)), (''locked'', MDec locked),
                 (''payout'', MDec payout), (''approval_id'', approval_meta approval)] approval
                ((d_seller_id d', N_admin_released_seller payout (c_code cur) (d_id d')),
                 (d_buyer_id d', N_admin_released_buyer (d_id d'))) w2)))"

definition force_refund ::
  "int \<Rightarrow> decimal \<Rightarrow> user \<Rightarrow> int \<Rightarrow> force_body \<Rightarrow> world
     \<Rightarrow> (deal \<times> admin_approval_request option) result" where
  "force_refund now threshold admin deal_id body w =
     (case money_action_target deal_id w of Inl e \<Rightarrow> (Inl e, w) | Inr (d, cur) \<Rightarrow>
      let amt = quantize_money (d_amount d) (c_decimals cur) in
      case ensure_approval_or_create now threshold admin d cur ''deal.force_refund'' amt
             (fb_reason body) [(''currency'', MStr (c_code cur)), (''amount'', MDec amt)]
             (fb_approval_id body) w
      of (Inl e, w1) \<Rightarrow> (Inl e, w1)
       | (Inr approval, w1) \<Rightarrow>
      if blocking approval then (Inr (d, approval), w1)
      else (case refund_locked_to_buyer d cur w1 of
        Inl e \<Rightarrow> (Inl e, w1)
      | Inr ((locked, refunded), w2) \<Rightarrow>
          let d' = admin_close now admin True d
          in (Inr (d', None),
              finish_money_action now admin d' ''deal.force_refund'' (fb_reason body)
                [(''before_status'', MStr (status_value (d_status d))),
                 (''after_status'', MStr (status_value (d_status d'))),
                 (''currency'', MStr (c_code cur)), (''locked'', MDec locked),
                 (''refunded'', MDec refunded), (''approval_id'', approval_meta approval)] approval
                ((d_buyer_id d', N_admin_refunded_buyer refunded (c_code cur) (d_id d')),
                 (d_seller_id d', N_admin_refunded_seller (d_id d'))) w2)))"

definition split_deal ::
  "int \<Rightarrow> decimal \<Rightarrow> user \<Rightarrow> int \<Rightarrow> decimal \<Rightarrow> force_body \<Rightarrow> world
     \<Rightarrow> (deal \<times> admin_approval_request option) result" where
  "split_deal now threshold admin deal_id buyer_percent body w =
     (case money_action_target deal_id w of Inl e \<Rightarrow> (Inl e, w) | Inr (d, cur) \<Rightarrow>
      let amt = quantize_money (d_amount d) (c_decimals cur) in
      case ensure_approval_or_create now threshold admin d cur ''deal.split'' amt
             (fb_reason body) [(''currency'', MStr (c_code cur)), (''amount'', MDec amt),
                               (''buyer_percent'', MDec buyer_percent)]
             (fb_approval_id body) w
      of (Inl e, w1) \<Rightarrow> (Inl e, w1)
       | (Inr approval, w1) \<Rightarrow>
      if blocking approval then (Inr (d, approval), w1)
      else (case split_locked d cur buyer_percent w1 of
        Inl e \<Rightarrow> (Inl e, w1)
      | Inr ((locked, buyer_share, seller_share), w2) \<Rightarrow>
          let d' = admin_close now admin (50 \<le> buyer_percent) d
          in (Inr (d', None),
              finish_money_action now admin d' ''deal.split'' (fb_reason body)
                [(''before_status'', MStr (status_value (d_status d))),
                 (''after_status'', MStr (status_value (d_status d'))),
                 (''currency'', MStr (c_code cur)), (''buyer_percent'', MDec buyer_percent),
                 (''buyer_share'', MDec buyer_share), (''seller_share'', MDec seller_share),
                 (''locked'', MDec locked), (''approval_id'', approval_meta approval)] approval
                ((d_buyer_id d', N_admin_split buyer_share (c_code cur) (d_id d')),
                 (d_seller_id d', N_admin_split seller_share (c_code cur) (d_id d'))) w2)))"

text \<open>The UTF-8 bytes of the default reason.\<close>

definition ADMIN_ARBITRATION_REASON :: string where
  "ADMIN_ARBITRATION_REASON =
     [CHR 0xD0, CHR 0x9E, CHR 0xD1, CHR 0x82, CHR 0xD0, CHR 0xBA, CHR 0xD1, CHR 0x80, CHR
      0xD1, CHR 0x8B, CHR 0xD1, CHR 0x82, CHR 0xD0, CHR 0xBE, CHR 0x20, CHR 0xD0, CHR 0xB0,
      CHR 0xD0, CHR 0xB4, CHR 0xD0, CHR 0xBC, CHR 0xD0, CHR 0xB8, CHR 0xD0, CHR 0xBD, CHR
      0xD0, CHR 0xB8, CHR 0xD1, CHR 0x81, CHR 0xD1, CHR 0x82, CHR 0xD1, CHR 0x80, CHR 0xD0,
      CHR 0xB0, CHR 0xD1, CHR 0x82, CHR 0xD0, CHR 0xBE, CHR 0xD1, CHR 0x80, CHR 0xD0, CHR
      0xBE, CHR 0xD0, CHR 0xBC]"

definition force_arbitration :: "int \<Rightarrow> user \<Rightarrow> int \<Rightarrow> string option \<Rightarrow> world \<Rightarrow> deal result" where
  "force_arbitration now admin deal_id reason w =
     (case get_deal deal_id w of
        None \<Rightarrow> (Inl (HTTP 404 E_deal_not_found), w)
      | Some deal \<Rightarrow>
          if is_terminal (d_status deal) then (Inl (HTTP 400 E_deal_closed), w)
          else if d_status deal = arbitration then (Inr deal, w)
          else let d = deal \<lparr> d_status := arbitration, d_arbitration_initiator_id := Some (u_id admin),
                             d_arbitration_reason :=
                               Some (if note_text reason \<noteq> [] then note_text reason
                                     else ADMIN_ARBITRATION_REASON) \<rparr>;
                   w1 = audit_deal admin d ''deal.force_arbitration'' reason
                          [(''before_status'', MStr (status_value (d_status deal))),
                           (''after_status'', MStr (status_value (d_status d)))] (save_deal d w)
               in case notify_each now (parties d) NT_deals (N_admin_arbitration (d_id d))
                         (deal_payload (d_id d)) w1
                  of (ns, w2) \<Rightarrow> (Inr d, safe_dispatch ns w2))"

definition assign_arbiter :: "int \<Rightarrow> user \<Rightarrow> int \<Rightarrow> int option \<Rightarrow> world \<Rightarrow> deal result" where
  "assign_arbiter now admin deal_id arbiter_id w =
     (case get_deal deal_id w of
        None \<Rightarrow> (Inl (HTTP 404 E_deal_not_found), w)
      | Some deal \<Rightarrow>
          if d_status deal \<noteq> arbitration then (Inl (HTTP 400 E_assign_only_in_arbitration), w)
          else case (case arbiter_id of
                       None \<Rightarrow> Inr ()
                     | Some i \<Rightarrow>
                         (case get_user i w of
                            None \<Rightarrow> Inl (HTTP 404 E_user_not_found)
                          | Some a \<Rightarrow> if u_is_arbiter a \<or> u_is_admin a then Inr ()
                                       else Inl (HTTP 400 E_not_an_arbiter)))
          of Inl e \<Rightarrow> (Inl e, w)
           | Inr _ \<Rightarrow>
               if d_arbitration_resolved_by deal = arbiter_id then (Inr deal, w)
               else let d = deal \<lparr> d_arbitration_resolved_by := arbiter_id \<rparr>;
                        opt = (\<lambda>x. case x of None \<Rightarrow> MNull | Some i \<Rightarrow> MInt i);
                        w1 = audit_deal admin d ''deal.assign_arbiter'' None
                               [(''before'', opt (d_arbitration_resolved_by deal)),
                                (''after'', opt arbiter_id)] (save_deal d w)
                    in case notify_each now (case arbiter_id of None \<Rightarrow> [] | Some i \<Rightarrow> [i]) NT_deals
                              (N_admin_arbiter_assigned (d_id d)) (deal_payload (d_id d)) w1
                       of (ns, w2) \<Rightarrow> (Inr d, safe_dispatch ns w2))"

text \<open>
  The row goes; the foreign keys that point at it are \<open>ON DELETE SET NULL\<close>. The refund of
  an active deal writes no ledger entry.
\<close>

definition remove_deal :: "int \<Rightarrow> world \<Rightarrow> world" where
  "remove_deal i w =
     w \<lparr> t_deals := filter (\<lambda>d. d_id d \<noteq> i) (t_deals w),
         t_deposits := tupd (\<lambda>x. dep_linked_deal_id x = Some i)
                         (\<lambda>x. x \<lparr> dep_linked_deal_id := None \<rparr>) (t_deposits w),
         t_reviews := tupd (\<lambda>r. rv_deal_id r = Some i) (\<lambda>r. r \<lparr> rv_deal_id := None \<rparr>) (t_reviews w) \<rparr>"

definition delete_rest ::
  "int \<Rightarrow> user \<Rightarrow> deal \<Rightarrow> currency option \<Rightarrow> string option \<Rightarrow> decimal option \<Rightarrow> world
     \<Rightarrow> (int \<times> decimal option) result" where
  "delete_rest now admin d cur reason refunded w =
     (let snapshot = [(''id'', MInt (d_id d)), (''status'', MStr (status_value (d_status d))),
            (''buyer_id'', MInt (d_buyer_id d)),
            (''seller_id'', MInt (d_seller_id d)),
            (''currency'', case cur of None \<Rightarrow> MNull | Some c \<Rightarrow> MStr (c_code c)),
            (''amount'', MDec (d_amount d)),
            (''commission_amount'', case d_commission_amount d of None \<Rightarrow> MNull | Some x \<Rightarrow> MDec x),
            (''commission_paid'', MBool (d_commission_paid d)),
            (''created_at'', MInt (d_created_at d))]
            @ (case refunded of None \<Rightarrow> [] | Some x \<Rightarrow> [(''refunded'', MDec x)]);
          w1 = remove_deal (d_id d) (audit_deal admin d ''deal.delete'' reason snapshot w);
          back = (case (refunded, cur) of (Some x, Some c) \<Rightarrow> Some (x, c_code c) | _ \<Rightarrow> None)
      in case notifier_insert now (d_buyer_id d) NT_deals (N_admin_deleted (d_id d) back)
                (deal_payload (d_id d)) w1 of (p1, w2) \<Rightarrow>
         case notifier_insert now (d_seller_id d) NT_deals (N_admin_deleted (d_id d) None)
                (deal_payload (d_id d)) w2 of (p2, w3) \<Rightarrow>
           (Inr (d_id d, refunded), safe_dispatch [p1, p2] w3))"

definition delete_deal ::
  "int \<Rightarrow> user \<Rightarrow> int \<Rightarrow> string option \<Rightarrow> world \<Rightarrow> (int \<times> decimal option) result" where
  "delete_deal now admin deal_id reason w =
     (case get_deal deal_id w of
        None \<Rightarrow> (Inl (HTTP 404 E_deal_not_found), w)
      | Some d \<Rightarrow>
      case get_currency (d_currency_id d) w of
        Some cur \<Rightarrow>
          (if is_active_for_money_movement (d_status d)
           then let pot = quantize_money (d_amount d) (c_decimals cur) in
                case lock_user_balance (d_buyer_id d) (c_id cur) w of
                  Inl e \<Rightarrow> (Inl e, w)
                | Inr (bal, w1) \<Rightarrow>
                    let bal' = bal \<lparr> b_amount := b_amount bal + pot,
                                     b_locked := max 0 (b_locked bal - pot) \<rparr>
                    in delete_rest now admin d (Some cur) reason (Some pot) (save_balance bal' w1)
           else delete_rest now admin d (Some cur) reason None w)
      | None \<Rightarrow> delete_rest now admin d None reason None w)"

end
