(* ===== verification/Enforcement.thy ===== *)
theory Enforcement
  imports AdminDeals Books
begin

text \<open>
  What the administrators' actions on a deal (\<open>AdminDeals\<close>) do to the money and the books.
  The locale \<open>forced_payout\<close> is the contract force-release, force-refund and split share; it
  gives the effect on the accounts and the need for a second administrator. Two results show
  gaps: arbitration forced on an unfunded deal, and deletion without a ledger entry.
\<close>

section \<open>The money of an admin action\<close>

lemma lock_buyer_seller_effect:
  assumes "lock_buyer_seller_balances d c w = Inr ((buyer, seller), w1)" and "d_buyer_id d \<noteq> d_seller_id d"
  shows "get_balance (d_buyer_id d) c w1 = Some buyer" and "get_balance (d_seller_id d) c w1 = Some seller"
    and "accounts w1 = accounts w" and "t_ledger w1 = t_ledger w" and "balances_ok w \<Longrightarrow> balances_ok w1"
    and "same_books w1 (w1 \<lparr> t_deals := t_deals w, t_withdrawals := t_withdrawals w, t_deposits := t_deposits w,
          t_currencies := t_currencies w, seq_deals := seq_deals w, seq_deposits := seq_deposits w,
          seq_withdrawals := seq_withdrawals w \<rparr>)"
    and "t_users w1 = t_users w" and "t_approvals w1 = t_approvals w"
proof -
  obtain b1 v1 b2 where 1: "lock_user_balance (min (d_buyer_id d) (d_seller_id d)) c w = Inr (b1, v1)"
    and 2: "lock_user_balance (max (d_buyer_id d) (d_seller_id d)) c v1 = Inr (b2, w1)"
    and b: "(buyer, seller) = (if d_buyer_id d = min (d_buyer_id d) (d_seller_id d) then (b1, b2) else (b2, b1))"
    using assms(1) by (auto simp: lock_buyer_seller_balances_def Let_def split: sum.splits)
  note p = lock_pair [OF 1 2] and f = lock_user_balance_frame [OF 1] lock_user_balance_frame [OF 2]
  show "get_balance (d_buyer_id d) c w1 = Some buyer" "get_balance (d_seller_id d) c w1 = Some seller"
    using p(1,2) b by (auto split: if_splits)
  show "accounts w1 = accounts w" "t_ledger w1 = t_ledger w" "balances_ok w \<Longrightarrow> balances_ok w1" by (rule p)+
  show "same_books w1 (w1 \<lparr> t_deals := t_deals w, t_withdrawals := t_withdrawals w, t_deposits := t_deposits w,
          t_currencies := t_currencies w, seq_deals := seq_deals w, seq_deposits := seq_deposits w,
          seq_withdrawals := seq_withdrawals w \<rparr>)" using f by (simp add: same_books_def)
  show "t_users w1 = t_users w" "t_approvals w1 = t_approvals w" using f by simp_all
qed

text \<open>The tables an admin money step leaves alone.\<close>

definition only_money :: "world \<Rightarrow> world \<Rightarrow> bool" where
  "only_money w' w \<longleftrightarrow> t_deals w' = t_deals w \<and> t_withdrawals w' = t_withdrawals w \<and> t_deposits w' = t_deposits w
     \<and> t_currencies w' = t_currencies w \<and> seq_deals w' = seq_deals w \<and> seq_deposits w' = seq_deposits w
     \<and> seq_withdrawals w' = seq_withdrawals w \<and> t_approvals w' = t_approvals w \<and> t_users w' = t_users w"

text \<open>The buyer's lock is divided between the two parties.\<close>

lemma divide_lock:
  assumes lock: "lock_buyer_seller_balances d c w = Inr ((buyer, seller), w1)" and ne: "d_buyer_id d \<noteq> d_seller_id d"
    and ok: "balances_ok w" and x: "0 \<le> bs" "storable bs" "0 \<le> ss" "storable ss"
    and le: "bs + ss \<le> held w (d_buyer_id d) c"
    and b': "b' = buyer \<lparr> b_amount := b_amount buyer + bs, b_locked := max 0 (b_locked buyer - (bs + ss)) \<rparr>"
    and s': "s' = seller \<lparr> b_amount := b_amount seller + ss \<rparr>"
    and w': "w' = ledgered s' (b_amount seller) (b_locked seller) ev2
      (ledgered b' (b_amount buyer) (b_locked buyer) ev1 (save_balance s' (save_balance b' w1)))"
  shows "accounts w' = a_credit (d_seller_id d) c ss (a_credit (d_buyer_id d) c bs
           (a_burn (d_buyer_id d) c (bs + ss) (accounts w)))"
    and "balances_ok w'" and "audited w w'" and "total c' w' = total c' w" and "only_money w' w"
proof -
  note L = lock_buyer_seller_effect [OF lock ne]
  have g: "get_balance (d_buyer_id d) c w1 = Some buyer" "get_balance (d_seller_id d) c w1 = Some seller" by (rule L)+
  have ok1: "balances_ok w1" using L(5) ok .
  have lb: "lock_user_balance (d_buyer_id d) c w1 = Inr (buyer, w1)" and ls: "lock_user_balance (d_seller_id d) c w1 = Inr (seller, w1)"
    using g by (simp_all add: lock_user_balance_def)
  note lb' = lock_user_balance_ok [OF lb] lock_user_balance_balances_ok [OF lb ok1]
    and ls' = lock_user_balance_ok [OF ls] lock_user_balance_balances_ok [OF ls ok1]
  have keys: "b_user_id buyer = d_buyer_id d" "b_currency_id buyer = c" "b_user_id seller = d_seller_id d" "b_currency_id seller = c"
    using lb'(2,3) ls'(2,3) by simp_all
  have held: "bs + ss \<le> b_locked buyer" using le L(3) lb'(5) by simp
  have okb: "balance_ok b'" using lb'(7) x held keys unfolding b' balance_ok_def by (auto intro: grid)
  have oks: "balance_ok s'" using ls'(7) x unfolding s' balance_ok_def by (auto intro: grid)
  have kb: "b_user_id b' = d_buyer_id d" "b_currency_id b' = c" "b_user_id s' = d_seller_id d" "b_currency_id s' = c"
    using keys by (simp_all add: b' s')
  have g': "get_balance (b_user_id b') (b_currency_id b') w1 = Some buyer" "get_balance (b_user_id s') (b_currency_id s') w1 = Some seller"
    using g kb by simp_all
  let ?v1 = "save_balance b' w1" and ?v2 = "save_balance s' (save_balance b' w1)"
  have acc1: "accounts ?v1 = a_upd (d_buyer_id d) c (\<lambda>_. (b_amount b', b_locked b')) (accounts w1)"
    using accounts_save [OF g'(1) okb] kb by simp
  have ok2: "balances_ok ?v1" using balances_ok_save [OF ok1 okb] .
  have gs: "get_balance (b_user_id s') (b_currency_id s') ?v1 = Some seller"
    using get_balance_save [OF g'(1)] g'(2) kb ne by simp
  have acc2: "accounts ?v2 = a_upd (d_seller_id d) c (\<lambda>_. (b_amount s', b_locked s')) (accounts ?v1)"
    using accounts_save [OF gs oks] kb by simp
  have eq: "t_balances w' = t_balances ?v2" by (simp add: w')
  show acc: "accounts w' = a_credit (d_seller_id d) c ss (a_credit (d_buyer_id d) c bs
           (a_burn (d_buyer_id d) c (bs + ss) (accounts w)))"
    using accounts_cong [OF eq] acc1 acc2 L(3) lb'(5) ls'(5) ne
    by (auto simp: a_defs b' s' fun_eq_iff)
  show bal: "balances_ok w'" using balances_ok_save [OF ok2 oks] balances_ok_cong [OF eq] by simp
  have "audited w1 w'"
    unfolding w' by (rule audited_two_writes) (use ok1 okb oks g' kb ne in simp_all)
  then show "audited w w'" by (rule audited_from [rotated 2]) (use L in simp_all)
  show "only_money w' w" using L(6-8) by (simp add: only_money_def same_books_def w')
  have acc': "accounts w' = a_upd (d_seller_id d) c (\<lambda>_. (b_amount s', b_locked s'))
      (a_upd (d_buyer_id d) c (\<lambda>_. (b_amount b', b_locked b')) (accounts w))"
    using accounts_cong [OF eq] acc1 acc2 L(3) by simp
  obtain U where U: "finite U" "{d_buyer_id d, d_seller_id d} \<subseteq> U" "total c' w = acc_sum U c' (accounts w)"
    "total c' w' = acc_sum U c' (accounts w')"
    using totals_over [OF ok bal, of "{d_buyer_id d, d_seller_id d}"] by auto
  have m: "b_amount b' + b_locked b' = b_amount buyer + b_locked buyer - ss" "b_amount s' + b_locked s' = b_amount seller + b_locked seller + ss"
    using held x by (simp_all add: b' s')
  have a: "accounts w (d_buyer_id d) c = (b_amount buyer, b_locked buyer)" "accounts w (d_seller_id d) c = (b_amount seller, b_locked seller)"
    using lb'(5) ls'(5) L(3) by simp_all
  have o: "a_upd (d_buyer_id d) c F A (d_seller_id d) c = A (d_seller_id d) c" for F A
    using ne by (simp add: a_upd_def)
  show "total c' w' = total c' w"
    unfolding U(3,4) acc' using U(1,2) ne m a by (simp add: acc_sum_upd o)
qed


definition divided :: "deal \<Rightarrow> decimal \<Rightarrow> decimal \<Rightarrow> world \<Rightarrow> world \<Rightarrow> bool" where
  "divided d bs ss w w' \<longleftrightarrow>
     accounts w' = a_credit (d_seller_id d) (d_currency_id d) ss (a_credit (d_buyer_id d) (d_currency_id d) bs
       (a_burn (d_buyer_id d) (d_currency_id d) (bs + ss) (accounts w)))
     \<and> balances_ok w' \<and> audited w w' \<and> (\<forall>c. total c w' = total c w) \<and> only_money w' w"

lemma a_credit_0 [simp]: "a_credit u c 0 A = A"
  by (auto simp: a_defs fun_eq_iff)

lemma held_divided:
  assumes "divided d bs ss w w'" and "bs + ss \<le> held w (d_buyer_id d) (d_currency_id d)"
  shows "held w' u c = held w u c - (if u = d_buyer_id d \<and> c = d_currency_id d then bs + ss else 0)"
  using assms by (auto simp: divided_def a_defs split: prod.splits)

lemma target_facts:
  assumes "books_ok w" and "get_deal (d_id d) w = Some d" and "holds_escrow (d_status d)"
    and "get_currency (d_currency_id d) w = Some cur"
  shows "balances_ok w" "0 \<le> d_amount d" "storable (d_amount d)" "d_buyer_id d \<noteq> d_seller_id d"
    "quantize_money (d_amount d) (c_decimals cur) = d_amount d" "c_id cur = d_currency_id d"
    "d_amount d \<le> held w (d_buyer_id d) (d_currency_id d)" "c_decimals cur \<le> MONEY_SCALE"
    "on_grid (c_decimals cur) (d_amount d)"
proof -
  note f = get_deal_facts [OF assms(1,2)]
  show "balances_ok w" "0 \<le> d_amount d" "storable (d_amount d)" "d_buyer_id d \<noteq> d_seller_id d" by (rule f)+
  show "quantize_money (d_amount d) (c_decimals cur) = d_amount d" using quantize_deal_amount [OF f(2) assms(4)] .
  show "c_id cur = d_currency_id d" using get_currency_id [OF assms(4)] .
  show "d_amount d \<le> held w (d_buyer_id d) (d_currency_id d)"
    using deal_hold_le_held [OF assms(1,2), of "d_buyer_id d" "d_currency_id d"] assms(3) by (simp add: deal_hold_def)
  show "c_decimals cur \<le> MONEY_SCALE"
    using assms(1,4) by (auto simp: books_ok_def currencies_ok_def get_currency_def list_all_iff dest: tget_Some)
  show "on_grid (c_decimals cur) (d_amount d)" using f(2) assms(4) by (simp add: deal_ok_def)
qed

lemma lock_buyer_seller_total: "\<exists>b s w1. lock_buyer_seller_balances d c w = Inr ((b, s), w1)"
proof -
  obtain b1 v1 where "lock_user_balance (min (d_buyer_id d) (d_seller_id d)) c w = Inr (b1, v1)"
    using lock_user_balance_total by blast
  moreover obtain b2 v2 where "lock_user_balance (max (d_buyer_id d) (d_seller_id d)) c v1 = Inr (b2, v2)"
    using lock_user_balance_total by blast
  ultimately show ?thesis by (auto simp: lock_buyer_seller_balances_def Let_def)
qed

lemma release_divides:
  assumes "books_ok w" and "get_deal (d_id d) w = Some d" and "holds_escrow (d_status d)"
    and "get_currency (d_currency_id d) w = Some cur"
  shows "\<exists>w2. release_locked_to_seller d cur w = Inr ((d_amount d, d_amount d), w2) \<and> divided d 0 (d_amount d) w w2"
proof -
  note t = target_facts [OF assms]
  obtain b s w1 where lock: "lock_buyer_seller_balances d (d_currency_id d) w = Inr ((b, s), w1)"
    using lock_buyer_seller_total by blast
  let ?b = "b \<lparr> b_amount := b_amount b + 0, b_locked := max 0 (b_locked b - (0 + d_amount d)) \<rparr>"
  let ?s = "s \<lparr> b_amount := b_amount s + d_amount d \<rparr>"
  let ?w2 = "ledgered ?s (b_amount s) (b_locked s) (admin_deal_event ''admin_deal.force_release.credit'' d None)
     (ledgered ?b (b_amount b) (b_locked b) (admin_deal_event ''admin_deal.force_release.debit'' d None)
       (save_balance ?s (save_balance ?b w1)))"
  have run: "release_locked_to_seller d cur w = Inr ((d_amount d, d_amount d), ?w2)"
    using lock t(5,6) by (simp add: release_locked_to_seller_def Let_def)
  have 0: "(0::decimal) \<le> 0" "storable (0::decimal)" by simp_all
  have le: "0 + d_amount d \<le> held w (d_buyer_id d) (d_currency_id d)" using t(7) by simp
  note D = divide_lock [OF lock t(4,1) 0 t(2,3) le refl refl refl]
  have "divided d 0 (d_amount d) w ?w2"
    unfolding divided_def by (intro conjI allI D)
  then show ?thesis using run by blast
qed

lemma split_divides:
  assumes "books_ok w" and "get_deal (d_id d) w = Some d" and "holds_escrow (d_status d)"
    and "get_currency (d_currency_id d) w = Some cur" and p: "0 \<le> p" "p \<le> 100"
  shows "\<exists>bs w2. split_locked d cur p w = Inr ((d_amount d, bs, d_amount d - bs), w2)
    \<and> bs = quantize_money (d_amount d * p / 100) (c_decimals cur) \<and> 0 \<le> bs \<and> bs \<le> d_amount d
    \<and> divided d bs (d_amount d - bs) w w2"
proof -
  note t = target_facts [OF assms(1-4)]
  obtain b s w1 where lock: "lock_buyer_seller_balances d (d_currency_id d) w = Inr ((b, s), w1)"
    using lock_buyer_seller_total by blast
  define bs where bs: "bs = quantize_money (d_amount d * p / 100) (c_decimals cur)"
  have "d_amount d * p / 100 \<le> d_amount d" using t(2) p mult_left_mono [of p 100 "d_amount d"] by simp
  then have le_amt: "bs \<le> d_amount d" unfolding bs using t(9) by (rule quantize_le_grid)
  have nonneg: "0 \<le> bs" unfolding bs using t(2) p by simp
  have st: "storable bs" unfolding bs using t(8) by (rule storable_quantize)
  let ?ss = "d_amount d - bs"
  have ss: "0 \<le> ?ss" "storable ?ss" using le_amt st t(3) by (auto intro: grid)
  have le: "bs + ?ss \<le> held w (d_buyer_id d) (d_currency_id d)" using t(7) by simp
  let ?m = "Some [(''buyer_percent'', MDec p)]"
  let ?b = "b \<lparr> b_amount := b_amount b + bs, b_locked := max 0 (b_locked b - (bs + ?ss)) \<rparr>"
  let ?s = "s \<lparr> b_amount := b_amount s + ?ss \<rparr>"
  let ?w2 = "ledgered ?s (b_amount s) (b_locked s) (admin_deal_event ''admin_deal.split.seller'' d ?m)
     (ledgered ?b (b_amount b) (b_locked b) (admin_deal_event ''admin_deal.split.buyer'' d ?m)
       (save_balance ?s (save_balance ?b w1)))"
  have run: "split_locked d cur p w = Inr ((d_amount d, bs, ?ss), ?w2)"
    using lock t(5,6) by (simp add: split_locked_def split_shares_def Let_def bs)
  note D = divide_lock [OF lock t(4,1) nonneg st ss le refl refl refl]
  have "divided d bs ?ss w ?w2"
    unfolding divided_def by (intro conjI allI D)
  then show ?thesis using run bs nonneg le_amt by blast
qed

lemma refund_divides:
  assumes "books_ok w" and "get_deal (d_id d) w = Some d" and "holds_escrow (d_status d)"
    and "get_currency (d_currency_id d) w = Some cur"
  shows "\<exists>w2. refund_locked_to_buyer d cur w = Inr ((d_amount d, d_amount d), w2) \<and> divided d (d_amount d) 0 w w2"
proof -
  note t = target_facts [OF assms]
  obtain b w1 where lock: "lock_user_balance (d_buyer_id d) (d_currency_id d) w = Inr (b, w1)"
    using lock_user_balance_total by blast
  note l = lock_user_balance_ok [OF lock] and lb = lock_user_balance_balances_ok [OF lock t(1)]
    and f = lock_user_balance_frame [OF lock]
  let ?b = "b \<lparr> b_amount := b_amount b + d_amount d, b_locked := max 0 (b_locked b - d_amount d) \<rparr>"
  let ?w2 = "ledgered ?b (b_amount b) (b_locked b) (admin_deal_event ''admin_deal.force_refund'' d None) (save_balance ?b w1)"
  have run: "refund_locked_to_buyer d cur w = Inr ((d_amount d, d_amount d), ?w2)"
    using lock t(5,6) by (simp add: refund_locked_to_buyer_def Let_def)
  have ok': "balance_ok ?b" using lb(2) t(2,3) by (auto simp: balance_ok_def grid)
  have key: "b_user_id ?b = d_buyer_id d" "b_currency_id ?b = d_currency_id d" using l by simp_all
  have eq: "t_balances ?w2 = t_balances (save_balance ?b w1)" by simp
  note r = written_row [OF lock t(1) ok' key eq]
  have "accounts ?w2 = a_credit (d_seller_id d) (d_currency_id d) 0 (a_credit (d_buyer_id d) (d_currency_id d) (d_amount d)
      (a_burn (d_buyer_id d) (d_currency_id d) (d_amount d + 0) (accounts w)))"
    using r(1) l(5) by (auto simp: a_defs fun_eq_iff)
  moreover have "audited w ?w2" by (rule audited_write) (use lock key t(1) ok' f in simp_all)
  moreover have "d_amount d \<le> b_locked b" using t(7) l(5) by simp
  then have "total c ?w2 = total c w" for c using r(3) by simp
  moreover have "only_money ?w2 w" using f by (simp add: only_money_def)
  ultimately have "divided d (d_amount d) 0 w ?w2" using r(2) unfolding divided_def by simp
  then show ?thesis using run by blast
qed

section \<open>Closing the deal\<close>

lemma close_divided:
  assumes ok: "books_ok w" and get: "get_deal (d_id d) w = Some d" and hold: "holds_escrow (d_status d)"
    and div: "divided d bs ss w w2" and sum: "bs + ss = d_amount d"
    and c: "closed_by d' w2 w'" and s: "same_deal d d'" and st: "\<not> holds_escrow (d_status d')"
  shows "books_ok w' \<and> get_deal (d_id d) w' = Some (deal_row d') \<and> accounts w' = accounts w2
    \<and> audited w w' \<and> total c' w' = total c' w"
proof -
  have le: "d_amount d \<le> held w (d_buyer_id d) (d_currency_id d)"
    using deal_hold_le_held [OF ok get, of "d_buyer_id d" "d_currency_id d"] hold by (simp add: deal_hold_def)
  have oks: "deals_ok w" "withdrawals_ok w" "deposits_ok w" "deal_ok w d" using ok get by (auto simp: books_ok_def intro: get_deal_ok)
  have o: "only_money w2 w" "balances_ok w2" using div by (simp_all add: divided_def)
  have bal: "balances_ok w'" using c o(2) balances_ok_cong [of w' w2] by (simp add: closed_by_def)
  have amt: "storable (d_amount d')" using oks(4) s by (simp add: deal_ok_def same_deal_def)
  have r: "deal_ok w (deal_row d')" using deal_ok_row [OF deal_ok_same [OF s oks(4)]] .
  have id: "d_id (deal_row d') = d_id d" using s by (simp add: same_deal_def)
  then have get': "get_deal (d_id (deal_row d')) w = Some d" using get by simp
  have rows: "t_deals w' = tput d_id (deal_row d') (t_deals w)" "seq_deals w' = seq_deals w" "t_currencies w' = t_currencies w"
    "t_withdrawals w' = t_withdrawals w" "seq_withdrawals w' = seq_withdrawals w"
    "t_deposits w' = t_deposits w" "seq_deposits w' = seq_deposits w"
    using c o by (simp_all add: closed_by_def only_money_def)
  note du = deals_update [OF oks(1) get' rows(1-3) r] and ws = withdrawals_same [OF oks(2) rows(4,5)]
    and dep = deposits_same [OF oks(3) rows(6,7)]
  have h: "held w' u c = held w u c - deal_hold d u c" for u c
    using held_divided [OF div] le sum hold closed_accounts [OF c] by (simp add: deal_hold_def)
  have "books_ok w'"
    by (rule books_ok_step [OF ok bal du(1) ws(1) dep rows(3)])
      (simp add: du(2) ws(2) h amt deal_hold_none [OF st])
  moreover have "get_deal (d_id d) w' = Some (deal_row d')"
    using tget_tput_same [of d_id "deal_row d'" "t_deals w" d] get id rows(1) by (simp add: get_deal_def)
  moreover have "audited w2 w'" by (rule audited_same [OF _ _ audited_refl]) (use c in \<open>simp_all add: closed_by_def\<close>)
  then have "audited w w'" using div audited_trans by (auto simp: divided_def)
  moreover have "total c' w' = total c' w" using c div by (simp add: closed_by_def total_def divided_def)
  ultimately show ?thesis using closed_accounts [OF c] by simp
qed

lemma finish_money_action_closed:
  "closed_by d' w2 (finish_money_action now admin d' a r m ap ns w2)"
  "t_approvals (finish_money_action now admin d' a r m ap ns w2) =
     (case ap of None \<Rightarrow> t_approvals w2
      | Some x \<Rightarrow> tput ar_id (x \<lparr> ar_status := ''executed'', ar_executed_by_id := Some (u_id admin),
                                 ar_executed_at := Some now \<rparr>) (t_approvals w2))"
  by (simp_all add: closed_by_def finish_money_action_def Let_def case_prod_beta audit_deal_def log_admin_action_def
      mark_approval_executed_def save_approval_def split: option.splits)

lemma admin_close_simps [simp]:
  "same_deal d (admin_close now admin b d)"
  "d_status (admin_close now admin b d) = (if b then resolved_for_buyer else resolved_for_seller)"
  by (simp_all add: admin_close_def same_deal_def)

lemma active_holds: "is_active_for_money_movement st = holds_escrow st"
  by (cases st) (simp_all add: is_active_for_money_movement_def)

lemma money_action_target_Inr:
  "money_action_target i w = Inr (d, cur) \<Longrightarrow>
     get_deal (d_id d) w = Some d \<and> d_id d = i \<and> holds_escrow (d_status d) \<and> get_currency (d_currency_id d) w = Some cur"
  using get_deal_in
  by (fastforce simp: money_action_target_def active_holds split: option.splits if_splits)

section \<open>Approvals\<close>

definition usd_below :: "decimal \<Rightarrow> currency \<Rightarrow> decimal \<Rightarrow> world \<Rightarrow> bool" where
  "usd_below threshold cur amt w \<longleftrightarrow> (\<exists>x. fst (estimate_usd cur amt w) = Some x \<and> x < threshold)"

lemma ensure_refuses: "ensure_approval_or_create now thr admin d cur act amt reason pl i w = (Inl e, w1) \<Longrightarrow> w1 = w"
  by (auto simp: ensure_approval_or_create_def Let_def split: if_splits option.splits prod.splits)

lemma ensure_same_books: "ensure_approval_or_create now thr admin d cur act amt reason pl i w = (r, w1) \<Longrightarrow> same_books w1 w"
  by (auto simp: ensure_approval_or_create_def Let_def audit_deal_def log_admin_action_def same_books_def
      split: if_splits option.splits prod.splits)

text \<open>What lets an action run: too small a sum, or an approved request for exactly this action.\<close>

lemma ensure_lets_run:
  assumes "ensure_approval_or_create now thr admin d cur act amt reason pl i w = (Inr ap, w1)" and "\<not> blocking ap"
  shows "w1 = w" and "case ap of None \<Rightarrow> thr \<le> 0 \<or> usd_below thr cur amt w
    | Some r \<Rightarrow> i = Some (ar_id r) \<and> get_approval (ar_id r) w = Some r \<and> ar_status r = ''approved''
        \<and> ar_action r = act \<and> ar_target_id r = d_id d \<and> ar_payload r = Some pl"
proof -
  have f: "List.find P xs = Some a \<Longrightarrow> P a" for P and xs :: "admin_approval_request list" and a
    by (auto simp: find_Some_iff)
  have *: "w1 = w \<and> (case ap of None \<Rightarrow> thr \<le> 0 \<or> usd_below thr cur amt w
    | Some r \<Rightarrow> i = Some (ar_id r) \<and> get_approval (ar_id r) w = Some r \<and> ar_status r = ''approved''
        \<and> ar_action r = act \<and> ar_target_id r = d_id d \<and> ar_payload r = Some pl)"
    using assms
    by (auto simp: ensure_approval_or_create_def Let_def usd_below_def blocking_def new_approval_def get_approval_def
      split: if_splits option.splits prod.splits dest!: f dest: tget_Some)
  show "w1 = w" using * by blast
  show "case ap of None \<Rightarrow> thr \<le> 0 \<or> usd_below thr cur amt w
    | Some r \<Rightarrow> i = Some (ar_id r) \<and> get_approval (ar_id r) w = Some r \<and> ar_status r = ''approved''
        \<and> ar_action r = act \<and> ar_target_id r = d_id d \<and> ar_payload r = Some pl" using * by blast
qed


text \<open>An approved request for the same action lets it run.\<close>

lemma ensure_lets_approved:
  assumes "get_approval (ar_id r) w = Some r" and "ar_status r = ''approved''" and "ar_action r = act"
    and "ar_target_type r = ''deal''" and "ar_target_id r = d_id d" and "ar_payload r = Some pl" and "ar_approved_by_id r \<noteq> None"
  shows "\<exists>ap. ensure_approval_or_create now thr admin d cur act amt reason pl (Some (ar_id r)) w = (Inr ap, w) \<and> \<not> blocking ap"
  using assms by (auto simp: ensure_approval_or_create_def Let_def case_prod_beta blocking_def)

definition two_admins :: "admin_approval_request \<Rightarrow> bool" where
  "two_admins r \<longleftrightarrow> (ar_status r = ''approved'' \<or> ar_status r = ''executed'' \<longrightarrow>
     (\<exists>a. ar_approved_by_id r = Some a \<and> ar_requested_by_id r \<noteq> Some a))"

definition approvals_ok :: "world \<Rightarrow> bool" where
  "approvals_ok w \<longleftrightarrow> tkeys ar_id (t_approvals w)
     \<and> list_all (\<lambda>r. two_admins r \<and> ar_id r < seq_approvals w) (t_approvals w)"

lemma approval_two_admins: "approvals_ok w \<Longrightarrow> get_approval i w = Some r \<Longrightarrow> two_admins r"
  by (auto simp: approvals_ok_def get_approval_def list_all_iff dest: tget_Some)

lemma get_approval_id: "get_approval j w = Some r \<Longrightarrow> ar_id r = j"
  by (auto simp: get_approval_def dest: tget_Some)

lemma approvals_ok_put:
  assumes "approvals_ok w" and "get_approval j w = Some r0"
    and "t_approvals w' = tput ar_id r (t_approvals w)" and "seq_approvals w' = seq_approvals w"
    and "ar_id r0 = ar_id r" and "two_admins r"
  shows "approvals_ok w'"
  using assms by (auto simp: approvals_ok_def list_all_iff get_approval_def dest!: set_tput_cases tget_Some)

lemma approvals_ok_add:
  assumes "approvals_ok w" and "two_admins r" and "ar_id r = seq_approvals w"
    and "t_approvals w' = t_approvals w @ [r]" and "seq_approvals w' = seq_approvals w + 1"
  shows "approvals_ok w'"
  using assms by (auto simp: approvals_ok_def list_all_iff tkeys_def)

text \<open>Without an approval at hand the check never refuses: it lets the action run, or there is a request.\<close>

definition requests :: "admin_approval_request \<Rightarrow> deal \<Rightarrow> string \<Rightarrow> meta \<Rightarrow> world \<Rightarrow> bool" where
  "requests r d act pl w \<longleftrightarrow> get_approval (ar_id r) w = Some r \<and> ar_status r = ''pending'' \<and> ar_action r = act
     \<and> ar_target_type r = ''deal'' \<and> ar_target_id r = d_id d \<and> ar_payload r = Some pl"

lemma ensure_requests:
  assumes "approvals_ok w"
  shows "\<exists>ap w1. ensure_approval_or_create now thr admin d cur act amt reason pl None w = (Inr ap, w1)
    \<and> (case ap of None \<Rightarrow> w1 = w | Some r \<Rightarrow> requests r d act pl w1)"
proof -
  have k: "tkeys ar_id (t_approvals w)" "\<forall>x \<in> set (t_approvals w). ar_id x \<noteq> seq_approvals w"
    using assms by (auto simp: approvals_ok_def list_all_iff)
  have found: "get_approval (ar_id x) w = Some x" if "x \<in> set (t_approvals w)" for x
    using tget_in_set [OF k(1) that] by (simp add: get_approval_def)
  have new: "tget ar_id (seq_approvals w) (t_approvals w) = None" using k(2) by (auto simp: tget_None_iff)
  show ?thesis
    using found new
    by (auto simp: ensure_approval_or_create_def Let_def case_prod_beta requests_def new_approval_def get_approval_def audit_deal_def
        log_admin_action_def tget_append find_Some_iff split: option.splits)
qed

lemma approve_requested:
  assumes "requests r d act pl w" and "ar_requested_by_id r \<noteq> Some (u_id checker)"
  shows "\<exists>r' w'. approve_deal_approval now (ar_id r) checker w = (Inr r', w') \<and> same_books w' w \<and> ar_id r' = ar_id r
    \<and> get_approval (ar_id r) w' = Some r' \<and> ar_status r' = ''approved'' \<and> ar_action r' = act \<and> ar_target_type r' = ''deal''
    \<and> ar_target_id r' = d_id d \<and> ar_payload r' = Some pl \<and> ar_approved_by_id r' = Some (u_id checker)"
proof -
  let ?r = "r \<lparr> ar_status := ''approved'', ar_approved_by_id := Some (u_id checker), ar_approved_at := Some now \<rparr>"
  have g: "tget ar_id (ar_id r) (t_approvals w) = Some r" using assms(1) by (simp add: requests_def get_approval_def)
  have put: "tget ar_id (ar_id r) (tput ar_id ?r (t_approvals w)) = Some ?r"
    using tget_tput_same [of ar_id ?r "t_approvals w" r] g by simp
  then show ?thesis
    using assms by (simp add: approve_deal_approval_def Let_def requests_def get_approval_def save_approval_def
        log_admin_action_def same_books_def)
qed

lemma money_action_target_same: "same_books w' w \<Longrightarrow> money_action_target i w' = money_action_target i w"
proof -
  assume "same_books w' w"
  then have "get_deal i w' = get_deal i w" "get_currency c w' = get_currency c w" for c
    by (simp_all add: same_books_def get_deal_def get_currency_def)
  then show ?thesis by (simp add: money_action_target_def split: option.split)
qed

text \<open>
  No approval is ever approved by the administrator who asked for it: filing a request,
  approving, rejecting and executing one all keep the invariant that an approved or executed
  request has an approver who is not its requester.
\<close>

theorem approvals_need_a_second_admin:
  assumes "approvals_ok w"
  shows "approvals_ok (snd (ensure_approval_or_create now thr admin d cur act amt reason pl i w))
    \<and> approvals_ok (snd (approve_deal_approval now j admin w))
    \<and> approvals_ok (snd (reject_deal_approval now j admin w))
    \<and> (get_approval j w = Some r \<and> ar_status r = ''approved'' \<longrightarrow> approvals_ok (mark_approval_executed now (Some r) admin w))"
proof (intro conjI impI)
  show "approvals_ok (snd (ensure_approval_or_create now thr admin d cur act amt reason pl i w))"
    using assms
    by (auto simp: ensure_approval_or_create_def Let_def audit_deal_def log_admin_action_def new_approval_def two_admins_def
      split: option.splits prod.splits intro!: approvals_ok_add [OF assms])
  show "approvals_ok (snd (approve_deal_approval now j admin w))"
  proof (cases "get_approval j w")
    case (Some r)
    then show ?thesis using assms
      by (auto simp: approve_deal_approval_def Let_def log_admin_action_def save_approval_def two_admins_def
          intro!: approvals_ok_put [OF assms Some])
  qed (use assms in \<open>simp add: approve_deal_approval_def\<close>)
  show "approvals_ok (snd (reject_deal_approval now j admin w))"
  proof (cases "get_approval j w")
    case (Some r)
    then show ?thesis using assms
      by (auto simp: reject_deal_approval_def Let_def log_admin_action_def save_approval_def two_admins_def
          intro!: approvals_ok_put [OF assms Some])
  qed (use assms in \<open>simp add: reject_deal_approval_def\<close>)
  show "approvals_ok (mark_approval_executed now (Some r) admin w)" if a: "get_approval j w = Some r \<and> ar_status r = ''approved''"
    using approval_two_admins [OF assms conjunct1 [OF a]] a
    by (auto simp: mark_approval_executed_def save_approval_def two_admins_def intro!: approvals_ok_put [OF assms conjunct1 [OF a]])
qed


section \<open>The three forced payouts\<close>

definition forced :: "deal \<Rightarrow> decimal \<Rightarrow> decimal \<Rightarrow> deal \<Rightarrow> world \<Rightarrow> world \<Rightarrow> bool" where
  "forced d bs ss d' w w' \<longleftrightarrow> holds_escrow (d_status d) \<and> 0 \<le> bs \<and> 0 \<le> ss \<and> bs + ss = d_amount d
     \<and> accounts w' = a_credit (d_seller_id d) (d_currency_id d) ss (a_credit (d_buyer_id d) (d_currency_id d) bs
         (a_burn (d_buyer_id d) (d_currency_id d) (d_amount d) (accounts w)))
     \<and> get_deal (d_id d) w' = Some (deal_row d') \<and> books_ok w' \<and> audited w w' \<and> (\<forall>c. total c w' = total c w)"

lemma forcedI:
  assumes "books_ok w" and "money_action_target i w = Inr (d, cur)" and "divided d bs ss w w2"
    and "bs + ss = d_amount d" and "0 \<le> bs" "0 \<le> ss"
  shows "forced d bs ss (admin_close now admin b d) w (finish_money_action now admin (admin_close now admin b d) a r m ap ns w2)"
proof -
  have t: "get_deal (d_id d) w = Some d" "holds_escrow (d_status d)" using money_action_target_Inr [OF assms(2)] by auto
  have "\<not> holds_escrow (d_status (admin_close now admin b d))" by simp
  from close_divided [OF assms(1) t assms(3,4) finish_money_action_closed(1) admin_close_simps(1) this]
  show ?thesis using t(2) assms(3-6) by (simp add: forced_def divided_def)
qed

text \<open>
  The contract the three handlers share: \<open>act\<close> and \<open>payload\<close> name the action in its approval,
  \<open>share\<close> is what the buyer gets, \<open>buyer_wins\<close> the resolution of the deal.
\<close>

locale forced_payout =
  fixes handler :: "int \<Rightarrow> decimal \<Rightarrow> user \<Rightarrow> int \<Rightarrow> force_body \<Rightarrow> world \<Rightarrow> (deal \<times> admin_approval_request option) result"
    and act :: string
    and payload :: "currency \<Rightarrow> decimal \<Rightarrow> meta"
    and share :: "deal \<Rightarrow> currency \<Rightarrow> decimal"
    and buyer_wins :: bool
  assumes unknown: "money_action_target i w = Inl e \<Longrightarrow> handler now thr admin i body w = (Inl e, w)"
    and refused: "money_action_target i w = Inr (d, cur) \<Longrightarrow> amt = quantize_money (d_amount d) (c_decimals cur) \<Longrightarrow>
      ensure_approval_or_create now thr admin d cur act amt (fb_reason body) (payload cur amt) (fb_approval_id body) w
        = (Inl e, w1) \<Longrightarrow> handler now thr admin i body w = (Inl e, w1)"
    and waits: "money_action_target i w = Inr (d, cur) \<Longrightarrow> amt = quantize_money (d_amount d) (c_decimals cur) \<Longrightarrow>
      ensure_approval_or_create now thr admin d cur act amt (fb_reason body) (payload cur amt) (fb_approval_id body) w
        = (Inr ap, w1) \<Longrightarrow> blocking ap \<Longrightarrow> handler now thr admin i body w = (Inr (d, ap), w1)"
    and pays: "books_ok w \<Longrightarrow> money_action_target i w = Inr (d, cur) \<Longrightarrow> amt = quantize_money (d_amount d) (c_decimals cur) \<Longrightarrow>
      ensure_approval_or_create now thr admin d cur act amt (fb_reason body) (payload cur amt) (fb_approval_id body) w
        = (Inr ap, w) \<Longrightarrow> \<not> blocking ap \<Longrightarrow>
      \<exists>w2 a r m ns. handler now thr admin i body w = (Inr (admin_close now admin buyer_wins d, None),
          finish_money_action now admin (admin_close now admin buyer_wins d) a r m ap ns w2)
        \<and> 0 \<le> share d cur \<and> share d cur \<le> d_amount d \<and> divided d (share d cur) (d_amount d - share d cur) w w2"
begin

lemma runs:
  assumes "books_ok w"
  obtains (fails) e where "handler now thr admin i body w = (Inl e, w)"
  | (blocked) d cur r w1 where "money_action_target i w = Inr (d, cur)" "handler now thr admin i body w = (Inr (d, Some r), w1)"
      "ar_status r = ''pending''" "same_books w1 w"
  | (moves) d cur ap w2 a r m ns where "money_action_target i w = Inr (d, cur)"
      "handler now thr admin i body w = (Inr (admin_close now admin buyer_wins d, None),
          finish_money_action now admin (admin_close now admin buyer_wins d) a r m ap ns w2)"
      "0 \<le> share d cur" "share d cur \<le> d_amount d" "divided d (share d cur) (d_amount d - share d cur) w w2"
      "case ap of None \<Rightarrow> thr \<le> 0 \<or> usd_below thr cur (d_amount d) w
       | Some r \<Rightarrow> fb_approval_id body = Some (ar_id r) \<and> get_approval (ar_id r) w = Some r \<and> ar_status r = ''approved''
          \<and> ar_action r = act \<and> ar_target_id r = d_id d \<and> ar_payload r = Some (payload cur (d_amount d))"
proof (cases "money_action_target i w")
  case (Inl e)
  with that(1) unknown show ?thesis by blast
next
  case (Inr p)
  obtain d cur where p: "p = (d, cur)" by fastforce
  note target = Inr [unfolded p]
  have "quantize_money (d_amount d) (c_decimals cur) = d_amount d"
    using target_facts(5) [OF assms] money_action_target_Inr [OF target] by blast
  note amt = this [symmetric]
  show ?thesis
  proof (cases rule: outcome_cases [of "ensure_approval_or_create now thr admin d cur act (d_amount d) (fb_reason body)
        (payload cur (d_amount d)) (fb_approval_id body) w"])
    case (fails e w1)
    with that(1) refused [OF target amt fails] ensure_refuses [OF fails] show ?thesis by simp
  next
    case (returns ap w1)
    show ?thesis
    proof (cases "blocking ap")
      case True
      then obtain r where "ap = Some r" "ar_status r = ''pending''" by (auto simp: blocking_def split: option.splits)
      with waits [OF target amt returns True] ensure_same_books [OF returns] that(2) [OF target] show ?thesis by blast
    next
      case False
      note e = ensure_lets_run [OF returns False]
      from pays [OF assms target amt returns [unfolded e(1)] False] e(2) that(3) [OF target]
      show ?thesis by blast
    qed
  qed
qed

lemma settles:
  assumes "books_ok w"
  shows "case handler now thr admin i body w of
      (Inl e, w') \<Rightarrow> w' = w
    | (Inr (d', Some r), w') \<Rightarrow> ar_status r = ''pending'' \<and> same_books w' w
    | (Inr (d', None), w') \<Rightarrow> d_status d' = (if buyer_wins then resolved_for_buyer else resolved_for_seller) \<and>
        (\<exists>d cur. money_action_target i w = Inr (d, cur) \<and> forced d (share d cur) (d_amount d - share d cur) d' w w')"
proof (cases rule: runs [OF assms, of now thr admin i body, case_names fails blocked moves])
  case (moves d cur ap w2 a r m ns)
  then show ?thesis using forcedI [OF assms moves(1,5), where b = buyer_wins] by simp
qed simp_all

text \<open>Two administrators are enough: the call runs, or a request waits, which another one approves, and then it runs.\<close>

lemma first_call:
  assumes "books_ok w" and "approvals_ok w" and t: "money_action_target i w = Inr (d, cur)"
  shows "case handler now thr admin i \<lparr> fb_reason = reason, fb_approval_id = None \<rparr> w of
      (Inl e, w') \<Rightarrow> False
    | (Inr (d', Some r), w') \<Rightarrow> same_books w' w \<and> requests r d act (payload cur (d_amount d)) w'
    | (Inr (d', None), w') \<Rightarrow> d_status d' = (if buyer_wins then resolved_for_buyer else resolved_for_seller)
        \<and> forced d (share d cur) (d_amount d - share d cur) d' w w'"
proof -
  let ?body = "\<lparr> fb_reason = reason, fb_approval_id = None \<rparr> :: force_body"
  have "quantize_money (d_amount d) (c_decimals cur) = d_amount d"
    using target_facts(5) [OF assms(1)] money_action_target_Inr [OF t] by blast
  note amt = this [symmetric]
  obtain ap w1 where e: "ensure_approval_or_create now thr admin d cur act (d_amount d) reason (payload cur (d_amount d)) None w = (Inr ap, w1)"
    and ap: "case ap of None \<Rightarrow> w1 = w | Some r \<Rightarrow> requests r d act (payload cur (d_amount d)) w1"
    using ensure_requests [OF assms(2)] by blast
  show ?thesis
  proof (cases ap)
    case None
    then have "\<not> blocking ap" "w1 = w" using ap by (simp_all add: blocking_def)
    then obtain w2 a r m ns where run: "handler now thr admin i ?body w = (Inr (admin_close now admin buyer_wins d, None),
          finish_money_action now admin (admin_close now admin buyer_wins d) a r m ap ns w2)"
      and v: "0 \<le> share d cur" "share d cur \<le> d_amount d" "divided d (share d cur) (d_amount d - share d cur) w w2"
      using pays [OF assms(1) t amt, of now thr admin ?body ap] e by auto
    have "forced d (share d cur) (d_amount d - share d cur) (admin_close now admin buyer_wins d) w
        (finish_money_action now admin (admin_close now admin buyer_wins d) a r m ap ns w2)"
      by (rule forcedI [OF assms(1) t v(3)]) (use v in simp_all)
    then show ?thesis by (simp add: run)
  next
    case (Some r)
    then have "blocking ap" using ap by (simp add: blocking_def requests_def)
    then show ?thesis using waits [OF t amt, of now thr admin ?body ap w1] e Some ap ensure_same_books [OF e] by simp
  qed
qed

lemma second_call:
  assumes "books_ok w" and t: "money_action_target i w = Inr (d, cur)" and "requests r d act (payload cur (d_amount d)) w"
    and "ar_requested_by_id r \<noteq> Some (u_id checker)"
  shows "\<exists>r' w1 d' w2. approve_deal_approval now (ar_id r) checker w = (Inr r', w1)
    \<and> handler later thr admin i \<lparr> fb_reason = reason, fb_approval_id = Some (ar_id r) \<rparr> w1 = (Inr (d', None), w2)
    \<and> d_status d' = (if buyer_wins then resolved_for_buyer else resolved_for_seller)
    \<and> forced d (share d cur) (d_amount d - share d cur) d' w1 w2 \<and> accounts w1 = accounts w"
proof -
  let ?body = "\<lparr> fb_reason = reason, fb_approval_id = Some (ar_id r) \<rparr> :: force_body"
  obtain r' w1 where a: "approve_deal_approval now (ar_id r) checker w = (Inr r', w1)" "same_books w1 w" "ar_id r' = ar_id r"
    "get_approval (ar_id r) w1 = Some r'" "ar_status r' = ''approved''" "ar_action r' = act" "ar_target_type r' = ''deal''"
    "ar_target_id r' = d_id d" "ar_payload r' = Some (payload cur (d_amount d))" "ar_approved_by_id r' = Some (u_id checker)"
    using approve_requested [OF assms(3,4), of now] by blast
  have ok: "books_ok w1" and acc: "accounts w1 = accounts w" using same_booksD [OF a(2)] assms(1) by simp_all
  have t1: "money_action_target i w1 = Inr (d, cur)" using money_action_target_same [OF a(2)] t by simp
  have "quantize_money (d_amount d) (c_decimals cur) = d_amount d"
    using target_facts(5) [OF ok] money_action_target_Inr [OF t1] by blast
  note amt = this [symmetric]
  obtain ap where e: "ensure_approval_or_create later thr admin d cur act (d_amount d) (fb_reason ?body) (payload cur (d_amount d)) (fb_approval_id ?body) w1
      = (Inr ap, w1)" "\<not> blocking ap"
    using ensure_lets_approved [of r' w1 act d "payload cur (d_amount d)" later thr admin cur "d_amount d" "fb_reason ?body"] a by auto
  obtain w2 x y m ns where run: "handler later thr admin i ?body w1 = (Inr (admin_close later admin buyer_wins d, None),
        finish_money_action later admin (admin_close later admin buyer_wins d) x y m ap ns w2)"
    and v: "0 \<le> share d cur" "share d cur \<le> d_amount d" "divided d (share d cur) (d_amount d - share d cur) w1 w2"
    using pays [OF ok t1 amt e] by blast
  have "forced d (share d cur) (d_amount d - share d cur) (admin_close later admin buyer_wins d) w1
      (finish_money_action later admin (admin_close later admin buyer_wins d) x y m ap ns w2)"
    by (rule forcedI [OF ok t1 v(3)]) (use v in simp_all)
  then show ?thesis using a(1) run acc by simp
qed

text \<open>What it takes to move the money: a small sum, or an approval by a second administrator, used up.\<close>

lemma needs_second_admin:
  assumes "books_ok w" and "approvals_ok w" and run: "handler now thr admin i body w = (Inr (d', None), w')" and "0 < thr"
  shows "\<exists>d cur. money_action_target i w = Inr (d, cur) \<and> (usd_below thr cur (d_amount d) w \<or>
     (\<exists>r a. fb_approval_id body = Some (ar_id r) \<and> get_approval (ar_id r) w = Some r \<and> ar_status r = ''approved''
        \<and> ar_action r = act \<and> ar_target_id r = i \<and> ar_payload r = Some (payload cur (d_amount d))
        \<and> ar_approved_by_id r = Some a \<and> ar_requested_by_id r \<noteq> Some a
        \<and> map_option ar_status (get_approval (ar_id r) w') = Some ''executed''))"
proof (cases rule: runs [OF assms(1), of now thr admin i body, case_names fails blocked moves])
  case (moves d cur ap w2 a r m ns)
  show ?thesis
  proof (cases ap)
    case None
    then show ?thesis using moves assms(4) by auto
  next
    case (Some x)
    have g: "get_approval (ar_id x) w = Some x" and st: "ar_status x = ''approved''" using moves(6) Some by auto
    obtain a where "ar_approved_by_id x = Some a" "ar_requested_by_id x \<noteq> Some a"
      using approval_two_admins [OF assms(2) g] st by (auto simp: two_admins_def)
    moreover have "t_approvals w2 = t_approvals w" using moves(5) by (simp add: divided_def only_money_def)
    then have "map_option ar_status (get_approval (ar_id x) w') = Some ''executed''"
      using run moves(2) Some g tget_Some [OF g [unfolded get_approval_def]]
      by (auto simp: finish_money_action_closed get_approval_def tget_tput)
    ultimately show ?thesis using moves(1,6) Some g st money_action_target_Inr [OF moves(1)] by auto
  qed
qed (use run in simp_all)

end

interpretation release: forced_payout force_release "''deal.force_release''"
  "\<lambda>cur amt. [(''currency'', MStr (c_code cur)), (''amount'', MDec amt)]" "\<lambda>d cur. 0" False
proof
  fix w i d cur amt now thr admin and body :: force_body and ap
  assume a: "books_ok w" "money_action_target i w = Inr (d, cur)" "amt = quantize_money (d_amount d) (c_decimals cur)"
    and e: "ensure_approval_or_create now thr admin d cur ''deal.force_release'' amt (fb_reason body)
      [(''currency'', MStr (c_code cur)), (''amount'', MDec amt)] (fb_approval_id body) w = (Inr ap, w)" "\<not> blocking ap"
  obtain w2 where "release_locked_to_seller d cur w = Inr ((d_amount d, d_amount d), w2)" "divided d 0 (d_amount d) w w2"
    using release_divides [OF a(1)] money_action_target_Inr [OF a(2)] by blast
  then show "\<exists>w2 a r m ns. force_release now thr admin i body w = (Inr (admin_close now admin False d, None),
          finish_money_action now admin (admin_close now admin False d) a r m ap ns w2)
        \<and> (0::decimal) \<le> 0 \<and> 0 \<le> d_amount d \<and> divided d 0 (d_amount d - 0) w w2"
    using a e target_facts(2) [OF a(1)] money_action_target_Inr [OF a(2)] by (simp add: force_release_def Let_def) blast
qed (simp_all add: force_release_def Let_def)

interpretation refund: forced_payout force_refund "''deal.force_refund''"
  "\<lambda>cur amt. [(''currency'', MStr (c_code cur)), (''amount'', MDec amt)]" "\<lambda>d cur. d_amount d" True
proof
  fix w i d cur amt now thr admin and body :: force_body and ap
  assume a: "books_ok w" "money_action_target i w = Inr (d, cur)" "amt = quantize_money (d_amount d) (c_decimals cur)"
    and e: "ensure_approval_or_create now thr admin d cur ''deal.force_refund'' amt (fb_reason body)
      [(''currency'', MStr (c_code cur)), (''amount'', MDec amt)] (fb_approval_id body) w = (Inr ap, w)" "\<not> blocking ap"
  obtain w2 where "refund_locked_to_buyer d cur w = Inr ((d_amount d, d_amount d), w2)" "divided d (d_amount d) 0 w w2"
    using refund_divides [OF a(1)] money_action_target_Inr [OF a(2)] by blast
  then show "\<exists>w2 a r m ns. force_refund now thr admin i body w = (Inr (admin_close now admin True d, None),
          finish_money_action now admin (admin_close now admin True d) a r m ap ns w2)
        \<and> 0 \<le> d_amount d \<and> d_amount d \<le> d_amount d \<and> divided d (d_amount d) (d_amount d - d_amount d) w w2"
    using a e target_facts(2) [OF a(1)] money_action_target_Inr [OF a(2)] by (simp add: force_refund_def Let_def) blast
qed (simp_all add: force_refund_def Let_def)

definition buyer_share :: "decimal \<Rightarrow> deal \<Rightarrow> currency \<Rightarrow> decimal" where
  "buyer_share p d cur = quantize_money (d_amount d * p / 100) (c_decimals cur)"

lemma split_contract:
  assumes "0 \<le> p" "p \<le> 100"
  shows "forced_payout (\<lambda>now thr admin i. split_deal now thr admin i p) ''deal.split''
    (\<lambda>cur amt. [(''currency'', MStr (c_code cur)), (''amount'', MDec amt), (''buyer_percent'', MDec p)])
    (buyer_share p) (50 \<le> p)"
proof
  fix w i d cur amt now thr admin and body :: force_body and ap
  assume a: "books_ok w" "money_action_target i w = Inr (d, cur)" "amt = quantize_money (d_amount d) (c_decimals cur)"
    and e: "ensure_approval_or_create now thr admin d cur ''deal.split'' amt (fb_reason body)
      [(''currency'', MStr (c_code cur)), (''amount'', MDec amt), (''buyer_percent'', MDec p)] (fb_approval_id body) w = (Inr ap, w)" "\<not> blocking ap"
  obtain bs w2 where "split_locked d cur p w = Inr ((d_amount d, bs, d_amount d - bs), w2)" "bs = buyer_share p d cur"
    "0 \<le> bs" "bs \<le> d_amount d" "divided d bs (d_amount d - bs) w w2"
    using split_divides [OF a(1) _ _ _ assms] money_action_target_Inr [OF a(2)] unfolding buyer_share_def by blast
  then show "\<exists>w2 a r m ns. split_deal now thr admin i p body w = (Inr (admin_close now admin (50 \<le> p) d, None),
          finish_money_action now admin (admin_close now admin (50 \<le> p) d) a r m ap ns w2)
        \<and> 0 \<le> buyer_share p d cur \<and> buyer_share p d cur \<le> d_amount d
        \<and> divided d (buyer_share p d cur) (d_amount d - buyer_share p d cur) w w2"
    using a e by (simp add: split_deal_def Let_def) blast
qed (simp_all add: split_deal_def Let_def)


lemma target_rows:
  "money_action_target i w = Inr (d, cur) \<Longrightarrow> get_deal i w = Some d \<and> get_currency (d_currency_id d) w = Some cur"
  using money_action_target_Inr by blast

section \<open>Properties\<close>

text \<open>
  Force-release pays the whole amount to the seller and force-refund gives it back to the
  buyer: the deal ends resolved, no money is made or lost, the ledger explains the change and the
  books balance. A refused request changes nothing; one that waits for approval moves nothing.
\<close>

theorem forced_payouts_settle:
  assumes "books_ok w"
  shows "(case force_release now thr admin i body w of
      (Inl e, w') \<Rightarrow> w' = w
    | (Inr (d', Some r), w') \<Rightarrow> ar_status r = ''pending'' \<and> same_books w' w
    | (Inr (d', None), w') \<Rightarrow> d_status d' = resolved_for_seller \<and>
        (\<exists>d. get_deal i w = Some d \<and> forced d 0 (d_amount d) d' w w'))
   \<and> (case force_refund now thr admin i body w of
      (Inl e, w') \<Rightarrow> w' = w
    | (Inr (d', Some r), w') \<Rightarrow> ar_status r = ''pending'' \<and> same_books w' w
    | (Inr (d', None), w') \<Rightarrow> d_status d' = resolved_for_buyer \<and>
        (\<exists>d. get_deal i w = Some d \<and> forced d (d_amount d) 0 d' w w'))"
  using release.settles [OF assms, where now = now and thr = thr and admin = admin and i = i and body = body] refund.settles [OF assms, where now = now and thr = thr and admin = admin and i = i and body = body]
  by (auto split: prod.splits sum.splits option.splits dest!: target_rows)

lemma sample_no_approval: "ensure_approval_or_create now 0 admin d cur act amt reason pl i w = (Inr None, w)"
  by (simp add: ensure_approval_or_create_def)

lemma sample_target: "money_action_target 5 sample_world = Inr (sample_deal 5 in_progress 25, usdt)"
  by (simp add: money_action_target_def is_active_for_money_movement_def)

lemma forced_payouts_settle_witness:
  "(case force_release 9 0 sample_admin 5 \<lparr> fb_reason = None, fb_approval_id = None \<rparr> sample_world of
      (Inl e, w') \<Rightarrow> False
    | (Inr (d', ap), w') \<Rightarrow> ap = None \<and> accounts w' 1 7 = (100, 56) \<and> accounts w' 2 7 = (28, 0))"
proof -
  obtain w2 where "release_locked_to_seller (sample_deal 5 in_progress 25) usdt sample_world = Inr ((25, 25), w2)"
    using release_divides [OF sample_books_ok, of "sample_deal 5 in_progress 25" usdt] by auto
  then have "\<exists>d' w'. force_release 9 0 sample_admin 5 \<lparr> fb_reason = None, fb_approval_id = None \<rparr> sample_world = (Inr (d', None), w')"
    by (simp add: force_release_def sample_target sample_no_approval blocking_def Let_def)
  then show ?thesis
    using forced_payouts_settle [OF sample_books_ok, where now = 9 and thr = 0 and admin = sample_admin and i = 5
        and body = "\<lparr> fb_reason = None, fb_approval_id = None \<rparr>"]
    by (auto simp: forced_def a_defs)
qed

text \<open>
  C14. A split pays the buyer \<open>p\<close> percent of the amount, rounded to the digits of the currency, and
  the seller exactly the rest: both shares are on the grid and non-negative and sum to the amount,
  no money is made or lost, and the deal is resolved for whoever got the greater part.
\<close>

theorem split_pays_both_exactly:
  assumes "books_ok w" and "0 \<le> p" and "p \<le> 100"
  shows "case split_deal now thr admin i p body w of
      (Inl e, w') \<Rightarrow> w' = w
    | (Inr (d', Some r), w') \<Rightarrow> ar_status r = ''pending'' \<and> same_books w' w
    | (Inr (d', None), w') \<Rightarrow> d_status d' = (if 50 \<le> p then resolved_for_buyer else resolved_for_seller) \<and>
        (\<exists>d cur bs. get_deal i w = Some d \<and> get_currency (d_currency_id d) w = Some cur
           \<and> bs = quantize_money (d_amount d * p / 100) (c_decimals cur)
           \<and> on_grid (c_decimals cur) bs \<and> on_grid (c_decimals cur) (d_amount d - bs)
           \<and> forced d bs (d_amount d - bs) d' w w')"
proof -
  have g: "on_grid (c_decimals cur) (d_amount d - buyer_share p d cur)"
    if "get_deal i w = Some d" "get_currency (d_currency_id d) w = Some cur" for d cur
    using get_deal_ok [OF _ that(1)] assms(1) that(2) by (auto simp: books_ok_def deal_ok_def buyer_share_def intro: grid)
  show ?thesis
    using forced_payout.settles [OF split_contract [OF assms(2,3)] assms(1), where now = now and thr = thr and admin = admin and i = i and body = body] g
    by (auto simp: buyer_share_def split: prod.splits sum.splits option.splits dest!: target_rows)
qed


lemma split_pays_both_exactly_witness:
  "case split_deal 9 0 sample_admin 5 (100 / 3) \<lparr> fb_reason = None, fb_approval_id = None \<rparr> sample_world of
      (Inl e, w') \<Rightarrow> False
    | (Inr (d', ap), w') \<Rightarrow> ap = None \<and> d_status d' = resolved_for_seller
        \<and> accounts w' 1 7 = (10833 / 100, 56) \<and> accounts w' 2 7 = (1967 / 100, 0)"
proof -
  have q: "quantize_money (25 * (100 / 3) / 100) 2 = 833 / 100" by code_simp
  obtain bs w2 where "split_locked (sample_deal 5 in_progress 25) usdt (100 / 3) sample_world = Inr ((25, bs, 25 - bs), w2)"
    using split_divides [OF sample_books_ok, of "sample_deal 5 in_progress 25" usdt "100 / 3"] by auto
  then have "\<exists>d' w'. split_deal 9 0 sample_admin 5 (100 / 3) \<lparr> fb_reason = None, fb_approval_id = None \<rparr> sample_world = (Inr (d', None), w')"
    by (simp add: split_deal_def sample_target sample_no_approval blocking_def Let_def)
  then show ?thesis
    using split_pays_both_exactly [OF sample_books_ok, where now = 9 and thr = 0 and admin = sample_admin and i = 5 and p = "100 / 3"
        and body = "\<lparr> fb_reason = None, fb_approval_id = None \<rparr>"] q
    by (auto simp: forced_def a_defs)
qed

text \<open>
  C9. While the maker-checker threshold is on, a forced payout runs only for a sum whose estimate in
  US dollars is below it, or on an approved request for exactly this action: the same deal, the same
  kind of payout, and a recorded payload that equals the currency, the amount and, for a split, the percentage
  of this call. The request was approved by an administrator other than the one who asked, and it is used up.
\<close>

theorem forced_payouts_need_second_admin:
  assumes "books_ok w" and "approvals_ok w" and "0 < thr" and "0 \<le> p" and "p \<le> 100"
    and "(act, outcome) \<in> {(''deal.force_release'', force_release now thr admin i body w),
      (''deal.force_refund'', force_refund now thr admin i body w), (''deal.split'', split_deal now thr admin i p body w)}"
    and "outcome = (Inr (d', None), w')"
  shows "\<exists>d cur. get_deal i w = Some d \<and> get_currency (d_currency_id d) w = Some cur \<and> (usd_below thr cur (d_amount d) w \<or>
     (\<exists>r a. fb_approval_id body = Some (ar_id r) \<and> get_approval (ar_id r) w = Some r \<and> ar_status r = ''approved''
        \<and> ar_action r = act \<and> ar_target_id r = i
        \<and> ar_payload r = Some ([(''currency'', MStr (c_code cur)), (''amount'', MDec (d_amount d))]
             @ (if act = ''deal.split'' then [(''buyer_percent'', MDec p)] else []))
        \<and> ar_approved_by_id r = Some a \<and> ar_requested_by_id r \<noteq> Some a
        \<and> map_option ar_status (get_approval (ar_id r) w') = Some ''executed''))"
  using release.needs_second_admin [OF assms(1,2) _ assms(3), where now = now and admin = admin and i = i and body = body and d' = d' and w' = w']
    refund.needs_second_admin [OF assms(1,2) _ assms(3), where now = now and admin = admin and i = i and body = body and d' = d' and w' = w']
    forced_payout.needs_second_admin [OF split_contract [OF assms(4,5)] assms(1,2) _ assms(3), where now = now and admin = admin and i = i and body = body and d' = d' and w' = w']
    assms(6,7) target_rows
  by (elim insertE emptyE) (auto, blast+)


section \<open>A deal that was never funded\<close>

lemma force_arbitration_effect:
  assumes "get_deal i w = Some d" and "\<not> is_terminal (d_status d)" and "d_status d \<noteq> arbitration"
  shows "\<exists>d' w'. force_arbitration now admin i reason w = (Inr d', w') \<and> closed_by d' w w' \<and> same_deal d d'
    \<and> d_status d' = arbitration"
  using assms
  by (auto simp: force_arbitration_def Let_def case_prod_beta closed_by_def audit_deal_def log_admin_action_def same_deal_def)

lemma escrow_written:
  assumes "deals_ok w" and "deal_ok w d" and "get_deal (d_id d) w = Some d" and "same_deal d d'" and "closed_by d' w w'"
  shows "deals_ok w'" "escrow w' u c = escrow w u c - deal_hold d u c + deal_hold d' u c"
proof -
  have st: "storable (d_amount d')" using assms(2,4) by (simp add: deal_ok_def same_deal_def)
  have "get_deal (d_id (deal_row d')) w = Some d" using assms(3,4) by (simp add: same_deal_def)
  note u = deals_update [OF assms(1) this, of w']
  show "deals_ok w'" "escrow w' u c = escrow w u c - deal_hold d u c + deal_hold d' u c"
    using u assms(5) deal_ok_row [OF deal_ok_same [OF assms(4,2)]] st by (simp_all add: closed_by_def)
qed

text \<open>
  C15. An administrator can put a deal into arbitration that still waits for its top-up. Its buyer
  never locked the amount, so the books no longer balance, and when the arbiter then finds for the
  seller the seller is paid in full: by whatever the buyer has locked for other deals, and out of
  nothing beyond that.
\<close>

theorem arbitrated_topup_pays_unfunded_money:
  assumes "books_ok w" and "get_deal i w = Some d" and "d_status d = pending_topup"
    and "get_currency (d_currency_id d) w = Some cur" and "u_is_arbiter judge"
  shows "\<exists>d' w' d'' w''. force_arbitration now admin i reason w = (Inr d', w') \<and> accounts w' = accounts w \<and> \<not> books_ok w'
    \<and> resolve_arbitration now ''seller'' remark d' judge w' = (Inr d'', w'')
    \<and> accounts w'' = a_credit (d_seller_id d) (d_currency_id d) (d_amount d)
         (a_burn (d_buyer_id d) (d_currency_id d) (d_amount d) (accounts w))"
proof -
  have get: "get_deal (d_id d) w = Some d" using get_deal_in [OF assms(2)] assms(2) by simp
  have oks: "deals_ok w" "withdrawals_ok w" "balances_ok w" using assms(1) by (auto simp: books_ok_def)
  have dok: "deal_ok w d" by (rule get_deal_ok [OF oks(1) get])
  obtain d' w' where run: "force_arbitration now admin i reason w = (Inr d', w')" and c: "closed_by d' w w'"
    and s: "same_deal d d'" "d_status d' = arbitration"
    using force_arbitration_effect [OF assms(2), where now = now and admin = admin and reason = reason] assms(3)
    by (auto simp: is_terminal_def)
  have w': "t_currencies w' = t_currencies w" "t_withdrawals w' = t_withdrawals w" "seq_withdrawals w' = seq_withdrawals w"
    "t_balances w' = t_balances w" using c by (simp_all add: closed_by_def)
  have acc: "accounts w' = accounts w" by (rule closed_accounts [OF c])
  have "escrow w' (d_buyer_id d) (d_currency_id d) = escrow w (d_buyer_id d) (d_currency_id d) + d_amount d"
    using escrow_written(2) [OF oks(1) dok get s(1) c] assms(3) s by (simp add: deal_hold_def same_deal_def)
  moreover have "reserved w' = reserved w" by (rule withdrawals_same(2) [OF oks(2) w'(2,3)])
  moreover have "held w (d_buyer_id d) (d_currency_id d) = escrow w (d_buyer_id d) (d_currency_id d) + reserved w (d_buyer_id d) (d_currency_id d)"
    using assms(1) by (simp add: books_ok_def books_balance_def)
  moreover have "0 < d_amount d" using dok by (simp add: deal_ok_def)
  ultimately have "held w' (d_buyer_id d) (d_currency_id d) \<noteq> escrow w' (d_buyer_id d) (d_currency_id d) + reserved w' (d_buyer_id d) (d_currency_id d)"
    using acc by simp
  then have nb: "\<not> books_ok w'" by (auto simp: books_ok_def books_balance_def)
  have "get_currency (d_currency_id d') w' = Some cur" using assms(4) s w' by (simp add: same_deal_def get_currency_def)
  then obtain d'' w'' where run2: "resolve_arbitration now ''seller'' remark d' judge w' = (Inr d'', w'')"
    using resolve_succeeds [of judge d' "''seller''" w' cur now remark] assms(5) s(2) by auto
  have "balances_ok w'" using oks(3) balances_ok_cong [OF w'(4)] by simp
  moreover have "deal_ok w' d'" using deal_ok_same [OF s(1) dok] deal_ok_cong [OF w'(1)] by simp
  ultimately have "accounts w'' = a_credit (d_seller_id d) (d_currency_id d) (d_amount d)
         (a_burn (d_buyer_id d) (d_currency_id d) (d_amount d) (accounts w))"
    using resolve_moves [OF run2] s(1) acc by (simp add: same_deal_def)
  with run acc nb run2 show ?thesis by blast
qed


definition sample_judge :: user where "sample_judge = sample_user 3 ''root'' True \<lparr> u_is_arbiter := True \<rparr>"

lemma arbitrated_topup_pays_unfunded_money_witness:
  "\<exists>d' w' d'' w''. force_arbitration 9 sample_admin 8 None sample_world = (Inr d', w') \<and> \<not> books_ok w'
    \<and> resolve_arbitration 9 ''seller'' [] d' sample_judge w' = (Inr d'', w'')
    \<and> accounts w'' 1 7 = (100, 31) \<and> accounts w'' 2 7 = (53, 0)"
  using arbitrated_topup_pays_unfunded_money [OF sample_books_ok, where i = 8 and d = "sample_deal 8 pending_topup 50" and cur = usdt
      and judge = sample_judge and now = 9 and admin = sample_admin and reason = None and remark = "[]"]
  by (auto simp: sample_judge_def a_defs)

definition approved_request :: admin_approval_request where
  "approved_request = (new_approval 8 (sample_user 4 ''second'' True) (sample_deal 5 in_progress 25) usdt ''deal.split'' 25 None None None
     [(''currency'', MStr ''USDT''), (''amount'', MDec 25), (''buyer_percent'', MDec 40)] 1)
     \<lparr> ar_status := ''approved'', ar_approved_by_id := Some 3 \<rparr>"

definition approved_world :: world where
  "approved_world = sample_world \<lparr> t_approvals := [approved_request], seq_approvals := 2 \<rparr>"

lemma approved_facts: "books_ok approved_world" "approvals_ok approved_world" "accounts approved_world = accounts sample_world"
  "get_deal i approved_world = get_deal i sample_world" "get_currency i approved_world = get_currency i sample_world"
  "latest_usd_rate i approved_world = None" "get_approval 1 approved_world = Some approved_request"
proof -
  have s: "same_books approved_world sample_world" by (simp add: same_books_def approved_world_def)
  show "books_ok approved_world" "accounts approved_world = accounts sample_world" using same_booksD [OF s] by simp_all
  show "approvals_ok approved_world"
    by (simp add: approvals_ok_def approved_world_def approved_request_def new_approval_def tkeys_def two_admins_def sample_user_def)
  show "get_deal i approved_world = get_deal i sample_world" "get_currency i approved_world = get_currency i sample_world"
    by (simp_all add: approved_world_def get_deal_def get_currency_def)
  show "latest_usd_rate i approved_world = None" by (simp add: latest_usd_rate_def approved_world_def sample_world_def)
  show "get_approval 1 approved_world = Some approved_request"
    by (simp add: get_approval_def approved_world_def approved_request_def new_approval_def)
qed

lemma approvals_need_a_second_admin_witness:
  "approvals_ok (snd (approve_deal_approval 9 1 sample_admin approved_world))
   \<and> approvals_ok (mark_approval_executed 9 (Some approved_request) sample_admin approved_world)"
  using approvals_need_a_second_admin [OF approved_facts(2), where j = 1 and now = 9 and admin = sample_admin and r = approved_request]
    approved_facts(7) by (simp add: approved_request_def)

lemma forced_payouts_need_second_admin_witness:
  "\<exists>d' w'. split_deal 9 1000 sample_admin 5 40 \<lparr> fb_reason = None, fb_approval_id = Some 1 \<rparr> approved_world = (Inr (d', None), w')
     \<and> map_option ar_status (get_approval 1 w') = Some ''executed''"
proof -
  let ?body = "\<lparr> fb_reason = None, fb_approval_id = Some 1 \<rparr> :: force_body" and ?w = approved_world
  have t: "money_action_target 5 ?w = Inr (sample_deal 5 in_progress 25, usdt)"
    by (simp add: money_action_target_def approved_facts is_active_for_money_movement_def)
  have e: "ensure_approval_or_create 9 1000 sample_admin (sample_deal 5 in_progress 25) usdt ''deal.split'' 25 None
      [(''currency'', MStr ''USDT''), (''amount'', MDec 25), (''buyer_percent'', MDec 40)] (Some 1) ?w = (Inr (Some approved_request), ?w)"
    by (simp add: ensure_approval_or_create_def estimate_usd_def approved_facts)
      (simp add: approved_request_def new_approval_def sample_user_def)
  obtain bs w2 where "split_locked (sample_deal 5 in_progress 25) usdt 40 ?w = Inr ((25, bs, 25 - bs), w2)"
    using split_divides [OF approved_facts(1), of "sample_deal 5 in_progress 25" usdt 40] by (auto simp: approved_facts)
  then obtain d' w' where run: "split_deal 9 1000 sample_admin 5 40 ?body ?w = (Inr (d', None), w')"
    using t e by (auto simp: split_deal_def blocking_def approved_request_def Let_def)
  have u: "estimate_usd cur amt ?w = (None, None)" for cur amt by (simp add: estimate_usd_def approved_facts)
  show ?thesis
    using forced_payouts_need_second_admin [OF approved_facts(1,2), where thr = 1000 and p = 40 and act = "''deal.split''"
        and outcome = "(Inr (d', None), w')" and now = 9 and admin = sample_admin and i = 5 and body = ?body and d' = d' and w' = w'] run
    by (auto simp: usd_below_def u)
qed

section \<open>Deleting a deal\<close>

lemma sum_list_remove:
  fixes f :: "'r \<Rightarrow> decimal"
  assumes "tkeys key rows" and "tget key k rows = Some r"
  shows "sum_list (map f (filter (\<lambda>x. key x \<noteq> k) rows)) = sum_list (map f rows) - f r"
  using assms
proof (induction rows)
  case (Cons x rows)
  show ?case
  proof (cases "key x = k")
    case True
    then have "filter (\<lambda>x. key x \<noteq> k) rows = rows"
      using Cons.prems(1) by (auto simp: tkeys_def filter_id_conv image_iff)
    then show ?thesis using True Cons.prems(2) by simp
  next
    case False
    then show ?thesis using Cons by (auto simp: tkeys_def)
  qed
qed simp

lemma deals_remove:
  assumes ok: "deals_ok w" and get: "get_deal i w = Some d" and rows: "t_deals w' = filter (\<lambda>d. d_id d \<noteq> i) (t_deals w)"
    and seq: "seq_deals w' = seq_deals w" and cur: "t_currencies w' = t_currencies w"
  shows "deals_ok w'" and "escrow w' u c = escrow w u c - deal_hold d u c"
    and "get_deal i w' = None" and "k \<noteq> i \<Longrightarrow> get_deal k w' = get_deal k w"
proof -
  have keys: "tkeys d_id (t_deals w)" using ok by (simp add: deals_ok_def)
  show "deals_ok w'"
    using ok tkeys_filter(1) [OF keys] by (auto simp: deals_ok_def rows seq deal_ok_cong [OF cur] list_all_iff tkeys_def)
  show "escrow w' u c = escrow w u c - deal_hold d u c"
    using sum_list_remove [OF keys, of i d "\<lambda>d. deal_hold d u c"] get by (simp add: escrow_def rows get_deal_def)
  show "get_deal i w' = None" by (auto simp: get_deal_def rows tget_None_iff)
  show "get_deal k w' = get_deal k w" if "k \<noteq> i"
  proof -
    have "tget d_id k (filter (\<lambda>d. d_id d \<noteq> i) ds) = tget d_id k ds" for ds using that by (induction ds) simp_all
    then show ?thesis by (simp add: get_deal_def rows)
  qed
qed

lemma delete_rest_effect:
  "\<exists>w'. delete_rest now admin d cur reason refunded w = (Inr (d_id d, refunded), w') \<and> same_books w' (remove_deal (d_id d) w)"
  by (auto simp: delete_rest_def Let_def case_prod_beta same_books_def audit_deal_def log_admin_action_def remove_deal_def)

lemma unlink_deposits:
  assumes "deposits_ok w" and "t_deposits w' = tupd (\<lambda>x. dep_linked_deal_id x = Some i) (\<lambda>x. x \<lparr> dep_linked_deal_id := None \<rparr>) (t_deposits w)"
    and "seq_deposits w' = seq_deposits w"
  shows "deposits_ok w'" and "\<forall>x \<in> set (t_deposits w'). dep_linked_deal_id x \<noteq> Some i"
    and "map dep_status (t_deposits w') = map dep_status (t_deposits w)"
proof -
  have k: "map dep_id (t_deposits w') = map dep_id (t_deposits w)" unfolding assms(2) by (rule map_tupd) simp
  have "tkeys dep_id (t_deposits w')" using assms(1) k by (simp add: deposits_ok_def tkeys_def)
  then show "deposits_ok w'" using assms(1) unfolding deposits_ok_def by (auto simp: list_all_iff assms(2,3) tupd_def)
  show "\<forall>x \<in> set (t_deposits w'). dep_linked_deal_id x \<noteq> Some i" by (auto simp: assms(2) tupd_def)
  show "map dep_status (t_deposits w') = map dep_status (t_deposits w)" unfolding assms(2) by (rule map_tupd) simp
qed


lemma delete_deal_effect:
  assumes "books_ok w"
  shows "case delete_deal now admin i reason w of
      (Inl e, w') \<Rightarrow> w' = w \<and> get_deal i w = None
    | (Inr (j, refunded), w') \<Rightarrow> j = i \<and> get_deal i w' = None \<and> t_ledger w' = t_ledger w
        \<and> (\<forall>k. k \<noteq> i \<longrightarrow> get_deal k w' = get_deal k w)
        \<and> (\<exists>d. get_deal i w = Some d \<and>
            (if holds_escrow (d_status d) \<and> get_currency (d_currency_id d) w \<noteq> None
             then refunded = Some (d_amount d)
               \<and> accounts w' = a_unlock (d_buyer_id d) (d_currency_id d) (d_amount d) (accounts w)
             else refunded = None \<and> accounts w' = accounts w)
            \<and> (books_ok w' \<or> holds_escrow (d_status d) \<and> get_currency (d_currency_id d) w = None))
        \<and> (\<forall>x \<in> set (t_deposits w'). dep_linked_deal_id x \<noteq> Some i)
        \<and> map dep_status (t_deposits w') = map dep_status (t_deposits w)"
proof (cases "get_deal i w")
  case None
  then show ?thesis by (simp add: delete_deal_def)
next
  case (Some d)
  have id: "d_id d = i" and get: "get_deal (d_id d) w = Some d" using get_deal_in [OF Some] Some by simp_all
  have oks: "deals_ok w" "withdrawals_ok w" "deposits_ok w" "balances_ok w" using assms by (auto simp: books_ok_def)
  let ?money = "holds_escrow (d_status d) \<and> get_currency (d_currency_id d) w \<noteq> None"
  have "\<exists>v refunded w'. delete_deal now admin i reason w = (Inr (i, refunded), w') \<and> same_books w' (remove_deal i v) \<and> only_money v w
      \<and> t_ledger v = t_ledger w \<and> (if ?money then refunded = Some (d_amount d) \<and> balances_ok v
         \<and> accounts v = a_unlock (d_buyer_id d) (d_currency_id d) (d_amount d) (accounts w)
         else refunded = None \<and> v = w)"
  proof (cases ?money)
    case True
    then obtain cur where cur: "get_currency (d_currency_id d) w = Some cur" and h: "holds_escrow (d_status d)" by auto
    note t = target_facts [OF assms get h cur]
    obtain b w1 where lock: "lock_user_balance (d_buyer_id d) (d_currency_id d) w = Inr (b, w1)"
      using lock_user_balance_total by blast
    note l = lock_user_balance_ok [OF lock] and lb = lock_user_balance_balances_ok [OF lock t(1)]
      and f = lock_user_balance_frame [OF lock]
    let ?b = "b \<lparr> b_amount := b_amount b + d_amount d, b_locked := max 0 (b_locked b - d_amount d) \<rparr>"
    have ok': "balance_ok ?b" using lb(2) t(2,3) by (auto simp: balance_ok_def grid)
    have key: "b_user_id ?b = d_buyer_id d" "b_currency_id ?b = d_currency_id d" using l by simp_all
    note r = written_row [OF lock t(1) ok' key refl]
    have "accounts (save_balance ?b w1) = a_unlock (d_buyer_id d) (d_currency_id d) (d_amount d) (accounts w)"
      using r(1) l(5) by (auto simp: a_unlock_def intro!: a_upd_cong)
    moreover have "only_money (save_balance ?b w1) w" "t_ledger (save_balance ?b w1) = t_ledger w" using f by (simp_all add: only_money_def)
    moreover obtain w' where "delete_rest now admin d (Some cur) reason (Some (d_amount d)) (save_balance ?b w1) = (Inr (i, Some (d_amount d)), w')"
      "same_books w' (remove_deal i (save_balance ?b w1))" using delete_rest_effect id by blast
    moreover from this have "delete_deal now admin i reason w = (Inr (i, Some (d_amount d)), w')"
      using Some cur h lock t(5,6) by (simp add: delete_deal_def active_holds Let_def)
    ultimately show ?thesis using r(2) True by (intro exI [of _ "save_balance ?b w1"]) simp
  next
    case False
    obtain w' where dl: "delete_rest now admin d (get_currency (d_currency_id d) w) reason None w = (Inr (i, None), w')"
      "same_books w' (remove_deal i w)" using delete_rest_effect id by blast
    then have "delete_deal now admin i reason w = (Inr (i, None), w')"
      using Some False by (auto simp: delete_deal_def active_holds split: option.splits)
    then show ?thesis using dl(2) False by (intro exI [of _ w]) (auto simp: only_money_def)
  qed
  then obtain v refunded w' where run: "delete_deal now admin i reason w = (Inr (i, refunded), w')" and same: "same_books w' (remove_deal i v)"
    and v: "only_money v w" "t_ledger v = t_ledger w" and money: "if ?money then refunded = Some (d_amount d) \<and> balances_ok v
         \<and> accounts v = a_unlock (d_buyer_id d) (d_currency_id d) (d_amount d) (accounts w) else refunded = None \<and> v = w"
    by blast
  have rows: "t_deals w' = filter (\<lambda>d. d_id d \<noteq> i) (t_deals w)" "seq_deals w' = seq_deals w" "t_currencies w' = t_currencies w"
    "t_deposits w' = tupd (\<lambda>x. dep_linked_deal_id x = Some i) (\<lambda>x. x \<lparr> dep_linked_deal_id := None \<rparr>) (t_deposits w)"
    "seq_deposits w' = seq_deposits w" "t_withdrawals w' = t_withdrawals w" "seq_withdrawals w' = seq_withdrawals w"
    "t_balances w' = t_balances v" "t_ledger w' = t_ledger w"
    using same v by (simp_all add: same_books_def only_money_def remove_deal_def)
  note dr = deals_remove [OF oks(1) Some rows(1-3)] and ud = unlink_deposits [OF oks(3) rows(4,5)]
    and ws = withdrawals_same [OF oks(2) rows(6,7)]
  have acc: "accounts w' = accounts v" by (rule accounts_cong [OF rows(8)])
  have "books_ok w'" if m: "\<not> (holds_escrow (d_status d) \<and> get_currency (d_currency_id d) w = None)"
  proof -
    have "balances_ok v" using money oks(4) by (auto split: if_splits)
    then have bal: "balances_ok w'" using balances_ok_cong [OF rows(8)] by simp
    have h: "held w' u c = held w u c - deal_hold d u c" for u c
    proof (cases "holds_escrow (d_status d)")
      case True
      then have a: "accounts w' = a_unlock (d_buyer_id d) (d_currency_id d) (d_amount d) (accounts w)"
        using acc money m by simp
      have "d_amount d \<le> held w (d_buyer_id d) (d_currency_id d)"
        using deal_hold_le_held [OF assms get, of "d_buyer_id d" "d_currency_id d"] True by (simp add: deal_hold_def)
      from held_unlock [OF this a] show ?thesis using True by (auto simp: deal_hold_def)
    qed (use acc money in simp)
    show ?thesis
      by (rule books_ok_step [OF assms bal dr(1) ws(1) ud(1) rows(3)]) (simp add: dr(2) ws(2) h)
  qed
  then show ?thesis using run dr(3,4) ud(2,3) rows(9) money acc Some by (auto simp: split: if_splits)
qed

text \<open>
  Deleting a deal gives the buyer back what an active deal holds, without a ledger entry, and
  removes the row; the books balance. A deal that waits for its top-up loses the link from its
  invoice, which stays payable.
\<close>

theorem delete_deal_refunds_without_ledger:
  assumes "books_ok w"
  shows "case delete_deal now admin i reason w of
      (Inl e, w') \<Rightarrow> w' = w \<and> get_deal i w = None
    | (Inr (j, refunded), w') \<Rightarrow> j = i \<and> get_deal i w' = None \<and> t_ledger w' = t_ledger w
        \<and> (\<forall>k. k \<noteq> i \<longrightarrow> get_deal k w' = get_deal k w)
        \<and> (\<exists>d. get_deal i w = Some d \<and>
            (if holds_escrow (d_status d) \<and> get_currency (d_currency_id d) w \<noteq> None
             then refunded = Some (d_amount d)
               \<and> accounts w' = a_unlock (d_buyer_id d) (d_currency_id d) (d_amount d) (accounts w)
             else refunded = None \<and> accounts w' = accounts w)
            \<and> (books_ok w' \<or> holds_escrow (d_status d) \<and> get_currency (d_currency_id d) w = None))
        \<and> (\<forall>x \<in> set (t_deposits w'). dep_linked_deal_id x \<noteq> Some i)
        \<and> map dep_status (t_deposits w') = map dep_status (t_deposits w)"
  by (rule delete_deal_effect [OF assms])

lemma delete_deal_refunds_without_ledger_witness:
  "case delete_deal 9 sample_admin 5 None sample_world of
      (Inl e, w') \<Rightarrow> False
    | (Inr (j, refunded), w') \<Rightarrow> refunded = Some 25 \<and> get_deal 5 w' = None \<and> books_ok w' \<and> accounts w' 1 7 = (125, 56)"
  using delete_deal_refunds_without_ledger [OF sample_books_ok, where now = 9 and admin = sample_admin and i = 5 and reason = None]
  by (auto simp: a_defs split: prod.splits sum.splits)

end
