(* ===== verification/Funding.thy ===== *)
theory Funding
  imports Topup
begin

text \<open>
  What the top-up flow of \<open>Topup\<close> promises: a paid invoice credits the buyer once, less the
  commission, and starts the deal exactly when the balance then covers its amount; money that
  arrives late stays with the buyer; an unfunded deal ends without touching a balance.
\<close>

section \<open>The parts of a settlement\<close>

text \<open>A new invoice linked to a deal that waits for money: the books do not notice.\<close>

lemma attach_invoice:
  assumes inv: "create_deposit_invoice now cfg api u code amount ''deal_topup'' prov check w = Inr (dep, w1)"
    and ok: "books_ok w" and pos: "0 < amount"
    and get: "get_deal (d_id d) w = Some d0" and d: "deal_ok w d"
    and st: "\<not> holds_escrow (d_status d0)" "\<not> holds_escrow (d_status d)"
    and dep': "dep' = dep \<lparr> dep_linked_deal_id := Some (d_id d) \<rparr>"
    and d': "d' = d \<lparr> d_topup_deposit_id := Some (dep_id dep) \<rparr>"
    and w': "w' = save_deal d' (save_deposit dep' w1)"
  shows "books_ok w'" and "t_balances w' = t_balances w" and "t_ledger w' = t_ledger w"
    and "get_deal (d_id d) w' = Some (deal_row d')"
    and "get_deposit (dep_id dep) w' = Some (deposit_row dep')"
    and "\<forall>i. i < seq_deposits w \<longrightarrow> get_deposit i w' = get_deposit i w"
    and "\<exists>cur. get_currency_by_code code w = Inr cur \<and> dep_amount dep = quantize_money amount (c_decimals cur)"
    and "dep_status dep = DS_pending"
proof -
  from create_deposit_invoice_effect [OF inv] obtain cur where
    c: "get_currency_by_code code w = Inr cur" and id: "dep_id dep = seq_deposits w"
    and amt: "dep_amount dep = quantize_money amount (c_decimals cur)" and pend: "dep_status dep = DS_pending"
    and w1: "w1 = w \<lparr> t_deposits := t_deposits w @ [deposit_row dep], seq_deposits := seq_deposits w + 1 \<rparr>"
    by blast
  have oks: "deals_ok w" "withdrawals_ok w" "deposits_ok w" "currencies_ok w" "balances_ok w"
    using ok by (auto simp: books_ok_def)
  have a: "0 \<le> dep_amount dep" "storable (dep_amount dep)"
    using amt pos get_currency_by_code_found [OF c oks(4)] by (auto intro: storable_quantize)
  have "deposits_ok w1" using deposits_insert [OF oks(3), of w1 "deposit_row dep"] w1 id a by simp
  have "get_deposit (dep_id dep') w1 \<noteq> None"
    by (simp add: get_deposit_def w1 dep' tget_append tget_None_iff split: option.splits)
  then obtain x where "get_deposit (dep_id (deposit_row dep')) w1 = Some x" by auto
  note du = deposits_update [OF \<open>deposits_ok w1\<close> this]
  have "deposits_ok w'" using du(1) [of w'] a by (simp add: w' dep')
  show "get_deposit (dep_id dep) w' = Some (deposit_row dep')"
    using du(2) [of w'] a by (simp add: w' dep')
  show "\<forall>i. i < seq_deposits w \<longrightarrow> get_deposit i w' = get_deposit i w"
  proof (intro allI impI)
    fix i assume i: "i < seq_deposits w"
    have "get_deposit i w' = get_deposit i w1" using i id by (intro du(3)) (simp_all add: w' dep' a)
    also have "\<dots> = get_deposit i w" using i id by (simp add: get_deposit_def w1 tget_append split: option.splits)
    finally show "get_deposit i w' = get_deposit i w" .
  qed
  have row: "get_deal (d_id (deal_row d')) w = Some d0" using get d' by simp
  have dr: "deal_ok w (deal_row d')" by (intro deal_ok_row deal_ok_same [OF _ d]) (simp add: d' same_deal_def)
  have hold: "deal_hold (deal_row d') u c = 0" for u c using st(2) by (simp add: d')
  note dd = deals_update [OF oks(1) row _ _ _ dr, of w']
  show "t_balances w' = t_balances w" "t_ledger w' = t_ledger w" by (simp_all add: w' w1)
  show "get_deal (d_id d) w' = Some (deal_row d')"
    using tget_tput_same [OF row [unfolded get_deal_def]] by (simp add: get_deal_def w' w1 d')
  show "\<exists>cur. get_currency_by_code code w = Inr cur \<and> dep_amount dep = quantize_money amount (c_decimals cur)"
    "dep_status dep = DS_pending" using c amt pend by simp_all
  show "books_ok w'"
  proof (rule books_ok_step [OF ok])
    show "balances_ok w'" using oks(5) balances_ok_cong [of w' w] by (simp add: w' w1)
    show "deals_ok w'" using dd(1) by (simp add: w' w1)
    show "withdrawals_ok w'" using oks(2) by (simp add: withdrawals_ok_def w' w1)
    show "deposits_ok w'" by fact
    show "t_currencies w' = t_currencies w" by (simp add: w' w1)
    fix u c
    have "held w' u c = held w u c" using accounts_cong [of w' w] by (simp add: w' w1)
    moreover have "escrow w' u c = escrow w u c" using dd(2) [of u c] st(1) hold by (simp add: w' w1)
    moreover have "reserved w' u c = reserved w u c" by (simp add: reserved_def w' w1)
    ultimately show "held w' u c - held w u c = escrow w' u c - escrow w u c + (reserved w' u c - reserved w u c)"
      by simp
  qed
qed

lemma issue_remaining_effect:
  assumes run: "issue_remaining_topup_invoice now cfg api d cur bal w = Inr ((d', r), w')"
    and ok: "books_ok w" and get: "get_deal (d_id d) w = Some d0" and d: "deal_ok w d"
    and st: "\<not> holds_escrow (d_status d0)" "\<not> holds_escrow (d_status d)"
  shows "books_ok w' \<and> t_balances w' = t_balances w \<and> t_ledger w' = t_ledger w
    \<and> same_deal d d' \<and> d_status d' = d_status d \<and> d_commission_paid d' = d_commission_paid d
    \<and> (r = None \<and> w' = w \<and> d' = d \<or> get_deal (d_id d) w' = Some (deal_row d'))
    \<and> (\<forall>i. i < seq_deposits w \<longrightarrow> get_deposit i w' = get_deposit i w)"
proof (cases r)
  case None
  with run show ?thesis using ok get
    by (auto simp: issue_remaining_topup_invoice_def Let_def split: option.splits if_splits sum.splits)
next
  case (Some dep')
  obtain dep w1 total where
    inv: "\<exists>u p. create_deposit_invoice now cfg api u (c_code cur) total ''deal_topup'' p False w = Inr (dep, w1)"
    and pos: "0 < total" and dep': "dep' = dep \<lparr> dep_linked_deal_id := Some (d_id d) \<rparr>"
    and d': "d' = d \<lparr> d_topup_deposit_id := Some (dep_id dep) \<rparr>"
    and w': "w' = save_deal d' (save_deposit dep' w1)"
    using run Some by (force simp: issue_remaining_topup_invoice_def Let_def split: option.splits if_splits sum.splits)
  from inv obtain u p where
    inv: "create_deposit_invoice now cfg api u (c_code cur) total ''deal_topup'' p False w = Inr (dep, w1)"
    by blast
  note a = attach_invoice [OF inv ok pos get d st dep' d' w']
  show ?thesis using a(1-4,6) by (simp add: d' same_deal_def)
qed

text \<open>A deal waiting for its invoice and a deposit of one of its invoices.\<close>

definition topup_pair :: "wallet_deposit \<Rightarrow> deal \<Rightarrow> currency \<Rightarrow> world \<Rightarrow> bool" where
  "topup_pair dep d cur w \<longleftrightarrow> books_ok w \<and> get_deposit (dep_id dep) w = Some dep
     \<and> get_deal (d_id d) w = Some d \<and> dep_linked_deal_id dep = Some (d_id d)
     \<and> get_currency (d_currency_id d) w = Some cur \<and> dep_status dep \<noteq> DS_paid"

lemma topup_pairD:
  assumes "topup_pair dep d cur w"
  shows "books_ok w" "balances_ok w" "deals_ok w" "withdrawals_ok w" "deposits_ok w" "currencies_ok w"
    "get_deposit (dep_id dep) w = Some dep" "get_deal (d_id d) w = Some d"
    "get_currency (d_currency_id d) w = Some cur" "c_id cur = d_currency_id d" "deal_ok w d"
    "quantize_money (d_amount d) (c_decimals cur) = d_amount d" "c_decimals cur \<le> MONEY_SCALE"
proof -
  show a: "books_ok w" "balances_ok w" "deals_ok w" "withdrawals_ok w" "deposits_ok w" "currencies_ok w"
    "get_deposit (dep_id dep) w = Some dep" "get_deal (d_id d) w = Some d"
    "get_currency (d_currency_id d) w = Some cur"
    using assms by (auto simp: topup_pair_def books_ok_def)
  show b: "c_id cur = d_currency_id d" using a(9) by (rule get_currency_id)
  show c: "deal_ok w d" using a(3,8) by (rule get_deal_ok)
  show "quantize_money (d_amount d) (c_decimals cur) = d_amount d" using c a(9) by (rule quantize_deal_amount)
  have "cur \<in> set (t_currencies w)" using a(9) unfolding get_currency_def by (auto dest: tget_Some)
  then show "c_decimals cur \<le> MONEY_SCALE"
    using a(6) by (auto simp: currencies_ok_def list_all_iff)
qed

text \<open>Paying the deposit and writing the deal's row: what the three outcomes share.\<close>

lemma settle_rows:
  assumes p: "topup_pair dep d cur w" and st: "d_status d = pending_topup"
    and s: "same_deal d d'" and dep': "dep_id dep' = dep_id dep" "dep_amount dep' = dep_amount dep"
    and bal: "balances_ok w'" and held: "\<And>u c. held w' u c = held w u c + deal_hold d' u c"
    and w': "t_deals w' = tput d_id (deal_row d') (t_deals w)"
      "t_deposits w' = tput dep_id (deposit_row dep') (t_deposits w)"
      "t_withdrawals w' = t_withdrawals w" "t_currencies w' = t_currencies w"
      "seq_deals w' = seq_deals w" "seq_deposits w' = seq_deposits w" "seq_withdrawals w' = seq_withdrawals w"
  shows "books_ok w'" and "get_deal (d_id d) w' = Some (deal_row d')"
    and "get_deposit (dep_id dep) w' = Some (deposit_row dep')"
proof -
  note P = topup_pairD [OF p]
  have id: "d_id (deal_row d') = d_id d" using s by (simp add: same_deal_def)
  have row: "get_deal (d_id (deal_row d')) w = Some d" using P(8) id by simp
  have dr: "deal_ok w (deal_row d')" by (intro deal_ok_row deal_ok_same [OF s P(11)])
  have hd: "deal_hold (deal_row d') = deal_hold d'"
    using s P(11) by (simp add: same_deal_def deal_ok_def)
  note dd = deals_update [OF P(3) row w'(1,5,4) dr]
  have drow: "get_deposit (dep_id (deposit_row dep')) w = Some dep" using P(7) dep' by simp
  have "0 \<le> dep_amount (deposit_row dep')" "storable (dep_amount (deposit_row dep'))"
    using get_deposit_ok [OF P(5,7)] dep' by simp_all
  note du = deposits_update [OF P(5) drow w'(2,6) this]
  show "get_deal (d_id d) w' = Some (deal_row d')"
    using tget_tput_same [OF row [unfolded get_deal_def]] id by (simp add: get_deal_def w'(1))
  show "get_deposit (dep_id dep) w' = Some (deposit_row dep')" using du(2) dep' by simp
  show "books_ok w'"
  proof (rule books_ok_step [OF P(1) bal dd(1) _ du(1) w'(4)])
    show "withdrawals_ok w'" using withdrawals_same [OF P(4) w'(3,7)] by simp
    fix u c
    show "held w' u c - held w u c = escrow w' u c - escrow w u c + (reserved w' u c - reserved w u c)"
      using dd(2) [of u c] withdrawals_same(2) [OF P(4) w'(3,7)] st hd
      by (simp add: held)
  qed
qed

lemma run_tx_Inr: "run_tx w r = (Inr x, w') \<Longrightarrow> r = Inr (x, w')"
  by (auto simp: run_tx_def split: sum.splits)

lemma topup_partial_effect:
  assumes run: "topup_partial now cfg api dep d1 cur paid due credit bal mk w1 = Inr (dep', w')"
    and p: "topup_pair dep d cur w" and st: "d_status d = pending_topup"
    and d1: "same_deal d d1" "d_status d1 = pending_topup"
    and lock: "lock_user_balance (d_buyer_id d) (c_id cur) w = Inr (bal, w1)"
    and x: "0 \<le> credit" "storable credit"
  shows "books_ok w' \<and> audited w w' \<and> dep' = mark_deposit_paid now (Some paid) dep
    \<and> accounts w' = a_credit (d_buyer_id d) (d_currency_id d) credit (accounts w)
    \<and> total c w' = total c w + (if c = d_currency_id d then credit else 0)
    \<and> get_deposit (dep_id dep) w' = Some (deposit_row dep')
    \<and> (\<exists>d'. get_deal (d_id d) w' = Some (deal_row d') \<and> same_deal d d' \<and> d_status d' = pending_topup
         \<and> d_commission_paid d' = d_commission_paid d1)"
proof -
  note P = topup_pairD [OF p] and f = lock_user_balance_frame [OF lock]
  let ?b = "bal \<lparr> b_amount := b_amount bal + credit \<rparr>"
  let ?w2 = "ledgered ?b (b_amount bal) (b_locked bal)
      (deposit_event ''deal_topup.partial_credit'' dep
        [(''deal_id'', MInt (d_id d1)), (''paid'', MDec paid), (''commission_due'', MDec due)])
      (save_balance ?b w1)"
  let ?dep = "mark_deposit_paid now (Some paid) dep"
  define w3 where "w3 = save_deal d1 (save_deposit ?dep ?w2)"
  obtain d' r w4 where
    issue: "issue_remaining_topup_invoice now cfg api d1 cur (b_amount ?b) w3 = Inr ((d', r), w4)"
    and dep': "dep' = ?dep" and w': "same_books w' w4"
    using run by (auto simp: topup_partial_def Let_def case_prod_beta w3_def [symmetric] same_books_def
        split: sum.splits)
  have b3: "t_balances w3 = t_balances (save_balance ?b w1)" by (simp add: w3_def)
  note c = credited_row [OF lock P(2) x b3]
  have acc: "accounts w3 = a_credit (d_buyer_id d) (d_currency_id d) credit (accounts w)"
    using c(1) P(10) by simp
  have aud: "audited w w3"
    by (rule audited_same [OF _ _ credited_row(4) [OF lock P(2) x b3]]) (simp_all add: w3_def f)
  have hold: "held w3 u c' = held w u c' + deal_hold d1 u c'" for u c'
    using d1(2) by (simp add: acc a_credit_def a_upd_def split: prod.splits)
  have id: "d_id d1 = d_id d" using d1 by (simp add: same_deal_def)
  note sr = settle_rows [OF p st d1(1) _ _ c(2) hold, of ?dep]
  have s3: "books_ok w3" "get_deal (d_id d) w3 = Some (deal_row d1)"
    "get_deposit (dep_id dep) w3 = Some (deposit_row ?dep)"
    by (rule sr; simp add: w3_def f mark_deposit_paid_def)+
  have dk: "deal_ok w3 d1"
    using deal_ok_same [OF d1(1) P(11)] deal_ok_cong [of w3 w] f by (simp add: w3_def)
  have g1: "get_deal (d_id d1) w3 = Some (deal_row d1)" using s3(2) id by simp
  have "\<not> holds_escrow (d_status (deal_row d1))" "\<not> holds_escrow (d_status d1)" using d1(2) by simp_all
  note i = issue_remaining_effect [OF issue s3(1) g1 dk this]
  have lt: "dep_id dep < seq_deposits w3"
    using get_deposit_ok [OF P(5,7)] f by (simp add: w3_def)
  note s = same_booksD [OF w']
  have eq: "t_balances w' = t_balances w3" "t_ledger w' = t_ledger w3"
    using w' i by (simp_all add: same_books_def)
  have "get_deal (d_id d) w' = Some (deal_row d')"
    using i s3(2) id w' by (auto simp: get_deal_def same_books_def)
  moreover have "same_deal d d'" using i d1(1) by (auto simp: same_deal_def)
  moreover have "audited w w'" by (rule audited_same [OF eq aud])
  moreover have "accounts w' = a_credit (d_buyer_id d) (d_currency_id d) credit (accounts w)"
    using accounts_cong [OF eq(1)] acc by simp
  moreover have "total c w' = total c w + (if c = d_currency_id d then credit else 0)"
    using c(3) [of c] eq(1) P(10) by (simp add: total_def)
  moreover have "get_deposit (dep_id dep) w' = Some (deposit_row ?dep)"
    using i lt s3(3) w' by (simp add: get_deposit_def same_books_def)
  moreover have "books_ok w'" using i s(4) by simp
  ultimately show ?thesis using i d1(2) dep' by auto
qed

lemma topup_activate_effect:
  assumes run: "topup_activate now dep d1 cur amt paid due credit bal w1 = (dep', w')"
    and p: "topup_pair dep d cur w" and st: "d_status d = pending_topup"
    and d1: "same_deal d d1" and amt: "amt = d_amount d"
    and lock: "lock_user_balance (d_buyer_id d) (c_id cur) w = Inr (bal, w1)"
    and x: "0 \<le> credit" "storable credit" and le: "amt \<le> b_amount bal + credit"
  shows "books_ok w' \<and> audited w w' \<and> dep' = mark_deposit_paid now (Some paid) dep
    \<and> accounts w' = a_lock (d_buyer_id d) (d_currency_id d) (d_amount d)
                      (a_credit (d_buyer_id d) (d_currency_id d) credit (accounts w))
    \<and> total c w' = total c w + (if c = d_currency_id d then credit else 0)
    \<and> get_deposit (dep_id dep) w' = Some (deposit_row dep')
    \<and> (\<exists>d'. get_deal (d_id d) w' = Some (deal_row d') \<and> same_deal d d'
         \<and> d_status d' = pending_confirmation \<and> d_commission_paid d')"
proof -
  note P = topup_pairD [OF p] and f = lock_user_balance_frame [OF lock]
  let ?b = "bal \<lparr> b_amount := b_amount bal + credit - amt, b_locked := b_locked bal + amt \<rparr>"
  let ?w2 = "ledgered ?b (b_amount bal) (b_locked bal)
      (deposit_event ''deal_topup.activate'' dep
        [(''deal_id'', MInt (d_id d1)), (''paid'', MDec paid), (''commission_due'', MDec due)])
      (save_balance ?b w1)"
  let ?dep = "mark_deposit_paid now (Some paid) dep"
  let ?d = "d1 \<lparr> d_status := pending_confirmation, d_commission_paid := True \<rparr>"
  define w3 where "w3 = save_deal ?d (save_deposit ?dep ?w2)"
  have dep': "dep' = ?dep" and s: "same_books w' w3"
    using run by (auto simp: topup_activate_def Let_def case_prod_beta w3_def [symmetric] same_books_def)
  note l = lock_user_balance_ok [OF lock] and lb = lock_user_balance_balances_ok [OF lock P(2)]
  have a: "0 < amt" "storable amt" using P(11) amt by (auto simp: deal_ok_def)
  have ok': "balance_ok ?b" using lb(2) x a le by (auto simp: balance_ok_def grid)
  have key: "b_user_id ?b = d_buyer_id d" "b_currency_id ?b = c_id cur" using l by simp_all
  have b3: "t_balances w3 = t_balances (save_balance ?b w1)" by (simp add: w3_def)
  note r = written_row [OF lock P(2) ok' key b3]
  have acc: "accounts w3 = a_lock (d_buyer_id d) (d_currency_id d) (d_amount d)
               (a_credit (d_buyer_id d) (d_currency_id d) credit (accounts w))"
    using r(1) l(5) P(10) amt by (auto simp: a_defs fun_eq_iff)
  have "audited w ?w2" by (rule audited_write) (use lock key P(2) ok' f in simp_all)
  then have aud: "audited w w3" by (rule audited_same [rotated 2]) (simp_all add: w3_def)
  have hold: "held w3 u c' = held w u c' + deal_hold ?d u c'" for u c'
    using d1 by (auto simp: acc a_defs deal_hold_def same_deal_def split: prod.splits)
  have sd: "same_deal d ?d" using d1 by (simp add: same_deal_def)
  note sr = settle_rows [OF p st sd _ _ r(2) hold, of ?dep]
  have s3: "books_ok w3" "get_deal (d_id d) w3 = Some (deal_row ?d)"
    "get_deposit (dep_id dep) w3 = Some (deposit_row ?dep)"
    by (rule sr; simp add: w3_def f mark_deposit_paid_def)+
  have tot: "total c w3 = total c w + (if c = d_currency_id d then credit else 0)"
    using r(3) [of c] P(10) by simp
  have g: "get_deal (d_id d) w' = get_deal (d_id d) w3" "get_deposit (dep_id dep) w' = get_deposit (dep_id dep) w3"
    using s by (simp_all add: same_books_def get_deal_def get_deposit_def)
  show ?thesis
    using same_booksD [OF s] s3 tot acc audited_trans [OF aud] sd dep' g by auto
qed

lemma topup_late_credit_effect:
  assumes run: "topup_late_credit now dep d cur paid w = (r, w')"
    and p: "topup_pair dep d cur w" and x: "0 \<le> paid" "storable paid"
  shows "r = Inr (mark_deposit_paid now (Some paid) dep) \<and> books_ok w' \<and> audited w w'
    \<and> accounts w' = a_credit (d_buyer_id d) (d_currency_id d) paid (accounts w)
    \<and> total c w' = total c w + (if c = d_currency_id d then paid else 0)
    \<and> get_deposit (dep_id dep) w' = Some (deposit_row (mark_deposit_paid now (Some paid) dep))
    \<and> t_deals w' = t_deals w"
proof -
  note P = topup_pairD [OF p]
  obtain bal w1 where lock: "lock_user_balance (d_buyer_id d) (c_id cur) w = Inr (bal, w1)"
    using lock_user_balance_total by blast
  note f = lock_user_balance_frame [OF lock]
  let ?b = "bal \<lparr> b_amount := b_amount bal + paid \<rparr>"
  let ?w2 = "ledgered ?b (b_amount bal) (b_locked bal)
      (deposit_event ''deal_topup.late_credit'' dep
        [(''deal_id'', MInt (d_id d)), (''paid'', MDec paid)]) (save_balance ?b w1)"
  let ?dep = "mark_deposit_paid now (Some paid) dep"
  define w3 where "w3 = save_deposit ?dep ?w2"
  have r: "r = Inr ?dep" and s: "same_books w' w3"
    using run lock by (auto simp: topup_late_credit_def Let_def case_prod_beta w3_def [symmetric] same_books_def)
  have b3: "t_balances w3 = t_balances (save_balance ?b w1)" by (simp add: w3_def)
  note c = credited_row [OF lock P(2) x b3]
  have aud: "audited w w3"
    by (rule audited_same [OF _ _ credited_row(4) [OF lock P(2) x b3]]) (simp_all add: w3_def f)
  have row: "get_deposit (dep_id (deposit_row ?dep)) w = Some dep"
    using P(7) by (simp add: mark_deposit_paid_def)
  note du = deposits_update [OF P(5) row, of w3]
  have du': "deposits_ok w3" "get_deposit (dep_id dep) w3 = Some (deposit_row ?dep)"
    using du(1,2) get_deposit_ok [OF P(5,7)] by (simp_all add: w3_def f mark_deposit_paid_def)
  have "books_ok w3"
    by (rule books_quiet [OF P(1) c(2) du'(1) held_credit_at [OF c(1)]]) (simp_all add: w3_def f)
  moreover have "t_deals w' = t_deals w" "get_deposit (dep_id dep) w' = get_deposit (dep_id dep) w3"
    using s f by (simp_all add: same_books_def get_deposit_def w3_def)
  ultimately show ?thesis
    using same_booksD [OF s] c(1) c(3) [of c] P(10) r du'(2) audited_trans [OF aud] by auto
qed


section \<open>A paid invoice\<close>

lemma commission_due_grid [grid]: "on_grid (c_decimals cur) (commission_due d cur)"
  by (simp add: commission_due_def Let_def)

definition topup_paid :: "wallet_deposit \<Rightarrow> decimal option \<Rightarrow> currency \<Rightarrow> decimal" where
  "topup_paid dep reported cur =
     quantize_money (case reported of None \<Rightarrow> dep_amount dep | Some x \<Rightarrow> x) (c_decimals cur)"

definition topup_credit :: "deal \<Rightarrow> currency \<Rightarrow> decimal \<Rightarrow> decimal" where
  "topup_credit d cur paid =
     (if paid < commission_due d cur then paid else paid - commission_due d cur)"

text \<open>The money then at hand pays the commission and the whole principal.\<close>

definition topup_covers :: "deal \<Rightarrow> currency \<Rightarrow> decimal \<Rightarrow> world \<Rightarrow> bool" where
  "topup_covers d cur paid w \<longleftrightarrow> commission_due d cur \<le> paid \<and>
     d_amount d \<le> free w (d_buyer_id d) (d_currency_id d) + topup_credit d cur paid"

lemma topup_payment_effect:
  assumes "books_ok w" and "get_deposit (dep_id dep) w = Some dep" and "dep_status dep \<noteq> DS_paid"
    and "dep_linked_deal_id dep = Some (d_id d)" and "get_deal (d_id d) w = Some d"
    and "d_status d = pending_topup" and "list_all (\<lambda>x. 0 \<le> x) (case reported of None \<Rightarrow> [] | Some x \<Rightarrow> [x])"
  shows "case complete_deal_topup_payment now cfg api dep reported w of
      (Inl e, w') \<Rightarrow> w' = w \<and> (case get_currency (d_currency_id d) w of None \<Rightarrow> True
        | Some cur \<Rightarrow> \<not> topup_covers d cur (topup_paid dep reported cur) w)
    | (Inr dep', w') \<Rightarrow> \<exists>cur paid credit d'. get_currency (d_currency_id d) w = Some cur
        \<and> paid = topup_paid dep reported cur \<and> credit = topup_credit d cur paid
        \<and> dep' = mark_deposit_paid now (Some paid) dep
        \<and> get_deposit (dep_id dep) w' = Some (deposit_row dep')
        \<and> total c w' = total c w + (if c = d_currency_id d then credit else 0)
        \<and> audited w w' \<and> books_ok w' \<and> get_deal (d_id d) w' = Some (deal_row d') \<and> same_deal d d'
        \<and> (if topup_covers d cur paid w
           then d_status d' = pending_confirmation \<and> d_commission_paid d'
                \<and> accounts w' = a_lock (d_buyer_id d) (d_currency_id d) (d_amount d)
                     (a_credit (d_buyer_id d) (d_currency_id d) credit (accounts w))
           else d_status d' = pending_topup
                \<and> accounts w' = a_credit (d_buyer_id d) (d_currency_id d) credit (accounts w))"
proof (cases rule: outcome_cases [of "complete_deal_topup_payment now cfg api dep reported w"])
  case (fails e w')
  show ?thesis
  proof (cases "get_currency (d_currency_id d) w")
    case None
    with fails assms(3-6) show ?thesis by (simp add: complete_deal_topup_payment_def deal_currency_def)
  next
    case (Some cur)
    have p: "topup_pair dep d cur w" using assms(1-5) Some by (simp add: topup_pair_def)
    note P = topup_pairD [OF p]
    obtain bal w1 where lock: "lock_user_balance (d_buyer_id d) (c_id cur) w = Inr (bal, w1)"
      using lock_user_balance_total by blast
    have "b_amount bal = free w (d_buyer_id d) (d_currency_id d)"
      using lock_user_balance_ok(5) [OF lock] P(10) by simp
    moreover have "quantize_money (topup_paid dep reported cur - commission_due d cur) (c_decimals cur)
        = topup_paid dep reported cur - commission_due d cur"
      by (intro quantize_on_grid grid) (simp add: topup_paid_def)
    ultimately show ?thesis using fails assms(3-6) Some lock P(12)
      by (auto simp: complete_deal_topup_payment_def Let_def run_tx_def case_prod_beta deal_currency_def
          topup_covers_def topup_paid_def topup_credit_def split: sum.splits if_splits)
  qed
next
  case (returns dep' w')
  obtain cur where cur: "get_currency (d_currency_id d) w = Some cur"
    using returns assms(3-6) by (auto simp: complete_deal_topup_payment_def deal_currency_def split: option.splits)
  have p: "topup_pair dep d cur w" using assms(1-5) cur by (simp add: topup_pair_def)
  note P = topup_pairD [OF p]
  obtain bal w1 where lock: "lock_user_balance (d_buyer_id d) (c_id cur) w = Inr (bal, w1)"
    using lock_user_balance_total by blast
  have free: "b_amount bal = free w (d_buyer_id d) (d_currency_id d)"
    using lock_user_balance_ok(5) [OF lock] P(10) by simp
  define paid where "paid = topup_paid dep reported cur"
  define due where "due = commission_due d cur"
  define credit where "credit = topup_credit d cur paid"
  have gp: "on_grid (c_decimals cur) paid" by (simp add: paid_def topup_paid_def)
  have "0 \<le> (case reported of None \<Rightarrow> dep_amount dep | Some x \<Rightarrow> x)"
    using assms(7) get_deposit_ok [OF P(5,7)] by (simp split: option.splits)
  then have paid: "0 \<le> paid" by (simp add: paid_def topup_paid_def)
  have gc: "on_grid (c_decimals cur) credit"
    unfolding credit_def topup_credit_def using gp by (auto intro: grid)
  have credit: "0 \<le> credit" "storable credit"
    using paid on_grid_mono [OF gc P(13)] by (simp_all add: credit_def topup_credit_def)
  have qc: "\<not> paid < due \<Longrightarrow> quantize_money (paid - due) (c_decimals cur) = credit"
    using gc by (simp add: credit_def topup_credit_def due_def)
  define d1 where "d1 = (if 0 < due then d \<lparr> d_commission_paid := True \<rparr> else d)"
  have s1: "same_deal d d1" "d_status d1 = pending_topup" "d_id d1 = d_id d"
    using assms(6) by (simp_all add: d1_def same_deal_def)
  have qd: "quantize_money (d_amount d) (c_decimals cur) = d_amount d" by (rule P(12))
  consider (short) "paid < due" | (partial) "due \<le> paid" "b_amount bal + credit < d_amount d"
    | (full) "due \<le> paid" "d_amount d \<le> b_amount bal + credit" by linarith
  then have "dep' = mark_deposit_paid now (Some paid) dep \<and> audited w w' \<and> books_ok w'
      \<and> get_deposit (dep_id dep) w' = Some (deposit_row dep')
      \<and> total c w' = total c w + (if c = d_currency_id d then credit else 0)
      \<and> (\<exists>d'. get_deal (d_id d) w' = Some (deal_row d') \<and> same_deal d d'
         \<and> (if due \<le> paid \<and> d_amount d \<le> b_amount bal + credit
           then d_status d' = pending_confirmation \<and> d_commission_paid d'
                \<and> accounts w' = a_lock (d_buyer_id d) (d_currency_id d) (d_amount d)
                     (a_credit (d_buyer_id d) (d_currency_id d) credit (accounts w))
           else d_status d' = pending_topup
                \<and> accounts w' = a_credit (d_buyer_id d) (d_currency_id d) credit (accounts w)))"
  proof cases
    case short
    have c: "credit = paid" using short by (simp add: credit_def topup_credit_def due_def)
    have "run_tx w (topup_partial now cfg api dep d cur paid due paid bal
        (\<lambda>deficit. N_topup_partial paid (c_code cur) deficit (d_id d)) w1) = (Inr dep', w')"
      using returns assms(3-6) short
      by (simp add: complete_deal_topup_payment_def Let_def deal_currency_def cur lock qd
          paid_def [unfolded topup_paid_def] due_def)
    from topup_partial_effect [OF run_tx_Inr [OF this] p assms(6) same_deal_refl assms(6) lock]
    show ?thesis using short credit c by auto
  next
    case partial
    have "run_tx w (topup_partial now cfg api dep d1 cur paid due credit bal
        (\<lambda>deficit. N_topup_balance_short paid (c_code cur) deficit (d_id d)) w1) = (Inr dep', w')"
      using returns assms(3-6) partial qc
      by (simp add: complete_deal_topup_payment_def Let_def deal_currency_def cur lock qd d1_def
          paid_def [unfolded topup_paid_def] due_def case_prod_beta prod_eq_iff)
    from topup_partial_effect [OF run_tx_Inr [OF this] p assms(6) s1(1,2) lock credit]
    show ?thesis using partial by auto
  next
    case full
    have "topup_activate now dep d1 cur (d_amount d) paid due credit bal w1 = (dep', w')"
      using returns assms(3-6) full qc
      by (simp add: complete_deal_topup_payment_def Let_def deal_currency_def cur lock qd d1_def
          paid_def [unfolded topup_paid_def] due_def case_prod_beta prod_eq_iff)
    from topup_activate_effect [OF this p assms(6) s1(1) refl lock credit full(2)]
    show ?thesis using full by auto
  qed
  then show ?thesis
    using returns cur free unfolding paid_def due_def credit_def topup_covers_def by simp 
qed

text \<open>
  C5. A paid invoice of a waiting deal is credited once to its buyer, less the commission when
  the payment covers it. The deal starts exactly when the commission is paid and the free
  money then covers the principal, which is locked; otherwise it keeps waiting. Nobody else's
  account moves, the ledger explains the change and the books balance. If the settlement
  fails nothing is kept of it, and it cannot fail once the money is there. The call is idempotent: on
  a deposit that is paid it changes nothing, and after a success the row is paid and every later
  call on it, whatever amount it reports, changes nothing.
\<close>

theorem topup_payment_settles:
  assumes "books_ok w" and "get_deposit (dep_id dep) w = Some dep"
    and "dep_linked_deal_id dep = Some (d_id d)" and "get_deal (d_id d) w = Some d"
    and "d_status d = pending_topup" and "list_all (\<lambda>x. 0 \<le> x) (case reported of None \<Rightarrow> [] | Some x \<Rightarrow> [x])"
  shows "case complete_deal_topup_payment now cfg api dep reported w of
      (Inl e, w') \<Rightarrow> w' = w \<and> dep_status dep \<noteq> DS_paid \<and> (case get_currency (d_currency_id d) w of None \<Rightarrow> True
        | Some cur \<Rightarrow> \<not> topup_covers d cur (topup_paid dep reported cur) w)
    | (Inr dep', w') \<Rightarrow> (\<exists>row. get_deposit (dep_id dep) w' = Some row \<and> dep_status row = DS_paid
        \<and> (\<forall>later again. complete_deal_topup_payment later cfg api row again w' = (Inr row, w')))
      \<and> (if dep_status dep = DS_paid then dep' = dep \<and> w' = w
         else \<exists>cur paid credit d'. get_currency (d_currency_id d) w = Some cur
        \<and> paid = topup_paid dep reported cur \<and> credit = topup_credit d cur paid
        \<and> dep' = mark_deposit_paid now (Some paid) dep
        \<and> get_deposit (dep_id dep) w' = Some (deposit_row dep')
        \<and> total c w' = total c w + (if c = d_currency_id d then credit else 0)
        \<and> audited w w' \<and> books_ok w' \<and> get_deal (d_id d) w' = Some (deal_row d') \<and> same_deal d d'
        \<and> (if topup_covers d cur paid w
           then d_status d' = pending_confirmation \<and> d_commission_paid d'
                \<and> accounts w' = a_lock (d_buyer_id d) (d_currency_id d) (d_amount d)
                     (a_credit (d_buyer_id d) (d_currency_id d) credit (accounts w))
           else d_status d' = pending_topup
                \<and> accounts w' = a_credit (d_buyer_id d) (d_currency_id d) credit (accounts w)))"
proof (cases "dep_status dep = DS_paid")
  case True
  then show ?thesis using assms(2) by (simp add: complete_deal_topup_payment_def)
next
  case False
  have again: "complete_deal_topup_payment later cfg api (deposit_row (mark_deposit_paid now (Some p) dep)) r v
      = (Inr (deposit_row (mark_deposit_paid now (Some p) dep)), v)" for later p r v
    by (simp add: complete_deal_topup_payment_def mark_deposit_paid_def)
  have paid: "dep_status (deposit_row (mark_deposit_paid now (Some p) dep)) = DS_paid" for p
    by (simp add: mark_deposit_paid_def)
  note e = topup_payment_effect [OF assms(1,2) False assms(3-6), where now = now and cfg = cfg and api = api and c = c]
  show ?thesis
  proof (cases rule: outcome_cases [of "complete_deal_topup_payment now cfg api dep reported w"])
    case (fails x w')
    then show ?thesis using e False by simp
  next
    case (returns dep' w')
    note e' = e [unfolded returns prod.case sum.case]
    then obtain p where "dep' = mark_deposit_paid now (Some p) dep" "get_deposit (dep_id dep) w' = Some (deposit_row dep')" by blast
    then have "\<exists>row. get_deposit (dep_id dep) w' = Some row \<and> dep_status row = DS_paid
        \<and> (\<forall>later again. complete_deal_topup_payment later cfg api row again w' = (Inr row, w'))"
      using again paid by blast
    then show ?thesis unfolding returns prod.case sum.case using e' False by simp
  qed
qed

lemma sample_topup_covers:
  "topup_covers (sample_deal 8 pending_topup 50) usdt 51 sample_world"
  by (simp add: topup_covers_def topup_credit_def commission_due_def)

lemma topup_payment_settles_witness:
  "case complete_deal_topup_payment 9 sample_cfg sample_api
       (sample_deposit 11 DS_pending P_deal_topup (Some 8) 51) None sample_world of
      (Inl e, w') \<Rightarrow> False
    | (Inr dep', w') \<Rightarrow> dep_status dep' = DS_paid \<and> accounts w' 1 7 = (100, 131) \<and> books_ok w'"
  using topup_payment_settles [OF sample_books_ok,
      where dep = "sample_deposit 11 DS_pending P_deal_topup (Some 8) 51" and c = 7 and now = 9
        and d = "sample_deal 8 pending_topup 50" and reported = None and cfg = sample_cfg and api = sample_api]
    sample_topup_covers
  by (auto simp: topup_paid_def topup_credit_def commission_due_def mark_deposit_paid_def a_defs
      split: prod.splits sum.splits)

text \<open>
  A payment for a deal that no longer waits for it is not lost: the whole amount goes to
  the buyer's free money, the deal keeps its row, and the deposit is paid.
\<close>

theorem topup_late_payment_returns_to_buyer:
  assumes "books_ok w" and "get_deposit (dep_id dep) w = Some dep" and "dep_status dep \<noteq> DS_paid"
    and "dep_linked_deal_id dep = Some (d_id d)" and "get_deal (d_id d) w = Some d"
    and "d_status d \<noteq> pending_topup" and "list_all (\<lambda>x. 0 \<le> x) (case reported of None \<Rightarrow> [] | Some x \<Rightarrow> [x])"
  shows "case complete_deal_topup_payment now cfg api dep reported w of
      (Inl e, w') \<Rightarrow> w' = w \<and> get_currency (d_currency_id d) w = None
    | (Inr dep', w') \<Rightarrow> \<exists>cur paid. get_currency (d_currency_id d) w = Some cur
        \<and> paid = topup_paid dep reported cur
        \<and> dep' = mark_deposit_paid now (Some paid) dep
        \<and> get_deposit (dep_id dep) w' = Some (deposit_row dep') \<and> t_deals w' = t_deals w
        \<and> accounts w' = a_credit (d_buyer_id d) (d_currency_id d) paid (accounts w)
        \<and> total c w' = total c w + (if c = d_currency_id d then paid else 0)
        \<and> audited w w' \<and> books_ok w'"
proof (cases "get_currency (d_currency_id d) w")
  case None
  with assms(3-6) show ?thesis by (simp add: complete_deal_topup_payment_def deal_currency_def)
next
  case (Some cur)
  have p: "topup_pair dep d cur w" using assms(1-5) Some by (simp add: topup_pair_def)
  note P = topup_pairD [OF p]
  let ?paid = "topup_paid dep reported cur"
  have x: "0 \<le> ?paid" "storable ?paid"
    using assms(7) P(5,7,13) get_deposit_ok [OF P(5,7)]
    by (auto simp: topup_paid_def intro: storable_quantize split: option.splits)
  obtain r w' where run: "topup_late_credit now dep d cur ?paid w = (r, w')" by fastforce
  have "complete_deal_topup_payment now cfg api dep reported w = (r, w')"
    using assms(3-6) Some run
    by (simp add: complete_deal_topup_payment_def deal_currency_def Let_def topup_paid_def)
  with topup_late_credit_effect [OF run p x, of c] Some show ?thesis by auto
qed

definition late_deposit :: wallet_deposit where
  "late_deposit = sample_deposit 11 DS_pending P_deal_topup (Some 12) 51"

definition late_world :: world where
  "late_world = save_deposit late_deposit sample_world"

lemma late_world_facts:
  "books_ok late_world" "get_deposit 11 late_world = Some late_deposit"
  "get_deal 12 late_world = Some (sample_deal 12 completed 30)"
  "get_currency 7 late_world = Some usdt" "accounts late_world = accounts sample_world"
proof -
  have row: "get_deposit (dep_id (deposit_row late_deposit)) sample_world
      = Some (sample_deposit 11 DS_pending P_deal_topup (Some 8) 51)" by (simp add: late_deposit_def)
  have same: "deposit_row late_deposit = late_deposit"
    by (simp add: deposit_row_def late_deposit_def sample_deposit_def)
  note du = deposits_update [OF sample_deposits_ok row, of late_world]
  have d: "deposits_ok late_world" and "get_deposit 11 late_world = Some late_deposit"
    using du(1,2) same by (simp_all add: late_world_def late_deposit_def)
  then show "get_deposit 11 late_world = Some late_deposit" by simp
  show acc: "accounts late_world = accounts sample_world"
    by (rule accounts_cong) (simp add: late_world_def)
  have "balances_ok late_world" using sample_balances_ok balances_ok_cong [of late_world sample_world]
    by (simp add: late_world_def)
  then show "books_ok late_world"
    by (rule books_quiet [OF sample_books_ok _ d]) (simp_all only: acc, simp_all add: late_world_def)
  show "get_deal 12 late_world = Some (sample_deal 12 completed 30)"
    "get_currency 7 late_world = Some usdt"
    using sample_get by (simp_all add: get_deal_def get_currency_def late_world_def)
qed

lemma topup_late_payment_returns_to_buyer_witness:
  "case complete_deal_topup_payment 9 sample_cfg sample_api late_deposit (Some 51) late_world of
      (Inl e, w') \<Rightarrow> False
    | (Inr dep', w') \<Rightarrow> t_deals w' = t_deals late_world \<and> accounts w' 1 7 = (151, 81)"
  using topup_late_payment_returns_to_buyer [OF late_world_facts(1),
      where dep = late_deposit and reported = "Some 51" and c = 7 and now = 9
        and d = "sample_deal 12 completed 30" and cfg = sample_cfg and api = sample_api] late_world_facts
  by (auto simp: topup_paid_def late_deposit_def a_defs split: prod.splits sum.splits)

section \<open>Creation\<close>

lemma topup_balance_effect:
  assumes run: "create_deal_balance_funded now buyer seller cur desc prov t bal w1 = (d, w')"
    and ok: "books_ok w" and code: "get_currency_by_code code w = Inr cur" and ne: "u_id buyer \<noteq> u_id seller"
    and amt: "tt_amt t = quantize_money raw (c_decimals cur)" "0 < tt_amt t"
    and need: "on_grid (c_decimals cur) (tt_needed t)" "tt_needed t \<le> b_amount bal"
    and lock: "lock_user_balance (u_id buyer) (c_id cur) w = Inr (bal, w1)"
  shows "books_ok w' \<and> audited w w' \<and> d_status d = pending_confirmation \<and> d_commission_paid d
    \<and> d_amount d = tt_amt t \<and> d_commission_amount d = Some (tt_commission t)
    \<and> d_id d = seq_deals w \<and> d_buyer_id d = u_id buyer \<and> d_seller_id d = u_id seller
    \<and> t_deals w' = t_deals w @ [deal_row d]
    \<and> accounts w' = a_upd (u_id buyer) (c_id cur)
         (\<lambda>(f, h). (f - tt_needed t, h + tt_amt t)) (accounts w)
    \<and> total c w' = total c w - (if c = c_id cur then tt_needed t - tt_amt t else 0)"
proof -
  let ?b = "bal \<lparr> b_amount := b_amount bal - tt_needed t, b_locked := b_locked bal + tt_amt t \<rparr>"
  let ?nd = "new_deal now (u_id buyer) (u_id seller) (tt_amt t) (tt_commission t) (c_id cur) desc
      pending_confirmation prov True"
  define w3 where "w3 = snd (insert_deal ?nd (save_balance ?b w1))"
  have ins: "insert_deal ?nd (save_balance ?b w1) = (d, w3)"
    and s: "\<exists>ev. same_books w' (ledgered ?b (b_amount bal) (b_locked bal) ev w3)"
    using run by (auto simp: create_deal_balance_funded_def Let_def case_prod_beta w3_def same_books_def)
  from s obtain ev where s: "same_books w' (ledgered ?b (b_amount bal) (b_locked bal) ev w3)" by blast
  note l = lock_user_balance_ok [OF lock] and f = lock_user_balance_frame [OF lock]
    and i = insert_deal_effect [OF ins]
  have oks: "balances_ok w" "currencies_ok w" "deposits_ok w" using ok by (auto simp: books_ok_def)
  note lb = lock_user_balance_balances_ok [OF lock oks(1)] and cc = get_currency_by_code_found [OF code oks(2)]
  have x: "storable (tt_amt t)" "storable (tt_needed t)"
    using amt need cc by (auto intro: storable_quantize on_grid_mono)
  have ok': "balance_ok ?b" using lb(2) x amt need by (auto simp: balance_ok_def grid)
  have key: "b_user_id ?b = u_id buyer" "b_currency_id ?b = c_id cur" using l by simp_all
  have b3: "t_balances w' = t_balances (save_balance ?b w1)" using s i(4) by (simp add: same_books_def)
  note r = written_row [OF lock oks(1) ok' key b3]
  have acc: "accounts w' = a_upd (u_id buyer) (c_id cur) (\<lambda>(f, h). (f - tt_needed t, h + tt_amt t)) (accounts w)"
    using r(1) l(5) by (auto intro!: a_upd_cong)
  have "audited w (ledgered ?b (b_amount bal) (b_locked bal) ev w3)"
    by (rule audited_write) (use lock key oks ok' f i(4,8) in simp_all)
  then have aud: "audited w w'" by (rule audited_trans [OF _ same_booksD(3) [OF s]])
  have frm: "t_deals w' = t_deals w @ [deal_row d]"
    "seq_deals w' = seq_deals w + 1" "t_currencies w' = t_currencies w"
    "t_withdrawals w' = t_withdrawals w" "seq_withdrawals w' = seq_withdrawals w"
    "t_deposits w' = t_deposits w" "seq_deposits w' = seq_deposits w"
    using s i f by (simp_all add: same_books_def)
  have id: "d_id d = seq_deals w" using i(1) f by simp
  have dok: "deal_ok w d"
    using new_deal_ok [OF code oks(2) ne, where raw = raw and now = now and com = "tt_commission t" and desc = desc
        and st = pending_confirmation and prov = prov and paid = True and i = "seq_deals (save_balance ?b w1)"]
      amt i(1) by simp
  have "held w' u c = held w u c + deal_hold d u c" for u c
    by (auto simp: acc a_upd_def i(1) deal_hold_new split: prod.splits)
  moreover have "deposits_ok w'" using deposits_same [OF oks(3) frm(6,7)] .
  ultimately have "books_ok w'" by (intro books_new_deal [OF ok r(2) dok id frm(1-5)])
  then show ?thesis using aud acc r(3) [of c] frm id i(1) by (simp add: new_deal_def)
qed

lemma topup_invoice_effect:
  assumes run: "create_deal_invoice_funded now cfg api buyer seller cur desc prov t w1 = Inr ((d, dep), w')"
    and ok: "books_ok w1" and code: "get_currency_by_code code w1 = Inr cur" and ne: "u_id buyer \<noteq> u_id seller"
    and amt: "tt_amt t = quantize_money raw (c_decimals cur)" "0 < tt_amt t"
    and inv_grid: "on_grid (c_decimals cur) (tt_invoice_total t)"
  shows "books_ok w' \<and> t_balances w' = t_balances w1 \<and> t_ledger w' = t_ledger w1
    \<and> d_status d = pending_topup \<and> \<not> d_commission_paid d
    \<and> d_amount d = tt_amt t \<and> d_commission_amount d = Some (tt_commission t)
    \<and> d_id d = seq_deals w1 \<and> d_buyer_id d = u_id buyer \<and> d_seller_id d = u_id seller
    \<and> get_deal (d_id d) w' = Some (deal_row d) \<and> d_topup_deposit_id d = Some (dep_id dep)
    \<and> get_deposit (dep_id dep) w' = Some (deposit_row dep) \<and> dep_linked_deal_id dep = Some (d_id d)
    \<and> dep_status dep = DS_pending \<and> dep_amount dep = tt_invoice_total t \<and> 0 < dep_amount dep"
proof -
  let ?nd = "new_deal now (u_id buyer) (u_id seller) (tt_amt t) (tt_commission t) (c_id cur) desc
      pending_topup prov False"
  obtain d0 w2 where ins: "insert_deal ?nd w1 = (d0, w2)" by fastforce
  obtain dep0 w3 check where pos: "0 < tt_invoice_total t" and
    inv: "create_deposit_invoice now cfg api buyer (c_code cur) (tt_invoice_total t) ''deal_topup'' prov
             check w2 = Inr (dep0, w3)"
    and dep: "dep = dep0 \<lparr> dep_linked_deal_id := Some (d_id d0) \<rparr>"
    and d: "d = d0 \<lparr> d_topup_deposit_id := Some (dep_id dep0) \<rparr>"
    and w': "same_books w' (save_deal d (save_deposit dep w3))"
    using run ins
    by (auto simp: create_deal_invoice_funded_def Let_def case_prod_beta same_books_def
        split: if_splits sum.splits)
  note i = insert_deal_effect [OF ins]
  have oks: "balances_ok w1" "currencies_ok w1" "deposits_ok w1" "deals_ok w1"
    using ok by (auto simp: books_ok_def)
  note cc = get_currency_by_code_found [OF code oks(2)]
  have dok: "deal_ok w1 d0"
    using new_deal_ok [OF code oks(2) ne, where raw = raw and now = now and com = "tt_commission t" and desc = desc
        and st = pending_topup and prov = prov and paid = False and i = "seq_deals w1"]
      amt i(1) by simp
  have b2: "books_ok w2"
  proof (rule books_new_deal [OF ok _ dok _ i(2,3,6,5,7)])
    show "balances_ok w2" using oks(1) balances_ok_cong [OF i(4)] by simp
    show "deposits_ok w2" by (rule deposits_same [OF oks(3) i(10,11)])
    show "held w2 u c = held w1 u c + deal_hold d0 u c" for u c
      using accounts_cong [OF i(4)] by (simp add: i(1) deal_hold_new)
  qed (simp add: i(1))
  have nd: "d_id d0 = seq_deals w1" "d_status d0 = pending_topup" by (simp_all add: i(1) new_deal_def)
  have new: "tget d_id (seq_deals w1) (t_deals w1) = None"
    using oks(4) by (auto simp: tget_None_iff deals_ok_def list_all_iff)
  have g: "get_deal (d_id d0) w2 = Some (deal_row d0)"
    using new nd by (simp add: get_deal_def i(2) tget_append)
  have dok2: "deal_ok w2 d0" using dok deal_ok_cong [OF i(6)] by simp
  have "\<not> holds_escrow (d_status (deal_row d0))" "\<not> holds_escrow (d_status d0)" using nd by simp_all
  note a = attach_invoice [OF inv b2 pos g dok2 this dep d refl]
  have "get_currency_by_code (c_code cur) w2 = Inr cur"
    using get_currency_by_code_again [OF code, of w2] i(6) by simp
  with a(7) inv_grid have amount: "dep_amount dep = tt_invoice_total t" by (simp add: dep)
  have fields: "d_id d = seq_deals w1" "d_id d = d_id d0" "d_status d = pending_topup" "\<not> d_commission_paid d"
    "d_amount d = tt_amt t" "d_commission_amount d = Some (tt_commission t)" "d_buyer_id d = u_id buyer"
    "d_seller_id d = u_id seller" "d_topup_deposit_id d = Some (dep_id dep)"
    "dep_linked_deal_id dep = Some (d_id d)" "dep_id dep = dep_id dep0" "dep_status dep = DS_pending"
    using a(8) by (simp_all add: d dep i(1) new_deal_def)
  have rows: "get_deal (d_id d) w' = Some (deal_row d)" "get_deposit (dep_id dep) w' = Some (deposit_row dep)"
    "t_balances w' = t_balances w1" "t_ledger w' = t_ledger w1"
    using a(2-5) w' i(4,8) fields(2,11) by (simp_all add: same_books_def get_deal_def get_deposit_def)
  show ?thesis
    using a(1) same_booksD(4) [OF w'] fields rows amount pos by simp
qed


lemma create_deal_with_topup_effect:
  assumes "books_ok w"
  shows "case create_deal_with_topup now cfg api b s code amount desc prov w of
      (Inl e, w') \<Rightarrow> w' = w \<or> w' = snd (settings_row w)
    | (Inr (d, invoice), w') \<Rightarrow> \<exists>cur raw commission. get_currency_by_code code w = Inr cur \<and> amount = Finite raw
        \<and> d_amount d = quantize_money raw (c_decimals cur) \<and> 0 < d_amount d
        \<and> commission = commission_of (d_amount d) (resolve_commission_rate (fst (settings_row w)) b s)
                           (c_decimals cur)
        \<and> d_commission_amount d = Some commission
        \<and> get_deal (d_id d) w' = Some (deal_row d) \<and> d_buyer_id d = u_id b \<and> d_seller_id d = u_id s
        \<and> audited w w' \<and> books_ok w'
        \<and> (case invoice of
             None \<Rightarrow> d_status d = pending_confirmation \<and> d_commission_paid d
               \<and> d_amount d + commission \<le> free w (u_id b) (c_id cur)
               \<and> accounts w' = a_upd (u_id b) (c_id cur)
                    (\<lambda>(f, h). (f - (d_amount d + commission), h + d_amount d)) (accounts w)
           | Some dep \<Rightarrow> d_status d = pending_topup \<and> \<not> d_commission_paid d
               \<and> free w (u_id b) (c_id cur) < d_amount d + commission \<and> accounts w' = accounts w
               \<and> get_deposit (dep_id dep) w' = Some (deposit_row dep) \<and> dep_status dep = DS_pending
               \<and> dep_linked_deal_id dep = Some (d_id d) \<and> d_topup_deposit_id d = Some (dep_id dep)
               \<and> dep_amount dep = quantize_money (quantize_money
                    (max 0 (d_amount d - free w (u_id b) (c_id cur))) (c_decimals cur) + commission)
                    (c_decimals cur)
               \<and> 0 < dep_amount dep)"
proof (cases rule: outcome_cases [of "create_deal_with_topup now cfg api b s code amount desc prov w"])
  case (fails e w')
  then show ?thesis
    by (auto simp: create_deal_with_topup_def Let_def case_prod_beta split: if_splits sum.splits pydecimal.splits)
next
  case (returns x w')
  obtain d invoice where x: "x = (d, invoice)" by fastforce
  let ?w0 = "snd (settings_row w)" and ?st = "fst (settings_row w)"
  obtain cur raw amt t bal w1 where
    cur: "get_currency_by_code code w = Inr cur" and raw: "amount = Finite raw" and ne: "u_id b \<noteq> u_id s"
    and amt: "amt = quantize_money raw (c_decimals cur)" "0 < amt"
    and lock: "lock_user_balance (u_id b) (c_id cur) ?w0 = Inr (bal, w1)"
    and t: "t = topup_terms_of ?st b s cur amt (b_amount bal)"
    and out: "if tt_needed t \<le> b_amount bal
        then invoice = None \<and> create_deal_balance_funded now b s cur desc prov t bal w1 = (d, w')
        else \<exists>dep. invoice = Some dep \<and> create_deal_invoice_funded now cfg api b s cur desc prov t w1 = Inr ((d, dep), w')"
    using returns x by (auto simp: create_deal_with_topup_def Let_def case_prod_beta prod_eq_iff
        split: if_splits sum.splits pydecimal.splits prod.splits)
  have s0: "same_books ?w0 w" by (rule settings_same_books)
  note B0 = same_booksD [OF s0]
  have ok0: "books_ok ?w0" using B0(4) assms by simp
  have cur0: "get_currency_by_code code ?w0 = Inr cur" using cur by (simp add: get_currency_by_code_def)
  have bal: "b_amount bal = free w (u_id b) (c_id cur)"
    using lock_user_balance_ok(5) [OF lock] B0(1) by simp
  let ?com = "commission_of amt (resolve_commission_rate ?st b s) (c_decimals cur)"
  have ga: "on_grid (c_decimals cur) amt" by (simp add: amt)
  have gc: "on_grid (c_decimals cur) ?com" by (simp add: commission_of_def)
  have T: "tt_amt t = amt" "tt_commission t = ?com" "tt_needed t = amt + ?com"
    "tt_invoice_total t = quantize_money (quantize_money (max 0 (amt - b_amount bal)) (c_decimals cur) + ?com) (c_decimals cur)"
    using ga gc by (simp_all add: t topup_terms_of_def Let_def grid)
  show ?thesis
  proof (cases "tt_needed t \<le> b_amount bal")
    case True
    with out have run: "create_deal_balance_funded now b s cur desc prov t bal w1 = (d, w')"
      and none: "invoice = None" by simp_all
    have "tt_amt t = quantize_money raw (c_decimals cur)" "0 < tt_amt t" "on_grid (c_decimals cur) (tt_needed t)"
      using T amt ga gc by (simp_all add: grid)
    note e = topup_balance_effect [OF run ok0 cur0 ne this True lock]
    have "get_deal (d_id d) w' = Some (deal_row d)"
      using e ok0 by (intro get_deal_new [of ?w0]) (auto simp: books_ok_def)
    moreover have "audited w w'" using audited_trans [OF same_booksD(3) [OF s0]] e by blast
    ultimately show ?thesis
      using e returns x none cur raw amt T True bal B0(1) by (auto simp: a_upd_def)
  next
    case False
    with out obtain dep where none: "invoice = Some dep"
      and run: "create_deal_invoice_funded now cfg api b s cur desc prov t w1 = Inr ((d, dep), w')" by auto
    note lb = lock_books [OF lock ok0] and f = lock_user_balance_frame [OF lock]
    have cur1: "get_currency_by_code code w1 = Inr cur" using cur0 f by (simp add: get_currency_by_code_def)
    have "tt_amt t = quantize_money raw (c_decimals cur)" "0 < tt_amt t"
      "on_grid (c_decimals cur) (tt_invoice_total t)"
      using T amt by simp_all
    note e = topup_invoice_effect [OF run lb(1) cur1 ne this]
    have acc: "accounts w' = accounts w" using e accounts_cong [of w' w1] lb(2) B0(1) by simp
    have "audited w w'"
      using audited_trans [OF same_booksD(3) [OF s0] audited_same [OF _ _ lb(3)]] e by blast
    then show ?thesis
      using e returns x none cur raw amt T False bal acc by auto
  qed
qed

text \<open>
  C17. Creating a deal with a top-up has two outcomes. When the free money covers the amount and
  the commission, both leave it: the amount is locked, the commission is the platform's, and
  the seller is asked. Otherwise no account changes, and the deal waits for one pending
  invoice over what is missing; deal and invoice name each other. The books balance either
  way, and a refusal leaves at most the default settings row behind.
\<close>

theorem create_deal_with_topup_funds:
  assumes "books_ok w"
  shows "case create_deal_with_topup now cfg api b s code amount desc prov w of
      (Inl e, w') \<Rightarrow> w' = w \<or> w' = snd (settings_row w)
    | (Inr (d, invoice), w') \<Rightarrow> \<exists>cur raw commission. get_currency_by_code code w = Inr cur \<and> amount = Finite raw
        \<and> d_amount d = quantize_money raw (c_decimals cur) \<and> 0 < d_amount d
        \<and> commission = commission_of (d_amount d) (resolve_commission_rate (fst (settings_row w)) b s)
                           (c_decimals cur)
        \<and> d_commission_amount d = Some commission
        \<and> get_deal (d_id d) w' = Some (deal_row d) \<and> d_buyer_id d = u_id b \<and> d_seller_id d = u_id s
        \<and> audited w w' \<and> books_ok w'
        \<and> (case invoice of
             None \<Rightarrow> d_status d = pending_confirmation \<and> d_commission_paid d
               \<and> d_amount d + commission \<le> free w (u_id b) (c_id cur)
               \<and> accounts w' = a_upd (u_id b) (c_id cur)
                    (\<lambda>(f, h). (f - (d_amount d + commission), h + d_amount d)) (accounts w)
           | Some dep \<Rightarrow> d_status d = pending_topup \<and> \<not> d_commission_paid d
               \<and> free w (u_id b) (c_id cur) < d_amount d + commission \<and> accounts w' = accounts w
               \<and> get_deposit (dep_id dep) w' = Some (deposit_row dep) \<and> dep_status dep = DS_pending
               \<and> dep_linked_deal_id dep = Some (d_id d) \<and> d_topup_deposit_id d = Some (dep_id dep)
               \<and> dep_amount dep = quantize_money (quantize_money
                    (max 0 (d_amount d - free w (u_id b) (c_id cur))) (c_decimals cur) + commission)
                    (c_decimals cur)
               \<and> 0 < dep_amount dep)"
  by (rule create_deal_with_topup_effect [OF assms])


lemma sample_commission:
  "resolve_commission_rate default_app_settings sample_buyer sample_seller = 5"
  "commission_of 250 5 2 = 25 / 2" "quantize_money (525 / 2) 2 = 525 / 2"
  "quantize_money (325 / 2) 2 = 325 / 2"
  by (simp_all add: resolve_commission_rate_def default_app_settings_def commission_of_def
      quantize_money_def round_half_even_def)

lemma sample_terms: "topup_terms_of default_app_settings sample_buyer sample_seller usdt 250 100 =
   \<lparr> tt_amt = 250, tt_commission = 25 / 2, tt_needed = 525 / 2, tt_topup_principal = 150,
     tt_invoice_total = 325 / 2 \<rparr>"
  using sample_commission by (simp only: topup_terms_of_def Let_def sample_ids) simp

lemma sample_invoice_issued:
  "t_currencies w = [usdt] \<Longrightarrow> \<forall>d \<in> set (t_deposits w). dep_provider_invoice_id d \<noteq> show_int 77 \<Longrightarrow>
   \<exists>r. create_deposit_invoice 9 sample_cfg sample_api sample_buyer ''USDT'' (325 / 2) ''deal_topup''
     ''cryptobot'' True w = Inr r"
  by (simp add: create_deposit_invoice_def create_cryptobot_deposit_def get_currency_by_code_def usdt_def
      to_upper_def purpose_of_string_def provider_of_string_def is_cryptopay_configured_def sample_cfg_def
      sample_api_def sample_invoice_def cryptobot_pay_url_def insert_deposit_def new_deposit_def sample_strings Let_def quantize_money_def
      round_half_even_def)

lemma create_deal_with_topup_funds_witness:
  "case create_deal_with_topup 9 sample_cfg sample_api sample_buyer sample_seller ''USDT'' (Finite 250) []
        ''cryptobot'' sample_world of
      (Inl e, w') \<Rightarrow> False
    | (Inr (d, None), w') \<Rightarrow> False
    | (Inr (d, Some dep), w') \<Rightarrow> d_status d = pending_topup \<and> accounts w' 1 7 = (100, 81)"
proof -
  let ?w = "snd (insert_deal (new_deal 9 1 2 250 (25 / 2) 7 [] pending_topup ''cryptobot'' False) sample_world)"
  have "\<exists>r. create_deposit_invoice 9 sample_cfg sample_api sample_buyer ''USDT'' (325 / 2) ''deal_topup''
     ''cryptobot'' True ?w = Inr r"
    by (rule sample_invoice_issued) (simp_all add: insert_deal_def Let_def sample_rows sample_strings)
  then obtain r where r: "create_deposit_invoice 9 sample_cfg sample_api sample_buyer ''USDT'' (325 / 2)
     ''deal_topup'' ''cryptobot'' True ?w = Inr r" by blast
  have "succeeds (create_deal_with_topup 9 sample_cfg sample_api sample_buyer sample_seller ''USDT''
      (Finite 250) [] ''cryptobot'' sample_world)"
    by (simp add: create_deal_with_topup_def Let_def case_prod_beta sample_usdt sample_settings_row sample_lock
        sample_terms create_deal_invoice_funded_def r succeeds_def) 
  then obtain d inv w' where run: "create_deal_with_topup 9 sample_cfg sample_api sample_buyer sample_seller ''USDT''
      (Finite 250) [] ''cryptobot'' sample_world = (Inr (d, inv), w')"
    by (cases "create_deal_with_topup 9 sample_cfg sample_api sample_buyer sample_seller ''USDT''
      (Finite 250) [] ''cryptobot'' sample_world") (force simp: succeeds_def split: sum.splits)
  note p = create_deal_with_topup_funds [OF sample_books_ok, where now = 9 and cfg = sample_cfg and api = sample_api
      and b = sample_buyer and s = sample_seller and code = "''USDT''" and amount = "Finite 250" and desc = "[]"
      and prov = "''cryptobot''", unfolded run, simplified]
  show ?thesis
    using p by (cases inv) (auto simp: run sample_usdt sample_settings_row sample_commission)
qed

end
