(* ===== verification/Unfunded.thy ===== *)
theory Unfunded
  imports Funding
begin

text \<open>
  The end of a deal that is never funded: its buyer cancels it or the sweep closes it. No
  money moves, and only a pending invoice changes.
\<close>

section \<open>A deal that ends unfunded\<close>

text \<open>Only a pending invoice changes, and it expires.\<close>

definition invoice_after :: "deal \<Rightarrow> int \<Rightarrow> wallet_deposit option \<Rightarrow> wallet_deposit option" where
  "invoice_after d i r =
     map_option (\<lambda>dep. if d_topup_deposit_id d = Some i \<and> dep_status dep = DS_pending
        then deposit_row (dep \<lparr> dep_status := DS_expired \<rparr>) else dep) r"

lemma expire_effect:
  assumes "deposits_ok w"
  shows "deposits_ok (expire_topup_deposit d w)"
    and "get_deposit i (expire_topup_deposit d w) = invoice_after d i (get_deposit i w)"
proof -
  have "deposits_ok (expire_topup_deposit d w) \<and>
    get_deposit i (expire_topup_deposit d w) = invoice_after d i (get_deposit i w)"
  proof (cases "\<exists>j dep. d_topup_deposit_id d = Some j \<and> get_deposit j w = Some dep \<and> dep_status dep = DS_pending")
    case True
    then obtain j dep where j: "d_topup_deposit_id d = Some j" "get_deposit j w = Some dep" "dep_status dep = DS_pending"
      by blast
    let ?r = "dep \<lparr> dep_status := DS_expired \<rparr>"
    have eq: "expire_topup_deposit d w = save_deposit ?r w" using j by (simp add: expire_topup_deposit_def)
    note k = get_deposit_ok [OF assms j(2)]
    then have row: "get_deposit (dep_id (deposit_row ?r)) w = Some dep" using j by simp
    note du = deposits_update [OF assms row, of "save_deposit ?r w"]
    show ?thesis
      unfolding eq using du(1,2) du(3) [of i] k j by (cases "i = j") (simp_all add: invoice_after_def option.map_ident_strong)
  next
    case False
    then have "expire_topup_deposit d w = w"
      by (auto simp: expire_topup_deposit_def split: option.splits)
    moreover have "invoice_after d i (get_deposit i w) = get_deposit i w"
      using False by (cases "get_deposit i w") (auto simp: invoice_after_def)
    ultimately show ?thesis using assms by simp
  qed
  then show "deposits_ok (expire_topup_deposit d w)"
    "get_deposit i (expire_topup_deposit d w) = invoice_after d i (get_deposit i w)" by simp_all
qed

lemma expire_frame [simp, frame]:
  "t_users (expire_topup_deposit d w) = t_users w" "t_currencies (expire_topup_deposit d w) = t_currencies w"
  "t_balances (expire_topup_deposit d w) = t_balances w" "t_deals (expire_topup_deposit d w) = t_deals w"
  "t_withdrawals (expire_topup_deposit d w) = t_withdrawals w" "t_ledger (expire_topup_deposit d w) = t_ledger w"
  "seq_deals (expire_topup_deposit d w) = seq_deals w" "seq_deposits (expire_topup_deposit d w) = seq_deposits w"
  "seq_withdrawals (expire_topup_deposit d w) = seq_withdrawals w"
  by (auto simp: expire_topup_deposit_def split: option.splits)

lemma close_unfunded:
  assumes ok: "books_ok w" and get: "get_deal (d_id d) w = Some d" and st: "d_status d = pending_topup"
    and d': "same_deal d d'" "\<not> holds_escrow (d_status d')"
    and w': "same_books w' (save_deal d' (expire_topup_deposit d w))"
  shows "books_ok w'" and "t_balances w' = t_balances w" and "t_ledger w' = t_ledger w"
    and "t_currencies w' = t_currencies w"
    and "get_deal i w' = (if i = d_id d then Some (deal_row d') else get_deal i w)"
    and "get_deposit i w' = invoice_after d i (get_deposit i w)"
proof -
  let ?w1 = "save_deal d' (expire_topup_deposit d w)"
  have oks: "deposits_ok w" "deals_ok w" "withdrawals_ok w" "balances_ok w" "deal_ok w d"
    using ok get_deal_ok [OF _ get] by (auto simp: books_ok_def)
  note e = expire_effect [OF oks(1)]
  have id: "d_id (deal_row d') = d_id d" using d' by (simp add: same_deal_def)
  have row: "get_deal (d_id (deal_row d')) w = Some d" using get id by simp
  have dr: "deal_ok w (deal_row d')" by (intro deal_ok_row deal_ok_same [OF d'(1) oks(5)])
  note dd = deals_update [OF oks(2) row _ _ _ dr, of ?w1]
  show "t_balances w' = t_balances w" "t_ledger w' = t_ledger w" "t_currencies w' = t_currencies w"
    "get_deposit i w' = invoice_after d i (get_deposit i w)"
    using w' e(2) [where d = d and i = i] by (simp_all add: same_books_def get_deposit_def)
  show "get_deal i w' = (if i = d_id d then Some (deal_row d') else get_deal i w)"
    using w' tget_tput [of d_id i "deal_row d'" "t_deals w"] row id get_deal_in [OF get]
    by (auto simp: same_books_def get_deal_def)
  have "books_ok ?w1"
  proof (rule books_ok_step [OF ok])
    show "balances_ok ?w1" using oks(4) balances_ok_cong [of ?w1 w] by simp
    show "deals_ok ?w1" using dd(1) by simp
    show "withdrawals_ok ?w1" using withdrawals_same [OF oks(3), of ?w1] by simp
    show "deposits_ok ?w1" using e(1) [where d = d] deposits_same [of "expire_topup_deposit d w" ?w1] by simp
    fix u c
    have "held ?w1 u c = held w u c" using accounts_cong [of ?w1 w] by simp
    moreover have "escrow ?w1 u c = escrow w u c" using dd(2) [of u c] st d' by simp
    moreover have "reserved ?w1 u c = reserved w u c" by (simp add: reserved_def)
    ultimately show "held ?w1 u c - held w u c = escrow ?w1 u c - escrow w u c + (reserved ?w1 u c - reserved w u c)"
      by simp
  qed simp
  then show "books_ok w'" using same_booksD(4) [OF w'] by simp
qed

lemma cancel_topup_effect:
  assumes "books_ok w" and "get_deal (d_id d) w = Some d"
  shows "case cancel_pending_topup now d u w of
      (Inl e, w') \<Rightarrow> w' = w \<and> (u_id u \<noteq> d_buyer_id d \<or> d_status d \<noteq> pending_topup)
    | (Inr d', w') \<Rightarrow> u_id u = d_buyer_id d \<and> d_status d = pending_topup
        \<and> d' = d \<lparr> d_status := cancelled, d_completed_at := Some now \<rparr>
        \<and> get_deal (d_id d) w' = Some (deal_row d')
        \<and> t_balances w' = t_balances w \<and> t_ledger w' = t_ledger w \<and> books_ok w'
        \<and> (\<forall>i. get_deposit i w' = invoice_after d i (get_deposit i w))"
proof (cases rule: outcome_cases [of "cancel_pending_topup now d u w"])
  case (fails e w')
  then show ?thesis by (auto simp: cancel_pending_topup_def Let_def case_prod_beta split: if_splits)
next
  case (returns d' w')
  let ?d = "d \<lparr> d_status := cancelled, d_completed_at := Some now \<rparr>"
  have st: "u_id u = d_buyer_id d" "d_status d = pending_topup" "d' = ?d"
    and s: "same_books w' (save_deal ?d (expire_topup_deposit d w))"
    using returns by (auto simp: cancel_pending_topup_def Let_def case_prod_beta same_books_def split: if_splits)
  have "same_deal d ?d" "\<not> holds_escrow (d_status ?d)" by (simp_all add: same_deal_def)
  note c = close_unfunded [OF assms st(2) this s]
  show ?thesis using returns st c(1-3) c(5) [of "d_id d"] c(6) by simp
qed

text \<open>
  Only the buyer cancels a deal that waits for its invoice. No balance and no ledger entry
  changes; the linked invoice expires if it was pending and stays as it is if it was paid.
\<close>

theorem cancel_topup_moves_no_money:
  assumes "books_ok w" and "get_deal (d_id d) w = Some d"
  shows "case cancel_pending_topup now d u w of
      (Inl e, w') \<Rightarrow> w' = w \<and> (u_id u \<noteq> d_buyer_id d \<or> d_status d \<noteq> pending_topup)
    | (Inr d', w') \<Rightarrow> u_id u = d_buyer_id d \<and> d_status d = pending_topup
        \<and> d' = d \<lparr> d_status := cancelled, d_completed_at := Some now \<rparr>
        \<and> get_deal (d_id d) w' = Some (deal_row d')
        \<and> t_balances w' = t_balances w \<and> t_ledger w' = t_ledger w \<and> books_ok w'
        \<and> (\<forall>i. get_deposit i w' = invoice_after d i (get_deposit i w))"
  by (rule cancel_topup_effect [OF assms])

lemma cancel_topup_moves_no_money_witness:
  "case cancel_pending_topup 9 (sample_deal 8 pending_topup 50) sample_buyer sample_world of
      (Inl e, w') \<Rightarrow> False
    | (Inr d', w') \<Rightarrow> d_status d' = cancelled \<and> map_option dep_status (get_deposit 11 w') = Some DS_expired"
  using cancel_topup_moves_no_money [OF sample_books_ok,
      where d = "sample_deal 8 pending_topup 50" and now = 9 and u = sample_buyer]
  by (auto simp: invoice_after_def split: prod.splits sum.splits)

lemma sweep_topup_rows_effect:
  assumes "sweep_topup_rows now ds w = (r, w')" and "books_ok w" and "distinct (map d_id ds)"
    and "\<And>d. d \<in> set ds \<Longrightarrow> get_deal (d_id d) w = Some d \<and> d_status d = pending_topup"
  shows "books_ok w' \<and> t_balances w' = t_balances w \<and> t_ledger w' = t_ledger w
    \<and> (\<forall>i. i \<notin> d_id ` set ds \<longrightarrow> get_deal i w' = get_deal i w)
    \<and> (\<forall>d \<in> set ds. get_deal (d_id d) w' = Some (deal_row
         (d \<lparr> d_status := cancelled_for_inactivity, d_completed_at := Some now \<rparr>)))
    \<and> (\<forall>i. (\<forall>d \<in> set ds. d_topup_deposit_id d \<noteq> Some i) \<longrightarrow> get_deposit i w' = get_deposit i w)
    \<and> (\<forall>i dep. get_deposit i w = Some dep \<longrightarrow> dep_status dep \<noteq> DS_pending \<longrightarrow> get_deposit i w' = Some dep)"
  using assms
proof (induction ds arbitrary: w r)
  case Nil
  then show ?case by simp
next
  case (Cons d ds)
  let ?d = "d \<lparr> d_status := cancelled_for_inactivity, d_completed_at := Some now \<rparr>"
  have get: "get_deal (d_id d) w = Some d" and st: "d_status d = pending_topup" using Cons.prems(4) by auto
  have fresh: "d_id d \<notin> d_id ` set ds" using Cons.prems(3) by auto
  obtain x w1 r2 where row: "sweep_topup_row now d w = (x, w1)" and rest: "sweep_topup_rows now ds w1 = (r2, w')"
    using Cons.prems(1) by (auto simp: case_prod_beta prod_eq_iff)
  have "same_books w1 (save_deal ?d (expire_topup_deposit d w))"
    using row by (auto simp: sweep_topup_row_def Let_def case_prod_beta same_books_def)
  from close_unfunded [OF Cons.prems(2) get st _ _ this]
  have c: "books_ok w1" "t_balances w1 = t_balances w" "t_ledger w1 = t_ledger w"
    "\<And>i. get_deal i w1 = (if i = d_id d then Some (deal_row ?d) else get_deal i w)"
    "\<And>i. get_deposit i w1 = invoice_after d i (get_deposit i w)"
    by (simp_all add: same_deal_def)
  have "get_deal (d_id x) w1 = Some x \<and> d_status x = pending_topup" if "x \<in> set ds" for x
    using c(4) [of "d_id x"] fresh that Cons.prems(4) [of x] by (auto simp: image_iff)
  from Cons.IH [OF rest c(1) _ this] Cons.prems(3) have
    IH: "books_ok w' \<and> t_balances w' = t_balances w1 \<and> t_ledger w' = t_ledger w1
    \<and> (\<forall>i. i \<notin> d_id ` set ds \<longrightarrow> get_deal i w' = get_deal i w1)
    \<and> (\<forall>d \<in> set ds. get_deal (d_id d) w' = Some (deal_row
         (d \<lparr> d_status := cancelled_for_inactivity, d_completed_at := Some now \<rparr>)))
    \<and> (\<forall>i. (\<forall>d \<in> set ds. d_topup_deposit_id d \<noteq> Some i) \<longrightarrow> get_deposit i w' = get_deposit i w1)
    \<and> (\<forall>i dep. get_deposit i w1 = Some dep \<longrightarrow> dep_status dep \<noteq> DS_pending \<longrightarrow> get_deposit i w' = Some dep)"
    by simp
  have keep: "get_deposit i w1 = get_deposit i w" if "d_topup_deposit_id d \<noteq> Some i" for i
    using c(5) [of i] that by (cases "get_deposit i w") (simp_all add: invoice_after_def)
  show ?case
  proof (intro conjI allI impI ballI)
    fix x assume "x \<in> set (d # ds)"
    then show "get_deal (d_id x) w' = Some (deal_row
         (x \<lparr> d_status := cancelled_for_inactivity, d_completed_at := Some now \<rparr>))"
      using IH fresh c(4) [of "d_id d"] by auto
  next
    fix i assume "\<forall>x \<in> set (d # ds). d_topup_deposit_id x \<noteq> Some i"
    then show "get_deposit i w' = get_deposit i w" using IH keep by simp
  next
    fix i dep assume "get_deposit i w = Some dep" "dep_status dep \<noteq> DS_pending"
    then show "get_deposit i w' = Some dep" using IH c(5) [of i] by (simp add: invoice_after_def)
  qed (use IH c in auto)
qed

text \<open>The configured age is over; nought means a day, a negative age switches the sweep off.\<close>

definition topup_expired :: "int \<Rightarrow> world \<Rightarrow> deal \<Rightarrow> bool" where
  "topup_expired now w d =
     (let h = s_pending_topup_expiry_hours (fst (settings_row w))
      in 0 \<le> h \<and> topup_stale now (if h = 0 then 24 else h) d)"

lemma sweep_topup_effect:
  assumes "books_ok w"
  shows "\<exists>n w'. sweep_pending_topup now skip w = (Inr n, w') \<and> books_ok w'
    \<and> t_balances w' = t_balances w \<and> t_ledger w' = t_ledger w
    \<and> (\<forall>d. get_deal (d_id d) w = Some d \<longrightarrow> get_deal (d_id d) w' =
           (if topup_expired now w d \<and> \<not> skip (d_id d)
            then Some (deal_row (d \<lparr> d_status := cancelled_for_inactivity, d_completed_at := Some now \<rparr>))
            else Some d))
    \<and> (\<forall>i dep. get_deposit i w = Some dep \<and> dep_status dep \<noteq> DS_pending \<longrightarrow> get_deposit i w' = Some dep)"
proof -
  let ?w0 = "snd (settings_row w)" and ?h = "s_pending_topup_expiry_hours (fst (settings_row w))"
  let ?e = "if ?h = 0 then 24 else ?h"
  let ?rows = "filter (\<lambda>d. topup_stale now ?e d \<and> \<not> skip (d_id d)) (t_deals w)"
  have s0: "same_books ?w0 w" by (rule settings_same_books)
  have ok0: "books_ok ?w0" using same_booksD(4) [OF s0] assms by simp
  have rows0: "get_deal i ?w0 = get_deal i w" "get_deposit i ?w0 = get_deposit i w" for i
    by (simp_all add: get_deal_def get_deposit_def)
  show ?thesis
  proof (cases "?h < 0")
    case True
    then have "sweep_pending_topup now skip w = (Inr 0, ?w0)"
      by (simp add: sweep_pending_topup_def case_prod_beta Let_def)
    then show ?thesis using ok0 rows0 True by (auto simp: topup_expired_def Let_def)
  next
    case False
    obtain r w1 where run: "sweep_topup_rows now ?rows ?w0 = (r, w1)" by fastforce
    obtain ns ds where r: "r = (ns, ds)" by fastforce
    let ?w2 = "fold (\<lambda>d. publish_deal_update (d_id d) (parties d) (Some (d_status d))) ds (safe_dispatch ns w1)"
    have keys: "tkeys d_id (t_deals w)" using assms by (simp add: books_ok_def deals_ok_def)
    have dist: "distinct (map d_id ?rows)" using keys by (simp add: tkeys_def distinct_map_filter)
    have in_t: "get_deal (d_id d) ?w0 = Some d \<and> d_status d = pending_topup" if "d \<in> set ?rows" for d
      using that tget_in_set [OF keys] by (auto simp: get_deal_def topup_stale_def)
    have e: "books_ok w1" "t_balances w1 = t_balances ?w0" "t_ledger w1 = t_ledger ?w0"
      "\<And>i. i \<notin> d_id ` set ?rows \<Longrightarrow> get_deal i w1 = get_deal i w"
      "\<And>d. d \<in> set ?rows \<Longrightarrow> get_deal (d_id d) w1 = Some (deal_row
         (d \<lparr> d_status := cancelled_for_inactivity, d_completed_at := Some now \<rparr>))"
      "\<And>i dep. get_deposit i w = Some dep \<Longrightarrow> dep_status dep \<noteq> DS_pending \<Longrightarrow> get_deposit i w1 = Some dep"
      using sweep_topup_rows_effect [OF run ok0 dist] in_t rows0 by simp_all
    have run': "sweep_pending_topup now skip w = (Inr (length ?rows), ?w2)"
      using run r False by (simp add: sweep_pending_topup_def case_prod_beta Let_def)
    have s: "same_books ?w2 w1" 
      by (rule same_books_trans [OF conjunct1 [OF publish_fold_frame]]) (simp add: same_books_def)
    have g: "get_deal i ?w2 = get_deal i w1" "get_deposit i ?w2 = get_deposit i w1" for i
      using s by (simp_all add: same_books_def get_deal_def get_deposit_def)
    show ?thesis
    proof (intro exI conjI)
      show "sweep_pending_topup now skip w = (Inr (length ?rows), ?w2)" by (rule run')
      show "books_ok ?w2" using e(1) same_booksD(4) [OF s] by simp
      show "t_balances ?w2 = t_balances w" "t_ledger ?w2 = t_ledger w"
        using e(2,3) s by (simp_all add: same_books_def)
      show "\<forall>i dep. get_deposit i w = Some dep \<and> dep_status dep \<noteq> DS_pending \<longrightarrow> get_deposit i ?w2 = Some dep"
        using e(6) g by simp
      show "\<forall>d. get_deal (d_id d) w = Some d \<longrightarrow> get_deal (d_id d) ?w2 =
           (if topup_expired now w d \<and> \<not> skip (d_id d)
            then Some (deal_row (d \<lparr> d_status := cancelled_for_inactivity, d_completed_at := Some now \<rparr>))
            else Some d)"
      proof (intro allI impI)
        fix d assume d: "get_deal (d_id d) w = Some d"
        have "d \<in> set (t_deals w)" using d get_deal_in by blast
        then have mem: "d \<in> set ?rows \<longleftrightarrow> topup_expired now w d \<and> \<not> skip (d_id d)"
          using False by (simp add: topup_expired_def Let_def)
        have fresh: "d_id d \<notin> d_id ` set ?rows" if "d \<notin> set ?rows"
        proof
          assume "d_id d \<in> d_id ` set ?rows"
          then obtain x where x: "x \<in> set ?rows" "d_id x = d_id d" unfolding image_iff by metis
          then have "get_deal (d_id x) w = Some x" using in_t [OF x(1)] by (simp only: rows0)
          with d x that show False by (metis option.inject)
        qed
        show "get_deal (d_id d) ?w2 =
           (if topup_expired now w d \<and> \<not> skip (d_id d)
            then Some (deal_row (d \<lparr> d_status := cancelled_for_inactivity, d_completed_at := Some now \<rparr>))
            else Some d)"
        proof (cases "d \<in> set ?rows")
          case True
          show ?thesis unfolding g e(5) [OF True] by (rule if_P [OF iffD1 [OF mem True], symmetric])
        next
          case False
          have "\<not> (topup_expired now w d \<and> \<not> skip (d_id d))" using False by (simp only: mem not_False_eq_True)
          from if_not_P [OF this] show ?thesis unfolding g e(4) [OF fresh [OF False]] d by (rule sym)
        qed
      qed
    qed
  qed
qed

text \<open>
  The sweep of waiting deals never fails and moves no money: every deal past the configured
  age that it can lock is closed, every other deal keeps its row, and a deposit that is paid,
  refunded or expired already keeps its own.
\<close>

theorem sweep_topup_closes_unfunded:
  assumes "books_ok w"
  shows "\<exists>n w'. sweep_pending_topup now skip w = (Inr n, w') \<and> books_ok w'
    \<and> t_balances w' = t_balances w \<and> t_ledger w' = t_ledger w
    \<and> (\<forall>d. get_deal (d_id d) w = Some d \<longrightarrow> get_deal (d_id d) w' =
           (if topup_expired now w d \<and> \<not> skip (d_id d)
            then Some (deal_row (d \<lparr> d_status := cancelled_for_inactivity, d_completed_at := Some now \<rparr>))
            else Some d))
    \<and> (\<forall>i dep. get_deposit i w = Some dep \<and> dep_status dep \<noteq> DS_pending \<longrightarrow> get_deposit i w' = Some dep)"
  by (rule sweep_topup_effect [OF assms])

lemma sweep_topup_closes_unfunded_witness:
  "\<exists>n w'. sweep_pending_topup 100000 (\<lambda>_. False) sample_world = (Inr n, w')
     \<and> map_option d_status (get_deal 8 w') = Some cancelled_for_inactivity
     \<and> get_deal 5 w' = Some (sample_deal 5 in_progress 25)"
proof -
  have st: "topup_expired 100000 sample_world (sample_deal 8 pending_topup 50)"
    "\<not> topup_expired 100000 sample_world (sample_deal 5 in_progress 25)"
    by (simp_all add: topup_expired_def topup_stale_def sample_deal_def sample_settings_row default_app_settings_def)
  obtain n w' where w: "sweep_pending_topup 100000 (\<lambda>_. False) sample_world = (Inr n, w')"
    "\<forall>d. get_deal (d_id d) sample_world = Some d \<longrightarrow> get_deal (d_id d) w' =
           (if topup_expired 100000 sample_world d \<and> \<not> False
            then Some (deal_row (d \<lparr> d_status := cancelled_for_inactivity, d_completed_at := Some 100000 \<rparr>))
            else Some d)"
    using sweep_topup_closes_unfunded [OF sample_books_ok, where now = 100000 and skip = "\<lambda>_. False"] by blast
  show ?thesis
    using w(1) spec [OF w(2), of "sample_deal 8 pending_topup 50"]
      spec [OF w(2), of "sample_deal 5 in_progress 25"] st by simp
qed

end
