(* ===== verification/Payouts.thy ===== *)
theory Payouts
  imports AdminMoney
begin

text \<open>
  What the withdrawal code promises: a request holds its amount until the row says how it
  ended, and every way it ends moves that amount once. The exceptions are stated too.
\<close>

section \<open>The end of a withdrawal\<close>

lemma withdrawal_row_simps [simp]:
  "wd_id (withdrawal_row x) = wd_id x" "wd_user_id (withdrawal_row x) = wd_user_id x"
  "wd_currency_id (withdrawal_row x) = wd_currency_id x" "wd_status (withdrawal_row x) = wd_status x"
  "wd_amount (withdrawal_row x) = column (wd_amount x)"
  by (simp_all add: withdrawal_row_def)

lemma save_withdrawal_frame [simp, frame]:
  "t_users (save_withdrawal x w) = t_users w" "t_currencies (save_withdrawal x w) = t_currencies w"
  "t_balances (save_withdrawal x w) = t_balances w" "t_deals (save_withdrawal x w) = t_deals w"
  "t_deposits (save_withdrawal x w) = t_deposits w" "t_ledger (save_withdrawal x w) = t_ledger w"
  "t_app_settings (save_withdrawal x w) = t_app_settings w"
  "seq_deals (save_withdrawal x w) = seq_deals w" "seq_deposits (save_withdrawal x w) = seq_deposits w"
  "seq_withdrawals (save_withdrawal x w) = seq_withdrawals w"
  "t_withdrawals (save_withdrawal x w) = tput wd_id (withdrawal_row x) (t_withdrawals w)"
  by (simp_all add: save_withdrawal_def)

lemma log_same_books [simp]: "same_books (log_admin_action a s t i r p w) w"
  by (simp add: same_books_def log_admin_action_def)

text \<open>What an open withdrawal needs from its account.\<close>

lemma open_withdrawal_funds:
  assumes "books_ok w" and "get_withdrawal (wd_id x) w = Some x" and "withdrawal_open (wd_status x)"
  shows "0 < wd_amount x" "storable (wd_amount x)"
    and "wd_amount x \<le> held w (wd_user_id x) (wd_currency_id x)"
    and "\<exists>b. get_balance (wd_user_id x) (wd_currency_id x) w = Some b"
proof -
  have ok: "withdrawals_ok w" "deals_ok w" "books_balance w" using assms(1) by (auto simp: books_ok_def)
  show x: "0 < wd_amount x" "storable (wd_amount x)"
    using ok(1) assms(2) by (auto simp: withdrawals_ok_def list_all_iff get_withdrawal_def dest!: tget_Some)
  have "withdrawal_hold x (wd_user_id x) (wd_currency_id x) = wd_amount x"
    using assms(3) by (simp add: withdrawal_hold_def)
  then show le: "wd_amount x \<le> held w (wd_user_id x) (wd_currency_id x)"
    using withdrawal_hold_le_reserved [OF ok(1) assms(2), of "wd_user_id x" "wd_currency_id x"]
      escrow_nonneg [OF ok(2), of "wd_user_id x" "wd_currency_id x"] ok(3) by (auto simp: books_balance_def)
  show "\<exists>b. get_balance (wd_user_id x) (wd_currency_id x) w = Some b"
    using le x(1) by (cases "get_balance (wd_user_id x) (wd_currency_id x) w") (auto simp: accounts_def)
qed

text \<open>How an open withdrawal ends: paid out, or given back.\<close>

definition payout_accounts :: "wallet_withdrawal \<Rightarrow> WalletWithdrawStatus \<Rightarrow> accounts \<Rightarrow> accounts" where
  "payout_accounts x st A =
     (if st = WS_sent then a_burn (wd_user_id x) (wd_currency_id x) (wd_amount x) A
      else if st = WS_rejected then a_unlock (wd_user_id x) (wd_currency_id x) (wd_amount x) A
      else A)"

definition same_withdrawal :: "wallet_withdrawal \<Rightarrow> wallet_withdrawal \<Rightarrow> bool" where
  "same_withdrawal x x' \<longleftrightarrow> wd_id x' = wd_id x \<and> wd_user_id x' = wd_user_id x
     \<and> wd_currency_id x' = wd_currency_id x \<and> wd_amount x' = wd_amount x \<and> wd_address x' = wd_address x"

definition settled :: "wallet_withdrawal \<Rightarrow> wallet_withdrawal \<Rightarrow> world \<Rightarrow> world \<Rightarrow> bool" where
  "settled x x' w w' \<longleftrightarrow> same_withdrawal x x' \<and> get_withdrawal (wd_id x) w' = Some (withdrawal_row x')
     \<and> accounts w' = payout_accounts x (wd_status x') (accounts w) \<and> audited w w' \<and> books_ok w'
     \<and> (\<forall>c. total c w' = total c w
          - (if wd_status x' = WS_sent \<and> c = wd_currency_id x then wd_amount x else 0))"

lemma settle_withdrawal:
  assumes ok: "books_ok w" and get: "get_withdrawal (wd_id x) w = Some x" and op: "withdrawal_open (wd_status x)"
    and bal: "get_balance (wd_user_id x) (wd_currency_id x) w = Some b"
    and b': "b' = b \<lparr> b_amount := (if wd_status x' = WS_sent then b_amount b else b_amount b + wd_amount x),
                     b_locked := max 0 (b_locked b - wd_amount x) \<rparr>"
    and x': "same_withdrawal x x'" "wd_status x' = WS_sent \<or> wd_status x' = WS_rejected"
    and led: "w1 = ledgered b' (b_amount b) (b_locked b) ev (save_balance b' w)"
    and w': "same_books w' (save_withdrawal x' w1)"
  shows "settled x x' w w'"
proof -
  note o = open_withdrawal_funds [OF ok get op]
  have oks: "balances_ok w" "deals_ok w" "withdrawals_ok w" "deposits_ok w" using ok by (auto simp: books_ok_def)
  have lock: "lock_user_balance (wd_user_id x) (wd_currency_id x) w = Inr (b, w)"
    using bal by (simp add: lock_user_balance_def)
  note l = lock_user_balance_ok [OF lock] and lb = lock_user_balance_balances_ok [OF lock oks(1)]
  have le: "wd_amount x \<le> b_locked b" using o(3) l(5) by simp
  have ok': "balance_ok b'" using lb(2) o le b' by (auto simp: balance_ok_def grid)
  have key: "b_user_id b' = wd_user_id x" "b_currency_id b' = wd_currency_id x" using l b' by simp_all
  have bb: "t_balances (save_withdrawal x' w1) = t_balances (save_balance b' w)" by (simp add: led)
  note r = written_row [OF lock oks(1) ok' key bb]
  have acc: "accounts (save_withdrawal x' w1) = payout_accounts x (wd_status x') (accounts w)"
    using r(1) l(5) x'(2) by (auto simp: payout_accounts_def a_burn_def a_unlock_def b' intro!: a_upd_cong)
  have tot: "total c (save_withdrawal x' w1) = total c w
      - (if wd_status x' = WS_sent \<and> c = wd_currency_id x then wd_amount x else 0)" for c
    using r(3) [of c] x'(2) le by (auto simp: b')
  have aud1: "audited w w1"
    unfolding led by (rule audited_write) (use lock key oks ok' in simp_all)
  have row: "get_withdrawal (wd_id (withdrawal_row x')) w = Some x" using get x'(1) by (simp add: same_withdrawal_def)
  have a: "0 < wd_amount (withdrawal_row x')" "storable (wd_amount (withdrawal_row x'))"
    using o(1,2) x'(1) by (simp_all add: same_withdrawal_def)
  note wu = withdrawals_update [OF oks(3) row _ _ a, of "save_withdrawal x' w1"]
  have hold: "held (save_withdrawal x' w1) u c = held w u c - withdrawal_hold x u c" for u c
    unfolding acc using o(3) op x'(2) by (auto simp: payout_accounts_def a_defs withdrawal_hold_def split: prod.splits)
  have "books_ok (save_withdrawal x' w1)"
  proof (rule books_ok_step [OF ok r(2)])
    show "deals_ok (save_withdrawal x' w1)" using deals_same [OF oks(2), of "save_withdrawal x' w1"] by (simp add: led)
    show "withdrawals_ok (save_withdrawal x' w1)" using wu(1) by (simp add: led)
    show "deposits_ok (save_withdrawal x' w1)"
      using deposits_same [OF oks(4), of "save_withdrawal x' w1"] by (simp add: led)
    show "t_currencies (save_withdrawal x' w1) = t_currencies w" by (simp add: led)
    fix u c
    have "withdrawal_hold (withdrawal_row x') u c = 0"
      using x'(2) by (auto simp: withdrawal_hold_def withdrawal_open_def)
    then show "held (save_withdrawal x' w1) u c - held w u c = escrow (save_withdrawal x' w1) u c - escrow w u c
        + (reserved (save_withdrawal x' w1) u c - reserved w u c)"
      using hold wu(2) [of u c] deals_same(2) [OF oks(2), of "save_withdrawal x' w1"] by (simp add: led)
  qed
  moreover have "get_withdrawal (wd_id x) w' = Some (withdrawal_row x')"
    using w' tget_tput_same [OF row [unfolded get_withdrawal_def]] x'(1)
    by (simp add: same_books_def get_withdrawal_def led same_withdrawal_def)
  moreover have "audited w w'"
    by (rule audited_trans [OF audited_same [OF _ _ aud1] same_booksD(3) [OF w']]) simp_all
  ultimately show ?thesis
    using same_booksD(1,2,4) [OF w'] acc tot x'(1) by (simp add: settled_def)
qed


section \<open>Requests\<close>

lemma insert_withdrawal_effect:
  assumes "insert_withdrawal x w = (x', w')"
  shows "x' = x \<lparr> wd_id := seq_withdrawals w \<rparr>" and "t_withdrawals w' = t_withdrawals w @ [withdrawal_row x']"
    and "seq_withdrawals w' = seq_withdrawals w + 1" and "t_balances w' = t_balances w"
    and "t_deals w' = t_deals w" and "t_deposits w' = t_deposits w" and "t_currencies w' = t_currencies w"
    and "t_ledger w' = t_ledger w" and "seq_deals w' = seq_deals w" and "seq_deposits w' = seq_deposits w"
  using assms by (auto simp: insert_withdrawal_def Let_def)

lemma lock_withdrawal_effect:
  assumes run: "lock_withdrawal now u cur amount addr w = Inr (x, w')" and ok: "books_ok w"
    and a: "0 < amount" "storable amount"
  shows "amount \<le> free w (u_id u) (c_id cur) \<and> accounts w' = a_lock (u_id u) (c_id cur) amount (accounts w)
    \<and> total c w' = total c w \<and> audited w w' \<and> books_ok w'
    \<and> get_withdrawal (wd_id x) w' = Some x \<and> wd_status x = WS_pending \<and> wd_amount x = amount
    \<and> wd_user_id x = u_id u \<and> wd_currency_id x = c_id cur \<and> wd_id x = seq_withdrawals w"
proof -
  have oks: "balances_ok w" "deals_ok w" "withdrawals_ok w" "deposits_ok w" using ok by (auto simp: books_ok_def)
  obtain bal w1 where lock: "lock_user_balance (u_id u) (c_id cur) w = Inr (bal, w1)"
    using lock_user_balance_total by blast
  let ?b = "bal \<lparr> b_amount := b_amount bal - amount, b_locked := b_locked bal + amount \<rparr>"
  let ?n = "new_withdrawal now u cur amount addr"
  define w2 where "w2 = snd (insert_withdrawal ?n (save_balance ?b w1))"
  have ins: "insert_withdrawal ?n (save_balance ?b w1) = (x, w2)" and le: "amount \<le> b_amount bal"
    and w': "\<exists>ev. w' = ledgered ?b (b_amount bal) (b_locked bal) ev w2"
    using run lock by (auto simp: lock_withdrawal_def Let_def w2_def case_prod_beta split: if_splits prod.splits)
  from w' obtain ev where w': "w' = ledgered ?b (b_amount bal) (b_locked bal) ev w2" by blast
  note l = lock_user_balance_ok [OF lock] and lb = lock_user_balance_balances_ok [OF lock oks(1)]
    and f = lock_user_balance_frame [OF lock] and i = insert_withdrawal_effect [OF ins]
  have ok': "balance_ok ?b" using lb(2) a le by (auto simp: balance_ok_def grid)
  have key: "b_user_id ?b = u_id u" "b_currency_id ?b = c_id cur" using l by simp_all
  have bb: "t_balances w' = t_balances (save_balance ?b w1)" using i(4) by (simp add: w')
  note r = written_row [OF lock oks(1) ok' key bb]
  have acc: "accounts w' = a_lock (u_id u) (c_id cur) amount (accounts w)"
    using r(1) l(5) by (auto simp: a_lock_def intro!: a_upd_cong)
  have aud: "audited w w'"
    unfolding w' by (rule audited_write) (use lock key oks ok' f i(4,8) in simp_all)
  have id: "wd_id x = seq_withdrawals w" using i(1) f by simp
  have x: "withdrawal_row x = x" "wd_status x = WS_pending" "wd_amount x = amount" "wd_user_id x = u_id u"
    "wd_currency_id x = c_id cur"
    using a(2) by (simp_all add: i(1) new_withdrawal_def withdrawal_row_def)
  have rows: "t_withdrawals w' = t_withdrawals w @ [x]" using i(2) x(1) f by (simp add: w')
  have sq: "seq_withdrawals w' = seq_withdrawals w + 1" using i(3) f by (simp add: w')
  note wi = withdrawals_insert [OF oks(3) rows id sq]
  have "books_ok w'"
  proof (rule books_ok_step [OF ok r(2)])
    show "deals_ok w'" using deals_same [OF oks(2), of w'] i f by (simp add: w')
    show "withdrawals_ok w'" using wi(1) x a by simp
    show "deposits_ok w'" using deposits_same [OF oks(4), of w'] i f by (simp add: w')
    show "t_currencies w' = t_currencies w" using i f by (simp add: w')
    fix v c
    have "withdrawal_hold x v c = (if v = u_id u \<and> c = c_id cur then amount else 0)"
      using x by (auto simp: withdrawal_hold_def withdrawal_open_def)
    then show "held w' v c - held w v c = escrow w' v c - escrow w v c + (reserved w' v c - reserved w v c)"
      using held_lock [OF acc, of v c] wi(2) [of v c] x a deals_same(2) [OF oks(2), of w'] i f by (simp add: w')
  qed
  moreover have "get_withdrawal (wd_id x) w' = Some x"
  proof -
    have "tget wd_id (seq_withdrawals w) (t_withdrawals w) = None"
      using oks(3) by (auto simp: tget_None_iff withdrawals_ok_def list_all_iff)
    then show ?thesis using rows id by (simp add: get_withdrawal_def tget_append)
  qed
  moreover have "total c w' = total c w" using r(3) [of c] by simp
  moreover have "amount \<le> free w (u_id u) (c_id cur)" using le l(5) by simp
  ultimately show ?thesis using acc aud id x by simp
qed

lemma phase1_effect:
  assumes "books_ok w" and "0 < amount" and "storable amount"
  shows "case create_withdrawal_phase1 now cfg worker u code amount address w of
      (Inl e, w') \<Rightarrow> w' = w
    | (Inr plan, w') \<Rightarrow> \<exists>cur x. get_currency_by_code code w = Inr cur \<and> x = wp_withdrawal plan
        \<and> c_min_withdraw cur \<le> amount \<and> amount \<le> free w (u_id u) (c_id cur)
        \<and> accounts w' = a_lock (u_id u) (c_id cur) amount (accounts w) \<and> total c w' = total c w
        \<and> get_withdrawal (wd_id x) w' = Some x \<and> wd_status x = WS_pending \<and> wd_amount x = amount
        \<and> wd_user_id x = u_id u \<and> wd_currency_id x = c_id cur \<and> wp_currency plan = cur
        \<and> wp_admin_exists plan = admin_exists w \<and> (wp_auto plan \<or> admin_exists w) \<and> audited w w' \<and> books_ok w'"
proof (cases rule: outcome_cases [of "create_withdrawal_phase1 now cfg worker u code amount address w"])
  case (fails e w')
  then show ?thesis
    by (auto simp: create_withdrawal_phase1_def Let_def split: sum.splits if_splits)
next
  case (returns plan w')
  then obtain cur addr x where cur: "get_currency_by_code code w = Inr cur" "c_min_withdraw cur \<le> amount"
    and run: "lock_withdrawal now u cur amount addr w = Inr (x, w')" and plan: "wp_withdrawal plan = x"
      "wp_auto plan \<or> admin_exists w" "wp_currency plan = cur" "wp_admin_exists plan = admin_exists w"
    by (auto simp: create_withdrawal_phase1_def Let_def split: sum.splits if_splits)
  show ?thesis using lock_withdrawal_effect [OF run assms, of c] cur plan returns by auto
qed

section \<open>Decisions\<close>

lemma notify_withdrawal_same [simp]: "same_books (snd (notify_withdrawal now nt x w)) w"
  by (simp add: same_books_def notify_withdrawal_def)

lemma decide_reject_settles:
  assumes "books_ok w" and "get_withdrawal (wd_id x) w = Some x"
  shows "case decide_reject now admin remark x cur w of
      (Inl e, w') \<Rightarrow> w' = w \<and> \<not> withdrawal_open (wd_status x)
    | (Inr x', w') \<Rightarrow> withdrawal_open (wd_status x) \<and> wd_status x' = WS_rejected \<and> settled x x' w w'"
proof (cases "withdrawal_open (wd_status x)")
  case False
  then show ?thesis by (auto simp: decide_reject_def withdrawal_open_def)
next
  case True
  obtain b where b: "get_balance (wd_user_id x) (wd_currency_id x) w = Some b"
    using open_withdrawal_funds(4) [OF assms True] by blast
  have "wd_status x \<in> {WS_pending, WS_approved}" using True by (simp add: withdrawal_open_def)
  then have "\<exists>x' w'. decide_reject now admin remark x cur w = (Inr x', w')"
    by (simp add: decide_reject_def Let_def case_prod_beta)
  then obtain x' w' where run: "decide_reject now admin remark x cur w = (Inr x', w')" by blast
  let ?b = "b \<lparr> b_amount := b_amount b + wd_amount x, b_locked := max 0 (b_locked b - wd_amount x) \<rparr>"
  let ?ev = "(withdrawal_event ''withdrawal.reject'' (wd_id x)) \<lparr> ev_meta := Some [(''admin_id'', MInt (u_id admin))] \<rparr>"
  have x': "x' = x \<lparr> wd_status := WS_rejected, wd_admin_note := note_text remark, wd_processed_at := Some now \<rparr>"
    and w': "same_books w' (save_withdrawal x' (ledgered ?b (b_amount b) (b_locked b) ?ev (save_balance ?b w)))"
    using run b True
    by (auto simp: decide_reject_def return_withdrawal_def withdrawal_open_def Let_def case_prod_beta same_books_def
        notify_withdrawal_def log_admin_action_def split: if_splits)
  have "same_withdrawal x x'" "wd_status x' = WS_sent \<or> wd_status x' = WS_rejected" "wd_status x' = WS_rejected"
    by (simp_all add: x' same_withdrawal_def)
  then show ?thesis
    using settle_withdrawal [OF assms True b, where b' = ?b and x' = x' and ev = ?ev and w' = w', OF _ _ _ refl w']
      run True by simp
qed

lemma decide_mark_sent_settles:
  assumes "books_ok w" and "get_withdrawal (wd_id x) w = Some x"
  shows "case decide_mark_sent now admin remark x cur w of
      (Inl e, w') \<Rightarrow> w' = w \<and> wd_status x \<noteq> WS_approved
    | (Inr x', w') \<Rightarrow> wd_status x = WS_approved \<and> wd_status x' = WS_sent \<and> settled x x' w w'"
proof (cases "wd_status x = WS_approved")
  case False
  then show ?thesis by (auto simp: decide_mark_sent_def)
next
  case ap: True
  then have True: "withdrawal_open (wd_status x)" by (simp add: withdrawal_open_def)
  obtain b where b: "get_balance (wd_user_id x) (wd_currency_id x) w = Some b"
    using open_withdrawal_funds(4) [OF assms True] by blast
  have "\<exists>x' w'. decide_mark_sent now admin remark x cur w = (Inr x', w')"
    using ap by (simp add: decide_mark_sent_def Let_def case_prod_beta)
  then obtain x' w' where run: "decide_mark_sent now admin remark x cur w = (Inr x', w')" by blast
  let ?b = "b \<lparr> b_locked := max 0 (b_locked b - wd_amount x) \<rparr>"
  let ?ev = "(withdrawal_event ''withdrawal.sent'' (wd_id x))
      \<lparr> ev_meta := Some [(''admin_id'', MInt (u_id admin)), (''manual'', MBool True)] \<rparr>"
  have x': "same_withdrawal x x'" "wd_status x' = WS_sent"
    and w': "same_books w' (save_withdrawal x' (ledgered ?b (b_amount b) (b_locked b) ?ev (save_balance ?b w)))"
    using run b ap
    by (auto simp: decide_mark_sent_def burn_withdrawal_def Let_def case_prod_beta same_books_def
        notify_withdrawal_def log_admin_action_def same_withdrawal_def split: if_splits)
  then show ?thesis
    using settle_withdrawal [OF assms True b, where b' = ?b and x' = x' and ev = ?ev and w' = w', OF _ _ _ refl w']
      run ap by simp
qed


lemma reopen_withdrawal:
  assumes ok: "books_ok w" and get: "get_withdrawal (wd_id x) w = Some row" and x: "same_withdrawal row x"
    and st: "withdrawal_open (wd_status x) = withdrawal_open (wd_status row)"
    and w': "same_books w' (save_withdrawal x w)"
  shows "books_ok w'" and "accounts w' = accounts w" and "get_withdrawal (wd_id x) w' = Some (withdrawal_row x)"
    and "audited w w'" and "total c w' = total c w"
proof -
  have oks: "balances_ok w" "deals_ok w" "withdrawals_ok w" "deposits_ok w" using ok by (auto simp: books_ok_def)
  let ?w = "save_withdrawal x w"
  have id: "wd_id row = wd_id x" using x by (simp add: same_withdrawal_def)
  have rw: "get_withdrawal (wd_id (withdrawal_row x)) w = Some row" using get by simp
  have a0: "0 < wd_amount row" "storable (wd_amount row)"
    using oks(3) get by (auto simp: withdrawals_ok_def list_all_iff get_withdrawal_def dest!: tget_Some)
  then have a: "0 < wd_amount (withdrawal_row x)" "storable (wd_amount (withdrawal_row x))"
    using x by (simp_all add: same_withdrawal_def)
  note wu = withdrawals_update [OF oks(3) rw _ _ a, of ?w]
  have acc: "accounts ?w = accounts w" by (rule accounts_cong) simp
  have hold: "withdrawal_hold (withdrawal_row x) = withdrawal_hold row"
    using x st a0 by (intro ext) (simp add: withdrawal_hold_def same_withdrawal_def)
  have bk: "books_ok ?w"
  proof (rule books_ok_step [OF ok])
    show "balances_ok ?w" using oks(1) balances_ok_cong [of ?w w] by simp
    show "deals_ok ?w" using deals_same [OF oks(2), of ?w] by simp
    show "withdrawals_ok ?w" using wu(1) by simp
    show "deposits_ok ?w" using deposits_same [OF oks(4), of ?w] by simp
    fix u c
    show "held ?w u c - held w u c = escrow ?w u c - escrow w u c + (reserved ?w u c - reserved w u c)"
      using acc wu(2) [of u c] hold deals_same(2) [OF oks(2), of ?w] by simp
  qed simp
  show "books_ok w'" "accounts w' = accounts w" using same_booksD(1,4) [OF w'] bk acc by simp_all
  show "get_withdrawal (wd_id x) w' = Some (withdrawal_row x)"
    using w' tget_tput_same [OF rw [unfolded get_withdrawal_def]] by (simp add: same_books_def get_withdrawal_def)
  show "audited w w'" by (rule audited_trans [OF audited_same [OF _ _ audited_refl] same_booksD(3) [OF w']]) simp_all
  show "total c w' = total c w" using same_booksD(2) [OF w', of c] by (simp add: total_def)
qed

lemma approve_failed_effect:
  assumes ok: "books_ok w" and get: "get_withdrawal (wd_id x) w = Some row"
  shows "books_ok (approve_failed admin remark x cur w)"
    and "accounts (approve_failed admin remark x cur w) = accounts w"
    and "map_option wd_status (get_withdrawal (wd_id x) (approve_failed admin remark x cur w)) = Some (wd_status row)"
proof -
  let ?t = "''[auto-send failed] CryptoPayError''"
  let ?n = "if strip (wd_admin_note row) \<noteq> [] then strip (strip (wd_admin_note row) @ [CHR 0x0A] @ ?t) else ?t"
  let ?row = "row \<lparr> wd_admin_note := ?n \<rparr>"
  have id: "wd_id row = wd_id x" using get by (auto simp: get_withdrawal_def dest: tget_Some)
  have g: "get_withdrawal (wd_id ?row) w = Some row" using get id by simp
  have s: "same_withdrawal row ?row" "withdrawal_open (wd_status ?row) = withdrawal_open (wd_status row)"
    by (simp_all add: same_withdrawal_def)
  have "same_books (approve_failed admin remark x cur w) (save_withdrawal ?row w)"
    using get by (simp add: approve_failed_def Let_def)
  note r = reopen_withdrawal [OF ok g s this]
  show "books_ok (approve_failed admin remark x cur w)"
    "accounts (approve_failed admin remark x cur w) = accounts w"
    "map_option wd_status (get_withdrawal (wd_id x) (approve_failed admin remark x cur w)) = Some (wd_status row)"
    using r id by simp_all
qed

text \<open>The flush of a stale object onto the row: the assigned columns only.\<close>

lemma settled_via_row:
  assumes "same_withdrawal row x" and "settled row row' w w'" and "same_withdrawal x x'" and "wd_status x' = wd_status row'"
  shows "accounts w' = payout_accounts x (wd_status x') (accounts w)" and "books_ok w'" and "audited w w'"
    and "get_withdrawal (wd_id x) w' = Some (withdrawal_row row')"
  using assms by (simp_all add: settled_def same_withdrawal_def payout_accounts_def)

lemma approve_phase3_settles:
  assumes "books_ok w" and "get_withdrawal (wd_id x) w = Some row" and "same_withdrawal row x"
    and "wd_status x = WS_approved" and "withdrawal_open (wd_status row)"
  shows "\<exists>x' w'. approve_phase3 now admin remark x cur tr w = (Inr x', w') \<and> wd_status x' = WS_sent
    \<and> same_withdrawal x x' \<and> accounts w' = payout_accounts x WS_sent (accounts w) \<and> books_ok w' \<and> audited w w'
    \<and> map_option wd_status (get_withdrawal (wd_id x) w') = Some WS_sent"
proof -
  have s: "wd_id row = wd_id x" "wd_user_id row = wd_user_id x" "wd_currency_id row = wd_currency_id x"
    "wd_amount row = wd_amount x" using assms(3) by (simp_all add: same_withdrawal_def)
  have get: "get_withdrawal (wd_id row) w = Some row" using assms(2) s by simp
  obtain b where b: "get_balance (wd_user_id row) (wd_currency_id row) w = Some b"
    using open_withdrawal_funds(4) [OF assms(1) get assms(5)] by blast
  let ?b = "b \<lparr> b_locked := max 0 (b_locked b - wd_amount row) \<rparr>"
  let ?ev = "(withdrawal_event ''withdrawal.sent'' (wd_id x))
      \<lparr> ev_provider := Some ''cryptobot'', ev_provider_event_id := Some (show_int (tr_transfer_id tr)) \<rparr>"
  let ?row = "row \<lparr> wd_status := WS_sent, wd_processed_at := Some now \<rparr>"
  let ?x = "x \<lparr> wd_status := WS_sent, wd_processed_at := Some now \<rparr>"
  obtain w' where run: "approve_phase3 now admin remark x cur tr w = (Inr ?x, w')"
    and w': "same_books w' (save_withdrawal ?row (ledgered ?b (b_amount b) (b_locked b) ?ev (save_balance ?b w)))"
    using assms(2,4) b s
    by (simp add: approve_phase3_def burn_withdrawal_def Let_def case_prod_beta same_books_def
        notify_withdrawal_def log_admin_action_def)
  have sr: "same_withdrawal row ?row" "wd_status ?row = WS_sent \<or> wd_status ?row = WS_rejected"
    "?b = b \<lparr> b_amount := (if wd_status ?row = WS_sent then b_amount b else b_amount b + wd_amount row),
                     b_locked := max 0 (b_locked b - wd_amount row) \<rparr>"
    by (simp_all add: same_withdrawal_def)
  note st = settle_withdrawal [OF assms(1) get assms(5) b sr(3) sr(1,2) refl w']
  have sx: "same_withdrawal x ?x" "wd_status ?x = wd_status ?row" by (simp_all add: same_withdrawal_def)
  note v = settled_via_row [OF assms(3) st sx]
  show ?thesis using run v sx by (intro exI [of _ ?x] exI [of _ w']) (simp add: same_withdrawal_def)
qed

text \<open>
  Approving a pending withdrawal moves money only when the provider took the transfer: then
  the locked amount is gone and the row says sent. Without a provider, or when it fails, the
  row says approved and the money stays locked.
\<close>

theorem approval_pays_after_transfer:
  assumes "books_ok w" and "get_withdrawal (wd_id x) w = Some x"
    and "\<And>w1. books_ok w1 \<Longrightarrow> books_ok (others w1) \<and> get_withdrawal (wd_id x) (others w1) = get_withdrawal (wd_id x) w1"
  shows "case decide_approve now cfg api admin remark others x cur u w of
      (Inl e, w') \<Rightarrow> w' = w \<and> wd_status x \<noteq> WS_pending
        \<or> is_cryptopay_configured cfg \<and> books_ok w'
          \<and> accounts w' = accounts (others (save_withdrawal (approve_withdrawal_row remark x) w))
          \<and> map_option wd_status (get_withdrawal (wd_id x) w') = Some WS_approved
    | (Inr x', w') \<Rightarrow> same_withdrawal x x' \<and> wd_status x = WS_pending \<and> books_ok w'
        \<and> map_option wd_status (get_withdrawal (wd_id x) w') = Some (wd_status x')
        \<and> (if is_cryptopay_configured cfg
           then wd_status x' = WS_sent \<and> cp_transfer api (transfer_of u cur (wd_amount x) x) \<noteq> None
             \<and> accounts w' = payout_accounts x WS_sent
                 (accounts (others (save_withdrawal (approve_withdrawal_row remark x) w)))
           else wd_status x' = WS_approved \<and> accounts w' = accounts w)"
proof (cases "wd_status x = WS_pending")
  case False
  then show ?thesis by (simp add: decide_approve_def)
next
  case True
  let ?x = "approve_withdrawal_row remark x"
  let ?w1 = "save_withdrawal ?x w"
  have sx: "same_withdrawal x ?x" "withdrawal_open (wd_status ?x) = withdrawal_open (wd_status x)"
    "wd_status ?x = WS_approved" "wd_id ?x = wd_id x" "wd_amount ?x = wd_amount x"
    using True by (simp_all add: approve_withdrawal_row_def same_withdrawal_def withdrawal_open_def)
  have g: "get_withdrawal (wd_id ?x) w = Some x" using assms(2) sx by simp
  note r = reopen_withdrawal [OF assms(1) g sx(1,2) same_books_refl]
  have tr: "transfer_of u cur (wd_amount ?x) ?x = transfer_of u cur (wd_amount x) x"
    using sx by (simp add: transfer_of_def)
  note o = assms(3) [OF r(1)]
  have row: "get_withdrawal (wd_id ?x) (others ?w1) = Some (withdrawal_row ?x)" using o r(3) sx by simp
  have sr: "same_withdrawal (withdrawal_row ?x) ?x"
    using assms(1,2) sx
    by (auto simp: same_withdrawal_def books_ok_def withdrawals_ok_def list_all_iff get_withdrawal_def withdrawal_row_def
        dest!: tget_Some)
  show ?thesis
  proof (cases "is_cryptopay_configured cfg")
    case False
    have l: "same_books (log_admin_action admin ''withdrawal.approve'' ''withdrawal'' (wd_id ?x) remark
        (withdrawal_meta ?x cur @ [(''auto'', MBool False), (''cryptobot_transfer_id'', MNull)]) ?w1) ?w1" by simp
    note r' = reopen_withdrawal [OF assms(1) g sx(1,2) l]
    show ?thesis using True False r' sx by (simp add: decide_approve_def Let_def)
  next
    case conf: True
    show ?thesis
    proof (cases "cp_transfer api (transfer_of u cur (wd_amount x) x)")
      case None
      note f = approve_failed_effect [OF conjunct1 [OF o] row, of admin remark cur]
      show ?thesis using True conf None tr f sx by (simp add: decide_approve_def Let_def)
    next
      case (Some t)
      have "withdrawal_open (wd_status (withdrawal_row ?x))" using sx by (simp add: withdrawal_open_def)
      from approve_phase3_settles [OF conjunct1 [OF o] row sr sx(3) this]
      obtain x' w' where p: "approve_phase3 now admin remark ?x cur t (others ?w1) = (Inr x', w')" "wd_status x' = WS_sent"
        "same_withdrawal ?x x'" "accounts w' = payout_accounts ?x WS_sent (accounts (others ?w1))" "books_ok w'"
        "map_option wd_status (get_withdrawal (wd_id ?x) w') = Some WS_sent" by metis
      show ?thesis
        using True conf Some tr p sx by (simp add: decide_approve_def Let_def same_withdrawal_def payout_accounts_def)
    qed
  qed
qed


text \<open>
  Rejecting an open withdrawal gives back exactly what it held, marking an approved one as
  sent takes it away; the row says so, the ledger explains it, the books balance, and any
  other decision changes nothing.
\<close>

theorem withdrawal_decisions_settle:
  assumes "books_ok w" and "act = ''reject'' \<or> act = ''mark_sent''"
  shows "case decide_withdrawal now cfg api admin i \<lparr> dec_action = act, dec_note = remark \<rparr> others w of
      (Inl e, w') \<Rightarrow> w' = w
    | (Inr x', w') \<Rightarrow> \<exists>x. get_withdrawal i w = Some x \<and> settled x x' w w'
        \<and> (if act = ''reject'' then withdrawal_open (wd_status x) \<and> wd_status x' = WS_rejected
           else wd_status x = WS_approved \<and> wd_status x' = WS_sent)"
proof (cases "decision_target i w")
  case (Inl e)
  then show ?thesis by (simp add: decide_withdrawal_def)
next
  case (Inr t)
  obtain x cur u where t: "t = (x, cur, u)" by (cases t)
  have g: "get_withdrawal i w = Some x" using Inr t by (auto simp: decision_target_def split: option.splits)
  then have id: "wd_id x = i" by (auto simp: get_withdrawal_def dest: tget_Some)
  have get: "get_withdrawal (wd_id x) w = Some x" using g id by simp
  note r = decide_reject_settles [OF assms(1) get, of now admin remark cur]
    and m = decide_mark_sent_settles [OF assms(1) get, of now admin remark cur]
  show ?thesis
    using assms(2) Inr t g r m by (auto simp: decide_withdrawal_def split: prod.splits sum.splits)
qed

lemma withdrawal_sent_settles:
  assumes "books_ok w" and "get_withdrawal (wd_id x) w = Some x" and "wd_status x = WS_pending"
  shows "\<exists>x' w'. withdrawal_sent now u cur (wd_amount x) x tr w = (x', w') \<and> wd_status x' = WS_sent
    \<and> settled x x' w w'"
proof -
  have op: "withdrawal_open (wd_status x)" using assms(3) by (simp add: withdrawal_open_def)
  obtain b where b: "get_balance (wd_user_id x) (wd_currency_id x) w = Some b"
    using open_withdrawal_funds(4) [OF assms(1,2) op] by blast
  let ?b = "b \<lparr> b_locked := max 0 (b_locked b - wd_amount x) \<rparr>"
  let ?ev = "(withdrawal_event ''withdrawal.sent'' (wd_id x))
      \<lparr> ev_provider := Some ''cryptobot'', ev_provider_event_id := Some (show_int (tr_transfer_id tr)) \<rparr>"
  let ?x = "x \<lparr> wd_status := WS_sent, wd_processed_at := Some now,
      wd_admin_note := transfer_note [] (tr_transfer_id tr) \<rparr>"
  obtain w' where run: "withdrawal_sent now u cur (wd_amount x) x tr w = (?x, w')"
    and w': "same_books w' (save_withdrawal ?x (ledgered ?b (b_amount b) (b_locked b) ?ev (save_balance ?b w)))"
    using assms(2,3) b by (simp add: withdrawal_sent_def Let_def case_prod_beta same_books_def)
  have s: "same_withdrawal x ?x" "wd_status ?x = WS_sent \<or> wd_status ?x = WS_rejected"
    "?b = b \<lparr> b_amount := (if wd_status ?x = WS_sent then b_amount b else b_amount b + wd_amount x),
                     b_locked := max 0 (b_locked b - wd_amount x) \<rparr>"
    by (simp_all add: same_withdrawal_def)
  note st = settle_withdrawal [OF assms(1,2) op b s(3) s(1,2) refl w']
  show ?thesis using run st by (intro exI [of _ ?x] exI [of _ w']) simp
qed

lemma auto_failed_refund_settles:
  assumes "books_ok w" and "get_withdrawal (wd_id x) w = Some x" and "wd_status x = WS_pending"
    and "wd_user_id x = u_id u" and "wd_currency_id x = c_id cur"
  shows "\<exists>x' w'. withdrawal_auto_failed_refund now u cur (wd_amount x) x w = Some (x', w')
    \<and> wd_status x' = WS_rejected \<and> settled x x' w w'"
proof -
  have op: "withdrawal_open (wd_status x)" using assms(3) by (simp add: withdrawal_open_def)
  obtain b where b: "get_balance (wd_user_id x) (wd_currency_id x) w = Some b"
    using open_withdrawal_funds(4) [OF assms(1,2) op] by blast
  let ?b = "b \<lparr> b_amount := b_amount b + wd_amount x, b_locked := max 0 (b_locked b - wd_amount x) \<rparr>"
  let ?x = "x \<lparr> wd_status := WS_rejected, wd_processed_at := Some now,
      wd_admin_note := ''auto-withdraw failed; no admins available'' \<rparr>"
  have leq: "t_ledger (ledgered ?b (b_amount b) (b_locked b) ev (save_withdrawal ?x (save_balance ?b w)))
      = t_ledger (ledgered ?b (b_amount b) (b_locked b) ev (save_balance ?b w))" for ev
    by (rule ledgered_ledger_cong) simp
  obtain w' where run: "withdrawal_auto_failed_refund now u cur (wd_amount x) x w = Some (?x, w')"
    and w': "same_books w' (save_withdrawal ?x (ledgered ?b (b_amount b) (b_locked b)
        (withdrawal_event ''withdrawal.auto_failed_refund'' (wd_id x)) (save_balance ?b w)))"
    using assms b leq by (simp add: withdrawal_auto_failed_refund_def Let_def case_prod_beta same_books_def)
  have s: "same_withdrawal x ?x" "wd_status ?x = WS_sent \<or> wd_status ?x = WS_rejected"
    "?b = b \<lparr> b_amount := (if wd_status ?x = WS_sent then b_amount b else b_amount b + wd_amount x),
                     b_locked := max 0 (b_locked b - wd_amount x) \<rparr>"
    by (simp_all add: same_withdrawal_def)
  note st = settle_withdrawal [OF assms(1,2) op b s(3) s(1,2) refl w']
  show ?thesis using run st by (intro exI [of _ ?x] exI [of _ w']) simp
qed

lemma notify_each_same: "same_books (snd (notify_each now rs ty nt p w)) w"
  by (simp add: same_books_def)

lemma queue_same: "same_books (withdrawal_queue now u cur amount x w) w"
  by (simp add: withdrawal_queue_def case_prod_beta same_books_def)

text \<open>What follows the commit of the first phase: \<open>w2\<close> is what the rest of the system has committed
  when the transfer returns.\<close>

definition payout_status :: "bool \<Rightarrow> bool \<Rightarrow> cryptopay_transfer option \<Rightarrow> WalletWithdrawStatus" where
  "payout_status auto admins transfer =
     (if \<not> auto then WS_pending
      else case transfer of Some _ \<Rightarrow> WS_sent | None \<Rightarrow> if admins then WS_pending else WS_rejected)"

lemma transfer_phase:
  assumes w1: "books_ok w1" "get_withdrawal (wd_id x) w1 = Some x" and w2: "books_ok w2" "get_withdrawal (wd_id x) w2 = Some x"
    and x: "wd_status x = WS_pending" "wd_user_id x = u_id u" "wd_currency_id x = c_id cur" "wd_amount x = amount"
  shows "\<exists>x' w'. (if auto
       then (case cp_transfer api t of
           Some tr \<Rightarrow> (case withdrawal_sent now u cur amount x tr w2 of (x', w3) \<Rightarrow> (Inr x', w3))
         | None \<Rightarrow> (case (if admins then None else withdrawal_auto_failed_refund now u cur amount x w2) of
             Some (x', w3) \<Rightarrow> (Inr x', w3)
           | None \<Rightarrow> (Inr x, withdrawal_queue now u cur amount x w2)))
       else (Inr x, withdrawal_queue now u cur amount x w1)) = (Inr x', w')
    \<and> same_withdrawal x x' \<and> books_ok w' \<and> map_option wd_status (get_withdrawal (wd_id x) w') = Some (wd_status x')
    \<and> wd_status x' = payout_status auto admins (cp_transfer api t)
    \<and> accounts w' = payout_accounts x (wd_status x') (accounts (if auto then w2 else w1))
    \<and> audited (if auto then w2 else w1) w'"
    (is "\<exists>x' w'. ?run = (Inr x', w') \<and> ?good x' w'")
proof -
  have queued: "?good x (withdrawal_queue now u cur amount x w3)"
    if "w3 = (if auto then w2 else w1)" "payout_status auto admins (cp_transfer api t) = WS_pending" for w3
    using same_booksD [OF queue_same [of now u cur amount x w3]] queue_same [of now u cur amount x w3] that w1 w2 x(1)
    by (auto simp: same_withdrawal_def payout_accounts_def same_books_def get_withdrawal_def)
  have settled: "?good x' w3" if "settled x x' w2 w3" "auto" "wd_status x' = payout_status auto admins (cp_transfer api t)" for x' w3
    using that by (auto simp: settled_def)
  consider (manual) "\<not> auto" | (sent) tr where "auto" "cp_transfer api t = Some tr"
    | (failed) "auto" "cp_transfer api t = None" "admins" | (refunded) "auto" "cp_transfer api t = None" "\<not> admins"
    by (cases "cp_transfer api t") auto
  then show ?thesis
  proof cases
    case manual
    then show ?thesis using queued [of w1] x(1) by (auto simp: payout_status_def)
  next
    case (sent tr)
    then show ?thesis using withdrawal_sent_settles [OF w2 x(1), of now u cur tr] settled x(4) by (fastforce simp: payout_status_def)
  next
    case failed
    then show ?thesis using queued [of w2] x(1) by (auto simp: payout_status_def)
  next
    case refunded
    then show ?thesis using auto_failed_refund_settles [OF w2 x(1-3), of now] settled x(4) by (fastforce simp: payout_status_def)
  qed
qed

lemma phase1_plan:
  assumes "books_ok w" and "0 < amount" and "storable amount"
    and "create_withdrawal_phase1 now cfg worker u code amount address w = (Inr plan, w1)"
  shows "wp_auto plan = (is_cryptopay_configured cfg \<and> auto_withdraw_enabled w)" "wd_id (wp_withdrawal plan) = seq_withdrawals w"
proof -
  obtain cur addr x where run: "lock_withdrawal now u cur amount addr w = Inr (x, w1)" and plan: "wp_withdrawal plan = x"
    "wp_auto plan = (is_cryptopay_configured cfg \<and> auto_withdraw_enabled w)"
    using assms(4) by (auto simp: create_withdrawal_phase1_def Let_def split: sum.splits if_splits)
  show "wp_auto plan = (is_cryptopay_configured cfg \<and> auto_withdraw_enabled w)" "wd_id (wp_withdrawal plan) = seq_withdrawals w"
    using plan lock_withdrawal_effect [OF run assms(1-3)] by simp_all
qed

text \<open>
  C6. A withdrawal request of a storable amount locks exactly that amount of the user's free money.
  Then, whatever the rest of the system commits while the transfer runs (as long as the books
  still balance and the row of this request is as it was), the outcome is the one the provider's answer calls for: with automatic
  payouts on, a transfer that succeeded takes the locked amount and the row says sent; one that failed
  leaves the request queued when there is an administrator, and without one gives the money back and the row
  says rejected; with automatic payouts off the request is queued and its money stays locked. The
  ledger explains each of the two transactions, the books balance, and a refusal changes nothing.
\<close>

theorem withdrawal_pays_keeps_or_returns:
  fixes others :: "world \<Rightarrow> world"
  assumes "books_ok w" and "0 < amount" and "storable amount"
    and "w1 = snd (create_withdrawal_phase1 now cfg worker u code amount address w)"
    and "books_ok (others w1)" and "get_withdrawal (seq_withdrawals w) (others w1) = get_withdrawal (seq_withdrawals w) w1"
  shows "case create_withdrawal now cfg api worker u code amount address others w of
      (Inl e, w') \<Rightarrow> w' = w
    | (Inr x', w') \<Rightarrow> \<exists>x cur auto w2. get_currency_by_code code w = Inr cur \<and> get_withdrawal (seq_withdrawals w) w1 = Some x
        \<and> wd_id x = seq_withdrawals w \<and> wd_user_id x = u_id u \<and> wd_currency_id x = c_id cur \<and> wd_amount x = amount
        \<and> amount \<le> free w (u_id u) (c_id cur) \<and> accounts w1 = a_lock (u_id u) (c_id cur) amount (accounts w) \<and> audited w w1
        \<and> auto = (is_cryptopay_configured cfg \<and> auto_withdraw_enabled w) \<and> w2 = (if auto then others w1 else w1)
        \<and> same_withdrawal x x' \<and> wd_status x' = payout_status auto (admin_exists w) (cp_transfer api (transfer_of u cur amount x))
        \<and> map_option wd_status (get_withdrawal (seq_withdrawals w) w') = Some (wd_status x')
        \<and> accounts w' = payout_accounts x (wd_status x') (accounts w2) \<and> audited w2 w' \<and> books_ok w'"
proof (cases rule: outcome_cases [of "create_withdrawal_phase1 now cfg worker u code amount address w"])
  case (fails e v)
  then have "v = w" using phase1_effect [OF assms(1-3), where now = now and cfg = cfg and worker = worker and u = u and code = code and address = address] by simp
  with fails show ?thesis by (simp add: create_withdrawal_def)
next
  case (returns plan v)
  have v: "v = w1" using returns assms(4) by simp
  define x where "x = wp_withdrawal plan"
  define cur where "cur = wp_currency plan"
  have p: "get_currency_by_code code w = Inr cur" "amount \<le> free w (u_id u) (c_id cur)"
    "accounts w1 = a_lock (u_id u) (c_id cur) amount (accounts w)"
    "get_withdrawal (wd_id x) w1 = Some x" "wd_status x = WS_pending" "wd_amount x = amount"
    "wd_user_id x = u_id u" "wd_currency_id x = c_id cur" "wp_admin_exists plan = admin_exists w" "books_ok w1" "audited w w1"
    using phase1_effect [OF assms(1-3), where now = now and cfg = cfg and worker = worker and u = u and code = code and address = address] returns
    by (auto simp: x_def cur_def v)
  note q = phase1_plan [OF assms(1-3) returns]
  have id: "wd_id x = seq_withdrawals w" using q(2) by (simp add: x_def)
  have o: "books_ok (others w1)" "get_withdrawal (wd_id x) (others w1) = Some x" using assms(5,6) p(4) id by simp_all
  from transfer_phase [OF p(10,4) o p(5,7,8,6), where api = api and t = "transfer_of u cur amount x" and now = now
      and auto = "wp_auto plan" and admins = "admin_exists w"]
  obtain x' w' where run: "create_withdrawal now cfg api worker u code amount address others w = (Inr x', w')"
    and "same_withdrawal x x'" "books_ok w'" "map_option wd_status (get_withdrawal (wd_id x) w') = Some (wd_status x')"
    "wd_status x' = payout_status (wp_auto plan) (admin_exists w) (cp_transfer api (transfer_of u cur amount x))"
    "accounts w' = payout_accounts x (wd_status x') (accounts (if wp_auto plan then others w1 else w1))"
    "audited (if wp_auto plan then others w1 else w1) w'"
    unfolding create_withdrawal_def returns prod.case sum.case Let_def x_def cur_def v p(9) by blast
  then show ?thesis unfolding run prod.case sum.case using p id q(1)
    by (intro exI [of _ x] exI [of _ cur] exI [of _ "wp_auto plan"] exI [of _ "if wp_auto plan then others w1 else w1"]) simp
qed


lemma sample_delivery: "admin_exists sample_world" "\<not> auto_withdraw_enabled sample_world"
  by (simp_all add: admin_exists_def auto_withdraw_enabled_def sample_rows sample_settings_def default_app_settings_def)

lemma sample_funded: "is_cryptopay_configured sample_cfg"
  by (simp add: is_cryptopay_configured_def sample_cfg_def sample_strings Let_def)

text \<open>
  Automatic payouts are on, and while the transfer runs an administrator rejects another withdrawal of
  the same user.
\<close>

definition auto_world :: world where
  "auto_world = sample_world \<lparr> t_app_settings := Some (default_app_settings \<lparr> s_auto_withdraw_enabled := True \<rparr>) \<rparr>"

definition meanwhile :: "world \<Rightarrow> world" where
  "meanwhile w = snd (decide_reject 9 sample_admin None (sample_withdrawal 4 WS_pending 5) usdt w)"

lemma auto_world_same: "same_books auto_world sample_world"
  by (simp add: same_books_def auto_world_def)

lemma decide_reject_other:
  "i \<noteq> wd_id x \<Longrightarrow> get_withdrawal i (snd (decide_reject now admin remark x cur w)) = get_withdrawal i w"
  by (auto simp: decide_reject_def return_withdrawal_def notify_withdrawal_def log_admin_action_def Let_def case_prod_beta
      get_withdrawal_def tget_tput split: option.split)

lemma auto_request:
  "\<exists>plan w1. create_withdrawal_phase1 9 sample_cfg (\<lambda>_ _. RegexOk True) sample_buyer ''USDT'' 10 None auto_world = (Inr plan, w1)
     \<and> books_ok w1 \<and> accounts w1 1 7 = (90, 91) \<and> get_withdrawal 4 w1 = Some (sample_withdrawal 4 WS_pending 5)"
proof -
  have ok: "books_ok auto_world" and acc: "accounts auto_world = accounts sample_world"
    using same_booksD [OF auto_world_same] sample_books_ok by simp_all
  have cur: "get_currency_by_code ''USDT'' auto_world = Inr usdt"
    using sample_usdt by (simp add: get_currency_by_code_def auto_world_def)
  have auto: "auto_withdraw_enabled auto_world" "admin_exists auto_world"
    by (simp_all add: auto_withdraw_enabled_def auto_world_def admin_exists_def sample_rows sample_user_rows)
  have lock: "lock_user_balance 1 7 auto_world
      = Inr (\<lparr> b_user_id = 1, b_currency_id = 7, b_amount = 100, b_locked = 81 \<rparr>, auto_world)"
    by (simp add: lock_user_balance_def get_balance_def auto_world_def sample_rows bkey_def)
  obtain x w1 where x: "lock_withdrawal 9 sample_buyer usdt 10 None auto_world = Inr (x, w1)"
    and rows: "t_withdrawals w1 = t_withdrawals auto_world @ [withdrawal_row x]"
    by (simp add: lock_withdrawal_def lock insert_withdrawal_def Let_def)
  have run: "\<exists>plan. create_withdrawal_phase1 9 sample_cfg (\<lambda>_ _. RegexOk True) sample_buyer ''USDT'' 10 None auto_world = (Inr plan, w1)"
    by (simp add: create_withdrawal_phase1_def cur x checked_address_def auto sample_funded Let_def)
  have "get_withdrawal 4 w1 = Some (sample_withdrawal 4 WS_pending 5)"
    using sample_get by (simp add: get_withdrawal_def rows tget_append auto_world_def)
  then show ?thesis using run lock_withdrawal_effect [OF x ok, of 7] by (auto simp: acc a_defs)
qed

lemma withdrawal_pays_keeps_or_returns_witness:
  "case create_withdrawal 9 sample_cfg sample_api (\<lambda>_ _. RegexOk True) sample_buyer ''USDT'' 10 None meanwhile auto_world of
      (Inl e, w') \<Rightarrow> False
    | (Inr x', w') \<Rightarrow> wd_status x' = WS_sent \<and> accounts w' 1 7 = (95, 76) \<and> books_ok w'"
proof -
  have ok: "books_ok auto_world" using same_booksD [OF auto_world_same] sample_books_ok by simp
  obtain plan w1 where run: "create_withdrawal_phase1 9 sample_cfg (\<lambda>_ _. RegexOk True) sample_buyer ''USDT'' 10 None auto_world = (Inr plan, w1)"
    and w1: "books_ok w1" "accounts w1 1 7 = (90, 91)" "get_withdrawal 4 w1 = Some (sample_withdrawal 4 WS_pending 5)"
    using auto_request by blast
  let ?x = "sample_withdrawal 4 WS_pending 5"
  obtain y where y: "wd_status y = WS_rejected" "settled ?x y w1 (meanwhile w1)"
    and other: "get_withdrawal 100 (meanwhile w1) = get_withdrawal 100 w1"
    using decide_reject_settles [OF w1(1), of ?x 9 sample_admin None usdt] w1(3)
      decide_reject_other [of 100 ?x 9 sample_admin None usdt w1]
    by (auto simp: meanwhile_def withdrawal_open_def split: prod.splits sum.splits)
  have m: "books_ok (meanwhile w1)" "accounts (meanwhile w1) 1 7 = (95, 86)"
    using y w1(2) by (simp_all add: settled_def payout_accounts_def a_defs)
  have s: "seq_withdrawals auto_world = 100" "auto_withdraw_enabled auto_world"
    by (simp_all add: auto_world_def sample_rows auto_withdraw_enabled_def)
  have st: "payout_status True a (cp_transfer sample_api t) = WS_sent" for a t
    by (simp add: payout_status_def sample_api_def)
  have cur: "get_currency_by_code ''USDT'' auto_world = Inr usdt"
    using sample_usdt by (simp add: get_currency_by_code_def auto_world_def)
  have "succeeds (create_withdrawal 9 sample_cfg sample_api (\<lambda>_ _. RegexOk True) sample_buyer ''USDT'' 10 None meanwhile auto_world)"
    by (simp add: succeeds_def create_withdrawal_def run Let_def case_prod_beta split: option.split)
  then show ?thesis
    using withdrawal_pays_keeps_or_returns [OF ok, where amount = 10 and others = meanwhile and now = 9 and ?w1.0 = w1
        and cfg = sample_cfg and api = sample_api and worker = "\<lambda>_ _. RegexOk True" and u = sample_buyer
        and code = "''USDT''" and address = None] run m other s st cur sample_funded
    by (auto simp: succeeds_def payout_accounts_def a_defs split: prod.splits sum.splits)
qed

lemma approval_pays_after_transfer_witness:
  "case decide_approve 9 sample_cfg sample_api sample_admin None id (sample_withdrawal 4 WS_pending 5) usdt sample_buyer
      sample_world of
      (Inl e, w') \<Rightarrow> wd_status (sample_withdrawal 4 WS_pending 5) = WS_pending
    | (Inr x', w') \<Rightarrow> wd_status x' = WS_sent \<and> books_ok w'"
  using approval_pays_after_transfer [OF sample_books_ok, where x = "sample_withdrawal 4 WS_pending 5" and others = id
      and now = 9 and cfg = sample_cfg and api = sample_api and admin = sample_admin and remark = None and cur = usdt
      and u = sample_buyer] sample_funded
  by (auto split: prod.splits sum.splits)

lemma withdrawal_decisions_settle_witness:
  "case decide_withdrawal 9 sample_cfg sample_api sample_admin 4 \<lparr> dec_action = ''reject'', dec_note = None \<rparr> id
      sample_world of
      (Inl e, w') \<Rightarrow> False
    | (Inr x', w') \<Rightarrow> wd_status x' = WS_rejected \<and> accounts w' 1 7 = (105, 76)"
proof -
  have "succeeds (decide_withdrawal 9 sample_cfg sample_api sample_admin 4 \<lparr> dec_action = ''reject'', dec_note = None \<rparr>
      id sample_world)"
    by (simp add: succeeds_def decide_withdrawal_def decision_target_def decide_reject_def Let_def case_prod_beta)
  then show ?thesis
    using withdrawal_decisions_settle [OF sample_books_ok, where act = "''reject''" and i = 4 and now = 9
        and cfg = sample_cfg and api = sample_api and admin = sample_admin and remark = None and others = id]
    by (auto simp: succeeds_def settled_def payout_accounts_def a_defs split: prod.splits sum.splits)
qed

section \<open>What a stale object costs\<close>

text \<open>
  The reconciliation refunds a withdrawal whose object was pending when the sweep listed it,
  whatever the row says by now, also that it was sent, and it writes no ledger entry.
\<close>

theorem stale_sweep_trusts_its_snapshot:
  assumes "balances_ok w" and "get_withdrawal (wd_id c) w = Some row" and "wd_status c = WS_pending"
    and "0 \<le> wd_amount c" and "storable (wd_amount c)"
  shows "\<exists>ns w'. reconcile_withdrawal now c None w = Inr ((ns, 1), w')
    \<and> accounts w' = a_unlock (wd_user_id c) (wd_currency_id c) (wd_amount c) (accounts w)
    \<and> t_ledger w' = t_ledger w \<and> map_option wd_status (get_withdrawal (wd_id c) w') = Some WS_rejected"
proof -
  obtain bal w1 where lock: "lock_user_balance (wd_user_id c) (wd_currency_id c) w = Inr (bal, w1)"
    using lock_user_balance_total by blast
  note l = lock_user_balance_ok [OF lock] and lb = lock_user_balance_balances_ok [OF lock assms(1)]
    and f = lock_user_balance_frame [OF lock]
  let ?b = "bal \<lparr> b_amount := b_amount bal + wd_amount c, b_locked := max 0 (b_locked bal - wd_amount c) \<rparr>"
  obtain ns w' x where run: "reconcile_withdrawal now c None w = Inr ((ns, 1), w')"
    and w': "same_books w' (save_withdrawal x (save_balance ?b w1))" and x: "wd_id x = wd_id c" "wd_status x = WS_rejected"
    using assms(2,3) lock
    by (auto simp: reconcile_withdrawal_def Let_def case_prod_beta same_books_def get_withdrawal_def dest: tget_Some)
  have ok': "balance_ok ?b" using lb(2) assms(4,5) by (auto simp: balance_ok_def grid)
  have key: "b_user_id ?b = wd_user_id c" "b_currency_id ?b = wd_currency_id c" using l by simp_all
  have eq: "t_balances w' = t_balances (save_balance ?b w1)" using w' by (simp add: same_books_def)
  have acc: "accounts w' = a_unlock (wd_user_id c) (wd_currency_id c) (wd_amount c) (accounts w)"
    using written_row(1) [OF lock assms(1) ok' key eq] l(5) by (auto simp: a_unlock_def intro!: a_upd_cong)
  have "get_withdrawal (wd_id (withdrawal_row x)) w = Some row" using assms(2) x by simp
  then have "get_withdrawal (wd_id c) w' = Some (withdrawal_row x)"
    using w' x tget_tput_same [of wd_id "withdrawal_row x" "t_withdrawals w" row] f
    by (simp add: same_books_def get_withdrawal_def)
  then show ?thesis using run acc w' x f by (auto simp: same_books_def)
qed

lemma stale_sweep_trusts_its_snapshot_witness:
  "\<exists>ns w'. reconcile_withdrawal 9 (sample_withdrawal 17 WS_pending 9) None sample_world = Inr ((ns, 1), w')
    \<and> wd_status (the (get_withdrawal 17 sample_world)) = WS_sent \<and> accounts w' 1 7 = (109, 72)"
  using stale_sweep_trusts_its_snapshot [OF sample_balances_ok, where c = "sample_withdrawal 17 WS_pending 9" and now = 9]
  by (auto simp: a_defs)

section \<open>Adjustments by hand\<close>

lemma adjust_effect:
  assumes "balances_ok w" and "storable delta"
  shows "case adjust_user_balance admin i code delta reason w of
      (Inl e, w') \<Rightarrow> w' = w \<and> (get_user i w = None \<or> currency_with_code code w = None
          \<or> (\<exists>cur. currency_with_code code w = Some cur \<and> free w i (c_id cur) + delta < 0))
    | (Inr b, w') \<Rightarrow> \<exists>cur. currency_with_code code w = Some cur \<and> 0 \<le> free w i (c_id cur) + delta
        \<and> accounts w' = a_credit i (c_id cur) delta (accounts w) \<and> audited w w' \<and> balances_ok w'
        \<and> length (t_audit w') = Suc (length (t_audit w))"
proof (cases "get_user i w")
  case None
  then show ?thesis by (simp add: adjust_user_balance_def)
next
  case (Some u)
  then have id: "u_id u = i" by (auto simp: get_user_def dest: tget_Some)
  show ?thesis
  proof (cases "currency_with_code code w")
    case None
    with Some show ?thesis by (simp add: adjust_user_balance_def)
  next
    case cur: (Some cur)
    obtain bal w1 where lock: "lock_user_balance i (c_id cur) w = Inr (bal, w1)"
      using lock_user_balance_total by blast
    note l = lock_user_balance_ok [OF lock] and lb = lock_user_balance_balances_ok [OF lock assms(1)]
      and f = lock_user_balance_frame [OF lock]
    have free: "free w i (c_id cur) = b_amount bal" using l(5) by simp
    show ?thesis
    proof (cases "b_amount bal + delta < 0")
      case True
      then show ?thesis using Some cur id lock free by (simp add: adjust_user_balance_def Let_def)
    next
      case False
      let ?b = "bal \<lparr> b_amount := b_amount bal + delta \<rparr>"
      obtain ev w2 w' where run: "adjust_user_balance admin i code delta reason w = (Inr ?b, w')"
        and w2: "w2 = ledgered ?b (b_amount bal) (b_locked bal) ev (save_balance ?b w1)"
        and w': "same_books w' w2" and au: "length (t_audit w') = Suc (length (t_audit w2))"
        using Some cur id lock False by (simp add: adjust_user_balance_def Let_def same_books_def log_admin_action_def)
      have ok': "balance_ok ?b" using lb(2) False assms(2) by (auto simp: balance_ok_def grid)
      have key: "b_user_id ?b = i" "b_currency_id ?b = c_id cur" using l by simp_all
      have eq: "t_balances w' = t_balances (save_balance ?b w1)" using w' by (simp add: same_books_def w2)
      note r = written_row [OF lock assms(1) ok' key eq]
      have acc: "accounts w' = a_credit i (c_id cur) delta (accounts w)"
        using r(1) l(5) by (auto simp: a_credit_def intro!: a_upd_cong)
      have "audited w w2" unfolding w2 by (rule audited_write) (use lock key assms ok' f in simp_all)
      then have "audited w w'" by (rule audited_trans [OF _ same_booksD(3) [OF w']])
      moreover have "t_audit w2 = t_audit w"
        using lock by (auto simp: w2 record_balance_ledger_def append_ledger_def save_balance_def Let_def
            lock_user_balance_def upsert_balance_def split: option.splits if_splits)
      ultimately show ?thesis using run cur False free acc r(2) au by simp
    qed
  qed
qed

text \<open>
  An administrator's adjustment changes one account's free money by the delta and never below
  nought, with one ledger entry and one audit row; a refusal changes nothing.
\<close>

theorem admin_adjustment_is_audited:
  assumes "balances_ok w" and "storable delta"
  shows "case adjust_user_balance admin i code delta reason w of
      (Inl e, w') \<Rightarrow> w' = w \<and> (get_user i w = None \<or> currency_with_code code w = None
          \<or> (\<exists>cur. currency_with_code code w = Some cur \<and> free w i (c_id cur) + delta < 0))
    | (Inr b, w') \<Rightarrow> \<exists>cur. currency_with_code code w = Some cur \<and> 0 \<le> free w i (c_id cur) + delta
        \<and> accounts w' = a_credit i (c_id cur) delta (accounts w) \<and> audited w w' \<and> balances_ok w'
        \<and> length (t_audit w') = Suc (length (t_audit w))"
  by (rule adjust_effect [OF assms])

lemma manual_deposit_effect:
  assumes "balances_ok w" and "get_deposit i w = Some d" and "0 \<le> dep_amount d" and "storable (dep_amount d)"
  shows "(case mark_paid now admin reason i w of
      (Inl e, w') \<Rightarrow> w' = w
    | (Inr d', w') \<Rightarrow> t_ledger w' = t_ledger w \<and> t_deals w' = t_deals w \<and>
        (if dep_status d = DS_paid then w' = w
         else accounts w' = a_credit (dep_user_id d) (dep_currency_id d) (dep_amount d) (accounts w)))
   \<and> (case refund_deposit now admin reason i w of
      (Inl e, w') \<Rightarrow> w' = w
    | (Inr d', w') \<Rightarrow> t_ledger w' = t_ledger w \<and> dep_status d = DS_paid
        \<and> dep_amount d \<le> free w (dep_user_id d) (dep_currency_id d)
        \<and> accounts w' = a_credit (dep_user_id d) (dep_currency_id d) (- dep_amount d) (accounts w))"
proof -
  have id: "dep_id d = i" using assms(2) by (auto simp: get_deposit_def dest: tget_Some)
  have P: "case mark_paid now admin reason i w of
      (Inl e, w') \<Rightarrow> w' = w
    | (Inr d', w') \<Rightarrow> t_ledger w' = t_ledger w \<and> t_deals w' = t_deals w \<and>
        (if dep_status d = DS_paid then w' = w
         else accounts w' = a_credit (dep_user_id d) (dep_currency_id d) (dep_amount d) (accounts w))"
  proof (cases "dep_status d = DS_paid \<or> get_currency (dep_currency_id d) w = None")
    case True
    then show ?thesis using assms(2) by (auto simp: mark_paid_def)
  next
    case False
    then obtain cur where cur: "get_currency (dep_currency_id d) w = Some cur" and st: "dep_status d \<noteq> DS_paid" by auto
    obtain bal w1 where lock: "lock_user_balance (dep_user_id d) (dep_currency_id d) w = Inr (bal, w1)"
      using lock_user_balance_total by blast
    note f = lock_user_balance_frame [OF lock]
    let ?b = "bal \<lparr> b_amount := b_amount bal + dep_amount d \<rparr>"
    obtain d' w' where run: "mark_paid now admin reason i w = (Inr d', w')"
      and w': "same_books w' (save_deposit d' (save_balance ?b w1))"
      using assms(2) cur st lock
      by (simp add: mark_paid_def Let_def case_prod_beta same_books_def deposit_notice_def log_admin_action_def)
    have eq: "t_balances w' = t_balances (save_balance ?b w1)" using w' by (simp add: same_books_def)
    note c = credited_row [OF lock assms(1,3,4) eq]
    show ?thesis using run st c(1) w' f by (simp add: same_books_def)
  qed
  have R: "case refund_deposit now admin reason i w of
      (Inl e, w') \<Rightarrow> w' = w
    | (Inr d', w') \<Rightarrow> t_ledger w' = t_ledger w \<and> dep_status d = DS_paid
        \<and> dep_amount d \<le> free w (dep_user_id d) (dep_currency_id d)
        \<and> accounts w' = a_credit (dep_user_id d) (dep_currency_id d) (- dep_amount d) (accounts w)"
  proof (cases rule: outcome_cases [of "refund_deposit now admin reason i w"])
    case (fails e w')
    then show ?thesis using assms(2) by (auto simp: refund_deposit_def Let_def case_prod_beta split: if_splits option.splits)
  next
    case (returns d' w')
    obtain bal where st: "dep_status d = DS_paid" and bal: "get_balance (dep_user_id d) (dep_currency_id d) w = Some bal"
      and le: "dep_amount d \<le> b_amount bal"
      and w': "same_books w' (save_deposit d' (save_balance (bal \<lparr> b_amount := b_amount bal - dep_amount d \<rparr>) w))"
      using returns assms(2)
      by (auto simp: refund_deposit_def Let_def case_prod_beta same_books_def deposit_notice_def log_admin_action_def
          split: if_splits option.splits)
    have lock: "lock_user_balance (dep_user_id d) (dep_currency_id d) w = Inr (bal, w)"
      using bal by (simp add: lock_user_balance_def)
    note l = lock_user_balance_ok [OF lock] and lb = lock_user_balance_balances_ok [OF lock assms(1)]
    let ?b = "bal \<lparr> b_amount := b_amount bal - dep_amount d \<rparr>"
    have ok': "balance_ok ?b" using lb(2) le assms(4) by (auto simp: balance_ok_def grid)
    have key: "b_user_id ?b = dep_user_id d" "b_currency_id ?b = dep_currency_id d" using l by simp_all
    have eq: "t_balances w' = t_balances (save_balance ?b w)" using w' by (simp add: same_books_def)
    have "accounts w' = a_credit (dep_user_id d) (dep_currency_id d) (- dep_amount d) (accounts w)"
      using written_row(1) [OF lock assms(1) ok' key eq] l(5) by (auto simp: a_credit_def intro!: a_upd_cong)
    then show ?thesis using returns st le l(5) w' by (simp add: same_books_def)
  qed
  show ?thesis using P R by blast
qed

text \<open>
  Marking a deposit paid and refunding one change the user's free money by the nominal amount
  and write no ledger entry; a top-up deposit marked paid leaves its deal as it was.
\<close>

theorem manual_deposit_moves_leave_no_ledger:
  assumes "balances_ok w" and "get_deposit i w = Some d" and "0 \<le> dep_amount d" and "storable (dep_amount d)"
  shows "(case mark_paid now admin reason i w of
      (Inl e, w') \<Rightarrow> w' = w
    | (Inr d', w') \<Rightarrow> t_ledger w' = t_ledger w \<and> t_deals w' = t_deals w \<and>
        (if dep_status d = DS_paid then w' = w
         else accounts w' = a_credit (dep_user_id d) (dep_currency_id d) (dep_amount d) (accounts w)))
   \<and> (case refund_deposit now admin reason i w of
      (Inl e, w') \<Rightarrow> w' = w
    | (Inr d', w') \<Rightarrow> t_ledger w' = t_ledger w \<and> dep_status d = DS_paid
        \<and> dep_amount d \<le> free w (dep_user_id d) (dep_currency_id d)
        \<and> accounts w' = a_credit (dep_user_id d) (dep_currency_id d) (- dep_amount d) (accounts w))"
  by (rule manual_deposit_effect [OF assms])

lemma admin_adjustment_is_audited_witness:
  "case adjust_user_balance sample_admin 2 ''USDT'' (- 2) None sample_world of
      (Inl e, w') \<Rightarrow> False
    | (Inr b, w') \<Rightarrow> accounts w' 2 7 = (1, 0) \<and> audited sample_world w'"
proof -
  have "currency_with_code ''USDT'' sample_world = Some usdt"
    by (simp add: currency_with_code_def sample_rows)
  moreover have "storable (- 2)" by (rule on_gridI [of _ _ "- 2 * 10 ^ MONEY_SCALE"]) simp
  ultimately show ?thesis
    using admin_adjustment_is_audited [OF sample_balances_ok, where delta = "- 2" and i = 2 and code = "''USDT''"
        and admin = sample_admin and reason = None]
    by (auto simp: a_defs split: prod.splits sum.splits)
qed

lemma manual_deposit_moves_leave_no_ledger_witness:
  "case mark_paid 9 sample_admin None 11 sample_world of
      (Inl e, w') \<Rightarrow> w' = sample_world
    | (Inr d', w') \<Rightarrow> t_ledger w' = t_ledger sample_world \<and> t_deals w' = t_deals sample_world
        \<and> accounts w' 1 7 = (151, 81)"
proof -
  note m = conjunct1 [OF manual_deposit_moves_leave_no_ledger [OF sample_balances_ok, where i = 11 and now = 9
      and d = "sample_deposit 11 DS_pending P_deal_topup (Some 8) 51" and admin = sample_admin and reason = None]]
  show ?thesis using m by (auto simp: a_defs split: prod.splits sum.splits)
qed

end
