(* ===== verification/Steps.thy ===== *)
theory Steps
  imports Inbox Enforcement Unfunded Payouts
begin

text \<open>
  What each transaction of the program does to the books and to the ledger, whatever its arguments and
  whether it returns or raises: \<open>good w w'\<close> when the books still balance and the ledger explains the change.
  The relation that collects all of them is in \<open>System\<close>.
\<close>

section \<open>Systems and their invariants\<close>

text \<open>The runs of a labelled relation, with the list of their labels.\<close>

inductive trace :: "('l \<Rightarrow> 's \<Rightarrow> 's \<Rightarrow> bool) \<Rightarrow> 'l list \<Rightarrow> 's \<Rightarrow> 's \<Rightarrow> bool" for step where
  stop: "trace step [] s s"
| go: "step l s t \<Longrightarrow> trace step ls t u \<Longrightarrow> trace step (l # ls) s u"

inductive_cases trace_NilE: "trace step [] s t"
inductive_cases trace_ConsE: "trace step (l # ls) s t"

lemma trace_one: "step l s t \<Longrightarrow> trace step [l] s t"
  by (blast intro: trace.intros)

lemma trace_append: "trace step ks s t \<Longrightarrow> trace step ls t u \<Longrightarrow> trace step (ks @ ls) s u"
  by (induction rule: trace.induct) (auto intro: trace.intros)

text \<open>\<open>safe\<close> are the labels whose steps keep the invariant and stay in the relation.\<close>

locale invariant_system =
  fixes step :: "'l \<Rightarrow> 's \<Rightarrow> 's \<Rightarrow> bool" and safe :: "'l \<Rightarrow> bool" and inv :: "'s \<Rightarrow> bool" and rel :: "'s \<Rightarrow> 's \<Rightarrow> bool"
  assumes step_inv: "step l s t \<Longrightarrow> safe l \<Longrightarrow> inv s \<Longrightarrow> inv t"
    and step_rel: "step l s t \<Longrightarrow> safe l \<Longrightarrow> inv s \<Longrightarrow> rel s t"
    and rel_refl: "rel s s"
    and rel_trans: "rel s t \<Longrightarrow> rel t u \<Longrightarrow> rel s u"
begin

lemma reachable: "trace step ls s t \<Longrightarrow> list_all safe ls \<Longrightarrow> inv s \<Longrightarrow> inv t \<and> rel s t"
  by (induction rule: trace.induct) (auto simp: rel_refl intro: step_inv rel_trans dest: step_rel)

end

section \<open>Transactions\<close>

definition good :: "world \<Rightarrow> world \<Rightarrow> bool" where
  "good w w' \<longleftrightarrow> books_ok w' \<and> audited w w'"

lemma good_same: "same_books w' w \<Longrightarrow> books_ok w \<Longrightarrow> good w w'"
  using same_booksD unfolding good_def by blast

lemma good_refl [simp]: "books_ok w \<Longrightarrow> good w w"
  by (simp add: good_def)


context deal_op
begin

lemma good_op: "books_ok w \<Longrightarrow> get_deal (d_id d) w = Some d \<Longrightarrow> good w (snd (op d w))"
proof (cases rule: outcome_cases [of "op d w"])
  case (fails e w')
  then show "books_ok w \<Longrightarrow> good w (snd (op d w))" using fails_clean [OF fails] by simp
next
  case (returns d' w')
  then show "books_ok w \<Longrightarrow> get_deal (d_id d) w = Some d \<Longrightarrow> good w (snd (op d w))"
    using effects [OF _ _ returns] by (simp add: good_def)
qed

lemma good_on_locked: "books_ok w \<Longrightarrow> good w (snd (on_locked_deal op i w))"
  using good_op [of w] get_deal_in [of i w]
  by (fastforce simp: on_locked_deal_def get_locked_def split: option.splits prod.splits)

end

lemma good_resolve: "books_ok w \<Longrightarrow> good w (snd (resolve_endpoint now i winner remark u w))"
  using resolve.good_op [where w = w and now = now and winner = winner and remark = remark and u = u] get_deal_in [of i w]
  by (fastforce simp: resolve_endpoint_def get_locked_def split: option.splits prod.splits sum.splits)

lemma good_cases:
  "(\<And>e w'. r = (Inl e, w') \<Longrightarrow> good w w') \<Longrightarrow> (\<And>x w'. r = (Inr x, w') \<Longrightarrow> good w w') \<Longrightarrow> good w (snd r)"
  by (cases rule: outcome_cases [of r]) auto

lemma good_create: "books_ok w \<Longrightarrow> good w (snd (create_deal now b s code amount desc prov w))"
  using create_deal_effect [where w = w and now = now and b = b and s = s and code = code and amount = amount and desc = desc and prov = prov]
  by (intro good_cases) (auto simp: good_def good_same [OF settings_same_books, unfolded good_def])

lemma good_create_topup: "books_ok w \<Longrightarrow> good w (snd (create_deal_with_topup now cfg api b s code amount desc prov w))"
  using create_deal_with_topup_effect [where w = w and now = now and cfg = cfg and api = api and b = b and s = s and code = code and amount = amount and desc = desc and prov = prov]
  by (intro good_cases) (auto simp: good_def good_same [OF settings_same_books, unfolded good_def])

lemma good_no_money: "books_ok w' \<Longrightarrow> t_balances w' = t_balances w \<Longrightarrow> t_ledger w' = t_ledger w \<Longrightarrow> good w w'"
  by (auto simp: good_def intro: audited_same)

lemma good_cancel_topup: "books_ok w \<Longrightarrow> good w (snd (cancel_topup_endpoint now i u w))"
proof -
  assume ok: "books_ok w"
  show ?thesis
  proof (cases "get_deal i w")
    case None
    then show ?thesis using ok by (simp add: cancel_topup_endpoint_def on_locked_deal_def get_locked_def)
  next
    case (Some d)
    then have g: "get_deal (d_id d) w = Some d" using get_deal_in [OF Some] by simp
    have "good w (snd (cancel_pending_topup now d u w))"
      using cancel_topup_effect [OF ok g, where now = now and u = u] ok by (intro good_cases) (auto intro: good_no_money)
    then show ?thesis using Some by (simp add: cancel_topup_endpoint_def on_locked_deal_def get_locked_def case_prod_beta)
  qed
qed

lemma good_sweeps:
  assumes "books_ok w"
  shows "good w (snd (sweep_inactivity now skip w))" "good w (snd (sweep_pending_topup now skip w))"
    "good w (snd (sweep_expired_deposits now cfg skip w))"
proof -
  show "good w (snd (sweep_inactivity now skip w))"
    using sweep_inactivity_effect [OF assms, where now = now and skip = skip and c = 0] by (auto simp: good_def)
  show "good w (snd (sweep_pending_topup now skip w))"
    using sweep_topup_effect [OF assms, where now = now and skip = skip] by (auto intro: good_no_money)
  show "good w (snd (sweep_expired_deposits now cfg skip w))"
    using expiry_sweep_effect [OF assms, where now = now and cfg = cfg and skip = skip] by (auto intro: good_no_money)
qed

lemma good_invoice:
  assumes "books_ok w" and "0 \<le> amount"
  shows "good w (snd (create_deposit_invoice_commit now cfg api u code amount purpose prov w))"
proof (cases "create_deposit_invoice now cfg api u code amount purpose prov True w")
  case (Inl e)
  then show ?thesis using assms by (simp add: create_deposit_invoice_commit_def)
next
  case (Inr p)
  obtain dep w' where p: "p = (dep, w')" by fastforce
  note e = create_deposit_invoice_effect [OF Inr [unfolded p]]
  obtain cur where cur: "get_currency_by_code code w = Inr cur" and dep: "dep_id dep = seq_deposits w"
      "dep_amount dep = quantize_money amount (c_decimals cur)"
    and w': "w' = w \<lparr> t_deposits := t_deposits w @ [deposit_row dep], seq_deposits := seq_deposits w + 1 \<rparr>"
    using e by blast
  have oks: "deposits_ok w" "currencies_ok w" "balances_ok w" using assms(1) by (auto simp: books_ok_def)
  have "c_decimals cur \<le> MONEY_SCALE" using get_currency_by_code_found [OF cur oks(2)] by blast
  then have "deposits_ok w'"
    by (intro deposits_insert [OF oks(1), of _ "deposit_row dep"]) (simp_all add: w' dep assms(2) storable_quantize)
  moreover have b: "t_balances w' = t_balances w" by (simp add: w')
  ultimately have "books_ok w'"
    using balances_ok_cong [OF b] accounts_cong [OF b] oks
    by (intro books_quiet [OF assms(1)]) (simp_all add: w')
  then show ?thesis using Inr p w' by (auto simp: create_deposit_invoice_commit_def intro: good_no_money)
qed

lemma good_pay_wallet:
  assumes "books_ok w" and "get_deposit (dep_id dep) w = Some dep" and "dep_purpose dep = P_wallet"
    and "get_currency (dep_currency_id dep) w \<noteq> None"
  shows "good w (snd (credit_deposit now cfg api dep (map_option Finite reported) w))"
proof (cases "dep_status dep = DS_paid")
  case True
  then show ?thesis using assms(1) by (simp add: credit_deposit_def)
next
  case False
  obtain cur where cur: "get_currency (dep_currency_id dep) w = Some cur" using assms(4) by auto
  obtain r w' where run: "credit_wallet now dep (Some cur) (credit_due dep reported cur)
      (map_option (\<lambda>r. quantize_money r (c_decimals cur)) reported) w = (r, w')" by fastforce
  note d = deposit_in_row [OF assms(2)]
  show ?thesis
    using credit_wallet_effect [OF run assms(1) d False credit_due_ok [OF assms(1) d cur]]
      credit_deposit_unfold [OF cur False assms(3), where now = now and cfg = cfg and api = api and reported = reported] run
    by (simp add: good_def)
qed

lemma good_pay_topup:
  assumes "books_ok w" and "get_deposit (dep_id dep) w = Some dep" and "dep_linked_deal_id dep = Some (d_id d)"
    and "get_deal (d_id d) w = Some d" and "list_all (\<lambda>x. 0 \<le> x) (case reported of None \<Rightarrow> [] | Some x \<Rightarrow> [x])"
  shows "good w (snd (complete_deal_topup_payment now cfg api dep reported w))"
proof (cases "dep_status dep = DS_paid")
  case True
  then show ?thesis using assms(1) by (simp add: complete_deal_topup_payment_def)
next
  case st: False
  show ?thesis
  proof (cases "d_status d = pending_topup")
    case True
    show ?thesis
      using topup_payment_effect [OF assms(1,2) st assms(3,4) True assms(5), where now = now and cfg = cfg and api = api] assms(1)
      by (intro good_cases) (auto simp: good_def)
  next
    case False
    show ?thesis
      using topup_late_payment_returns_to_buyer [OF assms(1,2) st assms(3,4) False assms(5), where now = now and cfg = cfg and api = api] assms(1)
      by (intro good_cases) (auto simp: good_def)
  qed
qed


lemma good_withdraw:
  assumes "books_ok w" and "0 < amount" and "storable amount"
  shows "good w (snd (create_withdrawal_phase1 now cfg worker u code amount address w))"
  using phase1_effect [OF assms, where now = now and cfg = cfg and worker = worker and u = u and code = code and address = address]
    assms(1)
  by (intro good_cases) (auto simp: good_def)

lemma good_settled: "settled x x' w w' \<Longrightarrow> good w w'"
  by (simp add: settled_def good_def)

lemma good_withdraw_sent:
  assumes "books_ok w" and "get_withdrawal (wd_id x) w = Some x" and "wd_status x = WS_pending"
  shows "good w (snd (withdrawal_sent now u cur (wd_amount x) x tr w))"
  using withdrawal_sent_settles [OF assms, where now = now and u = u and cur = cur and tr = tr] by (auto intro: good_settled)

lemma good_withdraw_failed:
  assumes "books_ok w" and "get_withdrawal (wd_id x) w = Some x" and "wd_status x = WS_pending"
    and "wd_user_id x = u_id u" and "wd_currency_id x = c_id cur"
    and "withdrawal_auto_failed_refund now u cur (wd_amount x) x w = Some (x', w')"
  shows "good w w'"
  using auto_failed_refund_settles [OF assms(1-5), where now = now] assms(6) by (auto intro: good_settled)

lemma good_queue: "books_ok w \<Longrightarrow> good w (withdrawal_queue now u cur amount x w)"
  by (rule good_same) (auto simp: withdrawal_queue_def same_books_def case_prod_beta)

lemma good_withdraw_approve:
  assumes "books_ok w" and "get_withdrawal (wd_id x) w = Some x" and "wd_status x = WS_pending"
  shows "good w (save_withdrawal (approve_withdrawal_row remark x) w)"
proof -
  let ?x = "approve_withdrawal_row remark x"
  have sx: "same_withdrawal x ?x" "withdrawal_open (wd_status ?x) = withdrawal_open (wd_status x)" "wd_id ?x = wd_id x"
    using assms(3) by (simp_all add: approve_withdrawal_row_def same_withdrawal_def withdrawal_open_def)
  have g: "get_withdrawal (wd_id ?x) w = Some x" using assms(2) sx by simp
  note r = reopen_withdrawal [OF assms(1) g sx(1,2) same_books_refl]
  show ?thesis using r(1) by (intro good_no_money) simp_all
qed

lemma good_approve_phase3:
  assumes "books_ok w" and "get_withdrawal (wd_id x) w = Some row" and "same_withdrawal row x" and "wd_status x = WS_approved"
    and "withdrawal_open (wd_status row)"
  shows "good w (snd (approve_phase3 now admin remark x cur tr w))"
  using approve_phase3_settles [OF assms, where now = now and admin = admin and remark = remark and cur = cur and tr = tr]
  by (auto simp: good_def)

lemma good_decisions:
  assumes "books_ok w" and "get_withdrawal (wd_id x) w = Some x"
  shows "good w (snd (decide_reject now admin remark x cur w))" "good w (snd (decide_mark_sent now admin remark x cur w))"
  using decide_reject_settles [OF assms, where now = now and admin = admin and remark = remark and cur = cur]
    decide_mark_sent_settles [OF assms, where now = now and admin = admin and remark = remark and cur = cur] assms(1)
  by (intro good_cases; auto intro: good_settled)+

lemma good_forced:
  assumes "forced_payout handler act payload share buyer_wins" and "books_ok w"
  shows "good w (snd (handler now thr admin i body w))"
  using forced_payout.settles [OF assms, where now = now and thr = thr and admin = admin and i = i and body = body] assms(2)
  by (intro good_cases) (auto simp: forced_def good_def good_same [unfolded good_def] split: prod.splits option.splits)

lemma good_approval_requests:
  "books_ok w \<Longrightarrow> good w (snd (approve_deal_approval now j admin w))"
  "books_ok w \<Longrightarrow> good w (snd (reject_deal_approval now j admin w))"
  by (auto simp: approve_deal_approval_def reject_deal_approval_def Let_def save_approval_def log_admin_action_def
      same_books_def intro!: good_same split: option.splits)


lemma good_adjust:
  assumes "books_ok w" and "storable delta"
  shows "good w (snd (adjust_user_balance admin i code delta reason w))"
proof (cases rule: outcome_cases [of "adjust_user_balance admin i code delta reason w"])
  case (fails e w')
  then show ?thesis
    using adjust_effect [OF _ assms(2), where w = w and admin = admin and i = i and code = code and reason = reason] assms(1) by (simp add: books_ok_def good_def)
next
  case (returns b w')
  have ok: "balances_ok w" using assms(1) by (simp add: books_ok_def)
  have "\<exists>c. accounts w' = a_credit i c delta (accounts w) \<and> audited w w' \<and> balances_ok w'"
    using adjust_effect [OF ok assms(2), where admin = admin and i = i and code = code and reason = reason] returns
    by simp blast
  then obtain c where e: "accounts w' = a_credit i c delta (accounts w)" "audited w w'" "balances_ok w'" by blast
  have "only_money w' w"
    using returns lock_user_balance_frame
    by (fastforce simp: adjust_user_balance_def Let_def log_admin_action_def only_money_def split: option.splits sum.splits if_splits)
  then have o: "t_deals w' = t_deals w" "seq_deals w' = seq_deals w" "t_currencies w' = t_currencies w" "t_withdrawals w' = t_withdrawals w"
    "seq_withdrawals w' = seq_withdrawals w" "t_deposits w' = t_deposits w" "seq_deposits w' = seq_deposits w"
    by (simp_all add: only_money_def)
  have "deposits_ok w'" using deposits_same [OF _ o(6,7)] assms(1) by (simp add: books_ok_def)
  then have "books_ok w'"
    by (rule books_quiet [OF assms(1) e(3)]) (simp_all add: o held_credit_at [OF e(1)])
  then show ?thesis using returns e(2) by (simp add: good_def)
qed

lemma good_quiet_write:
  assumes "books_ok w" and "get_deal (d_id d) w = Some d" and "same_deal d d'" and "closed_by d' w w'"
    and "holds_escrow (d_status d') = holds_escrow (d_status d)"
  shows "good w w'"
proof -
  have oks: "deals_ok w" "withdrawals_ok w" "deposits_ok w" "balances_ok w" using assms(1) by (auto simp: books_ok_def)
  note c = assms(4) [unfolded closed_by_def]
  note e = escrow_written [OF oks(1) get_deal_ok [OF oks(1) assms(2)] assms(2-4)]
  have h: "deal_hold d' u k = deal_hold d u k" for u k using assms(3,5) by (simp add: deal_hold_def same_deal_def)
  have "balances_ok w'" using oks(4) balances_ok_cong [of w' w] c by simp
  moreover have "withdrawals_ok w'" "reserved w' = reserved w" using withdrawals_same [OF oks(2), of w'] c by simp_all
  moreover have "deposits_ok w'" using deposits_same [OF oks(3)] c by simp
  ultimately have "books_ok w'"
    using e c closed_accounts [OF assms(4)] by (intro books_ok_step [OF assms(1)]) (simp_all add: h)
  then show ?thesis using c by (intro good_no_money) simp_all
qed

lemma good_force_arbitration:
  assumes "books_ok w" and "get_deal i w = Some d" and "d_status d \<noteq> pending_topup" and "d_status d \<noteq> pending_payment"
  shows "good w (snd (force_arbitration now admin i reason w))"
proof (cases "is_terminal (d_status d) \<or> d_status d = arbitration")
  case True
  then show ?thesis using assms(1,2) by (auto simp: force_arbitration_def)
next
  case False
  then obtain d' w' where run: "force_arbitration now admin i reason w = (Inr d', w')" and c: "closed_by d' w w'"
    and s: "same_deal d d'" "d_status d' = arbitration"
    using force_arbitration_effect [OF assms(2), where now = now and admin = admin and reason = reason] by blast
  have "holds_escrow (d_status d)" using False assms(3,4) by (cases "d_status d") (simp_all add: is_terminal_def)
  moreover have "get_deal (d_id d) w = Some d" using get_deal_in [OF assms(2)] assms(2) by simp
  ultimately show ?thesis using run s good_quiet_write [OF assms(1) _ s(1) c] by simp
qed

lemma good_assign:
  assumes "books_ok w"
  shows "good w (snd (assign_arbiter now admin i a w))"
proof (cases "get_deal i w")
  case None
  then show ?thesis using assms by (simp add: assign_arbiter_def)
next
  case (Some d)
  have g: "get_deal (d_id d) w = Some d" using get_deal_in [OF Some] Some by simp
  let ?d = "d \<lparr> d_arbitration_resolved_by := a \<rparr>"
  have "same_deal d ?d" "holds_escrow (d_status ?d) = holds_escrow (d_status d)" by (simp_all add: same_deal_def)
  note q = good_quiet_write [OF assms g this(1) _ this(2)]
  show ?thesis using Some assms
    by (auto simp: assign_arbiter_def Let_def case_prod_beta closed_by_def audit_deal_def log_admin_action_def intro!: q
        split: option.splits sum.splits)
qed

lemmas good_intros = good_create good_create_topup good_resolve good_cancel_topup good_sweeps good_invoice good_pay_wallet
  good_pay_topup good_withdraw good_withdraw_sent good_withdraw_failed good_queue good_withdraw_approve
  good_approve_phase3 good_decisions good_adjust good_approval_requests good_assign good_force_arbitration
  good_forced [OF release.forced_payout_axioms] good_forced [OF refund.forced_payout_axioms]
  good_forced [OF split_contract]

lemma good_lifecycle:
  assumes "books_ok w"
  shows "good w (snd (accept_deal_endpoint now i u w))" "good w (snd (decline_deal_endpoint now i u w))"
    "good w (snd (finish_deal_endpoint now i u w))" "good w (snd (cancel_request_endpoint now i reason u w))"
    "good w (snd (cancel_revoke_endpoint now i u w))" "good w (snd (cancel_accept_endpoint now i u w))"
    "good w (snd (debate_endpoint now i reason u w))"
  unfolding accept_deal_endpoint_def decline_deal_endpoint_def finish_deal_endpoint_def cancel_request_endpoint_def
    cancel_revoke_endpoint_def cancel_accept_endpoint_def debate_endpoint_def
  by (rule accept.good_on_locked decline.good_on_locked finish.good_on_locked request.good_on_locked
      revoke.good_on_locked accept_cancel.good_on_locked debate.good_on_locked; rule assms)+

lemma good_approve_failed:
  assumes "books_ok w" and "get_withdrawal (wd_id x) w = Some row"
  shows "good w (approve_failed admin remark x cur w)"
  using approve_failed_effect(1) [OF assms]
  by (intro good_no_money) (simp_all add: approve_failed_def log_admin_action_def Let_def split: option.splits)

section \<open>Manual corrections\<close>

text \<open>What an administrator does to deposits by hand; none of it writes the ledger.\<close>

lemma deposit_write_books:
  assumes ok: "books_ok w" and get: "get_deposit (dep_id d) w = Some d"
    and lock: "lock_user_balance (dep_user_id d) (dep_currency_id d) w = Inr (b, w1)"
    and x: "storable x" "0 \<le> b_amount b + x" and b': "b' = b \<lparr> b_amount := b_amount b + x \<rparr>"
    and w': "same_books w' (save_deposit d' (save_balance b' w1))"
    and d': "dep_id d' = dep_id d" "dep_amount d' = dep_amount d"
  shows "books_ok w'"
proof -
  have oks: "balances_ok w" "deposits_ok w" using ok by (auto simp: books_ok_def)
  note l = lock_user_balance_ok [OF lock] and lb = lock_user_balance_balances_ok [OF lock oks(1)] and f = lock_user_balance_frame [OF lock]
  let ?v = "save_deposit d' (save_balance b' w1)"
  have ok': "balance_ok b'" using lb(2) x by (auto simp: b' balance_ok_def grid)
  have key: "b_user_id b' = dep_user_id d" "b_currency_id b' = dep_currency_id d" using l by (simp_all add: b')
  have eq: "t_balances ?v = t_balances (save_balance b' w1)" by simp
  note r = written_row [OF lock oks(1) ok' key eq]
  have acc: "accounts ?v = a_credit (dep_user_id d) (dep_currency_id d) x (accounts w)"
    using r(1) l(5) by (auto simp: b' a_credit_def intro!: a_upd_cong)
  have drow: "get_deposit (dep_id (deposit_row d')) w = Some d" using get d' by simp
  have "0 \<le> dep_amount (deposit_row d')" "storable (dep_amount (deposit_row d'))"
    using get_deposit_ok [OF oks(2) get] d' by simp_all
  then have "deposits_ok ?v"
    by (intro deposits_update(1) [OF oks(2) drow]) (simp_all add: f)
  then have "books_ok ?v"
    by (rule books_quiet [OF ok r(2) _ held_credit_at [OF acc]]) (simp_all add: f)
  then show ?thesis using same_booksD(4) [OF w'] by simp
qed

lemma mark_paid_books:
  assumes ok: "books_ok w" shows "books_ok (snd (mark_paid now admin reason i w))"
proof (cases "get_deposit i w")
  case (Some d)
  then have get: "get_deposit (dep_id d) w = Some d" by (auto simp: get_deposit_def dest: tget_Some)
  have dok: "0 \<le> dep_amount d" "storable (dep_amount d)" using get_deposit_ok [OF _ get] ok by (simp_all add: books_ok_def)
  obtain b w1 where lock: "lock_user_balance (dep_user_id d) (dep_currency_id d) w = Inr (b, w1)"
    using lock_user_balance_total by blast
  have "balance_ok b" using lock_user_balance_balances_ok(2) [OF lock] ok by (simp add: books_ok_def)
  then have "0 \<le> b_amount b + dep_amount d" using dok by (simp add: balance_ok_def)
  note dw = deposit_write_books [OF ok get lock dok(2) this refl]
  show ?thesis using Some lock ok
    by (auto simp: mark_paid_def Let_def case_prod_beta same_books_def deposit_notice_def log_admin_action_def
        intro!: dw split: option.splits)
qed (simp add: mark_paid_def ok)

lemma refund_deposit_books:
  assumes ok: "books_ok w" shows "books_ok (snd (refund_deposit now admin reason i w))"
proof (cases "get_deposit i w")
  case (Some d)
  then have get: "get_deposit (dep_id d) w = Some d" by (auto simp: get_deposit_def dest: tget_Some)
  have dok: "storable (dep_amount d)" using get_deposit_ok [OF _ get] ok by (simp add: books_ok_def)
  have "storable (0 - dep_amount d)" using dok by (intro grid) simp_all
  then have st: "storable (- dep_amount d)" by simp
  have dw: "books_ok w'" if "get_balance (dep_user_id d) (dep_currency_id d) w = Some b" "dep_amount d \<le> b_amount b"
    "same_books w' (save_deposit d' (save_balance (b \<lparr> b_amount := b_amount b - dep_amount d \<rparr>) w))"
    "dep_id d' = dep_id d" "dep_amount d' = dep_amount d" for b d' w'
  proof -
    have lock: "lock_user_balance (dep_user_id d) (dep_currency_id d) w = Inr (b, w)"
      using that(1) by (simp add: lock_user_balance_def)
    show ?thesis by (rule deposit_write_books [OF ok get lock st _ _ that(3)]) (use that in simp_all)
  qed
  show ?thesis using Some ok
    by (auto simp: refund_deposit_def Let_def case_prod_beta same_books_def deposit_notice_def log_admin_action_def
        intro!: dw split: option.splits)
qed (simp add: refund_deposit_def ok)

section \<open>Deliveries and polls\<close>

lemma good_then_same: "good w v \<Longrightarrow> same_books w' v \<Longrightarrow> good w w'"
  using audited_trans same_booksD by (fastforce simp: good_def)

lemma good_deposit_row:
  assumes ok: "books_ok w" and get: "get_deposit (dep_id d) w = Some d"
    and d': "dep_id d' = dep_id d" "dep_amount d' = dep_amount d" and w': "same_books w' (save_deposit d' w)"
  shows "good w w'"
proof -
  have oks: "deposits_ok w" "balances_ok w" using ok by (auto simp: books_ok_def)
  have drow: "get_deposit (dep_id (deposit_row d')) w = Some d" using get d' by simp
  have "0 \<le> dep_amount (deposit_row d')" "storable (dep_amount (deposit_row d'))"
    using get_deposit_ok [OF oks(1) get] d' by simp_all
  note du = deposits_update [OF oks(1) drow _ _ this, of "save_deposit d' w"]
  have "books_ok (save_deposit d' w)"
    using balances_ok_cong [of "save_deposit d' w" w] accounts_cong [of "save_deposit d' w" w] oks du(1)
    by (intro books_quiet [OF ok]) simp_all
  then have "books_ok w'" using same_booksD(4) [OF w'] by simp
  then show ?thesis by (rule good_no_money) (use w' in \<open>simp_all add: same_books_def\<close>)
qed

lemma good_topup:
  assumes ok: "books_ok w" and get: "get_deposit (dep_id dep) w = Some dep"
    and r: "case reported of None \<Rightarrow> True | Some x \<Rightarrow> 0 \<le> x"
  shows "good w (snd (complete_deal_topup_payment now cfg api dep reported w))"
proof (cases "dep_status dep = DS_paid")
  case True
  then show ?thesis using ok by (simp add: complete_deal_topup_payment_def)
next
  case False
  let ?dep = "mark_deposit_paid now reported dep"
  have alone: "good w (save_deposit ?dep w)"
    by (rule good_deposit_row [OF ok get, of ?dep]) (simp_all add: mark_deposit_paid_def)
  show ?thesis
  proof (cases "dep_linked_deal_id dep")
    case None
    then show ?thesis using False alone by (simp add: complete_deal_topup_payment_def Let_def)
  next
    case (Some i)
    show ?thesis
    proof (cases "get_deal i w")
      case None
      then show ?thesis using False Some alone by (simp add: complete_deal_topup_payment_def Let_def)
    next
      case d: (Some d)
      have l: "list_all (\<lambda>x. 0 \<le> x) (case reported of None \<Rightarrow> [] | Some x \<Rightarrow> [x])" using r by (simp split: option.splits)
      show ?thesis using good_pay_topup [OF ok get _ _ l, where d = d and now = now and cfg = cfg and api = api] Some d get_deal_in [OF d] by simp
    qed
  qed
qed

lemma credit_amount_ok:
  assumes ok: "books_ok w" and get: "get_deposit (dep_id dep) w = Some dep"
    and k: "k = (case get_currency (dep_currency_id dep) w of None \<Rightarrow> 8 | Some c \<Rightarrow> c_decimals c)"
    and rep: "reported_amount p k = Inr rep"
    and x: "x = (case rep of None \<Rightarrow> quantize_money (dep_amount dep) k | Some r \<Rightarrow> max (quantize_money (dep_amount dep) k) r)"
  shows "0 \<le> x" "storable x"
proof -
  have oks: "deposits_ok w" "currencies_ok w" using ok by (auto simp: books_ok_def)
  have "c_decimals c \<le> MONEY_SCALE" if "get_currency (dep_currency_id dep) w = Some c" for c
    using that oks(2) by (auto simp: currencies_ok_def list_all_iff get_currency_def dest: tget_Some)
  then have k8: "k \<le> MONEY_SCALE" by (auto simp: k MONEY_SCALE_def split: option.splits)
  have r: "\<exists>y. r = quantize_money y k" if "rep = Some r" for r
    using rep that by (auto simp: reported_amount_def split: option.splits pydecimal.splits)
  show "0 \<le> x" using quantize_nonneg [of "dep_amount dep" k] get_deposit_ok [OF oks(1) get]
    by (auto simp: x max.coboundedI1 split: option.splits)
  show "storable x" using storable_quantize [OF k8] r by (auto simp: x max_def split: option.splits)
qed

lemma credit_trust_books:
  assumes ok: "books_ok w" and get: "get_deposit (dep_id dep) w = Some dep" and x: "0 \<le> x" "storable x"
  shows "books_ok (snd (credit_trust now dep cur x rep w))" "t_deals (snd (credit_trust now dep cur x rep w)) = t_deals w"
proof -
  let ?run = "credit_trust now dep cur x rep w"
  have "books_ok (snd ?run) \<and> t_deals (snd ?run) = t_deals w"
  proof (cases "get_user (dep_user_id dep) w = None \<or> dep_status dep = DS_paid")
    case True
    have "refresh_deposit dep w = dep" by (rule deposit_inD(7) [OF deposit_in_row [OF get]])
    with True ok show ?thesis by (auto simp: credit_trust_def Let_def split: option.splits)
  next
    case False
    then obtain u where u: "get_user (dep_user_id dep) w = Some u" and st: "dep_status dep \<noteq> DS_paid" by auto
    let ?u = "u \<lparr> u_trust_deposit_balance := u_trust_deposit_balance u + x \<rparr>" and ?dep = "paid_deposit now x rep dep"
    define w3 where "w3 = snd (record_synthetic_ledger (u_id u) (dep_currency_id ?dep) (u_trust_deposit_balance u)
        (u_trust_deposit_balance u + x) (deposit_event ''deposit.trust_credit'' ?dep (credit_meta ?dep rep))
        (save_deposit ?dep (save_user ?u w)))"
    obtain w4 where n: "notify_credit now ?dep cur x w3 = (Inr ?dep, w4)" "same_books w4 w3"
      using notify_credit_effect by blast
    have "refresh_deposit dep w = dep" by (rule deposit_inD(7) [OF deposit_in_row [OF get]])
    then have run: "?run = (Inr ?dep, w4)" using u st n(1) by (simp add: credit_trust_def Let_def w3_def)
    have dok: "deposits_ok w" using ok by (simp add: books_ok_def)
    have drow: "get_deposit (dep_id (deposit_row ?dep)) w = Some dep"
      using get by (simp add: paid_deposit_def mark_deposit_paid_def)
    have "0 \<le> dep_amount (deposit_row ?dep)" "storable (dep_amount (deposit_row ?dep))"
      using x by (simp_all add: paid_deposit_def mark_deposit_paid_def)
    note du = deposits_update [OF dok drow _ _ this, of w3]
    have bal: "t_balances w3 = t_balances w" by (simp add: w3_def)
    have "balances_ok w3" using balances_ok_cong [OF bal] ok by (simp add: books_ok_def)
    then have "books_ok w3"
      using accounts_cong [OF bal] du(1) by (intro books_quiet [OF ok]) (simp_all add: w3_def)
    moreover have "t_deals w3 = t_deals w" by (simp add: w3_def)
    ultimately show ?thesis using same_booksD(4) [OF n(2)] n(2) by (simp add: run same_books_def)
  qed
  then show "books_ok (snd ?run)" "t_deals (snd ?run) = t_deals w" by simp_all
qed

text \<open>Everything a credited row can lead to: a trust deposit writes a ledger entry of its own kind.\<close>

lemma credit_deposit_cases:
  assumes "books_ok w" and get: "get_deposit (dep_id dep) w = Some dep"
  obtains (same) "snd (credit_deposit now cfg api dep p w) = w"
  | (topup) "dep_purpose dep = P_deal_topup"
      "snd (credit_deposit now cfg api dep p w) = snd (complete_deal_topup_payment now cfg api dep (finite_amount p) w)"
  | (trust) x cur rep where "dep_purpose dep = P_trust" "0 \<le> x" "storable x"
      "snd (credit_deposit now cfg api dep p w) = snd (credit_trust now dep cur x rep w)"
  | (wallet) x cur rep where "dep_purpose dep = P_wallet" "dep_status dep \<noteq> DS_paid" "0 \<le> x" "storable x"
      "snd (credit_deposit now cfg api dep p w) = snd (credit_wallet now dep cur x rep w)"
proof (cases "dep_status dep = DS_paid")
  case True
  then show thesis using same by (simp add: credit_deposit_def)
next
  case False
  define k where "k = (case get_currency (dep_currency_id dep) w of None \<Rightarrow> 8 | Some c \<Rightarrow> c_decimals c)"
  show thesis
  proof (cases "reported_amount p k")
    case (Inl e)
    then show thesis using same False by (simp add: credit_deposit_def Let_def k_def)
  next
    case (Inr rep)
    define x where "x = (case rep of None \<Rightarrow> quantize_money (dep_amount dep) k | Some r \<Rightarrow> max (quantize_money (dep_amount dep) k) r)"
    note ok = credit_amount_ok [OF assms k_def Inr x_def]
    have run: "credit_deposit now cfg api dep p w = (case dep_purpose dep of
        P_deal_topup \<Rightarrow> complete_deal_topup_payment now cfg api dep (finite_amount p) w
      | P_trust \<Rightarrow> credit_trust now dep (get_currency (dep_currency_id dep) w) x rep w
      | P_wallet \<Rightarrow> credit_wallet now dep (get_currency (dep_currency_id dep) w) x rep w)"
      using False Inr [unfolded k_def] unfolding credit_deposit_def Let_def x_def k_def by (simp split: deposit_purpose.split)
    show thesis
    proof (cases "dep_purpose dep")
      case P_wallet
      show thesis by (rule wallet [of x "get_currency (dep_currency_id dep) w" rep]) (use P_wallet False ok in \<open>simp_all add: run\<close>)
    next
      case P_deal_topup
      show thesis by (rule topup) (use P_deal_topup in \<open>simp_all add: run\<close>)
    next
      case P_trust
      show thesis by (rule trust [of x "get_currency (dep_currency_id dep) w" rep]) (use P_trust ok in \<open>simp_all add: run\<close>)
    qed
  qed
qed

lemma good_credit:
  assumes ok: "books_ok w" and get: "get_deposit (dep_id dep) w = Some dep"
    and r: "dep_purpose dep = P_deal_topup \<Longrightarrow> case finite_amount p of None \<Rightarrow> True | Some x \<Rightarrow> 0 \<le> x"
  shows "books_ok (snd (credit_deposit now cfg api dep p w))"
    and "dep_purpose dep \<noteq> P_trust \<Longrightarrow> good w (snd (credit_deposit now cfg api dep p w))"
proof -
  let ?w = "snd (credit_deposit now cfg api dep p w)"
  have "books_ok ?w \<and> (dep_purpose dep \<noteq> P_trust \<longrightarrow> good w ?w)"
  proof (cases rule: credit_deposit_cases [OF ok get, of now cfg api p, case_names same topup trust wallet])
    case same
    then show ?thesis using ok by simp
  next
    case topup
    then show ?thesis using good_topup [OF ok get r [OF topup(1)], of now cfg api] by (simp add: good_def)
  next
    case (trust x cur rep)
    then show ?thesis using credit_trust_books(1) [OF ok get trust(2,3)] by simp
  next
    case (wallet x cur rep)
    obtain res w' where run: "credit_wallet now dep cur x rep w = (res, w')" by fastforce
    show ?thesis
      using credit_wallet_effect [OF run ok deposit_in_row [OF get] wallet(2-4)] wallet(5) run by (simp add: good_def)
  qed
  then show "books_ok ?w" "dep_purpose dep \<noteq> P_trust \<Longrightarrow> good w ?w" by simp_all
qed

lemma good_expire:
  assumes "books_ok w" and "get_deposit (dep_id dep) w = Some dep" and "same_books w' (snd (expire_deposit now dep w))"
  shows "good w w'"
proof -
  obtain r v where run: "expire_deposit now dep w = (r, v)" by fastforce
  have "good w v" using expire_deposit_effect [OF run assms(1,2)] by (intro good_no_money) simp_all
  then show ?thesis using good_then_same assms(3) run by simp
qed

lemma dispatch_same: "same_books (safe_dispatch ns w) w"
  by (simp add: same_books_def)

text \<open>What a delivery or a poll comes down to.\<close>

datatype deposit_move = Untouched | Credited wallet_deposit "pydecimal option" | Expired wallet_deposit

definition deposit_moved :: "int \<Rightarrow> settings \<Rightarrow> provider_api \<Rightarrow> deposit_move \<Rightarrow> world \<Rightarrow> world \<Rightarrow> bool" where
  "deposit_moved now cfg api m w w' \<longleftrightarrow> (case m of Untouched \<Rightarrow> w' = w
     | Credited dep p \<Rightarrow> get_deposit (dep_id dep) w = Some dep \<and> w' = snd (credit_deposit now cfg api dep p w)
     | Expired dep \<Rightarrow> get_deposit (dep_id dep) w = Some dep \<and> same_books w' (snd (expire_deposit now dep w)))"

text \<open>Some such move, whose credit, if it is one, satisfies \<open>P\<close>.\<close>

definition moves :: "int \<Rightarrow> settings \<Rightarrow> provider_api \<Rightarrow> (wallet_deposit \<Rightarrow> pydecimal option \<Rightarrow> bool) \<Rightarrow> world \<Rightarrow> world \<Rightarrow> bool" where
  "moves now cfg api P w w' \<longleftrightarrow> (\<exists>m. deposit_moved now cfg api m w w' \<and> (\<forall>dep p. m = Credited dep p \<longrightarrow> P dep p))"

lemma moves_nothing: "moves now cfg api P w w"
  unfolding moves_def by (rule exI [of _ Untouched]) (simp add: deposit_moved_def)

lemma moves_credit:
  "get_deposit (dep_id dep) w = Some dep \<Longrightarrow> P dep p \<Longrightarrow> moves now cfg api P w (snd (credit_deposit now cfg api dep p w))"
  unfolding moves_def by (rule exI [of _ "Credited dep p"]) (simp add: deposit_moved_def)

lemma moves_expiry:
  "get_deposit (dep_id dep) w = Some dep \<Longrightarrow> same_books w' (snd (expire_deposit now dep w)) \<Longrightarrow> moves now cfg api P w w'"
  unfolding moves_def by (rule exI [of _ "Expired dep"]) (simp add: deposit_moved_def)

lemma check_and_credit_moves:
  assumes "get_deposit (dep_id dep) w = Some dep" and "P dep (parse_paid_amount r)"
  shows "moves now cfg api P w (snd (check_and_credit now cfg api dep r w))"
proof -
  have "snd (check_and_credit now cfg api dep r w) \<in> {w, snd (credit_deposit now cfg api dep (parse_paid_amount r) w)}"
    by (auto simp: check_and_credit_def split: sum.splits prod.splits)
  then show ?thesis using moves_nothing moves_credit [of dep w P "parse_paid_amount r" now cfg api] assms by auto
qed

lemma expire_by_webhook_moves:
  assumes "get_deposit (dep_id dep) w = Some dep"
  shows "moves now cfg api P w (snd (expire_by_webhook now dep w))"
proof (cases "dep_status dep \<in> {DS_paid, DS_expired, DS_refunded}")
  case True
  then show ?thesis using moves_nothing by (simp add: expire_by_webhook_def)
next
  case False
  have "same_books (snd (expire_by_webhook now dep w)) (snd (expire_deposit now dep w))"
    using False dispatch_same by (simp add: expire_by_webhook_def case_prod_beta)
  then show ?thesis by (rule moves_expiry [OF assms])
qed

definition delivered :: "WalletDepositProvider \<Rightarrow> string option \<Rightarrow> world \<Rightarrow> wallet_deposit option" where
  "delivered provider i w = (case i of None \<Rightarrow> None | Some pid \<Rightarrow> find_wallet_deposit pid provider w)"

lemma delivery_moves:
  assumes "books_ok w"
  shows "moves now cfg api (\<lambda>dep p. delivered cryptobot (wp_invoice_id payload) w = Some dep \<and> p = parse_paid_amount (wp_amount payload))
      w (snd (handle_invoice_paid now cfg api payload w))"
    and "moves now cfg api (\<lambda>dep p. False) w (snd (handle_invoice_expired now payload w))"
    and "moves now cfg api (\<lambda>dep p. delivered crystalpay (crystalpay_provider_id payload) w = Some dep \<and> p = parse_paid_amount (wp_amount payload))
      w (snd (handle_crystalpay_invoice now cfg api payload w))"
proof -
  have "deposits_ok w" using assms by (simp add: books_ok_def)
  note row = find_wallet_deposit_in [OF this]
  show "moves now cfg api (\<lambda>dep p. delivered cryptobot (wp_invoice_id payload) w = Some dep \<and> p = parse_paid_amount (wp_amount payload))
      w (snd (handle_invoice_paid now cfg api payload w))"
    unfolding handle_invoice_paid_def delivered_def
    by (auto intro: moves_nothing intro!: check_and_credit_moves split: option.split dest: row)
  show "moves now cfg api (\<lambda>dep p. False) w (snd (handle_invoice_expired now payload w))"
    unfolding handle_invoice_expired_def by (auto intro: moves_nothing intro!: expire_by_webhook_moves split: option.split dest: row)
  show "moves now cfg api (\<lambda>dep p. delivered crystalpay (crystalpay_provider_id payload) w = Some dep \<and> p = parse_paid_amount (wp_amount payload))
      w (snd (handle_crystalpay_invoice now cfg api payload w))"
    unfolding handle_crystalpay_invoice_def delivered_def Let_def
    by (auto intro: moves_nothing intro!: check_and_credit_moves expire_by_webhook_moves split: option.split dest: row)
qed

lemma locked_row: "get_deposit i w = Some row \<Longrightarrow> get_deposit (dep_id row) w = Some row"
  by (auto simp: get_deposit_def dest: tget_Some)

lemma poll_moves: "moves now cfg api (\<lambda>row p. get_deposit (dep_id dep) w = Some row \<and> p = None) w (snd (poll_deposit_status now cfg api dep w))"
proof -
  let ?moves = "moves now cfg api (\<lambda>row p. get_deposit (dep_id dep) w = Some row \<and> p = None) w"
  have c: "?moves (snd (lock_and_credit_deposit now cfg api dep w))"
  proof (cases "get_deposit (dep_id dep) w")
    case (Some row)
    then have "?moves (snd (credit_deposit now cfg api row None w))" by (intro moves_credit) (simp_all add: locked_row)
    then show ?thesis using Some moves_nothing by (simp add: lock_and_credit_deposit_def)
  qed (simp add: lock_and_credit_deposit_def moves_nothing)
  have e: "?moves (snd (lock_and_expire_deposit now dep w))"
  proof (cases "get_deposit (dep_id dep) w")
    case (Some row)
    have "?moves (safe_dispatch ns (snd (expire_deposit now row w)))" for ns
      by (rule moves_expiry [OF locked_row [OF Some] dispatch_same])
    then show ?thesis using Some moves_nothing by (simp add: lock_and_expire_deposit_def case_prod_beta)
  qed (simp add: lock_and_expire_deposit_def moves_nothing)
  have u: "?moves w" by (rule moves_nothing)
  show ?thesis
    using c e u by (simp add: poll_deposit_status_def poll_crystalpay_deposit_def poll_cryptobot_deposit_def
        split: WalletDepositProvider.split option.split list.split)
qed

lemma good_moved:
  assumes ok: "books_ok w" and m: "deposit_moved now cfg api m w w'"
    and r: "\<And>dep p. m = Credited dep p \<Longrightarrow> dep_purpose dep = P_deal_topup \<Longrightarrow> case finite_amount p of None \<Rightarrow> True | Some x \<Rightarrow> 0 \<le> x"
  shows "books_ok w'" and "(\<And>dep p. m = Credited dep p \<Longrightarrow> dep_purpose dep \<noteq> P_trust) \<Longrightarrow> good w w'"
proof -
  have "books_ok w' \<and> ((\<forall>dep p. m = Credited dep p \<longrightarrow> dep_purpose dep \<noteq> P_trust) \<longrightarrow> good w w')"
  proof (cases m)
    case Untouched
    then show ?thesis using ok m by (simp add: deposit_moved_def)
  next
    case (Credited dep p)
    then have g: "get_deposit (dep_id dep) w = Some dep" "w' = snd (credit_deposit now cfg api dep p w)"
      using m by (simp_all add: deposit_moved_def)
    show ?thesis using good_credit [OF ok g(1) r [OF Credited], of now cfg api] Credited g(2) by simp
  next
    case (Expired dep)
    then have "good w w'" using m by (auto simp: deposit_moved_def intro: good_expire [OF ok])
    then show ?thesis by (simp add: good_def)
  qed
  then show "books_ok w'" "(\<And>dep p. m = Credited dep p \<Longrightarrow> dep_purpose dep \<noteq> P_trust) \<Longrightarrow> good w w'" by blast+
qed

section \<open>Objects read in an earlier transaction\<close>

text \<open>The second transaction of a payout works on an object of the first: what has to be true of the row.\<close>

lemma good_sent:
  assumes ok: "books_ok w"
    and row: "case get_withdrawal (wd_id x) w of None \<Rightarrow> True | Some row \<Rightarrow> wd_status row = WS_pending \<longrightarrow> wd_amount row = amount"
  shows "good w (snd (withdrawal_sent now u cur amount x tr w))"
proof (cases "get_withdrawal (wd_id x) w")
  case None
  then show ?thesis using ok by (simp add: withdrawal_sent_def)
next
  case (Some row)
  show ?thesis
  proof (cases "wd_status row = WS_pending")
    case False
    then show ?thesis using Some ok by (simp add: withdrawal_sent_def)
  next
    case True
    have id: "wd_id row = wd_id x" using Some by (auto simp: get_withdrawal_def dest: tget_Some)
    have g: "get_withdrawal (wd_id row) w = Some row" using Some id by simp
    have same: "same_books (snd (withdrawal_sent now u cur amount x tr w)) (snd (withdrawal_sent now u cur (wd_amount row) row tr w))"
      using Some True row id
      by (simp add: withdrawal_sent_def Let_def case_prod_beta same_books_def split: option.split)
    show ?thesis by (rule good_then_same [OF good_withdraw_sent [OF ok g True] same])
  qed
qed

lemma good_failed:
  assumes ok: "books_ok w" and run: "withdrawal_auto_failed_refund now u cur amount x w = Some (x', w')"
    and row: "case get_withdrawal (wd_id x) w of None \<Rightarrow> True | Some row \<Rightarrow> wd_status row = WS_pending
      \<and> wd_user_id row = u_id u \<and> wd_currency_id row = c_id cur \<and> wd_amount row = amount"
  shows "good w w'"
proof -
  obtain row where g: "get_withdrawal (wd_id x) w = Some row"
    using run by (auto simp: withdrawal_auto_failed_refund_def split: option.splits)
  then have id: "wd_id row = wd_id x" by (auto simp: get_withdrawal_def dest: tget_Some)
  have r: "wd_status row = WS_pending" "wd_user_id row = u_id u" "wd_currency_id row = c_id cur" "wd_amount row = amount"
    using row g by simp_all
  have "withdrawal_auto_failed_refund now u cur (wd_amount row) row w = Some (x', w')"
    using run id r(4) by (simp add: withdrawal_auto_failed_refund_def)
  then show ?thesis using good_withdraw_failed [OF ok _ r(1-3)] g id by simp
qed

lemma good_phase3:
  assumes ok: "books_ok w"
    and row: "case get_withdrawal (wd_id x) w of None \<Rightarrow> True
      | Some row \<Rightarrow> wd_status x = WS_approved \<longrightarrow> same_withdrawal row x \<and> withdrawal_open (wd_status row)"
  shows "good w (snd (approve_phase3 now admin remark x cur tr w))"
proof (cases "get_withdrawal (wd_id x) w")
  case None
  then show ?thesis using ok by (simp add: approve_phase3_def)
next
  case (Some row)
  show ?thesis
  proof (cases "wd_status x = WS_approved")
    case True
    then show ?thesis using good_approve_phase3 [OF ok Some _ True] row Some by simp
  next
    case False
    then show ?thesis using ok Some by (auto simp: approve_phase3_def)
  qed
qed

lemma good_phase2_failed:
  assumes ok: "books_ok w" shows "good w (approve_failed admin remark x cur w)"
proof (cases "get_withdrawal (wd_id x) w")
  case None
  then have "same_books (approve_failed admin remark x cur w) w" by (simp add: approve_failed_def Let_def)
  then show ?thesis using good_same ok by blast
next
  case (Some row)
  then show ?thesis by (rule good_approve_failed [OF ok])
qed

text \<open>A decision with no transfer in it, and the first transaction of an approval with one.\<close>

lemma decision_row: "decision_target i w = Inr (x, cur, u) \<Longrightarrow> get_withdrawal (wd_id x) w = Some x"
  by (auto simp: decision_target_def get_withdrawal_def split: option.splits dest: tget_Some)

lemma good_decide:
  assumes ok: "books_ok w" and alone: "dec_action body = ''approve'' \<longrightarrow> \<not> is_cryptopay_configured cfg"
  shows "good w (snd (decide_withdrawal now cfg api admin i body others w))"
proof (cases "decision_target i w")
  case (Inl e)
  then show ?thesis using ok by (simp add: decide_withdrawal_def)
next
  case (Inr t)
  obtain x cur u where t: "decision_target i w = Inr (x, cur, u)" using Inr by (cases t) auto
  note g = decision_row [OF t]
  show ?thesis
  proof (cases "dec_action body = ''approve''")
    case True
    show ?thesis
    proof (cases "wd_status x = WS_pending")
      case p: True
      note a = good_withdraw_approve [OF ok g p, of "dec_note body"]
      show ?thesis using t True alone p by (auto simp: decide_withdrawal_def decide_approve_def Let_def intro!: good_then_same [OF a])
    qed (use t True ok in \<open>simp add: decide_withdrawal_def decide_approve_def\<close>)
  next
    case False
    then show ?thesis using t ok good_decisions [OF ok g] by (simp add: decide_withdrawal_def)
  qed
qed

text \<open>The reconciliation of a withdrawal that is as the sweep listed it keeps the books, without a ledger entry.\<close>

lemma books_ok_unledgered:
  assumes "same_books v (w' \<lparr> t_ledger := t_ledger v \<rparr>)"
  shows "books_ok w' = books_ok v"
  using assms
  by (auto simp: same_books_def books_ok_def balances_ok_def deals_ok_def deal_ok_def get_currency_def withdrawals_ok_def
      deposits_ok_def escrow_def reserved_def books_balance_def currencies_ok_def accounts_def get_balance_def)

lemma reconcile_books:
  assumes ok: "books_ok w" and run: "reconcile_withdrawal now c m w = Inr (r, w')"
    and row: "case get_withdrawal (wd_id c) w of None \<Rightarrow> True
      | Some row \<Rightarrow> wd_status c = WS_pending \<longrightarrow> same_withdrawal row c \<and> withdrawal_open (wd_status row)"
  shows "books_ok w'"
proof (cases "get_withdrawal (wd_id c) w = None \<or> wd_status c \<noteq> WS_pending")
  case True
  then show ?thesis using ok run by (auto simp: reconcile_withdrawal_def split: option.splits)
next
  case False
  then obtain row where g: "get_withdrawal (wd_id c) w = Some row" and st: "wd_status c = WS_pending"
    and same: "same_withdrawal row c" and op: "withdrawal_open (wd_status row)" using row by auto
  have s: "wd_id row = wd_id c" "wd_user_id row = wd_user_id c" "wd_currency_id row = wd_currency_id c" "wd_amount row = wd_amount c"
    using same by (simp_all add: same_withdrawal_def)
  have g': "get_withdrawal (wd_id row) w = Some row" using g s by simp
  obtain b where b: "get_balance (wd_user_id row) (wd_currency_id row) w = Some b"
    using open_withdrawal_funds(4) [OF ok g' op] by blast
  have lock: "lock_user_balance (wd_user_id c) (wd_currency_id c) w = Inr (b, w)" using b s by (simp add: lock_user_balance_def)
  obtain x' where x': "same_withdrawal row x'" "wd_status x' = WS_sent \<or> wd_status x' = WS_rejected"
    and w': "same_books w' (save_withdrawal x' (save_balance (b \<lparr>
        b_amount := (if wd_status x' = WS_sent then b_amount b else b_amount b + wd_amount row),
        b_locked := max 0 (b_locked b - wd_amount row) \<rparr>) w))"
  proof (cases m)
    case None
    let ?x = "row \<lparr> wd_status := WS_rejected, wd_processed_at := Some now, wd_admin_note := append_note (wd_admin_note c)
        (''sweep-reconcile: no cryptobot transfer for spend_id=wd:'' @ show_int (wd_id c) @ '', funds refunded'') \<rparr>"
    show thesis by (rule that [of ?x])
      (use run g st lock s None in \<open>auto simp: reconcile_withdrawal_def Let_def case_prod_beta same_books_def same_withdrawal_def\<close>)
  next
    case (Some t)
    let ?x = "row \<lparr> wd_status := WS_sent, wd_processed_at := Some now,
        wd_admin_note := append_note (wd_admin_note c) (transfer_note ''sweep-reconcile: '' (tr_transfer_id t)) \<rparr>"
    show thesis by (rule that [of ?x])
      (use run g st lock s Some in \<open>auto simp: reconcile_withdrawal_def Let_def case_prod_beta same_books_def same_withdrawal_def\<close>)
  qed
  let ?b = "b \<lparr> b_amount := (if wd_status x' = WS_sent then b_amount b else b_amount b + wd_amount row),
      b_locked := max 0 (b_locked b - wd_amount row) \<rparr>"
  define v where "v = save_withdrawal x' (ledgered ?b (b_amount b) (b_locked b) (withdrawal_event ''withdrawal.sent'' (wd_id row)) (save_balance ?b w))"
  have "settled row x' w v"
    by (rule settle_withdrawal [OF ok g' op b refl x' refl, where ev = "withdrawal_event ''withdrawal.sent'' (wd_id row)"]) (simp add: v_def)
  then have "books_ok v" by (simp add: settled_def)
  moreover have "same_books v (w' \<lparr> t_ledger := t_ledger v \<rparr>)" using w' by (simp add: same_books_def v_def)
  ultimately show ?thesis using books_ok_unledgered by blast
qed

end
