(* ===== verification/Evolution.thy ===== *)
theory Evolution
  imports Steps
begin

text \<open>
  The lifecycle of a deal as a graph of statuses, and that every transaction moves every
  deal along it: \<open>evolves w w'\<close>. Parties, currency and amount stay; a terminal row is final.
\<close>

section \<open>How deals evolve\<close>

fun next_statuses :: "DealStatus \<Rightarrow> DealStatus list" where
  "next_statuses pending_topup = [pending_confirmation, cancelled, cancelled_for_inactivity]"
| "next_statuses pending_confirmation =
     [in_progress, cancelled, cancelled_for_inactivity, arbitration, resolved_for_buyer, resolved_for_seller]"
| "next_statuses in_progress =
     [completed, pending_cancellation, arbitration, resolved_for_buyer, resolved_for_seller]"
| "next_statuses pending_cancellation =
     [in_progress, cancelled, cancelled_for_inactivity, arbitration, resolved_for_buyer, resolved_for_seller]"
| "next_statuses arbitration = [resolved_for_buyer, resolved_for_seller]"
| "next_statuses _ = []"

definition leads_to :: "DealStatus \<Rightarrow> DealStatus \<Rightarrow> bool" where
  "leads_to s t \<longleftrightarrow> (\<lambda>a b. b \<in> set (next_statuses a))\<^sup>*\<^sup>* s t"

lemma leads_to_refl [simp]: "leads_to s s"
  by (simp add: leads_to_def)

lemma leads_to_next: "t \<in> set (next_statuses s) \<Longrightarrow> leads_to s t"
  by (simp add: leads_to_def r_into_rtranclp)

lemma leads_to_trans: "leads_to s t \<Longrightarrow> leads_to t u \<Longrightarrow> leads_to s u"
  unfolding leads_to_def by (rule rtranclp_trans)

definition terminal :: "DealStatus \<Rightarrow> bool" where
  "terminal s \<longleftrightarrow> s \<in> set TERMINAL_DEAL_STATUSES"

lemma terminal_next: "terminal s \<Longrightarrow> next_statuses s = []"
  by (cases s) (simp_all add: terminal_def TERMINAL_DEAL_STATUSES_def)

definition grows_to :: "deal \<Rightarrow> deal \<Rightarrow> bool" where
  "grows_to d d' \<longleftrightarrow> same_deal d d' \<and> leads_to (d_status d) (d_status d') \<and> (terminal (d_status d) \<longrightarrow> d' = d)"

lemma grows_to_refl [simp]: "grows_to d d"
  by (simp add: grows_to_def)

lemma grows_to_trans: "grows_to d e \<Longrightarrow> grows_to e f \<Longrightarrow> grows_to d f"
  unfolding grows_to_def by (auto simp: same_deal_def intro: leads_to_trans)

definition evolves :: "world \<Rightarrow> world \<Rightarrow> bool" where
  "evolves w w' \<longleftrightarrow> (\<forall>i d. get_deal i w = Some d \<longrightarrow> (\<exists>d'. get_deal i w' = Some d' \<and> grows_to d d'))"

lemma evolves_trans: "evolves w w1 \<Longrightarrow> evolves w1 w2 \<Longrightarrow> evolves w w2"
  unfolding evolves_def by (meson grows_to_trans)

lemma evolves_same: "t_deals w' = t_deals w \<Longrightarrow> evolves w w'"
  by (simp add: evolves_def get_deal_def)

lemma evolves_refl [simp]: "evolves w w"
  by (simp add: evolves_same)

lemma evolves_append: "t_deals w' = t_deals w @ ds \<Longrightarrow> evolves w w'"
  by (simp add: evolves_def get_deal_def tget_append)

lemma evolves_one:
  assumes "books_ok w" and "get_deal (d_id d) w = Some d" and "get_deal (d_id d) w' = Some (deal_row d')"
    and "\<And>k. k \<noteq> d_id d \<Longrightarrow> get_deal k w' = get_deal k w" and "same_deal d d'"
    and "d_status d' = d_status d \<and> \<not> terminal (d_status d) \<or> d_status d' \<in> set (next_statuses (d_status d))"
  shows "evolves w w'"
  unfolding evolves_def
proof (intro allI impI)
  fix i d0 assume i: "get_deal i w = Some d0"
  show "\<exists>d'. get_deal i w' = Some d' \<and> grows_to d0 d'"
  proof (cases "i = d_id d")
    case True
    have "storable (d_amount d)" using get_deal_facts [OF assms(1,2)] by simp
    then have "same_deal d (deal_row d')" using assms(5) by (simp add: same_deal_def)
    then have "grows_to d (deal_row d')"
      using assms(6) terminal_next by (auto simp: grows_to_def intro: leads_to_next)
    then show ?thesis using True i assms(2,3) by auto
  next
    case False
    then show ?thesis using i assms(4) by simp
  qed
qed

lemma evolves_closed:
  assumes "books_ok w" and "get_deal (d_id d) w = Some d" and "closed_by d' w1 w'" and "t_deals w1 = t_deals w" and "same_deal d d'"
    and "d_status d' = d_status d \<and> \<not> terminal (d_status d) \<or> d_status d' \<in> set (next_statuses (d_status d))"
  shows "evolves w w'"
proof (rule evolves_one [OF assms(1,2) _ _ assms(5,6)])
  have id: "d_id (deal_row d') = d_id d" using assms(5) by (simp add: same_deal_def)
  have rows: "t_deals w' = tput d_id (deal_row d') (t_deals w)" using assms(3,4) by (simp add: closed_by_def)
  show "get_deal (d_id d) w' = Some (deal_row d')"
    using tget_tput_same [of d_id "deal_row d'" "t_deals w" d] assms(2) id rows by (simp add: get_deal_def)
  show "get_deal k w' = get_deal k w" if "k \<noteq> d_id d" for k
    using that id rows by (simp add: get_deal_def tget_tput)
qed

context deal_op
begin

lemma evolves_op:
  assumes "books_ok w" and "get_deal (d_id d) w = Some d"
    and "\<And>s t. s \<in> set sources \<Longrightarrow> t \<in> set targets \<Longrightarrow> t \<in> set (next_statuses s)"
  shows "evolves w (snd (op d w))"
proof (cases rule: outcome_cases [of "op d w"])
  case (fails e w')
  then show ?thesis using fails_clean [OF fails] by simp
next
  case (returns d' w')
  show ?thesis
    using returns evolves_one [OF assms(1,2) row_after [OF returns assms(2)] other_rows [OF returns] identity [OF returns]]
      assms(3) [OF source [OF returns] target [OF returns]] by simp
qed

lemma evolves_on_locked:
  assumes "books_ok w" and "\<And>s t. s \<in> set sources \<Longrightarrow> t \<in> set targets \<Longrightarrow> t \<in> set (next_statuses s)"
  shows "evolves w (snd (on_locked_deal op i w))"
  using evolves_op [OF assms(1) _ assms(2)] get_deal_in [of i w]
  by (fastforce simp: on_locked_deal_def get_locked_def split: option.splits prod.splits)

end

lemma evolves_cases:
  "(\<And>e w'. r = (Inl e, w') \<Longrightarrow> evolves w w') \<Longrightarrow> (\<And>x w'. r = (Inr x, w') \<Longrightarrow> evolves w w') \<Longrightarrow> evolves w (snd r)"
  by (cases rule: outcome_cases [of r]) auto

lemma evolves_lifecycle:
  assumes "books_ok w"
  shows "evolves w (snd (accept_deal_endpoint now i u w))" "evolves w (snd (decline_deal_endpoint now i u w))"
    "evolves w (snd (finish_deal_endpoint now i u w))" "evolves w (snd (cancel_request_endpoint now i reason u w))"
    "evolves w (snd (cancel_revoke_endpoint now i u w))" "evolves w (snd (cancel_accept_endpoint now i u w))"
    "evolves w (snd (debate_endpoint now i reason u w))"
  unfolding accept_deal_endpoint_def decline_deal_endpoint_def finish_deal_endpoint_def cancel_request_endpoint_def
    cancel_revoke_endpoint_def cancel_accept_endpoint_def debate_endpoint_def
  by (rule accept.evolves_on_locked decline.evolves_on_locked finish.evolves_on_locked request.evolves_on_locked
      revoke.evolves_on_locked accept_cancel.evolves_on_locked debate.evolves_on_locked;
      auto simp: assms ARBITRATION_ELIGIBLE_def)+

lemma evolves_resolve:
  assumes "books_ok w" shows "evolves w (snd (resolve_endpoint now i winner remark u w))"
proof (cases "get_deal i w")
  case (Some d)
  then have "get_deal (d_id d) w = Some d" using get_deal_in [OF Some] by simp
  then have "evolves w (snd (resolve_arbitration now winner remark d u w))"
    by (rule resolve.evolves_op [OF assms]) auto
  then show ?thesis using Some by (simp add: resolve_endpoint_def get_locked_def case_prod_beta)
qed (simp add: resolve_endpoint_def get_locked_def)


lemma evolves_create: "books_ok w \<Longrightarrow> evolves w (snd (create_deal now b s code amount desc prov w))"
  using create_deal_effect [where w = w and now = now and b = b and s = s and code = code and amount = amount and desc = desc and prov = prov]
  by (intro evolves_cases) (auto intro: evolves_append evolves_same)

lemma get_deal_save: "get_deal k (save_deal d w) = (if k = d_id d then map_option (\<lambda>_. deal_row d) (get_deal k w) else get_deal k w)"
proof (cases "get_deal k w")
  case None
  then show ?thesis by (auto simp: get_deal_def save_deal_def tget_tput tget_None_iff)
next
  case (Some x)
  then have "k \<in> d_id ` set (t_deals w)" using get_deal_in [OF Some] by auto
  then show ?thesis using Some by (cases "k = d_id d") (simp_all add: get_deal_def save_deal_def tget_tput)
qed

lemma evolves_new: "(\<And>k. k \<noteq> seq_deals w \<Longrightarrow> get_deal k w' = get_deal k w) \<Longrightarrow> books_ok w \<Longrightarrow> evolves w w'"
proof -
  assume k: "\<And>k. k \<noteq> seq_deals w \<Longrightarrow> get_deal k w' = get_deal k w" and ok: "books_ok w"
  have "get_deal (seq_deals w) w = None"
    using ok by (auto simp: books_ok_def deals_ok_def get_deal_def tget_None_iff list_all_iff)
  then show ?thesis using k unfolding evolves_def by (metis grows_to_refl option.distinct(1))
qed

lemma invoice_deals: "create_deposit_invoice now cfg api u code amount purpose prov check w = Inr (dep, w') \<Longrightarrow> t_deals w' = t_deals w"
  using create_deposit_invoice_effect by fastforce

lemma invoice_funded_deals:
  assumes "create_deal_invoice_funded now cfg api b s cur desc prov t w1 = Inr ((d, dep), w')" and "k \<noteq> seq_deals w1"
  shows "get_deal k w' = get_deal k w1"
proof -
  obtain nd dep0 w3 where inv: "create_deposit_invoice now cfg api b (c_code cur) (tt_invoice_total t) ''deal_topup'' prov (\<not> tt_invoice_total t < c_min_deposit cur)
      (w1 \<lparr> t_deals := t_deals w1 @ [deal_row nd], seq_deals := seq_deals w1 + 1 \<rparr>) = Inr (dep0, w3)"
    and id: "d_id nd = seq_deals w1" "d_id d = seq_deals w1" and w': "t_deals w' = t_deals (save_deal d w3)"
    using assms(1) by (auto simp: create_deal_invoice_funded_def insert_deal_def Let_def case_prod_beta split: if_splits sum.splits prod.splits)
  have "get_deal k w' = get_deal k w3" using w' id assms(2) get_deal_save [of k d w3] by (simp add: get_deal_def)
  also have "\<dots> = get_deal k w1"
    using invoice_deals [OF inv] id assms(2) by (simp add: get_deal_def tget_append split: option.splits)
  finally show ?thesis .
qed

lemma evolves_create_topup:
  assumes ok: "books_ok w"
  shows "evolves w (snd (create_deal_with_topup now cfg api b s code amount desc prov w))"
proof (cases rule: outcome_cases [of "create_deal_with_topup now cfg api b s code amount desc prov w"])
  case (fails e w')
  then show ?thesis
    using create_deal_with_topup_effect [OF ok, where now = now and cfg = cfg and api = api and b = b and s = s and code = code and amount = amount and desc = desc and prov = prov]
    by (auto intro: evolves_same)
next
  case (returns x w')
  obtain cur t bal w1 where lock: "lock_user_balance (u_id b) (c_id cur) (snd (settings_row w)) = Inr (bal, w1)"
    and run: "(\<exists>d. create_deal_balance_funded now b s cur desc prov t bal w1 = (d, w')) \<or>
      (\<exists>d dep. create_deal_invoice_funded now cfg api b s cur desc prov t w1 = Inr ((d, dep), w'))"
    using returns
    by (auto simp: create_deal_with_topup_def Let_def split: if_splits sum.splits pydecimal.splits prod.splits)
      blast+
  have w1: "t_deals w1 = t_deals w" "seq_deals w1 = seq_deals w" using lock_user_balance_frame [OF lock] by simp_all
  have "evolves w w'"
  proof (cases "\<exists>d. create_deal_balance_funded now b s cur desc prov t bal w1 = (d, w')")
    case True
    then have "\<exists>d. t_deals w' = t_deals w @ [d]"
      by (auto simp: create_deal_balance_funded_def insert_deal_def Let_def case_prod_beta w1)
    then show ?thesis by (auto intro: evolves_append)
  next
    case False
    then obtain d dep where r: "create_deal_invoice_funded now cfg api b s cur desc prov t w1 = Inr ((d, dep), w')" using run by blast
    show ?thesis
      by (rule evolves_new [OF _ ok]) (use invoice_funded_deals [OF r] w1 in \<open>simp add: get_deal_def\<close>)
  qed
  then show ?thesis using returns by simp
qed

lemma evolves_cancel_topup:
  assumes ok: "books_ok w" shows "evolves w (snd (cancel_topup_endpoint now i u w))"
proof (cases "get_deal i w")
  case (Some d)
  then have g: "get_deal (d_id d) w = Some d" using get_deal_in [OF Some] by simp
  have "evolves w (snd (cancel_pending_topup now d u w))"
  proof (cases rule: outcome_cases [of "cancel_pending_topup now d u w"])
    case (fails e w')
    then show ?thesis using cancel_topup_effect [OF ok g, where now = now and u = u] by simp
  next
    case (returns d' w')
    let ?d = "d \<lparr> d_status := cancelled, d_completed_at := Some now \<rparr>"
    have e: "d_status d = pending_topup" "get_deal (d_id d) w' = Some (deal_row ?d)"
      using cancel_topup_effect [OF ok g, where now = now and u = u] returns by auto
    have "t_deals (expire_topup_deposit d w) = t_deals w"
      by (simp add: expire_topup_deposit_def split: option.splits if_splits)
    then have "t_deals w' = t_deals (save_deal ?d w)"
      using returns by (auto simp: cancel_pending_topup_def Let_def case_prod_beta save_deal_def split: if_splits)
    then have "get_deal k w' = get_deal k w" if "k \<noteq> d_id d" for k
      using that get_deal_save [of k ?d w] by (simp add: get_deal_def)
    then show ?thesis using returns evolves_one [OF ok g e(2)] e(1) by (simp add: same_deal_def)
  qed
  then show ?thesis using Some by (simp add: cancel_topup_endpoint_def on_locked_deal_def get_locked_def case_prod_beta)
qed (simp add: cancel_topup_endpoint_def on_locked_deal_def get_locked_def)


lemma evolves_sweeps:
  assumes "books_ok w"
  shows "evolves w (snd (sweep_inactivity now skip w))" "evolves w (snd (sweep_pending_topup now skip w))"
    "evolves w (snd (sweep_expired_deposits now cfg skip w))"
proof -
  have row: "get_deal (d_id d) w = Some d" if "get_deal i w = Some d" for i d using get_deal_in [OF that] that by simp
  have id: "d_id d = i" if "get_deal i w = Some d" for i d using get_deal_in [OF that] by simp
  obtain n w' where i: "sweep_inactivity now skip w = (Inr n, w')"
    "\<forall>d. get_deal (d_id d) w = Some d \<longrightarrow>
         (if inactivity_stale now (fst (settings_row w)) d \<and> \<not> skip (d_id d)
          then swept d w (get_deal (d_id d) w') else get_deal (d_id d) w' = Some d)"
    using sweep_inactivity_effect [OF assms, where now = now and skip = skip and c = 0] by blast
  have "\<exists>d'. get_deal i w' = Some d' \<and> grows_to d d'" if g: "get_deal i w = Some d" for i d
  proof (cases "inactivity_stale now (fst (settings_row w)) d \<and> \<not> skip (d_id d)")
    case True
    then have s: "swept d w (get_deal i w')" using i(2) row [OF g] id [OF g] by auto
    have "d_status d = pending_confirmation \<or> d_status d = pending_cancellation"
      using True by (auto simp: inactivity_stale_def Let_def)
    then show ?thesis using s
      by (auto simp: swept_def grows_to_def terminal_def TERMINAL_DEAL_STATUSES_def split: if_splits intro!: leads_to_next)
  next
    case False
    then show ?thesis using i(2) row [OF g] id [OF g] by auto
  qed
  then show "evolves w (snd (sweep_inactivity now skip w))" by (simp add: i(1) evolves_def)
  obtain m v where t: "sweep_pending_topup now skip w = (Inr m, v)"
    "\<forall>d. get_deal (d_id d) w = Some d \<longrightarrow> get_deal (d_id d) v =
           (if topup_expired now w d \<and> \<not> skip (d_id d)
            then Some (deal_row (d \<lparr> d_status := cancelled_for_inactivity, d_completed_at := Some now \<rparr>))
            else Some d)"
    using sweep_topup_effect [OF assms, where now = now and skip = skip] by blast
  have "\<exists>d'. get_deal i v = Some d' \<and> grows_to d d'" if g: "get_deal i w = Some d" for i d
  proof (cases "topup_expired now w d \<and> \<not> skip (d_id d)")
    case True
    have "d_status d = pending_topup" using True by (auto simp: topup_expired_def topup_stale_def Let_def)
    moreover have "storable (d_amount d)" using get_deal_facts [OF assms row [OF g]] by simp
    ultimately show ?thesis using t(2) row [OF g] id [OF g] True
      by (auto simp: grows_to_def same_deal_def terminal_def TERMINAL_DEAL_STATUSES_def intro!: leads_to_next)
  next
    case False
    then show ?thesis using t(2) row [OF g] id [OF g] by auto
  qed
  then show "evolves w (snd (sweep_pending_topup now skip w))" by (simp add: t(1) evolves_def)
  show "evolves w (snd (sweep_expired_deposits now cfg skip w))"
    using expiry_sweep_effect [OF assms, where now = now and cfg = cfg and skip = skip] by (auto intro: evolves_same)
qed

lemma evolves_invoice: "evolves w (snd (create_deposit_invoice_commit now cfg api u code amount purpose prov w))"
  by (cases "create_deposit_invoice now cfg api u code amount purpose prov True w")
    (auto simp: create_deposit_invoice_commit_def intro!: evolves_same [OF invoice_deals])

lemma topup_other_deals:
  assumes "complete_deal_topup_payment now cfg api dep reported w = (Inr dep', w')" and "dep_linked_deal_id dep = Some (d_id d)"
    and "get_deal (d_id d) w = Some d" and "k \<noteq> d_id d"
  shows "get_deal k w' = get_deal k w"
proof -
  have id: "d_id x = i" if "get_deal i w = Some x" for i x using get_deal_in [OF that] by simp
  have same: "get_deal k v = get_deal k u" if "t_deals v = t_deals u" for u v using that by (simp add: get_deal_def)
  have saved: "get_deal k v = get_deal k u" if "t_deals v = t_deals (save_deal x u)" "d_id x = d_id d" for u v x
    using that get_deal_save [of k x u] assms(4) by (simp add: get_deal_def)
  have issue: "get_deal k v = get_deal k u" if "issue_remaining_topup_invoice now cfg api x cur bal u = Inr ((x', r), v)" "d_id x = d_id d" for x cur bal u x' r v
  proof -
    have "t_deals v = t_deals u \<or> (\<exists>y u1. t_deals v = t_deals (save_deal y u1) \<and> t_deals u1 = t_deals u \<and> d_id y = d_id x)"
      using that(1) invoice_deals
      by (fastforce simp: issue_remaining_topup_invoice_def Let_def split: option.splits if_splits sum.splits prod.splits)
    then show ?thesis using same saved that(2) by metis
  qed
  have partial: "get_deal k v = get_deal k u" if "topup_partial now cfg api dep x cur paid due credit bal mk u = Inr (y, v)" "d_id x = d_id d" for x cur paid due credit bal mk u y v
  proof -
    note h = that
    let ?b = "bal \<lparr> b_amount := b_amount bal + credit \<rparr>"
    define u2 where "u2 = save_deposit (mark_deposit_paid now (Some paid) dep)
      (ledgered ?b (b_amount bal) (b_locked bal) (deposit_event ''deal_topup.partial_credit'' dep
         [(''deal_id'', MInt (d_id x)), (''paid'', MDec paid), (''commission_due'', MDec due)]) (save_balance ?b u))"
    have u2: "t_deals u2 = t_deals u" by (simp add: u2_def)
    obtain x' r u4 where i: "issue_remaining_topup_invoice now cfg api x cur (b_amount bal + credit) (save_deal x u2) = Inr ((x', r), u4)"
      and v: "t_deals v = t_deals u4"
      using h(1) by (auto simp: topup_partial_def Let_def case_prod_beta u2_def [symmetric] split: sum.splits)
    show ?thesis using issue [OF i that(2)] same [OF v] saved [of "save_deal x u2" x u2] same [OF u2] that(2) by simp
  qed
  show ?thesis
  proof (cases "dep_status dep = DS_paid")
    case True
    then show ?thesis using assms(1) by (simp add: complete_deal_topup_payment_def)
  next
    case st: False
    obtain cur where cur: "deal_currency d w = Inr cur"
      using assms st by (auto simp: complete_deal_topup_payment_def split: if_splits sum.splits)
    obtain bal w1 where lock: "lock_user_balance (d_buyer_id d) (c_id cur) w = Inr (bal, w1)"
      using lock_user_balance_total by blast
    have w1: "get_deal k w1 = get_deal k w" using lock_user_balance_frame [OF lock] by (simp add: get_deal_def)
    show ?thesis
    proof (cases "d_status d = pending_topup")
      case False
      have "\<exists>paid. topup_late_credit now dep d cur paid w = (Inr dep', w')"
        using assms(1-3) st cur False by (auto simp: complete_deal_topup_payment_def Let_def)
      then have "t_deals w' = t_deals w1" using lock by (auto simp: topup_late_credit_def Let_def case_prod_beta)
      then show ?thesis using same [of w' w1] w1 by simp
    next
      case True
      consider (part) x paid due credit mk where "topup_partial now cfg api dep x cur paid due credit bal mk w1 = Inr (dep', w')" "d_id x = d_id d"
        | (full) x amt paid due credit where "topup_activate now dep x cur amt paid due credit bal w1 = (dep', w')" "d_id x = d_id d"
        using assms(1-3) st cur True lock
        by (auto simp: complete_deal_topup_payment_def Let_def run_tx_def split: sum.splits if_splits prod.splits)
      then show ?thesis
      proof cases
        case part
        then show ?thesis using partial [OF part] w1 by simp
      next
        case full
        let ?y = "x \<lparr> d_status := pending_confirmation, d_commission_paid := True \<rparr>"
        have "t_deals w' = t_deals (save_deal ?y w1)" "d_id ?y = d_id d"
          using full by (auto simp: topup_activate_def Let_def case_prod_beta save_deal_def)
        from saved [OF this] show ?thesis using w1 by simp
      qed
    qed
  qed
qed


lemma evolves_pay_topup:
  assumes "books_ok w" and "get_deposit (dep_id dep) w = Some dep" and "dep_linked_deal_id dep = Some (d_id d)"
    and "get_deal (d_id d) w = Some d" and "list_all (\<lambda>x. 0 \<le> x) (case reported of None \<Rightarrow> [] | Some x \<Rightarrow> [x])"
  shows "evolves w (snd (complete_deal_topup_payment now cfg api dep reported w))"
proof (cases "dep_status dep = DS_paid")
  case True
  then show ?thesis by (simp add: complete_deal_topup_payment_def)
next
  case st: False
  show ?thesis
  proof (cases "d_status d = pending_topup")
    case True
    note e = topup_payment_effect [OF assms(1,2) st assms(3,4) True assms(5), where now = now and cfg = cfg and api = api and c = 0]
    show ?thesis
    proof (cases rule: outcome_cases [of "complete_deal_topup_payment now cfg api dep reported w"])
      case (fails x w')
      then show ?thesis using e by simp
    next
      case (returns dep' w')
      obtain d' where "get_deal (d_id d) w' = Some (deal_row d')" "same_deal d d'"
        "d_status d' = pending_confirmation \<or> d_status d' = pending_topup"
        using e returns by (auto split: if_splits)
      with evolves_one [OF assms(1,4) _ topup_other_deals [OF returns assms(3,4)]] True returns show ?thesis
        by (auto simp: terminal_def TERMINAL_DEAL_STATUSES_def)
    qed
  next
    case False
    show ?thesis
      using topup_late_payment_returns_to_buyer [OF assms(1,2) st assms(3,4) False assms(5), where now = now and cfg = cfg and api = api and c = 0] 
      by (intro evolves_cases) (auto intro: evolves_same)
  qed
qed

lemma evolves_withdrawals:
  "evolves w (snd (create_withdrawal_phase1 now cfg worker u code amount address w))"
  "evolves w (snd (withdrawal_sent now u cur amount x tr w))"
  "withdrawal_auto_failed_refund now u cur amount x w = Some (x', w') \<Longrightarrow> evolves w w'"
  "evolves w (withdrawal_queue now u cur amount x w)"
  "evolves w (save_withdrawal y w)"
  "evolves w (snd (approve_phase3 now admin remark x cur tr w))"
  "evolves w (approve_failed admin remark x cur w)"
  "evolves w (snd (decide_reject now admin remark x cur w))"
  "evolves w (snd (decide_mark_sent now admin remark x cur w))"
proof -
  have pair: "evolves w w2" if "lock_user_balance p c w = Inr (b, w1)" "t_deals w2 = t_deals w1" for p c b w1 w2
    using lock_user_balance_frame [OF that(1)] that(2) by (simp add: evolves_same)
  show "evolves w (snd (create_withdrawal_phase1 now cfg worker u code amount address w))"
    by (auto simp: create_withdrawal_phase1_def lock_withdrawal_def insert_withdrawal_def Let_def case_prod_beta
        split: sum.splits if_splits intro!: pair)
  show "evolves w (snd (withdrawal_sent now u cur amount x tr w))"
    by (auto simp: withdrawal_sent_def Let_def case_prod_beta split: sum.splits option.splits intro!: pair evolves_same)
  show "withdrawal_auto_failed_refund now u cur amount x w = Some (x', w') \<Longrightarrow> evolves w w'"
    by (auto simp: withdrawal_auto_failed_refund_def Let_def case_prod_beta split: sum.splits option.splits if_splits intro!: pair evolves_same)
  show "evolves w (withdrawal_queue now u cur amount x w)"
    by (rule evolves_same) (simp add: withdrawal_queue_def case_prod_beta)
  show "evolves w (save_withdrawal y w)" by (rule evolves_same) simp
  show "evolves w (approve_failed admin remark x cur w)"
    by (rule evolves_same) (simp add: approve_failed_def log_admin_action_def Let_def split: option.splits)
  show "evolves w (snd (approve_phase3 now admin remark x cur tr w))"
    by (auto simp: approve_phase3_def burn_withdrawal_def notify_withdrawal_def log_admin_action_def Let_def case_prod_beta
        split: option.splits sum.splits intro!: evolves_same)
  show "evolves w (snd (decide_reject now admin remark x cur w))" "evolves w (snd (decide_mark_sent now admin remark x cur w))"
    by (auto simp: decide_reject_def decide_mark_sent_def return_withdrawal_def burn_withdrawal_def notify_withdrawal_def log_admin_action_def
        Let_def case_prod_beta split: option.splits sum.splits intro!: evolves_same)
qed

lemma evolves_adjust: "evolves w (snd (adjust_user_balance admin i code delta reason w))"
proof -
  have pair: "evolves w w2" if "lock_user_balance p c w = Inr (b, w1)" "t_deals w2 = t_deals w1" for p c b w1 w2
    using lock_user_balance_frame [OF that(1)] that(2) by (simp add: evolves_same)
  show ?thesis
    by (auto simp: adjust_user_balance_def log_admin_action_def Let_def split: option.splits sum.splits if_splits intro!: pair)
qed

lemma evolves_approval_requests:
  "evolves w (snd (approve_deal_approval now j admin w))"
  "evolves w (snd (reject_deal_approval now j admin w))"
  by (auto simp: approve_deal_approval_def reject_deal_approval_def Let_def save_approval_def log_admin_action_def
      intro!: evolves_same split: option.splits)

lemma evolves_forced:
  assumes "forced_payout handler act payload share buyer_wins" and "books_ok w"
  shows "evolves w (snd (handler now thr admin i body w))"
proof (cases rule: forced_payout.runs [OF assms, of now thr admin i body, case_names fails blocked moves])
  case (moves d cur ap w2 a r m ns)
  note t = money_action_target_Inr [OF moves(1)]
  have h: "holds_escrow (d_status d)" and g: "get_deal (d_id d) w = Some d" using t by auto
  have n: "d_status (admin_close now admin buyer_wins d) \<in> set (next_statuses (d_status d))"
    using h by (cases "d_status d") simp_all
  have "t_deals w2 = t_deals w" using moves(5) by (simp add: divided_def only_money_def)
  from evolves_closed [OF assms(2) g finish_money_action_closed(1) this admin_close_simps(1)] n moves(2)
  show ?thesis by simp
qed (auto intro: evolves_same simp: same_books_def)

lemma evolves_force_arbitration:
  assumes "books_ok w" and "get_deal i w = Some d" and "d_status d \<noteq> pending_topup" and "d_status d \<noteq> pending_payment"
  shows "evolves w (snd (force_arbitration now admin i reason w))"
proof (cases "is_terminal (d_status d) \<or> d_status d = arbitration")
  case True
  then show ?thesis using assms(2) by (auto simp: force_arbitration_def)
next
  case False
  then obtain d' w' where run: "force_arbitration now admin i reason w = (Inr d', w')" and c: "closed_by d' w w'"
    and s: "same_deal d d'" "d_status d' = arbitration"
    using force_arbitration_effect [OF assms(2), where now = now and admin = admin and reason = reason] by blast
  have "arbitration \<in> set (next_statuses (d_status d))"
    using False assms(3,4) by (cases "d_status d") (simp_all add: is_terminal_def)
  moreover have "get_deal (d_id d) w = Some d" using get_deal_in [OF assms(2)] assms(2) by simp
  ultimately show ?thesis using run s evolves_closed [OF assms(1) _ c refl s(1)] by simp
qed

lemma evolves_assign:
  assumes "books_ok w" shows "evolves w (snd (assign_arbiter now admin i a w))"
proof (cases "get_deal i w")
  case (Some d)
  have g: "get_deal (d_id d) w = Some d" using get_deal_in [OF Some] Some by simp
  let ?d = "d \<lparr> d_arbitration_resolved_by := a \<rparr>"
  show ?thesis
  proof (cases "d_status d = arbitration")
    case True
    have "same_deal d ?d" by (simp add: same_deal_def)
    note q = evolves_closed [OF assms g _ refl this]
    show ?thesis using Some True
      by (auto simp: assign_arbiter_def Let_def case_prod_beta closed_by_def audit_deal_def log_admin_action_def
          terminal_def TERMINAL_DEAL_STATUSES_def intro!: q split: option.splits sum.splits)
  qed (use Some in \<open>simp add: assign_arbiter_def\<close>)
qed (simp add: assign_arbiter_def)

lemma evolves_then: "evolves w v \<Longrightarrow> t_deals w' = t_deals v \<Longrightarrow> evolves w w'"
  by (rule evolves_trans [OF _ evolves_same])

lemma evolves_topup:
  assumes "books_ok w" and "get_deposit (dep_id dep) w = Some dep"
    and r: "case reported of None \<Rightarrow> True | Some x \<Rightarrow> 0 \<le> x"
  shows "evolves w (snd (complete_deal_topup_payment now cfg api dep reported w))"
proof (cases "dep_linked_deal_id dep")
  case None
  then show ?thesis by (simp add: complete_deal_topup_payment_def Let_def evolves_same)
next
  case (Some i)
  show ?thesis
  proof (cases "get_deal i w")
    case None
    then show ?thesis using Some by (simp add: complete_deal_topup_payment_def Let_def evolves_same)
  next
    case d: (Some d)
    have l: "list_all (\<lambda>x. 0 \<le> x) (case reported of None \<Rightarrow> [] | Some x \<Rightarrow> [x])" using r by (simp split: option.splits)
    show ?thesis using evolves_pay_topup [OF assms(1,2) _ _ l, where d = d and now = now and cfg = cfg and api = api] Some d get_deal_in [OF d]
      by simp
  qed
qed

lemma evolves_moved:
  assumes ok: "books_ok w" and m: "deposit_moved now cfg api m w w'"
    and r: "\<And>dep p. m = Credited dep p \<Longrightarrow> dep_purpose dep = P_deal_topup \<Longrightarrow> case finite_amount p of None \<Rightarrow> True | Some x \<Rightarrow> 0 \<le> x"
  shows "evolves w w'"
proof (cases m)
  case Untouched
  then show ?thesis using m by (simp add: deposit_moved_def)
next
  case (Credited dep p)
  then have get: "get_deposit (dep_id dep) w = Some dep" and w': "w' = snd (credit_deposit now cfg api dep p w)"
    using m by (simp_all add: deposit_moved_def)
  show ?thesis
  proof (cases rule: credit_deposit_cases [OF ok get, of now cfg api p, case_names same topup trust wallet])
    case same
    then show ?thesis by (simp add: w')
  next
    case topup
    then show ?thesis using evolves_topup [OF ok get r [OF Credited topup(1)]] by (simp add: w')
  next
    case (trust x cur rep)
    then show ?thesis using credit_trust_books(2) [OF ok get trust(2,3)] by (simp add: w' evolves_same)
  next
    case (wallet x cur rep)
    obtain res v where run: "credit_wallet now dep cur x rep w = (res, v)" by fastforce
    show ?thesis
      using credit_wallet_effect [OF run ok deposit_in_row [OF get] wallet(2-4)] wallet(5) run by (simp add: w' evolves_same)
  qed
next
  case (Expired dep)
  then have get: "get_deposit (dep_id dep) w = Some dep" and s: "same_books w' (snd (expire_deposit now dep w))"
    using m by (simp_all add: deposit_moved_def)
  obtain r v where run: "expire_deposit now dep w = (r, v)" by fastforce
  show ?thesis using expire_deposit_effect [OF run ok get] s run by (intro evolves_same) (simp add: same_books_def)
qed

lemma evolves_decide:
  assumes "dec_action body = ''approve'' \<longrightarrow> \<not> is_cryptopay_configured cfg"
  shows "evolves w (snd (decide_withdrawal now cfg api admin i body others w))"
  using assms by (auto simp: decide_withdrawal_def decide_approve_def Let_def log_admin_action_def evolves_withdrawals
      intro!: evolves_same split: sum.splits)

end
