(* ===== verification/Rate_Limit.thy ===== *)
theory Rate_Limit
  imports Prelude
begin

text \<open>
  The rate limiter (\<open>backend/app/rate_limit.py\<close>). A hit is admitted when fewer than \<open>limit\<close>
  admitted hits of the same scope and principal lie in the last \<open>window\<close> seconds. The code has
  two implementations: a deque of times per key in the process, and a sorted set per key in
  Redis that a Lua script trims, counts and extends. Both are here as the code writes them,
  with the choice between them; \<open>spec_hit\<close> is the specification that remembers every admitted
  hit. The readings of the clocks are rationals (the code rounds those it sends to Redis to
  microseconds).
\<close>

section \<open>The specification\<close>

type_synonym limit_key = "string \<times> string"

text \<open>What a hit answers: \<open>HTTPException(429)\<close> with the seconds of \<open>Retry-After\<close>, 503 when Redis
  is required and not there.\<close>

datatype limit_error = TooManyRequests rat | LimiterUnavailable | DequeIndexError

definition spec_hit :: "nat \<Rightarrow> rat \<Rightarrow> rat \<Rightarrow> rat list \<Rightarrow> bool \<times> rat list" where
  "spec_hit limit window now admitted =
     (if length (filter (\<lambda>t. now - window < t) admitted) < limit then (True, admitted @ [now])
      else (False, admitted))"

section \<open>In the process\<close>

type_synonym buckets = "limit_key \<Rightarrow> rat list"

fun pop_expired :: "rat \<Rightarrow> rat list \<Rightarrow> rat list" where
  "pop_expired cutoff [] = []"
| "pop_expired cutoff (t # ts) = (if t \<le> cutoff then pop_expired cutoff ts else t # ts)"

definition hit_inmemory ::
  "limit_key \<Rightarrow> nat \<Rightarrow> rat \<Rightarrow> rat \<Rightarrow> buckets \<Rightarrow> (limit_error + unit) \<times> buckets" where
  "hit_inmemory k limit window now buckets =
     (let cutoff = now - window;
          bucket = pop_expired cutoff (buckets k)
      in if limit \<le> length bucket
         then (case bucket of
                 [] \<Rightarrow> (Inl DequeIndexError, buckets(k := bucket))
               | oldest # _ \<Rightarrow> (Inl (TooManyRequests (max 0 (oldest + window - now))), buckets(k := bucket)))
         else (Inr (), buckets(k := bucket @ [now])))"

section \<open>In Redis\<close>

text \<open>A sorted set is the list of its members with their scores, by score. The key carries the
  time its TTL ends.\<close>

type_synonym zset = "(rat \<times> string) list"

record redis_key =
  rk_zset :: zset
  rk_expires_at :: rat

type_synonym redis_keys = "limit_key \<Rightarrow> redis_key option"

definition live_zset :: "rat \<Rightarrow> redis_key option \<Rightarrow> zset" where
  "live_zset now k = (case k of None \<Rightarrow> [] | Some r \<Rightarrow> if rk_expires_at r \<le> now then [] else rk_zset r)"

definition zremrangebyscore :: "rat \<Rightarrow> zset \<Rightarrow> zset" where
  "zremrangebyscore hi z = filter (\<lambda>(score, _). hi < score) z"

definition zadd :: "rat \<Rightarrow> string \<Rightarrow> zset \<Rightarrow> zset" where
  "zadd score member z = insort_key fst (score, member) (filter (\<lambda>(_, m). m \<noteq> member) z)"

definition rl_lua :: "rat \<Rightarrow> rat \<Rightarrow> nat \<Rightarrow> string \<Rightarrow> redis_key option \<Rightarrow> (rat + unit) \<times> redis_key option" where
  "rl_lua now window limit member k =
     (let z = zremrangebyscore (now - window) (live_zset now k);
          kept = map_option (\<lambda>r. r \<lparr> rk_zset := z \<rparr>) k
      in if limit \<le> length z
         then (Inl (case z of [] \<Rightarrow> window | (oldest, _) # _ \<Rightarrow> max 0 (oldest + window - now)), kept)
         else (Inr (), Some \<lparr> rk_zset = zadd now member z,
                              rk_expires_at = now + (of_int \<lceil>(window + 1) * 1000\<rceil>) / 1000 \<rparr>))"

section \<open>Dispatch\<close>

record limiter =
  lm_buckets :: buckets
  lm_redis :: redis_keys

text \<open>What the client of Redis gives: no client at all, a failing call, or the reply of the script.\<close>

datatype redis_state = NoRedis | RedisFails | RedisUp

text \<open>\<open>mtime\<close> is \<open>time.monotonic()\<close>, \<open>now\<close> is \<open>time.time()\<close>; \<open>required\<close> is
  \<open>effective_require_redis_for_rate_limit()\<close>.\<close>

definition fall_back ::
  "bool \<Rightarrow> limit_key \<Rightarrow> nat \<Rightarrow> rat \<Rightarrow> rat \<Rightarrow> limiter \<Rightarrow> (limit_error + unit) \<times> limiter" where
  "fall_back required k limit window mtime st =
     (if required then (Inl LimiterUnavailable, st)
      else case hit_inmemory k limit window mtime (lm_buckets st) of
             (r, b) \<Rightarrow> (r, st \<lparr> lm_buckets := b \<rparr>))"

definition hit_redis ::
  "bool \<Rightarrow> redis_state \<Rightarrow> limit_key \<Rightarrow> nat \<Rightarrow> rat \<Rightarrow> rat \<Rightarrow> rat \<Rightarrow> string \<Rightarrow> limiter
     \<Rightarrow> (limit_error + unit) \<times> limiter" where
  "hit_redis required redis k limit window mtime now member st =
     (case redis of
        NoRedis \<Rightarrow> fall_back required k limit window mtime st
      | RedisFails \<Rightarrow> fall_back required k limit window mtime st
      | RedisUp \<Rightarrow>
          (case rl_lua now window limit member (lm_redis st k) of
             (r, k') \<Rightarrow> (map_sum TooManyRequests id r, st \<lparr> lm_redis := (lm_redis st)(k := k') \<rparr>)))"

text \<open>The header of \<open>_raise_429\<close>.\<close>

definition retry_after_header :: "rat \<Rightarrow> int" where
  "retry_after_header retry_after = \<lfloor>retry_after\<rfloor> + 1"

section \<open>Runs\<close>

text \<open>A run is a list of hits: the key, the time and the member that names the hit in Redis.\<close>

type_synonym hits = "(limit_key \<times> rat \<times> string) list"

fun admitted ::
  "(limit_key \<Rightarrow> rat \<Rightarrow> string \<Rightarrow> 's \<Rightarrow> (limit_error + unit) \<times> 's) \<Rightarrow> hits \<Rightarrow> 's \<Rightarrow> (limit_key \<times> rat) list" where
  "admitted hit [] s = []"
| "admitted hit ((k, t, m) # hs) s =
     (case hit k t m s of
        (Inl _, s') \<Rightarrow> admitted hit hs s'
      | (Inr _, s') \<Rightarrow> (k, t) # admitted hit hs s')"

fun spec_admitted :: "nat \<Rightarrow> rat \<Rightarrow> hits \<Rightarrow> (limit_key \<Rightarrow> rat list) \<Rightarrow> (limit_key \<times> rat) list" where
  "spec_admitted limit window [] acc = []"
| "spec_admitted limit window ((k, t, m) # hs) acc =
     (case spec_hit limit window t (acc k) of
        (False, _) \<Rightarrow> spec_admitted limit window hs acc
      | (True, ts) \<Rightarrow> (k, t) # spec_admitted limit window hs (acc(k := ts)))"

text \<open>The times of the hits go up, and no two share a member.\<close>

definition ordered_hits :: "hits \<Rightarrow> bool" where
  "ordered_hits hs \<longleftrightarrow> sorted (map (\<lambda>(k, t, m). t) hs) \<and> distinct (map (\<lambda>(k, t, m). m) hs)"

definition in_window :: "limit_key \<Rightarrow> rat \<Rightarrow> rat \<Rightarrow> (limit_key \<times> rat) list \<Rightarrow> nat" where
  "in_window k window now as = length (filter (\<lambda>(k', t). k' = k \<and> now - window < t \<and> t \<le> now) as)"

definition recent :: "rat \<Rightarrow> rat \<Rightarrow> rat list \<Rightarrow> nat" where
  "recent window now ts = length (filter (\<lambda>t. now - window < t \<and> t \<le> now) ts)"

lemma spec_hit_recent:
  assumes "\<And>x. recent window x acc \<le> limit" and "\<forall>t \<in> set acc. t \<le> now" and "spec_hit limit window now acc = (b, acc')"
  shows "recent window x acc' \<le> limit"
proof (cases b)
  case False
  then show ?thesis using assms by (auto simp: spec_hit_def split: if_splits)
next
  case True
  then have acc': "acc' = acc @ [now]" and few: "length (filter (\<lambda>t. now - window < t) acc) < limit"
    using assms(3) by (auto simp: spec_hit_def split: if_splits)
  show ?thesis
  proof (cases "now \<le> x")
    case False
    then show ?thesis using assms(1) [of x] acc' by (simp add: recent_def)
  next
    case le: True
    have "length (filter (\<lambda>t. x - window < t \<and> t \<le> x) acc) \<le> length (filter (\<lambda>t. now - window < t) acc)"
      using le by (induction acc) auto
    then show ?thesis using few acc' by (simp add: recent_def)
  qed
qed

lemma spec_admitted_bound:
  assumes "sorted (map (\<lambda>(k, t, m). t) hs)" and "\<forall>t \<in> set (acc k). \<forall>h \<in> set hs. t \<le> fst (snd h)"
    and "\<And>x. recent window x (acc k) \<le> limit"
  shows "recent window x (acc k) + in_window k window x (spec_admitted limit window hs acc) \<le> limit"
  using assms
proof (induction hs arbitrary: acc)
  case Nil
  then show ?case by (simp add: in_window_def)
next
  case (Cons h hs)
  obtain k' t m where h: "h = (k', t, m)" by (cases h) auto
  obtain b ts where sp: "spec_hit limit window t (acc k') = (b, ts)" by fastforce
  have up: "sorted (map (\<lambda>(k, t, m). t) hs)" "\<forall>h \<in> set hs. t \<le> fst (snd h)" using Cons.prems(1) by (simp_all add: h case_prod_unfold)
  show ?case
  proof (cases "b \<and> k' = k")
    case False
    let ?acc = "if b then acc(k' := ts) else acc"
    have "recent window x (?acc k) + in_window k window x (spec_admitted limit window hs ?acc) \<le> limit"
      by (rule Cons.IH [OF up(1)]) (use False Cons.prems in auto)
    then show ?thesis using False sp by (auto simp: h in_window_def split: if_splits)
  next
    case True
    then have ts: "ts = acc k @ [t]" using sp by (auto simp: spec_hit_def split: if_splits)
    let ?acc = "acc(k := ts)"
    have "recent window x (?acc k) + in_window k window x (spec_admitted limit window hs ?acc) \<le> limit"
    proof (rule Cons.IH [OF up(1)])
      show "\<forall>t \<in> set (?acc k). \<forall>h \<in> set hs. t \<le> fst (snd h)" using up(2) Cons.prems(2) ts by (auto simp: h)
      show "recent window x (?acc k) \<le> limit" for x
        using spec_hit_recent [OF Cons.prems(3)] Cons.prems(2) sp True by (fastforce simp: h)
    qed
    then show ?thesis using True sp ts by (auto simp: h in_window_def recent_def)
  qed
qed

section \<open>The contract of a backend\<close>

text \<open>
  \<open>sim\<close> relates the state of a backend to the admitted hits of every key; a hit answers like the
  specification as long as the clock does not go back and the member is new.
\<close>

locale sliding_window =
  fixes hit :: "nat \<Rightarrow> rat \<Rightarrow> limit_key \<Rightarrow> rat \<Rightarrow> string \<Rightarrow> 's \<Rightarrow> (limit_error + unit) \<times> 's"
    and sim :: "rat \<Rightarrow> rat \<Rightarrow> string set \<Rightarrow> (limit_key \<Rightarrow> rat list) \<Rightarrow> 's \<Rightarrow> bool"
  assumes answers: "sim window prev used acc s \<Longrightarrow> prev \<le> now \<Longrightarrow> 0 < window \<Longrightarrow> 0 < limit \<Longrightarrow> m \<notin> used
      \<Longrightarrow> hit limit window k now m s = (r, s') \<Longrightarrow> spec_hit limit window now (acc k) = (b, ts)
      \<Longrightarrow> (r = Inr ()) = b \<and> sim window now (insert m used) (acc(k := ts)) s'"
begin

lemma admitted_spec:
  assumes "0 < window" and "0 < limit" and "sim window prev used acc s"
    and "ordered_hits hs" and "\<forall>(k, t, m) \<in> set hs. prev \<le> t \<and> m \<notin> used"
  shows "admitted (hit limit window) hs s = spec_admitted limit window hs acc"
  using assms(3-5)
proof (induction hs arbitrary: prev used acc s)
  case Nil
  then show ?case by simp
next
  case (Cons h hs)
  obtain k t m where h: "h = (k, t, m)" by (cases h) auto
  obtain r s' where run: "hit limit window k t m s = (r, s')" by fastforce
  obtain b ts where sp: "spec_hit limit window t (acc k) = (b, ts)" by fastforce
  have a: "(r = Inr ()) = b" "sim window t (insert m used) (acc(k := ts)) s'"
    using answers [OF Cons.prems(1) _ assms(1,2) _ run sp] Cons.prems(3) by (auto simp: h)
  have "ordered_hits hs" "\<forall>(k, t', m') \<in> set hs. t \<le> t' \<and> m' \<notin> insert m used"
    using Cons.prems(2,3) by (auto simp: ordered_hits_def h case_prod_unfold image_iff)
  from Cons.IH [OF a(2) this]
  have ih: "admitted (hit limit window) hs s' = spec_admitted limit window hs (acc(k := ts))" .
  have "\<not> b \<Longrightarrow> acc(k := ts) = acc" using sp by (auto simp: spec_hit_def split: if_splits)
  then show ?case using ih run sp a(1) by (cases r; cases b) (auto simp: h)
qed

lemma never_above_limit:
  assumes "0 < window" and "0 < limit" and "sim window prev used (\<lambda>_. []) s"
    and "ordered_hits hs" and "\<forall>(k, t, m) \<in> set hs. prev \<le> t \<and> m \<notin> used"
  shows "in_window k window x (admitted (hit limit window) hs s) \<le> limit"
proof -
  have "sorted (map (\<lambda>(k, t, m). t) hs)" using assms(4) by (simp add: ordered_hits_def)
  then have "recent window x [] + in_window k window x (spec_admitted limit window hs (\<lambda>_. [])) \<le> limit"
    using spec_admitted_bound [of hs "\<lambda>_. []" k window limit x] by (simp add: recent_def)
  then show ?thesis unfolding admitted_spec [OF assms] by (simp add: recent_def)
qed

end

section \<open>The two backends\<close>

lemma pop_expired_sorted: "sorted ts \<Longrightarrow> pop_expired c ts = filter (\<lambda>t. c < t) ts"
  by (induction ts) (auto simp: not_le intro!: filter_True [symmetric] dest: order_less_le_trans)

definition hit_local :: "nat \<Rightarrow> rat \<Rightarrow> limit_key \<Rightarrow> rat \<Rightarrow> string \<Rightarrow> limiter \<Rightarrow> (limit_error + unit) \<times> limiter" where
  "hit_local limit window k t m st = hit_redis False NoRedis k limit window t t m st"

definition hit_shared :: "nat \<Rightarrow> rat \<Rightarrow> limit_key \<Rightarrow> rat \<Rightarrow> string \<Rightarrow> limiter \<Rightarrow> (limit_error + unit) \<times> limiter" where
  "hit_shared limit window k t m st = hit_redis True RedisUp k limit window t t m st"

definition no_hits :: limiter where
  "no_hits = \<lparr> lm_buckets = (\<lambda>_. []), lm_redis = (\<lambda>_. None) \<rparr>"

definition past :: "rat \<Rightarrow> rat list \<Rightarrow> bool" where
  "past prev ts \<longleftrightarrow> sorted ts \<and> (\<forall>t \<in> set ts. t \<le> prev)"

lemma past_mono: "past prev ts \<Longrightarrow> prev \<le> now \<Longrightarrow> past now ts"
  by (auto simp: past_def)

lemma past_snoc: "past prev ts \<Longrightarrow> prev \<le> now \<Longrightarrow> past now (ts @ [now])"
  by (auto simp: past_def sorted_append dest: order_trans)

lemma spec_hit_cases:
  assumes "spec_hit limit window now acc = (b, ts)"
  obtains "b" "ts = acc @ [now]" "length (filter (\<lambda>t. now - window < t) acc) < limit"
  | "\<not> b" "ts = acc" "limit \<le> length (filter (\<lambda>t. now - window < t) acc)"
  using assms by (auto simp: spec_hit_def split: if_splits)

lemma filter_later: "c \<le> d \<Longrightarrow> filter (\<lambda>t :: rat. c < t \<and> d < t) ts = filter (\<lambda>t. d < t) ts"
  by (induction ts) auto

text \<open>What a bucket and a sorted set hold of the admitted hits of their key.\<close>

definition local_ok :: "rat \<Rightarrow> rat \<Rightarrow> rat list \<Rightarrow> rat list \<Rightarrow> bool" where
  "local_ok window prev ts bucket \<longleftrightarrow> past prev ts \<and> (\<exists>c \<le> prev - window. bucket = filter (\<lambda>t. c < t) ts)"

definition shared_ok :: "rat \<Rightarrow> rat \<Rightarrow> string set \<Rightarrow> rat list \<Rightarrow> redis_key option \<Rightarrow> bool" where
  "shared_ok window prev used ts rk \<longleftrightarrow> past prev ts \<and>
     (case rk of None \<Rightarrow> ts = []
      | Some r \<Rightarrow> (\<exists>c \<le> prev - window. map fst (rk_zset r) = filter (\<lambda>t. c < t) ts)
          \<and> snd ` set (rk_zset r) \<subseteq> used \<and> (\<forall>t \<in> set ts. t + window \<le> rk_expires_at r))"

lemma local_ok_mono: "local_ok window prev ts b \<Longrightarrow> prev \<le> now \<Longrightarrow> local_ok window now ts b"
proof -
  assume ok: "local_ok window prev ts b" and le: "prev \<le> now"
  then obtain c where "past prev ts" "c \<le> prev - window" "b = filter (\<lambda>t. c < t) ts" by (auto simp: local_ok_def)
  moreover from this(2) le have "c \<le> now - window" by simp
  ultimately show ?thesis using past_mono [OF _ le, of ts] by (auto simp: local_ok_def)
qed

lemma shared_ok_mono: "shared_ok window prev used ts b \<Longrightarrow> prev \<le> now \<Longrightarrow> shared_ok window now (insert m used) ts b"
proof -
  assume ok: "shared_ok window prev used ts b" and le: "prev \<le> now"
  then have p: "past now ts" by (auto simp: shared_ok_def intro: past_mono)
  show ?thesis
  proof (cases b)
    case None
    then show ?thesis using ok p by (simp add: shared_ok_def)
  next
    case (Some r)
    then obtain c where "c \<le> prev - window" "map fst (rk_zset r) = filter (\<lambda>t. c < t) ts" "snd ` set (rk_zset r) \<subseteq> used"
      "\<forall>t \<in> set ts. t + window \<le> rk_expires_at r" using ok by (auto simp: shared_ok_def)
    moreover from this(1) le have "c \<le> now - window" by simp
    ultimately show ?thesis using Some p by (auto simp: shared_ok_def)
  qed
qed

lemma pop_live:
  assumes "local_ok window prev ts b" and "prev \<le> now"
  shows "pop_expired (now - window) b = filter (\<lambda>t. now - window < t) ts"
proof -
  obtain c where c: "c \<le> prev - window" "b = filter (\<lambda>t. c < t) ts" and p: "sorted ts"
    using assms(1) by (auto simp: local_ok_def past_def)
  have "sorted b" using p c(2) by (simp add: sorted_wrt_filter)
  then show ?thesis using c assms(2) by (simp add: pop_expired_sorted filter_later)
qed

lemma local_ok_now:
  assumes "local_ok window prev ts b" and "prev \<le> now" and "0 < window"
  shows "local_ok window now ts (filter (\<lambda>t. now - window < t) ts)"
    and "local_ok window now (ts @ [now]) (filter (\<lambda>t. now - window < t) ts @ [now])"
  using assms past_mono [of prev ts now] past_snoc [of prev ts now]
  by (auto simp: local_ok_def intro!: exI [of _ "now - window"])

definition local_sim :: "rat \<Rightarrow> rat \<Rightarrow> string set \<Rightarrow> (limit_key \<Rightarrow> rat list) \<Rightarrow> limiter \<Rightarrow> bool" where
  "local_sim window prev used acc st \<longleftrightarrow> (\<forall>k. local_ok window prev (acc k) (lm_buckets st k))"

definition shared_sim :: "rat \<Rightarrow> rat \<Rightarrow> string set \<Rightarrow> (limit_key \<Rightarrow> rat list) \<Rightarrow> limiter \<Rightarrow> bool" where
  "shared_sim window prev used acc st \<longleftrightarrow> (\<forall>k. shared_ok window prev used (acc k) (lm_redis st k))"

interpretation process: sliding_window hit_local local_sim
proof (unfold_locales, goal_cases)
  case (1 window prev used acc s now limit m k r s' b ts)
  have ok: "local_ok window prev (acc j) (lm_buckets s j)" for j using 1(1) unfolding local_sim_def by blast
  note pop = pop_live [OF ok [of k] 1(2)] and now = local_ok_now [OF ok [of k] 1(2,3)] and other = local_ok_mono [OF ok 1(2)]
  from 1(7) show ?case
  proof (cases rule: spec_hit_cases)
    case 1
    then have "r = Inr ()" "s' = s \<lparr> lm_buckets := (lm_buckets s)(k := filter (\<lambda>t. now - window < t) (acc k) @ [now]) \<rparr>"
      using \<open>hit_local limit window k now m s = (r, s')\<close> pop
      by (auto simp: hit_local_def hit_redis_def fall_back_def hit_inmemory_def Let_def)
    then show ?thesis using 1 other now unfolding local_sim_def by simp
  next
    case 2
    then have "r \<noteq> Inr ()" "s' = s \<lparr> lm_buckets := (lm_buckets s)(k := filter (\<lambda>t. now - window < t) (acc k)) \<rparr>"
      using \<open>hit_local limit window k now m s = (r, s')\<close> pop
      by (auto simp: hit_local_def hit_redis_def fall_back_def hit_inmemory_def Let_def split: list.splits)
    then show ?thesis using 2 other now unfolding local_sim_def by simp
  qed
qed

lemma fst_zremrange: "map fst (zremrangebyscore hi z) = filter (\<lambda>t. hi < t) (map fst z)"
  by (induction z) (auto simp: zremrangebyscore_def)

lemma fst_insort:
  assumes "\<forall>t \<in> fst ` set z. t \<le> now" and "sorted (map fst z)"
  shows "map fst (insort_key fst (now, m) z) = map fst z @ [now]"
  using assms
proof (induction z)
  case Nil
  then show ?case by simp
next
  case (Cons x z)
  show ?case
  proof (cases "now \<le> fst x")
    case False
    then show ?thesis using Cons by simp
  next
    case True
    then have "\<forall>t \<in> set (map fst (x # z)). t = now" using Cons.prems by (fastforce intro: antisym)
    then have "map fst (x # z) = replicate (length (x # z)) now" by (metis length_map replicate_length_same)
    then show ?thesis using True by (metis insort_key.simps(2) list.simps(9) fst_conv replicate_append_same)
  qed
qed

lemma zadd_fresh:
  assumes "m \<notin> snd ` set z"
  shows "zadd now m z = insort_key fst (now, m) z"
proof -
  have "filter (\<lambda>(_, x). x \<noteq> m) z = z" using assms by (intro filter_True) (auto simp: image_iff)
  then show ?thesis by (simp add: zadd_def)
qed

lemma live_range:
  assumes "shared_ok window prev used ts rk" and "prev \<le> now"
  defines "z \<equiv> zremrangebyscore (now - window) (live_zset now rk)"
  shows "map fst z = filter (\<lambda>t. now - window < t) ts" and "snd ` set z \<subseteq> used"
proof -
  show "map fst z = filter (\<lambda>t. now - window < t) ts"
  proof (cases rk)
    case None
    then show ?thesis using assms(1) by (simp add: z_def shared_ok_def live_zset_def zremrangebyscore_def)
  next
    case (Some r)
    then obtain c where c: "c \<le> prev - window" "map fst (rk_zset r) = filter (\<lambda>t. c < t) ts" "\<forall>t \<in> set ts. t + window \<le> rk_expires_at r"
      using assms(1) by (auto simp: shared_ok_def)
    show ?thesis
    proof (cases "rk_expires_at r \<le> now")
      case True
      then have "\<forall>t \<in> set ts. \<not> now - window < t" using c(3) by fastforce
      then show ?thesis using Some True by (simp add: z_def live_zset_def zremrangebyscore_def)
    next
      case False
      then show ?thesis using Some c(1,2) assms(2) by (simp add: z_def live_zset_def fst_zremrange filter_later)
    qed
  qed
  show "snd ` set z \<subseteq> used" using assms(1)
    by (auto simp: z_def shared_ok_def live_zset_def zremrangebyscore_def split: option.splits if_splits)
qed

lemma shared_ok_rejected:
  assumes "shared_ok window prev used ts rk" and "prev \<le> now"
  shows "shared_ok window now (insert m used) ts (map_option (\<lambda>r. r \<lparr> rk_zset := zremrangebyscore (now - window) (live_zset now rk) \<rparr>) rk)"
  using assms past_mono [OF _ assms(2), of ts] live_range [OF assms]
  by (auto simp: shared_ok_def split: option.splits intro!: exI [of _ "now - window"])

lemma shared_ok_admitted:
  assumes "shared_ok window prev used ts rk" and "prev \<le> now" and "0 < window" and "m \<notin> used"
  shows "shared_ok window now (insert m used) (ts @ [now])
    (Some \<lparr> rk_zset = zadd now m (zremrangebyscore (now - window) (live_zset now rk)),
            rk_expires_at = now + (of_int \<lceil>(window + 1) * 1000\<rceil>) / 1000 \<rparr>)"
proof -
  let ?z = "zremrangebyscore (now - window) (live_zset now rk)"
  note z = live_range [OF assms(1,2)]
  have p: "past prev ts" using assms(1) by (simp add: shared_ok_def)
  have s: "\<forall>t \<in> fst ` set ?z. t \<le> now" "sorted (map fst ?z)"
  proof -
    have "fst ` set ?z \<subseteq> set ts" using z(1) by (metis filter_is_subset list.set_map)
    then show "\<forall>t \<in> fst ` set ?z. t \<le> now" using p assms(2) by (fastforce simp: past_def)
    show "sorted (map fst ?z)" using z(1) p by (simp add: past_def sorted_wrt_filter)
  qed
  have m: "m \<notin> snd ` set ?z" using z(2) assms(4) by blast
  define ms e where "ms = (of_int \<lceil>(window + 1) * 1000\<rceil> :: rat)" and "e = now + ms / 1000"
  have "(window + 1) * 1000 \<le> ms" unfolding ms_def by (rule le_of_int_ceiling)
  then have "now + window \<le> e" by (simp add: e_def field_simps)
  then have "\<forall>t \<in> set (ts @ [now]). t + window \<le> e" using p assms(2) by (auto simp: past_def dest!: bspec)
  moreover have "map fst (zadd now m ?z) = filter (\<lambda>t. now - window < t) (ts @ [now])"
    using zadd_fresh [OF m] fst_insort [OF s] z(1) assms(3) by simp
  moreover have "snd ` set (zadd now m ?z) \<subseteq> insert m used"
    using zadd_fresh [OF m] z(2) by (auto simp: set_insort_key)
  ultimately show ?thesis using past_snoc [OF p assms(2)] unfolding ms_def [symmetric] e_def [symmetric]
    by (auto simp: shared_ok_def intro!: exI [of _ "now - window"])
qed

interpretation shared: sliding_window hit_shared shared_sim
proof (unfold_locales, goal_cases)
  case (1 window prev used acc s now limit m k r s' b ts)
  have ok: "shared_ok window prev used (acc j) (lm_redis s j)" for j using 1(1) unfolding shared_sim_def by blast
  let ?z = "zremrangebyscore (now - window) (live_zset now (lm_redis s k))"
  have len: "length ?z = length (filter (\<lambda>t. now - window < t) (acc k))"
    using live_range(1) [OF ok [of k] 1(2)] by (metis length_map)
  note other = shared_ok_mono [OF ok 1(2)]
  note run = 1(6)
  from 1(7) show ?case
  proof (cases rule: spec_hit_cases)
    case a: 1
    then have "r = Inr ()" "s' = s \<lparr> lm_redis := (lm_redis s)(k := Some \<lparr> rk_zset = zadd now m ?z,
            rk_expires_at = now + (of_int \<lceil>(window + 1) * 1000\<rceil>) / 1000 \<rparr>) \<rparr>"
      using run len by (auto simp: hit_shared_def hit_redis_def rl_lua_def Let_def)
    then show ?thesis using a other shared_ok_admitted [OF ok [of k] 1(2,3,5)] unfolding shared_sim_def by simp
  next
    case a: 2
    then have "r \<noteq> Inr ()" "s' = s \<lparr> lm_redis := (lm_redis s)(k := map_option (\<lambda>r. r \<lparr> rk_zset := ?z \<rparr>) (lm_redis s k)) \<rparr>"
      using run len by (auto simp: hit_shared_def hit_redis_def rl_lua_def Let_def)
    then show ?thesis using a other shared_ok_rejected [OF ok [of k] 1(2), of m] unfolding shared_sim_def by simp
  qed
qed

section \<open>Properties\<close>

lemma fresh_sims: "0 < window \<Longrightarrow> local_sim window prev {} (\<lambda>_. []) no_hits" "shared_sim window prev {} (\<lambda>_. []) no_hits"
  by (auto simp: local_sim_def shared_sim_def local_ok_def shared_ok_def past_def no_hits_def intro!: exI [of _ "prev - window"])

lemma earliest: obtains prev where "\<forall>(k, t, m) \<in> set hs. prev \<le> (t :: rat) \<and> m \<notin> {}"
proof (cases hs)
  case Nil
  then show ?thesis using that by simp
next
  case Cons
  then have "\<forall>(k, t, m) \<in> set hs. Min ((\<lambda>(k, t, m). t) ` set hs) \<le> t \<and> m \<notin> {}" by (force intro: Min_le)
  then show ?thesis using that by blast
qed

text \<open>
  C23. The deque in the process and the sorted set in Redis are the same limiter: fed the same hits at
  non-decreasing times both admit exactly the hits that the specification admits, which counts
  every admitted hit of the key in the last window. Losing a Redis key to its TTL changes nothing.
\<close>

theorem backends_agree_with_spec:
  assumes "0 < limit" and "0 < window" and "ordered_hits hs"
  shows "admitted (hit_local limit window) hs no_hits = spec_admitted limit window hs (\<lambda>_. [])
    \<and> admitted (hit_shared limit window) hs no_hits = spec_admitted limit window hs (\<lambda>_. [])"
proof -
  obtain prev where "\<forall>(k, t, m) \<in> set hs. prev \<le> t \<and> m \<notin> {}" by (rule earliest)
  from process.admitted_spec [OF assms(2,1) fresh_sims(1) [OF assms(2)] assms(3) this]
    shared.admitted_spec [OF assms(2,1) fresh_sims(2) [of window] assms(3) this]
  show ?thesis by blast
qed

text \<open>
  No sliding window of the configured length ever holds more admitted hits of one principal than
  the limit, wherever it starts; traffic of other principals does not matter.
\<close>

theorem limit_holds_in_every_window:
  assumes "0 < limit" and "0 < window" and "ordered_hits hs"
  shows "in_window k window x (admitted (hit_local limit window) hs no_hits) \<le> limit
    \<and> in_window k window x (admitted (hit_shared limit window) hs no_hits) \<le> limit"
proof -
  obtain prev where "\<forall>(k, t, m) \<in> set hs. prev \<le> t \<and> m \<notin> {}" by (rule earliest)
  from process.never_above_limit [OF assms(2,1) fresh_sims(1) [OF assms(2)] assms(3) this]
    shared.never_above_limit [OF assms(2,1) fresh_sims(2) [of window] assms(3) this]
  show ?thesis by blast
qed

text \<open>With Redis required, a missing or failing Redis refuses every hit and counts nothing.\<close>

lemma limiter_fails_closed:
  "redis \<noteq> RedisUp \<Longrightarrow> hit_redis True redis k limit window mtime now m st = (Inl LimiterUnavailable, st)"
  by (cases redis) (simp_all add: hit_redis_def fall_back_def)

definition sample_hits :: hits where
  "sample_hits = map (\<lambda>i. ((''pin'', ''user:1''), of_nat i * 10, replicate i CHR ''x'')) [0 ..< 9]"

lemma sample_hits_ordered: "ordered_hits sample_hits"
  by (simp add: ordered_hits_def sample_hits_def upt_rec)

lemma backends_agree_with_spec_witness:
  "length (admitted (hit_local 5 60) sample_hits no_hits) = 8
   \<and> admitted (hit_local 5 60) sample_hits no_hits = admitted (hit_shared 5 60) sample_hits no_hits"
  using backends_agree_with_spec [OF _ _ sample_hits_ordered, of 5 60]
  by (simp add: sample_hits_def upt_rec spec_hit_def)

lemma limit_holds_in_every_window_witness:
  "in_window (''pin'', ''user:1'') 60 55 (admitted (hit_local 5 60) sample_hits no_hits) \<le> 5"
  using limit_holds_in_every_window [OF _ _ sample_hits_ordered, of 5 60] by simp

end
