(* ===== verification/Tokens.thy ===== *)
theory Tokens
  imports Notifier Providers
begin

text \<open>
  The session tokens (\<open>issue_session_token\<close>, \<open>decode_session_token\<close> of \<open>backend/app/pin.py\<close>,
  \<open>issue_totp_session_token\<close>, \<open>decode_totp_session_token\<close>, \<open>validate_totp_session\<close> of
  \<open>backend/app/auth_2fa.py\<close>) and the gate of the PIN session (\<open>require_pin_session\<close> of
  \<open>backend/app/deps.py\<close>). A token is a JWT over the user id and an epoch; a session is alive while
  the epoch in the token is the one in the user's row. The JWT library is a parameter. Times are
  seconds.
\<close>

section \<open>Decimal strings\<close>

definition is_digit :: "char \<Rightarrow> bool" where
  "is_digit c = (48 \<le> (of_char c :: nat) \<and> (of_char c :: nat) \<le> 57)"

definition digit_value :: "char \<Rightarrow> int" where
  "digit_value c = int (of_char c) - 48"

text \<open>\<open>int(s)\<close> of a string: blanks around, a sign, digits with single underscores between them.\<close>

fun digits_value :: "int \<Rightarrow> string \<Rightarrow> int option" where
  "digits_value acc [] = Some acc"
| "digits_value acc (c # cs) =
     (if is_digit c then digits_value (10 * acc + digit_value c) cs
      else if c = CHR ''_''
           then (case cs of [] \<Rightarrow> None
                 | d # _ \<Rightarrow> if is_digit d then digits_value acc cs else None)
           else None)"

definition unsigned_value :: "string \<Rightarrow> int option" where
  "unsigned_value s = (case s of [] \<Rightarrow> None | c # _ \<Rightarrow> if is_digit c then digits_value 0 s else None)"

definition python_int :: "string \<Rightarrow> int option" where
  "python_int s =
     (case strip s of
        [] \<Rightarrow> None
      | c # cs \<Rightarrow>
          if c = CHR ''-'' then map_option uminus (unsigned_value cs)
          else if c = CHR ''+'' then unsigned_value cs
          else unsigned_value (c # cs))"

lemma digit_char: "n < 10 \<Longrightarrow> is_digit (char_of (48 + n)) \<and> digit_value (char_of (48 + n)) = int n"
  by (simp add: is_digit_def digit_value_def)

lemma digits_value_append:
  "list_all is_digit xs \<Longrightarrow> digits_value acc (xs @ ys) = digits_value (the (digits_value acc xs)) ys"
  by (induction xs arbitrary: acc) auto

lemma show_nat_fuel_digits:
  "n < k \<Longrightarrow> list_all is_digit (show_nat_fuel k n) \<and> show_nat_fuel k n \<noteq> []
     \<and> digits_value 0 (show_nat_fuel k n) = Some (int n)"
proof (induction k arbitrary: n)
  case 0
  then show ?case by simp
next
  case (Suc k)
  show ?case
  proof (cases "n < 10")
    case True
    then show ?thesis using digit_char [of n] by simp
  next
    case False
    then have "n div 10 < k" using Suc.prems by simp
    moreover have "10 * int (n div 10) + int (n mod 10) = int n" by presburger
    ultimately show ?thesis using Suc.IH [of "n div 10"] digit_char [of "n mod 10"] False
      by (auto simp: digits_value_append)
  qed
qed

lemma show_nat_value:
  "list_all is_digit (show_nat n)" "show_nat n \<noteq> []" "unsigned_value (show_nat n) = Some (int n)"
  using show_nat_fuel_digits [of n "Suc n"]
  by (auto simp: show_nat_def unsigned_value_def list_all_iff split: list.splits)

lemma digit_not_space: "is_digit c \<Longrightarrow> \<not> is_space c"
  by (auto simp: is_digit_def is_space_def Let_def)

lemma strip_solid: "s \<noteq> [] \<Longrightarrow> \<not> is_space (hd s) \<Longrightarrow> \<not> is_space (List.last s) \<Longrightarrow> strip s = s"
  by (simp add: strip_def dropWhile_eq_self_iff [THEN iffD2] hd_rev)

lemma python_int_show_int: "python_int (show_int i) = Some i"
proof -
  note n = show_nat_value [of "nat (- i)"] and p = show_nat_value [of "nat i"]
  have solid: "strip s = s" if "list_all is_digit s" "s \<noteq> []" for s
    using that by (intro strip_solid) (auto simp: list_all_iff digit_not_space)
  have sign: "\<not> is_space CHR ''-''" by (simp add: is_space_def)
  have minus: "strip (CHR ''-'' # s) = CHR ''-'' # s" if "list_all is_digit s" "s \<noteq> []" for s
    using that by (intro strip_solid) (auto simp: list_all_iff digit_not_space sign)
  show ?thesis
  proof (cases "i < 0")
    case True
    then show ?thesis using minus [OF n(1,2)] n(3) by (simp add: python_int_def show_int_def)
  next
    case False
    obtain c cs where c: "show_nat (nat i) = c # cs" "is_digit c" using p(1,2) by (cases "show_nat (nat i)") auto
    then have "c \<noteq> CHR ''-''" "c \<noteq> CHR ''+''" by (auto simp: is_digit_def)
    then show ?thesis using False solid [OF p(1,2)] p(3) c(1) by (simp add: python_int_def show_int_def)
  qed
qed

section \<open>JWT\<close>

text \<open>What a decoded \<open>epoch\<close> claim can be: an integer, absent (old tokens), or something \<open>int\<close> refuses.\<close>

datatype epoch_claim = EpochInt int | EpochAbsent | EpochBad

record claims =
  cl_sub :: "string option"
  cl_iss :: string
  cl_iat :: int
  cl_exp :: int
  cl_jti :: string
  cl_epoch :: epoch_claim

text \<open>\<open>jwt.encode(payload, key)\<close>, and \<open>jwt.decode(token, key, issuer)\<close> at a time; a \<open>PyJWTError\<close> is \<open>None\<close>.\<close>

record jwt_lib =
  jwt_encode :: "claims \<Rightarrow> string \<Rightarrow> string"
  jwt_decode :: "string \<Rightarrow> string \<Rightarrow> string \<Rightarrow> int \<Rightarrow> claims option"

text \<open>What PyJWT documents: a token decodes, under its key, to its claims; the issuer must be the
  expected one, \<open>iat\<close> must not lie in the future, \<open>exp\<close> not in the past. A token is never empty.\<close>

definition jwt_ok :: "jwt_lib \<Rightarrow> bool" where
  "jwt_ok lib \<longleftrightarrow> (\<forall>c key iss now. jwt_encode lib c key \<noteq> [] \<and> jwt_decode lib (jwt_encode lib c key) key iss now =
     (if cl_iss c = iss \<and> cl_iat c \<le> now \<and> now < cl_exp c then Some c else None))"

definition decode_claims :: "claims option \<Rightarrow> (int \<times> int) option" where
  "decode_claims payload =
     (case payload of
        None \<Rightarrow> None
      | Some c \<Rightarrow>
          (case cl_sub c of
             None \<Rightarrow> None
           | Some sub \<Rightarrow>
               if sub = [] then None
               else case python_int sub of
                 None \<Rightarrow> None
               | Some user_id \<Rightarrow>
                   (case cl_epoch c of
                      EpochInt e \<Rightarrow> Some (user_id, e)
                    | EpochAbsent \<Rightarrow> Some (user_id, 0)
                    | EpochBad \<Rightarrow> None)))"

section \<open>Configuration\<close>

text \<open>The part of \<open>Settings\<close> that the account code reads. \<open>ac_pin_secret\<close> is the value of \<open>pin_secret()\<close>.\<close>

record auth_settings =
  ac_pin_secret :: string
  ac_pin_pepper :: string
  ac_pin_session_ttl_seconds :: int
  ac_pin_session_jwt_ttl_seconds :: int
  ac_pin_max_attempts :: int
  ac_pin_lock_minutes :: int
  ac_pin_reset_code_ttl_seconds :: int
  ac_pin_activity_debounce_seconds :: int
  ac_totp_session_ttl_seconds :: int
  ac_account_transfer_code_ttl_seconds :: int
  ac_account_transfer_max_code_generation_attempts :: nat
  ac_account_transfer_code_len :: nat
  ac_require_redis_for_2fa :: bool
  ac_production :: bool

section \<open>PIN sessions\<close>

definition JWT_ISSUER :: string where "JWT_ISSUER = ''garant-pin''"

definition issue_session_token :: "auth_settings \<Rightarrow> jwt_lib \<Rightarrow> int \<Rightarrow> string \<Rightarrow> int \<Rightarrow> int \<Rightarrow> string \<times> int" where
  "issue_session_token cfg lib now jti user_id epoch =
     (let expires = now + ac_pin_session_jwt_ttl_seconds cfg;
          payload = \<lparr> cl_sub = Some (show_int user_id), cl_iss = JWT_ISSUER, cl_iat = now,
                      cl_exp = expires, cl_jti = jti, cl_epoch = EpochInt epoch \<rparr>
      in (jwt_encode lib payload (ac_pin_secret cfg), expires))"

definition decode_session_token :: "auth_settings \<Rightarrow> jwt_lib \<Rightarrow> int \<Rightarrow> string \<Rightarrow> (int \<times> int) option" where
  "decode_session_token cfg lib now token =
     decode_claims (jwt_decode lib token (ac_pin_secret cfg) JWT_ISSUER now)"

text \<open>\<open>require_pin_session\<close>: the last activity is stamped on the row, at most once per debounce.\<close>

definition require_pin_session ::
  "int \<Rightarrow> auth_settings \<Rightarrow> jwt_lib \<Rightarrow> user \<Rightarrow> string option \<Rightarrow> world \<Rightarrow> user result" where
  "require_pin_session now cfg lib u x_pin_token w =
     (if (case u_pin_hash u of None \<Rightarrow> True | Some h \<Rightarrow> h = []) then (Inl (HTTP 403 (E_other ''pin_not_set'')), w)
      else case x_pin_token of
        None \<Rightarrow> (Inl (HTTP 401 (E_other ''pin_session_missing'')), w)
      | Some token \<Rightarrow>
      if token = [] then (Inl (HTTP 401 (E_other ''pin_session_missing'')), w)
      else case decode_session_token cfg lib now token of
        None \<Rightarrow> (Inl (HTTP 401 (E_other ''pin_session_invalid'')), w)
      | Some (token_user_id, token_epoch) \<Rightarrow>
      if token_user_id \<noteq> u_id u then (Inl (HTTP 401 (E_other ''pin_session_invalid'')), w)
      else if token_epoch \<noteq> u_pin_session_epoch u then (Inl (HTTP 401 (E_other ''pin_session_revoked'')), w)
      else if (case u_pin_last_activity_at u of None \<Rightarrow> False
               | Some prev \<Rightarrow> ac_pin_session_ttl_seconds cfg < now - prev)
           then (Inl (HTTP 401 (E_other ''pin_session_idle'')), w)
      else if (case u_pin_last_activity_at u of None \<Rightarrow> True
               | Some prev \<Rightarrow> ac_pin_activity_debounce_seconds cfg \<le> now - prev)
           then let u' = u \<lparr> u_pin_last_activity_at := Some now \<rparr> in (Inr u', save_user u' w)
      else (Inr u, w))"

section \<open>TOTP sessions\<close>

definition TOTP_SESSION_JWT_ISSUER :: string where "TOTP_SESSION_JWT_ISSUER = ''garant-totp''"

definition issue_totp_session_token :: "auth_settings \<Rightarrow> jwt_lib \<Rightarrow> int \<Rightarrow> string \<Rightarrow> int \<Rightarrow> int \<Rightarrow> string \<times> int" where
  "issue_totp_session_token cfg lib now jti user_id epoch =
     (let expires = now + ac_totp_session_ttl_seconds cfg;
          payload = \<lparr> cl_sub = Some (show_int user_id), cl_iss = TOTP_SESSION_JWT_ISSUER, cl_iat = now,
                      cl_exp = expires, cl_jti = jti, cl_epoch = EpochInt epoch \<rparr>
      in (jwt_encode lib payload (ac_pin_secret cfg), expires))"

definition decode_totp_session_token :: "auth_settings \<Rightarrow> jwt_lib \<Rightarrow> int \<Rightarrow> string \<Rightarrow> (int \<times> int) option" where
  "decode_totp_session_token cfg lib now token =
     decode_claims (jwt_decode lib token (ac_pin_secret cfg) TOTP_SESSION_JWT_ISSUER now)"

definition validate_totp_session :: "int \<Rightarrow> auth_settings \<Rightarrow> jwt_lib \<Rightarrow> user \<Rightarrow> string option \<Rightarrow> bool" where
  "validate_totp_session now cfg lib u token =
     (case token of
        None \<Rightarrow> False
      | Some t \<Rightarrow>
          if t = [] then False
          else case decode_totp_session_token cfg lib now t of
            None \<Rightarrow> False
          | Some (token_user_id, token_epoch) \<Rightarrow>
              if token_user_id \<noteq> u_id u then False
              else if token_epoch \<noteq> u_totp_session_epoch u then False
              else u_totp_enabled u)"

section \<open>The contract of a session\<close>

text \<open>
  Both kinds of session promise the same: what is issued decodes to the user and the epoch while it
  lives, and a request is let through only with a token of this user and of the row's epoch. From
  that follows the revocation: once the epoch of the row differs, no token issued before passes.
\<close>

locale session =
  fixes issue :: "auth_settings \<Rightarrow> jwt_lib \<Rightarrow> int \<Rightarrow> string \<Rightarrow> int \<Rightarrow> int \<Rightarrow> string \<times> int"
    and decode :: "auth_settings \<Rightarrow> jwt_lib \<Rightarrow> int \<Rightarrow> string \<Rightarrow> (int \<times> int) option"
    and passes :: "int \<Rightarrow> auth_settings \<Rightarrow> jwt_lib \<Rightarrow> user \<Rightarrow> string \<Rightarrow> bool"
    and epoch :: "user \<Rightarrow> int"
    and ttl :: "auth_settings \<Rightarrow> int"
  assumes decode_issue: "jwt_ok lib \<Longrightarrow> issued \<le> now \<Longrightarrow>
      decode cfg lib now (fst (issue cfg lib issued jti i e)) = (if now < issued + ttl cfg then Some (i, e) else None)"
    and passes_decode: "passes now cfg lib u t \<Longrightarrow> decode cfg lib now t = Some (u_id u, epoch u)"
begin

lemma passes_own_epoch:
  assumes "jwt_ok lib" and "issued \<le> now" and "passes now cfg lib u (fst (issue cfg lib issued jti i e))"
  shows "i = u_id u \<and> e = epoch u \<and> now < issued + ttl cfg"
  using passes_decode [OF assms(3)] decode_issue [OF assms(1,2), of cfg jti i e] by (simp split: if_splits)

lemma revoked:
  assumes "jwt_ok lib" and "issued \<le> now" and "epoch u \<noteq> e"
  shows "\<not> passes now cfg lib u (fst (issue cfg lib issued jti i e))"
  using passes_own_epoch [OF assms(1,2)] assms(3) by blast

end

definition pin_passes :: "int \<Rightarrow> auth_settings \<Rightarrow> jwt_lib \<Rightarrow> user \<Rightarrow> string \<Rightarrow> bool" where
  "pin_passes now cfg lib u t \<longleftrightarrow> (\<exists>w. succeeds (require_pin_session now cfg lib u (Some t) w))"

definition totp_passes :: "int \<Rightarrow> auth_settings \<Rightarrow> jwt_lib \<Rightarrow> user \<Rightarrow> string \<Rightarrow> bool" where
  "totp_passes now cfg lib u t = validate_totp_session now cfg lib u (Some t)"

lemma show_int_nonempty: "show_int i \<noteq> []"
  using show_nat_value(2) by (auto simp: show_int_def)

interpretation pin: session issue_session_token decode_session_token pin_passes u_pin_session_epoch ac_pin_session_jwt_ttl_seconds
proof (unfold_locales, goal_cases)
  case (1 lib issued now cfg jti i e)
  then show ?case
    by (simp add: issue_session_token_def decode_session_token_def decode_claims_def jwt_ok_def Let_def python_int_show_int show_int_nonempty)
next
  case (2 now cfg lib u t)
  then show ?case by (auto simp: pin_passes_def require_pin_session_def Let_def split: if_splits option.splits)
qed

interpretation totp: session issue_totp_session_token decode_totp_session_token totp_passes u_totp_session_epoch ac_totp_session_ttl_seconds
proof (unfold_locales, goal_cases)
  case (1 lib issued now cfg jti i e)
  then show ?case
    by (simp add: issue_totp_session_token_def decode_totp_session_token_def decode_claims_def jwt_ok_def Let_def
        python_int_show_int show_int_nonempty)
next
  case (2 now cfg lib u t)
  then show ?case by (auto simp: totp_passes_def validate_totp_session_def split: if_splits option.splits)
qed

section \<open>An instance\<close>

text \<open>A concrete library that keeps what \<open>jwt_ok\<close> documents: the claims and the key written one after
  the other, numbers in unary.\<close>

definition put_nat :: "nat \<Rightarrow> string" where "put_nat n = replicate n CHR ''1'' @ ''0''"

definition get_nat :: "string \<Rightarrow> nat \<times> string" where
  "get_nat s = (length (takeWhile (\<lambda>c. c = CHR ''1'') s), tl (dropWhile (\<lambda>c. c = CHR ''1'') s))"

definition put_int :: "int \<Rightarrow> string" where
  "put_int i = put_nat (if i < 0 then 1 else 0) @ put_nat (nat (abs i))"

definition get_int :: "string \<Rightarrow> int \<times> string" where
  "get_int s = (case get_nat s of (sg, s1) \<Rightarrow> case get_nat s1 of (n, s2) \<Rightarrow> (if sg = 1 then - int n else int n, s2))"

definition put_str :: "string \<Rightarrow> string" where "put_str t = put_nat (length t) @ t"

definition get_str :: "string \<Rightarrow> string \<times> string" where
  "get_str s = (case get_nat s of (n, s1) \<Rightarrow> (take n s1, drop n s1))"

definition put_sub :: "string option \<Rightarrow> string" where
  "put_sub x = (case x of None \<Rightarrow> put_nat 0 | Some t \<Rightarrow> put_nat 1 @ put_str t)"

definition get_sub :: "string \<Rightarrow> string option \<times> string" where
  "get_sub s = (case get_nat s of (k, s1) \<Rightarrow> if k = 0 then (None, s1) else apfst Some (get_str s1))"

definition put_epoch :: "epoch_claim \<Rightarrow> string" where
  "put_epoch x = (case x of EpochAbsent \<Rightarrow> put_nat 0 | EpochBad \<Rightarrow> put_nat 1 | EpochInt i \<Rightarrow> put_nat 2 @ put_int i)"

definition get_epoch :: "string \<Rightarrow> epoch_claim \<times> string" where
  "get_epoch s = (case get_nat s of (k, s1) \<Rightarrow>
     if k = 0 then (EpochAbsent, s1) else if k = 1 then (EpochBad, s1) else apfst EpochInt (get_int s1))"

definition put_claims :: "claims \<Rightarrow> string" where
  "put_claims c = put_sub (cl_sub c) @ put_str (cl_iss c) @ put_int (cl_iat c) @ put_int (cl_exp c)
     @ put_str (cl_jti c) @ put_epoch (cl_epoch c)"

definition get_claims :: "string \<Rightarrow> claims \<times> string" where
  "get_claims s =
     (case get_sub s of (sub, s1) \<Rightarrow> case get_str s1 of (iss, s2) \<Rightarrow> case get_int s2 of (iat, s3) \<Rightarrow>
      case get_int s3 of (ex, s4) \<Rightarrow> case get_str s4 of (jti, s5) \<Rightarrow> case get_epoch s5 of (ep, s6) \<Rightarrow>
      (\<lparr> cl_sub = sub, cl_iss = iss, cl_iat = iat, cl_exp = ex, cl_jti = jti, cl_epoch = ep \<rparr>, s6))"

lemma get_put [simp]:
  "get_nat (put_nat n @ s) = (n, s)" "get_int (put_int i @ s) = (i, s)" "get_str (put_str t @ s) = (t, s)"
  "get_sub (put_sub x @ s) = (x, s)" "get_epoch (put_epoch e @ s) = (e, s)" "get_claims (put_claims c @ s) = (c, s)"
proof -
  show n: "get_nat (put_nat n @ s) = (n, s)" for n s
    by (induction n) (auto simp: get_nat_def put_nat_def)
  show i: "get_int (put_int i @ s) = (i, s)" for i s by (simp add: get_int_def put_int_def n)
  show t: "get_str (put_str t @ s) = (t, s)" for t s by (simp add: get_str_def put_str_def n)
  show x: "get_sub (put_sub x @ s) = (x, s)" for s by (simp add: get_sub_def put_sub_def n t split: option.split)
  show e: "get_epoch (put_epoch e @ s) = (e, s)" for s by (simp add: get_epoch_def put_epoch_def n i split: epoch_claim.split)
  show "get_claims (put_claims c @ s) = (c, s)"
    by (cases c) (simp add: get_claims_def put_claims_def i t get_sub_def put_sub_def get_epoch_def put_epoch_def n
        split: option.split epoch_claim.split)
qed

definition sample_jwt :: jwt_lib where
  "sample_jwt = \<lparr> jwt_encode = (\<lambda>c key. put_str key @ put_claims c),
     jwt_decode = (\<lambda>t key iss now. case get_str t of (k, s1) \<Rightarrow> case get_claims s1 of (c, s2) \<Rightarrow>
        if k = key \<and> s2 = [] \<and> cl_iss c = iss \<and> cl_iat c \<le> now \<and> now < cl_exp c then Some c else None) \<rparr>"

lemma put_str_nonempty [simp]: "put_str t \<noteq> []"
  by (simp add: put_str_def put_nat_def)

lemma sample_jwt_ok: "jwt_ok sample_jwt"
  using get_put(6) [of _ "[]"] by (simp add: jwt_ok_def sample_jwt_def)

definition sample_auth :: auth_settings where
  "sample_auth = \<lparr> ac_pin_secret = ''secret'', ac_pin_pepper = [], ac_pin_session_ttl_seconds = 1800,
     ac_pin_session_jwt_ttl_seconds = 2592000, ac_pin_max_attempts = 3, ac_pin_lock_minutes = 60,
     ac_pin_reset_code_ttl_seconds = 600, ac_pin_activity_debounce_seconds = 30,
     ac_totp_session_ttl_seconds = 86400, ac_account_transfer_code_ttl_seconds = 900,
     ac_account_transfer_max_code_generation_attempts = 100, ac_account_transfer_code_len = 6,
     ac_require_redis_for_2fa = False, ac_production = False \<rparr>"

end
