(* ===== verification/Pins.thy ===== *)
theory Pins
  imports Tokens Trail AdminMoney
begin

text \<open>
  PIN codes (\<open>backend/app/pin.py\<close>, \<open>backend/app/routers/pin.py\<close>): setting, checking and changing a
  PIN, the lock after too many wrong guesses, and the reset by a code sent through the bot, free a
  few times a day or paid from the USD balance. bcrypt and the hashes are parameters. The rate
  limiter in front of the endpoints is \<open>Rate_Limit\<close>. Strings are ASCII.
\<close>

section \<open>Hashing\<close>

text \<open>bcrypt with an explicit salt; \<open>checkpw\<close> raises \<open>ValueError\<close> on a malformed hash (\<open>None\<close>).\<close>

record crypto =
  bcrypt_hashpw :: "string \<Rightarrow> string \<Rightarrow> string"
  bcrypt_checkpw :: "string \<Rightarrow> string \<Rightarrow> bool option"
  hmac_sha256_hex :: "string \<Rightarrow> string \<Rightarrow> string"
  sha256_hex :: "string \<Rightarrow> string"

text \<open>What bcrypt documents: the password that was hashed checks, and a hash is not empty; a hex
  digest is not empty.\<close>

definition crypto_ok :: "crypto \<Rightarrow> bool" where
  "crypto_ok cr \<longleftrightarrow> (\<forall>p salt. bcrypt_checkpw cr p (bcrypt_hashpw cr p salt) = Some True
     \<and> bcrypt_hashpw cr p salt \<noteq> []) \<and> (\<forall>s. sha256_hex cr s \<noteq> []) \<and> (\<forall>k m. hmac_sha256_hex cr k m \<noteq> [])"

definition is_pin_format_valid :: "string \<Rightarrow> bool" where
  "is_pin_format_valid pin = (length pin = 4 \<and> list_all is_digit pin)"

definition COMMON_PINS :: "string list" where
  "COMMON_PINS =
     [''0000'', ''1111'', ''2222'', ''3333'', ''4444'', ''5555'', ''6666'', ''7777'', ''8888'', ''9999'',
      ''1234'', ''0123'', ''4321'', ''9876'', ''2345'', ''3456'', ''4567'', ''5678'', ''6789'', ''0987'',
      ''8765'', ''7654'', ''6543'', ''5432'', ''3210'', ''1212'', ''2121'', ''1313'', ''1010'', ''2020'',
      ''3030'', ''4040'', ''5050'', ''6060'', ''7070'', ''8080'', ''9090'', ''1122'', ''2233'', ''3344'',
      ''4455'', ''5566'', ''1414'', ''2580'', ''1379'', ''3690'', ''0258'', ''0852'', ''1470'', ''0147'',
      ''7410'', ''1593'', ''1960'', ''1961'', ''1962'', ''1963'', ''1964'', ''1965'', ''1966'', ''1967'',
      ''1968'', ''1969'', ''1970'', ''1971'', ''1972'', ''1973'', ''1974'', ''1975'', ''1976'', ''1977'',
      ''1978'', ''1979'', ''1980'', ''1981'', ''1982'', ''1983'', ''1984'', ''1985'', ''1986'', ''1987'',
      ''1988'', ''1989'', ''1990'', ''1991'', ''1992'', ''1993'', ''1994'', ''1995'', ''1996'', ''1997'',
      ''1998'', ''1999'', ''2000'', ''2001'', ''2002'', ''2010'', ''1004'', ''6969'', ''4242'', ''0420'',
      ''0007'', ''0911'', ''1701'', ''2468'', ''1337'']"

definition is_pin_too_common :: "string \<Rightarrow> bool" where
  "is_pin_too_common pin = (pin \<in> set COMMON_PINS)"

definition peppered_pin :: "auth_settings \<Rightarrow> crypto \<Rightarrow> string \<Rightarrow> string" where
  "peppered_pin cfg cr pin =
     (if ac_pin_pepper cfg = [] then pin else hmac_sha256_hex cr (ac_pin_pepper cfg) pin)"

definition hash_pin :: "auth_settings \<Rightarrow> crypto \<Rightarrow> string \<Rightarrow> string \<Rightarrow> string" where
  "hash_pin cfg cr salt pin = bcrypt_hashpw cr (peppered_pin cfg cr pin) salt"

definition verify_pin :: "auth_settings \<Rightarrow> crypto \<Rightarrow> string \<Rightarrow> string \<Rightarrow> bool" where
  "verify_pin cfg cr pin pin_hash =
     (if pin_hash = [] then False
      else case bcrypt_checkpw cr (peppered_pin cfg cr pin) pin_hash of None \<Rightarrow> False | Some b \<Rightarrow> b)"

definition hash_reset_code :: "crypto \<Rightarrow> string \<Rightarrow> string" where
  "hash_reset_code cr code = sha256_hex cr code"

definition verify_reset_code :: "crypto \<Rightarrow> string \<Rightarrow> string \<Rightarrow> bool" where
  "verify_reset_code cr code code_hash = (if code_hash = [] then False else hash_reset_code cr code = code_hash)"

section \<open>Helpers\<close>

text \<open>\<open>not s\<close> of a string that may be \<open>None\<close>.\<close>

definition falsy :: "string option \<Rightarrow> bool" where
  "falsy h = (case h of None \<Rightarrow> True | Some s \<Rightarrow> s = [])"

text \<open>\<open>SELECT ... FOR UPDATE\<close> with \<open>populate_existing\<close>: the row as it is now.\<close>

definition lock_user_for_pin :: "user \<Rightarrow> world \<Rightarrow> py_error + user" where
  "lock_user_for_pin u w =
     (case get_user (u_id u) w of None \<Rightarrow> Inl (HTTP 401 E_user_not_found) | Some row \<Rightarrow> Inr row)"

definition is_locked :: "int \<Rightarrow> user \<Rightarrow> bool" where
  "is_locked now u = (case u_pin_locked_until u of None \<Rightarrow> False | Some t \<Rightarrow> now < t)"

definition attempts_left :: "auth_settings \<Rightarrow> user \<Rightarrow> int" where
  "attempts_left cfg u = max 0 (ac_pin_max_attempts cfg - u_pin_attempts u)"

record pin_status =
  ps_has_pin :: bool
  ps_attempts_left :: int
  ps_locked_until :: "int option"
  ps_max_attempts :: int
  ps_session_ttl_seconds :: int

definition pin_status_of :: "int \<Rightarrow> auth_settings \<Rightarrow> user \<Rightarrow> pin_status" where
  "pin_status_of now cfg u =
     \<lparr> ps_has_pin = (\<not> falsy (u_pin_hash u)), ps_attempts_left = attempts_left cfg u,
       ps_locked_until = (if is_locked now u then u_pin_locked_until u else None),
       ps_max_attempts = ac_pin_max_attempts cfg, ps_session_ttl_seconds = ac_pin_session_ttl_seconds cfg \<rparr>"

definition token_response :: "int \<Rightarrow> auth_settings \<Rightarrow> jwt_lib \<Rightarrow> string \<Rightarrow> user \<Rightarrow> string \<times> int" where
  "token_response now cfg lib jti u = issue_session_token cfg lib now jti (u_id u) (u_pin_session_epoch u)"

abbreviation bad_pin_format :: py_error where "bad_pin_format \<equiv> HTTP 400 (E_other ''pin_format'')"
abbreviation weak_pin :: py_error where "weak_pin \<equiv> HTTP 400 (E_other ''pin_too_common'')"
abbreviation pin_not_set :: py_error where "pin_not_set \<equiv> HTTP 409 (E_other ''pin_not_set'')"
abbreviation pin_is_locked :: py_error where "pin_is_locked \<equiv> HTTP 423 (E_other ''pin_is_locked'')"
abbreviation pin_lockout :: py_error where "pin_lockout \<equiv> HTTP 423 (E_other ''pin_lockout'')"
abbreviation wrong_secret :: py_error where "wrong_secret \<equiv> HTTP 401 (E_other ''wrong_secret'')"

text \<open>The wrong PIN and the wrong reset code share the counter, and the lock when it is full.\<close>

definition wrong_attempt :: "int \<Rightarrow> auth_settings \<Rightarrow> user \<Rightarrow> world \<Rightarrow> 'a result" where
  "wrong_attempt now cfg u w =
     (let attempts = u_pin_attempts u + 1 in
      if ac_pin_max_attempts cfg \<le> attempts
      then (Inl pin_lockout,
            save_user (u \<lparr> u_pin_locked_until := Some (now + 60 * ac_pin_lock_minutes cfg), u_pin_attempts := 0 \<rparr>) w)
      else (Inl wrong_secret, save_user (u \<lparr> u_pin_attempts := attempts \<rparr>) w))"

section \<open>Setting, checking, changing\<close>

text \<open>
  \<open>pin_setup\<close> works on the row \<open>CurrentUser\<close> loaded, without a lock: the flush writes the
  columns whose value it changes.
\<close>

definition assigned :: "'a \<Rightarrow> 'a \<Rightarrow> 'a \<Rightarrow> 'a" where
  "assigned loaded new stored = (if new = loaded then stored else new)"

definition pin_setup ::
  "int \<Rightarrow> auth_settings \<Rightarrow> crypto \<Rightarrow> jwt_lib \<Rightarrow> string \<Rightarrow> string \<Rightarrow> user \<Rightarrow> string \<Rightarrow> world \<Rightarrow> (string \<times> int) result" where
  "pin_setup now cfg cr lib jti salt u pin w =
     (if \<not> falsy (u_pin_hash u) then (Inl (HTTP 409 (E_other ''pin_already_set'')), w)
      else if \<not> is_pin_format_valid pin then (Inl bad_pin_format, w)
      else if is_pin_too_common pin then (Inl weak_pin, w)
      else case get_user (u_id u) w of
        None \<Rightarrow> (Inl (RuntimeErr (E_other ''StaleDataError'')), w)
      | Some row \<Rightarrow>
          let row' = row \<lparr> u_pin_hash := Some (hash_pin cfg cr salt pin),
                 u_pin_attempts := assigned (u_pin_attempts u) 0 (u_pin_attempts row),
                 u_pin_locked_until := assigned (u_pin_locked_until u) None (u_pin_locked_until row),
                 u_pin_reset_code_hash := assigned (u_pin_reset_code_hash u) None (u_pin_reset_code_hash row),
                 u_pin_reset_expires := assigned (u_pin_reset_expires u) None (u_pin_reset_expires row),
                 u_pin_last_activity_at := Some now \<rparr>
          in (Inr (token_response now cfg lib jti u), save_user row' w))"

definition pin_check ::
  "int \<Rightarrow> auth_settings \<Rightarrow> crypto \<Rightarrow> jwt_lib \<Rightarrow> string \<Rightarrow> user \<Rightarrow> string \<Rightarrow> world \<Rightarrow> (string \<times> int) result" where
  "pin_check now cfg cr lib jti u0 pin w =
     (if falsy (u_pin_hash u0) then (Inl pin_not_set, w)
      else if \<not> is_pin_format_valid pin then (Inl bad_pin_format, w)
      else case lock_user_for_pin u0 w of Inl e \<Rightarrow> (Inl e, w) | Inr u \<Rightarrow>
      if is_locked now u then (Inl pin_is_locked, w)
      else case u_pin_hash u of None \<Rightarrow> (Inl pin_not_set, w) | Some pin_hash \<Rightarrow>
      if \<not> verify_pin cfg cr pin pin_hash then wrong_attempt now cfg u w
      else let u' = u \<lparr> u_pin_attempts := 0, u_pin_locked_until := None, u_pin_last_activity_at := Some now \<rparr>
           in (Inr (token_response now cfg lib jti u'), save_user u' w))"

definition pin_change ::
  "int \<Rightarrow> auth_settings \<Rightarrow> crypto \<Rightarrow> jwt_lib \<Rightarrow> string \<Rightarrow> string \<Rightarrow> user \<Rightarrow> string \<Rightarrow> string \<Rightarrow> world
     \<Rightarrow> (string \<times> int) result" where
  "pin_change now cfg cr lib jti salt u0 old_pin new_pin w =
     (if falsy (u_pin_hash u0) then (Inl pin_not_set, w)
      else if \<not> is_pin_format_valid old_pin then (Inl bad_pin_format, w)
      else if \<not> is_pin_format_valid new_pin then (Inl bad_pin_format, w)
      else case lock_user_for_pin u0 w of Inl e \<Rightarrow> (Inl e, w) | Inr u \<Rightarrow>
      if is_locked now u then (Inl pin_is_locked, w)
      else case u_pin_hash u of None \<Rightarrow> (Inl pin_not_set, w) | Some pin_hash \<Rightarrow>
      if \<not> verify_pin cfg cr old_pin pin_hash then wrong_attempt now cfg u w
      else if is_pin_too_common new_pin then (Inl weak_pin, w)
      else let u' = u \<lparr> u_pin_hash := Some (hash_pin cfg cr salt new_pin), u_pin_attempts := 0,
                       u_pin_locked_until := None, u_pin_session_epoch := u_pin_session_epoch u + 1,
                       u_pin_last_activity_at := Some now \<rparr>
           in (Inr (token_response now cfg lib jti u'), save_user u' w))"

section \<open>Reset by code\<close>

definition PIN_RESET_WINDOW_SECONDS :: int where "PIN_RESET_WINDOW_SECONDS = 24 * 60 * 60"
definition PIN_RESET_MAX_PER_WINDOW :: int where "PIN_RESET_MAX_PER_WINDOW = 3"

text \<open>\<open>code\<close> is the drawn code, \<open>delivered\<close> what the bot answers. The message leaves before the commit.\<close>

definition mint_and_send_reset_code ::
  "int \<Rightarrow> auth_settings \<Rightarrow> crypto \<Rightarrow> string \<Rightarrow> bool \<Rightarrow> user \<Rightarrow> world \<Rightarrow> (bool \<times> int) \<times> world" where
  "mint_and_send_reset_code now cfg cr code delivered u w =
     (let expires = now + ac_pin_reset_code_ttl_seconds cfg;
          u' = u \<lparr> u_pin_reset_code_hash := Some (hash_reset_code cr code), u_pin_reset_expires := Some expires \<rparr>
      in ((delivered, expires), emit [SendCode (u_tg_user_id u) (PinResetCode code)] (save_user u' w)))"

text \<open>The seconds of the \<open>Retry-After\<close> header are \<open>pin_reset_wait\<close>.\<close>

definition pin_reset_elapsed :: "int \<Rightarrow> user \<Rightarrow> int option" where
  "pin_reset_elapsed now u = map_option (\<lambda>start. now - start) (u_pin_reset_window_started_at u)"

definition pin_reset_wait :: "int \<Rightarrow> user \<Rightarrow> int" where
  "pin_reset_wait now u =
     max (PIN_RESET_WINDOW_SECONDS - (case pin_reset_elapsed now u of None \<Rightarrow> 0 | Some e \<Rightarrow> e)) 60"

definition pin_reset_request ::
  "int \<Rightarrow> auth_settings \<Rightarrow> crypto \<Rightarrow> string \<Rightarrow> bool \<Rightarrow> user \<Rightarrow> world \<Rightarrow> (bool \<times> int) result" where
  "pin_reset_request now cfg cr code delivered u0 w =
     (case lock_user_for_pin u0 w of Inl e \<Rightarrow> (Inl e, w) | Inr u \<Rightarrow>
      let u1 = (case pin_reset_elapsed now u of
                  None \<Rightarrow> u \<lparr> u_pin_reset_window_started_at := Some now, u_pin_reset_attempts := 0 \<rparr>
                | Some e \<Rightarrow> if PIN_RESET_WINDOW_SECONDS \<le> e
                            then u \<lparr> u_pin_reset_window_started_at := Some now, u_pin_reset_attempts := 0 \<rparr>
                            else u) in
      if PIN_RESET_MAX_PER_WINDOW \<le> u_pin_reset_attempts u1 then (Inl (HTTP 429 (E_other ''pin_reset_limit'')), w)
      else case mint_and_send_reset_code now cfg cr code delivered
                  (u1 \<lparr> u_pin_reset_attempts := u_pin_reset_attempts u1 + 1 \<rparr>) w
           of (out, w1) \<Rightarrow> (Inr out, w1))"

definition pin_reset_confirm ::
  "int \<Rightarrow> auth_settings \<Rightarrow> crypto \<Rightarrow> jwt_lib \<Rightarrow> string \<Rightarrow> string \<Rightarrow> user \<Rightarrow> string \<Rightarrow> string \<Rightarrow> world
     \<Rightarrow> (string \<times> int) result" where
  "pin_reset_confirm now cfg cr lib jti salt u0 code new_pin w =
     (if \<not> is_pin_format_valid new_pin then (Inl bad_pin_format, w)
      else case lock_user_for_pin u0 w of Inl e \<Rightarrow> (Inl e, w) | Inr u \<Rightarrow>
      if is_locked now u then (Inl pin_is_locked, w)
      else if falsy (u_pin_reset_code_hash u) then (Inl (HTTP 400 (E_other ''no_reset_code'')), w)
      else case (u_pin_reset_code_hash u, u_pin_reset_expires u) of
        (Some code_hash, Some expires) \<Rightarrow>
          if expires < now
          then (Inl (HTTP 400 (E_other ''reset_code_expired'')),
                save_user (u \<lparr> u_pin_reset_code_hash := None, u_pin_reset_expires := None \<rparr>) w)
          else if \<not> verify_reset_code cr code code_hash then wrong_attempt now cfg u w
          else if is_pin_too_common new_pin then (Inl weak_pin, w)
          else let u' = u \<lparr> u_pin_hash := Some (hash_pin cfg cr salt new_pin), u_pin_attempts := 0,
                           u_pin_locked_until := None, u_pin_reset_code_hash := None,
                           u_pin_reset_expires := None, u_pin_session_epoch := u_pin_session_epoch u + 1,
                           u_pin_last_activity_at := Some now \<rparr>
               in (Inr (token_response now cfg lib jti u'), save_user u' w)
      | _ \<Rightarrow> (Inl (HTTP 400 (E_other ''no_reset_code'')), w))"

section \<open>Paid reset\<close>

definition pin_reset_price_of :: "world \<Rightarrow> decimal" where
  "pin_reset_price_of w = (case t_app_settings w of None \<Rightarrow> 3 | Some s \<Rightarrow> s_pin_reset_price_usd s)"

definition usd_currency_or_404 :: "world \<Rightarrow> py_error + currency" where
  "usd_currency_or_404 w =
     (case currency_with_code ''USD'' w of None \<Rightarrow> Inl (HTTP 503 (E_other ''usd_not_configured'')) | Some c \<Rightarrow> Inr c)"

record reset_price =
  rp_price :: decimal
  rp_currency_code :: string
  rp_user_balance :: decimal
  rp_can_afford :: bool

definition pin_reset_price :: "user \<Rightarrow> world \<Rightarrow> py_error + reset_price" where
  "pin_reset_price u w =
     (let price = pin_reset_price_of w in
      case usd_currency_or_404 w of Inl e \<Rightarrow> Inl e | Inr usd \<Rightarrow>
      let balance = (case get_balance (u_id u) (c_id usd) w of None \<Rightarrow> 0 | Some b \<Rightarrow> b_amount b)
      in Inr \<lparr> rp_price = price, rp_currency_code = c_code usd, rp_user_balance = balance,
              rp_can_afford = (price \<le> balance) \<rparr>)"

text \<open>What is charged, and whether and until when the code was delivered.\<close>

definition pin_reset_paid ::
  "int \<Rightarrow> auth_settings \<Rightarrow> crypto \<Rightarrow> string \<Rightarrow> bool \<Rightarrow> user \<Rightarrow> world \<Rightarrow> (decimal \<times> bool \<times> int) result" where
  "pin_reset_paid now cfg cr code delivered u0 w =
     (case lock_user_for_pin u0 w of Inl e \<Rightarrow> (Inl e, w) | Inr u \<Rightarrow>
      let price = pin_reset_price_of w in
      case usd_currency_or_404 w of Inl e \<Rightarrow> (Inl e, w) | Inr usd \<Rightarrow>
      if price \<le> 0
      then (case mint_and_send_reset_code now cfg cr code delivered u w of ((d, t), w1) \<Rightarrow> (Inr (0, d, t), w1))
      else case lock_user_balance (u_id u) (c_id usd) w of Inl e \<Rightarrow> (Inl e, w) | Inr (bal, w1) \<Rightarrow>
      if b_amount bal < price then (Inl (HTTP 402 (E_other ''pin_reset_insufficient'')), w)
      else (case mint_and_send_reset_code now cfg cr code delivered u
                   (save_balance (bal \<lparr> b_amount := b_amount bal - price \<rparr>) w1)
            of ((d, t), w2) \<Rightarrow> (Inr (price, d, t), w2)))"

section \<open>Rows after a call\<close>

lemma get_user_saved:
  assumes "get_user (u_id u) w = Some u0"
  shows "get_user (u_id u) (save_user u w) = Some (u \<lparr> u_trust_deposit_balance := column (u_trust_deposit_balance u) \<rparr>)"
  using assms by (auto simp: get_user_def save_user_def tget_tput dest!: tget_Some intro: rev_image_eqI)

lemma get_user_other: "i \<noteq> u_id u \<Longrightarrow> get_user i (save_user u w) = get_user i w"
  by (simp add: get_user_def save_user_def tget_tput)

lemma get_user_emit [simp]: "get_user i (emit es w) = get_user i w"
  by (simp add: get_user_def emit_def)

lemma get_user_save_balance [simp]: "get_user i (save_balance b w) = get_user i w"
  by (simp add: get_user_def)

lemma get_user_lock: "lock_user_balance u c w = Inr (b, w1) \<Longrightarrow> get_user i w1 = get_user i w"
  using lock_user_balance_frame(1) by (simp add: get_user_def)

lemma lock_never_fails: "lock_user_balance u c w \<noteq> Inl e"
  using lock_user_balance_total [of u c w] by auto

lemma save_user_same_books [simp]: "same_books (save_user u w) w"
  by (simp add: same_books_def save_user_def)

lemma emit_same_books [simp]: "same_books (emit es w) w"
  by (simp add: same_books_def emit_def)

lemma mint_books [simp]: "same_books (snd (mint_and_send_reset_code now cfg cr code d u w)) w"
  by (simp add: mint_and_send_reset_code_def Let_def same_books_def emit_def save_user_def)

lemma get_user_id: "get_user i w = Some u \<Longrightarrow> u_id u = i"
  unfolding get_user_def by (drule tget_Some) simp

section \<open>Guesses\<close>

text \<open>
  The calls an attacker who holds the Telegram account of a user can make: each checks a PIN or a
  reset code, or asks for a code. \<open>CurrentUser\<close> loads the row of the caller without a lock, so a call
  starts from a row that may be stale: any number of calls can have loaded theirs before the first commits.
\<close>

datatype pin_call =
    PC_check string
  | PC_change string string
  | PC_confirm string string
  | PC_request string bool
  | PC_paid string bool

record drawn = dr_jti :: string  dr_salt :: string

definition answer :: "'a result \<Rightarrow> (py_error + unit) \<times> world" where
  "answer r = (map_sum id (\<lambda>_. ()) (fst r), snd r)"

fun pin_call_result ::
  "auth_settings \<Rightarrow> crypto \<Rightarrow> jwt_lib \<Rightarrow> drawn \<Rightarrow> user \<Rightarrow> int \<Rightarrow> pin_call \<Rightarrow> world \<Rightarrow> (py_error + unit) \<times> world" where
  "pin_call_result cfg cr lib dr u now (PC_check pin) w = answer (pin_check now cfg cr lib (dr_jti dr) u pin w)"
| "pin_call_result cfg cr lib dr u now (PC_change old new) w =
     answer (pin_change now cfg cr lib (dr_jti dr) (dr_salt dr) u old new w)"
| "pin_call_result cfg cr lib dr u now (PC_confirm code new) w =
     answer (pin_reset_confirm now cfg cr lib (dr_jti dr) (dr_salt dr) u code new w)"
| "pin_call_result cfg cr lib dr u now (PC_request code d) w = answer (pin_reset_request now cfg cr code d u w)"
| "pin_call_result cfg cr lib dr u now (PC_paid code d) w = answer (pin_reset_paid now cfg cr code d u w)"

text \<open>A failed guess is a comparison that came out false; an entry is a guess that came out true and
  was honoured.\<close>

definition failed_guess :: "py_error + unit \<Rightarrow> bool" where
  "failed_guess a = (a = Inl wrong_secret \<or> a = Inl pin_lockout)"

fun is_entry :: "pin_call \<Rightarrow> py_error + unit \<Rightarrow> bool" where
  "is_entry (PC_check _) (Inr _) = True"
| "is_entry (PC_change _ _) (Inr _) = True"
| "is_entry (PC_confirm _ _) (Inr _) = True"
| "is_entry _ _ = False"

text \<open>The calls in the order of their commits, each with its time and the row it was loaded with.\<close>

fun pin_run ::
  "auth_settings \<Rightarrow> crypto \<Rightarrow> jwt_lib \<Rightarrow> drawn \<Rightarrow> (int \<times> user \<times> pin_call) list \<Rightarrow> world
     \<Rightarrow> (pin_call \<times> (py_error + unit)) list" where
  "pin_run cfg cr lib dr [] w = []"
| "pin_run cfg cr lib dr ((now, loaded, call) # calls) w =
     (case pin_call_result cfg cr lib dr loaded now call w of
        (a, w') \<Rightarrow> (call, a) # pin_run cfg cr lib dr calls w')"

fun pin_end ::
  "auth_settings \<Rightarrow> crypto \<Rightarrow> jwt_lib \<Rightarrow> drawn \<Rightarrow> (int \<times> user \<times> pin_call) list \<Rightarrow> world \<Rightarrow> world" where
  "pin_end cfg cr lib dr [] w = w"
| "pin_end cfg cr lib dr ((now, loaded, call) # calls) w =
     pin_end cfg cr lib dr calls (snd (pin_call_result cfg cr lib dr loaded now call w))"

lemma pin_run_append:
  "pin_run cfg cr lib dr (xs @ ys) w = pin_run cfg cr lib dr xs w @ pin_run cfg cr lib dr ys (pin_end cfg cr lib dr xs w)"
  by (induction xs arbitrary: w) (auto simp: case_prod_beta)

text \<open>Calls of one user, with any rows loaded earlier.\<close>

definition calls_of :: "int \<Rightarrow> (int \<times> user \<times> pin_call) list \<Rightarrow> bool" where
  "calls_of i calls = list_all (\<lambda>(_, loaded, _). u_id loaded = i) calls"

definition calls_within :: "int \<Rightarrow> int \<Rightarrow> (int \<times> user \<times> pin_call) list \<Rightarrow> bool" where
  "calls_within a b calls = list_all (\<lambda>(t, _). a \<le> t \<and> t < b) calls"

definition failed_guesses :: "(pin_call \<times> (py_error + unit)) list \<Rightarrow> nat" where
  "failed_guesses as = length (filter (\<lambda>(_, a). failed_guess a) as)"

definition entries :: "(pin_call \<times> (py_error + unit)) list \<Rightarrow> nat" where
  "entries as = length (filter (\<lambda>(c, a). is_entry c a) as)"

lemma guess_counts [simp]:
  "failed_guesses [] = 0" "entries [] = 0"
  "failed_guesses ((c, a) # as) = (if failed_guess a then 1 else 0) + failed_guesses as"
  "entries ((c, a) # as) = (if is_entry c a then 1 else 0) + entries as"
  "failed_guesses (as @ bs) = failed_guesses as + failed_guesses bs" "entries (as @ bs) = entries as + entries bs"
  by (simp_all add: failed_guesses_def entries_def)

text \<open>What one call does to the counter and the lock.\<close>

definition counted :: "auth_settings \<Rightarrow> int \<Rightarrow> pin_call \<Rightarrow> user \<Rightarrow> py_error + unit \<Rightarrow> user \<Rightarrow> bool" where
  "counted cfg now call u a u' \<longleftrightarrow> u_id u' = u_id u \<and>
     (if failed_guess a
      then \<not> is_locked now u \<and>
        (if ac_pin_max_attempts cfg \<le> u_pin_attempts u + 1
         then u_pin_attempts u' = 0 \<and> u_pin_locked_until u' = Some (now + 60 * ac_pin_lock_minutes cfg)
         else u_pin_attempts u' = u_pin_attempts u + 1 \<and> u_pin_locked_until u' = u_pin_locked_until u)
      else if is_entry call a then u_pin_attempts u' = 0 \<and> u_pin_locked_until u' = None
      else u_pin_attempts u' = u_pin_attempts u \<and> u_pin_locked_until u' = u_pin_locked_until u)"

definition saved :: "user \<Rightarrow> user" where
  "saved u = u \<lparr> u_trust_deposit_balance := column (u_trust_deposit_balance u) \<rparr>"

lemma saved_simps [simp]:
  "u_id (saved u) = u_id u" "u_pin_attempts (saved u) = u_pin_attempts u" "u_pin_locked_until (saved u) = u_pin_locked_until u"
  "u_pin_hash (saved u) = u_pin_hash u" "u_pin_session_epoch (saved u) = u_pin_session_epoch u"
  "u_pin_reset_attempts (saved u) = u_pin_reset_attempts u"
  "u_pin_reset_window_started_at (saved u) = u_pin_reset_window_started_at u"
  "u_pin_last_activity_at (saved u) = u_pin_last_activity_at u" "u_totp_session_epoch (saved u) = u_totp_session_epoch u"
  by (simp_all add: saved_def)

lemma get_saved:
  assumes "get_user i w = Some u" and "u_id u' = i"
  shows "get_user i (save_user u' w) = Some (saved u')"
  using get_user_saved [of u' w u] assms by (simp add: saved_def)

lemma wrong_attempt_raises [simp]: "(wrong_attempt now cfg u w = (Inr x, w')) = False"
  by (simp add: wrong_attempt_def Let_def)

definition tallied :: "auth_settings \<Rightarrow> int \<Rightarrow> pin_call \<Rightarrow> user \<Rightarrow> py_error + unit \<Rightarrow> world \<Rightarrow> bool" where
  "tallied cfg now call u a w' \<longleftrightarrow> (\<exists>u'. get_user (u_id u) w' = Some u' \<and> counted cfg now call u a u')"

lemma tallied_same: "get_user (u_id u) w = Some u \<Longrightarrow> \<not> failed_guess a \<Longrightarrow> \<not> is_entry call a \<Longrightarrow> tallied cfg now call u a w"
  by (simp add: tallied_def counted_def)

lemma tallied_write:
  assumes "get_user (u_id u) w = Some u0" and "u_id u' = u_id u" and "\<not> failed_guess a"
    and "if is_entry call a then u_pin_attempts u' = 0 \<and> u_pin_locked_until u' = None
      else u_pin_attempts u' = u_pin_attempts u \<and> u_pin_locked_until u' = u_pin_locked_until u"
  shows "tallied cfg now call u a (save_user u' w)"
  using assms(2-4) get_saved [OF assms(1,2)] by (simp add: tallied_def counted_def)

lemma tallied_emit [simp]: "tallied cfg now call u a (emit es w) = tallied cfg now call u a w"
  by (simp add: tallied_def)

lemma tallied_wrong:
  assumes "get_user (u_id u) w = Some u" and "\<not> is_locked now u"
  shows "tallied cfg now call u (map_sum id (\<lambda>_. ()) (fst (wrong_attempt now cfg u w))) (snd (wrong_attempt now cfg u w))"
  using assms(2) get_saved [OF assms(1)]
  by (simp add: tallied_def wrong_attempt_def counted_def failed_guess_def Let_def)

lemma no_entry [simp]: "\<not> is_entry call (Inl e)" "\<not> is_entry (PC_request c d) a" "\<not> is_entry (PC_paid c d) a"
  by (cases call; simp) simp_all

lemma not_failed [simp]:
  "\<not> failed_guess (Inr x)" "\<not> failed_guess (Inl bad_pin_format)" "\<not> failed_guess (Inl weak_pin)"
  "\<not> failed_guess (Inl pin_not_set)" "\<not> failed_guess (Inl pin_is_locked)" "\<not> failed_guess (Inl (HTTP 400 d))"
  "\<not> failed_guess (Inl (HTTP 402 d))" "\<not> failed_guess (Inl (HTTP 409 d))" "\<not> failed_guess (Inl (HTTP 429 d))"
  "\<not> failed_guess (Inl (HTTP 503 d))"
  by (simp_all add: failed_guess_def)

lemma call_tallied:
  assumes get: "get_user i w = Some u" and stale: "u_id loaded = i"
  shows "tallied cfg now call u (fst (pin_call_result cfg cr lib dr loaded now call w))
     (snd (pin_call_result cfg cr lib dr loaded now call w))"
proof -
  have g: "get_user (u_id u) w = Some u" using get get_user_id [OF get] by simp
  have lock: "lock_user_for_pin loaded w = Inr u" using get stale by (simp add: lock_user_for_pin_def)
  note rules = tallied_same [OF g] tallied_write [OF g] tallied_wrong [OF g]
  show ?thesis
  proof (cases call)
    case (PC_check pin)
    show ?thesis unfolding PC_check
      by (auto simp: pin_check_def lock answer_def Let_def intro!: rules split: option.split)
  next
    case (PC_change old new)
    show ?thesis unfolding PC_change
      by (auto simp: pin_change_def lock answer_def Let_def intro!: rules split: option.split)
  next
    case (PC_confirm code new)
    show ?thesis unfolding PC_confirm
      by (auto simp: pin_reset_confirm_def lock answer_def Let_def intro!: rules split: option.split)
  next
    case (PC_request code d)
    show ?thesis unfolding PC_request
      by (auto simp: pin_reset_request_def lock answer_def Let_def mint_and_send_reset_code_def intro!: rules split: option.split)
  next
    case (PC_paid code d)
    have "get_user (u_id u) (save_balance b w1) = Some u" if "lock_user_balance j c w = Inr (b', w1)" for b b' w1 j c
      using g get_user_lock [OF that] by simp
    note paid = tallied_write [OF this]
    show ?thesis unfolding PC_paid
      by (auto simp: pin_reset_paid_def lock answer_def Let_def mint_and_send_reset_code_def usd_currency_or_404_def lock_never_fails
          intro!: rules paid split: option.split sum.split)
  qed
qed

text \<open>How many failed guesses a row still allows before \<open>t0\<close> plus the length of the lock.\<close>

definition guesses_left :: "auth_settings \<Rightarrow> int \<Rightarrow> user \<Rightarrow> nat" where
  "guesses_left cfg t0 u =
     (if (case u_pin_locked_until u of None \<Rightarrow> False | Some t \<Rightarrow> t0 + 60 * ac_pin_lock_minutes cfg \<le> t) then 0
      else nat (max 1 (ac_pin_max_attempts cfg - u_pin_attempts u)))"

lemma counted_left:
  assumes "counted cfg now call u a u'" and "t0 \<le> now" and "now < t0 + 60 * ac_pin_lock_minutes cfg" and "0 < ac_pin_max_attempts cfg"
  shows "(if failed_guess a then 1 else 0) + guesses_left cfg t0 u'
    \<le> guesses_left cfg t0 u + (if is_entry call a then nat (ac_pin_max_attempts cfg) else 0)"
  using assms by (auto simp: counted_def guesses_left_def is_locked_def split: if_splits option.splits)

lemma counted_attempts: "counted cfg now call u a u' \<Longrightarrow> 0 \<le> u_pin_attempts u \<Longrightarrow> 0 \<le> u_pin_attempts u'"
  by (auto simp: counted_def split: if_splits)

text \<open>One lock period: what the row still allows, and a fresh budget for every entry.\<close>

lemma guesses_in_period:
  assumes "calls_within t0 (t0 + 60 * ac_pin_lock_minutes cfg) calls" and "calls_of i calls" and "get_user i w = Some u"
    and "0 < ac_pin_max_attempts cfg" and "0 \<le> u_pin_attempts u"
  shows "failed_guesses (pin_run cfg cr lib dr calls w) \<le> guesses_left cfg t0 u + entries (pin_run cfg cr lib dr calls w) * nat (ac_pin_max_attempts cfg)
    \<and> (\<exists>u'. get_user i (pin_end cfg cr lib dr calls w) = Some u' \<and> 0 \<le> u_pin_attempts u')"
  using assms(1-3,5)
proof (induction calls arbitrary: w u)
  case Nil
  then show ?case by simp
next
  case (Cons tc calls)
  obtain now loaded call where tc: "tc = (now, loaded, call)" by (cases tc)
  obtain a w' where run: "pin_call_result cfg cr lib dr loaded now call w = (a, w')" by fastforce
  have now: "t0 \<le> now" "now < t0 + 60 * ac_pin_lock_minutes cfg" and id: "u_id loaded = i"
    and rest: "calls_within t0 (t0 + 60 * ac_pin_lock_minutes cfg) calls" "calls_of i calls"
    using Cons.prems(1,2) by (simp_all add: tc calls_within_def calls_of_def)
  obtain u' where u': "get_user i w' = Some u'" "counted cfg now call u a u'"
    using call_tallied [OF Cons.prems(3) id, of cfg now call cr lib dr] run get_user_id [OF Cons.prems(3)] by (auto simp: tallied_def)
  from Cons.IH [OF rest u'(1) counted_attempts [OF u'(2) Cons.prems(4)]] counted_left [OF u'(2) now assms(4)] run
  show ?case by (auto simp: tc)
qed

lemma guesses_left_max: "0 \<le> u_pin_attempts u \<Longrightarrow> 0 < ac_pin_max_attempts cfg \<Longrightarrow> guesses_left cfg t0 u \<le> nat (ac_pin_max_attempts cfg)"
  by (auto simp: guesses_left_def)

text \<open>Calls in the order of time fall into lock periods, one after the other.\<close>

lemma split_period:
  assumes "calls_within a c calls" and "sorted (map fst calls)"
  obtains xs ys where "calls = xs @ ys" "calls_within a b xs" "calls_within b c ys" "sorted (map fst ys)"
proof -
  let ?P = "\<lambda>x. fst x < b"
  have e: "calls = takeWhile ?P calls @ dropWhile ?P calls" by simp
  have late: "b \<le> fst x" if x: "x \<in> set (dropWhile ?P calls)" for x
  proof -
    obtain y ys where y: "dropWhile ?P calls = y # ys" using x by (cases "dropWhile ?P calls") auto
    have "sorted (map fst (takeWhile ?P calls @ dropWhile ?P calls))" using assms(2) by simp
    then have "sorted (map fst (y # ys))" unfolding y map_append sorted_append by blast
    then have "fst y \<le> fst x" using x y by auto
    moreover have "b \<le> fst y" using hd_dropWhile [of ?P calls] y by simp
    ultimately show ?thesis by simp
  qed
  have "calls_within a b (takeWhile ?P calls)" using assms(1)
    by (auto simp: calls_within_def list_all_iff dest: set_takeWhileD)
  moreover have "calls_within b c (dropWhile ?P calls)" using assms(1) late
    by (auto simp: calls_within_def list_all_iff dest: set_dropWhileD)
  moreover have "sorted (map fst (dropWhile ?P calls))"
    using assms(2) by (metis e map_append sorted_append)
  ultimately show thesis using that [OF e] by blast
qed

lemma guesses_bounded:
  assumes "0 < ac_pin_max_attempts cfg"
  shows "get_user i w = Some u \<Longrightarrow> 0 \<le> u_pin_attempts u \<Longrightarrow> calls_of i calls \<Longrightarrow> sorted (map fst calls) \<Longrightarrow>
    calls_within t0 (t0 + int n * (60 * ac_pin_lock_minutes cfg)) calls \<Longrightarrow>
    failed_guesses (pin_run cfg cr lib dr calls w) \<le> (n + entries (pin_run cfg cr lib dr calls w)) * nat (ac_pin_max_attempts cfg)"
proof (induction n arbitrary: t0 calls w u)
  case 0
  then have "calls = []" by (cases calls) (auto simp: calls_within_def)
  then show ?case by simp
next
  case (Suc n)
  let ?L = "60 * ac_pin_lock_minutes cfg" and ?m = "nat (ac_pin_max_attempts cfg)"
  have "t0 + int (Suc n) * ?L = (t0 + ?L) + int n * ?L" by (simp add: algebra_simps)
  with Suc.prems(4,5) obtain xs ys where s: "calls = xs @ ys" "calls_within t0 (t0 + ?L) xs"
    "calls_within (t0 + ?L) ((t0 + ?L) + int n * ?L) ys" "sorted (map fst ys)"
    using split_period [of t0 "t0 + int (Suc n) * ?L" calls "t0 + ?L"] by metis
  have of: "calls_of i xs" "calls_of i ys" using Suc.prems(3) by (simp_all add: s(1) calls_of_def)
  obtain u' where f: "failed_guesses (pin_run cfg cr lib dr xs w) \<le> guesses_left cfg t0 u + entries (pin_run cfg cr lib dr xs w) * ?m"
    and u': "get_user i (pin_end cfg cr lib dr xs w) = Some u'" "0 \<le> u_pin_attempts u'"
    using guesses_in_period [OF s(2) of(1) Suc.prems(1) assms Suc.prems(2), of cr lib dr] by blast
  note g = Suc.IH [OF u' of(2) s(4,3)]
  show ?case
    using f g guesses_left_max [OF Suc.prems(2) assms, of t0] by (simp add: s(1) pin_run_append algebra_simps)
qed

section \<open>Free codes\<close>

fun code_sent :: "pin_call \<times> (py_error + unit) \<Rightarrow> bool" where
  "code_sent (PC_request _ _, Inr _) = True"
| "code_sent _ = False"

text \<open>How many free codes a row still allows before \<open>t0\<close> plus the length of the window.\<close>

definition codes_left :: "int \<Rightarrow> user \<Rightarrow> nat" where
  "codes_left t0 u =
     nat (PIN_RESET_MAX_PER_WINDOW - u_pin_reset_attempts u)
     + (case u_pin_reset_window_started_at u of None \<Rightarrow> 3 | Some t \<Rightarrow> if t < t0 then 3 else 0)"

definition codes_kept :: "user \<Rightarrow> user \<Rightarrow> bool" where
  "codes_kept u u' \<longleftrightarrow> u_pin_reset_attempts u' = u_pin_reset_attempts u
     \<and> u_pin_reset_window_started_at u' = u_pin_reset_window_started_at u"

definition code_tallied :: "int \<Rightarrow> pin_call \<Rightarrow> user \<Rightarrow> py_error + unit \<Rightarrow> world \<Rightarrow> bool" where
  "code_tallied t0 call u a w' \<longleftrightarrow> (\<exists>u'. get_user (u_id u) w' = Some u'
     \<and> (if code_sent (call, a) then 1 else 0) + codes_left t0 u' \<le> codes_left t0 u)"

lemma code_tallied_same: "get_user (u_id u) w = Some u \<Longrightarrow> \<not> code_sent (call, a) \<Longrightarrow> code_tallied t0 call u a w"
  by (simp add: code_tallied_def)

lemma code_tallied_write:
  assumes "get_user (u_id u) w = Some u0" and "u_id u' = u_id u" and "\<not> code_sent (call, a)" and "codes_kept u u'"
  shows "code_tallied t0 call u a (save_user u' w)"
  using assms(2-4) get_saved [OF assms(1,2)] by (simp add: code_tallied_def codes_left_def codes_kept_def)

lemma code_tallied_emit [simp]: "code_tallied t0 call u a (emit es w) = code_tallied t0 call u a w"
  by (simp add: code_tallied_def)

lemma code_tallied_wrong:
  assumes "get_user (u_id u) w = Some u" and "\<not> code_sent (call, map_sum id (\<lambda>_. ()) (fst (wrong_attempt now cfg u w)))"
  shows "code_tallied t0 call u (map_sum id (\<lambda>_. ()) (fst (wrong_attempt now cfg u w))) (snd (wrong_attempt now cfg u w))"
  using assms(2) get_saved [OF assms(1)]
  by (simp add: code_tallied_def codes_left_def wrong_attempt_def Let_def)

lemma call_codes:
  assumes get: "get_user i w = Some u" and stale: "u_id loaded = i" and t: "t0 \<le> now" "now < t0 + PIN_RESET_WINDOW_SECONDS"
  shows "code_tallied t0 call u (fst (pin_call_result cfg cr lib dr loaded now call w))
     (snd (pin_call_result cfg cr lib dr loaded now call w))"
proof -
  have g: "get_user (u_id u) w = Some u" using get get_user_id [OF get] by simp
  have lock: "lock_user_for_pin loaded w = Inr u" using get stale by (simp add: lock_user_for_pin_def)
  note rules = code_tallied_same [OF g] code_tallied_write [OF g] code_tallied_wrong [OF g]
  show ?thesis
  proof (cases call)
    case (PC_check pin)
    show ?thesis unfolding PC_check
      by (auto simp: pin_check_def lock answer_def Let_def codes_kept_def intro!: rules split: option.split)
  next
    case (PC_change old new)
    show ?thesis unfolding PC_change
      by (auto simp: pin_change_def lock answer_def Let_def codes_kept_def intro!: rules split: option.split)
  next
    case (PC_confirm code new)
    show ?thesis unfolding PC_confirm
      by (auto simp: pin_reset_confirm_def lock answer_def Let_def codes_kept_def intro!: rules split: option.split)
  next
    case (PC_request code d)
    have "code_tallied t0 call u (Inr ()) (save_user u' w)"
      if "u_id u' = u_id u" "1 + codes_left t0 u' \<le> codes_left t0 u" for u'
      using that get_saved [OF g that(1)] PC_request by (simp add: code_tallied_def codes_left_def)
    note sent = this [unfolded PC_request]
    show ?thesis unfolding PC_request using t
      by (auto simp: pin_reset_request_def lock answer_def Let_def mint_and_send_reset_code_def pin_reset_elapsed_def codes_left_def
          PIN_RESET_MAX_PER_WINDOW_def PIN_RESET_WINDOW_SECONDS_def intro!: code_tallied_same [OF g] sent split: option.split)
  next
    case (PC_paid code d)
    have "get_user (u_id u) (save_balance b w1) = Some u" if "lock_user_balance j c w = Inr (b', w1)" for b b' w1 j c
      using g get_user_lock [OF that] by simp
    note paid = code_tallied_write [OF this]
    show ?thesis unfolding PC_paid
      by (auto simp: pin_reset_paid_def lock answer_def Let_def mint_and_send_reset_code_def usd_currency_or_404_def codes_kept_def
          lock_never_fails intro!: rules paid split: option.split sum.split)
  qed
qed

lemma codes_bounded:
  assumes "calls_within t0 (t0 + PIN_RESET_WINDOW_SECONDS) calls" and "calls_of i calls" and "get_user i w = Some u"
  shows "length (filter code_sent (pin_run cfg cr lib dr calls w)) \<le> codes_left t0 u"
  using assms
proof (induction calls arbitrary: w u)
  case Nil
  then show ?case by simp
next
  case (Cons tc calls)
  obtain now loaded call where tc: "tc = (now, loaded, call)" by (cases tc)
  obtain a w' where run: "pin_call_result cfg cr lib dr loaded now call w = (a, w')" by fastforce
  have now: "t0 \<le> now" "now < t0 + PIN_RESET_WINDOW_SECONDS" and id: "u_id loaded = i"
    and rest: "calls_within t0 (t0 + PIN_RESET_WINDOW_SECONDS) calls" "calls_of i calls"
    using Cons.prems(1,2) by (simp_all add: tc calls_within_def calls_of_def)
  then obtain u' where u': "get_user i w' = Some u'" "(if code_sent (call, a) then 1 else 0) + codes_left t0 u' \<le> codes_left t0 u"
    using call_codes [OF Cons.prems(3) id now, of call cfg cr lib dr] run get_user_id [OF Cons.prems(3)]
    by (auto simp: code_tallied_def)
  from Cons.IH [OF rest u'(1)] u'(2) run show ?case by (cases "code_sent (call, a)") (simp_all add: tc)
qed

section \<open>The paid reset\<close>

lemma free_write_books:
  assumes ok: "books_ok w" and lock: "lock_user_balance u c w = Inr (b, w1)" and x: "storable x" "0 \<le> b_amount b + x"
    and w': "same_books w' (save_balance (b \<lparr> b_amount := b_amount b + x \<rparr>) w1)"
  shows "books_ok w'" and "accounts w' = a_credit u c x (accounts w)" and "t_ledger w' = t_ledger w"
proof -
  have oks: "balances_ok w" "deposits_ok w" using ok by (auto simp: books_ok_def)
  let ?b = "b \<lparr> b_amount := b_amount b + x \<rparr>"
  let ?v = "save_balance ?b w1"
  note l = lock_user_balance_ok [OF lock] and lb = lock_user_balance_balances_ok [OF lock oks(1)] and f = lock_user_balance_frame [OF lock]
  have ok': "balance_ok ?b" using lb(2) x by (auto simp: balance_ok_def grid)
  have key: "b_user_id ?b = u" "b_currency_id ?b = c" using l by simp_all
  note r = written_row [OF lock oks(1) ok' key refl]
  have acc: "accounts ?v = a_credit u c x (accounts w)"
    using r(1) l(5) by (auto simp: a_credit_def intro!: a_upd_cong)
  have "deposits_ok ?v" using oks(2) f by (simp add: deposits_ok_def)
  then have "books_ok ?v" by (rule books_quiet [OF ok r(2) _ held_credit_at [OF acc]]) (simp_all add: f)
  then show "books_ok w'" "accounts w' = a_credit u c x (accounts w)"
    using same_booksD(1,4) [OF w'] acc by simp_all
  show "t_ledger w' = t_ledger w" using w' f by (simp add: same_books_def)
qed

section \<open>Properties\<close>

text \<open>
  C18. Whoever holds the Telegram account but not the PIN gets a bounded number of guesses, however many
  requests run at once: each call of the PIN endpoints starts from a row that may be stale, and over \<open>n\<close>
  lock periods at most \<open>pin_max_attempts\<close> comparisons with the PIN or the reset code come out false per
  period, plus as many for every call that lets its caller in (which resets the counter, also when
  it is the owner's own); every other guess is refused unread. Asking for new codes, free or paid,
  does not refill the budget. The calls are in the order of their commits, by time; the first
  setup of a PIN is not among them.
\<close>

theorem pin_guesses_are_bounded:
  assumes "get_user i w = Some u" and "0 \<le> u_pin_attempts u" and "0 < ac_pin_max_attempts cfg"
    and "calls_of i calls" and "sorted (map fst calls)"
    and "calls_within t0 (t0 + int n * (60 * ac_pin_lock_minutes cfg)) calls"
  shows "int (failed_guesses (pin_run cfg cr lib dr calls w))
    \<le> (int n + int (entries (pin_run cfg cr lib dr calls w))) * ac_pin_max_attempts cfg"
proof -
  have "int (failed_guesses (pin_run cfg cr lib dr calls w))
      \<le> int ((n + entries (pin_run cfg cr lib dr calls w)) * nat (ac_pin_max_attempts cfg))"
    using guesses_bounded [OF assms(3,1,2,4-6)] by (simp only: of_nat_le_iff)
  then show ?thesis using assms(3) by simp
qed

text \<open>
  The free reset sends at most six codes in any 24 hours: the window is a fixed one, so three may
  go out at its end and three at the start of the next.
\<close>

theorem free_codes_are_bounded:
  assumes "get_user i w = Some u" and "0 \<le> u_pin_reset_attempts u"
    and "calls_of i calls" and "calls_within t0 (t0 + PIN_RESET_WINDOW_SECONDS) calls"
  shows "length (filter code_sent (pin_run cfg cr lib dr calls w)) \<le> 6"
proof -
  have "codes_left t0 u \<le> 6" using assms(2) by (auto simp: codes_left_def PIN_RESET_MAX_PER_WINDOW_def split: option.split)
  then show ?thesis using codes_bounded [OF assms(4,3,1)] by (rule order_trans [rotated])
qed

text \<open>
  A PIN that was set can be used: checking it later answers with a token, and this token opens the
  PIN session for the user until the idle window is over.
\<close>

theorem pin_set_opens_session:
  assumes "crypto_ok cr" and "jwt_ok lib" and "get_user (u_id u) w = Some u" and "falsy (u_pin_hash u)"
    and "is_pin_format_valid pin" and "\<not> is_pin_too_common pin"
    and "t2 \<le> t3" and "t3 - t2 \<le> ac_pin_session_ttl_seconds cfg" and "t3 - t2 < ac_pin_session_jwt_ttl_seconds cfg"
  shows "\<exists>r w1 u1 tok ex w2 u2. pin_setup t1 cfg cr lib jti salt u pin w = (Inr r, w1)
    \<and> get_user (u_id u) w1 = Some u1 \<and> pin_check t2 cfg cr lib jti' u1 pin w1 = (Inr (tok, ex), w2)
    \<and> get_user (u_id u) w2 = Some u2 \<and> succeeds (require_pin_session t3 cfg lib u2 (Some tok) w2)"
proof -
  let ?r = "u \<lparr> u_pin_hash := Some (hash_pin cfg cr salt pin), u_pin_attempts := 0, u_pin_locked_until := None,
     u_pin_reset_code_hash := None, u_pin_reset_expires := None, u_pin_last_activity_at := Some t1 \<rparr>"
  define w1 where "w1 = save_user ?r w"
  define u1 where "u1 = saved ?r"
  have set: "pin_setup t1 cfg cr lib jti salt u pin w = (Inr (token_response t1 cfg lib jti u), w1)"
    using assms(3-6) by (simp add: pin_setup_def w1_def assigned_def Let_def)
  have g1: "get_user (u_id u) w1 = Some u1" using get_saved [OF assms(3), of ?r] by (simp add: w1_def u1_def)
  have h: "hash_pin cfg cr salt pin \<noteq> []" "verify_pin cfg cr pin (hash_pin cfg cr salt pin)"
    using assms(1) by (simp_all add: crypto_ok_def hash_pin_def verify_pin_def)
  let ?s = "u1 \<lparr> u_pin_attempts := 0, u_pin_locked_until := None, u_pin_last_activity_at := Some t2 \<rparr>"
  define w2 where "w2 = save_user ?s w1"
  define u2 where "u2 = saved ?s"
  have id: "u_id u1 = u_id u" by (simp add: u1_def)
  have check: "pin_check t2 cfg cr lib jti' u1 pin w1 = (Inr (token_response t2 cfg lib jti' ?s), w2)"
    using h assms(5) g1 by (simp add: pin_check_def lock_user_for_pin_def w2_def u1_def is_locked_def falsy_def Let_def)
  have g2: "get_user (u_id u) w2 = Some u2" using get_saved [OF g1, of ?s] by (simp add: w2_def u2_def id)
  have ne: "fst (token_response t2 cfg lib jti' ?s) \<noteq> []"
    using assms(2) by (simp add: token_response_def issue_session_token_def jwt_ok_def Let_def)
  have dec: "decode_session_token cfg lib t3 (fst (token_response t2 cfg lib jti' ?s)) = Some (u_id u2, u_pin_session_epoch u2)"
    using pin.decode_issue [OF assms(2,7)] assms(9) by (simp add: token_response_def u2_def)
  have "succeeds (require_pin_session t3 cfg lib u2 (Some (fst (token_response t2 cfg lib jti' ?s))) w2)"
    using ne dec h(1) assms(8) by (auto simp: require_pin_session_def u2_def u1_def Let_def)
  then show ?thesis using set g1 check g2 by (metis prod.collapse)
qed

text \<open>
  C19. A changed PIN ends every session: after a successful change or reset no token issued to the user
  before (for the epoch of that time or an earlier one) passes the gate any more.
\<close>

theorem new_pin_revokes_sessions:
  assumes "jwt_ok lib" and "get_user (u_id u) w = Some u"
    and "pin_change now cfg cr lib jti salt u old new w = (Inr r, w') \<or> pin_reset_confirm now cfg cr lib jti salt u code new w = (Inr r, w')"
    and "e \<le> u_pin_session_epoch u" and "issued \<le> later"
  shows "\<exists>u'. get_user (u_id u) w' = Some u' \<and> u_pin_session_epoch u' = u_pin_session_epoch u + 1
    \<and> \<not> pin_passes later cfg lib u' (fst (issue_session_token cfg lib issued jti' (u_id u) e))"
proof -
  have lock: "lock_user_for_pin u w = Inr u" using assms(2) by (simp add: lock_user_for_pin_def)
  have "\<exists>u'. get_user (u_id u) w' = Some u' \<and> u_pin_session_epoch u' = u_pin_session_epoch u + 1"
    using assms(3) get_saved [OF assms(2)]
    by (auto simp: pin_change_def pin_reset_confirm_def lock Let_def split: if_splits option.splits)
  then obtain u' where u': "get_user (u_id u) w' = Some u'" "u_pin_session_epoch u' = u_pin_session_epoch u + 1" by blast
  then have "u_pin_session_epoch u' \<noteq> e" using assms(4) by simp
  then show ?thesis using u' pin.revoked [OF assms(1,5)] by blast
qed

text \<open>
  The paid reset charges exactly the configured price, from the USD account of the caller and only
  when that account covers it, whether or not the message was delivered; a refusal changes nothing.
  The books still balance, but no ledger entry explains the charge.
\<close>

theorem paid_reset_charges_the_price:
  assumes "books_ok w" and "get_user (u_id u) w = Some u" and "storable (pin_reset_price_of w)"
  shows "case pin_reset_paid now cfg cr code delivered u w of
      (Inl e, w') \<Rightarrow> w' = w \<and> (case currency_with_code ''USD'' w of None \<Rightarrow> True
        | Some usd \<Rightarrow> max 0 (free w (u_id u) (c_id usd)) < pin_reset_price_of w)
    | (Inr (charged, d, t), w') \<Rightarrow> charged = max 0 (pin_reset_price_of w) \<and> d = delivered \<and> books_ok w'
        \<and> t_ledger w' = t_ledger w \<and> (\<exists>usd. currency_with_code ''USD'' w = Some usd
            \<and> charged \<le> free w (u_id u) (c_id usd) \<and> accounts w' = a_credit (u_id u) (c_id usd) (- charged) (accounts w))"
proof (cases "currency_with_code ''USD'' w")
  case None
  then show ?thesis using assms(2) by (simp add: pin_reset_paid_def lock_user_for_pin_def usd_currency_or_404_def Let_def)
next
  case (Some usd)
  have lock: "lock_user_for_pin u w = Inr u" using assms(2) by (simp add: lock_user_for_pin_def)
  have nonneg: "0 \<le> free w (u_id u) (c_id usd)" using accounts_ok assms(1) by (simp add: books_ok_def)
  show ?thesis
  proof (cases "pin_reset_price_of w \<le> 0")
    case True
    let ?v = "snd (mint_and_send_reset_code now cfg cr code delivered u w)"
    have b: "same_books ?v w" by simp
    have "a_credit (u_id u) (c_id usd) (- 0) (accounts w) = accounts w" by (simp add: a_defs fun_eq_iff)
    then show ?thesis using True Some lock same_booksD(1,4) [OF b] assms(1) nonneg b
      by (auto simp: pin_reset_paid_def usd_currency_or_404_def Let_def mint_and_send_reset_code_def same_books_def)
  next
    case False
    obtain b w1 where l: "lock_user_balance (u_id u) (c_id usd) w = Inr (b, w1)" using lock_user_balance_total by blast
    have free: "free w (u_id u) (c_id usd) = b_amount b" using lock_user_balance_ok(5) [OF l] by simp
    show ?thesis
    proof (cases "b_amount b < pin_reset_price_of w")
      case True
      then show ?thesis using False Some lock l free nonneg by (simp add: pin_reset_paid_def usd_currency_or_404_def Let_def)
    next
      case pays: False
      let ?v = "snd (mint_and_send_reset_code now cfg cr code delivered u (save_balance (b \<lparr> b_amount := b_amount b - pin_reset_price_of w \<rparr>) w1))"
      have "storable (0 - pin_reset_price_of w)" using assms(3) by (intro grid) simp_all
      then have st: "storable (- pin_reset_price_of w)" by simp
      have "same_books ?v (save_balance (b \<lparr> b_amount := b_amount b + - pin_reset_price_of w \<rparr>) w1)" by simp
      note f = free_write_books [OF assms(1) l st _ this]
      show ?thesis using f pays False Some lock l free
        by (simp add: pin_reset_paid_def usd_currency_or_404_def Let_def mint_and_send_reset_code_def)
    qed
  qed
qed

section \<open>Instances\<close>

definition sample_crypto :: crypto where
  "sample_crypto = \<lparr> bcrypt_hashpw = (\<lambda>p salt. CHR ''h'' # p), bcrypt_checkpw = (\<lambda>p h. Some (h = CHR ''h'' # p)),
     hmac_sha256_hex = (\<lambda>k m. CHR ''m'' # k @ m), sha256_hex = (\<lambda>s. CHR ''s'' # s) \<rparr>"

lemma sample_crypto_ok: "crypto_ok sample_crypto"
  by (simp add: crypto_ok_def sample_crypto_def)

definition sample_drawn :: drawn where "sample_drawn = \<lparr> dr_jti = ''j'', dr_salt = ''s'' \<rparr>"

definition pin_holder :: user where
  "pin_holder = sample_buyer \<lparr> u_pin_hash := Some ''h1357'' \<rparr>"

definition pin_world :: world where "pin_world = save_user pin_holder sample_world"

lemma sample_user_facts [simp]:
  "get_user 1 sample_world = Some sample_buyer" "u_id sample_buyer = 1" "u_pin_hash sample_buyer = None"
  "u_pin_attempts sample_buyer = 0" "u_pin_locked_until sample_buyer = None" "u_pin_reset_attempts sample_buyer = 0"
  "u_pin_session_epoch sample_buyer = 0" "u_pin_reset_window_started_at sample_buyer = None"
  by (simp_all add: sample_rows sample_user_rows get_user_def)

lemma pin_holder_facts [simp]:
  "u_id pin_holder = 1" "u_pin_hash pin_holder = Some ''h1357''" "u_pin_attempts pin_holder = 0"
  "u_pin_locked_until pin_holder = None" "get_user 1 pin_world = Some (saved pin_holder)"
  "u_pin_session_epoch pin_holder = 0" "u_pin_reset_attempts pin_holder = 0" "u_pin_reset_window_started_at pin_holder = None"
  using get_saved [of 1 sample_world sample_buyer pin_holder] by (simp_all add: pin_world_def pin_holder_def)

lemma sample_guess [simp]:
  "is_pin_format_valid ''2580''" "is_pin_format_valid ''8642''" "is_pin_format_valid ''1357''"
  "\<not> verify_pin sample_auth sample_crypto ''2580'' ''h1357''" "\<not> verify_pin sample_auth sample_crypto ''8642'' ''h1357''"
  "verify_pin sample_auth sample_crypto ''1357'' ''h1357''" "\<not> is_pin_too_common ''8642''" "\<not> is_pin_too_common ''1357''"
  by (simp_all add: is_pin_format_valid_def is_digit_def verify_pin_def peppered_pin_def sample_auth_def sample_crypto_def
      is_pin_too_common_def COMMON_PINS_def)

definition sample_calls :: "(int \<times> user \<times> pin_call) list" where
  "sample_calls = [(5, pin_holder, PC_check ''2580''), (6, pin_holder, PC_check ''8642'')]"

lemma sample_auth_facts [simp]:
  "ac_pin_max_attempts sample_auth = 3" "ac_pin_lock_minutes sample_auth = 60"
  by (simp_all add: sample_auth_def)

text \<open>Two calls that loaded the row before either of them counted.\<close>

lemma sample_pin_run:
  "pin_run sample_auth sample_crypto sample_jwt sample_drawn sample_calls pin_world
     = [(PC_check ''2580'', Inl wrong_secret), (PC_check ''8642'', Inl wrong_secret)]"
proof -
  let ?u = "(saved pin_holder) \<lparr> u_pin_attempts := 1 \<rparr>"
  have one: "pin_check 5 sample_auth sample_crypto sample_jwt ''j'' pin_holder ''2580'' pin_world
      = (Inl wrong_secret, save_user ?u pin_world)"
    by (simp add: pin_check_def lock_user_for_pin_def is_locked_def falsy_def wrong_attempt_def Let_def)
  have two: "fst (pin_check 6 sample_auth sample_crypto sample_jwt ''j'' pin_holder ''8642'' (save_user ?u pin_world))
      = Inl wrong_secret"
    using get_saved [of 1 pin_world "saved pin_holder" ?u]
    by (simp add: pin_check_def lock_user_for_pin_def is_locked_def falsy_def wrong_attempt_def Let_def)
  show ?thesis using two
    by (simp add: sample_calls_def sample_drawn_def answer_def one fst_def split: prod.splits)
qed

lemma pin_guesses_are_bounded_witness:
  "int (failed_guesses (pin_run sample_auth sample_crypto sample_jwt sample_drawn sample_calls pin_world)) \<le> 3
   \<and> failed_guesses (pin_run sample_auth sample_crypto sample_jwt sample_drawn sample_calls pin_world) = 2"
proof -
  have "calls_of 1 sample_calls" "sorted (map fst sample_calls)"
    "calls_within 5 (5 + int 1 * (60 * ac_pin_lock_minutes sample_auth)) sample_calls"
    by (simp_all add: sample_calls_def calls_of_def calls_within_def)
  from pin_guesses_are_bounded [OF _ _ _ this, where w = pin_world and u = "saved pin_holder" and cr = sample_crypto
      and lib = sample_jwt and dr = sample_drawn]
  show ?thesis by (simp add: sample_pin_run failed_guess_def)
qed

lemma free_codes_are_bounded_witness:
  "length (filter code_sent (pin_run sample_auth sample_crypto sample_jwt sample_drawn
     [(5, pin_holder, PC_request ''123456'' True), (6, pin_holder, PC_request ''654321'' True)] pin_world)) \<le> 6"
  using free_codes_are_bounded [where i = 1 and w = pin_world and u = "saved pin_holder" and cfg = sample_auth
      and calls = "[(5, pin_holder, PC_request ''123456'' True), (6, pin_holder, PC_request ''654321'' True)]" and ?t0.0 = 5 and cr = sample_crypto and lib = sample_jwt and dr = sample_drawn]
  by (simp add: PIN_RESET_WINDOW_SECONDS_def calls_of_def calls_within_def)

lemma pin_set_opens_session_witness:
  "\<exists>r w1 u1 tok ex w2 u2. pin_setup 5 sample_auth sample_crypto sample_jwt ''j'' ''s'' sample_buyer ''8642'' sample_world = (Inr r, w1)
    \<and> get_user 1 w1 = Some u1 \<and> pin_check 6 sample_auth sample_crypto sample_jwt ''k'' u1 ''8642'' w1 = (Inr (tok, ex), w2)
    \<and> get_user 1 w2 = Some u2 \<and> succeeds (require_pin_session 9 sample_auth sample_jwt u2 (Some tok) w2)"
  using pin_set_opens_session [OF sample_crypto_ok sample_jwt_ok, where u = sample_buyer and w = sample_world and pin = "''8642''"
      and cfg = sample_auth and ?t1.0 = 5 and ?t2.0 = 6 and ?t3.0 = 9 and jti = "''j''" and jti' = "''k''" and salt = "''s''"]
  by (simp add: falsy_def sample_auth_def)

lemma new_pin_revokes_sessions_witness:
  "\<exists>r w' u'. pin_change 9 sample_auth sample_crypto sample_jwt ''k'' ''s'' (saved pin_holder) ''1357'' ''8642'' pin_world = (Inr r, w')
    \<and> get_user 1 w' = Some u' \<and> \<not> pin_passes 10 sample_auth sample_jwt u' (fst (issue_session_token sample_auth sample_jwt 5 ''j'' 1 0))"
proof -
  have "succeeds (pin_change 9 sample_auth sample_crypto sample_jwt ''k'' ''s'' (saved pin_holder) ''1357'' ''8642'' pin_world)"
    by (simp add: pin_change_def lock_user_for_pin_def falsy_def is_locked_def succeeds_def Let_def)
  then obtain r w' where run: "pin_change 9 sample_auth sample_crypto sample_jwt ''k'' ''s'' (saved pin_holder) ''1357'' ''8642'' pin_world = (Inr r, w')"
    by (cases "pin_change 9 sample_auth sample_crypto sample_jwt ''k'' ''s'' (saved pin_holder) ''1357'' ''8642'' pin_world" rule: outcome_cases) (auto simp: succeeds_def)
  show ?thesis
    using new_pin_revokes_sessions [OF sample_jwt_ok _ disjI1 [OF run], where e = 0 and issued = 5 and later = 10 and jti' = "''j''"] run by auto
qed

text \<open>The sample database with its currency called USD.\<close>

definition usd_world :: world where
  "usd_world = sample_world \<lparr> t_currencies := map (\<lambda>c. c \<lparr> c_code := ''USD'' \<rparr>) (t_currencies sample_world) \<rparr>"

lemma get_currency_map:
  assumes "\<And>c. c_id (f c) = c_id c"
  shows "get_currency i (w \<lparr> t_currencies := map f (t_currencies w) \<rparr>) = map_option f (get_currency i w)"
proof -
  have "tget c_id i (map f cs) = map_option f (tget c_id i cs)" for cs by (induction cs) (auto simp: assms)
  then show ?thesis by (simp add: get_currency_def)
qed

lemma books_ok_map_currencies:
  assumes "books_ok w" and f: "\<And>c. c_id (f c) = c_id c" "\<And>c. c_decimals (f c) = c_decimals c"
  shows "books_ok (w \<lparr> t_currencies := map f (t_currencies w) \<rparr>)"
proof -
  let ?w = "w \<lparr> t_currencies := map f (t_currencies w) \<rparr>"
  have "map c_id (map f cs) = map c_id cs" for cs by (induction cs) (simp_all add: f)
  then have "currencies_ok ?w = currencies_ok w" by (simp add: currencies_ok_def tkeys_def list_all_iff f del: map_map)
  moreover have "deal_ok ?w d = deal_ok w d" for d
    by (simp add: deal_ok_def get_currency_map [OF f(1)] f(2) split: option.split)
  then have "deals_ok ?w = deals_ok w" by (simp add: deals_ok_def)
  moreover have "accounts ?w = accounts w" by (simp add: accounts_def get_balance_def)
  ultimately show ?thesis using assms(1)
    by (simp add: books_ok_def balances_ok_def withdrawals_ok_def deposits_ok_def books_balance_def escrow_def reserved_def)
qed

lemma usd_world_ok: "books_ok usd_world"
  unfolding usd_world_def by (rule books_ok_map_currencies [OF sample_books_ok]) simp_all

lemma paid_reset_charges_the_price_witness:
  "case pin_reset_paid 5 sample_auth sample_crypto ''123456'' False sample_buyer usd_world of
     (Inl e, w') \<Rightarrow> False | (Inr (charged, d, t), w') \<Rightarrow> charged = 3 \<and> books_ok w' \<and> accounts w' 1 7 = (97, 81)"
proof -
  have w: "get_user 1 usd_world = Some sample_buyer" "pin_reset_price_of usd_world = 3" "free usd_world 1 7 = 100" "held usd_world 1 7 = 81"
    "currency_with_code ''USD'' usd_world = Some (usdt \<lparr> c_code := ''USD'' \<rparr>)"
    by (simp_all add: usd_world_def get_user_def pin_reset_price_of_def sample_rows sample_user_rows sample_settings_def default_app_settings_def
        accounts_def get_balance_def bkey_def currency_with_code_def)
  have "storable 3" by simp
  then show ?thesis
    using paid_reset_charges_the_price [OF usd_world_ok, where u = sample_buyer and now = 5 and cfg = sample_auth and cr = sample_crypto
      and code = "''123456''" and delivered = False] w
    by (auto simp: usdt_def a_defs split: prod.splits sum.splits)
qed

end
