(* ===== verification/Base32.thy ===== *)
theory Base32
  imports Tokens "HOL-Library.Word"
begin

text \<open>
  Base 32 as \<open>_b32decode_padded\<close> and \<open>generate_secret\<close> of \<open>backend/app/auth_2fa.py\<close> use it from
  Python's \<open>base64\<close>: five bytes are eight characters. Bytes are 8-bit words; strings are ASCII.
\<close>

section \<open>Digits in a base\<close>

text \<open>Most significant digit first.\<close>

definition from_digits :: "nat \<Rightarrow> nat list \<Rightarrow> nat" where
  "from_digits b ds = foldl (\<lambda>acc d. b * acc + d) 0 ds"

primrec to_digits :: "nat \<Rightarrow> nat \<Rightarrow> nat \<Rightarrow> nat list" where
  "to_digits b 0 v = []"
| "to_digits b (Suc n) v = to_digits b n (v div b) @ [v mod b]"

lemma length_to_digits [simp]: "length (to_digits b n v) = n"
  by (induction n arbitrary: v) simp_all

lemma from_digits_snoc [simp]: "from_digits b [] = 0" "from_digits b (ds @ [d]) = b * from_digits b ds + d"
  by (simp_all add: from_digits_def)

lemma to_digits_bound: "0 < b \<Longrightarrow> d \<in> set (to_digits b n v) \<Longrightarrow> d < b"
  by (induction n arbitrary: v) auto

lemma from_to_digits: "v < b ^ n \<Longrightarrow> from_digits b (to_digits b n v) = v"
  by (induction n arbitrary: v) (simp_all add: less_mult_imp_div_less mult.commute)

lemma to_from_digits: "list_all (\<lambda>d. d < b) ds \<Longrightarrow> to_digits b (length ds) (from_digits b ds) = ds"
  by (induction ds rule: rev_induct) auto

lemma from_digits_bound: "list_all (\<lambda>d. d < b) ds \<Longrightarrow> from_digits b ds < b ^ length ds"
proof (induction ds rule: rev_induct)
  case Nil
  then show ?case by simp
next
  case (snoc d ds)
  then have "from_digits b ds + 1 \<le> b ^ length ds" "d < b" by auto
  then have "b * (from_digits b ds + 1) \<le> b * b ^ length ds" by (intro mult_le_mono2)
  then show ?case using \<open>d < b\<close> by (simp add: distrib_left)
qed

section \<open>Encoding\<close>

definition B32_ALPHABET :: string where "B32_ALPHABET = ''ABCDEFGHIJKLMNOPQRSTUVWXYZ234567''"

definition b32_char :: "nat \<Rightarrow> char" where "b32_char d = B32_ALPHABET ! d"

definition encode_group :: "8 word list \<Rightarrow> string" where
  "encode_group bytes = map b32_char (to_digits 32 8 (from_digits 256 (map unat bytes)))"

text \<open>\<open>base64.b32encode\<close>: a last group of one to four bytes is filled with zero bytes, and its last
  characters are replaced by the padding.\<close>

fun b32encode :: "8 word list \<Rightarrow> string" where
  "b32encode [] = []"
| "b32encode [a] = take 2 (encode_group [a, 0, 0, 0, 0]) @ replicate 6 CHR ''=''"
| "b32encode [a, b] = take 4 (encode_group [a, b, 0, 0, 0]) @ replicate 4 CHR ''=''"
| "b32encode [a, b, c] = take 5 (encode_group [a, b, c, 0, 0]) @ replicate 3 CHR ''=''"
| "b32encode [a, b, c, d] = take 7 (encode_group [a, b, c, d, 0]) @ replicate 1 CHR ''=''"
| "b32encode (a # b # c # d # e # rest) = encode_group [a, b, c, d, e] @ b32encode rest"

definition rstrip_pad :: "string \<Rightarrow> string" where
  "rstrip_pad s = rev (dropWhile (\<lambda>c. c = CHR ''='') (rev s))"

text \<open>\<open>token_bytes\<close> is what was drawn.\<close>

definition generate_secret :: "8 word list \<Rightarrow> string" where
  "generate_secret token_bytes = rstrip_pad (b32encode token_bytes)"

section \<open>Decoding\<close>

definition b32_digit :: "char \<Rightarrow> nat option" where
  "b32_digit c = List.find (\<lambda>d. b32_char d = c) [0..<32]"

text \<open>\<open>b32rev[c]\<close> of every character; one that is not a digit is a \<open>KeyError\<close>.\<close>

fun b32_digits :: "string \<Rightarrow> nat list option" where
  "b32_digits [] = Some []"
| "b32_digits (c # cs) =
     (case b32_digit c of None \<Rightarrow> None
      | Some d \<Rightarrow> (case b32_digits cs of None \<Rightarrow> None | Some ds \<Rightarrow> Some (d # ds)))"

text \<open>Quanta of eight digits are five bytes; of a last shorter one the bytes it fills are kept.\<close>

definition decode_quantum :: "nat list \<Rightarrow> 8 word list" where
  "decode_quantum ds =
     (let padchars = 8 - length ds in
      map word_of_nat (take ((43 - 5 * padchars) div 8) (to_digits 256 5 (from_digits 32 ds * 32 ^ padchars))))"

function decode_quanta :: "nat list \<Rightarrow> 8 word list" where
  "decode_quanta ds = (if ds = [] then [] else decode_quantum (take 8 ds) @ decode_quanta (drop 8 ds))"
  by auto
termination by (relation "measure length") auto

declare decode_quanta.simps [simp del]

text \<open>\<open>base64.b32decode(s, casefold=True)\<close>; \<open>None\<close> is \<open>binascii.Error\<close>.\<close>

definition b32decode :: "string \<Rightarrow> 8 word list option" where
  "b32decode s0 =
     (if length s0 mod 8 \<noteq> 0 then None
      else let s = rstrip_pad (map to_upper s0); padchars = length s0 - length s in
           case b32_digits s of None \<Rightarrow> None
           | Some ds \<Rightarrow> if padchars \<notin> {0, 1, 3, 4, 6} then None else Some (decode_quanta ds))"

definition b32decode_padded :: "string \<Rightarrow> 8 word list option" where
  "b32decode_padded secret0 =
     (let secret = filter (\<lambda>c. c \<noteq> CHR '' '') (strip (map to_upper secret0));
          pad = nat ((- int (length secret)) mod 8)
      in b32decode (secret @ replicate pad CHR ''=''))"

section \<open>The round trip\<close>

lemma b32_chars: "map (\<lambda>d. b32_digit (b32_char d)) [0..<32] = map Some [0..<32]"
  by code_simp

lemma b32_digit_char: "d < 32 \<Longrightarrow> b32_digit (b32_char d) = Some d"
  using arg_cong [OF b32_chars, of "\<lambda>xs. xs ! d"] by simp

lemma b32_digits_chars: "list_all (\<lambda>d. d < 32) ds \<Longrightarrow> b32_digits (map b32_char ds) = Some ds"
  by (induction ds) (simp_all add: b32_digit_char)

lemma b32_char_plain_all: "list_all (\<lambda>d. to_upper (b32_char d) = b32_char d \<and> b32_char d \<noteq> CHR '' ''
    \<and> b32_char d \<noteq> CHR ''='' \<and> \<not> is_space (b32_char d)) [0..<32]"
  by code_simp

lemma b32_char_plain:
  "d < 32 \<Longrightarrow> to_upper (b32_char d) = b32_char d \<and> b32_char d \<noteq> CHR '' '' \<and> b32_char d \<noteq> CHR ''=''
     \<and> \<not> is_space (b32_char d)"
  using b32_char_plain_all by (simp add: list_all_iff)

text \<open>The digits of whole groups of five bytes.\<close>

fun group_digits :: "8 word list \<Rightarrow> nat list" where
  "group_digits (a # b # c # d # e # rest) = to_digits 32 8 (from_digits 256 (map unat [a, b, c, d, e])) @ group_digits rest"
| "group_digits _ = []"

lemma group_digits_small: "list_all (\<lambda>d. d < 32) (group_digits bs)"
  by (induction bs rule: group_digits.induct) (auto simp: list_all_iff simp del: to_digits.simps dest: to_digits_bound [rotated])

lemma unat_byte: "list_all (\<lambda>d. d < 256) (map unat (bs :: 8 word list))"
  using unsigned_less [where 'b = 8 and 'a = nat] by (auto simp: list_all_iff)

lemma decode_group:
  assumes "length bs = 5"
  shows "decode_quantum (to_digits 32 8 (from_digits 256 (map unat bs))) = bs"
proof -
  have "from_digits 256 (map unat bs) < 256 ^ 5" using from_digits_bound [OF unat_byte, of bs] assms by simp
  then have v: "from_digits 256 (map unat bs) < 32 ^ 8" by simp
  have "to_digits 256 5 (from_digits 256 (map unat bs)) = map unat bs"
    using to_from_digits [OF unat_byte, of bs] assms by simp
  then show ?thesis using assms by (simp add: decode_quantum_def Let_def from_to_digits [OF v] comp_def del: to_digits.simps)
qed

lemma whole_groups:
  assumes "5 dvd length bs"
  shows "b32encode bs = map b32_char (group_digits bs) \<and> decode_quanta (group_digits bs) = bs
    \<and> 8 dvd length (group_digits bs)"
  using assms
proof (induction bs rule: group_digits.induct)
  case (1 a b c d e rest)
  have "5 dvd length rest" using 1(2) by (simp add: dvd_def) presburger
  note IH = 1(1) [OF this]
  let ?q = "to_digits 32 8 (from_digits 256 (map unat [a, b, c, d, e]))"
  have "decode_quanta (?q @ group_digits rest) = decode_quantum ?q @ decode_quanta (group_digits rest)"
    by (subst decode_quanta.simps) (simp del: to_digits.simps flip: length_0_conv)
  then show ?case using IH decode_group [of "[a, b, c, d, e]"] by (simp add: encode_group_def del: to_digits.simps)
qed (auto simp: decode_quanta.simps dest: dvd_imp_le)

lemma secret_round_trip:
  assumes "5 dvd length bytes"
  shows "b32decode_padded (generate_secret bytes) = Some bytes"
proof -
  define s where "s = map b32_char (group_digits bytes)"
  note g = whole_groups [OF assms, folded s_def]
  have plain: "to_upper c = c \<and> c \<noteq> CHR '' '' \<and> c \<noteq> CHR ''='' \<and> \<not> is_space c" if "c \<in> set s" for c
    using that group_digits_small [of bytes] b32_char_plain by (auto simp: s_def list_all_iff)
  have up: "map to_upper s = s" and sp: "filter (\<lambda>c. c \<noteq> CHR '' '') s = s"
    using plain by (auto intro: map_idI filter_True)
  have pad: "rstrip_pad s = s"
    using plain by (cases "s" rule: rev_cases) (auto simp: rstrip_pad_def)
  have st: "strip s = s"
  proof (cases "s = []")
    case True
    then show ?thesis by (simp add: strip_def)
  next
    case False
    then show ?thesis using plain by (intro strip_solid) auto
  qed
  have len: "length s mod 8 = 0" using g by (simp add: s_def dvd_eq_mod_eq_0)
  have "(- int n) mod 8 = 0" if "n mod 8 = 0" for n :: nat using that by presburger
  from this [OF len] have "(- int (length s)) mod 8 = 0" .
  then have "b32decode_padded (generate_secret bytes) = b32decode s"
    using g pad up st sp by (simp add: b32decode_padded_def generate_secret_def Let_def)
  also have "\<dots> = Some bytes"
    using len up pad g b32_digits_chars [OF group_digits_small, of bytes, folded s_def] by (simp add: b32decode_def Let_def)
  finally show ?thesis .
qed

text \<open>
  C22. The secret \<open>/setup\<close> shows is the drawn key: it decodes to the same bytes, whenever their number is
  a multiple of five as it is for the twenty bytes the code draws.
\<close>

theorem generate_secret_decodes:
  assumes "5 dvd length bytes"
  shows "b32decode_padded (generate_secret bytes) = Some bytes"
  using assms by (rule secret_round_trip)

lemma generate_secret_decodes_witness:
  "b32decode_padded (generate_secret [1, 2, 3, 4, 255]) = Some [1, 2, 3, 4, 255]"
  using generate_secret_decodes [of "[1, 2, 3, 4, 255]"] by (simp add: numeral_eq_Suc)

end
