(* ===== verification/Totp.thy ===== *)
theory Totp
  imports Rate_Limit Pins Base32 "HOL-Library.AList"
begin

unbundle bit_operations_syntax

text \<open>
  The one-time codes of the administrators (\<open>backend/app/auth_2fa.py\<close>), the guard of the admin
  endpoints (\<open>backend/app/admin_guard.py\<close>) and enrolment (\<open>backend/app/routers/admin/twofa.py\<close>).
  A code is accepted once: its counter is claimed in Redis, which no rollback undoes, or else
  written to the row by a conditional update. HMAC-SHA1 is a parameter; times are whole seconds.
\<close>

section \<open>Codes\<close>

definition DIGITS :: nat where "DIGITS = 6"
definition PERIOD :: int where "PERIOD = 30"
definition DRIFT_WINDOWS :: int where "DRIFT_WINDOWS = 1"

type_synonym bytes = "8 word list"

text \<open>\<open>hmac.new(key, message, hashlib.sha1).digest()\<close>: always twenty bytes.\<close>

type_synonym hmac_sha1 = "bytes \<Rightarrow> bytes \<Rightarrow> bytes"

definition sha1_ok :: "hmac_sha1 \<Rightarrow> bool" where
  "sha1_ok mac \<longleftrightarrow> (\<forall>key m. length (mac key m) = 20)"

text \<open>\<open>struct.pack(">Q", n)\<close>: \<open>struct.error\<close> outside 64 bits.\<close>

definition pack_Q :: "int \<Rightarrow> py_error + bytes" where
  "pack_Q n = (if 0 \<le> n \<and> n < 2 ^ 64 then Inr (map word_of_nat (to_digits 256 8 (nat n)))
     else Inl (RuntimeErr (E_other ''struct.error'')))"

definition zfill :: "nat \<Rightarrow> string \<Rightarrow> string" where
  "zfill n s = replicate (n - length s) CHR ''0'' @ s"

definition hotp :: "hmac_sha1 \<Rightarrow> bytes \<Rightarrow> int \<Rightarrow> py_error + string" where
  "hotp mac key counter =
     (case pack_Q counter of Inl e \<Rightarrow> Inl e | Inr counter_bytes \<Rightarrow>
      let digest = mac key counter_bytes in
      if digest = [] then Inl (RuntimeErr (E_other ''IndexError''))
      else let offset = unat (List.last digest AND 0x0F) in
      if length digest \<le> offset + 3 then Inl (RuntimeErr (E_other ''IndexError''))
      else let code_int = push_bit 24 (unat (digest ! offset AND 0x7F)) OR push_bit 16 (unat (digest ! (offset + 1) AND 0xFF))
                 OR push_bit 8 (unat (digest ! (offset + 2) AND 0xFF)) OR unat (digest ! (offset + 3) AND 0xFF)
           in Inr (zfill DIGITS (show_nat (code_int mod 10 ^ DIGITS))))"

text \<open>\<open>verify_totp_and_counter\<close>: every window is compared, the first match is remembered.\<close>

fun match_window :: "hmac_sha1 \<Rightarrow> bytes \<Rightarrow> string \<Rightarrow> int list \<Rightarrow> int option \<Rightarrow> py_error + int option" where
  "match_window mac key code [] matched = Inr matched"
| "match_window mac key code (c # cs) matched =
     (case hotp mac key c of Inl e \<Rightarrow> Inl e
      | Inr candidate \<Rightarrow>
          match_window mac key code cs (if candidate = code \<and> matched = None then Some c else matched))"

definition verify_totp_and_counter :: "hmac_sha1 \<Rightarrow> int \<Rightarrow> string \<Rightarrow> string \<Rightarrow> py_error + int option" where
  "verify_totp_and_counter mac time secret code0 =
     (if secret = [] \<or> code0 = [] then Inr None
      else let code = strip code0 in
      if code = [] \<or> \<not> list_all is_digit code \<or> length code \<noteq> DIGITS then Inr None
      else let counter = time div PERIOD in
           case b32decode_padded secret of
             None \<Rightarrow> Inl (ValueErr (E_other ''binascii.Error''))
           | Some key \<Rightarrow> match_window mac key code
               (map (\<lambda>delta. counter + delta) [- DRIFT_WINDOWS .. DRIFT_WINDOWS]) None)"

definition totp_now :: "hmac_sha1 \<Rightarrow> int \<Rightarrow> string \<Rightarrow> py_error + string" where
  "totp_now mac time secret =
     (case b32decode_padded secret of
        None \<Rightarrow> Inl (ValueErr (E_other ''binascii.Error''))
      | Some key \<Rightarrow> hotp mac key (time div PERIOD))"

definition otpauth_url :: "(string \<Rightarrow> string) \<Rightarrow> (string \<Rightarrow> string) \<Rightarrow> string \<Rightarrow> string \<Rightarrow> string" where
  "otpauth_url quote_all quote_path secret account =
     ''otpauth://totp/'' @ quote_all (''Garant'' @ '':'' @ account) @ ''?secret='' @ secret
       @ ''&issuer='' @ quote_path ''Garant'' @ ''&algorithm=SHA1'' @ ''&digits='' @ show_nat DIGITS
       @ ''&period='' @ show_int PERIOD"

section \<open>Redis\<close>

text \<open>
  The keys of this code in Redis, each with the time it expires, and the in-process dictionary
  \<open>_pending_secrets\<close> with its one-shot warning. \<open>NoRedis\<close> is \<open>get_redis() = None\<close>, \<open>RedisFails\<close> a
  client whose call raises.
\<close>

datatype totp_key = TotpClaim int int | TotpPending int

record twofa_store =
  rs_keys :: "(totp_key \<times> string \<times> int) list"
  rs_pending_secrets :: "(int \<times> string \<times> int) list"
  rs_warned :: bool

definition redis_get :: "int \<Rightarrow> totp_key \<Rightarrow> twofa_store \<Rightarrow> string option" where
  "redis_get now k st =
     (case map_of (rs_keys st) k of None \<Rightarrow> None | Some (v, ex) \<Rightarrow> if now < ex then Some v else None)"

definition redis_put :: "totp_key \<Rightarrow> string \<Rightarrow> int \<Rightarrow> twofa_store \<Rightarrow> twofa_store" where
  "redis_put k v ex st = st \<lparr> rs_keys := AList.update k (v, ex) (rs_keys st) \<rparr>"

definition redis_set_nx :: "int \<Rightarrow> totp_key \<Rightarrow> string \<Rightarrow> int \<Rightarrow> twofa_store \<Rightarrow> bool \<times> twofa_store" where
  "redis_set_nx now k v ttl st =
     (case redis_get now k st of Some _ \<Rightarrow> (False, st) | None \<Rightarrow> (True, redis_put k v (now + ttl) st))"

definition redis_getdel :: "int \<Rightarrow> totp_key \<Rightarrow> twofa_store \<Rightarrow> string option \<times> twofa_store" where
  "redis_getdel now k st = (redis_get now k st, st \<lparr> rs_keys := AList.delete k (rs_keys st) \<rparr>)"

section \<open>Consuming a code\<close>

definition totp_bypass :: "auth_settings \<Rightarrow> string \<Rightarrow> string" where
  "totp_bypass cfg env = (if env \<noteq> [] \<and> ac_production cfg then [] else env)"

abbreviation totp_not_configured :: py_error where "totp_not_configured \<equiv> HTTP 403 (E_other ''totp_not_configured'')"
abbreviation totp_required :: py_error where "totp_required \<equiv> HTTP 401 (E_other ''totp_required'')"
abbreviation totp_invalid :: py_error where "totp_invalid \<equiv> HTTP 401 (E_other ''totp_invalid'')"
abbreviation totp_replay :: py_error where "totp_replay \<equiv> HTTP 401 (E_other ''totp_replay'')"
abbreviation totp_unavailable :: py_error where "totp_unavailable \<equiv> HTTP 503 (E_other ''totp_unavailable'')"

definition no_totp :: "user \<Rightarrow> bool" where
  "no_totp u = (\<not> u_totp_enabled u \<or> falsy (u_totp_secret u))"

definition totp_secret_of :: "user \<Rightarrow> string" where
  "totp_secret_of u = (case u_totp_secret u of None \<Rightarrow> [] | Some s \<Rightarrow> s)"

text \<open>\<open>user.totp_last_counter or -1\<close>.\<close>

definition last_counter :: "user \<Rightarrow> int" where
  "last_counter u = (if u_totp_last_counter u = 0 then -1 else u_totp_last_counter u)"

text \<open>
  \<open>_consume_totp\<close>: the writes to the row are part of the caller's transaction, the claim is not. A
  code is accepted with its counter, or without one on the bypass.
\<close>

definition consume_totp ::
  "auth_settings \<Rightarrow> hmac_sha1 \<Rightarrow> string \<Rightarrow> int \<Rightarrow> redis_state \<Rightarrow> user \<Rightarrow> string option \<Rightarrow> twofa_store \<Rightarrow> world
     \<Rightarrow> ((user \<times> int option) result) \<times> twofa_store" where
  "consume_totp cfg mac env now mode u code st w =
     (let bypass = totp_bypass cfg env in
      if bypass \<noteq> [] \<and> code = Some bypass then ((Inr (u, None), w), st)
      else if no_totp u then ((Inl totp_not_configured, w), st)
      else if falsy code then ((Inl totp_required, w), st)
      else case verify_totp_and_counter mac now (totp_secret_of u) (the code) of
        Inl e \<Rightarrow> ((Inl e, w), st)
      | Inr None \<Rightarrow> ((Inl totp_invalid, w), st)
      | Inr (Some matched) \<Rightarrow>
      if matched \<le> last_counter u then ((Inl totp_replay, w), st)
      else let u' = u \<lparr> u_totp_last_counter := matched \<rparr>;
               db = (case get_user (u_id u) w of
                       None \<Rightarrow> (Inl totp_replay, w)
                     | Some row \<Rightarrow>
                         if u_totp_last_counter row < matched
                         then (Inr (u', Some matched), save_user (row \<lparr> u_totp_last_counter := matched \<rparr>) w)
                         else (Inl totp_replay, w))
      in case mode of
           RedisUp \<Rightarrow>
             (case redis_set_nx now (TotpClaim (u_id u) matched) ''1'' (PERIOD * (2 * DRIFT_WINDOWS + 1) + 1) st of
                (False, st') \<Rightarrow> ((Inl totp_replay, w), st')
              | (True, st') \<Rightarrow>
                  ((case get_user (u_id u) w of
                      None \<Rightarrow> (Inl (RuntimeErr (E_other ''StaleDataError'')), w)
                    | Some row \<Rightarrow> (Inr (u', Some matched), save_user (row \<lparr> u_totp_last_counter :=
                        assigned (u_totp_last_counter u) matched (u_totp_last_counter row) \<rparr>) w)), st'))
         | RedisFails \<Rightarrow> if ac_require_redis_for_2fa cfg then ((Inl totp_unavailable, w), st) else (db, st)
         | NoRedis \<Rightarrow> (db, st))"

section \<open>The guard\<close>

record admin_guard =
  g_require_totp :: bool
  g_allow_arbiter :: bool

definition ADMIN_GUARD :: admin_guard where "ADMIN_GUARD = \<lparr> g_require_totp = False, g_allow_arbiter = False \<rparr>"
definition ADMIN_GUARD_TOTP :: admin_guard where "ADMIN_GUARD_TOTP = \<lparr> g_require_totp = True, g_allow_arbiter = False \<rparr>"
definition ADMIN_GUARD_OR_ARBITER :: admin_guard where
  "ADMIN_GUARD_OR_ARBITER = \<lparr> g_require_totp = False, g_allow_arbiter = True \<rparr>"
definition ADMIN_GUARD_TOTP_OR_ARBITER :: admin_guard where
  "ADMIN_GUARD_TOTP_OR_ARBITER = \<lparr> g_require_totp = True, g_allow_arbiter = True \<rparr>"

abbreviation access_denied :: py_error where "access_denied \<equiv> HTTP 403 (E_other ''access_denied'')"

definition admin_guard_call ::
  "auth_settings \<Rightarrow> jwt_lib \<Rightarrow> hmac_sha1 \<Rightarrow> string \<Rightarrow> int \<Rightarrow> redis_state \<Rightarrow> admin_guard \<Rightarrow> user
     \<Rightarrow> string option \<Rightarrow> string option \<Rightarrow> twofa_store \<Rightarrow> world \<Rightarrow> ((user \<times> int option) result) \<times> twofa_store" where
  "admin_guard_call cfg lib mac env now mode g u x_totp_code x_totp_session st w =
     (if (if g_allow_arbiter g then \<not> (u_is_admin u \<or> u_is_arbiter u) else \<not> u_is_admin u)
      then ((Inl access_denied, w), st)
      else if g_require_totp g \<and> \<not> validate_totp_session now cfg lib u x_totp_session
      then consume_totp cfg mac env now mode u x_totp_code st w
      else ((Inr (u, None), w), st))"

text \<open>A guarded request: the endpoint runs behind the guard in one transaction, and a failure of
  either undoes what both wrote to the database.\<close>

definition guarded ::
  "((user \<times> int option) result) \<times> twofa_store \<Rightarrow> (user \<Rightarrow> world \<Rightarrow> 'a result) \<Rightarrow> world \<Rightarrow> 'a result \<times> twofa_store" where
  "guarded guard endpoint w =
     (case guard of
        ((Inl e, _), st) \<Rightarrow> ((Inl e, w), st)
      | ((Inr (u, _), w1), st) \<Rightarrow>
          ((case endpoint u w1 of (Inl e, _) \<Rightarrow> (Inl e, w) | (Inr r, w2) \<Rightarrow> (Inr r, w2)), st))"

section \<open>Enrolment\<close>

definition PENDING_TTL :: int where "PENDING_TTL = 10 * 60"

definition consume_first_observation :: "twofa_store \<Rightarrow> bool \<times> twofa_store" where
  "consume_first_observation st = (if rs_warned st then (False, st) else (True, st \<lparr> rs_warned := True \<rparr>))"

text \<open>\<open>_warn_fallback_once\<close> logs at the level the observation says; only the flag is state.\<close>

definition warn_fallback_once :: "twofa_store \<Rightarrow> twofa_store" where
  "warn_fallback_once st = snd (consume_first_observation st)"

definition store_pending ::
  "auth_settings \<Rightarrow> int \<Rightarrow> redis_state \<Rightarrow> int \<Rightarrow> string \<Rightarrow> twofa_store \<Rightarrow> (py_error + unit) \<times> twofa_store" where
  "store_pending cfg now mode user_id secret st =
     (if mode = RedisUp then (Inr (), redis_put (TotpPending user_id) secret (now + PENDING_TTL) st)
      else if ac_require_redis_for_2fa cfg then (Inl totp_unavailable, st)
      else let st1 = warn_fallback_once st in
           (Inr (), st1 \<lparr> rs_pending_secrets := AList.update user_id (secret, now + PENDING_TTL) (rs_pending_secrets st1) \<rparr>))"

definition pop_pending :: "int \<Rightarrow> redis_state \<Rightarrow> int \<Rightarrow> twofa_store \<Rightarrow> string option \<times> twofa_store" where
  "pop_pending now mode user_id st =
     (case (if mode = RedisUp then redis_getdel now (TotpPending user_id) st else (None, st)) of
        (Some secret, st1) \<Rightarrow> (Some secret, st1)
      | (None, st1) \<Rightarrow>
          let st2 = st1 \<lparr> rs_pending_secrets := AList.delete user_id (rs_pending_secrets st1) \<rparr> in
          (case map_of (rs_pending_secrets st1) user_id of
             None \<Rightarrow> (None, st2)
           | Some (secret, expires) \<Rightarrow>
               if expires < now then (None, st2) else (Some secret, warn_fallback_once st2)))"

definition twofa_status :: "user \<Rightarrow> bool" where
  "twofa_status u = (\<not> no_totp u)"

definition twofa_setup ::
  "auth_settings \<Rightarrow> (string \<Rightarrow> string) \<Rightarrow> (string \<Rightarrow> string) \<Rightarrow> int \<Rightarrow> redis_state \<Rightarrow> bytes \<Rightarrow> user \<Rightarrow> twofa_store
     \<Rightarrow> (py_error + (string \<times> string)) \<times> twofa_store" where
  "twofa_setup cfg quote_all quote_path now mode token_bytes u st =
     (let secret = generate_secret token_bytes in
      case store_pending cfg now mode (u_id u) secret st of
        (Inl e, st1) \<Rightarrow> (Inl e, st1)
      | (Inr _, st1) \<Rightarrow>
          let account = (if falsy (u_username u) then ''id'' @ show_int (u_id u) else the (u_username u)) in
          (Inr (secret, otpauth_url quote_all quote_path secret account), st1))"

record confirm_in =
  cf_secret :: string
  cf_code :: string
  cf_current_code :: "string option"

definition code_field_ok :: "string \<Rightarrow> bool" where
  "code_field_ok v = (v \<noteq> [] \<and> list_all is_digit v \<and> length v \<in> {6, 8})"

text \<open>The validators of \<open>Admin2faConfirmIn\<close> and \<open>Admin2faVerifyIn\<close>; \<open>None\<close> is a 422.\<close>

definition confirm_in_validated :: "confirm_in \<Rightarrow> confirm_in option" where
  "confirm_in_validated b =
     (let secret = strip (cf_secret b); code = strip (cf_code b); current = map_option strip (cf_current_code b) in
      if secret = [] \<or> length secret < 16 \<or> 64 < length secret then None
      else if \<not> code_field_ok code then None
      else if (case current of None \<Rightarrow> False | Some v \<Rightarrow> \<not> code_field_ok v) then None
      else Some \<lparr> cf_secret = secret, cf_code = code, cf_current_code = current \<rparr>)"

definition verify_in_validated :: "string \<Rightarrow> string option" where
  "verify_in_validated code0 = (let code = strip code0 in if code_field_ok code then Some code else None)"

abbreviation wrong_current_code :: py_error where "wrong_current_code \<equiv> HTTP 401 (E_other ''wrong_current_code'')"
abbreviation no_pending_secret :: py_error where "no_pending_secret \<equiv> HTTP 400 (E_other ''no_pending_secret'')"
abbreviation rotation_unchanged :: py_error where "rotation_unchanged \<equiv> HTTP 400 (E_other ''rotation_unchanged'')"
abbreviation secret_mismatch :: py_error where "secret_mismatch \<equiv> HTTP 400 (E_other ''secret_mismatch'')"

text \<open>The rotation guard: whether this is a rotation.\<close>

definition rotation_guard :: "hmac_sha1 \<Rightarrow> int \<Rightarrow> user \<Rightarrow> string option \<Rightarrow> py_error + bool" where
  "rotation_guard mac now u current_code =
     (if no_totp u then Inr False
      else if falsy current_code then Inl (HTTP 401 (E_other ''current_code_required''))
      else case verify_totp_and_counter mac now (totp_secret_of u) (the current_code) of
        Inl e \<Rightarrow> Inl e
      | Inr None \<Rightarrow> Inl wrong_current_code
      | Inr (Some current_counter) \<Rightarrow>
          if current_counter \<le> last_counter u then Inl wrong_current_code else Inr True)"

definition enable_secret :: "user \<Rightarrow> bool \<Rightarrow> confirm_in \<Rightarrow> string option \<Rightarrow> py_error + string" where
  "enable_secret u rotated body pending =
     (if rotated
      then let secret = (if cf_secret body \<noteq> [] then Some (cf_secret body) else pending) in
           if falsy secret then Inl no_pending_secret
           else if secret = u_totp_secret u \<and> Some (cf_code body) = cf_current_code body then Inl rotation_unchanged
           else Inr (the secret)
      else case pending of
        None \<Rightarrow> Inl no_pending_secret
      | Some p \<Rightarrow> if cf_secret body \<noteq> [] \<and> cf_secret body \<noteq> p then Inl secret_mismatch else Inr p)"

text \<open>The columns \<open>enable\<close> and \<open>disable\<close> assign, flushed to the row as it is.\<close>

definition write_totp :: "user \<Rightarrow> user \<Rightarrow> world \<Rightarrow> py_error + world" where
  "write_totp u u' w =
     (case get_user (u_id u) w of
        None \<Rightarrow> Inl (RuntimeErr (E_other ''StaleDataError''))
      | Some row \<Rightarrow> Inr (save_user (row \<lparr>
          u_totp_secret := assigned (u_totp_secret u) (u_totp_secret u') (u_totp_secret row),
          u_totp_enabled := assigned (u_totp_enabled u) (u_totp_enabled u') (u_totp_enabled row),
          u_totp_last_counter := assigned (u_totp_last_counter u) (u_totp_last_counter u') (u_totp_last_counter row),
          u_totp_session_epoch := assigned (u_totp_session_epoch u) (u_totp_session_epoch u') (u_totp_session_epoch row) \<rparr>) w))"

definition twofa_enable ::
  "hmac_sha1 \<Rightarrow> int \<Rightarrow> redis_state \<Rightarrow> confirm_in \<Rightarrow> user \<Rightarrow> twofa_store \<Rightarrow> world \<Rightarrow> bool result \<times> twofa_store" where
  "twofa_enable mac now mode body u st w =
     (case rotation_guard mac now u (cf_current_code body) of Inl e \<Rightarrow> ((Inl e, w), st) | Inr rotated \<Rightarrow>
      case pop_pending now mode (u_id u) st of (pending, st1) \<Rightarrow>
      case enable_secret u rotated body pending of Inl e \<Rightarrow> ((Inl e, w), st1) | Inr secret \<Rightarrow>
      case verify_totp_and_counter mac now secret (cf_code body) of
        Inl e \<Rightarrow> ((Inl e, w), st1)
      | Inr None \<Rightarrow> ((Inl totp_invalid, w), st1)
      | Inr (Some new_counter) \<Rightarrow>
      if rotated \<and> Some secret = u_totp_secret u \<and> new_counter \<le> last_counter u then ((Inl totp_replay, w), st1)
      else case write_totp u (u \<lparr> u_totp_secret := Some secret, u_totp_enabled := True, u_totp_last_counter := new_counter,
                                  u_totp_session_epoch := u_totp_session_epoch u + 1 \<rparr>) w of
        Inl e \<Rightarrow> ((Inl e, w), st1)
      | Inr w1 \<Rightarrow> ((Inr True, log_admin_action u (if rotated then ''2fa.rotate'' else ''2fa.enable'') ''user'' (u_id u) None
                      [(''enabled'', MBool True), (''rotated'', MBool rotated)] w1), st1))"

definition twofa_disable :: "hmac_sha1 \<Rightarrow> int \<Rightarrow> string \<Rightarrow> user \<Rightarrow> world \<Rightarrow> bool result" where
  "twofa_disable mac now code u w =
     (if no_totp u then (Inr False, w)
      else case verify_totp_and_counter mac now (totp_secret_of u) code of
        Inl e \<Rightarrow> (Inl e, w)
      | Inr None \<Rightarrow> (Inl totp_invalid, w)
      | Inr (Some matched) \<Rightarrow>
      if matched \<le> last_counter u then (Inl totp_invalid, w)
      else case write_totp u (u \<lparr> u_totp_secret := None, u_totp_enabled := False, u_totp_last_counter := matched,
                                  u_totp_session_epoch := u_totp_session_epoch u + 1 \<rparr>) w of
        Inl e \<Rightarrow> (Inl e, w)
      | Inr w1 \<Rightarrow> (Inr False, log_admin_action u ''2fa.disable'' ''user'' (u_id u) None [(''enabled'', MBool False)] w1))"

text \<open>\<open>/session\<close>: the counter is committed before the token is minted.\<close>

definition twofa_open_session ::
  "auth_settings \<Rightarrow> jwt_lib \<Rightarrow> hmac_sha1 \<Rightarrow> string \<Rightarrow> int \<Rightarrow> redis_state \<Rightarrow> string \<Rightarrow> string \<Rightarrow> user \<Rightarrow> twofa_store \<Rightarrow> world
     \<Rightarrow> (string \<times> int) result \<times> twofa_store" where
  "twofa_open_session cfg lib mac env now mode jti code u st w =
     (if no_totp u then ((Inl totp_not_configured, w), st)
      else case consume_totp cfg mac env now mode u (Some code) st w of
        ((Inl e, _), st1) \<Rightarrow> ((Inl e, w), st1)
      | ((Inr (u1, _), w1), st1) \<Rightarrow>
          let (token, expires) = issue_totp_session_token cfg lib now jti (u_id u1) (u_totp_session_epoch u1) in
          ((Inr (token, expires), log_admin_action u1 ''2fa.session.open'' ''user'' (u_id u1) None
              [(''expires_at'', MInt expires)] w1), st1))"

section \<open>What a code is\<close>

lemma length_show_nat: "n < 10 ^ k \<Longrightarrow> 0 < k \<Longrightarrow> length (show_nat n) \<le> k"
proof -
  have "m < f \<Longrightarrow> m < 10 ^ k \<Longrightarrow> 0 < k \<Longrightarrow> length (show_nat_fuel f m) \<le> k" for f m
  proof (induction f arbitrary: m k)
    case (Suc f)
    show ?case
    proof (cases "m < 10")
      case False
      obtain j where k: "k = Suc j" using Suc.prems by (cases k) auto
      then have j: "0 < j" using Suc.prems(2) False by (cases j) auto
      have "m div 10 < f" "m div 10 < 10 ^ j" using Suc.prems False k by auto
      then show ?thesis using Suc.IH [of "m div 10" j] k j False by simp
    qed (use Suc.prems in simp)
  qed simp
  then show "n < 10 ^ k \<Longrightarrow> 0 < k \<Longrightarrow> length (show_nat n) \<le> k" unfolding show_nat_def by blast
qed

lemma digits_value_zeros: "digits_value 0 (replicate n CHR ''0'' @ s) = digits_value 0 s"
  by (induction n) (simp_all add: is_digit_def digit_value_def)

lemma zfill_value:
  assumes "v < 10 ^ k" and "0 < k"
  shows "length (zfill k (show_nat v)) = k" "list_all is_digit (zfill k (show_nat v))"
    "python_int (zfill k (show_nat v)) = Some (int v)"
proof -
  let ?z = "zfill k (show_nat v)"
  note d = show_nat_value [of v]
  show len: "length ?z = k" using length_show_nat [OF assms] by (simp add: zfill_def)
  show digits: "list_all is_digit ?z" using d(1) by (auto simp: zfill_def is_digit_def list_all_iff set_replicate_conv_if)
  obtain c cs where z: "?z = c # cs" "is_digit c" using len digits assms(2) by (cases ?z) auto
  have "c \<noteq> CHR ''-''" "c \<noteq> CHR ''+''" using z(2) by (auto simp: is_digit_def)
  moreover have "strip ?z = ?z" using digits z(1) by (intro strip_solid) (auto simp: list_all_iff digit_not_space)
  moreover have "digits_value 0 ?z = Some (int v)"
    using d(3) by (auto simp: zfill_def digits_value_zeros unsigned_value_def split: list.splits if_splits)
  ultimately show "python_int ?z = Some (int v)" using z by (simp add: python_int_def unsigned_value_def)
qed

lemma or_below:
  fixes m n :: nat
  assumes "n < 2 ^ k"
  shows "push_bit k m OR n = 2 ^ k * m + n"
proof -
  have "take_bit k n = n" using assms by (simp add: take_bit_nat_eq_self)
  then have "bit n j \<Longrightarrow> j < k" for j by (metis bit_take_bit_iff)
  then have "push_bit k m AND n = 0" by (intro bit_eqI) (auto simp: bit_simps dest: leD)
  then show ?thesis by (simp add: disjunctive_add_eq_or [symmetric] push_bit_eq_mult mult.commute)
qed

lemma unat_and_mask: "unat (x AND 0x7F) = unat x mod 128" "unat (x AND 0xFF) = unat x" for x :: "8 word"
proof -
  have "unat (x AND mask 7) = take_bit 7 (unat x)" by (simp only: take_bit_eq_mask [symmetric] unsigned_take_bit_eq)
  then have "unat (x AND mask 7) = unat x mod 128" by (simp add: take_bit_eq_mod)
  moreover have "(mask 7 :: 8 word) = 0x7F" by (simp add: mask_eq_exp_minus_1)
  ultimately show "unat (x AND 0x7F) = unat x mod 128" by simp
  have "x AND mask 8 = x" by (simp add: take_bit_eq_mask [symmetric] take_bit_word_eq_self)
  moreover have "(mask 8 :: 8 word) = 0xFF" by (simp add: mask_eq_exp_minus_1)
  ultimately show "unat (x AND 0xFF) = unat x" by simp
qed

text \<open>The 31 bits that dynamic truncation picks, as a number.\<close>

definition truncated :: "bytes \<Rightarrow> nat" where
  "truncated digest = from_digits 256 (map unat (take 4 (drop (unat (List.last digest) mod 16) digest))) mod 2 ^ 31"

lemma take4: "n + 3 < length xs \<Longrightarrow> take 4 (drop n xs) = [xs ! n, xs ! (n + 1), xs ! (n + 2), xs ! (n + 3)]"
  by (rule nth_equalityI) (auto simp: less_Suc_eq numeral_eq_Suc)

lemma dynamic_truncation:
  assumes "unat (List.last digest) mod 16 + 3 < length digest"
  shows "(let offset = unat (List.last digest) mod 16 in
      push_bit 24 (unat (digest ! offset AND 0x7F)) OR push_bit 16 (unat (digest ! (offset + 1) AND 0xFF))
        OR push_bit 8 (unat (digest ! (offset + 2) AND 0xFF)) OR unat (digest ! (offset + 3) AND 0xFF)) = truncated digest"
proof -
  have lt: "unat b < 256" for b :: "8 word" using unsigned_less [where 'b = 8 and 'a = nat] by simp
  have e: "push_bit 24 a OR push_bit 16 b OR push_bit 8 c OR d = 16777216 * a + 65536 * b + 256 * c + d"
    if "b < 256" "c < 256" "d < 256" for a b c d :: nat
    using that by (simp add: or_below or.assoc)
  have m: "16777216 * (a mod 128) + 65536 * b + 256 * c + d = (256 * (256 * (256 * a + b) + c) + d) mod 2147483648"
    if "b < 256" "c < 256" "d < 256" for a b c d :: nat
  proof -
    let ?r = "65536 * b + 256 * c + d"
    have "?r < 16777216" using that by simp
    then have "(16777216 * a + ?r) mod (16777216 * 128) = 16777216 * (a mod 128) + ?r"
      unfolding mod_mult2_eq by simp
    then show ?thesis by (simp add: algebra_simps)
  qed
  show ?thesis
    by (simp add: Let_def unat_and_mask e lt truncated_def take4 [OF assms] from_digits_def m)
qed

text \<open>
  A code is always six decimal digits, the remainder of the 31 bits that RFC 4226 picks from the
  digest, with leading zeros; with a twenty-byte digest no index is out of range.
\<close>

theorem hotp_is_six_digits:
  assumes "sha1_ok mac" and "0 \<le> counter" and "counter < 2 ^ 64"
  shows "\<exists>code. hotp mac key counter = Inr code \<and> length code = 6 \<and> list_all is_digit code
    \<and> python_int code = Some (int (truncated (mac key (map word_of_nat (to_digits 256 8 (nat counter)))) mod 10 ^ 6))"
proof -
  define digest where "digest = mac key (map word_of_nat (to_digits 256 8 (nat counter)))"
  have len: "length digest = 20" using assms(1) by (simp add: sha1_ok_def digest_def)
  have mask: "unat (x AND 0x0F) = unat x mod 16" for x :: "8 word"
  proof -
    have "unat (x AND mask 4) = take_bit 4 (unat x)" by (simp only: take_bit_eq_mask [symmetric] unsigned_take_bit_eq)
    then show ?thesis by (simp add: take_bit_eq_mod mask_eq_exp_minus_1)
  qed
  have in_range: "unat (List.last digest) mod 16 + 3 < length digest"
    using len mod_less_divisor [of 16 "unat (List.last digest)"] by simp
  then have "hotp mac key counter = Inr (zfill 6 (show_nat (truncated digest mod 10 ^ 6)))"
    using assms(2,3) len dynamic_truncation [OF in_range]
    by (auto simp: hotp_def pack_Q_def Let_def mask DIGITS_def digest_def [symmetric] simp del: to_digits.simps)
  moreover have "truncated digest mod 10 ^ 6 < 10 ^ 6" by simp
  note z = zfill_value [OF this]
  ultimately show ?thesis using z by (auto simp: digest_def [symmetric] simp del: to_digits.simps)
qed

lemma hotp_Inr_range: "hotp mac key c = Inr code \<Longrightarrow> 0 \<le> c \<and> c < 2 ^ 64"
  by (auto simp: hotp_def pack_Q_def split: if_splits)

section \<open>Which codes verify\<close>

lemma match_window_kept: "match_window mac key code cs (Some m) = Inr r \<Longrightarrow> r = Some m"
  by (induction cs) (auto split: sum.splits)

lemma match_window_sound:
  "match_window mac key code cs None = Inr (Some c) \<Longrightarrow> c \<in> set cs \<and> hotp mac key c = Inr code"
  by (induction cs) (auto split: sum.splits if_splits dest: match_window_kept)

lemma match_window_complete:
  assumes "\<forall>c \<in> set cs. \<exists>x. hotp mac key c = Inr x" and "c \<in> set cs" and "hotp mac key c = Inr code"
  shows "\<exists>c'. match_window mac key code cs None = Inr (Some c')"
proof -
  have total: "\<exists>r. match_window mac key code cs m = Inr r" if "\<forall>c \<in> set cs. \<exists>x. hotp mac key c = Inr x" for cs m
    using that by (induction cs arbitrary: m) (auto split: sum.split)
  show ?thesis using assms
  proof (induction cs)
    case (Cons d cs)
    then obtain x where x: "hotp mac key d = Inr x" by auto
    show ?case
    proof (cases "x = code")
      case True
      then show ?thesis using total [of cs "Some d"] x Cons.prems(1) by (auto dest: match_window_kept)
    qed (use x Cons in auto)
  qed simp
qed

lemma strip_digits: "list_all is_digit s \<Longrightarrow> strip s = s"
proof (cases "s = []")
  case True
  then show ?thesis by (simp add: strip_def)
next
  case False
  assume "list_all is_digit s"
  then show ?thesis using False by (intro strip_solid) (auto simp: list_all_iff digit_not_space)
qed

definition within_drift :: "int \<Rightarrow> int \<Rightarrow> bool" where
  "within_drift now c \<longleftrightarrow> now div 30 - 1 \<le> c \<and> c \<le> now div 30 + 1"

lemma windows: "map (\<lambda>d. n + d) [- DRIFT_WINDOWS .. DRIFT_WINDOWS] = [n - 1, n, n + 1]"
  by (simp add: DRIFT_WINDOWS_def upto_rec1)

lemma verify_sound:
  assumes "verify_totp_and_counter mac now secret code = Inr (Some c)"
  shows "secret \<noteq> [] \<and> within_drift now c \<and> (\<exists>key. b32decode_padded secret = Some key \<and> hotp mac key c = Inr (strip code))"
  using assms
  by (auto simp: verify_totp_and_counter_def Let_def windows PERIOD_def within_drift_def split: if_splits option.splits
      simp del: match_window.simps dest!: match_window_sound)

text \<open>
  The code an authenticator shows is accepted by a server whose clock is at most one period off,
  and the counter the server remembers is one whose code it is.
\<close>

theorem shown_code_verifies:
  assumes "sha1_ok mac" and "secret \<noteq> []" and "b32decode_padded secret = Some key"
    and "totp_now mac shown secret = Inr code" and "30 \<le> now" and "now < 2 ^ 60" and "within_drift now (shown div 30)"
  shows "\<exists>c. verify_totp_and_counter mac now secret code = Inr (Some c) \<and> within_drift now c \<and> hotp mac key c = Inr code"
proof -
  have code: "hotp mac key (shown div 30) = Inr code" using assms(3,4) by (simp add: totp_now_def PERIOD_def)
  then have digits: "length code = 6" "list_all is_digit code"
    using hotp_is_six_digits [OF assms(1)] hotp_Inr_range [OF code] by (metis Inr_inject)+
  let ?cs = "[now div 30 - 1, now div 30, now div 30 + 1]"
  have "0 \<le> c \<and> c < 2 ^ 64" if "c \<in> set ?cs" for c using that assms(5,6) by auto
  then have "\<forall>c \<in> set ?cs. \<exists>x. hotp mac key c = Inr x" using hotp_is_six_digits [OF assms(1)] by blast
  moreover have "shown div 30 \<in> set ?cs" using assms(7) by (auto simp: within_drift_def)
  ultimately obtain c where c: "match_window mac key code ?cs None = Inr (Some c)"
    using match_window_complete code by blast
  then have "verify_totp_and_counter mac now secret code = Inr (Some c)"
    using assms(2,3) digits
    by (auto simp: verify_totp_and_counter_def Let_def windows PERIOD_def strip_digits DIGITS_def simp del: match_window.simps)
  moreover from match_window_sound [OF c] have "within_drift now c \<and> hotp mac key c = Inr code"
    by (auto simp: within_drift_def)
  ultimately show ?thesis by blast
qed

section \<open>A code is accepted once\<close>

text \<open>A claim that is still there when the code of its counter can no longer verify.\<close>

definition claimed :: "twofa_store \<Rightarrow> int \<Rightarrow> int \<Rightarrow> bool" where
  "claimed st i c \<longleftrightarrow> (\<exists>v ex. map_of (rs_keys st) (TotpClaim i c) = Some (v, ex) \<and> 30 * c + 61 \<le> ex)"

lemma consume_accepts:
  assumes "consume_totp cfg mac env now mode u code st w = ((Inr (u', Some c), w'), st')"
  shows "u_totp_enabled u \<and> verify_totp_and_counter mac now (totp_secret_of u) (the code) = Inr (Some c)
    \<and> last_counter u < c \<and> u' = u \<lparr> u_totp_last_counter := c \<rparr> \<and> (\<exists>row. get_user (u_id u) w = Some row)"
  using assms
  by (auto simp: consume_totp_def no_totp_def Let_def split: if_splits sum.splits option.splits redis_state.splits prod.splits bool.splits)

lemma consume_claims:
  assumes "consume_totp cfg mac env now RedisUp u code st w = ((r, w'), st')"
  shows "claimed st i c \<Longrightarrow> claimed st' i c"
    and "r = Inr (u', Some m) \<Longrightarrow> \<not> claimed st (u_id u) m \<and> claimed st' (u_id u) m"
proof -
  have drift: "now < 30 * n + 61 \<and> 30 * n + 61 \<le> now + 91"
    if "verify_totp_and_counter mac now (totp_secret_of u) (the code) = Inr (Some n)" for n
    using verify_sound [OF that] by (auto simp: within_drift_def)
  show "claimed st i c \<Longrightarrow> claimed st' i c"
    using assms drift
    by (auto simp: consume_totp_def Let_def claimed_def redis_set_nx_def redis_put_def update_conv' PERIOD_def DRIFT_WINDOWS_def
        split: if_splits sum.splits option.splits prod.splits bool.splits)
  assume r: "r = Inr (u', Some m)"
  have v: "verify_totp_and_counter mac now (totp_secret_of u) (the code) = Inr (Some m)"
    using consume_accepts assms r by blast
  show "\<not> claimed st (u_id u) m \<and> claimed st' (u_id u) m"
    using assms r drift [OF v] v
    by (auto simp: consume_totp_def Let_def claimed_def redis_set_nx_def redis_get_def redis_put_def update_conv' PERIOD_def DRIFT_WINDOWS_def
        split: if_splits sum.splits option.splits prod.splits bool.splits)
qed

text \<open>Requests of any users with codes, each with the row its session loaded (which may be out of date)
  and its database: the user and the counter of the codes that are accepted.\<close>

fun claims_run ::
  "auth_settings \<Rightarrow> hmac_sha1 \<Rightarrow> string \<Rightarrow> (int \<times> user \<times> string option \<times> world) list \<Rightarrow> twofa_store \<Rightarrow> (int \<times> int) list" where
  "claims_run cfg mac env [] st = []"
| "claims_run cfg mac env ((now, u, code, w) # reqs) st =
     (case consume_totp cfg mac env now RedisUp u code st w of
        ((Inr (_, Some c), _), st') \<Rightarrow> (u_id u, c) # claims_run cfg mac env reqs st'
      | ((_, _), st') \<Rightarrow> claims_run cfg mac env reqs st')"

lemma claims_run_fresh: "claimed st i c \<Longrightarrow> (i, c) \<notin> set (claims_run cfg mac env reqs st)"
proof (induction reqs arbitrary: st)
  case (Cons q reqs)
  obtain now u code w where q: "q = (now, u, code, w)" by (cases q)
  obtain r w' st' where run: "consume_totp cfg mac env now RedisUp u code st w = ((r, w'), st')" by (metis prod.exhaust)
  have "claimed st' i c" by (rule consume_claims(1) [OF run Cons.prems])
  note IH = Cons.IH [OF this]
  have "(u_id u, m) \<noteq> (i, c)" if "r = Inr (u', Some m)" for u' m
    using consume_claims(2) [OF run that] Cons.prems by auto
  then show ?case using IH run by (auto simp: q split: sum.splits prod.splits option.splits)
qed simp

text \<open>
  C20. With Redis up, no counter of a user is accepted twice, at whatever times, with however many
  processes and stale rows, and whether or not the guarded requests commit: the claim outlives the
  time in which the code verifies.
\<close>

theorem claimed_codes_are_single_use:
  shows "distinct (claims_run cfg mac env reqs st)"
proof (induction reqs arbitrary: st)
  case (Cons q reqs)
  obtain now u code w where q: "q = (now, u, code, w)" by (cases q)
  obtain r w' st' where run: "consume_totp cfg mac env now RedisUp u code st w = ((r, w'), st')" by (metis prod.exhaust)
  have "(u_id u, m) \<notin> set (claims_run cfg mac env reqs st')" if "r = Inr (u', Some m)" for u' m
    using consume_claims(2) [OF run that] claims_run_fresh by blast
  then show ?case using Cons.IH run by (auto simp: q split: sum.splits prod.splits option.splits)
qed simp

text \<open>Committed requests of one administrator, one after the other, in any state of Redis.\<close>

fun totp_run ::
  "auth_settings \<Rightarrow> hmac_sha1 \<Rightarrow> string \<Rightarrow> int \<Rightarrow> (int \<times> redis_state \<times> string option) list \<Rightarrow> twofa_store \<Rightarrow> world \<Rightarrow> int list" where
  "totp_run cfg mac env i [] st w = []"
| "totp_run cfg mac env i ((now, mode, code) # reqs) st w =
     (case get_user i w of None \<Rightarrow> []
      | Some u \<Rightarrow>
          (case consume_totp cfg mac env now mode u code st w of
             ((Inr (_, Some c), w'), st') \<Rightarrow> c # totp_run cfg mac env i reqs st' w'
           | ((_, _), st') \<Rightarrow> totp_run cfg mac env i reqs st' w))"

lemma consume_moves_counter:
  assumes "consume_totp cfg mac env now mode u code st w = ((Inr (u', Some c), w'), st')" and "get_user (u_id u) w = Some u"
    and "60 \<le> now"
  shows "u_totp_last_counter u < c \<and> (\<exists>v. get_user (u_id u) w' = Some v \<and> u_totp_last_counter v = c)"
proof -
  note a = consume_accepts [OF assms(1)]
  have "1 \<le> c" using verify_sound a assms(3) by (fastforce simp: within_drift_def)
  moreover have "c > last_counter u" using a by simp
  ultimately have lt: "u_totp_last_counter u < c" by (auto simp: last_counter_def split: if_splits)
  have "w' = save_user (u \<lparr> u_totp_last_counter := c \<rparr>) w"
    using assms(1,2) lt
    by (auto simp: consume_totp_def Let_def assigned_def split: if_splits sum.splits option.splits redis_state.splits prod.splits bool.splits)
  then show ?thesis using lt get_saved [OF assms(2), of "u \<lparr> u_totp_last_counter := c \<rparr>"] by (simp add: saved_def)
qed

text \<open>
  Requests that commit accept counters in strictly ascending order, above the one in the row: no
  code is accepted twice nor after a newer one, whatever becomes of Redis in between.
\<close>

theorem committed_codes_ascend:
  assumes "get_user i w = Some u" and "\<forall>(now, mode, code) \<in> set reqs. 60 \<le> now"
  shows "sorted_wrt (<) (u_totp_last_counter u # totp_run cfg mac env i reqs st w)"
  using assms
proof (induction reqs arbitrary: st w u)
  case (Cons q reqs)
  obtain now mode code where q: "q = (now, mode, code)" by (cases q)
  have id: "u_id u = i" by (rule get_user_id [OF Cons.prems(1)])
  obtain r w' st' where run: "consume_totp cfg mac env now mode u code st w = ((r, w'), st')" by (metis prod.exhaust)
  show ?case
  proof (cases "\<exists>u' c. r = Inr (u', Some c)")
    case True
    then obtain u' c where r: "r = Inr (u', Some c)" by blast
    obtain v where v: "u_totp_last_counter u < c" "get_user i w' = Some v" "u_totp_last_counter v = c"
      using consume_moves_counter [OF run [unfolded r]] Cons.prems id q by auto
    have "sorted_wrt (<) (c # totp_run cfg mac env i reqs st' w')"
      using Cons.IH [OF v(2), of st'] Cons.prems(2) v(3) by simp
    then show ?thesis using run r Cons.prems(1) v(1) by (auto simp: q)
  next
    case False
    then have "totp_run cfg mac env i (q # reqs) st w = totp_run cfg mac env i reqs st' w"
      using run Cons.prems(1) by (auto simp: q split: sum.splits option.splits)
    then show ?thesis using Cons.IH [OF Cons.prems(1), of st'] Cons.prems(2) by simp
  qed
qed simp

text \<open>Without Redis a request that fails after the guard gives its code back.\<close>

lemma failed_request_returns_code:
  "guarded (consume_totp cfg mac env now NoRedis u code st w) (\<lambda>u w. (Inl e, w)) w = (r, st') \<Longrightarrow> snd r = w \<and> st' = st"
  by (auto simp: guarded_def consume_totp_def Let_def split: if_splits sum.splits option.splits prod.splits)

section \<open>The guard\<close>

text \<open>
  C21. In production nobody passes a guard with a second factor but an administrator (or arbiter, where
  the guard allows one) with 2FA on, who shows a live session of the row's epoch or a fresh code of
  the stored secret, which is used up in the same transaction.
\<close>

theorem guard_needs_second_factor:
  assumes "admin_guard_call cfg lib mac env now mode g u code tok st w = ((Inr (u', used), w'), st')"
    and "ac_production cfg"
  shows "(u_is_admin u \<or> g_allow_arbiter g \<and> u_is_arbiter u) \<and> (g_require_totp g \<longrightarrow> u_totp_enabled u \<and>
    ((\<exists>t. tok = Some t \<and> decode_totp_session_token cfg lib now t = Some (u_id u, u_totp_session_epoch u) \<and> w' = w)
     \<or> (\<exists>c s key. used = Some c \<and> code = Some s \<and> b32decode_padded (totp_secret_of u) = Some key
          \<and> hotp mac key c = Inr (strip s) \<and> within_drift now c \<and> last_counter u < c)))"
proof (intro conjI impI)
  show "u_is_admin u \<or> g_allow_arbiter g \<and> u_is_arbiter u"
    using assms(1) by (auto simp: admin_guard_call_def split: if_splits)
  assume totp: "g_require_totp g"
  show "u_totp_enabled u"
    using assms totp
    by (auto simp: admin_guard_call_def consume_totp_def totp_bypass_def no_totp_def Let_def validate_totp_session_def
        split: if_splits option.splits)
  show "(\<exists>t. tok = Some t \<and> decode_totp_session_token cfg lib now t = Some (u_id u, u_totp_session_epoch u) \<and> w' = w)
     \<or> (\<exists>c s key. used = Some c \<and> code = Some s \<and> b32decode_padded (totp_secret_of u) = Some key
          \<and> hotp mac key c = Inr (strip s) \<and> within_drift now c \<and> last_counter u < c)"
  proof (cases "validate_totp_session now cfg lib u tok")
    case True
    then obtain t where t: "tok = Some t" by (auto simp: validate_totp_session_def split: option.splits)
    then have "decode_totp_session_token cfg lib now t = Some (u_id u, u_totp_session_epoch u)"
      using True totp.passes_decode by (simp add: totp_passes_def)
    moreover have "w' = w" using assms(1) True by (auto simp: admin_guard_call_def split: if_splits)
    ultimately show ?thesis using t by blast
  next
    case False
    then have run: "consume_totp cfg mac env now mode u code st w = ((Inr (u', used), w'), st')"
      using assms(1) totp by (auto simp: admin_guard_call_def split: if_splits)
    obtain c s where "used = Some c" "code = Some s"
      using run assms(2)
      by (auto simp: consume_totp_def totp_bypass_def falsy_def Let_def
          split: if_splits sum.splits option.splits redis_state.splits prod.splits bool.splits)
    then show ?thesis using consume_accepts run verify_sound by (metis option.sel)
  qed
qed

section \<open>Enrolment and revocation\<close>

lemma write_totp_row:
  assumes "write_totp u u' w = Inr w'" and "get_user (u_id u) w = Some u"
  shows "\<exists>v. get_user (u_id u) w' = Some v \<and> u_id v = u_id u \<and> u_totp_secret v = u_totp_secret u' \<and> u_totp_enabled v = u_totp_enabled u'
    \<and> u_totp_last_counter v = u_totp_last_counter u' \<and> u_totp_session_epoch v = u_totp_session_epoch u'"
  using assms get_saved [OF assms(2)] by (auto simp: write_totp_def assigned_def saved_def)

lemma get_user_log_admin [simp]: "get_user i (log_admin_action a b c d e f w) = get_user i w"
  by (simp add: get_user_def log_admin_action_def)

text \<open>
  Turning 2FA on, changing the secret and turning it off each end every open session: no session
  token minted for the epoch of that time or an earlier one passes any more.
\<close>

theorem totp_change_revokes_sessions:
  assumes "jwt_ok lib" and "get_user (u_id u) w = Some u" and "issued \<le> later" and "e \<le> u_totp_session_epoch u"
    and "twofa_enable mac now mode body u st w = ((Inr b, w'), st') \<or> \<not> no_totp u \<and> twofa_disable mac now code u w = (Inr b, w')"
  shows "\<exists>v. get_user (u_id u) w' = Some v \<and> u_totp_session_epoch v = u_totp_session_epoch u + 1
    \<and> \<not> validate_totp_session later cfg lib v (Some (fst (issue_totp_session_token cfg lib issued jti (u_id u) e)))"
proof -
  obtain u' w1 where "write_totp u u' w = Inr w1" "u_totp_session_epoch u' = u_totp_session_epoch u + 1"
    "get_user (u_id u) w' = get_user (u_id u) w1"
    using assms(5)
    by (auto simp: twofa_enable_def twofa_disable_def split: sum.splits option.splits prod.splits if_splits)
  then obtain v where v: "get_user (u_id u) w' = Some v" "u_totp_session_epoch v = u_totp_session_epoch u + 1"
    using write_totp_row assms(2) by metis
  then have "u_totp_session_epoch v \<noteq> e" using assms(4) by simp
  then show ?thesis using v totp.revoked [OF assms(1,3)] by (auto simp: totp_passes_def)
qed

text \<open>The pending secret of a user, as \<open>enable\<close> will find it.\<close>

definition pending_secret :: "int \<Rightarrow> redis_state \<Rightarrow> int \<Rightarrow> twofa_store \<Rightarrow> string option" where
  "pending_secret now mode i st = fst (pop_pending now mode i st)"

lemma store_then_pop:
  assumes "store_pending cfg t1 mode i s st = (Inr (), st1)" and "t1 \<le> t2" and "t2 < t1 + PENDING_TTL"
  shows "pending_secret t2 mode i st1 = Some s"
  using assms
  by (auto simp: pending_secret_def store_pending_def pop_pending_def redis_put_def redis_getdel_def redis_get_def update_conv'
      warn_fallback_once_def consume_first_observation_def Let_def split: if_splits)

text \<open>
  2FA is first turned on only with the secret that \<open>setup\<close> stored for this user less than ten
  minutes before, never with one the caller chose, and only by a code of that secret.
\<close>

theorem enrolment_takes_stored_secret:
  assumes "twofa_enable mac now mode body u st w = ((Inr b, w'), st')" and "no_totp u" and "get_user (u_id u) w = Some u"
  shows "\<exists>s c v. pending_secret now mode (u_id u) st = Some s \<and> verify_totp_and_counter mac now s (cf_code body) = Inr (Some c)
    \<and> get_user (u_id u) w' = Some v \<and> u_totp_secret v = Some s \<and> u_totp_enabled v \<and> u_totp_last_counter v = c"
proof -
  obtain s c w1 where s: "pending_secret now mode (u_id u) st = Some s" "verify_totp_and_counter mac now s (cf_code body) = Inr (Some c)"
    "write_totp u (u \<lparr> u_totp_secret := Some s, u_totp_enabled := True, u_totp_last_counter := c,
       u_totp_session_epoch := u_totp_session_epoch u + 1 \<rparr>) w = Inr w1" "get_user (u_id u) w' = get_user (u_id u) w1"
    using assms(1,2)
    by (auto simp: twofa_enable_def rotation_guard_def enable_secret_def pending_secret_def
        split: sum.splits option.splits prod.splits if_splits)
  from write_totp_row [OF s(3) assms(3)] show ?thesis using s by auto
qed

text \<open>
  Enrolment works: an administrator without 2FA who calls \<open>setup\<close>, types the code the
  authenticator shows for that secret, and calls \<open>enable\<close> within ten minutes, has 2FA on with the
  drawn key.
\<close>

theorem enrolment_succeeds:
  assumes "sha1_ok mac" and "no_totp u" and "get_user (u_id u) w = Some u" and "length key = 20"
    and "twofa_setup cfg qa qp t1 mode key u st = (Inr (secret, url), st1)"
    and "t1 \<le> t2" and "t2 < t1 + PENDING_TTL" and "30 \<le> t2" and "t2 < 2 ^ 60" and "within_drift t2 (shown div 30)"
    and "totp_now mac shown secret = Inr code"
  shows "\<exists>w' st' v. twofa_enable mac t2 mode \<lparr> cf_secret = secret, cf_code = code, cf_current_code = None \<rparr> u st1 w = ((Inr True, w'), st')
    \<and> get_user (u_id u) w' = Some v \<and> u_totp_enabled v \<and> u_totp_secret v = Some secret \<and> b32decode_padded secret = Some key"
proof -
  have secret: "secret = generate_secret key" and store: "store_pending cfg t1 mode (u_id u) secret st = (Inr (), st1)"
    using assms(5) by (auto simp: twofa_setup_def Let_def split: prod.splits sum.splits)
  have key: "b32decode_padded secret = Some key" using secret_round_trip [of key] assms(4) secret by simp
  have ne: "secret \<noteq> []" using key assms(4) by (auto simp: b32decode_padded_def b32decode_def Let_def strip_def rstrip_pad_def decode_quanta.simps)
  obtain c where c: "verify_totp_and_counter mac t2 secret code = Inr (Some c)"
    using shown_code_verifies [OF assms(1) ne key assms(11,8-10)] by blast
  obtain st2 where pop: "pop_pending t2 mode (u_id u) st1 = (Some secret, st2)"
    using store_then_pop [OF store assms(6,7)] unfolding pending_secret_def by (metis prod.collapse)
  let ?u = "u \<lparr> u_totp_secret := Some secret, u_totp_enabled := True, u_totp_last_counter := c,
    u_totp_session_epoch := u_totp_session_epoch u + 1 \<rparr>"
  obtain w1 where w1: "write_totp u ?u w = Inr w1" using assms(3) by (simp add: write_totp_def)
  obtain v where "get_user (u_id u) w1 = Some v" "u_totp_enabled v" "u_totp_secret v = Some secret"
    using write_totp_row [OF w1 assms(3)] by auto
  then show ?thesis using assms(2) key c w1 pop by (simp add: twofa_enable_def rotation_guard_def enable_secret_def)
qed

section \<open>Instances\<close>

definition sample_mac :: hmac_sha1 where
  "sample_mac key m = (let b = (if m = [] then 0 else List.last m) in
     [b, b, b, b, 0, 0, 0, 0, 0, 0, 0, 0, 0, 0, 0, 0, 0, 0, 0, 0])"

lemma sample_mac_ok: "sha1_ok sample_mac"
  by (simp add: sha1_ok_def sample_mac_def Let_def)

lemma to_digits_numeral:
  "to_digits b (numeral k) v = to_digits b (pred_numeral k) (v div b) @ [v mod b]"
  by (simp add: numeral_eq_Suc)

lemma show_nat_fuel_enough: "n < k \<Longrightarrow> n < j \<Longrightarrow> show_nat_fuel k n = show_nat_fuel j n"
proof (induction k arbitrary: n j)
  case (Suc k)
  obtain i where j: "j = Suc i" using Suc.prems by (cases j) auto
  show ?case
  proof (cases "n < 10")
    case False
    then have "n div 10 < k" "n div 10 < i" using Suc.prems j by auto
    from Suc.IH [OF this] show ?thesis by (simp only: j show_nat_fuel.simps)
  qed (simp add: j)
qed simp

lemma show_nat_rec:
  "show_nat n = (if n < 10 then [char_of (48 + n)] else show_nat (n div 10) @ [char_of (48 + n mod 10)])"
proof (cases "n < 10")
  case True
  then show ?thesis by (simp add: show_nat_def)
next
  case False
  then have "show_nat_fuel n (n div 10) = show_nat_fuel (Suc (n div 10)) (n div 10)"
    by (intro show_nat_fuel_enough) auto
  then show ?thesis using False unfolding show_nat_def show_nat_fuel.simps(2) [of n] by (simp del: show_nat_fuel.simps)
qed

lemma show_nat_numeral:
  "show_nat (numeral k) = (if (numeral k :: nat) < 10 then [char_of (48 + numeral k :: nat)]
     else show_nat (numeral k div 10) @ [char_of (48 + numeral k mod 10 :: nat)])"
  by (rule show_nat_rec)

lemma sample_hotp: "hotp sample_mac key 1 = Inr ''843009''" "hotp sample_mac key 2 = Inr ''686018''" "hotp sample_mac key 3 = Inr ''529027''"
  by (simp_all add: hotp_def pack_Q_def sample_mac_def DIGITS_def zfill_def Let_def to_digits_numeral show_nat_numeral char_of_def bit_0)

definition totp_admin :: user where
  "totp_admin = sample_buyer \<lparr> u_is_admin := True, u_totp_secret := Some ''AAAAAAAA'', u_totp_enabled := True,
     u_totp_last_counter := -1 \<rparr>"

definition totp_world :: world where "totp_world = save_user totp_admin sample_world"

definition empty_store :: twofa_store where
  "empty_store = \<lparr> rs_keys = [], rs_pending_secrets = [], rs_warned = False \<rparr>"

lemma sample_secret: "b32decode_padded ''AAAAAAAA'' = Some [0, 0, 0, 0, 0]"
  by code_simp

lemma sample_verify: "verify_totp_and_counter sample_mac 75 ''AAAAAAAA'' ''686018'' = Inr (Some 2)"
  by (simp add: verify_totp_and_counter_def strip_digits is_digit_def DIGITS_def sample_secret windows PERIOD_def sample_hotp Let_def)

lemma sample_buyer_facts [simp]:
  "\<not> u_totp_enabled sample_buyer" "u_username sample_buyer = Some ''alice''" "u_totp_session_epoch sample_buyer = 0"
  "u_totp_secret sample_buyer = None" "u_totp_last_counter sample_buyer = 0"
  by (simp_all add: sample_user_rows)

lemma totp_admin_facts [simp]:
  "u_id totp_admin = 1" "u_is_admin totp_admin" "u_totp_enabled totp_admin" "u_totp_secret totp_admin = Some ''AAAAAAAA''"
  "u_totp_last_counter totp_admin = -1" "u_totp_session_epoch totp_admin = 0" "get_user 1 totp_world = Some (saved totp_admin)"
  using get_saved [of 1 sample_world sample_buyer totp_admin] by (simp_all add: totp_world_def totp_admin_def)

lemma saved_totp [simp]:
  "u_totp_enabled (saved u) = u_totp_enabled u" "u_totp_secret (saved u) = u_totp_secret u"
  "u_totp_last_counter (saved u) = u_totp_last_counter u" "u_is_admin (saved u) = u_is_admin u"
  "u_is_arbiter (saved u) = u_is_arbiter u"
  by (simp_all add: saved_def)

lemma hotp_is_six_digits_witness: "\<exists>code. hotp sample_mac [] 2 = Inr code \<and> length code = 6"
  using hotp_is_six_digits [OF sample_mac_ok, of 2 "[]"] by auto

lemma shown_code_verifies_witness:
  "\<exists>c. verify_totp_and_counter sample_mac 100 ''AAAAAAAA'' ''686018'' = Inr (Some c) \<and> within_drift 100 c"
  using shown_code_verifies [OF sample_mac_ok _ sample_secret, of 75 "''686018''" 100]
  by (auto simp: totp_now_def sample_secret PERIOD_def sample_hotp within_drift_def)

lemma sample_consume:
  "consume_totp sample_auth sample_mac [] 75 NoRedis (saved totp_admin) (Some ''686018'') empty_store totp_world
     = ((Inr ((saved totp_admin) \<lparr> u_totp_last_counter := 2 \<rparr>, Some 2), save_user ((saved totp_admin) \<lparr> u_totp_last_counter := 2 \<rparr>) totp_world), empty_store)"
  by (simp add: consume_totp_def totp_bypass_def no_totp_def falsy_def totp_secret_of_def sample_verify last_counter_def Let_def)

lemma committed_codes_ascend_witness:
  "sorted_wrt (<) (-1 # totp_run sample_auth sample_mac [] 1 [(75, NoRedis, Some ''686018''), (76, NoRedis, Some ''686018'')] empty_store totp_world)
   \<and> 2 \<in> set (totp_run sample_auth sample_mac [] 1 [(75, NoRedis, Some ''686018''), (76, NoRedis, Some ''686018'')] empty_store totp_world)"
  using committed_codes_ascend [where i = 1 and w = totp_world and u = "saved totp_admin" and cfg = sample_auth and mac = sample_mac
      and env = "[]" and reqs = "[(75, NoRedis, Some ''686018''), (76, NoRedis, Some ''686018'')]" and st = empty_store]
  by (simp add: sample_consume)

lemma guard_needs_second_factor_witness:
  "\<exists>u' used w' st'. admin_guard_call (sample_auth \<lparr> ac_production := True \<rparr>) sample_jwt sample_mac ''x'' 75 NoRedis ADMIN_GUARD_TOTP
      (saved totp_admin) (Some ''686018'') None empty_store totp_world = ((Inr (u', used), w'), st') \<and> used = Some 2"
proof -
  have run: "admin_guard_call (sample_auth \<lparr> ac_production := True \<rparr>) sample_jwt sample_mac ''x'' 75 NoRedis ADMIN_GUARD_TOTP
      (saved totp_admin) (Some ''686018'') None empty_store totp_world
    = ((Inr ((saved totp_admin) \<lparr> u_totp_last_counter := 2 \<rparr>, Some 2), save_user ((saved totp_admin) \<lparr> u_totp_last_counter := 2 \<rparr>) totp_world), empty_store)"
    by (simp add: admin_guard_call_def ADMIN_GUARD_TOTP_def validate_totp_session_def consume_totp_def totp_bypass_def no_totp_def falsy_def
        totp_secret_of_def sample_verify last_counter_def Let_def)
  then show ?thesis using guard_needs_second_factor [OF run] by (auto simp: ADMIN_GUARD_TOTP_def)
qed

lemma totp_change_revokes_sessions_witness:
  "\<exists>v. get_user 1 (snd (twofa_disable sample_mac 75 ''686018'' (saved totp_admin) totp_world)) = Some v
    \<and> \<not> validate_totp_session 80 sample_auth sample_jwt v (Some (fst (issue_totp_session_token sample_auth sample_jwt 70 ''j'' 1 0)))"
proof -
  obtain w' where run: "twofa_disable sample_mac 75 ''686018'' (saved totp_admin) totp_world = (Inr False, w')"
    by (simp add: twofa_disable_def no_totp_def falsy_def totp_secret_of_def sample_verify last_counter_def write_totp_def)
  have "\<not> no_totp (saved totp_admin)" by (simp add: no_totp_def falsy_def)
  with run show ?thesis
    using totp_change_revokes_sessions [OF sample_jwt_ok _ _ _ disjI2, of "saved totp_admin" totp_world 70 80 0 sample_mac 75 "''686018''" False w' sample_auth "''j''"]
    by auto
qed

definition sample_key :: bytes where "sample_key = map word_of_nat [0..<20]"

lemma enrolment_succeeds_witness:
  "\<exists>secret url st1 w' st' v. twofa_setup sample_auth id id 70 NoRedis sample_key sample_buyer empty_store = (Inr (secret, url), st1)
    \<and> twofa_enable sample_mac 75 NoRedis \<lparr> cf_secret = secret, cf_code = ''686018'', cf_current_code = None \<rparr> sample_buyer st1 sample_world = ((Inr True, w'), st')
    \<and> get_user 1 w' = Some v \<and> u_totp_enabled v"
proof -
  obtain secret url st1 where shown: "twofa_setup sample_auth id id 70 NoRedis sample_key sample_buyer empty_store = (Inr (secret, url), st1)"
    by (simp add: twofa_setup_def store_pending_def sample_auth_def Let_def split: prod.splits)
  have key: "b32decode_padded secret = Some sample_key" and len: "length sample_key = 20"
    using shown secret_round_trip [of sample_key]
    by (auto simp: twofa_setup_def sample_key_def Let_def split: prod.splits sum.splits)
  have "totp_now sample_mac 75 secret = Inr ''686018''" using key by (simp add: totp_now_def PERIOD_def sample_hotp)
  then show ?thesis
    using enrolment_succeeds [OF sample_mac_ok _ _ len shown, of sample_world 75 75 "''686018''"] shown
    by (auto simp: no_totp_def PENDING_TTL_def within_drift_def)
qed

lemma enrolment_takes_stored_secret_witness:
  "\<exists>s w' st'. twofa_enable sample_mac 75 NoRedis \<lparr> cf_secret = ''AAAAAAAA'', cf_code = ''686018'', cf_current_code = None \<rparr> sample_buyer
      (empty_store \<lparr> rs_pending_secrets := [(1, ''AAAAAAAA'', 80)] \<rparr>) sample_world = ((Inr True, w'), st')
    \<and> pending_secret 75 NoRedis 1 (empty_store \<lparr> rs_pending_secrets := [(1, ''AAAAAAAA'', 80)] \<rparr>) = Some s"
proof -
  obtain w' st' where run: "twofa_enable sample_mac 75 NoRedis \<lparr> cf_secret = ''AAAAAAAA'', cf_code = ''686018'', cf_current_code = None \<rparr> sample_buyer
      (empty_store \<lparr> rs_pending_secrets := [(1, ''AAAAAAAA'', 80)] \<rparr>) sample_world = ((Inr True, w'), st')"
    by (simp add: twofa_enable_def rotation_guard_def no_totp_def pop_pending_def enable_secret_def sample_verify write_totp_def empty_store_def Let_def)
  then show ?thesis using enrolment_takes_stored_secret [OF run] by (auto simp: no_totp_def)
qed

end
