(* ===== verification/Account_Transfer.thy ===== *)
theory Account_Transfer
  imports Totp
begin

text \<open>
  Moving an account to another Telegram identity (\<open>backend/app/services_account.py\<close>,
  \<open>backend/app/routers/account.py\<close>): one-time codes, the check that the new account is an empty
  shell, and the swap, which deletes the new account's row. Drawn codes are a parameter.
\<close>

section \<open>Codes\<close>

definition hash_code :: "auth_settings \<Rightarrow> crypto \<Rightarrow> string \<Rightarrow> string" where
  "hash_code cfg cr code = hmac_sha256_hex cr (ac_pin_pepper cfg) code"

definition verify_code :: "auth_settings \<Rightarrow> crypto \<Rightarrow> string \<Rightarrow> string \<Rightarrow> bool" where
  "verify_code cfg cr code code_hash = (code_hash \<noteq> [] \<and> hash_code cfg cr code = code_hash)"

definition live_code :: "int \<Rightarrow> account_transfer_code \<Rightarrow> bool" where
  "live_code now r = (tc_consumed_at r = None \<and> now < tc_expires_at r)"

text \<open>\<open>ORDER BY created_at DESC LIMIT 1\<close>.\<close>

definition newest :: "('r \<Rightarrow> int) \<Rightarrow> 'r list \<Rightarrow> 'r option" where
  "newest key rows = (case rows of [] \<Rightarrow> None | r # rs \<Rightarrow> Some (foldl (\<lambda>m x. if key m < key x then x else m) r rs))"

text \<open>
  \<open>_generate_unique_code\<close>: \<open>draws k\<close> is the code drawn after \<open>k\<close> draws; the result says how many
  draws are used up.
\<close>

fun generate_unique_code ::
  "auth_settings \<Rightarrow> crypto \<Rightarrow> (nat \<Rightarrow> string) \<Rightarrow> int \<Rightarrow> nat \<Rightarrow> nat \<Rightarrow> world \<Rightarrow> py_error + (string \<times> nat)" where
  "generate_unique_code cfg cr draws now 0 k w = Inl (RuntimeErr (E_other ''no_unique_code''))"
| "generate_unique_code cfg cr draws now (Suc n) k w =
     (let candidate = draws k in
      if \<exists>r \<in> set (t_transfer_codes w). tc_code_hash r = hash_code cfg cr candidate \<and> live_code now r
      then generate_unique_code cfg cr draws now n (k + 1) w
      else Inr (candidate, k + 1))"

definition purge_expired :: "int \<Rightarrow> world \<Rightarrow> world" where
  "purge_expired now w = w \<lparr> t_transfer_codes :=
     filter (\<lambda>r. \<not> (tc_expires_at r < now \<or> tc_consumed_at r \<noteq> None)) (t_transfer_codes w) \<rparr>"

text \<open>The dice of \<open>_purge_expired_sampled\<close> is a parameter.\<close>

definition purge_expired_sampled :: "bool \<Rightarrow> int \<Rightarrow> world \<Rightarrow> world" where
  "purge_expired_sampled dice now w = (if dice then purge_expired now w else w)"

definition consume_codes :: "int \<Rightarrow> int \<Rightarrow> account_transfer_code list \<Rightarrow> account_transfer_code list" where
  "consume_codes now user_id = tupd (\<lambda>r. tc_source_user_id r = user_id \<and> tc_consumed_at r = None)
     (\<lambda>r. r \<lparr> tc_consumed_at := Some now \<rparr>)"

definition invalidate_active_for :: "int \<Rightarrow> int \<Rightarrow> world \<Rightarrow> world" where
  "invalidate_active_for now user_id w = w \<lparr> t_transfer_codes := consume_codes now user_id (t_transfer_codes w) \<rparr>"

definition get_active_code :: "int \<Rightarrow> int \<Rightarrow> world \<Rightarrow> account_transfer_code option" where
  "get_active_code now user_id w =
     newest tc_created_at (filter (\<lambda>r. tc_source_user_id r = user_id \<and> live_code now r) (t_transfer_codes w))"

text \<open>The insert; \<open>code_hash\<close> is UNIQUE.\<close>

definition insert_code :: "account_transfer_code \<Rightarrow> world \<Rightarrow> py_error + world" where
  "insert_code r w =
     (if \<exists>x \<in> set (t_transfer_codes w). tc_code_hash x = tc_code_hash r then Inl IntegrityError
      else Inr (w \<lparr> t_transfer_codes := t_transfer_codes w @ [r \<lparr> tc_id := seq_transfer_codes w \<rparr>],
                    seq_transfer_codes := seq_transfer_codes w + 1 \<rparr>))"

text \<open>The loop of \<open>issue_code\<close>: an insert that collides is rolled back, and the purge and the
  invalidation are done again on what is left, which is the same database.\<close>

fun issue_attempts ::
  "auth_settings \<Rightarrow> crypto \<Rightarrow> (nat \<Rightarrow> string) \<Rightarrow> int \<Rightarrow> int \<Rightarrow> nat \<Rightarrow> nat \<Rightarrow> world \<Rightarrow> (string \<times> int) result" where
  "issue_attempts cfg cr draws now source 0 k w = (Inl (RuntimeErr (E_other ''no_unique_code'')), w)"
| "issue_attempts cfg cr draws now source (Suc n) k w =
     (let w1 = invalidate_active_for now source (purge_expired now w) in
      case generate_unique_code cfg cr draws now (ac_account_transfer_max_code_generation_attempts cfg) k w1 of
        Inl e \<Rightarrow> (Inl e, w)
      | Inr (code, k') \<Rightarrow>
          let expires = now + ac_account_transfer_code_ttl_seconds cfg in
          (case insert_code \<lparr> tc_id = 0, tc_source_user_id = source, tc_code_hash = hash_code cfg cr code,
                   tc_expires_at = expires, tc_consumed_at = None, tc_target_tg_user_id = None, tc_created_at = now \<rparr> w1 of
             Inl _ \<Rightarrow> issue_attempts cfg cr draws now source n k' w
           | Inr w2 \<Rightarrow> (Inr (code, expires), w2)))"

definition issue_code ::
  "auth_settings \<Rightarrow> crypto \<Rightarrow> (nat \<Rightarrow> string) \<Rightarrow> int \<Rightarrow> user \<Rightarrow> world \<Rightarrow> (string \<times> int) result" where
  "issue_code cfg cr draws now source w =
     issue_attempts cfg cr draws now (u_id source) (ac_account_transfer_max_code_generation_attempts cfg) 0 w"

definition cancel_active :: "int \<Rightarrow> user \<Rightarrow> world \<Rightarrow> nat \<times> world" where
  "cancel_active now source w =
     (length (filter (\<lambda>r. tc_source_user_id r = u_id source \<and> tc_consumed_at r = None) (t_transfer_codes w)),
      invalidate_active_for now (u_id source) w)"

section \<open>The empty shell\<close>

text \<open>\<open>_has_tradable_data\<close>: the PIN and the trust deposit are read from the object the session holds.\<close>

definition has_tradable_data :: "user \<Rightarrow> world \<Rightarrow> bool" where
  "has_tradable_data u w =
     (if \<not> falsy (u_pin_hash u) then True
      else if 0 < u_trust_deposit_balance u then True
      else if \<exists>d \<in> set (t_deals w). d_buyer_id d = u_id u \<or> d_seller_id d = u_id u then True
      else if \<exists>s \<in> set (t_services w). sv_owner_id s = u_id u then True
      else if \<exists>r \<in> set (t_reviews w). rv_author_id r = u_id u \<or> rv_target_id r = u_id u then True
      else if \<exists>d \<in> set (t_deposits w). dep_user_id d = u_id u then True
      else if \<exists>x \<in> set (t_withdrawals w). wd_user_id x = u_id u then True
      else \<exists>b \<in> set (t_balances w). b_user_id b = u_id u \<and> (0 < b_amount b \<or> 0 < b_locked b))"

text \<open>
  \<open>session.delete(user)\<close> and the flush. The ORM first unlinks the loaded forums and services by
  setting their owner, which is NOT NULL, to NULL; the rows without \<open>ON DELETE\<close> keep the user from
  going; the others are deleted or unlinked by the database.
\<close>

definition user_is_referenced :: "int \<Rightarrow> world \<Rightarrow> bool" where
  "user_is_referenced i w =
     ((\<exists>f \<in> set (t_forums w). fo_owner_id f = i) \<or> (\<exists>s \<in> set (t_services w). sv_owner_id s = i)
      \<or> (\<exists>d \<in> set (t_deals w). d_buyer_id d = i \<or> d_seller_id d = i \<or> d_cancellation_initiator_id d = Some i
           \<or> d_arbitration_initiator_id d = Some i \<or> d_arbitration_resolved_by d = Some i)
      \<or> (\<exists>r \<in> set (t_transfer_codes w). tc_source_user_id r = i))"

definition set_null :: "int \<Rightarrow> int option \<Rightarrow> int option" where
  "set_null i x = (if x = Some i then None else x)"

definition delete_user :: "int \<Rightarrow> world \<Rightarrow> py_error + world" where
  "delete_user i w =
     (if user_is_referenced i w then Inl IntegrityError
      else Inr (w \<lparr>
        t_users := filter (\<lambda>u. u_id u \<noteq> i) (t_users w),
        t_reviews := filter (\<lambda>r. rv_author_id r \<noteq> i \<and> rv_target_id r \<noteq> i) (t_reviews w),
        t_comments := filter (\<lambda>c. sc_author_id c \<noteq> i) (t_comments w),
        t_dlq := map (\<lambda>q. q \<lparr> q_notification_id := (case q_notification_id q of None \<Rightarrow> None
            | Some n \<Rightarrow> if \<exists>x \<in> set (t_notifications w). n_id x = n \<and> n_recipient_id x = i then None else Some n) \<rparr>)
          (filter (\<lambda>q. q_recipient_id q \<noteq> i) (t_dlq w)),
        t_notifications := filter (\<lambda>n. n_recipient_id n \<noteq> i) (t_notifications w),
        t_balances := filter (\<lambda>b. b_user_id b \<noteq> i) (t_balances w),
        t_ledger := filter (\<lambda>e. l_user_id e \<noteq> i) (t_ledger w),
        t_deposits := filter (\<lambda>d. dep_user_id d \<noteq> i) (t_deposits w),
        t_withdrawals := filter (\<lambda>x. wd_user_id x \<noteq> i) (t_withdrawals w),
        t_usd_rates := map (\<lambda>r. r \<lparr> r_updated_by_id := set_null i (r_updated_by_id r) \<rparr>) (t_usd_rates w),
        t_approvals := map (\<lambda>a. a \<lparr> ar_requested_by_id := set_null i (ar_requested_by_id a),
            ar_approved_by_id := set_null i (ar_approved_by_id a), ar_executed_by_id := set_null i (ar_executed_by_id a) \<rparr>) (t_approvals w),
        t_audit := map (\<lambda>a. a \<lparr> al_actor_id := set_null i (al_actor_id a) \<rparr>) (t_audit w) \<rparr>))"

section \<open>The swap\<close>

abbreviation bad_code_format :: py_error where "bad_code_format \<equiv> ValueErr (E_other ''code_format'')"
abbreviation code_invalid :: py_error where "code_invalid \<equiv> ValueErr (E_other ''code_invalid'')"
abbreviation source_not_found :: py_error where "source_not_found \<equiv> ValueErr (E_other ''source_not_found'')"
abbreviation transfer_to_self :: py_error where "transfer_to_self \<equiv> ValueErr (E_other ''transfer_to_self'')"
abbreviation target_has_data :: py_error where "target_has_data \<equiv> ValueErr (E_other ''target_has_data'')"

definition find_code :: "auth_settings \<Rightarrow> crypto \<Rightarrow> int \<Rightarrow> string \<Rightarrow> world \<Rightarrow> account_transfer_code option" where
  "find_code cfg cr now code w = newest tc_created_at
     (filter (\<lambda>r. tc_code_hash r = hash_code cfg cr code \<and> live_code now r) (t_transfer_codes w))"

definition save_code :: "account_transfer_code \<Rightarrow> world \<Rightarrow> world" where
  "save_code r w = w \<lparr> t_transfer_codes := tput tc_id r (t_transfer_codes w) \<rparr>"

definition moved :: "user \<Rightarrow> user \<Rightarrow> user" where
  "moved source target = source \<lparr> u_tg_user_id := u_tg_user_id target,
     u_username := (if falsy (u_username target) then u_username source else u_username target),
     u_photo_url := (if falsy (u_photo_url target) then u_photo_url source else u_photo_url target),
     u_display_name := (if u_display_name target \<noteq> [] \<and> u_display_name source = [] then u_display_name target
                        else u_display_name source),
     u_pin_session_epoch := u_pin_session_epoch source + 1,
     u_totp_session_epoch := u_totp_session_epoch source + 1 \<rparr>"

text \<open>
  After the row locks. The objects of the session are the ones it loaded before: the code row is the
  one that was read, the target the one \<open>CurrentUser\<close> loaded.
\<close>

definition confirm_locked ::
  "auth_settings \<Rightarrow> crypto \<Rightarrow> int \<Rightarrow> user \<Rightarrow> string \<Rightarrow> account_transfer_code \<Rightarrow> world \<Rightarrow> py_error + (user \<times> world)" where
  "confirm_locked cfg cr now target code row w =
     (case get_user (tc_source_user_id row) w of
        None \<Rightarrow> Inl source_not_found
      | Some source \<Rightarrow>
      if u_id source = u_id target then Inl transfer_to_self
      else if \<not> verify_code cfg cr code (tc_code_hash row) then Inl code_invalid
      else if has_tradable_data target w then Inl target_has_data
      else case delete_user (u_id target) w of
        Inl e \<Rightarrow> Inl e
      | Inr w1 \<Rightarrow>
          let source' = moved source target;
              row' = row \<lparr> tc_consumed_at := Some now, tc_target_tg_user_id := Some (u_tg_user_id target) \<rparr>
          in Inr (source', save_code row' (save_user source' w1)))"

text \<open>
  \<open>confirm_transfer\<close>: \<open>others\<close> is what other sessions commit between the read of the code and the
  locks. Only a missing source commits something and raises.
\<close>

definition confirm_transfer ::
  "auth_settings \<Rightarrow> crypto \<Rightarrow> int \<Rightarrow> bool \<Rightarrow> (world \<Rightarrow> world) \<Rightarrow> user \<Rightarrow> string \<Rightarrow> world \<Rightarrow> user result" where
  "confirm_transfer cfg cr now dice others target code0 w =
     (let code = strip code0 in
      if length code \<noteq> ac_account_transfer_code_len cfg \<or> \<not> (code \<noteq> [] \<and> list_all is_digit code) then (Inl bad_code_format, w)
      else case find_code cfg cr now code (purge_expired_sampled dice now w) of
        None \<Rightarrow> (Inl code_invalid, w)
      | Some row \<Rightarrow>
          let w2 = purge_expired_sampled dice now (others w) in
          (case confirm_locked cfg cr now target code row w2 of
             Inr (source, w3) \<Rightarrow> (Inr source, w3)
           | Inl e \<Rightarrow> if get_user (tc_source_user_id row) w2 = None
                      then (Inl e, save_code (row \<lparr> tc_consumed_at := Some now \<rparr>) w2) else (Inl e, others w)))"

section \<open>Endpoints\<close>

record transfer_status =
  ts_has_active :: bool
  ts_expires_at :: "int option"
  ts_code_length :: nat
  ts_ttl_seconds :: int

definition transfer_status_of :: "int \<Rightarrow> auth_settings \<Rightarrow> user \<Rightarrow> world \<Rightarrow> transfer_status" where
  "transfer_status_of now cfg u w =
     (let row = get_active_code now (u_id u) w in
      \<lparr> ts_has_active = (row \<noteq> None), ts_expires_at = map_option tc_expires_at row,
        ts_code_length = ac_account_transfer_code_len cfg, ts_ttl_seconds = ac_account_transfer_code_ttl_seconds cfg \<rparr>)"

definition transfer_start ::
  "auth_settings \<Rightarrow> crypto \<Rightarrow> (nat \<Rightarrow> string) \<Rightarrow> int \<Rightarrow> bool \<Rightarrow> user \<Rightarrow> world \<Rightarrow> (bool \<times> int) result" where
  "transfer_start cfg cr draws now delivered u w =
     (case issue_code cfg cr draws now u w of
        (Inl e, w1) \<Rightarrow> (Inl e, w1)
      | (Inr (code, expires), w1) \<Rightarrow> (Inr (delivered, expires), emit [SendCode (u_tg_user_id u) (TransferCode code)] w1))"

definition transfer_cancel :: "int \<Rightarrow> auth_settings \<Rightarrow> user \<Rightarrow> world \<Rightarrow> transfer_status result" where
  "transfer_cancel now cfg u w =
     (Inr \<lparr> ts_has_active = False, ts_expires_at = None, ts_code_length = ac_account_transfer_code_len cfg,
        ts_ttl_seconds = ac_account_transfer_code_ttl_seconds cfg \<rparr>, snd (cancel_active now u w))"

text \<open>\<open>TransferConfirmIn\<close>: \<open>None\<close> is a 422.\<close>

definition transfer_confirm_in :: "auth_settings \<Rightarrow> string \<Rightarrow> string option" where
  "transfer_confirm_in cfg v0 =
     (if v0 = [] \<or> 32 < length v0 then None
      else let v = strip v0 in
           if \<not> (v \<noteq> [] \<and> list_all is_digit v) \<or> length v \<noteq> ac_account_transfer_code_len cfg then None else Some v)"

definition transfer_confirm ::
  "auth_settings \<Rightarrow> crypto \<Rightarrow> int \<Rightarrow> bool \<Rightarrow> (world \<Rightarrow> world) \<Rightarrow> user \<Rightarrow> string \<Rightarrow> world \<Rightarrow> int result" where
  "transfer_confirm cfg cr now dice others u code w =
     (case confirm_transfer cfg cr now dice others u code w of
        (Inr source, w1) \<Rightarrow> (Inr (u_tg_user_id source), w1)
      | (Inl (ValueErr d), w1) \<Rightarrow> (Inl (HTTP 400 d), w1)
      | (Inl e, w1) \<Rightarrow> (Inl e, w1))"

section \<open>Rows after an operation\<close>

lemma tget_filter_key: "tget key k (filter (\<lambda>x. key x \<noteq> i) rows) = (if k = i then None else tget key k rows)"
  by (induction rows) auto

lemma tget_filter_keep: "(\<And>x. key x = k \<Longrightarrow> P x) \<Longrightarrow> tget key k (filter P rows) = tget key k rows"
  by (induction rows) auto

lemma get_user_delete:
  "delete_user i w = Inr w1 \<Longrightarrow> get_user j w1 = (if j = i then None else get_user j w)"
  by (auto simp: delete_user_def get_user_def tget_filter_key split: if_splits)

lemma get_user_codes [simp]:
  "get_user i (save_code r w) = get_user i w" "get_user i (purge_expired_sampled dice now w) = get_user i w"
  "get_user i (invalidate_active_for now u w) = get_user i w"
  by (simp_all add: get_user_def save_code_def purge_expired_sampled_def purge_expired_def invalidate_active_for_def)

lemma code_writes_same_books [simp]:
  "same_books (save_code r w) w" "same_books (purge_expired_sampled dice now w) w" "same_books (invalidate_active_for now u w) w"
  by (simp_all add: same_books_def save_code_def purge_expired_sampled_def purge_expired_def invalidate_active_for_def)

lemma has_tradable_iff:
  "has_tradable_data u w \<longleftrightarrow> \<not> falsy (u_pin_hash u) \<or> 0 < u_trust_deposit_balance u
     \<or> (\<exists>d \<in> set (t_deals w). d_buyer_id d = u_id u \<or> d_seller_id d = u_id u) \<or> (\<exists>s \<in> set (t_services w). sv_owner_id s = u_id u)
     \<or> (\<exists>r \<in> set (t_reviews w). rv_author_id r = u_id u \<or> rv_target_id r = u_id u) \<or> (\<exists>d \<in> set (t_deposits w). dep_user_id d = u_id u)
     \<or> (\<exists>x \<in> set (t_withdrawals w). wd_user_id x = u_id u)
     \<or> (\<exists>b \<in> set (t_balances w). b_user_id b = u_id u \<and> (0 < b_amount b \<or> 0 < b_locked b))"
  unfolding has_tradable_data_def by (simp only: if_bool_eq_disj) argo

lemma purge_frame [simp]:
  "t_services (purge_expired_sampled dice now w) = t_services w" "t_reviews (purge_expired_sampled dice now w) = t_reviews w"
  "t_forums (purge_expired_sampled dice now w) = t_forums w" "t_deals (purge_expired_sampled dice now w) = t_deals w"
  "t_deposits (purge_expired_sampled dice now w) = t_deposits w" "t_withdrawals (purge_expired_sampled dice now w) = t_withdrawals w"
  "t_balances (purge_expired_sampled dice now w) = t_balances w" "t_currencies (purge_expired_sampled dice now w) = t_currencies w"
  "has_tradable_data u (purge_expired_sampled dice now w) = has_tradable_data u w"
  by (simp_all add: purge_expired_sampled_def purge_expired_def has_tradable_iff)

lemma referenced_purge: "user_is_referenced i (purge_expired_sampled dice now w) \<Longrightarrow> user_is_referenced i w"
  by (auto simp: user_is_referenced_def purge_expired_sampled_def purge_expired_def split: if_splits)

text \<open>Deleting an empty shell moves no money: its balances are nought.\<close>

lemma delete_shell_accounts:
  assumes "delete_user (u_id u) w = Inr w1" and "\<not> has_tradable_data u w" and "balances_ok w"
  shows "accounts w1 = accounts w" and "balances_ok w1"
proof -
  have b: "t_balances w1 = filter (\<lambda>b. b_user_id b \<noteq> u_id u) (t_balances w)"
    using assms(1) by (auto simp: delete_user_def split: if_splits)
  have zero: "b_amount b = 0 \<and> b_locked b = 0" if "b \<in> set (t_balances w)" "b_user_id b = u_id u" for b
    using that assms(2,3) by (force simp: has_tradable_iff balances_ok_def balance_ok_def list_all_iff)
  show "accounts w1 = accounts w"
  proof (intro ext)
    fix i c
    have "get_balance i c w1 = (if i = u_id u then None else get_balance i c w)"
    proof (cases "i = u_id u")
      case True
      then show ?thesis by (auto simp: get_balance_def b tget_None_iff bkey_def)
    next
      case False
      have "tget bkey (i, c) (t_balances w1) = tget bkey (i, c) (t_balances w)"
        unfolding b using False by (intro tget_filter_keep) (auto simp: bkey_def)
      then show ?thesis using False by (simp add: get_balance_def)
    qed
    moreover have "accounts w (u_id u) c = (0, 0)"
    proof (cases "get_balance (u_id u) c w")
      case (Some x)
      then have "x \<in> set (t_balances w)" "b_user_id x = u_id u"
        using tget_Some [of bkey "(u_id u, c)" "t_balances w" x] by (auto simp: get_balance_def bkey_def)
      then show ?thesis using zero Some by (simp add: accounts_def)
    qed (simp add: accounts_def)
    ultimately show "accounts w1 i c = accounts w i c" by (simp add: accounts_def)
  qed
  show "balances_ok w1" using assms(3) by (auto simp: balances_ok_def b list_all_iff tkeys_def distinct_map_filter)
qed

lemma shell_keeps_tables:
  assumes "delete_user (u_id u) w = Inr w1" and "\<not> has_tradable_data u w"
  shows "t_deals w1 = t_deals w" "t_deposits w1 = t_deposits w" "t_withdrawals w1 = t_withdrawals w" "t_currencies w1 = t_currencies w"
    "seq_deals w1 = seq_deals w" "seq_deposits w1 = seq_deposits w" "seq_withdrawals w1 = seq_withdrawals w"
    "t_transfer_codes w1 = t_transfer_codes w" "t_services w1 = t_services w" "t_forums w1 = t_forums w"
proof -
  have "filter (\<lambda>d. dep_user_id d \<noteq> u_id u) (t_deposits w) = t_deposits w" "filter (\<lambda>x. wd_user_id x \<noteq> u_id u) (t_withdrawals w) = t_withdrawals w"
    using assms(2) by (auto simp: has_tradable_iff filter_id_conv)
  then show "t_deals w1 = t_deals w" "t_deposits w1 = t_deposits w" "t_withdrawals w1 = t_withdrawals w" "t_currencies w1 = t_currencies w"
    "seq_deals w1 = seq_deals w" "seq_deposits w1 = seq_deposits w" "seq_withdrawals w1 = seq_withdrawals w"
    "t_transfer_codes w1 = t_transfer_codes w" "t_services w1 = t_services w" "t_forums w1 = t_forums w"
    using assms(1) by (auto simp: delete_user_def split: if_splits)
qed

lemma delete_shell_books:
  assumes "delete_user (u_id u) w = Inr w1" and "\<not> has_tradable_data u w" and "books_ok w"
  shows "books_ok w1"
proof -
  have bal: "balances_ok w" using assms(3) by (simp add: books_ok_def)
  note t = shell_keeps_tables [OF assms(1,2)] and a = delete_shell_accounts [OF assms(1,2) bal]
  have "deal_ok w1 d = deal_ok w d" for d by (simp add: deal_ok_def get_currency_def t)
  then show ?thesis using assms(3) a
    by (simp add: books_ok_def deals_ok_def withdrawals_ok_def deposits_ok_def currencies_ok_def books_balance_def escrow_def reserved_def t)
qed

lemma foldl_choice: "(\<And>m x. f m x = m \<or> f m x = x) \<Longrightarrow> foldl f a xs \<in> insert a (set xs)"
proof (induction xs arbitrary: a)
  case (Cons x xs)
  then have "foldl f (f a x) xs \<in> insert (f a x) (set xs)" "f a x = a \<or> f a x = x" by blast+
  then show ?case by auto
qed simp

lemma newest_in: "newest key rows = Some r \<Longrightarrow> r \<in> set rows"
proof -
  assume n: "newest key rows = Some r"
  then obtain x xs where rows: "rows = x # xs" by (cases rows) (auto simp: newest_def)
  have "foldl (\<lambda>m x. if key m < key x then x else m) x xs \<in> insert x (set xs)" by (rule foldl_choice) simp
  with n rows show ?thesis by (simp add: newest_def)
qed

section \<open>What a transfer does\<close>

lemma confirm_cases:
  assumes "confirm_transfer cfg cr now dice others target code w = (Inr s, w')"
  obtains row source w1 where
    "find_code cfg cr now (strip code) (purge_expired_sampled dice now w) = Some row"
    "get_user (tc_source_user_id row) (others w) = Some source" "tc_source_user_id row \<noteq> u_id target"
    "\<not> has_tradable_data target (others w)" "delete_user (u_id target) (purge_expired_sampled dice now (others w)) = Inr w1"
    "s = moved source target"
    "w' = save_code (row \<lparr> tc_consumed_at := Some now, tc_target_tg_user_id := Some (u_tg_user_id target) \<rparr>) (save_user s w1)"
proof -
  obtain row where row: "find_code cfg cr now (strip code) (purge_expired_sampled dice now w) = Some row"
    and locked: "confirm_locked cfg cr now target (strip code) row (purge_expired_sampled dice now (others w)) = Inr (s, w')"
    using assms by (auto simp: confirm_transfer_def Let_def split: if_splits option.splits sum.splits prod.splits)
  obtain source w1 where src: "get_user (tc_source_user_id row) (others w) = Some source" "u_id source \<noteq> u_id target"
    "\<not> has_tradable_data target (others w)" "delete_user (u_id target) (purge_expired_sampled dice now (others w)) = Inr w1"
    "s = moved source target"
    "w' = save_code (row \<lparr> tc_consumed_at := Some now, tc_target_tg_user_id := Some (u_tg_user_id target) \<rparr>) (save_user s w1)"
    using locked by (auto simp: confirm_locked_def Let_def split: if_splits option.splits sum.splits)
  have "u_id source = tc_source_user_id row" using get_user_id [OF src(1)] .
  with src have "tc_source_user_id row \<noteq> u_id target" by simp
  from that [OF row src(1) this src(3-6)] show thesis .
qed

text \<open>
  C24. A transfer needs a live code: some row, not consumed and not expired when it is read, has the
  hash of the code that was typed, and the account that moves is the one this row was issued for. The caller's Telegram
  identity is put on it, all its PIN and TOTP sessions end, the caller's own row is removed and the
  code is consumed. No money moves: every account has what it had, the deals are untouched and the
  books still balance.
\<close>

theorem transfer_moves_identity:
  assumes "confirm_transfer cfg cr now dice others target code w = (Inr s, w')" and "books_ok (others w)"
  shows "\<exists>source r. r \<in> set (t_transfer_codes w) \<and> tc_code_hash r = hash_code cfg cr (strip code) \<and> live_code now r
    \<and> u_id s = tc_source_user_id r \<and> (\<forall>x. x \<in> set (t_transfer_codes w') \<and> tc_id x = tc_id r \<longrightarrow> tc_consumed_at x = Some now)
    \<and> get_user (u_id s) (others w) = Some source
    \<and> get_user (u_id s) w' = Some (saved (moved source target)) \<and> u_tg_user_id s = u_tg_user_id target
    \<and> u_pin_session_epoch s = u_pin_session_epoch source + 1 \<and> u_totp_session_epoch s = u_totp_session_epoch source + 1
    \<and> get_user (u_id target) w' = None \<and> u_id s \<noteq> u_id target
    \<and> accounts w' = accounts (others w) \<and> t_deals w' = t_deals (others w) \<and> books_ok w'"
proof -
  obtain row source w1 where f: "find_code cfg cr now (strip code) (purge_expired_sampled dice now w) = Some row"
    and c: "get_user (tc_source_user_id row) (others w) = Some source" "tc_source_user_id row \<noteq> u_id target"
    "\<not> has_tradable_data target (others w)" "delete_user (u_id target) (purge_expired_sampled dice now (others w)) = Inr w1"
    "s = moved source target"
    "w' = save_code (row \<lparr> tc_consumed_at := Some now, tc_target_tg_user_id := Some (u_tg_user_id target) \<rparr>) (save_user s w1)"
    using confirm_cases [OF assms(1)] by metis
  have code: "row \<in> set (t_transfer_codes w)" "tc_code_hash row = hash_code cfg cr (strip code)" "live_code now row"
    using newest_in [OF f [unfolded find_code_def]]
    by (auto simp: purge_expired_sampled_def purge_expired_def split: if_splits)
  have used: "tc_consumed_at x = Some now" if "x \<in> set (t_transfer_codes w')" "tc_id x = tc_id row" for x
    using that by (auto simp: c(6) save_code_def tput_def split: if_splits)
  let ?v = "purge_expired_sampled dice now (others w)"
  have id: "u_id source = tc_source_user_id row" "u_id s = tc_source_user_id row"
    using get_user_id [OF c(1)] c(5) by (simp_all add: moved_def)
  have shell: "\<not> has_tradable_data target ?v" using c(3) by simp
  have pb: "same_books ?v (others w)" by simp
  have v: "books_ok ?v" "accounts ?v = accounts (others w)" using same_booksD [OF pb] assms(2) by simp_all
  have wb: "same_books w' w1"
    using code_writes_same_books(1) save_user_same_books unfolding c(6) same_books_def by metis
  have books: "books_ok w'" using same_booksD(4) [OF wb] delete_shell_books [OF c(4) shell v(1)] by simp
  have acc: "accounts w' = accounts (others w)"
    using same_booksD(1) [OF wb] delete_shell_accounts(1) [OF c(4) shell] v by (simp add: books_ok_def)
  have deals: "t_deals w' = t_deals (others w)"
    using wb shell_keeps_tables(1) [OF c(4) shell] by (simp add: same_books_def)
  have g1: "get_user (u_id s) w1 = Some source"
    using get_user_delete [OF c(4)] c(1,2) id by simp
  have "get_user (u_id s) w' = Some (saved s)" unfolding c(6) using get_saved [OF g1, of s] by simp
  moreover have "get_user (u_id target) w' = None"
    using get_user_delete [OF c(4), of "u_id target"] get_user_other [of "u_id target" s] c(2,6) id by simp
  ultimately have "get_user (u_id s) (others w) = Some source
    \<and> get_user (u_id s) w' = Some (saved (moved source target)) \<and> u_tg_user_id s = u_tg_user_id target
    \<and> u_pin_session_epoch s = u_pin_session_epoch source + 1 \<and> u_totp_session_epoch s = u_totp_session_epoch source + 1
    \<and> get_user (u_id target) w' = None \<and> u_id s \<noteq> u_id target
    \<and> accounts w' = accounts (others w) \<and> t_deals w' = t_deals (others w) \<and> books_ok w'"
    using books acc deals c(1,2,5) id by (auto simp: moved_def)
  with code used id(2) show ?thesis by blast
qed

text \<open>A refused transfer changes nothing, unless the account the code belongs to is gone.\<close>

theorem refused_transfer_changes_nothing:
  assumes "transfer_confirm cfg cr now dice id u code w = (Inl e, w')"
    and "\<forall>r \<in> set (t_transfer_codes w). get_user (tc_source_user_id r) w \<noteq> None"
  shows "w' = w \<and> (e = IntegrityError \<or> (\<exists>d. e = HTTP 400 d))"
proof -
  have src: "get_user (tc_source_user_id row) w \<noteq> None"
    if "find_code cfg cr now (strip code) (purge_expired_sampled dice now w) = Some row" for row
    using newest_in that assms(2) by (fastforce simp: find_code_def purge_expired_sampled_def purge_expired_def split: if_splits)
  have "delete_user i v = Inl e \<Longrightarrow> e = IntegrityError" for i v e by (auto simp: delete_user_def split: if_splits)
  then show ?thesis using assms(1) src
    by (fastforce simp: transfer_confirm_def confirm_transfer_def confirm_locked_def Let_def
        split: prod.splits sum.splits option.splits if_splits py_error.splits)
qed

section \<open>Codes that were issued\<close>

lemma generated:
  "generate_unique_code cfg cr draws now n k w = Inr (code, k') \<Longrightarrow> code \<in> range draws"
  by (induction n arbitrary: k) (auto simp: Let_def split: if_splits)

lemma issue_cases:
  assumes "issue_code cfg cr draws now source w = (Inr (code, expires), w')"
  defines "w1 \<equiv> invalidate_active_for now (u_id source) (purge_expired now w)"
  shows "code \<in> range draws \<and> expires = now + ac_account_transfer_code_ttl_seconds cfg
    \<and> (\<forall>x \<in> set (t_transfer_codes w1). tc_code_hash x \<noteq> hash_code cfg cr code)
    \<and> (\<exists>r. tc_source_user_id r = u_id source \<and> tc_code_hash r = hash_code cfg cr code \<and> tc_expires_at r = expires
         \<and> tc_consumed_at r = None \<and> w' = w1 \<lparr> t_transfer_codes := t_transfer_codes w1 @ [r], seq_transfer_codes := seq_transfer_codes w1 + 1 \<rparr>)"
proof -
  have "issue_attempts cfg cr draws now (u_id source) n k w = (Inr (code, expires), w') \<Longrightarrow> ?thesis" for n k
  proof (induction n arbitrary: k)
    case (Suc n)
    obtain c k' where g: "generate_unique_code cfg cr draws now (ac_account_transfer_max_code_generation_attempts cfg) k w1 = Inr (c, k')"
      using Suc.prems by (auto simp: w1_def [symmetric] Let_def split: sum.splits)
    show ?case
    proof (cases "\<exists>x \<in> set (t_transfer_codes w1). tc_code_hash x = hash_code cfg cr c")
      case True
      then have "issue_attempts cfg cr draws now (u_id source) n k' w = (Inr (code, expires), w')"
        using Suc.prems g by (simp add: w1_def [symmetric] insert_code_def Let_def)
      then show ?thesis by (rule Suc.IH)
    next
      case False
      let ?r = "\<lparr> tc_id = seq_transfer_codes w1, tc_source_user_id = u_id source, tc_code_hash = hash_code cfg cr c,
        tc_expires_at = now + ac_account_transfer_code_ttl_seconds cfg, tc_consumed_at = None, tc_target_tg_user_id = None, tc_created_at = now \<rparr>"
      have h: "issue_attempts cfg cr draws now (u_id source) (Suc n) k w = (Inr (c, now + ac_account_transfer_code_ttl_seconds cfg),
          w1 \<lparr> t_transfer_codes := t_transfer_codes w1 @ [?r], seq_transfer_codes := seq_transfer_codes w1 + 1 \<rparr>)"
        using g False by (simp add: w1_def [symmetric] insert_code_def Let_def)
      note e = trans [OF sym [OF Suc.prems] h, unfolded prod.inject sum.inject]
      show ?thesis using e False generated [OF g] by (intro conjI exI [of _ ?r]) simp_all
    qed
  qed simp
  then show ?thesis using assms(1) by (simp add: issue_code_def)
qed

lemma invalidated:
  "t_transfer_codes (invalidate_active_for now i w) = consume_codes now i (t_transfer_codes w)"
  by (simp add: invalidate_active_for_def)

lemma consumed_not_live: "filter (\<lambda>r. tc_source_user_id r = i \<and> live_code t r) (consume_codes now i rows) = []"
  by (induction rows) (auto simp: consume_codes_def live_code_def)

lemma consumed_others:
  "j \<noteq> i \<Longrightarrow> filter (\<lambda>r. tc_source_user_id r = j \<and> live_code t r) (consume_codes now i rows) = filter (\<lambda>r. tc_source_user_id r = j \<and> live_code t r) rows"
  by (induction rows) (auto simp: consume_codes_def live_code_def)

text \<open>
  After a code is issued it is the only live code of its account, it is found until it expires, and
  the codes of the other accounts are as live as they were.
\<close>

theorem issue_leaves_one_live_code:
  assumes "issue_code cfg cr draws now source w = (Inr (code, expires), w')" and "0 < ac_account_transfer_code_ttl_seconds cfg"
  shows "\<exists>r. filter (\<lambda>r. tc_source_user_id r = u_id source \<and> live_code now r) (t_transfer_codes w') = [r]
    \<and> get_active_code now (u_id source) w' = Some r \<and> tc_source_user_id r = u_id source
    \<and> tc_code_hash r = hash_code cfg cr code \<and> tc_expires_at r = expires
    \<and> (\<forall>t. t < expires \<longrightarrow> find_code cfg cr t code w' = Some r)
    \<and> (\<forall>j. j \<noteq> u_id source \<longrightarrow> filter (\<lambda>r. tc_source_user_id r = j \<and> live_code now r) (t_transfer_codes w')
         = filter (\<lambda>r. tc_source_user_id r = j \<and> live_code now r) (t_transfer_codes w))"
proof -
  let ?w1 = "invalidate_active_for now (u_id source) (purge_expired now w)"
  obtain r where fresh: "\<forall>x \<in> set (t_transfer_codes ?w1). tc_code_hash x \<noteq> hash_code cfg cr code"
    and r: "tc_source_user_id r = u_id source" "tc_code_hash r = hash_code cfg cr code" "tc_expires_at r = expires" "tc_consumed_at r = None"
    and rows: "t_transfer_codes w' = t_transfer_codes ?w1 @ [r]" and ex: "expires = now + ac_account_transfer_code_ttl_seconds cfg"
    using issue_cases [OF assms(1)] by auto
  have one: "filter (\<lambda>r. tc_source_user_id r = u_id source \<and> live_code now r) (t_transfer_codes w') = [r]"
  proof -
    have "live_code now r" using r ex assms(2) by (simp add: live_code_def)
    then show ?thesis using r(1) by (simp add: rows invalidated consumed_not_live)
  qed
  have none: "filter (\<lambda>r. tc_code_hash r = hash_code cfg cr code \<and> live_code t r) (t_transfer_codes ?w1) = []" for t
    using fresh by (auto simp: filter_empty_conv)
  have found: "find_code cfg cr t code w' = Some r" if "t < expires" for t
    using that r none by (simp add: find_code_def rows newest_def live_code_def)
  have others: "filter (\<lambda>r. tc_source_user_id r = j \<and> live_code now r) (t_transfer_codes w')
         = filter (\<lambda>r. tc_source_user_id r = j \<and> live_code now r) (t_transfer_codes w)" if "j \<noteq> u_id source" for j
    using that r consumed_others [OF that, of now now]
    by (auto simp: rows invalidated purge_expired_def live_code_def intro!: filter_cong)
  show ?thesis using one found others r by (auto simp: get_active_code_def newest_def)
qed

lemma find_code_purged [simp]: "find_code cfg cr now code (purge_expired_sampled dice now w) = find_code cfg cr now code w"
  by (auto simp: find_code_def purge_expired_sampled_def purge_expired_def live_code_def
      intro!: arg_cong [where f = "newest tc_created_at"] filter_cong)

lemma confirm_runs:
  assumes "find_code cfg cr now code w = Some row" and "tc_code_hash row = hash_code cfg cr code" and "hash_code cfg cr code \<noteq> []"
    and "length code = ac_account_transfer_code_len cfg" and "code \<noteq> []" and "list_all is_digit code"
    and "get_user (tc_source_user_id row) (others w) = Some source" and "tc_source_user_id row \<noteq> u_id target"
    and "\<not> has_tradable_data target (others w)" and "\<not> user_is_referenced (u_id target) (others w)"
  shows "\<exists>s w'. confirm_transfer cfg cr now dice others target code w = (Inr s, w') \<and> s = moved source target"
proof -
  have "\<not> user_is_referenced (u_id target) (purge_expired_sampled dice now (others w))"
    using referenced_purge assms(10) by blast
  then obtain w1 where d: "delete_user (u_id target) (purge_expired_sampled dice now (others w)) = Inr w1"
    by (simp add: delete_user_def)
  have "u_id source \<noteq> u_id target" using get_user_id [OF assms(7)] assms(8) by simp
  then show ?thesis
    using assms d by (simp add: confirm_transfer_def confirm_locked_def strip_digits verify_code_def Let_def)
qed

text \<open>
  The code works: entered before it expires on an account that is an empty shell, it moves the
  account that issued it.
\<close>

theorem issued_code_moves_account:
  assumes "issue_code cfg cr draws now source w = (Inr (code, expires), w')" and "0 < ac_account_transfer_code_ttl_seconds cfg"
    and "crypto_ok cr" and "\<forall>k. length (draws k) = ac_account_transfer_code_len cfg \<and> draws k \<noteq> [] \<and> list_all is_digit (draws k)"
    and "get_user (u_id source) w = Some source" and "t < expires" and "u_id source \<noteq> u_id target"
    and "\<not> has_tradable_data target w" and "\<not> user_is_referenced (u_id target) w"
  shows "\<exists>s w2. confirm_transfer cfg cr t dice id target code w' = (Inr s, w2) \<and> s = moved source target"
proof -
  let ?w1 = "invalidate_active_for now (u_id source) (purge_expired now w)"
  obtain r where r: "tc_source_user_id r = u_id source" "tc_code_hash r = hash_code cfg cr code" "find_code cfg cr t code w' = Some r"
    using issue_leaves_one_live_code [OF assms(1,2)] assms(6) by blast
  obtain x where x: "w' = ?w1 \<lparr> t_transfer_codes := t_transfer_codes ?w1 @ [x], seq_transfer_codes := seq_transfer_codes ?w1 + 1 \<rparr>"
    "tc_source_user_id x = u_id source"
    using issue_cases [OF assms(1)] by auto
  have g: "get_user (u_id source) w' = Some source" using assms(5) by (simp add: x get_user_def invalidate_active_for_def purge_expired_def)
  have shell: "\<not> has_tradable_data target w'"
    using assms(8) by (simp add: x has_tradable_iff invalidate_active_for_def purge_expired_def)
  have free: "\<not> user_is_referenced (u_id target) w'"
    using assms(7,9) by (auto simp: x user_is_referenced_def invalidate_active_for_def purge_expired_def consume_codes_def tupd_def)
  have code: "length code = ac_account_transfer_code_len cfg" "code \<noteq> []" "list_all is_digit code"
    using assms(4) issue_cases [OF assms(1)] by auto
  have hash: "hash_code cfg cr code \<noteq> []" using assms(3) by (simp add: crypto_ok_def hash_code_def)
  show ?thesis
    using confirm_runs [OF r(3,2) hash code, of id source target] g r(1) assms(7) shell free by simp
qed

lemma save_code_row: "tget tc_id (tc_id r) (t_transfer_codes w) = Some r0 \<Longrightarrow> tkeys tc_id (t_transfer_codes w) \<Longrightarrow>
  set (t_transfer_codes (save_code r w)) = insert r (set (t_transfer_codes w) - {r0})"
  unfolding save_code_def by (auto simp: tput_def dest!: tget_Some) (metis tget_in_set option.inject)+

text \<open>
  C25. A code can be used twice. The code row is neither locked nor read again: two new accounts that
  enter one code at the same time both get the account, first the one, then the other, and both
  their rows are deleted. One after the other, the second is refused.
\<close>

theorem transfer_code_used_twice:
  assumes "confirm_transfer cfg cr now False id target1 code w = (Inr s1, w1)"
    and "crypto_ok cr" and "tkeys tc_id (t_transfer_codes w)" and "tkeys tc_code_hash (t_transfer_codes w)"
    and "u_id target2 \<noteq> u_id target1" and "u_id target2 \<noteq> u_id s1"
    and "\<not> has_tradable_data target2 w1" and "\<not> user_is_referenced (u_id target2) w1"
  shows "confirm_transfer cfg cr now False id target2 code w1 = (Inl code_invalid, w1)
    \<and> (\<exists>s2 w2. confirm_transfer cfg cr now False (\<lambda>_. w1) target2 code w = (Inr s2, w2)
      \<and> u_id s2 = u_id s1 \<and> u_tg_user_id s2 = u_tg_user_id target2
      \<and> get_user (u_id target1) w2 = None \<and> get_user (u_id target2) w2 = None)"
proof -
  obtain row source v where c: "find_code cfg cr now (strip code) w = Some row" "get_user (tc_source_user_id row) w = Some source"
    "tc_source_user_id row \<noteq> u_id target1" "\<not> has_tradable_data target1 w" "delete_user (u_id target1) w = Inr v" "s1 = moved source target1"
    "w1 = save_code (row \<lparr> tc_consumed_at := Some now, tc_target_tg_user_id := Some (u_tg_user_id target1) \<rparr>) (save_user s1 v)"
    using confirm_cases [OF assms(1)] by (auto simp: purge_expired_sampled_def)
  have fmt: "length (strip code) = ac_account_transfer_code_len cfg" "strip code \<noteq> []" "list_all is_digit (strip code)"
    using assms(1) by (auto simp: confirm_transfer_def Let_def split: if_splits)
  have row: "row \<in> set (t_transfer_codes w)" "tc_code_hash row = hash_code cfg cr (strip code)" "live_code now row"
    using newest_in c(1) by (fastforce simp: find_code_def)+
  have codes_v: "t_transfer_codes (save_user s1 v) = t_transfer_codes w"
    using shell_keeps_tables(8) [OF c(5,4)] by (simp add: save_user_def)
  let ?row' = "row \<lparr> tc_consumed_at := Some now, tc_target_tg_user_id := Some (u_tg_user_id target1) \<rparr>"
  have codes1: "set (t_transfer_codes w1) = insert ?row' (set (t_transfer_codes w) - {row})"
    using save_code_row [of ?row' "save_user s1 v" row] tget_in_set [OF assms(3) row(1)] assms(3) by (simp add: c(7) codes_v)
  have "x = row" if "x \<in> set (t_transfer_codes w)" "tc_code_hash x = tc_code_hash row" for x
    using assms(4) that row(1) by (auto simp: tkeys_def distinct_map inj_on_def)
  then have "filter (\<lambda>r. tc_code_hash r = hash_code cfg cr (strip code) \<and> live_code now r) (t_transfer_codes w1) = []"
    using codes1 row(2) by (auto simp: filter_empty_conv live_code_def)
  then have gone: "find_code cfg cr now (strip code) w1 = None" by (simp add: find_code_def newest_def)
  have refused: "confirm_transfer cfg cr now False id target2 code w1 = (Inl code_invalid, w1)"
    using fmt gone by (simp add: confirm_transfer_def Let_def purge_expired_sampled_def)
  have id: "u_id source = tc_source_user_id row" using get_user_id [OF c(2)] .
  have g: "get_user (tc_source_user_id row) v = Some source" using get_user_delete [OF c(5)] c(2,3) by simp
  have g1: "get_user (tc_source_user_id row) w1 = Some (saved s1)"
    using get_saved [OF g, of s1] id by (simp add: c(6,7) moved_def)
  have hash: "hash_code cfg cr (strip code) \<noteq> []" using assms(2) by (simp add: crypto_ok_def hash_code_def)
  have strip2: "strip (strip code) = strip code" using fmt(3) by (rule strip_digits)
  have "confirm_transfer cfg cr now False (\<lambda>_. w1) target2 (strip code) w = confirm_transfer cfg cr now False (\<lambda>_. w1) target2 code w"
    by (simp add: confirm_transfer_def strip2)
  moreover have ne: "tc_source_user_id row \<noteq> u_id target2" using assms(6) c(6) id by (simp add: moved_def)
  ultimately obtain s2 w2 where run: "confirm_transfer cfg cr now False (\<lambda>_. w1) target2 code w = (Inr s2, w2)" "s2 = moved (saved s1) target2"
    using confirm_runs [OF c(1) row(2) hash fmt, of "\<lambda>_. w1" "saved s1" target2 False] g1 assms(7,8) by auto
  obtain row2 v2 where d2: "delete_user (u_id target2) w1 = Inr v2" "w2 = save_code row2 (save_user s2 v2)"
    using confirm_cases [OF run(1)] by (metis purge_expired_sampled_def)
  have id2: "u_id s2 = tc_source_user_id row" "u_id s1 = tc_source_user_id row" using run(2) id c(6) by (simp_all add: moved_def)
  have "get_user (u_id target1) w1 = None"
    using get_user_delete [OF c(5), of "u_id target1"] get_user_other [of "u_id target1" s1] c(3) id2 by (simp add: c(7))
  then have "get_user (u_id target1) w2 = None" "get_user (u_id target2) w2 = None"
    using get_user_delete [OF d2(1)] get_user_other [of _ s2] c(3) ne id2 by (simp_all add: d2(2))
  then show ?thesis using refused run id2 by (auto simp: moved_def)
qed

section \<open>Instances\<close>

definition transfer_world :: world where
  "transfer_world = sample_world \<lparr> t_users := t_users sample_world @ [sample_user 4 ''dave'' False, sample_user 5 ''erin'' False] \<rparr>"

lemma transfer_world_ok: "books_ok transfer_world"
proof -
  have "same_books transfer_world sample_world" by (simp add: same_books_def transfer_world_def)
  from same_booksD(4) [OF this] show ?thesis using sample_books_ok by simp
qed

definition sample_draws :: "nat \<Rightarrow> string" where "sample_draws k = ''123456''"

lemma first_code:
  assumes "t_transfer_codes w = []" and "0 < ac_account_transfer_max_code_generation_attempts cfg"
  shows "\<exists>w'. issue_code cfg cr draws now u w = (Inr (draws 0, now + ac_account_transfer_code_ttl_seconds cfg), w')"
proof -
  obtain n where n: "ac_account_transfer_max_code_generation_attempts cfg = Suc n" using assms(2) by (cases "ac_account_transfer_max_code_generation_attempts cfg") auto
  show ?thesis using assms(1) by (simp add: issue_code_def n invalidated purge_expired_def insert_code_def consume_codes_def Let_def)
qed

lemma transfer_world_facts:
  "t_transfer_codes transfer_world = []" "get_user 1 transfer_world = Some sample_buyer" "get_user 4 transfer_world = Some (sample_user 4 ''dave'' False)"
  "\<not> has_tradable_data (sample_user 4 ''dave'' False) transfer_world" "\<not> user_is_referenced 4 transfer_world"
  "\<not> has_tradable_data (sample_user 5 ''erin'' False) transfer_world" "\<not> user_is_referenced 5 transfer_world"
  "u_id (sample_user i n a) = i"
  by (simp_all add: transfer_world_def get_user_def sample_rows sample_user_rows has_tradable_iff user_is_referenced_def falsy_def sample_deal_def)

definition issued_world :: world where
  "issued_world = snd (issue_code sample_auth sample_crypto sample_draws 5 sample_buyer transfer_world)"

lemma sample_issue: "issue_code sample_auth sample_crypto sample_draws 5 sample_buyer transfer_world = (Inr (''123456'', 905), issued_world)"
  using first_code [OF transfer_world_facts(1), of sample_auth sample_crypto sample_draws 5 sample_buyer]
  by (auto simp: issued_world_def sample_auth_def sample_draws_def)

lemma issue_leaves_one_live_code_witness:
  "\<exists>r. get_active_code 5 1 issued_world = Some r \<and> tc_expires_at r = 905"
  using issue_leaves_one_live_code [OF sample_issue] by (auto simp: sample_auth_def)

lemma issued_code_moves_account_witness:
  "\<exists>s w2. confirm_transfer sample_auth sample_crypto 9 True id (sample_user 4 ''dave'' False) ''123456'' issued_world = (Inr s, w2)
     \<and> u_tg_user_id s = 1004"
  using issued_code_moves_account [OF sample_issue _ sample_crypto_ok, of 9 "sample_user 4 ''dave'' False" True] transfer_world_facts
  by (auto simp: sample_auth_def sample_draws_def is_digit_def moved_def sample_user_def)

text \<open>The same world, with the code in it, written out.\<close>

definition coded_world :: world where
  "coded_world = transfer_world \<lparr> t_transfer_codes := [\<lparr> tc_id = 1, tc_source_user_id = 1, tc_code_hash = ''m123456'',
     tc_expires_at = 905, tc_consumed_at = None, tc_target_tg_user_id = None, tc_created_at = 5 \<rparr>] \<rparr>"

lemma coded_world_ok: "books_ok coded_world"
proof -
  have "same_books coded_world transfer_world" by (simp add: same_books_def coded_world_def)
  from same_booksD(4) [OF this] show ?thesis using transfer_world_ok by simp
qed

lemma sample_confirm:
  "\<exists>s w1. confirm_transfer sample_auth sample_crypto 9 False id (sample_user 4 ''dave'' False) ''123456'' coded_world = (Inr s, w1)
     \<and> s = moved sample_buyer (sample_user 4 ''dave'' False)"
proof -
  have f: "find_code sample_auth sample_crypto 9 ''123456'' coded_world = Some \<lparr> tc_id = 1, tc_source_user_id = 1, tc_code_hash = ''m123456'',
     tc_expires_at = 905, tc_consumed_at = None, tc_target_tg_user_id = None, tc_created_at = 5 \<rparr>" (is "_ = Some ?r")
    by (simp add: find_code_def coded_world_def hash_code_def sample_crypto_def sample_auth_def live_code_def newest_def)
  have "has_tradable_data u coded_world = has_tradable_data u transfer_world" for u by (simp add: has_tradable_iff coded_world_def)
  moreover have "user_is_referenced 4 coded_world = user_is_referenced 4 transfer_world" by (simp add: user_is_referenced_def coded_world_def transfer_world_facts)
  moreover have "get_user i coded_world = get_user i transfer_world" for i by (simp add: get_user_def coded_world_def)
  ultimately show ?thesis
    using confirm_runs [OF f, of id sample_buyer "sample_user 4 ''dave'' False" False] transfer_world_facts
    by (simp add: hash_code_def sample_crypto_def sample_auth_def is_digit_def)
qed

lemma transfer_moves_identity_witness:
  "\<exists>s w'. confirm_transfer sample_auth sample_crypto 9 False id (sample_user 4 ''dave'' False) ''123456'' coded_world = (Inr s, w')
     \<and> u_id s = 1 \<and> get_user 4 w' = None \<and> accounts w' = accounts coded_world \<and> books_ok w'"
proof -
  obtain s w' where run: "confirm_transfer sample_auth sample_crypto 9 False id (sample_user 4 ''dave'' False) ''123456'' coded_world = (Inr s, w')"
    using sample_confirm by blast
  then show ?thesis
    using transfer_moves_identity [OF run] coded_world_ok transfer_world_facts(8) by (auto simp: coded_world_def)
qed

lemma refused_transfer_changes_nothing_witness:
  "transfer_confirm sample_auth sample_crypto 9 False id sample_buyer ''999999'' coded_world = (Inl (HTTP 400 (E_other ''code_invalid'')), coded_world)"
proof -
  have run: "transfer_confirm sample_auth sample_crypto 9 False id sample_buyer ''999999'' coded_world = (Inl (HTTP 400 (E_other ''code_invalid'')), coded_world)"
    by (simp add: transfer_confirm_def confirm_transfer_def strip_digits is_digit_def sample_auth_def find_code_def coded_world_def
        hash_code_def sample_crypto_def newest_def purge_expired_sampled_def Let_def)
  then show ?thesis using refused_transfer_changes_nothing [OF run] by simp
qed

lemma transfer_code_used_twice_witness:
  "\<exists>w1 s2 w2. confirm_transfer sample_auth sample_crypto 9 False (\<lambda>_. w1) (sample_user 5 ''erin'' False) ''123456'' coded_world = (Inr s2, w2)
     \<and> get_user 4 w2 = None \<and> get_user 5 w2 = None"
proof -
  let ?t = "sample_user 4 ''dave'' False" and ?r = "sample_user 5 ''erin'' False"
  obtain s1 w1 where run: "confirm_transfer sample_auth sample_crypto 9 False id ?t ''123456'' coded_world = (Inr s1, w1)"
    and s1: "s1 = moved sample_buyer ?t" using sample_confirm by blast
  obtain row source v where c0: "find_code sample_auth sample_crypto 9 (strip ''123456'') (purge_expired_sampled False 9 coded_world) = Some row"
    "\<not> has_tradable_data ?t (id coded_world)" "delete_user (u_id ?t) (purge_expired_sampled False 9 (id coded_world)) = Inr v"
    "w1 = save_code (row \<lparr> tc_consumed_at := Some 9, tc_target_tg_user_id := Some (u_tg_user_id ?t) \<rparr>) (save_user s1 v)"
    by (rule confirm_cases [OF run], rule that; assumption)
  have c: "\<not> has_tradable_data ?t coded_world" "delete_user 4 coded_world = Inr v"
    "w1 = save_code (row \<lparr> tc_consumed_at := Some 9, tc_target_tg_user_id := Some (u_tg_user_id ?t) \<rparr>) (save_user s1 v)"
    "find_code sample_auth sample_crypto 9 (strip ''123456'') coded_world = Some row"
    using c0 transfer_world_facts(8) by (simp_all add: purge_expired_sampled_def)
  have t: "t_deals w1 = t_deals coded_world" "t_services w1 = t_services coded_world" "t_deposits w1 = t_deposits coded_world"
    "t_withdrawals w1 = t_withdrawals coded_world" "t_forums w1 = t_forums coded_world"
    using shell_keeps_tables [of ?t coded_world v] c(1,2) transfer_world_facts(8) by (simp_all add: c(3) save_code_def save_user_def)
  have sub: "set (t_reviews w1) \<subseteq> set (t_reviews coded_world)" "set (t_balances w1) \<subseteq> set (t_balances coded_world)"
    using c(2) by (auto simp: c(3) save_code_def save_user_def delete_user_def split: if_splits)
  have sources: "\<forall>x \<in> set (t_transfer_codes w1). tc_source_user_id x = 1"
    using c(2,4) by (auto simp: c(3) save_code_def save_user_def delete_user_def coded_world_def tput_def find_code_def newest_def split: if_splits)
  have shell: "\<not> has_tradable_data ?r w1" using transfer_world_facts(6) t sub by (auto simp: has_tradable_iff coded_world_def)
  have free: "\<not> user_is_referenced 5 w1" using transfer_world_facts(7) t sources by (auto simp: user_is_referenced_def coded_world_def)
  have k: "tkeys tc_id (t_transfer_codes coded_world)" "tkeys tc_code_hash (t_transfer_codes coded_world)" by (simp_all add: coded_world_def tkeys_def)
  have id: "u_id s1 = 1" by (simp add: s1 moved_def)
  show ?thesis
    using transfer_code_used_twice [OF run sample_crypto_ok k _ _ shell] free id transfer_world_facts(8) by auto
qed

end
