(* ===== verification/Login.thy ===== *)
theory Login
  imports Account_Transfer "HOL-Library.Char_ord" "HOL-Library.List_Lexorder"
begin

text \<open>
  Who calls (\<open>backend/app/security.py\<close>, \<open>backend/app/auth_helpers.py\<close>, \<open>get_current_user\<close> of
  \<open>backend/app/deps.py\<close>): the signed init data of Telegram, the user row of a Telegram id, the gate
  for banned and frozen accounts and the counting of sessions. HMAC and JSON are parameters; strings
  are sequences of bytes, so percent-encoding is decoded byte by byte.
\<close>

section \<open>Query strings\<close>

fun split_on :: "char \<Rightarrow> string \<Rightarrow> string list" where
  "split_on c [] = [[]]"
| "split_on c (x # xs) = (if x = c then [] # split_on c xs
     else case split_on c xs of [] \<Rightarrow> [[x]] | s # ss \<Rightarrow> (x # s) # ss)"

definition hex_digit :: "char \<Rightarrow> nat option" where
  "hex_digit c = (let n = of_char c :: nat in
     if 48 \<le> n \<and> n \<le> 57 then Some (n - 48) else if 65 \<le> n \<and> n \<le> 70 then Some (n - 55)
     else if 97 \<le> n \<and> n \<le> 102 then Some (n - 87) else None)"

fun unquote :: "string \<Rightarrow> string" where
  "unquote (c # a # b # cs) =
     (if c \<noteq> CHR ''%'' then c # unquote (a # b # cs)
      else case (hex_digit a, hex_digit b) of
        (Some x, Some y) \<Rightarrow> char_of (16 * x + y) # unquote cs
      | _ \<Rightarrow> c # unquote (a # b # cs))"
| "unquote s = s"

definition unquote_plus :: "string \<Rightarrow> string" where
  "unquote_plus s = unquote (map (\<lambda>c. if c = CHR ''+'' then CHR '' '' else c) s)"

definition split_field :: "string \<Rightarrow> string \<times> string" where
  "split_field f = (takeWhile (\<lambda>c. c \<noteq> CHR ''='') f, drop 1 (dropWhile (\<lambda>c. c \<noteq> CHR ''='') f))"

text \<open>\<open>parse_qs(s, keep_blank_values=True)\<close>, of which the code only ever takes the first value of a key.\<close>

fun first_values :: "(string \<times> string) list \<Rightarrow> (string \<times> string) list" where
  "first_values [] = []"
| "first_values ((k, v) # xs) = (k, v) # filter (\<lambda>p. fst p \<noteq> k) (first_values xs)"

definition parse_qs :: "string \<Rightarrow> (string \<times> string) list" where
  "parse_qs s = first_values (map (\<lambda>f. map_prod unquote_plus unquote_plus (split_field f))
     (filter (\<lambda>f. f \<noteq> []) (split_on CHR ''&'' s)))"

section \<open>Init data\<close>

record tg_user =
  tg_id :: "int option"
  tg_username :: "string option"
  tg_first_name :: string
  tg_photo_url :: "string option"
  tg_language_code :: "string option"

text \<open>A parsed document: an object with the fields the code reads, or something else, on which
  \<open>.get\<close> is an \<open>AttributeError\<close>.\<close>

datatype json_doc = JObject tg_user | JOther

text \<open>\<open>hmac_sha256 key message\<close> is the digest, \<open>None\<close> of \<open>json_loads\<close> is \<open>JSONDecodeError\<close>.\<close>

record telegram =
  hmac_sha256 :: "string \<Rightarrow> string \<Rightarrow> string"
  hexdigest :: "string \<Rightarrow> string"
  json_loads :: "string \<Rightarrow> json_doc option"

record login_env =
  le_allow_unsigned_init_data :: bool
  le_bot_token :: string
  le_init_data_max_age_seconds :: int
  le_production :: bool

datatype init_data_error = InitDataError string | JSONDecodeError

definition data_check_string :: "(string \<times> string) list \<Rightarrow> string" where
  "data_check_string parsed = concat (let lines = map (\<lambda>(k, v). k @ ''='' @ v) (sort_key fst parsed)
     in case lines of [] \<Rightarrow> [] | l # ls \<Rightarrow> l # map (\<lambda>x. CHR 0x0A # x) ls)"

definition signature_of :: "telegram \<Rightarrow> login_env \<Rightarrow> (string \<times> string) list \<Rightarrow> string" where
  "signature_of tg env parsed =
     hexdigest tg (hmac_sha256 tg (hmac_sha256 tg ''WebAppData'' (le_bot_token env)) (data_check_string parsed))"

definition parse_unsigned :: "telegram \<Rightarrow> login_env \<Rightarrow> string \<Rightarrow> init_data_error + json_doc" where
  "parse_unsigned tg env init_data =
     (if le_production env then Inl (InitDataError ''unsigned init data is rejected outside development'')
      else case (case map_of (parse_qs init_data) ''user'' of None \<Rightarrow> None | Some u \<Rightarrow> if u = [] then None else json_loads tg u) of
        Some doc \<Rightarrow> Inr doc
      | None \<Rightarrow> (case json_loads tg init_data of
            None \<Rightarrow> Inl (InitDataError ''Cannot parse unsigned init data'') | Some doc \<Rightarrow> Inr doc))"

definition verify_init_data :: "telegram \<Rightarrow> login_env \<Rightarrow> int \<Rightarrow> string \<Rightarrow> init_data_error + json_doc" where
  "verify_init_data tg env now init_data =
     (if le_allow_unsigned_init_data env then parse_unsigned tg env init_data
      else if le_bot_token env = [] then Inl (InitDataError ''BOT_TOKEN is not configured'')
      else let parsed = parse_qs init_data; received_hash = map_of parsed ''hash'';
               items = filter (\<lambda>p. fst p \<noteq> ''hash'') parsed in
      if falsy received_hash then Inl (InitDataError ''hash is missing from init data'')
      else if Some (signature_of tg env items) \<noteq> received_hash then Inl (InitDataError ''init data signature mismatch'')
      else let auth_date_str = map_of items ''auth_date'' in
      if falsy auth_date_str then Inl (InitDataError ''auth_date is missing from init data'')
      else case python_int (the auth_date_str) of
        None \<Rightarrow> Inl (InitDataError ''init data auth_date is not numeric'')
      | Some auth_date \<Rightarrow>
      if 300 < auth_date - now then Inl (InitDataError ''init data auth_date is in the future'')
      else if le_init_data_max_age_seconds env < now - auth_date then Inl (InitDataError ''init data expired'')
      else let user_json = map_of items ''user'' in
      if falsy user_json then Inl (InitDataError ''user field missing from init data'')
      else case json_loads tg (the user_json) of None \<Rightarrow> Inl JSONDecodeError | Some doc \<Rightarrow> Inr doc)"

section \<open>The caller's address\<close>

text \<open>\<open>trusted peer\<close>: the peer is an address in one of the networks of \<open>TRUSTED_PROXIES\<close>; no network is
  configured by default, and then nobody is.\<close>

definition client_ip :: "(string \<Rightarrow> bool) \<Rightarrow> string option \<Rightarrow> string option \<Rightarrow> string option \<Rightarrow> string option" where
  "client_ip trusted peer x_forwarded_for x_real_ip =
     (if \<not> falsy peer \<and> trusted (the peer)
      then if \<not> falsy x_forwarded_for then Some (strip (hd (split_on CHR '','' (the x_forwarded_for))))
           else if \<not> falsy x_real_ip then Some (strip (the x_real_ip)) else peer
      else peer)"

section \<open>The user row\<close>

definition LANGUAGE_CODE_MAX_LEN :: nat where "LANGUAGE_CODE_MAX_LEN = 16"

definition normalise_language_code :: "string option \<Rightarrow> string option" where
  "normalise_language_code raw =
     (case raw of None \<Rightarrow> None
      | Some s \<Rightarrow> let code = map to_lower (strip s) in
          if code = [] then None
          else if LANGUAGE_CODE_MAX_LEN < length code then Some (take LANGUAGE_CODE_MAX_LEN code) else Some code)"

definition user_with_tg :: "int \<Rightarrow> world \<Rightarrow> user option" where
  "user_with_tg tg w = tget u_tg_user_id tg (t_users w)"

text \<open>The row of a first insert: what the caller sends, and the defaults of the columns.\<close>

definition new_user_row :: "int \<Rightarrow> int \<Rightarrow> tg_user \<Rightarrow> int \<Rightarrow> string option \<Rightarrow> bool \<Rightarrow> string option \<Rightarrow> user" where
  "new_user_row i tg u now language bump ip =
     \<lparr> u_id = i, u_tg_user_id = tg, u_username = tg_username u, u_display_name = tg_first_name u,
       u_photo_url = tg_photo_url u, u_banner_url = None, u_description = [], u_is_admin = False,
       u_is_arbiter = False, u_deals_total = 0, u_deals_success = 0, u_deals_failed = 0,
       u_deals_arbitrage = 0, u_deals_sum_override = 0, u_good = 0, u_bad = 0, u_pin_hash = None,
       u_pin_attempts = 0, u_pin_locked_until = None, u_pin_reset_code_hash = None,
       u_pin_reset_expires = None, u_pin_session_epoch = 0, u_pin_reset_attempts = 0,
       u_pin_reset_window_started_at = None, u_dm_deals = True, u_dm_deposits = True,
       u_dm_system = True, u_is_anonymous_deals = False, u_is_hidden_profile = False,
       u_is_banned = False, u_ban_reason = None, u_is_frozen = False, u_freeze_reason = None,
       u_is_vip = False, u_last_ip = (if bump then ip else None), u_last_login_at = (if bump then Some now else None),
       u_language_code = language, u_login_count = (if bump then 1 else 0),
       u_sessions_count = (if bump then 1 else 0), u_trust_deposit_balance = 0, u_country = None,
       u_display_currency_code = None, u_rating_manual = None, u_totp_secret = None,
       u_totp_enabled = False, u_totp_last_counter = -1, u_totp_session_epoch = 0,
       u_pin_last_activity_at = None, u_created_at = now \<rparr>"

definition username_taken :: "int \<Rightarrow> string option \<Rightarrow> world \<Rightarrow> bool" where
  "username_taken i name w = (name \<noteq> None \<and> (\<exists>u \<in> set (t_users w). u_id u \<noteq> i \<and> u_username u = name))"

text \<open>\<open>INSERT ... ON CONFLICT (tg_user_id)\<close>: a row with this id is updated or left; otherwise a name
  that another row holds violates the UNIQUE index of the names.\<close>

definition ensure_user_row ::
  "int \<Rightarrow> tg_user \<Rightarrow> int \<Rightarrow> string option \<Rightarrow> bool \<Rightarrow> string option \<Rightarrow> world \<Rightarrow> user result" where
  "ensure_user_row tg u now language bump ip w =
     (case user_with_tg tg w of
        Some row \<Rightarrow>
          if bump then let row' = row \<lparr> u_login_count := u_login_count row + 1, u_sessions_count := u_sessions_count row + 1,
                             u_last_login_at := Some now, u_last_ip := ip \<rparr>; w' = save_user row' w
                       in (Inr (saved row'), w')
          else (Inr row, w)
      | None \<Rightarrow>
          if username_taken (seq_users w) (tg_username u) w then (Inl IntegrityError, w)
          else let row = new_user_row (seq_users w) tg u now language bump ip
               in (Inr row, w \<lparr> t_users := t_users w @ [row], seq_users := seq_users w + 1 \<rparr>))"

section \<open>Signing in\<close>

definition LAST_LOGIN_DEBOUNCE :: int where "LAST_LOGIN_DEBOUNCE = 5 * 60"
definition SESSION_GAP :: int where "SESSION_GAP = 30 * 60"

definition first_admin_username :: "world \<Rightarrow> string option" where
  "first_admin_username w =
     (case sort_key u_id (filter (\<lambda>u. u_is_admin u \<and> u_username u \<noteq> None) (t_users w)) of [] \<Rightarrow> None | u # _ \<Rightarrow> u_username u)"

abbreviation account_banned :: py_error where "account_banned \<equiv> HTTP 403 (E_other ''banned'')"
abbreviation account_frozen :: py_error where "account_frozen \<equiv> HTTP 403 (E_other ''frozen'')"

text \<open>The code, the reason and the administrator to write to.\<close>

definition lockout_detail :: "user \<Rightarrow> world \<Rightarrow> string \<times> string option \<times> string option" where
  "lockout_detail u w =
     (if u_is_banned u then ''banned'' else ''frozen'', if u_is_banned u then u_ban_reason u else u_freeze_reason u,
      first_admin_username w)"

definition build_lockout_exception :: "user \<Rightarrow> world \<Rightarrow> py_error" where
  "build_lockout_exception u w = HTTP 403 (E_other (fst (lockout_detail u w)))"

text \<open>The row after a ping, when the last one is long enough ago.\<close>

definition ping :: "int \<Rightarrow> string option \<Rightarrow> user \<Rightarrow> user" where
  "ping now ip u =
     (let last = u_last_login_at u;
          should_ping = (case last of None \<Rightarrow> True | Some t \<Rightarrow> LAST_LOGIN_DEBOUNCE \<le> now - t);
          is_new_session = (case last of None \<Rightarrow> True | Some t \<Rightarrow> SESSION_GAP \<le> now - t)
      in if should_ping
         then u \<lparr> u_last_login_at := Some now, u_login_count := u_login_count u + 1,
                  u_sessions_count := (if is_new_session then u_sessions_count u + 1 else u_sessions_count u),
                  u_last_ip := ip \<rparr>
         else u)"

definition observe :: "tg_user \<Rightarrow> user \<Rightarrow> user" where
  "observe t u =
     (let name = strip (case tg_username t of None \<Rightarrow> [] | Some s \<Rightarrow> s);
          u1 = (if name \<noteq> [] \<and> u_username u \<noteq> Some name then u \<lparr> u_username := Some name \<rparr> else u);
          lang = normalise_language_code (tg_language_code t)
      in if lang \<noteq> None \<and> u_language_code u1 \<noteq> lang then u1 \<lparr> u_language_code := lang \<rparr> else u1)"

definition sign_in :: "int \<Rightarrow> string option \<Rightarrow> int \<Rightarrow> tg_user \<Rightarrow> world \<Rightarrow> user result" where
  "sign_in now ip tg t w =
     (case user_with_tg tg w of
        None \<Rightarrow>
          (case ensure_user_row tg t now (normalise_language_code (tg_language_code t)) True ip w of
             (Inl e, w1) \<Rightarrow> (Inl e, w1)
           | (Inr u, w1) \<Rightarrow> if u_is_banned u \<or> u_is_frozen u then (Inl (build_lockout_exception u w1), w1) else (Inr u, w1))
      | Some u \<Rightarrow>
          if u_is_banned u \<or> u_is_frozen u then (Inl (build_lockout_exception u w), w)
          else let u' = ping now ip (observe t u) in
               if u' = u then (Inr u, w)
               else if u_username u' \<noteq> u_username u \<and> username_taken (u_id u) (u_username u') w then (Inl IntegrityError, w)
               else (Inr u', save_user u' w))"

definition get_current_user ::
  "telegram \<Rightarrow> login_env \<Rightarrow> int \<Rightarrow> string option \<Rightarrow> string option \<Rightarrow> world \<Rightarrow> user result" where
  "get_current_user tg env now ip authorization w =
     (if falsy authorization then (Inl (HTTP 401 (E_other ''no_authorization'')), w)
      else if map to_lower (take 4 (the authorization)) \<noteq> ''tma '' then (Inl (HTTP 401 (E_other ''bad_authorization'')), w)
      else case verify_init_data tg env now (drop 4 (the authorization)) of
        Inl (InitDataError m) \<Rightarrow> (Inl (HTTP 401 (E_other m)), w)
      | Inl JSONDecodeError \<Rightarrow> (Inl (ValueErr (E_other ''JSONDecodeError'')), w)
      | Inr JOther \<Rightarrow> (Inl (RuntimeErr (E_other ''AttributeError'')), w)
      | Inr (JObject t) \<Rightarrow>
          (case tg_id t of
             None \<Rightarrow> (Inl (HTTP 401 (E_other ''no_user_id'')), w)
           | Some i \<Rightarrow> if i = 0 then (Inl (HTTP 401 (E_other ''no_user_id'')), w) else sign_in now ip i t w))"

section \<open>Who gets in\<close>

lemma user_with_tg_in: "user_with_tg tg w = Some u \<Longrightarrow> u \<in> set (t_users w) \<and> u_tg_user_id u = tg"
  unfolding user_with_tg_def by (rule tget_Some)

lemma get_user_member: "tkeys u_id (t_users w) \<Longrightarrow> u \<in> set (t_users w) \<Longrightarrow> get_user (u_id u) w = Some u"
  unfolding get_user_def by (rule tget_in_set)

lemma observe_keeps [simp]:
  "u_id (ping now ip (observe t u)) = u_id u" "u_tg_user_id (ping now ip (observe t u)) = u_tg_user_id u"
  "u_is_admin (ping now ip (observe t u)) = u_is_admin u" "u_is_banned (ping now ip (observe t u)) = u_is_banned u"
  "u_is_frozen (ping now ip (observe t u)) = u_is_frozen u" "u_is_arbiter (ping now ip (observe t u)) = u_is_arbiter u"
  by (simp_all add: ping_def observe_def Let_def)

text \<open>
  C26. What comes in is signed with the bot's token and recent, and the row that comes out is the one
  of the Telegram id that was signed, neither banned nor frozen.\<close>

theorem login_needs_signature:
  assumes "get_current_user tg env now ip authorization w = (Inr u, w')" and "\<not> le_allow_unsigned_init_data env"
    and "tkeys u_id (t_users w)" and "\<forall>x \<in> set (t_users w). u_id x < seq_users w"
  shows "\<exists>a items d user_json t. authorization = Some a \<and> items = filter (\<lambda>p. fst p \<noteq> ''hash'') (parse_qs (drop 4 a))
    \<and> map_of (parse_qs (drop 4 a)) ''hash'' = Some (signature_of tg env items)
    \<and> python_int (the (map_of items ''auth_date'')) = Some d \<and> d \<le> now + 300 \<and> now \<le> d + le_init_data_max_age_seconds env
    \<and> map_of items ''user'' = Some user_json \<and> json_loads tg user_json = Some (JObject t) \<and> tg_id t = Some (u_tg_user_id u)
    \<and> \<not> u_is_banned u \<and> \<not> u_is_frozen u \<and> (\<exists>row. get_user (u_id u) w' = Some row \<and> u_tg_user_id row = u_tg_user_id u)"
proof -
  obtain a t i where a: "authorization = Some a" and v: "verify_init_data tg env now (drop 4 a) = Inr (JObject t)"
    and i: "tg_id t = Some i" and s: "sign_in now ip i t w = (Inr u, w')"
    using assms(1)
    by (auto simp: get_current_user_def falsy_def split: if_splits sum.splits option.splits init_data_error.splits json_doc.splits)
  have row: "u_tg_user_id u = i \<and> \<not> u_is_banned u \<and> \<not> u_is_frozen u \<and> (\<exists>row. get_user (u_id u) w' = Some row \<and> u_tg_user_id row = i)"
  proof (cases "user_with_tg i w")
    case None
    have fresh: "tget u_id (seq_users w) (t_users w) = None" using assms(4) by (force simp: tget_None_iff)
    show ?thesis using s None fresh
      by (auto simp: sign_in_def ensure_user_row_def get_user_def tget_append new_user_row_def Let_def split: if_splits)
  next
    case (Some x)
    note x = user_with_tg_in [OF Some]
    have g: "get_user (u_id x) w = Some x" using get_user_member assms(3) x by blast
    show ?thesis using s Some x g get_saved [OF g]
      by (auto simp: sign_in_def Let_def saved_def split: if_splits)
  qed
  show ?thesis using v assms(2) a i row
    by (auto simp: verify_init_data_def falsy_def Let_def split: if_splits option.splits)
qed

text \<open>A banned or frozen account is turned away with 403 and not a column of it is written.\<close>

theorem blocked_account_is_turned_away:
  assumes "user_with_tg i w = Some u" and "u_is_banned u \<or> u_is_frozen u"
  shows "sign_in now ip i t w = (Inl (if u_is_banned u then account_banned else account_frozen), w)"
  using assms by (simp add: sign_in_def build_lockout_exception_def lockout_detail_def)

text \<open>The first visit makes one row with no privileges; nobody else's row changes.\<close>

theorem first_visit_creates_plain_user:
  assumes "user_with_tg i w = None" and "\<not> username_taken (seq_users w) (tg_username t) w"
  shows "\<exists>u w'. sign_in now ip i t w = (Inr u, w') \<and> t_users w' = t_users w @ [u] \<and> u_tg_user_id u = i
    \<and> \<not> u_is_admin u \<and> \<not> u_is_arbiter u \<and> \<not> u_is_vip u \<and> u_trust_deposit_balance u = 0 \<and> u_pin_hash u = None
    \<and> same_books w' w"
  using assms by (simp add: sign_in_def ensure_user_row_def new_user_row_def same_books_def Let_def)

text \<open>
  C27. Telegram names are given up and taken by others; the rows keep them, under a UNIQUE index. Whoever
  has now the name that another row still holds can neither sign up nor sign in: the write fails on
  every request.
\<close>

theorem reused_username_locks_out:
  assumes "tg_username t = Some name" and "strip name = name" and "name \<noteq> []"
    and "other \<in> set (t_users w)" and "u_username other = Some name" and "u_tg_user_id other \<noteq> i"
    and "tkeys u_id (t_users w)" and "\<forall>x \<in> set (t_users w). u_id x < seq_users w"
    and "\<forall>u. user_with_tg i w = Some u \<longrightarrow> \<not> u_is_banned u \<and> \<not> u_is_frozen u \<and> u_username u \<noteq> Some name"
  shows "sign_in now ip i t w = (Inl IntegrityError, w)"
proof (cases "user_with_tg i w")
  case None
  have "u_id other \<noteq> seq_users w" using assms(4,8) by fastforce
  then have "username_taken (seq_users w) (Some name) w" using assms(4,5) by (auto simp: username_taken_def)
  then show ?thesis using None assms(1) by (simp add: sign_in_def ensure_user_row_def)
next
  case (Some u)
  note u = user_with_tg_in [OF Some]
  have "u_id other \<noteq> u_id u"
    using get_user_member [OF assms(7)] assms(4,6) u by (metis option.inject)
  then have "username_taken (u_id u) (Some name) w" using assms(4,5) by (auto simp: username_taken_def)
  moreover have name: "u_username (ping now ip (observe t u)) = Some name"
    using assms(1-3,9) Some by (simp add: ping_def observe_def Let_def)
  moreover have "ping now ip (observe t u) \<noteq> u" using name assms(9) Some by metis
  ultimately show ?thesis using Some assms(9) by (auto simp: sign_in_def Let_def)
qed

section \<open>Instances\<close>

definition sample_tg_user :: "string \<Rightarrow> int \<Rightarrow> tg_user" where
  "sample_tg_user name i = \<lparr> tg_id = Some i, tg_username = Some name, tg_first_name = name, tg_photo_url = None, tg_language_code = None \<rparr>"

definition sample_telegram :: telegram where
  "sample_telegram = \<lparr> hmac_sha256 = (\<lambda>k m. ''digest''), hexdigest = (\<lambda>d. ''sig''),
     json_loads = (\<lambda>s. Some (JObject (sample_tg_user ''alice'' 1001))) \<rparr>"

definition sample_login_env :: login_env where
  "sample_login_env = \<lparr> le_allow_unsigned_init_data = False, le_bot_token = ''123:ABC'', le_init_data_max_age_seconds = 86400, le_production = True \<rparr>"

lemma sample_parsed: "parse_qs ''user=u&auth_date=100&hash=sig'' = [(''user'', ''u''), (''auth_date'', ''100''), (''hash'', ''sig'')]"
  by (simp add: parse_qs_def split_field_def unquote_plus_def)

lemma sample_verified:
  "verify_init_data sample_telegram sample_login_env 120 ''user=u&auth_date=100&hash=sig'' = Inr (JObject (sample_tg_user ''alice'' 1001))"
proof -
  have "python_int ''100'' = Some 100"
    by (simp add: python_int_def strip_digits is_digit_def unsigned_value_def digit_value_def)
  then show ?thesis
    by (simp add: verify_init_data_def sample_parsed sample_login_env_def sample_telegram_def signature_of_def falsy_def Let_def)
qed

lemma sample_signed_in:
  "\<exists>u w'. get_current_user sample_telegram sample_login_env 120 None (Some ''tma user=u&auth_date=100&hash=sig'') sample_world = (Inr u, w')"
proof -
  have "user_with_tg 1001 sample_world = Some sample_buyer"
    by (simp add: user_with_tg_def sample_rows sample_user_rows)
  then show ?thesis
    using sample_verified
    by (simp add: get_current_user_def falsy_def to_lower_def sample_tg_user_def sign_in_def sample_user_rows observe_def ping_def strip_def is_space_def
        normalise_language_code_def Let_def)
qed

lemma sample_users: "tkeys u_id (t_users sample_world)" "\<forall>x \<in> set (t_users sample_world). u_id x < seq_users sample_world"
  by (simp_all add: sample_rows sample_user_rows tkeys_def sample_world_def)

lemma login_needs_signature_witness:
  "\<exists>u w' row. get_current_user sample_telegram sample_login_env 120 None (Some ''tma user=u&auth_date=100&hash=sig'') sample_world = (Inr u, w')
     \<and> get_user (u_id u) w' = Some row \<and> \<not> u_is_banned u"
proof -
  obtain u w' where run: "get_current_user sample_telegram sample_login_env 120 None (Some ''tma user=u&auth_date=100&hash=sig'') sample_world = (Inr u, w')"
    using sample_signed_in by blast
  have "\<not> le_allow_unsigned_init_data sample_login_env" by (simp add: sample_login_env_def)
  from login_needs_signature [OF run this sample_users] show ?thesis using run by auto
qed

definition banned_world :: world where "banned_world = save_user (sample_buyer \<lparr> u_is_banned := True \<rparr>) sample_world"

lemma blocked_account_is_turned_away_witness:
  "sign_in 120 None 1001 (sample_tg_user ''alice'' 1001) banned_world = (Inl account_banned, banned_world)"
proof -
  have "user_with_tg 1001 banned_world = Some (saved (sample_buyer \<lparr> u_is_banned := True \<rparr>))"
    by (simp add: user_with_tg_def banned_world_def save_user_def saved_def sample_rows sample_user_rows)
  from blocked_account_is_turned_away [OF this] show ?thesis by (simp add: saved_def)
qed

lemma first_visit_creates_plain_user_witness:
  "\<exists>u w'. sign_in 120 None 7777 (sample_tg_user ''zoe'' 7777) sample_world = (Inr u, w') \<and> u_tg_user_id u = 7777"
  using first_visit_creates_plain_user [of 7777 sample_world "sample_tg_user ''zoe'' 7777" 120 None]
  by (auto simp: user_with_tg_def sample_rows sample_user_rows username_taken_def sample_tg_user_def)

lemma reused_username_locks_out_witness:
  "sign_in 120 None 7777 (sample_tg_user ''alice'' 7777) sample_world = (Inl IntegrityError, sample_world)"
  using reused_username_locks_out [where t = "sample_tg_user ''alice'' 7777" and name = "''alice''" and other = sample_buyer and i = 7777
      and w = sample_world, OF _ _ _ _ _ _ sample_users]
  by (simp add: sample_tg_user_def sample_rows sample_user_rows user_with_tg_def strip_def is_space_def)

end
