(* ===== verification/Profile.thy ===== *)
theory Profile
  imports Login
begin

text \<open>
  The caller's own profile (\<open>backend/app/routers/me.py\<close>), its body (\<open>UserUpdate\<close>, \<open>ForumIn\<close> and the
  link check of \<open>backend/app/schemas.py\<close>) and the profile the others see
  (\<open>backend/app/serializers.py\<close>).
\<close>

section \<open>Links\<close>

definition is_ascii_alpha :: "char \<Rightarrow> bool" where
  "is_ascii_alpha c = (let n = of_char c :: nat in 65 \<le> n \<and> n \<le> 90 \<or> 97 \<le> n \<and> n \<le> 122)"

definition is_ascii_alnum :: "char \<Rightarrow> bool" where
  "is_ascii_alnum c = (is_ascii_alpha c \<or> is_digit c)"

text \<open>What \<open>urlparse\<close> calls scheme and netloc; \<open>bracket_ok\<close> is its check of a bracketed host, which
  raises \<open>ValueError\<close>, here \<open>None\<close>.\<close>

definition url_scheme :: "string \<Rightarrow> string \<times> string" where
  "url_scheme s =
     (let i = length (takeWhile (\<lambda>c. c \<noteq> CHR '':'') s); head = take i s in
      if 0 < i \<and> i < length s \<and> is_ascii_alpha (hd s)
         \<and> list_all (\<lambda>c. is_ascii_alnum c \<or> c \<in> {CHR ''+'', CHR ''-'', CHR ''.''}) head
      then (map to_lower head, drop (i + 1) s) else ([], s))"

definition url_netloc :: "(string \<Rightarrow> bool) \<Rightarrow> string \<Rightarrow> string option" where
  "url_netloc bracket_ok rest =
     (if take 2 rest \<noteq> ''//'' then Some []
      else let netloc = takeWhile (\<lambda>c. c \<notin> {CHR ''/'', CHR ''?'', CHR ''#''}) (drop 2 rest) in
           if (CHR ''['' \<in> set netloc) \<noteq> (CHR '']'' \<in> set netloc) then None
           else if CHR ''['' \<in> set netloc \<and> \<not> bracket_ok netloc then None else Some netloc)"

definition media_prefix :: string where "media_prefix = ''/media/''"

definition is_media_path :: "string \<Rightarrow> bool" where "is_media_path v = (take 7 v = media_prefix)"

text \<open>\<open>None\<close> is a \<open>ValueError\<close>.\<close>

definition validate_https_or_media_url :: "(string \<Rightarrow> bool) \<Rightarrow> nat \<Rightarrow> string \<Rightarrow> string option" where
  "validate_https_or_media_url bracket_ok max_len v0 =
     (let v = strip v0 in
      if v = [] then None
      else if max_len < length v then None
      else if \<exists>ch \<in> set v. (of_char ch :: nat) < 32 \<or> ch = CHR '' '' \<or> ch = CHR 0x7F then None
      else if is_media_path v then Some v
      else let (scheme, rest) = url_scheme v in
      if scheme \<noteq> ''https'' then None
      else case url_netloc bracket_ok rest of
        None \<Rightarrow> None
      | Some host \<Rightarrow> if host = [] then None else if CHR ''@'' \<in> set host then None else Some v)"

section \<open>The body\<close>

record user_update =
  up_display_name :: "string option"
  up_description :: "string option"
  up_banner_url :: "string option"
  up_photo_url :: "string option"
  up_forums :: "(string \<times> string) list option"
  up_dm_deals :: "bool option"
  up_dm_deposits :: "bool option"
  up_dm_system :: "bool option"
  up_is_anonymous_deals :: "bool option"
  up_is_hidden_profile :: "bool option"
  up_country :: "string option"
  up_display_currency_code :: "string option"

text \<open>A validator's answer: \<open>None\<close> refuses the value.\<close>

definition url_field_ok :: "(string \<Rightarrow> bool) \<Rightarrow> string option \<Rightarrow> string option option" where
  "url_field_ok bracket_ok v =
     (case v of None \<Rightarrow> Some None
      | Some s \<Rightarrow> if s = [] then Some (Some []) else map_option Some (validate_https_or_media_url bracket_ok 1024 s))"

definition display_name_ok :: "string option \<Rightarrow> string option option" where
  "display_name_ok v =
     (case v of None \<Rightarrow> Some None | Some s \<Rightarrow> if 64 < length (strip s) then None else Some (Some (strip s)))"

definition description_ok :: "string option \<Rightarrow> string option option" where
  "description_ok v = (case v of None \<Rightarrow> Some None | Some s \<Rightarrow> if 1024 < length s then None else Some (Some s))"

text \<open>The last name of the list, the catch-all, is Cyrillic and appears here by its transliteration.\<close>

definition FORUM_WHITELIST :: "string list" where
  "FORUM_WHITELIST = [''Darkmoney'', ''Probiv'', ''Verified'', ''DarkNet'', ''Lolzteam'', ''Maza'', ''Korovka'',
     ''Carder.market'', ''Drugoe'']"

definition forum_in_ok :: "(string \<Rightarrow> bool) \<Rightarrow> string \<times> string \<Rightarrow> (string \<times> string) option" where
  "forum_in_ok bracket_ok f =
     (let name = strip (fst f) in
      if name = [] \<or> 64 < length name \<or> name \<notin> set FORUM_WHITELIST then None
      else case validate_https_or_media_url bracket_ok 512 (snd f) of
        None \<Rightarrow> None | Some url \<Rightarrow> if is_media_path url then None else Some (name, url))"

fun all_ok :: "('a \<Rightarrow> 'b option) \<Rightarrow> 'a list \<Rightarrow> 'b list option" where
  "all_ok f [] = Some []"
| "all_ok f (x # xs) = (case f x of None \<Rightarrow> None | Some y \<Rightarrow> (case all_ok f xs of None \<Rightarrow> None | Some ys \<Rightarrow> Some (y # ys)))"

definition forums_ok :: "(string \<Rightarrow> bool) \<Rightarrow> (string \<times> string) list option \<Rightarrow> (string \<times> string) list option option" where
  "forums_ok bracket_ok v =
     (case v of None \<Rightarrow> Some None
      | Some fs \<Rightarrow> if 10 < length fs then None else map_option Some (all_ok (forum_in_ok bracket_ok) fs))"

definition country_ok :: "string option \<Rightarrow> string option option" where
  "country_ok v =
     (if falsy v then Some None
      else let s = strip (the v) in
           if length s \<noteq> 2 \<or> \<not> list_all is_ascii_alpha s then None else Some (Some (map to_upper s)))"

definition display_currency_code_ok :: "string option \<Rightarrow> string option option" where
  "display_currency_code_ok v =
     (if falsy v then Some None
      else let s = strip (the v) in
           if s = [] then Some None
           else if 8 < length s \<or> \<not> list_all is_ascii_alnum s then None else Some (Some (map to_upper s)))"

definition user_update_validated :: "(string \<Rightarrow> bool) \<Rightarrow> user_update \<Rightarrow> user_update option" where
  "user_update_validated bracket_ok b =
     (case (display_name_ok (up_display_name b), description_ok (up_description b), url_field_ok bracket_ok (up_banner_url b),
            url_field_ok bracket_ok (up_photo_url b), forums_ok bracket_ok (up_forums b), country_ok (up_country b),
            display_currency_code_ok (up_display_currency_code b)) of
        (Some dn, Some de, Some ba, Some ph, Some fo, Some co, Some cu) \<Rightarrow>
          Some (b \<lparr> up_display_name := dn, up_description := de, up_banner_url := ba, up_photo_url := ph,
                    up_forums := fo, up_country := co, up_display_currency_code := cu \<rparr>)
      | _ \<Rightarrow> None)"

section \<open>Updating the profile\<close>

definition none_if_empty :: "string \<Rightarrow> string option" where
  "none_if_empty s = (if s = [] then None else Some s)"

definition given :: "'a option \<Rightarrow> 'a \<Rightarrow> 'a" where
  "given v old = (case v of None \<Rightarrow> old | Some x \<Rightarrow> x)"

text \<open>The forums that stay: the first row of each wanted name and link.\<close>

fun kept_forums :: "(string \<times> string) list \<Rightarrow> (string \<times> string) list \<Rightarrow> forum list \<Rightarrow> forum list" where
  "kept_forums desired kept [] = []"
| "kept_forums desired kept (f # fs) =
     (let key = (fo_name f, fo_url f) in
      if key \<in> set desired \<and> key \<notin> set kept then f # kept_forums desired (key # kept) fs
      else kept_forums desired kept fs)"

fun add_forums :: "int \<Rightarrow> (string \<times> string) list \<Rightarrow> (string \<times> string) list \<Rightarrow> int \<Rightarrow> forum list" where
  "add_forums owner kept [] i = []"
| "add_forums owner kept (key # keys) i =
     (if key \<in> set kept then add_forums owner kept keys i
      else \<lparr> fo_id = i, fo_owner_id = owner, fo_name = fst key, fo_url = snd key \<rparr> # add_forums owner (key # kept) keys (i + 1))"

definition forums_of :: "int \<Rightarrow> world \<Rightarrow> forum list" where
  "forums_of i w = filter (\<lambda>f. fo_owner_id f = i) (t_forums w)"

definition replace_forums :: "int \<Rightarrow> (string \<times> string) list \<Rightarrow> world \<Rightarrow> world" where
  "replace_forums i desired w =
     (let kept = kept_forums desired [] (forums_of i w);
          new = add_forums i (map (\<lambda>f. (fo_name f, fo_url f)) kept) desired (seq_forums w)
      in w \<lparr> t_forums := filter (\<lambda>f. fo_owner_id f \<noteq> i \<or> f \<in> set kept) (t_forums w) @ new,
             seq_forums := seq_forums w + int (length new) \<rparr>)"

definition fiat_currency :: "string \<Rightarrow> world \<Rightarrow> currency option" where
  "fiat_currency code w = List.find (\<lambda>c. c_code c = code \<and> c_is_active c \<and> c_kind c = K_fiat) (t_currencies w)"

definition updated_user :: "user_update \<Rightarrow> user \<Rightarrow> user" where
  "updated_user b u = u \<lparr> u_display_name := given (up_display_name b) (u_display_name u),
     u_description := given (up_description b) (u_description u),
     u_banner_url := given (map_option none_if_empty (up_banner_url b)) (u_banner_url u),
     u_photo_url := given (map_option none_if_empty (up_photo_url b)) (u_photo_url u),
     u_dm_deals := given (up_dm_deals b) (u_dm_deals u), u_dm_deposits := given (up_dm_deposits b) (u_dm_deposits u),
     u_dm_system := given (up_dm_system b) (u_dm_system u),
     u_is_anonymous_deals := given (up_is_anonymous_deals b) (u_is_anonymous_deals u),
     u_is_hidden_profile := given (up_is_hidden_profile b) (u_is_hidden_profile u),
     u_country := (case up_country b of None \<Rightarrow> u_country u | Some c \<Rightarrow> Some c) \<rparr>"

definition update_me :: "user_update \<Rightarrow> user \<Rightarrow> world \<Rightarrow> user result" where
  "update_me b u w =
     (let u1 = updated_user b u;
          w1 = (case up_forums b of None \<Rightarrow> w | Some desired \<Rightarrow> replace_forums (u_id u) desired w)
      in case up_display_currency_code b of
        None \<Rightarrow> (Inr u1, save_user u1 w1)
      | Some code \<Rightarrow>
          if code = [] then let u2 = u1 \<lparr> u_display_currency_code := None \<rparr> in (Inr u2, save_user u2 w1)
          else case fiat_currency code w of
            None \<Rightarrow> (Inl (HTTP 400 (E_other ''currency_unavailable'')), w)
          | Some row \<Rightarrow> let u2 = u1 \<lparr> u_display_currency_code := Some (c_code row) \<rparr> in (Inr u2, save_user u2 w1))"

text \<open>The endpoint: a body that the validators refuse is a 422.\<close>

definition patch_me :: "(string \<Rightarrow> bool) \<Rightarrow> user_update \<Rightarrow> user \<Rightarrow> world \<Rightarrow> user result" where
  "patch_me bracket_ok b u w =
     (case user_update_validated bracket_ok b of
        None \<Rightarrow> (Inl (HTTP 422 (E_other ''validation'')), w) | Some b' \<Rightarrow> update_me b' u w)"

section \<open>What others see\<close>

datatype prefix = PrefixAdmin | PrefixArbiter | PrefixVip

definition prefix_for :: "user \<Rightarrow> prefix option" where
  "prefix_for u = (if u_is_admin u then Some PrefixAdmin else if u_is_arbiter u then Some PrefixArbiter
     else if u_is_vip u then Some PrefixVip else None)"

definition admin_level :: "user \<Rightarrow> nat" where
  "admin_level u = (if u_is_admin u then 5 else if u_is_arbiter u then 3 else if u_is_vip u then 2 else 0)"

text \<open>\<open>round(good / total * 5, 1)\<close> in floating point is the parameter \<open>rate\<close>.\<close>

definition rating_of :: "(int \<Rightarrow> int \<Rightarrow> decimal) \<Rightarrow> user \<Rightarrow> decimal" where
  "rating_of rate u =
     (let total = (if u_good u + u_bad u = 0 then 1 else u_good u + u_bad u) in
      case u_rating_manual u of Some r \<Rightarrow> r | None \<Rightarrow> rate (u_good u) total)"

record public_profile =
  pp_id :: int
  pp_username :: string
  pp_display_name :: string
  pp_photo_url :: "string option"
  pp_banner_url :: "string option"
  pp_deposit :: decimal
  pp_description :: string
  pp_prefix :: "prefix option"
  pp_is_admin :: bool
  pp_is_arbiter :: bool
  pp_is_vip :: bool
  pp_admin :: nat
  pp_good :: int
  pp_bad :: int
  pp_rating :: decimal
  pp_reviews_count :: int
  pp_deals_count :: int
  pp_deals_success :: int
  pp_deals_failed :: int
  pp_deals_arbitrage :: int
  pp_deals_sum :: decimal
  pp_online :: bool
  pp_forums :: "(string \<times> string) list"
  pp_is_anonymous_deals :: bool
  pp_is_hidden_profile :: bool
  pp_country :: "string option"

definition ONLINE_THRESHOLD :: int where "ONLINE_THRESHOLD = 5 * 60"

definition common_user_fields ::
  "(int \<Rightarrow> int \<Rightarrow> decimal) \<Rightarrow> int \<Rightarrow> forum list \<Rightarrow> decimal option \<Rightarrow> decimal \<Rightarrow> user \<Rightarrow> public_profile" where
  "common_user_fields rate now forums deposit deals_sum u =
     \<lparr> pp_id = u_id u, pp_username = given (u_username u) [], pp_display_name = u_display_name u,
       pp_photo_url = u_photo_url u, pp_banner_url = u_banner_url u,
       pp_deposit = given deposit (u_trust_deposit_balance u), pp_description = u_description u,
       pp_prefix = prefix_for u,
       pp_is_admin = u_is_admin u, pp_is_arbiter = u_is_arbiter u, pp_is_vip = u_is_vip u, pp_admin = admin_level u, pp_good = u_good u, pp_bad = u_bad u,
       pp_rating = rating_of rate u, pp_reviews_count = u_good u + u_bad u, pp_deals_count = u_deals_total u,
       pp_deals_success = u_deals_success u, pp_deals_failed = u_deals_failed u, pp_deals_arbitrage = u_deals_arbitrage u,
       pp_deals_sum = (if deals_sum = 0 then u_deals_sum_override u else deals_sum),
       pp_online = (case u_last_login_at u of None \<Rightarrow> False | Some t \<Rightarrow> now - t < ONLINE_THRESHOLD),
       pp_forums = map (\<lambda>f. (fo_name f, fo_url f)) forums,
       pp_is_anonymous_deals = u_is_anonymous_deals u, pp_is_hidden_profile = u_is_hidden_profile u,
       pp_country = u_country u \<rparr>"

definition user_to_public_out :: "(int \<Rightarrow> int \<Rightarrow> decimal) \<Rightarrow> int \<Rightarrow> user \<Rightarrow> world \<Rightarrow> public_profile" where
  "user_to_public_out rate now u w = common_user_fields rate now (forums_of (u_id u) w) None 0 u"

record own_profile =
  op_base :: public_profile
  op_user_id :: int
  op_is_banned :: bool
  op_is_frozen :: bool
  op_dm_deals :: bool
  op_dm_deposits :: bool
  op_dm_system :: bool
  op_display_currency_code :: "string option"

definition user_to_out :: "(int \<Rightarrow> int \<Rightarrow> decimal) \<Rightarrow> int \<Rightarrow> user \<Rightarrow> world \<Rightarrow> own_profile" where
  "user_to_out rate now u w =
     \<lparr> op_base = common_user_fields rate now (forums_of (u_id u) w) None 0 u, op_user_id = u_tg_user_id u,
       op_is_banned = u_is_banned u, op_is_frozen = u_is_frozen u, op_dm_deals = u_dm_deals u,
       op_dm_deposits = u_dm_deposits u, op_dm_system = u_dm_system u,
       op_display_currency_code = u_display_currency_code u \<rparr>"

definition get_me :: "(int \<Rightarrow> int \<Rightarrow> decimal) \<Rightarrow> int \<Rightarrow> user \<Rightarrow> world \<Rightarrow> own_profile" where
  "get_me rate now u w = user_to_out rate now u w"

section \<open>What an update does\<close>

lemma all_ok_map: "all_ok f xs = Some ys \<Longrightarrow> length ys = length xs \<and> (\<forall>y \<in> set ys. \<exists>x \<in> set xs. f x = Some y)"
  by (induction xs arbitrary: ys) (auto split: option.splits)

text \<open>A link that is stored is a path of the server's own media or an https address with a host, no
  user part, no blank and no control character in it.\<close>

theorem stored_links_are_safe:
  assumes "validate_https_or_media_url bracket_ok n v0 = Some v"
  shows "v \<noteq> [] \<and> length v \<le> n \<and> (\<forall>ch \<in> set v. 32 < (of_char ch :: nat) \<and> ch \<noteq> CHR 0x7F)
    \<and> (is_media_path v \<or> (\<exists>rest host. url_scheme v = (''https'', rest) \<and> url_netloc bracket_ok rest = Some host \<and> host \<noteq> [] \<and> CHR ''@'' \<notin> set host))"
proof -
  have "(of_char (CHR '' '') :: nat) = 32" by simp
  then have space: "(of_char ch :: nat) = 32 \<Longrightarrow> ch = CHR '' ''" for ch
    by (metis of_char_eq_iff)
  let ?s = "strip v0"
  have "\<not> (\<exists>ch \<in> set ?s. (of_char ch :: nat) < 32 \<or> ch = CHR '' '' \<or> ch = CHR 0x7F)"
    using assms unfolding validate_https_or_media_url_def Let_def by (simp split: if_splits)
  then have "\<forall>ch \<in> set ?s. 32 < (of_char ch :: nat) \<and> ch \<noteq> CHR 0x7F"
    using space by (metis linorder_neqE_nat)
  moreover have "v = ?s"
    using assms unfolding validate_https_or_media_url_def Let_def by (simp split: if_splits prod.splits option.splits)
  moreover have "?s \<noteq> []" "length ?s \<le> n"
    using assms unfolding validate_https_or_media_url_def Let_def by (simp_all split: if_splits)
  moreover have "is_media_path ?s \<or> (\<exists>rest host. url_scheme ?s = (''https'', rest) \<and> url_netloc bracket_ok rest = Some host \<and> host \<noteq> [] \<and> CHR ''@'' \<notin> set host)"
    using assms unfolding validate_https_or_media_url_def Let_def by (simp split: if_splits prod.splits option.splits)
  ultimately show ?thesis by simp
qed

text \<open>
  No request clears the country or the display currency: the validators turn the empty string, which
  is meant to clear them, into \<open>None\<close>, and for the handler \<open>None\<close> is a field that was not sent.
\<close>

theorem profile_fields_cannot_be_cleared:
  assumes "patch_me bracket_ok b u w = (Inr u', w')" and "up_country b = Some []" and "up_display_currency_code b = Some []"
  shows "u_country u' = u_country u \<and> u_display_currency_code u' = u_display_currency_code u"
  using assms
  by (auto simp: patch_me_def user_update_validated_def country_ok_def display_currency_code_ok_def falsy_def update_me_def updated_user_def Let_def
      split: option.splits)

lemma country_ok_stores_code:
  "country_ok v = Some (Some c) \<Longrightarrow> length c = 2 \<and> (\<forall>x \<in> set c. 65 \<le> (of_char x :: nat) \<and> (of_char x :: nat) \<le> 90)"
  by (auto simp: country_ok_def is_ascii_alpha_def to_upper_def list_all_iff Let_def split: if_splits)

lemma kept_forums_keys:
  "set (map (\<lambda>f. (fo_name f, fo_url f)) (kept_forums desired kept fs))
     = {k. k \<in> set desired \<and> k \<notin> set kept \<and> (\<exists>f \<in> set fs. (fo_name f, fo_url f) = k)}
   \<and> distinct (map (\<lambda>f. (fo_name f, fo_url f)) (kept_forums desired kept fs)) \<and> set (kept_forums desired kept fs) \<subseteq> set fs"
proof (induction fs arbitrary: kept)
  case (Cons f fs)
  let ?k = "(fo_name f, fo_url f)"
  show ?case
  proof (cases "?k \<in> set desired \<and> ?k \<notin> set kept")
    case True
    note IH = Cons.IH [of "?k # kept"]
    have "?k \<notin> set (map (\<lambda>f. (fo_name f, fo_url f)) (kept_forums desired (?k # kept) fs))" using IH by auto
    moreover have eq: "kept_forums desired kept (f # fs) = f # kept_forums desired (?k # kept) fs" using True by simp
    ultimately show ?thesis using IH True unfolding eq by (intro conjI) (simp_all, auto)
  next
    case False
    then have eq: "kept_forums desired kept (f # fs) = kept_forums desired kept fs" unfolding kept_forums.simps Let_def by (rule if_not_P)
    show ?thesis using Cons.IH [of kept] False unfolding eq by (intro conjI) auto
  qed
qed simp

lemma add_forums_keys:
  "set (map (\<lambda>f. (fo_name f, fo_url f)) (add_forums owner kept keys i)) = set keys - set kept
   \<and> distinct (map (\<lambda>f. (fo_name f, fo_url f)) (add_forums owner kept keys i)) \<and> (\<forall>f \<in> set (add_forums owner kept keys i). fo_owner_id f = owner)"
proof (induction keys arbitrary: kept i)
  case (Cons k keys)
  show ?case
  proof (cases "k \<in> set kept")
    case True
    then show ?thesis using Cons.IH [of kept i] by auto
  next
    case False
    have "k \<notin> set (map (\<lambda>f. (fo_name f, fo_url f)) (add_forums owner (k # kept) keys (i + 1)))"
      using Cons.IH [of "k # kept" "i + 1"] by auto
    then show ?thesis using Cons.IH [of "k # kept" "i + 1"] False by (intro conjI) (simp_all, auto)
  qed
qed simp

lemma kept_forums_filter:
  "distinct fs \<Longrightarrow> filter (\<lambda>f. f \<in> set (kept_forums desired kept fs)) fs = kept_forums desired kept fs"
proof (induction fs arbitrary: kept)
  case (Cons f fs)
  let ?k = "(fo_name f, fo_url f)"
  show ?case
  proof (cases "?k \<in> set desired \<and> ?k \<notin> set kept")
    case True
    have eq: "kept_forums desired kept (f # fs) = f # kept_forums desired (?k # kept) fs" using True by simp
    have "filter (\<lambda>g. g = f \<or> g \<in> set (kept_forums desired (?k # kept) fs)) fs
        = filter (\<lambda>g. g \<in> set (kept_forums desired (?k # kept) fs)) fs"
      using Cons.prems by (intro filter_cong) auto
    then show ?thesis using Cons.IH [of "?k # kept"] Cons.prems unfolding eq by simp
  next
    case False
    then have eq: "kept_forums desired kept (f # fs) = kept_forums desired kept fs" unfolding kept_forums.simps Let_def by (rule if_not_P)
    have "f \<notin> set (kept_forums desired kept fs)" using kept_forums_keys [of desired kept fs] Cons.prems by auto
    then show ?thesis using Cons.IH [of kept] Cons.prems unfolding eq by simp
  qed
qed simp

lemma distinct_completion:
  "distinct k \<Longrightarrow> set k \<subseteq> D \<Longrightarrow> distinct n \<Longrightarrow> set n = D - set k \<Longrightarrow> set (k @ n) = D \<and> distinct (k @ n)"
  by auto

lemma replaced_table:
  "t_forums (replace_forums i desired w) = filter (\<lambda>f. fo_owner_id f \<noteq> i \<or> f \<in> set (kept_forums desired [] (forums_of i w))) (t_forums w)
     @ add_forums i (map (\<lambda>f. (fo_name f, fo_url f)) (kept_forums desired [] (forums_of i w))) desired (seq_forums w)"
  by (simp add: replace_forums_def Let_def)

lemma add_forums_own: "filter (\<lambda>f. fo_owner_id f = i) (add_forums i kept keys n) = add_forums i kept keys n"
  by (induction keys arbitrary: kept n) auto

lemma add_forums_others: "j \<noteq> i \<Longrightarrow> filter (\<lambda>f. fo_owner_id f = j) (add_forums i kept keys n) = []"
  by (induction keys arbitrary: kept n) auto

lemma replace_forums_rows:
  assumes "distinct (t_forums w)"
  shows "forums_of i (replace_forums i desired w)
     = kept_forums desired [] (forums_of i w)
       @ add_forums i (map (\<lambda>f. (fo_name f, fo_url f)) (kept_forums desired [] (forums_of i w))) desired (seq_forums w)"
proof -
  let ?kept = "kept_forums desired [] (forums_of i w)"
  have "filter (\<lambda>f. fo_owner_id f = i) (filter (\<lambda>f. fo_owner_id f \<noteq> i \<or> f \<in> set ?kept) (t_forums w))
      = filter (\<lambda>f. f \<in> set ?kept) (forums_of i w)"
    unfolding forums_of_def by (simp, intro filter_cong) auto
  also have "\<dots> = ?kept" using assms by (intro kept_forums_filter) (simp add: forums_of_def)
  finally have "filter (\<lambda>f. fo_owner_id f = i) (filter (\<lambda>f. fo_owner_id f \<noteq> i \<or> f \<in> set ?kept) (t_forums w)) = ?kept" .
  then show ?thesis
    by (simp only: forums_of_def [of i "replace_forums i desired w"] replaced_table filter_append add_forums_own)
qed

lemma replace_forums_others:
  assumes "j \<noteq> i"
  shows "forums_of j (replace_forums i desired w) = forums_of j w"
proof -
  have "filter (\<lambda>f. fo_owner_id f = j) (filter (\<lambda>f. fo_owner_id f \<noteq> i \<or> f \<in> K) fs) = filter (\<lambda>f. fo_owner_id f = j) fs" for K fs
    using assms by (induction fs) auto
  note drop = this
  show ?thesis
    by (simp only: replaced_table forums_of_def [of j] filter_append drop add_forums_others [OF assms] append_Nil2)
qed

text \<open>
  After an accepted update the caller's forums are exactly the names and links of the body, each once,
  a row that stays wanted stays as it is, and nobody else's rows are touched.
\<close>

theorem forums_become_the_body:
  assumes "distinct (t_forums w)" and "update_me b u w = (Inr u', w')" and "up_forums b = Some desired"
  shows "set (map (\<lambda>f. (fo_name f, fo_url f)) (forums_of (u_id u) w')) = set desired
    \<and> distinct (map (\<lambda>f. (fo_name f, fo_url f)) (forums_of (u_id u) w'))
    \<and> set (kept_forums desired [] (forums_of (u_id u) w)) \<subseteq> set (forums_of (u_id u) w')
    \<and> (\<forall>j. j \<noteq> u_id u \<longrightarrow> forums_of j w' = forums_of j w)"
proof -
  let ?i = "u_id u" and ?key = "\<lambda>f. (fo_name f, fo_url f)"
  let ?kept = "kept_forums desired [] (forums_of ?i w)"
  let ?new = "add_forums ?i (map ?key ?kept) desired (seq_forums w)"
  have eq: "t_forums w' = t_forums (replace_forums ?i desired w)"
    using assms(2,3) by (auto simp: update_me_def Let_def save_user_def split: if_splits option.splits)
  then have rows: "forums_of j w' = forums_of j (replace_forums ?i desired w)" for j by (simp add: forums_of_def)
  note kept = kept_forums_keys [of desired "[]" "forums_of ?i w"]
  note new = add_forums_keys [of ?i "map ?key ?kept" desired "seq_forums w"]
  have "distinct (map ?key ?kept)" by (rule conjunct1 [OF conjunct2 [OF kept]])
  moreover have "set (map ?key ?kept) \<subseteq> set desired" unfolding conjunct1 [OF kept] by (rule Collect_conj_eq [THEN equalityD1, THEN order_trans]) simp
  ultimately have "set (map ?key (?kept @ ?new)) = set desired \<and> distinct (map ?key (?kept @ ?new))"
    unfolding map_append by (rule distinct_completion) (rule conjunct1 [OF conjunct2 [OF new]], rule conjunct1 [OF new])
  then show ?thesis using rows replace_forums_rows [OF assms(1), of ?i desired] replace_forums_others [of _ ?i desired w] by simp
qed

section \<open>Sample requests\<close>

definition empty_update :: user_update where
  "empty_update = \<lparr> up_display_name = None, up_description = None, up_banner_url = None, up_photo_url = None,
     up_forums = None, up_dm_deals = None, up_dm_deposits = None, up_dm_system = None,
     up_is_anonymous_deals = None, up_is_hidden_profile = None, up_country = None, up_display_currency_code = None \<rparr>"

definition forum_world :: world where
  "forum_world = sample_world \<lparr> t_forums := [\<lparr> fo_id = 1, fo_owner_id = 1, fo_name = ''Maza'', fo_url = ''https://m.example'' \<rparr>,
     \<lparr> fo_id = 2, fo_owner_id = 1, fo_name = ''Probiv'', fo_url = ''https://p.example'' \<rparr>,
     \<lparr> fo_id = 3, fo_owner_id = 2, fo_name = ''Maza'', fo_url = ''https://n.example'' \<rparr>], seq_forums := 4 \<rparr>"

definition forum_body :: user_update where
  "forum_body = empty_update \<lparr> up_forums := Some [(''Probiv'', ''https://p.example''), (''Verified'', ''https://v.example'')] \<rparr>"

lemma stored_links_are_safe_witness:
  "is_media_path ''https://a.example/b'' \<or> (\<exists>rest host. url_scheme ''https://a.example/b'' = (''https'', rest)
     \<and> url_netloc (\<lambda>s. False) rest = Some host \<and> host \<noteq> [] \<and> CHR ''@'' \<notin> set host)"
proof -
  have "validate_https_or_media_url (\<lambda>s. False) 64 '' https://a.example/b'' = Some ''https://a.example/b''" by code_simp
  from stored_links_are_safe [OF this] show ?thesis by blast
qed

lemma profile_fields_cannot_be_cleared_witness:
  "\<exists>u' w'. patch_me (\<lambda>s. False) (empty_update \<lparr> up_country := Some [], up_display_currency_code := Some [] \<rparr>)
      (sample_buyer \<lparr> u_country := Some ''RU'' \<rparr>) sample_world = (Inr u', w') \<and> u_country u' = Some ''RU''"
proof -
  let ?b = "empty_update \<lparr> up_country := Some [], up_display_currency_code := Some [] \<rparr>" and ?u = "sample_buyer \<lparr> u_country := Some ''RU'' \<rparr>"
  obtain u' w' where p: "patch_me (\<lambda>s. False) ?b ?u sample_world = (Inr u', w')"
    by (simp add: patch_me_def user_update_validated_def empty_update_def display_name_ok_def description_ok_def url_field_ok_def forums_ok_def
        country_ok_def display_currency_code_ok_def falsy_def update_me_def Let_def)
  from profile_fields_cannot_be_cleared [OF p] show ?thesis using p by (simp add: empty_update_def)
qed

lemma forums_become_the_body_witness:
  "\<exists>w'. update_me forum_body sample_buyer forum_world = (Inr sample_buyer, w')
     \<and> set (map (\<lambda>f. (fo_name f, fo_url f)) (forums_of 1 w')) = {(''Probiv'', ''https://p.example''), (''Verified'', ''https://v.example'')}
     \<and> forums_of 2 w' = forums_of 2 forum_world"
proof -
  obtain u' w' where up: "update_me forum_body sample_buyer forum_world = (Inr u', w')"
    by (simp add: update_me_def forum_body_def empty_update_def Let_def)
  moreover have "u' = sample_buyer"
    using up by (auto simp: update_me_def forum_body_def empty_update_def updated_user_def given_def Let_def)
  moreover have "u_id sample_buyer = 1" "distinct (t_forums forum_world)"
    by (simp_all add: sample_buyer_def sample_user_def forum_world_def)
  moreover have "up_forums forum_body = Some [(''Probiv'', ''https://p.example''), (''Verified'', ''https://v.example'')]" by (simp add: forum_body_def)
  ultimately show ?thesis using forums_become_the_body [of forum_world forum_body sample_buyer u' w'] by simp
qed

end
