(* ===== verification/Admin_Users.thy ===== *)
theory Admin_Users
  imports Profile
begin

text \<open>
  The admin's user management (\<open>backend/app/routers/admin/users.py\<close>, its bodies in
  \<open>backend/app/schemas.py\<close> and \<open>state_change_payload\<close> of \<open>backend/app/admin_audit.py\<close>): ban, freeze,
  PIN reset, session revocation, roles, rating, statistics and trust deposit, each with its audit row
  and its notice. Russian texts of the messages appear by a tag.
\<close>

section \<open>Bodies\<close>

text \<open>The answer of a validator: \<open>None\<close> refuses the value (422).\<close>

definition reason_ok :: "string option \<Rightarrow> string option option" where
  "reason_ok v =
     (case v of
        None \<Rightarrow> Some None
      | Some s \<Rightarrow> let r = strip s in if r = [] then Some None else if 500 < length r then None else Some (Some r))"

record role_flags =
  rf_is_admin :: bool
  rf_is_arbiter :: bool
  rf_is_vip :: bool

text \<open>A rating of the body is a float; \<open>round(v, 1)\<close> is the parameter \<open>round1\<close>.\<close>

definition rating_ok :: "(decimal \<Rightarrow> decimal) \<Rightarrow> decimal option \<Rightarrow> decimal option option" where
  "rating_ok round1 v =
     (case v of None \<Rightarrow> Some None | Some r \<Rightarrow> if r < 0 \<or> 5 < r then None else Some (Some (round1 r)))"

record stats_in =
  si_deals_total :: "int option"
  si_deals_success :: "int option"
  si_deals_failed :: "int option"
  si_deals_arbitrage :: "int option"
  si_good :: "int option"
  si_bad :: "int option"
  si_deals_sum_override :: "decimal option"

definition non_negative :: "'a::linordered_idom option \<Rightarrow> bool" where
  "non_negative v = (case v of None \<Rightarrow> True | Some x \<Rightarrow> 0 \<le> x)"

definition stats_ok :: "stats_in \<Rightarrow> bool" where
  "stats_ok b = (non_negative (si_deals_total b) \<and> non_negative (si_deals_success b) \<and> non_negative (si_deals_failed b)
     \<and> non_negative (si_deals_arbitrage b) \<and> non_negative (si_good b) \<and> non_negative (si_bad b)
     \<and> non_negative (si_deals_sum_override b))"

section \<open>Audit payloads\<close>

definition side_keys :: "meta option \<Rightarrow> string list" where
  "side_keys side = (case side of None \<Rightarrow> [] | Some m \<Rightarrow> map fst m)"

definition side_get :: "meta option \<Rightarrow> string \<Rightarrow> meta_value option" where
  "side_get side k = (case side of None \<Rightarrow> None | Some m \<Rightarrow> map_of m k)"

definition diff_keys :: "meta option \<Rightarrow> meta option \<Rightarrow> string list" where
  "diff_keys b a = filter (\<lambda>k. side_get b k \<noteq> side_get a k) (sort (remdups (side_keys b @ side_keys a)))"

definition side_value :: "meta option \<Rightarrow> meta_value" where
  "side_value side = (case side of None \<Rightarrow> MNull | Some m \<Rightarrow> MObj m)"

definition state_change_payload :: "meta option \<Rightarrow> meta option \<Rightarrow> meta" where
  "state_change_payload before after =
     [(''before'', side_value before), (''after'', side_value after), (''diff'', MKeys (diff_keys before after))]"

section \<open>Shared helpers\<close>

definition get_user_or_404 :: "int \<Rightarrow> world \<Rightarrow> py_error + user" where
  "get_user_or_404 i w = (case get_user i w of None \<Rightarrow> Inl (HTTP 404 E_user_not_found) | Some u \<Rightarrow> Inr u)"

definition ensure_not_self :: "user \<Rightarrow> user \<Rightarrow> py_error option" where
  "ensure_not_self admin target = (if u_id admin = u_id target then Some (HTTP 400 (E_other ''not_on_self'')) else None)"

definition ensure_not_last_admin :: "user \<Rightarrow> world \<Rightarrow> py_error option" where
  "ensure_not_last_admin target w =
     (if \<not> u_is_admin target then None
      else if length (filter u_is_admin (t_users w)) \<le> 1 then Some (HTTP 400 (E_other ''last_admin'')) else None)"

text \<open>Audit row and notice in the transaction, delivery after the commit.\<close>

definition audit_and_notify ::
  "int \<Rightarrow> user \<Rightarrow> user \<Rightarrow> string \<Rightarrow> string option \<Rightarrow> meta \<Rightarrow> notice option \<Rightarrow> world \<Rightarrow> world" where
  "audit_and_notify now admin target action reason payload dm w =
     (let w1 = log_admin_action admin action ''user'' (u_id target) reason payload w in
      case dm of
        None \<Rightarrow> w1
      | Some n \<Rightarrow> (case notifier_insert now (u_id target) NT_system n None w1 of (p, w2) \<Rightarrow> dispatch_after_commit p w2))"

definition rating_auto :: "(int \<Rightarrow> int \<Rightarrow> decimal) \<Rightarrow> user \<Rightarrow> decimal" where
  "rating_auto rate u = rate (u_good u) (if u_good u + u_bad u = 0 then 1 else u_good u + u_bad u)"

definition opt_str :: "string option \<Rightarrow> meta_value" where
  "opt_str v = (case v of None \<Rightarrow> MNull | Some s \<Rightarrow> MStr s)"

text \<open>The two views of a row.\<close>

record admin_user_detail =
  ad_user :: user
  ad_rating_auto :: decimal
  ad_rating_manual :: "decimal option"
  ad_rating_effective :: decimal
  ad_has_pin :: bool

definition to_detail :: "(int \<Rightarrow> int \<Rightarrow> decimal) \<Rightarrow> user \<Rightarrow> admin_user_detail" where
  "to_detail rate u =
     (let auto = rating_auto rate u; manual = u_rating_manual u in
      \<lparr> ad_user = u, ad_rating_auto = auto, ad_rating_manual = manual,
        ad_rating_effective = (case manual of None \<Rightarrow> auto | Some m \<Rightarrow> m), ad_has_pin = (u_pin_hash u \<noteq> None) \<rparr>)"

record admin_user_item =
  ai_user :: user
  ai_prefix :: "prefix option"
  ai_rating :: decimal

definition to_list_item :: "(int \<Rightarrow> int \<Rightarrow> decimal) \<Rightarrow> user \<Rightarrow> admin_user_item" where
  "to_list_item rate u =
     \<lparr> ai_user = u, ai_prefix = prefix_for u,
       ai_rating = (case u_rating_manual u of None \<Rightarrow> rating_auto rate u | Some m \<Rightarrow> m) \<rparr>"

section \<open>Ban and freeze\<close>

definition ban_user :: "int \<Rightarrow> user \<Rightarrow> int \<Rightarrow> string option \<Rightarrow> world \<Rightarrow> user result" where
  "ban_user now admin i reason w =
     (case get_user_or_404 i w of
        Inl e \<Rightarrow> (Inl e, w)
      | Inr target \<Rightarrow>
     (case ensure_not_self admin target of
        Some e \<Rightarrow> (Inl e, w)
      | None \<Rightarrow>
        let t1 = target \<lparr> u_is_banned := True \<rparr>;
            fresh = (reason \<noteq> None \<and> u_ban_reason target \<noteq> reason);
            t2 = (if fresh then t1 \<lparr> u_ban_reason := reason \<rparr> else t1)
        in if \<not> u_is_banned target \<or> fresh
           then (Inr t2, audit_and_notify now admin t2 ''user.ban'' reason [(''ban_reason'', opt_str reason)]
                           (Some (N_account ''banned'' reason)) (save_user t2 w))
           else (Inr target, w)))"

definition unban_user :: "int \<Rightarrow> user \<Rightarrow> int \<Rightarrow> string option \<Rightarrow> world \<Rightarrow> user result" where
  "unban_user now admin i reason w =
     (case get_user_or_404 i w of
        Inl e \<Rightarrow> (Inl e, w)
      | Inr target \<Rightarrow>
        if u_is_banned target
        then let t = target \<lparr> u_is_banned := False, u_ban_reason := None \<rparr>
             in (Inr t, audit_and_notify now admin t ''user.unban'' reason [] (Some (N_account ''unbanned'' reason)) (save_user t w))
        else (Inr target, w))"

definition freeze_user :: "int \<Rightarrow> user \<Rightarrow> int \<Rightarrow> string option \<Rightarrow> world \<Rightarrow> user result" where
  "freeze_user now admin i reason w =
     (case get_user_or_404 i w of
        Inl e \<Rightarrow> (Inl e, w)
      | Inr target \<Rightarrow>
     (case ensure_not_self admin target of
        Some e \<Rightarrow> (Inl e, w)
      | None \<Rightarrow>
        let t1 = target \<lparr> u_is_frozen := True \<rparr>;
            fresh = (reason \<noteq> None \<and> u_freeze_reason target \<noteq> reason);
            t2 = (if fresh then t1 \<lparr> u_freeze_reason := reason \<rparr> else t1)
        in if \<not> u_is_frozen target \<or> fresh
           then (Inr t2, audit_and_notify now admin t2 ''user.freeze'' reason [(''freeze_reason'', opt_str reason)]
                           (Some (N_account ''frozen'' reason)) (save_user t2 w))
           else (Inr target, w)))"

definition unfreeze_user :: "int \<Rightarrow> user \<Rightarrow> int \<Rightarrow> string option \<Rightarrow> world \<Rightarrow> user result" where
  "unfreeze_user now admin i reason w =
     (case get_user_or_404 i w of
        Inl e \<Rightarrow> (Inl e, w)
      | Inr target \<Rightarrow>
        if u_is_frozen target
        then let t = target \<lparr> u_is_frozen := False, u_freeze_reason := None \<rparr>
             in (Inr t, audit_and_notify now admin t ''user.unfreeze'' reason [] (Some (N_account ''unfrozen'' reason)) (save_user t w))
        else (Inr target, w))"

section \<open>Sessions\<close>

definition reset_pin :: "int \<Rightarrow> user \<Rightarrow> int \<Rightarrow> string option \<Rightarrow> world \<Rightarrow> user result" where
  "reset_pin now admin i reason w =
     (case get_user_or_404 i w of
        Inl e \<Rightarrow> (Inl e, w)
      | Inr target \<Rightarrow>
        if \<not> falsy (u_pin_hash target) \<or> \<not> falsy (u_pin_reset_code_hash target)
        then let t = target \<lparr> u_pin_hash := None, u_pin_attempts := 0, u_pin_locked_until := None,
                       u_pin_reset_code_hash := None, u_pin_reset_expires := None,
                       u_pin_session_epoch := u_pin_session_epoch target + 1 \<rparr>;
                 w1 = audit_and_notify now admin t ''user.reset_pin'' reason
                        [(''pin_session_epoch'', MInt (u_pin_session_epoch t))] (Some (N_account ''pin_reset'' reason)) (save_user t w)
             in (Inr t, emit [Publish (WsPinReset i), CloseSockets i] w1)
        else (Inr target, w))"

definition invalidate_sessions :: "int \<Rightarrow> user \<Rightarrow> int \<Rightarrow> string option \<Rightarrow> world \<Rightarrow> user result" where
  "invalidate_sessions now admin i reason w =
     (case get_user_or_404 i w of
        Inl e \<Rightarrow> (Inl e, w)
      | Inr target \<Rightarrow>
        let t = target \<lparr> u_pin_session_epoch := u_pin_session_epoch target + 1,
                  u_totp_session_epoch := u_totp_session_epoch target + 1 \<rparr>;
            w1 = audit_and_notify now admin t ''user.invalidate_sessions'' reason
                   [(''pin_session_epoch'', MInt (u_pin_session_epoch t)), (''totp_session_epoch'', MInt (u_totp_session_epoch t))]
                   (Some (N_account ''session_ended'' reason)) (save_user t w)
        in (Inr t, emit [CloseSockets i] w1))"

section \<open>Roles\<close>

definition flags_of :: "user \<Rightarrow> role_flags" where
  "flags_of u = \<lparr> rf_is_admin = u_is_admin u, rf_is_arbiter = u_is_arbiter u, rf_is_vip = u_is_vip u \<rparr>"

definition flags_meta :: "role_flags \<Rightarrow> meta" where
  "flags_meta f = [(''is_admin'', MBool (rf_is_admin f)), (''is_arbiter'', MBool (rf_is_arbiter f)), (''is_vip'', MBool (rf_is_vip f))]"

text \<open>The flags that flipped, with their new value; an empty list reads as unchanged.\<close>

definition role_change_body :: "role_flags \<Rightarrow> role_flags \<Rightarrow> (string \<times> bool) list" where
  "role_change_body before after =
     (if rf_is_admin before \<noteq> rf_is_admin after then [(''is_admin'', rf_is_admin after)] else [])
   @ (if rf_is_arbiter before \<noteq> rf_is_arbiter after then [(''is_arbiter'', rf_is_arbiter after)] else [])
   @ (if rf_is_vip before \<noteq> rf_is_vip after then [(''is_vip'', rf_is_vip after)] else [])"

definition set_role :: "int \<Rightarrow> user \<Rightarrow> int \<Rightarrow> role_flags \<Rightarrow> world \<Rightarrow> user result" where
  "set_role now admin i body w =
     (case get_user_or_404 i w of
        Inl e \<Rightarrow> (Inl e, w)
      | Inr target \<Rightarrow>
        if u_id admin = u_id target \<and> flags_of target \<noteq> body then (Inl (HTTP 400 (E_other ''own_role'')), w)
        else case (if u_is_admin target \<and> \<not> rf_is_admin body then ensure_not_last_admin target w else None) of
          Some e \<Rightarrow> (Inl e, w)
        | None \<Rightarrow>
          if flags_of target = body then (Inr target, w)
          else let t = target \<lparr> u_is_admin := rf_is_admin body, u_is_arbiter := rf_is_arbiter body, u_is_vip := rf_is_vip body \<rparr>
               in (Inr t, audit_and_notify now admin t ''user.set_role'' None
                            (state_change_payload (Some (flags_meta (flags_of target))) (Some (flags_meta body)))
                            (Some (N_role (role_change_body (flags_of target) body))) (save_user t w)))"

section \<open>Rating, statistics, trust deposit\<close>

definition opt_dec :: "decimal option \<Rightarrow> meta_value" where
  "opt_dec v = (case v of None \<Rightarrow> MNull | Some x \<Rightarrow> MDec x)"

text \<open>The old rating is compared as a \<open>Decimal\<close> with the new one as a float: \<open>float_value\<close> is the exact
  value of the float nearest to a decimal.\<close>

definition set_rating :: "(decimal \<Rightarrow> decimal) \<Rightarrow> int \<Rightarrow> user \<Rightarrow> int \<Rightarrow> decimal option \<Rightarrow> world \<Rightarrow> user result" where
  "set_rating float_value now admin i rating w =
     (case get_user_or_404 i w of
        Inl e \<Rightarrow> (Inl e, w)
      | Inr target \<Rightarrow>
        if u_rating_manual target = map_option float_value rating then (Inr target, w)
        else let t = target \<lparr> u_rating_manual := rating \<rparr>
             in (Inr t, audit_and_notify now admin t ''user.set_rating'' None
                          (state_change_payload (Some [(''rating'', opt_dec (u_rating_manual target))]) (Some [(''rating'', opt_dec rating)]))
                          (Some (N_rating rating)) (save_user t w)))"

text \<open>One statistic: its name, the old and the new value, when the body changes it.\<close>

definition int_change :: "string \<Rightarrow> int option \<Rightarrow> int \<Rightarrow> (string \<times> meta_value \<times> meta_value) list" where
  "int_change name v old = (case v of None \<Rightarrow> [] | Some x \<Rightarrow> if x \<noteq> old then [(name, MInt old, MInt x)] else [])"

definition dec_change :: "string \<Rightarrow> decimal option \<Rightarrow> decimal \<Rightarrow> (string \<times> meta_value \<times> meta_value) list" where
  "dec_change name v old = (case v of None \<Rightarrow> [] | Some x \<Rightarrow> if x \<noteq> old then [(name, MDec old, MDec x)] else [])"

definition stat_changes :: "stats_in \<Rightarrow> user \<Rightarrow> (string \<times> meta_value \<times> meta_value) list" where
  "stat_changes b u =
     int_change ''deals_total'' (si_deals_total b) (u_deals_total u)
   @ int_change ''deals_success'' (si_deals_success b) (u_deals_success u)
   @ int_change ''deals_failed'' (si_deals_failed b) (u_deals_failed u)
   @ int_change ''deals_arbitrage'' (si_deals_arbitrage b) (u_deals_arbitrage u)
   @ int_change ''good'' (si_good b) (u_good u)
   @ int_change ''bad'' (si_bad b) (u_bad u)
   @ dec_change ''deals_sum_override'' (si_deals_sum_override b) (u_deals_sum_override u)"

definition with_stats :: "stats_in \<Rightarrow> user \<Rightarrow> user" where
  "with_stats b u = u \<lparr> u_deals_total := given (si_deals_total b) (u_deals_total u),
     u_deals_success := given (si_deals_success b) (u_deals_success u), u_deals_failed := given (si_deals_failed b) (u_deals_failed u),
     u_deals_arbitrage := given (si_deals_arbitrage b) (u_deals_arbitrage u), u_good := given (si_good b) (u_good u),
     u_bad := given (si_bad b) (u_bad u), u_deals_sum_override := given (si_deals_sum_override b) (u_deals_sum_override u) \<rparr>"

definition set_stats :: "int \<Rightarrow> user \<Rightarrow> int \<Rightarrow> stats_in \<Rightarrow> world \<Rightarrow> user result" where
  "set_stats now admin i body w =
     (case get_user_or_404 i w of
        Inl e \<Rightarrow> (Inl e, w)
      | Inr target \<Rightarrow>
        let ch = stat_changes body target; t = with_stats body target in
        if ch = [] then (Inr target, w)
        else (Inr t, audit_and_notify now admin t ''user.set_stats'' None
                (state_change_payload (Some (map (\<lambda>(k, b, a). (k, b)) ch)) (Some (map (\<lambda>(k, b, a). (k, a)) ch))) None
                (save_user (t \<lparr> u_deals_sum_override := column (u_deals_sum_override t) \<rparr>) w)))"

definition set_trust_deposit :: "int \<Rightarrow> user \<Rightarrow> int \<Rightarrow> decimal \<Rightarrow> string option \<Rightarrow> world \<Rightarrow> user result" where
  "set_trust_deposit now admin i amount reason w =
     (case get_user_or_404 i w of
        Inl e \<Rightarrow> (Inl e, w)
      | Inr target \<Rightarrow>
        if u_trust_deposit_balance target = amount then (Inr target, w)
        else let t = target \<lparr> u_trust_deposit_balance := amount \<rparr>
             in (Inr t, audit_and_notify now admin t ''user.set_trust_deposit'' reason
                   (state_change_payload (Some [(''trust_deposit_balance'', MDec (u_trust_deposit_balance target))])
                                         (Some [(''trust_deposit_balance'', MDec amount)]))
                   (Some (N_trust_set amount)) (save_user t w)))"

section \<open>The list\<close>

datatype role_filter = RoleAdmin | RoleArbiter | RoleVip | RoleRegular | RoleAny
datatype status_filter = StatusAny | StatusActive | StatusBanned | StatusFrozen
datatype user_sort = CreatedDesc | CreatedAsc | ByRating | ByDeals

definition contains :: "string \<Rightarrow> string \<Rightarrow> bool" where
  "contains needle hay = list_ex (\<lambda>k. take (length needle) (drop k hay) = needle) [0..<Suc (length hay)]"

definition search_match :: "string option \<Rightarrow> user \<Rightarrow> bool" where
  "search_match q u =
     (if falsy q then True
      else let q_clean = dropWhile (\<lambda>c. c = CHR ''@'') (strip (the q)); like = map to_lower q_clean in
        (case u_username u of None \<Rightarrow> False | Some n \<Rightarrow> contains like (map to_lower n))
        \<or> contains like (map to_lower (u_display_name u))
        \<or> q_clean \<noteq> [] \<and> list_all is_digit q_clean \<and> python_int q_clean = Some (u_tg_user_id u))"

definition role_match :: "role_filter \<Rightarrow> user \<Rightarrow> bool" where
  "role_match r u = (case r of RoleAdmin \<Rightarrow> u_is_admin u | RoleArbiter \<Rightarrow> u_is_arbiter u | RoleVip \<Rightarrow> u_is_vip u
     | RoleRegular \<Rightarrow> \<not> u_is_admin u \<and> \<not> u_is_arbiter u \<and> \<not> u_is_vip u | RoleAny \<Rightarrow> True)"

definition status_match :: "status_filter \<Rightarrow> user \<Rightarrow> bool" where
  "status_match s u = (case s of StatusActive \<Rightarrow> \<not> u_is_banned u \<and> \<not> u_is_frozen u | StatusBanned \<Rightarrow> u_is_banned u
     | StatusFrozen \<Rightarrow> u_is_frozen u | StatusAny \<Rightarrow> True)"

text \<open>Rows that the sort keys leave equal keep the order of the table, one of the orders the database may
  return them in.\<close>

definition sort_users :: "user_sort \<Rightarrow> user list \<Rightarrow> user list" where
  "sort_users s us = (case s of
       CreatedDesc \<Rightarrow> sort_key (\<lambda>u. - u_created_at u) us
     | CreatedAsc \<Rightarrow> sort_key u_created_at us
     | ByRating \<Rightarrow> sort_key (\<lambda>u. - given (u_rating_manual u) 0) (sort_key (\<lambda>u. - u_good u) us)
     | ByDeals \<Rightarrow> sort_key (\<lambda>u. - u_deals_total u) us)"

definition page_of :: "nat \<Rightarrow> nat \<Rightarrow> 'a list \<Rightarrow> 'a list" where
  "page_of page page_size xs = take page_size (drop ((page - 1) * page_size) xs)"

definition list_users ::
  "(int \<Rightarrow> int \<Rightarrow> decimal) \<Rightarrow> string option \<Rightarrow> role_filter \<Rightarrow> status_filter \<Rightarrow> user_sort \<Rightarrow> nat \<Rightarrow> nat \<Rightarrow> world
     \<Rightarrow> admin_user_item list \<times> nat" where
  "list_users rate q role status s page page_size w =
     (let hits = filter (\<lambda>u. search_match q u \<and> role_match role u \<and> status_match status u) (t_users w) in
      (map (to_list_item rate) (page_of page page_size (sort_users s hits)), length hits))"

definition get_user_detail :: "(int \<Rightarrow> int \<Rightarrow> decimal) \<Rightarrow> int \<Rightarrow> world \<Rightarrow> py_error + admin_user_detail" where
  "get_user_detail rate i w = map_sum id (to_detail rate) (get_user_or_404 i w)"

section \<open>The router\<close>

datatype user_action =
    Ban "string option" | Unban "string option" | Freeze "string option" | Unfreeze "string option"
  | ResetPin "string option" | InvalidateSessions "string option" | SetRole role_flags
  | SetRating "decimal option" | SetStats stats_in | SetTrustDeposit decimal "string option"

text \<open>One request: the body's validators, then the handler. A money amount of the body is finite and
  not negative, else it is a 422.\<close>

definition with_reason :: "string option \<Rightarrow> (string option \<Rightarrow> user result) \<Rightarrow> world \<Rightarrow> user result" where
  "with_reason r handler w =
     (case reason_ok r of None \<Rightarrow> (Inl (HTTP 422 (E_other ''validation'')), w) | Some r' \<Rightarrow> handler r')"

fun admin_user_request ::
  "(decimal \<Rightarrow> decimal) \<Rightarrow> (decimal \<Rightarrow> decimal) \<Rightarrow> int \<Rightarrow> user \<Rightarrow> int \<Rightarrow> user_action \<Rightarrow> world \<Rightarrow> user result" where
  "admin_user_request round1 fv now admin i (Ban r) w = with_reason r (\<lambda>r. ban_user now admin i r w) w"
| "admin_user_request round1 fv now admin i (Unban r) w = with_reason r (\<lambda>r. unban_user now admin i r w) w"
| "admin_user_request round1 fv now admin i (Freeze r) w = with_reason r (\<lambda>r. freeze_user now admin i r w) w"
| "admin_user_request round1 fv now admin i (Unfreeze r) w = with_reason r (\<lambda>r. unfreeze_user now admin i r w) w"
| "admin_user_request round1 fv now admin i (ResetPin r) w = with_reason r (\<lambda>r. reset_pin now admin i r w) w"
| "admin_user_request round1 fv now admin i (InvalidateSessions r) w = with_reason r (\<lambda>r. invalidate_sessions now admin i r w) w"
| "admin_user_request round1 fv now admin i (SetRole f) w = set_role now admin i f w"
| "admin_user_request round1 fv now admin i (SetRating x) w =
     (case rating_ok round1 x of None \<Rightarrow> (Inl (HTTP 422 (E_other ''validation'')), w) | Some y \<Rightarrow> set_rating fv now admin i y w)"
| "admin_user_request round1 fv now admin i (SetStats b) w =
     (if stats_ok b then set_stats now admin i b w else (Inl (HTTP 422 (E_other ''validation'')), w))"
| "admin_user_request round1 fv now admin i (SetTrustDeposit a r) w =
     (if a < 0 then (Inl (HTTP 422 (E_other ''validation'')), w)
      else with_reason r (\<lambda>r. set_trust_deposit now admin i a r w) w)"

text \<open>A request as the server serves it: the caller is loaded by the authentication, which turns away a
  banned or frozen user, and passes the guard of the admin routes (the second factor is the guard of
  \<open>Totp\<close>).\<close>

definition active_admin :: "user \<Rightarrow> bool" where
  "active_admin u = (u_is_admin u \<and> \<not> u_is_banned u \<and> \<not> u_is_frozen u)"

definition admin_user_call ::
  "(decimal \<Rightarrow> decimal) \<Rightarrow> (decimal \<Rightarrow> decimal) \<Rightarrow> int \<times> int \<times> int \<times> user_action \<Rightarrow> world \<Rightarrow> world" where
  "admin_user_call round1 fv c w =
     (case c of (now, caller, i, a) \<Rightarrow>
        case get_user caller w of
          None \<Rightarrow> w
        | Some admin \<Rightarrow> if active_admin admin then snd (admin_user_request round1 fv now admin i a w) else w)"

section \<open>What a request may write\<close>

lemma log_frame [simp]:
  "t_users (log_admin_action a s ty i r p w) = t_users w" "same_books (log_admin_action a s ty i r p w) w"
  by (simp_all add: log_admin_action_def same_books_def)

lemma tail_users [simp]: "t_users (audit_and_notify now admin target action reason payload dm w) = t_users w"
  by (auto simp: audit_and_notify_def Let_def split: option.splits prod.splits)
    (metis log_frame(1) notifier_insert_frame(1) snd_conv)

lemma tail_audit:
  "\<exists>row. t_audit (audit_and_notify now admin target action reason payload dm w) = t_audit w @ [row]
     \<and> al_actor_id row = Some (u_id admin) \<and> al_target_id row = Some (u_id target) \<and> al_action row = action \<and> al_reason row = reason"
proof -
  have "t_audit (audit_and_notify now admin target action reason payload dm w) = t_audit (log_admin_action admin action ''user'' (u_id target) reason payload w)"
    by (auto simp: audit_and_notify_def Let_def split: option.splits prod.splits)
      (metis notifier_insert_frame(11) snd_conv)
  then show ?thesis by (simp add: log_admin_action_def)
qed

lemma tail_books [simp]: "same_books (audit_and_notify now admin target action reason payload dm w) w"
proof (cases dm)
  case None
  then show ?thesis by (simp add: audit_and_notify_def)
next
  case (Some n)
  let ?w1 = "log_admin_action admin action ''user'' (u_id target) reason payload w"
  obtain p w2 where p: "notifier_insert now (u_id target) NT_system n None ?w1 = (p, w2)" by fastforce
  then have "same_books (dispatch_after_commit p w2) ?w1" 
    using notifier_insert_frame [of now "u_id target" NT_system n None ?w1]
    by (simp add: same_books_def notifier_insert_def Let_def check_payload_cap_def was_dropped_def) 
  then show ?thesis using p Some by (simp add: audit_and_notify_def same_books_def log_admin_action_def)
qed

definition admin_write :: "user \<Rightarrow> int \<Rightarrow> world \<Rightarrow> world \<Rightarrow> bool" where
  "admin_write admin i w w' \<longleftrightarrow> (\<exists>target t row. get_user i w = Some target \<and> u_id t = i \<and> t_users w' = t_users (save_user t w)
     \<and> (i = u_id admin \<longrightarrow> active_admin target \<longrightarrow> active_admin t)
     \<and> u_pin_session_epoch target \<le> u_pin_session_epoch t \<and> u_totp_session_epoch target \<le> u_totp_session_epoch t
     \<and> t_audit w' = t_audit w @ [row] \<and> al_actor_id row = Some (u_id admin) \<and> al_target_id row = Some i \<and> same_books w' w)"

lemma admin_writeI:
  assumes "get_user i w = Some target" and "u_id t = u_id target" and "u_id admin = u_id target \<Longrightarrow> active_admin target \<Longrightarrow> active_admin t"
    and "u_pin_session_epoch target \<le> u_pin_session_epoch t" and "u_totp_session_epoch target \<le> u_totp_session_epoch t"
    and "u_id s = u_id t" "u_is_admin s = u_is_admin t" "u_is_banned s = u_is_banned t" "u_is_frozen s = u_is_frozen t"
      "u_pin_session_epoch s = u_pin_session_epoch t" "u_totp_session_epoch s = u_totp_session_epoch t"
  shows "admin_write admin i w (emit es (audit_and_notify now admin t action reason payload dm (save_user s w)))"
proof -
  let ?w' = "audit_and_notify now admin t action reason payload dm (save_user s w)"
  have i: "u_id target = i" using assms(1) by (auto simp: get_user_def dest: tget_Some)
  obtain row where row: "t_audit ?w' = t_audit (save_user s w) @ [row]" "al_actor_id row = Some (u_id admin)" "al_target_id row = Some (u_id t)"
    using tail_audit [of now admin t action reason payload dm "save_user s w"] by blast
  have books: "same_books (emit es ?w') w"
    using tail_books [of now admin t action reason payload dm "save_user s w"] by (auto simp: same_books_def save_user_def emit_def)
  show ?thesis unfolding admin_write_def
  proof (intro exI conjI)
    show "u_id s = i" "i = u_id admin \<longrightarrow> active_admin target \<longrightarrow> active_admin s"
      "u_pin_session_epoch target \<le> u_pin_session_epoch s" "u_totp_session_epoch target \<le> u_totp_session_epoch s"
      "al_target_id row = Some i"
      using assms i row(3) by (simp_all add: active_admin_def)
  qed (use assms(1) row books in \<open>simp_all add: save_user_def\<close>)
qed

lemma emit_Nil [simp]: "emit [] w = w"
  by (simp add: emit_def)

lemmas admin_writeI' = admin_writeI [where es = "[]", unfolded emit_Nil]

lemma own_target: "get_user i w = Some target \<Longrightarrow> u_id target = i"
  by (auto simp: get_user_def dest: tget_Some)

lemma ban_writes: "snd (ban_user now admin i reason w) = w \<or> admin_write admin i w (snd (ban_user now admin i reason w))"
  by (auto simp: ban_user_def get_user_or_404_def ensure_not_self_def Let_def split: option.splits
      intro!: admin_writeI' disjI2)

lemma unban_writes: "snd (unban_user now admin i reason w) = w \<or> admin_write admin i w (snd (unban_user now admin i reason w))"
  by (auto simp: unban_user_def get_user_or_404_def active_admin_def Let_def split: option.splits intro!: admin_writeI')

lemma freeze_writes: "snd (freeze_user now admin i reason w) = w \<or> admin_write admin i w (snd (freeze_user now admin i reason w))"
  by (auto simp: freeze_user_def get_user_or_404_def ensure_not_self_def Let_def split: option.splits
      intro!: admin_writeI' disjI2)

lemma unfreeze_writes: "snd (unfreeze_user now admin i reason w) = w \<or> admin_write admin i w (snd (unfreeze_user now admin i reason w))"
  by (auto simp: unfreeze_user_def get_user_or_404_def active_admin_def Let_def split: option.splits intro!: admin_writeI')

lemma reset_pin_writes: "snd (reset_pin now admin i reason w) = w \<or> admin_write admin i w (snd (reset_pin now admin i reason w))"
  by (auto simp: reset_pin_def get_user_or_404_def active_admin_def Let_def split: option.splits intro!: admin_writeI)

lemma invalidate_writes: "snd (invalidate_sessions now admin i reason w) = w \<or> admin_write admin i w (snd (invalidate_sessions now admin i reason w))"
  by (auto simp: invalidate_sessions_def get_user_or_404_def active_admin_def Let_def split: option.splits intro!: admin_writeI)

lemma set_role_writes: "snd (set_role now admin i f w) = w \<or> admin_write admin i w (snd (set_role now admin i f w))"
  by (auto simp: set_role_def get_user_or_404_def Let_def split: option.splits if_splits intro!: admin_writeI')

lemma set_rating_writes: "snd (set_rating fv now admin i x w) = w \<or> admin_write admin i w (snd (set_rating fv now admin i x w))"
  by (auto simp: set_rating_def get_user_or_404_def active_admin_def Let_def split: option.splits intro!: admin_writeI')

lemma set_stats_writes: "snd (set_stats now admin i b w) = w \<or> admin_write admin i w (snd (set_stats now admin i b w))"
  by (auto simp: set_stats_def with_stats_def get_user_or_404_def active_admin_def Let_def split: option.splits intro!: admin_writeI')

lemma set_trust_writes: "snd (set_trust_deposit now admin i a r w) = w \<or> admin_write admin i w (snd (set_trust_deposit now admin i a r w))"
  by (auto simp: set_trust_deposit_def get_user_or_404_def active_admin_def Let_def split: option.splits intro!: admin_writeI')

lemma admin_request_writes:
  "snd (admin_user_request round1 fv now admin i a w) = w \<or> admin_write admin i w (snd (admin_user_request round1 fv now admin i a w))"
  using ban_writes unban_writes freeze_writes unfreeze_writes reset_pin_writes invalidate_writes set_role_writes set_rating_writes
    set_stats_writes set_trust_writes
  by (cases a) (simp_all add: with_reason_def split: option.splits)

text \<open>
  Every request of the user administration that changes anything writes one audit row, with its actor and
  its target, changes no user but the target, never lowers an epoch (no revoked session comes back) and
  leaves the books alone; a refused request changes nothing.
\<close>

theorem admin_requests_are_audited:
  "let w' = snd (admin_user_request round1 fv now admin i a w) in
     w' = w \<or> (\<exists>row. t_audit w' = t_audit w @ [row] \<and> al_actor_id row = Some (u_id admin) \<and> al_target_id row = Some i)
       \<and> same_books w' w \<and> map u_id (t_users w') = map u_id (t_users w)
       \<and> (\<forall>j. j = i \<or> get_user j w' = get_user j w)
       \<and> (\<exists>u u'. get_user i w = Some u \<and> get_user i w' = Some u'
            \<and> u_pin_session_epoch u \<le> u_pin_session_epoch u' \<and> u_totp_session_epoch u \<le> u_totp_session_epoch u')"
proof -
  let ?w' = "snd (admin_user_request round1 fv now admin i a w)"
  have "(\<exists>row. t_audit ?w' = t_audit w @ [row] \<and> al_actor_id row = Some (u_id admin) \<and> al_target_id row = Some i)
       \<and> same_books ?w' w \<and> map u_id (t_users ?w') = map u_id (t_users w)
       \<and> (\<forall>j. j = i \<or> get_user j ?w' = get_user j w)
       \<and> (\<exists>u u'. get_user i w = Some u \<and> get_user i ?w' = Some u'
            \<and> u_pin_session_epoch u \<le> u_pin_session_epoch u' \<and> u_totp_session_epoch u \<le> u_totp_session_epoch u')"
    if "admin_write admin i w ?w'"
  proof -
    from that obtain target t row where t: "get_user i w = Some target" "u_id t = i" "t_users ?w' = t_users (save_user t w)"
      "u_pin_session_epoch target \<le> u_pin_session_epoch t" "u_totp_session_epoch target \<le> u_totp_session_epoch t"
      "t_audit ?w' = t_audit w @ [row]" "al_actor_id row = Some (u_id admin)" "al_target_id row = Some i" "same_books ?w' w"
      unfolding admin_write_def by blast
    have "get_user j ?w' = get_user j (save_user t w)" for j using t(3) by (simp add: get_user_def)
    moreover have "get_user j (save_user t w) = get_user j w" if "j \<noteq> i" for j
      using that t(2) by (simp add: get_user_def save_user_def tget_tput)
    moreover have "get_user i (save_user t w) = Some (saved t)" using t(1,2) get_saved by metis
    ultimately show ?thesis using t by (auto simp: save_user_def saved_def)
  qed
  then show ?thesis using admin_request_writes [of round1 fv now admin i a w] by (metis (no_types, lifting))
qed

section \<open>An administrator remains\<close>

definition has_active_admin :: "world \<Rightarrow> bool" where
  "has_active_admin w = (\<exists>u \<in> set (t_users w). active_admin u)"

lemma caller_stays_active:
  assumes "get_user (u_id admin) w = Some admin" and "active_admin admin"
  shows "has_active_admin (snd (admin_user_request round1 fv now admin i a w))"
proof -
  let ?w' = "snd (admin_user_request round1 fv now admin i a w)"
  have "\<exists>u'. get_user (u_id admin) ?w' = Some u' \<and> active_admin u'" if wr: "admin_write admin i w ?w'"
  proof -
    obtain target t where t: "get_user i w = Some target" "u_id t = i" "t_users ?w' = t_users (save_user t w)"
      "i = u_id admin \<longrightarrow> active_admin target \<longrightarrow> active_admin t"
      using wr unfolding admin_write_def by blast
    have eq: "get_user j ?w' = get_user j (save_user t w)" for j using t(3) by (simp add: get_user_def)
    show ?thesis
    proof (cases "i = u_id admin")
      case True
      then have "active_admin (saved t)" using t assms by (simp add: active_admin_def saved_def)
      then show ?thesis using get_saved [OF t(1,2)] True eq by simp
    next
      case False
      then have "get_user (u_id admin) (save_user t w) = get_user (u_id admin) w"
        using t(2) by (simp add: get_user_def save_user_def tget_tput)
      then show ?thesis using assms eq by simp
    qed
  qed
  then have "\<exists>u'. get_user (u_id admin) ?w' = Some u' \<and> active_admin u'"
    using admin_request_writes [of round1 fv now admin i a w] assms by fastforce
  then show ?thesis by (auto simp: has_active_admin_def get_user_def dest: tget_Some)
qed

lemma call_keeps_active_admin: "has_active_admin w \<Longrightarrow> has_active_admin (admin_user_call round1 fv c w)"
  using caller_stays_active own_target
  by (auto simp: admin_user_call_def split: prod.splits option.splits)

text \<open>
  C28. Whatever the administrators do to each other, one request after the other, an administrator who is
  neither banned nor frozen remains.
\<close>

theorem an_active_admin_remains:
  "has_active_admin w \<Longrightarrow> has_active_admin (fold (admin_user_call round1 fv) calls w)"
  by (induction calls arbitrary: w) (simp_all add: call_keeps_active_admin)

text \<open>
  Two requests at once are another matter: when two administrators are authenticated before either
  request commits, both bans go through, each on the other; nobody but a third administrator can then
  undo them (the last-administrator check is about the flag, and only in \<open>set_role\<close>).
\<close>

theorem administrators_ban_each_other:
  assumes "get_user (u_id a) w = Some a" and "get_user (u_id b) w = Some b" and "u_id a \<noteq> u_id b"
    and "\<forall>u \<in> set (t_users w). active_admin u \<longrightarrow> u_id u = u_id a \<or> u_id u = u_id b" and "tkeys u_id (t_users w)"
    and "\<not> u_is_banned a" "\<not> u_is_banned b"
  shows "\<not> has_active_admin (snd (ban_user t2 b (u_id a) r (snd (ban_user t1 a (u_id b) r w))))"
proof -
  define w1 where "w1 = snd (ban_user t1 a (u_id b) r w)"
  define w2 where "w2 = snd (ban_user t2 b (u_id a) r w1)"
  obtain b' where b': "t_users w1 = t_users (save_user b' w)" "u_id b' = u_id b" "u_is_banned b'"
    using assms(2,3,7) by (auto simp: w1_def ban_user_def get_user_or_404_def ensure_not_self_def Let_def)
  have a: "get_user (u_id a) w1 = Some a"
    using assms(1,3) b'(1,2) by (simp add: get_user_def save_user_def tget_tput)
  obtain a' where a': "t_users w2 = t_users (save_user a' w1)" "u_id a' = u_id a" "u_is_banned a'"
    using a assms(3,6) by (auto simp: w2_def ban_user_def get_user_or_404_def ensure_not_self_def Let_def)
  have "\<not> active_admin u" if "u \<in> set (t_users w2)" for u
  proof
    assume act: "active_admin u"
    have "u \<in> set (tput u_id (saved a') (tput u_id (saved b') (t_users w)))"
      using that a'(1) b'(1) by (simp add: save_user_def saved_def)
    then have "u = saved a' \<or> u = saved b' \<or> u \<in> set (t_users w) \<and> u_id u \<noteq> u_id a \<and> u_id u \<noteq> u_id b"
      using a'(2) b'(2) by (auto dest!: set_tput_cases)
    then show False using act a'(3) b'(3) assms(4) by (auto simp: active_admin_def saved_def)
  qed
  then show ?thesis by (simp add: has_active_admin_def w2_def w1_def)
qed

section \<open>Revocation\<close>

text \<open>
  After an administrator ended a user's sessions no PIN token and no TOTP session token minted before
  passes; after a PIN reset no PIN token does, and the PIN and the reset code are gone.
\<close>

theorem admin_ends_sessions:
  assumes "jwt_ok lib" and "get_user i w = Some u" and "issued \<le> later"
    and "e \<le> u_pin_session_epoch u" and "e' \<le> u_totp_session_epoch u"
    and "invalidate_sessions now admin i reason w = (Inr v, w')"
  shows "\<exists>u'. get_user i w' = Some u' \<and> \<not> pin_passes later cfg lib u' (fst (issue_session_token cfg lib issued jti i e))
    \<and> \<not> totp_passes later cfg lib u' (fst (issue_totp_session_token cfg lib issued jti' i e')) \<and> CloseSockets i \<in> set (sent_events w')"
proof -
  let ?t = "u \<lparr> u_pin_session_epoch := u_pin_session_epoch u + 1, u_totp_session_epoch := u_totp_session_epoch u + 1 \<rparr>"
  have "t_users w' = t_users (save_user ?t w)" "CloseSockets i \<in> set (sent_events w')"
    using assms(2,6) by (auto simp: invalidate_sessions_def get_user_or_404_def Let_def emit_def)
  then have "get_user i w' = Some (saved ?t)" using get_saved [OF assms(2), of ?t] own_target [OF assms(2)] by (simp add: get_user_def)
  moreover have "u_pin_session_epoch (saved ?t) \<noteq> e" "u_totp_session_epoch (saved ?t) \<noteq> e'" using assms(4,5) by (simp_all add: saved_def)
  ultimately show ?thesis using pin.revoked [OF assms(1,3)] totp.revoked [OF assms(1,3)] \<open>CloseSockets i \<in> _\<close> by blast
qed

theorem admin_pin_reset_revokes:
  assumes "jwt_ok lib" and "get_user i w = Some u" and "\<not> falsy (u_pin_hash u)" and "issued \<le> later" and "e \<le> u_pin_session_epoch u"
    and "reset_pin now admin i reason w = (Inr v, w')"
  shows "\<exists>u'. get_user i w' = Some u' \<and> u_pin_hash u' = None \<and> u_pin_reset_code_hash u' = None \<and> u_totp_session_epoch u' = u_totp_session_epoch u
    \<and> \<not> pin_passes later cfg lib u' (fst (issue_session_token cfg lib issued jti i e))"
proof -
  let ?t = "u \<lparr> u_pin_hash := None, u_pin_attempts := 0, u_pin_locked_until := None, u_pin_reset_code_hash := None,
    u_pin_reset_expires := None, u_pin_session_epoch := u_pin_session_epoch u + 1 \<rparr>"
  have "t_users w' = t_users (save_user ?t w)"
    using assms(2,3,6) by (auto simp: reset_pin_def get_user_or_404_def Let_def)
  then have "get_user i w' = Some (saved ?t)" using get_saved [OF assms(2), of ?t] own_target [OF assms(2)] by (simp add: get_user_def)
  moreover have "u_pin_session_epoch (saved ?t) \<noteq> e" using assms(5) by (simp add: saved_def)
  moreover have "u_pin_hash (saved ?t) = None" "u_pin_reset_code_hash (saved ?t) = None" "u_totp_session_epoch (saved ?t) = u_totp_session_epoch u"
    by (simp_all add: saved_def)
  ultimately show ?thesis using pin.revoked [OF assms(1,4)] by blast
qed

section \<open>Sample requests\<close>

definition admin_b :: user where "admin_b = sample_user 4 ''second'' True"

definition two_admins :: world where
  "two_admins = sample_world \<lparr> t_users := [sample_buyer, sample_seller, sample_admin, admin_b] \<rparr>"

lemma admin_rows [simp]:
  "get_user 3 two_admins = Some sample_admin" "get_user 4 two_admins = Some admin_b"
  "u_id sample_admin = 3" "u_id admin_b = 4" "active_admin sample_admin" "u_is_banned sample_admin = False" "u_is_banned admin_b = False"
  "tkeys u_id (t_users two_admins)" "u_pin_session_epoch admin_b = 0" "u_totp_session_epoch admin_b = 0"
  by (simp_all add: get_user_def two_admins_def sample_buyer_def sample_seller_def sample_admin_def admin_b_def sample_user_def
      active_admin_def tkeys_def)

lemma an_active_admin_remains_witness:
  "has_active_admin (fold (admin_user_call id id) [(5, 3, 4, Ban None), (6, 4, 3, Ban None)] two_admins)"
proof (rule an_active_admin_remains)
  show "has_active_admin two_admins" by (simp add: has_active_admin_def two_admins_def active_admin_def sample_admin_def sample_user_def)
qed

lemma administrators_ban_each_other_witness:
  "\<not> has_active_admin (snd (ban_user 6 admin_b 3 None (snd (ban_user 5 sample_admin 4 None two_admins))))"
proof -
  have "\<forall>u \<in> set (t_users two_admins). active_admin u \<longrightarrow> u_id u = u_id sample_admin \<or> u_id u = u_id admin_b"
    by (simp add: two_admins_def active_admin_def sample_buyer_def sample_seller_def sample_user_def)
  from administrators_ban_each_other [OF _ _ _ this, of "6" None "5"] show ?thesis by simp
qed

lemma admin_ends_sessions_witness:
  "\<exists>u' w'. get_user 4 w' = Some u' \<and> \<not> pin_passes 100 sample_auth sample_jwt u' (fst (issue_session_token sample_auth sample_jwt 50 ''j'' 4 0))
     \<and> CloseSockets 4 \<in> set (sent_events w')"
proof -
  obtain v w' where op: "invalidate_sessions 60 sample_admin 4 None two_admins = (Inr v, w')"
    by (simp add: invalidate_sessions_def get_user_or_404_def Let_def)
  from admin_ends_sessions [OF sample_jwt_ok admin_rows(2) _ _ _ op, of 50 100 0 0] show ?thesis by simp blast
qed

definition pinned_admins :: world where
  "pinned_admins = save_user (admin_b \<lparr> u_pin_hash := Some ''h'' \<rparr>) two_admins"

lemma admin_pin_reset_revokes_witness:
  "\<exists>u' w'. get_user 4 w' = Some u' \<and> u_pin_hash u' = None
     \<and> \<not> pin_passes 100 sample_auth sample_jwt u' (fst (issue_session_token sample_auth sample_jwt 50 ''j'' 4 0))"
proof -
  let ?u = "saved (admin_b \<lparr> u_pin_hash := Some ''h'' \<rparr>)"
  have row: "get_user 4 pinned_admins = Some ?u" unfolding pinned_admins_def by (rule get_saved [OF admin_rows(2)]) simp
  have pin: "\<not> falsy (u_pin_hash ?u)" by (simp add: falsy_def)
  obtain v w' where op: "reset_pin 60 sample_admin 4 None pinned_admins = (Inr v, w')"
    using row pin by (simp add: reset_pin_def get_user_or_404_def Let_def)
  from admin_pin_reset_revokes [OF sample_jwt_ok row pin _ _ op, of 50 100 0] show ?thesis by (simp add: saved_def) blast
qed
end
