(* ===== verification/Reviews.thy ===== *)
theory Reviews
  imports Admin_Users AdminDeals
begin

text \<open>
  Reviews: \<open>backend/app/services.py\<close> (\<open>post_review\<close>, \<open>recompute_user_rating\<close>, the sweep of old client
  addresses), \<open>backend/app/routers/reviews.py\<close> and the review endpoints of
  \<open>backend/app/routers/admin/content.py\<close>. The counters \<open>good\<close> and \<open>bad\<close> of a user are a copy of what
  the reviews table says.
\<close>

section \<open>The table\<close>

definition get_review :: "int \<Rightarrow> world \<Rightarrow> review option" where
  "get_review i w = tget rv_id i (t_reviews w)"

definition save_review :: "review \<Rightarrow> world \<Rightarrow> world" where
  "save_review r w = w \<lparr> t_reviews := tput rv_id r (t_reviews w) \<rparr>"

text \<open>The flush of a new review: \<open>uq_reviews_author_deal\<close> (a missing deal never collides) and the
  foreign keys.\<close>

definition insert_review :: "review \<Rightarrow> review tx" where
  "insert_review r w =
     (if rv_deal_id r \<noteq> None \<and> (\<exists>x \<in> set (t_reviews w). rv_author_id x = rv_author_id r \<and> rv_deal_id x = rv_deal_id r)
      then Inl IntegrityError
      else if get_user (rv_author_id r) w = None \<or> get_user (rv_target_id r) w = None
           \<or> (case rv_deal_id r of None \<Rightarrow> False | Some d \<Rightarrow> get_deal d w = None)
      then Inl IntegrityError
      else let r' = r \<lparr> rv_id := seq_reviews w \<rparr>
           in Inr (r', w \<lparr> t_reviews := t_reviews w @ [r'], seq_reviews := seq_reviews w + 1 \<rparr>))"

definition good_count :: "int \<Rightarrow> world \<Rightarrow> int" where
  "good_count i w = sum_list (map (\<lambda>r. if 4 \<le> rv_rating r then 1 else 0) (filter (\<lambda>r. rv_target_id r = i) (t_reviews w)))"

definition bad_count :: "int \<Rightarrow> world \<Rightarrow> int" where
  "bad_count i w = sum_list (map (\<lambda>r. if rv_rating r \<le> 2 then 1 else 0) (filter (\<lambda>r. rv_target_id r = i) (t_reviews w)))"

text \<open>The single \<open>UPDATE\<close>.\<close>

definition recompute_user_rating :: "int \<Rightarrow> world \<Rightarrow> world" where
  "recompute_user_rating i w =
     w \<lparr> t_users := tupd (\<lambda>u. u_id u = i) (\<lambda>u. u \<lparr> u_good := good_count i w, u_bad := bad_count i w \<rparr>) (t_users w) \<rparr>"

section \<open>Posting a review\<close>

definition REVIEWABLE_DEAL_STATUSES :: "DealStatus list" where
  "REVIEWABLE_DEAL_STATUSES = [completed, resolved_for_buyer, resolved_for_seller]"

definition review_exists :: "int \<Rightarrow> int \<Rightarrow> world \<Rightarrow> bool" where
  "review_exists author deal_id w = (\<exists>r \<in> set (t_reviews w). rv_author_id r = author \<and> rv_deal_id r = Some deal_id)"

text \<open>The checks before the insert; \<open>None\<close> lets the review through.\<close>

definition review_refused :: "user \<Rightarrow> user \<Rightarrow> int \<Rightarrow> string \<Rightarrow> int option \<Rightarrow> world \<Rightarrow> py_error option" where
  "review_refused author target rating body deal_id w =
     (if rating < 1 \<or> 5 < rating then Some (ValueErr (E_other ''rating_range''))
      else if 1024 < length body then Some (ValueErr (E_other ''text_too_long''))
      else case deal_id of
        None \<Rightarrow> Some (ValueErr (E_other ''review_needs_deal''))
      | Some i \<Rightarrow>
     (case get_deal i w of
        None \<Rightarrow> Some (ValueErr E_deal_not_found)
      | Some deal \<Rightarrow>
        if u_id author \<notin> {d_buyer_id deal, d_seller_id deal} then Some (ValueErr E_not_participant)
        else if (if u_id author = d_buyer_id deal then d_seller_id deal else d_buyer_id deal) \<noteq> u_id target
             then Some (ValueErr (E_other ''counterparty_only''))
        else if d_status deal \<notin> set REVIEWABLE_DEAL_STATUSES then Some (ValueErr (E_other ''deal_not_finished''))
        else if review_exists (u_id author) i w then Some (ValueErr (E_other ''already_reviewed''))
        else None))"

text \<open>The transaction reads first and writes then; what other transactions commit in between is
  \<open>others\<close>.\<close>

definition post_review ::
  "int \<Rightarrow> (world \<Rightarrow> world) \<Rightarrow> user \<Rightarrow> user \<Rightarrow> int \<Rightarrow> string \<Rightarrow> int option \<Rightarrow> world \<Rightarrow> review result" where
  "post_review now others author target rating body deal_id w =
     (case review_refused author target rating body deal_id w of
        Some e \<Rightarrow> (Inl e, w)
      | None \<Rightarrow>
        let w0 = others w in
        case insert_review \<lparr> rv_id = 0, rv_author_id = u_id author, rv_target_id = u_id target, rv_deal_id = deal_id,
               rv_rating = rating, rv_text = body, rv_created_at = now \<rparr> w0 of
          Inl _ \<Rightarrow> (Inl (ValueErr (E_other ''already_reviewed'')), w0)
        | Inr (review, w1) \<Rightarrow>
            (case notifier_insert now (u_id target) NT_system
                    (N_review_received (AtUsername (given (u_username author) ''None'')) rating)
                    (Some [(''review_id'', JInt (rv_id review))]) (recompute_user_rating (u_id target) w1) of
               (p, w2) \<Rightarrow> (Inr review, dispatch_after_commit p w2)))"

section \<open>The endpoints\<close>

record review_out =
  ro_id :: int
  ro_deal_id :: "int option"
  ro_author_username :: "string option"
  ro_target_username :: "string option"
  ro_rating :: int
  ro_text :: string
  ro_created_at :: int

definition username_of :: "int \<Rightarrow> world \<Rightarrow> string option" where
  "username_of i w = (case get_user i w of None \<Rightarrow> None | Some u \<Rightarrow> u_username u)"

definition review_out_of :: "world \<Rightarrow> review \<Rightarrow> review_out" where
  "review_out_of w r =
     \<lparr> ro_id = rv_id r, ro_deal_id = rv_deal_id r, ro_author_username = username_of (rv_author_id r) w,
       ro_target_username = username_of (rv_target_id r) w, ro_rating = rv_rating r, ro_text = rv_text r,
       ro_created_at = rv_created_at r \<rparr>"

definition list_reviews :: "user \<Rightarrow> string \<Rightarrow> nat \<Rightarrow> nat \<Rightarrow> world \<Rightarrow> py_error + review_out list" where
  "list_reviews viewer name limit offset w =
     (case user_by_name name w of
        None \<Rightarrow> Inl (HTTP 404 E_user_not_found)
      | Some target \<Rightarrow>
        if u_is_hidden_profile target \<and> \<not> (u_is_admin viewer \<or> u_id viewer = u_id target) then Inl (HTTP 404 E_user_not_found)
        else Inr (map (review_out_of w) (take limit (drop offset
               (sort_key (\<lambda>r. - rv_created_at r) (filter (\<lambda>r. rv_target_id r = u_id target) (t_reviews w)))))))"

text \<open>The body's validators repeat the first two checks of \<open>post_review\<close>: a 422.\<close>

definition create_review ::
  "int \<Rightarrow> (world \<Rightarrow> world) \<Rightarrow> user \<Rightarrow> string \<Rightarrow> int \<Rightarrow> string \<Rightarrow> int \<Rightarrow> world \<Rightarrow> review result" where
  "create_review now others author target_username rating body deal_id w =
     (if rating < 1 \<or> 5 < rating \<or> 1024 < length body then (Inl (HTTP 422 (E_other ''validation'')), w)
      else case user_by_name target_username w of
        None \<Rightarrow> (Inl (HTTP 404 E_user_not_found), w)
      | Some target \<Rightarrow>
        if u_id target = u_id author then (Inl (HTTP 400 (E_other ''self_review'')), w)
        else case post_review now others author target rating body (Some deal_id) w of
          (Inr r, w') \<Rightarrow> (Inr r, w')
        | (Inl e, w') \<Rightarrow> (Inl (case value_error_detail e of Some d \<Rightarrow> HTTP 400 d | None \<Rightarrow> e), w'))"

section \<open>The admin's reviews\<close>

record review_upsert =
  ru_target_id :: "int option"
  ru_author_id :: "int option"
  ru_deal_id :: "int option"
  ru_rating :: int
  ru_text :: string

definition review_upsert_ok :: "review_upsert \<Rightarrow> bool" where
  "review_upsert_ok b = (1 \<le> ru_rating b \<and> ru_rating b \<le> 5 \<and> length (ru_text b) \<le> 1024)"

definition opt_int :: "int option \<Rightarrow> meta_value" where
  "opt_int v = (case v of None \<Rightarrow> MNull | Some i \<Rightarrow> MInt i)"

definition review_meta :: "review \<Rightarrow> meta" where
  "review_meta r = [(''author_id'', MInt (rv_author_id r)), (''target_id'', MInt (rv_target_id r)),
     (''deal_id'', opt_int (rv_deal_id r)), (''rating'', MInt (rv_rating r)), (''text'', MStr (rv_text r))]"

definition admin_create_review :: "int \<Rightarrow> user \<Rightarrow> review_upsert \<Rightarrow> world \<Rightarrow> review result" where
  "admin_create_review now admin b w =
     (if \<not> review_upsert_ok b then (Inl (HTTP 422 (E_other ''validation'')), w)
      else case (ru_author_id b, ru_target_id b) of
        (Some a, Some t) \<Rightarrow>
          (if a = t then (Inl (HTTP 400 (E_other ''author_is_target'')), w)
           else if get_user a w = None \<or> get_user t w = None then (Inl (HTTP 404 E_user_not_found), w)
           else case insert_review \<lparr> rv_id = 0, rv_author_id = a, rv_target_id = t, rv_deal_id = ru_deal_id b,
                       rv_rating = ru_rating b, rv_text = ru_text b, rv_created_at = now \<rparr> w of
             Inl _ \<Rightarrow> (Inl (HTTP 409 (E_other ''review_exists'')), w)
           | Inr (r, w1) \<Rightarrow>
               (Inr r, log_admin_action admin ''review.create'' ''review'' (rv_id r) None (review_meta r)
                         (recompute_user_rating t w1)))
      | _ \<Rightarrow> (Inl (HTTP 400 (E_other ''author_and_target_required'')), w))"

definition admin_update_review :: "user \<Rightarrow> int \<Rightarrow> review_upsert \<Rightarrow> world \<Rightarrow> review result" where
  "admin_update_review admin i b w =
     (if \<not> review_upsert_ok b then (Inl (HTTP 422 (E_other ''validation'')), w)
      else case get_review i w of
        None \<Rightarrow> (Inl (HTTP 404 (E_other ''review_not_found'')), w)
      | Some r \<Rightarrow>
        let rated = (rv_rating r \<noteq> ru_rating b); texted = (rv_text r \<noteq> ru_text b);
            r' = r \<lparr> rv_rating := ru_rating b, rv_text := ru_text b \<rparr>;
            side = (\<lambda>x. (if rated then [(''rating'', MInt (rv_rating x))] else []) @ (if texted then [(''text'', MStr (rv_text x))] else []));
            w1 = save_review r' w;
            w2 = (if rated then recompute_user_rating (rv_target_id r) w1 else w1)
        in if \<not> rated \<and> \<not> texted then (Inr r, w)
           else (Inr r', log_admin_action admin ''review.edit'' ''review'' (rv_id r) None
                           [(''before'', MObj (side r)), (''after'', MObj (side r'))] w2))"

definition admin_delete_review :: "user \<Rightarrow> int \<Rightarrow> world \<Rightarrow> int result" where
  "admin_delete_review admin i w =
     (case get_review i w of
        None \<Rightarrow> (Inl (HTTP 404 (E_other ''review_not_found'')), w)
      | Some r \<Rightarrow>
        let w1 = log_admin_action admin ''review.delete'' ''review'' (rv_id r) None ((''id'', MInt (rv_id r)) # review_meta r) w;
            w2 = w1 \<lparr> t_reviews := filter (\<lambda>x. rv_id x \<noteq> i) (t_reviews w1) \<rparr>
        in (Inr i, recompute_user_rating (rv_target_id r) w2))"

definition list_user_reviews :: "int \<Rightarrow> bool \<Rightarrow> world \<Rightarrow> py_error + review_out list" where
  "list_user_reviews i received w =
     (case get_user i w of
        None \<Rightarrow> Inl (HTTP 404 E_user_not_found)
      | Some _ \<Rightarrow> Inr (map (review_out_of w) (sort_key (\<lambda>r. - rv_created_at r)
          (filter (\<lambda>r. if received then rv_target_id r = i else rv_author_id r = i) (t_reviews w)))))"

section \<open>Old client addresses\<close>

definition sweep_user_last_ip :: "int \<Rightarrow> int \<Rightarrow> world \<Rightarrow> nat \<times> world" where
  "sweep_user_last_ip retention now w =
     (if retention \<le> 0 then (0, w)
      else let old = (\<lambda>u. u_last_ip u \<noteq> None \<and> (case u_last_login_at u of None \<Rightarrow> False | Some t \<Rightarrow> t \<le> now - retention))
           in (length (filter old (t_users w)), w \<lparr> t_users := tupd old (\<lambda>u. u \<lparr> u_last_ip := None \<rparr>) (t_users w) \<rparr>))"

section \<open>The counters follow the table\<close>

definition good_share :: "int \<Rightarrow> review \<Rightarrow> int" where
  "good_share i r = (if rv_target_id r = i \<and> 4 \<le> rv_rating r then 1 else 0)"

definition bad_share :: "int \<Rightarrow> review \<Rightarrow> int" where
  "bad_share i r = (if rv_target_id r = i \<and> rv_rating r \<le> 2 then 1 else 0)"

lemma counts_as_sums:
  "good_count i w = sum_list (map (good_share i) (t_reviews w))" "bad_count i w = sum_list (map (bad_share i) (t_reviews w))"
proof -
  have "sum_list (map f (filter P rs)) = sum_list (map (\<lambda>r. if P r then f r else 0) rs)" for f :: "review \<Rightarrow> int" and P rs
    by (induction rs) auto
  moreover have "(\<lambda>r. if rv_target_id r = i then if 4 \<le> rv_rating r then 1 else 0 else 0) = good_share i"
    "(\<lambda>r. if rv_target_id r = i then if rv_rating r \<le> 2 then 1 else 0 else 0) = bad_share i"
    by (auto simp: good_share_def bad_share_def)
  ultimately show "good_count i w = sum_list (map (good_share i) (t_reviews w))" "bad_count i w = sum_list (map (bad_share i) (t_reviews w))"
    by (simp_all add: good_count_def bad_count_def)
qed

lemma shares_elsewhere [simp]: "rv_target_id r \<noteq> i \<Longrightarrow> good_share i r = 0" "rv_target_id r \<noteq> i \<Longrightarrow> bad_share i r = 0"
  by (simp_all add: good_share_def bad_share_def)

definition tallied :: "int \<Rightarrow> world \<Rightarrow> user \<Rightarrow> bool" where
  "tallied i w u \<longleftrightarrow> u_good u = good_count i w \<and> u_bad u = bad_count i w"

definition ratings_ok :: "world \<Rightarrow> bool" where
  "ratings_ok w \<longleftrightarrow> (\<forall>u \<in> set (t_users w). tallied (u_id u) w u)"

text \<open>The constraint \<open>uq_reviews_author_deal\<close>.\<close>

definition one_per_deal :: "review list \<Rightarrow> bool" where
  "one_per_deal rs \<longleftrightarrow> (\<forall>r \<in> set rs. \<forall>s \<in> set rs.
     rv_author_id r = rv_author_id s \<and> rv_deal_id r = rv_deal_id s \<and> rv_deal_id r \<noteq> None \<longrightarrow> r = s)"

lemma one_per_deal_snoc:
  assumes "one_per_deal rs" and "rv_deal_id r \<noteq> None \<longrightarrow> (\<forall>x \<in> set rs. rv_author_id x = rv_author_id r \<longrightarrow> rv_deal_id x \<noteq> rv_deal_id r)"
  shows "one_per_deal (rs @ [r])"
proof -
  have old: "x = y" if "x \<in> set rs" "y \<in> set rs" "rv_author_id x = rv_author_id y" "rv_deal_id x = rv_deal_id y" "rv_deal_id x \<noteq> None" for x y
    using that assms(1) unfolding one_per_deal_def by blast
  have new: False if "x \<in> set rs" "rv_author_id x = rv_author_id r" "rv_deal_id x = rv_deal_id r" "rv_deal_id r \<noteq> None" for x
    using that assms(2) by blast
  show ?thesis unfolding one_per_deal_def
  proof (intro ballI impI, elim conjE)
    fix x y assume x: "x \<in> set (rs @ [r])" and y: "y \<in> set (rs @ [r])"
      and eq: "rv_author_id x = rv_author_id y" "rv_deal_id x = rv_deal_id y" "rv_deal_id x \<noteq> None"
    from x y consider "x \<in> set rs" "y \<in> set rs" | "x = r" "y = r" | "x = r" "y \<in> set rs" | "x \<in> set rs" "y = r" by auto
    then show "x = y"
    proof cases
      case 1
      then show ?thesis using eq by (rule old)
    next
      case 3
      then have False using eq by (intro new [of y]) auto
      then show ?thesis ..
    next
      case 4
      then have False using eq by (intro new [of x]) auto
      then show ?thesis ..
    qed simp
  qed
qed

lemma one_per_deal_subset: "one_per_deal rs \<Longrightarrow> set xs \<subseteq> set rs \<Longrightarrow> one_per_deal xs"
  unfolding one_per_deal_def by blast

definition reviews_ok :: "world \<Rightarrow> bool" where
  "reviews_ok w \<longleftrightarrow> ratings_ok w \<and> tkeys rv_id (t_reviews w) \<and> (\<forall>r \<in> set (t_reviews w). rv_id r < seq_reviews w)
     \<and> one_per_deal (t_reviews w)"

text \<open>The counters of everybody but one user are right, and the table of that user changed: the
  recomputation settles it.\<close>

lemma recompute_settles:
  assumes "\<forall>u \<in> set (t_users w). u_id u \<noteq> i \<longrightarrow> tallied (u_id u) w u"
  shows "ratings_ok (recompute_user_rating i w)"
  using assms by (auto simp: ratings_ok_def tallied_def recompute_user_rating_def tupd_def good_count_def bad_count_def)

lemma recompute_frame [simp]:
  "t_reviews (recompute_user_rating i w) = t_reviews w" "seq_reviews (recompute_user_rating i w) = seq_reviews w"
  "map u_id (t_users (recompute_user_rating i w)) = map u_id (t_users w)"
  by (simp_all add: recompute_user_rating_def tupd_def)

lemma reviews_frame [simp]:
  "t_reviews (log_admin_action a s ty k r p w) = t_reviews w" "seq_reviews (log_admin_action a s ty k r p w) = seq_reviews w"
  "t_reviews (snd (notifier_insert now k ntt nt pl w)) = t_reviews w" "seq_reviews (snd (notifier_insert now k ntt nt pl w)) = seq_reviews w"
  "t_reviews (emit es w) = t_reviews w" "seq_reviews (emit es w) = seq_reviews w"
  by (simp_all add: log_admin_action_def notifier_insert_def emit_def Let_def)

lemma reviews_dispatch [simp]:
  "t_reviews (dispatch_after_commit n w) = t_reviews w" "seq_reviews (dispatch_after_commit n w) = seq_reviews w"
  by (simp_all add: dispatch_after_commit_def Let_def split: prod.splits option.splits)

text \<open>What \<open>reviews_ok\<close> depends on.\<close>

definition same_reviews :: "world \<Rightarrow> world \<Rightarrow> bool" where
  "same_reviews w' w \<longleftrightarrow> t_reviews w' = t_reviews w \<and> seq_reviews w' = seq_reviews w
     \<and> map (\<lambda>u. (u_id u, u_good u, u_bad u)) (t_users w') = map (\<lambda>u. (u_id u, u_good u, u_bad u)) (t_users w)"

lemma same_reviewsI: "t_reviews w' = t_reviews w \<Longrightarrow> seq_reviews w' = seq_reviews w \<Longrightarrow> t_users w' = t_users w \<Longrightarrow> same_reviews w' w"
  by (simp add: same_reviews_def)

lemma ratings_ok_keys:
  "ratings_ok w \<longleftrightarrow> (\<forall>(i, g, b) \<in> set (map (\<lambda>u. (u_id u, u_good u, u_bad u)) (t_users w)). g = good_count i w \<and> b = bad_count i w)"
  by (auto simp: ratings_ok_def tallied_def)

lemma reviews_ok_cong: "same_reviews w' w \<Longrightarrow> reviews_ok w' = reviews_ok w"
  unfolding reviews_ok_def ratings_ok_keys by (simp add: same_reviews_def good_count_def bad_count_def del: set_map)

section \<open>Every operation keeps them\<close>

lemma inserted_review:
  assumes "insert_review r w = Inr (r', w1)" and "reviews_ok w"
  shows "reviews_ok (recompute_user_rating (rv_target_id r) w1)"
proof -
  have r': "r' = r \<lparr> rv_id := seq_reviews w \<rparr>" "w1 = w \<lparr> t_reviews := t_reviews w @ [r'], seq_reviews := seq_reviews w + 1 \<rparr>"
    and new: "rv_deal_id r \<noteq> None \<longrightarrow> (\<forall>x \<in> set (t_reviews w). rv_author_id x = rv_author_id r \<longrightarrow> rv_deal_id x \<noteq> rv_deal_id r)"
    using assms(1) by (auto simp: insert_review_def Let_def split: if_splits)
  have "tallied j w1 u = tallied j w u" if "j \<noteq> rv_target_id r" for j u
    using that by (simp add: tallied_def counts_as_sums r')
  then have "ratings_ok (recompute_user_rating (rv_target_id r) w1)"
    using assms(2) by (intro recompute_settles) (simp add: reviews_ok_def ratings_ok_def r')
  moreover have "seq_reviews w \<notin> rv_id ` set (t_reviews w)" using assms(2) by (auto simp: reviews_ok_def)
  then have "tkeys rv_id (t_reviews w1)" using assms(2) by (simp add: r' tkeys_def reviews_ok_def)
  moreover have "one_per_deal (t_reviews w1)"
    using one_per_deal_snoc [of "t_reviews w" r'] assms(2) new by (simp add: r' reviews_ok_def)
  moreover have "\<forall>x \<in> set (t_reviews w1). rv_id x < seq_reviews w1" using assms(2) by (fastforce simp: r' reviews_ok_def)
  ultimately show ?thesis unfolding reviews_ok_def recompute_frame by blast
qed

lemma edited_review:
  assumes "get_review i w = Some r" and "reviews_ok w" and "rv_id r' = i" "rv_target_id r' = rv_target_id r"
    "rv_author_id r' = rv_author_id r" "rv_deal_id r' = rv_deal_id r"
  shows "reviews_ok (recompute_user_rating (rv_target_id r) (save_review r' w))"
    and "rv_rating r' = rv_rating r \<Longrightarrow> reviews_ok (save_review r' w)"
proof -
  have r: "r \<in> set (t_reviews w)" "rv_id r = i" using assms(1) by (auto simp: get_review_def dest: tget_Some)
  have keys: "tkeys rv_id (t_reviews w)" and one: "one_per_deal (t_reviews w)"
    and ids: "\<forall>r \<in> set (t_reviews w). rv_id r < seq_reviews w"
    using assms(2) by (auto simp: reviews_ok_def)
  note sums = sum_list_tput [OF keys, of r' r]
  have count: "good_count j (save_review r' w) = good_count j w - good_share j r + good_share j r'"
    "bad_count j (save_review r' w) = bad_count j w - bad_share j r + bad_share j r'" for j
    using sums assms(1,3) by (simp_all add: counts_as_sums save_review_def get_review_def)
  have rest: "tkeys rv_id (t_reviews (save_review r' w))" "\<forall>x \<in> set (t_reviews (save_review r' w)). rv_id x < seq_reviews (save_review r' w)"
    "one_per_deal (t_reviews (save_review r' w))"
  proof -
    show "tkeys rv_id (t_reviews (save_review r' w))" using keys by (simp add: save_review_def)
    have mem: "x = r' \<or> x \<in> set (t_reviews w) \<and> x \<noteq> r" if "x \<in> set (t_reviews (save_review r' w))" for x
      using that set_tput_cases [of x rv_id r' "t_reviews w"] r(2) assms(3) by (auto simp: save_review_def)
    show "\<forall>x \<in> set (t_reviews (save_review r' w)). rv_id x < seq_reviews (save_review r' w)"
    proof
      fix x assume "x \<in> set (t_reviews (save_review r' w))"
      then show "rv_id x < seq_reviews (save_review r' w)"
        using mem [of x] ids r assms(3) by (cases "x = r'") (auto simp: save_review_def)
    qed
    show "one_per_deal (t_reviews (save_review r' w))"
      unfolding one_per_deal_def using mem one [unfolded one_per_deal_def] r(1) assms(5,6) by metis
  qed
  have "tallied j (save_review r' w) u = tallied j w u" if "j \<noteq> rv_target_id r \<or> rv_rating r' = rv_rating r" for j u
    using that assms(4) by (auto simp: tallied_def count good_share_def bad_share_def)
  then show "rv_rating r' = rv_rating r \<Longrightarrow> reviews_ok (save_review r' w)"
    "reviews_ok (recompute_user_rating (rv_target_id r) (save_review r' w))"
    using rest assms(2) recompute_settles [of "save_review r' w" "rv_target_id r"]
    by (auto simp: reviews_ok_def ratings_ok_def save_review_def)
qed

lemma dropped_review:
  assumes "get_review i w = Some r" and "reviews_ok w"
  shows "reviews_ok (recompute_user_rating (rv_target_id r) (w \<lparr> t_reviews := filter (\<lambda>x. rv_id x \<noteq> i) (t_reviews w) \<rparr>))"
proof -
  let ?v = "w \<lparr> t_reviews := filter (\<lambda>x. rv_id x \<noteq> i) (t_reviews w) \<rparr>"
  have only: "x = r" if "x \<in> set (t_reviews w)" "rv_id x = i" for x
    using that tget_in_set [of rv_id "t_reviews w" x] assms by (simp add: reviews_ok_def get_review_def)
  have sum: "sum_list (map h (filter Q rs)) = sum_list (map h rs)" if "\<forall>x \<in> set rs. \<not> Q x \<longrightarrow> h x = (0::int)" for h Q and rs :: "review list"
    using that by (induction rs) auto
  have "tallied j ?v u = tallied j w u" if "j \<noteq> rv_target_id r" for j u
  proof -
    have "\<forall>x \<in> set (t_reviews w). \<not> rv_id x \<noteq> i \<longrightarrow> good_share j x = 0" "\<forall>x \<in> set (t_reviews w). \<not> rv_id x \<noteq> i \<longrightarrow> bad_share j x = 0"
      using that only by auto
    then show ?thesis by (simp add: tallied_def counts_as_sums sum)
  qed
  then have "ratings_ok (recompute_user_rating (rv_target_id r) ?v)"
    using assms(2) by (intro recompute_settles) (simp add: reviews_ok_def ratings_ok_def)
  then show ?thesis using assms(2) one_per_deal_subset [of "t_reviews w" "filter (\<lambda>x. rv_id x \<noteq> i) (t_reviews w)"]
    by (simp add: reviews_ok_def tkeys_def distinct_map_filter)
qed

lemma remove_deal_reviews:
  fixes i :: int
  assumes "reviews_ok w"
  shows "reviews_ok (remove_deal i w)"
proof -
  let ?f = "\<lambda>r :: review. if rv_deal_id r = Some (i :: int) then r \<lparr> rv_deal_id := None \<rparr> else r"
  have rows: "t_reviews (remove_deal i w) = map ?f (t_reviews w)" "seq_reviews (remove_deal i w) = seq_reviews w"
    "t_users (remove_deal i w) = t_users w"
    by (simp_all add: remove_deal_def tupd_def)
  have "good_share j (?f r) = good_share j r" "bad_share j (?f r) = bad_share j r" "rv_id (?f r) = rv_id r" for j r
    by (simp_all add: good_share_def bad_share_def)
  then have "tallied j (remove_deal i w) u = tallied j w u" "map rv_id (map ?f (t_reviews w)) = map rv_id (t_reviews w)" for j u
    by (simp_all add: tallied_def counts_as_sums rows comp_def)
  moreover have "one_per_deal (map ?f (t_reviews w))"
    unfolding one_per_deal_def
  proof (intro ballI impI)
    fix x y assume xy: "x \<in> set (map ?f (t_reviews w))" "y \<in> set (map ?f (t_reviews w))"
      "rv_author_id x = rv_author_id y \<and> rv_deal_id x = rv_deal_id y \<and> rv_deal_id x \<noteq> None"
    then have "x \<in> set (t_reviews w)" "y \<in> set (t_reviews w)" by (auto split: if_splits)
    then show "x = y" using xy(3) assms unfolding reviews_ok_def one_per_deal_def by blast
  qed
  moreover have "map rv_id (map ?f rs) = map rv_id rs" for rs by (induction rs) auto
  then have "tkeys rv_id (map ?f (t_reviews w))" using assms by (simp only: tkeys_def reviews_ok_def)
  moreover have "\<forall>r \<in> set (map ?f (t_reviews w)). rv_id r < seq_reviews w" using assms by (auto simp: reviews_ok_def)
  ultimately show ?thesis using assms by (simp only: reviews_ok_def ratings_ok_def rows) blast
qed

section \<open>Steps\<close>

lemma recompute_frame_books [simp]: "same_books (recompute_user_rating i w) w"
  by (simp add: recompute_user_rating_def same_books_def)

lemma post_review_world:
  assumes "post_review now others author target rating body deal_id w = (r, w')"
  shows "(\<exists>e. r = Inl e) \<and> (w' = w \<or> w' = others w)
    \<or> (\<exists>x x' w1. r = Inr x' \<and> insert_review x (others w) = Inr (x', w1) \<and> rv_target_id x = u_id target
         \<and> same_reviews w' (recompute_user_rating (u_id target) w1))"
proof (cases "review_refused author target rating body deal_id w")
  case (Some e)
  then show ?thesis using assms by (auto simp: post_review_def)
next
  case None
  let ?x = "\<lparr> rv_id = 0, rv_author_id = u_id author, rv_target_id = u_id target, rv_deal_id = deal_id,
               rv_rating = rating, rv_text = body, rv_created_at = now \<rparr>"
  show ?thesis
  proof (cases "insert_review ?x (others w)")
    case (Inl e)
    then show ?thesis using assms None by (auto simp: post_review_def Let_def)
  next
    case (Inr p)
    obtain x' w1 where p: "p = (x', w1)" by fastforce
    let ?v = "recompute_user_rating (u_id target) w1"
    obtain q w2 where n: "notifier_insert now (u_id target) NT_system
         (N_review_received (AtUsername (given (u_username author) ''None'')) rating) (Some [(''review_id'', JInt (rv_id x'))]) ?v = (q, w2)"
      by fastforce
    have w': "r = Inr x'" "w' = dispatch_after_commit q w2"
      using assms None Inr n by (simp_all add: post_review_def p Let_def)
    have "same_reviews w' ?v"
      using n notifier_insert_frame(1) [of now "u_id target" NT_system _ _ ?v] reviews_frame(3,4) [of now "u_id target" NT_system _ _ ?v]
      unfolding w'(2) by (intro same_reviewsI) (metis reviews_dispatch dispatch_frame(1) snd_conv)+
    then show ?thesis using Inr w'(1) by (intro disjI2 exI [of _ ?x] exI [of _ x'] exI [of _ w1]) (simp add: p)
  qed
qed

lemma post_review_keeps:
  assumes "reviews_ok w" and "reviews_ok (others w)"
  shows "reviews_ok (snd (post_review now others author target rating body deal_id w))"
proof -
  obtain r w' where p: "post_review now others author target rating body deal_id w = (r, w')" by fastforce
  from post_review_world [OF p] show ?thesis
  proof
    assume "\<exists>x x' w1. r = Inr x' \<and> insert_review x (others w) = Inr (x', w1) \<and> rv_target_id x = u_id target
         \<and> same_reviews w' (recompute_user_rating (u_id target) w1)"
    then obtain x x' w1 where x: "insert_review x (others w) = Inr (x', w1)" "rv_target_id x = u_id target"
      "same_reviews w' (recompute_user_rating (u_id target) w1)" by blast
    from inserted_review [OF x(1) assms(2)] show ?thesis using x(2,3) reviews_ok_cong by (simp add: p)
  qed (use assms in \<open>auto simp: p\<close>)
qed

lemma admin_create_keeps:
  assumes "reviews_ok w"
  shows "reviews_ok (snd (admin_create_review now admin b w))"
proof -
  have same: "same_reviews (log_admin_action a s ty k r p v) v" for a s ty k r p v by (intro same_reviewsI) simp_all
  show ?thesis
    using assms
    by (auto simp: admin_create_review_def reviews_ok_cong [OF same] split: option.splits sum.splits prod.splits
        dest!: inserted_review [OF _ assms])
qed

lemma admin_update_keeps:
  assumes "reviews_ok w"
  shows "reviews_ok (snd (admin_update_review admin i b w))"
proof (cases "get_review i w")
  case None
  then show ?thesis using assms by (simp add: admin_update_review_def)
next
  case (Some r)
  have same: "same_reviews (log_admin_action a s ty k x p v) v" for a s ty k x p v by (intro same_reviewsI) simp_all
  have i: "rv_id r = i" using Some by (auto simp: get_review_def dest: tget_Some)
  let ?r' = "r \<lparr> rv_rating := ru_rating b, rv_text := ru_text b \<rparr>"
  have "reviews_ok (recompute_user_rating (rv_target_id r) (save_review ?r' w))"
    "rv_rating r = ru_rating b \<Longrightarrow> reviews_ok (save_review ?r' w)"
    using edited_review [OF Some assms, of ?r'] i by simp_all
  then show ?thesis using assms Some by (auto simp: admin_update_review_def Let_def reviews_ok_cong [OF same])
qed

lemma admin_delete_keeps:
  assumes "reviews_ok w"
  shows "reviews_ok (snd (admin_delete_review admin i w))"
proof (cases "get_review i w")
  case None
  then show ?thesis using assms by (simp add: admin_delete_review_def)
next
  case (Some r)
  let ?w1 = "log_admin_action admin ''review.delete'' ''review'' (rv_id r) None ((''id'', MInt (rv_id r)) # review_meta r) w"
  have "same_reviews ?w1 w" by (intro same_reviewsI) simp_all
  then have "reviews_ok ?w1" "get_review i ?w1 = Some r" using assms Some reviews_ok_cong by (auto simp: get_review_def)
  from dropped_review [OF this(2,1)] show ?thesis using Some by (simp add: admin_delete_review_def Let_def)
qed

lemma sweep_keeps:
  assumes "reviews_ok w"
  shows "reviews_ok (snd (sweep_user_last_ip retention now w))"
proof -
  have "same_reviews (snd (sweep_user_last_ip retention now w)) w"
    by (auto simp: sweep_user_last_ip_def same_reviews_def tupd_def Let_def)
  then show ?thesis using assms reviews_ok_cong by blast
qed

text \<open>
  The review operations as steps, among any other steps that touch neither the reviews nor the counters
  (\<open>quiet\<close>) and the deletion of deals. What runs between the check and the insert of a new review is any
  number of steps.
\<close>

inductive review_step :: "world \<Rightarrow> world \<Rightarrow> bool" where
  posted: "review_step\<^sup>*\<^sup>* w (others w) \<Longrightarrow> review_step w (snd (create_review now others author name rating body deal_id w))"
| created: "review_step w (snd (admin_create_review now admin b w))"
| updated: "review_step w (snd (admin_update_review admin i b w))"
| deleted: "review_step w (snd (admin_delete_review admin i w))"
| swept: "review_step w (snd (sweep_user_last_ip retention now w))"
| deal_removed: "review_step w (remove_deal i w)"
| quiet: "same_reviews w' w \<Longrightarrow> review_step w w'"

lemma create_review_snd:
  "snd (create_review now others author name rating body deal_id w) = w
   \<or> (\<exists>target. snd (create_review now others author name rating body deal_id w)
        = snd (post_review now others author target rating body (Some deal_id) w))"
  by (auto simp: create_review_def split: option.splits prod.splits sum.splits) (metis snd_conv)+

lemma review_step_keeps: "review_step w w' \<Longrightarrow> reviews_ok w \<Longrightarrow> reviews_ok w'"
proof (induction rule: review_step.induct)
  case (posted w others now author name rating body deal_id)
  from posted.IH have "reviews_ok (others w)"
    by (induction rule: rtranclp_induct) (use posted.prems in auto)
  then show ?case
    using create_review_snd [of now others author name rating body deal_id w] post_review_keeps [OF posted.prems] posted.prems by metis
qed (simp_all add: admin_create_keeps admin_update_keeps admin_delete_keeps sweep_keeps remove_deal_reviews reviews_ok_cong)

text \<open>
  C29. However reviews are posted (also at the same time), written, edited and deleted by administrators and
  deals deleted: the counters \<open>good\<close> and \<open>bad\<close> of every user are what the table of reviews says, and no
  author has two reviews of one deal.
\<close>

theorem ratings_follow_the_reviews:
  assumes "review_step\<^sup>*\<^sup>* w0 w" and "reviews_ok w0"
  shows "(\<forall>u \<in> set (t_users w). u_good u = good_count (u_id u) w \<and> u_bad u = bad_count (u_id u) w) \<and> one_per_deal (t_reviews w)"
proof -
  have "reviews_ok w" using assms by (induction rule: rtranclp_induct) (auto intro: review_step_keeps)
  then show ?thesis by (auto simp: reviews_ok_def ratings_ok_def tallied_def)
qed

lemma posted_review_is_kept:
  assumes "create_review now others author name rating body deal_id w = (Inr r, w')"
  shows "r \<in> set (t_reviews w')"
proof -
  obtain target where p: "post_review now others author target rating body (Some deal_id) w = (Inr r, w')"
    using assms by (auto simp: create_review_def split: option.splits prod.splits sum.splits if_splits)
  obtain x x' w1 where x: "r = x'" "insert_review x (others w) = Inr (x', w1)" "same_reviews w' (recompute_user_rating (u_id target) w1)"
    using post_review_world [OF p] by auto
  then show ?thesis by (auto simp: same_reviews_def insert_review_def Let_def split: if_splits)
qed

text \<open>
  C30. A review is posted only by a party of a finished deal about the other party, with a rating from 1 to 5,
  and only the first time: the same author's next review of the deal is refused.
\<close>

theorem reviews_are_earned_once:
  assumes "create_review now others author name rating body deal_id w = (Inr r, w')"
  shows "\<exists>target deal. user_by_name name w = Some target \<and> get_deal deal_id w = Some deal \<and> d_status deal \<in> set REVIEWABLE_DEAL_STATUSES
      \<and> {u_id author, u_id target} = {d_buyer_id deal, d_seller_id deal} \<and> u_id author \<noteq> u_id target
      \<and> rv_author_id r = u_id author \<and> rv_target_id r = u_id target \<and> rv_deal_id r = Some deal_id
      \<and> 1 \<le> rv_rating r \<and> rv_rating r \<le> 5 \<and> r \<in> set (t_reviews w')
      \<and> \<not> succeeds (create_review later others' author name' rating' body' deal_id w')"
proof -
  obtain target where t: "user_by_name name w = Some target" "u_id target \<noteq> u_id author"
    and p: "post_review now others author target rating body (Some deal_id) w = (Inr r, w')"
    using assms by (auto simp: create_review_def split: option.splits prod.splits sum.splits if_splits)
  have none: "review_refused author target rating body (Some deal_id) w = None"
    using p by (auto simp: post_review_def split: option.splits)
  then obtain deal where d: "get_deal deal_id w = Some deal" "d_status deal \<in> set REVIEWABLE_DEAL_STATUSES"
    "u_id author \<in> {d_buyer_id deal, d_seller_id deal}"
    "(if u_id author = d_buyer_id deal then d_seller_id deal else d_buyer_id deal) = u_id target" "1 \<le> rating" "rating \<le> 5"
    by (auto simp: review_refused_def split: option.splits if_splits)
  obtain x x' w1 where x: "r = x'" "insert_review x (others w) = Inr (x', w1)" "same_reviews w' (recompute_user_rating (u_id target) w1)"
    using post_review_world [OF p] by auto
  have r: "rv_author_id r = u_id author" "rv_target_id r = u_id target" "rv_deal_id r = Some deal_id" "rv_rating r = rating"
    using p none by (auto simp: post_review_def insert_review_def Let_def split: sum.splits prod.splits if_splits)
  have mem: "r \<in> set (t_reviews w')"
    using assms by (rule posted_review_is_kept)
  then have "review_exists (u_id author) deal_id w'" using r by (auto simp: review_exists_def)
  then have refused: "review_refused author t2 rating' body' (Some deal_id) w' = None \<Longrightarrow> False" for t2
    by (auto simp: review_refused_def split: option.splits if_splits)
  then have "\<not> succeeds (create_review later others' author name' rating' body' deal_id w')"
    using refused by (auto simp: create_review_def post_review_def split: option.splits prod.splits sum.splits)
  then show ?thesis using t d r mem by (intro exI [of _ target] exI [of _ deal]) (auto split: if_splits)
qed

text \<open>
  The counters an administrator writes with \<open>set_stats\<close> last until the next review: posting it sets them
  back to what the table says.
\<close>

theorem next_review_drops_the_override:
  assumes "set_stats t1 admin i stats w = (Inr v, w1)" and "post_review t2 id author target rating body deal_id w1 = (Inr r, w2)"
    and "u_id target = i"
  shows "\<exists>u. get_user i w2 = Some u \<and> u_good u = good_count i w2 \<and> u_bad u = bad_count i w2"
proof -
  obtain x w3 where x: "insert_review x w1 = Inr (r, w3)" "rv_target_id x = i" "same_reviews w2 (recompute_user_rating i w3)"
    using post_review_world [OF assms(2)] assms(3) by auto
  let ?v = "recompute_user_rating i w3" and ?key = "\<lambda>u. (u_id u, u_good u, u_bad u)"
  have counts: "good_count i w2 = good_count i w3" "bad_count i w2 = bad_count i w3"
    using x(3) by (simp_all add: same_reviews_def good_count_def bad_count_def)
  have keys: "?key ` set (t_users w2) = ?key ` set (t_users ?v)" 
  proof -
    have "map ?key (t_users w2) = map ?key (t_users ?v)" using x(3) unfolding same_reviews_def by blast
    then show ?thesis unfolding list.set_map [symmetric] by (rule arg_cong)
  qed
  have "get_user i w1 \<noteq> None" "t_users w3 = t_users w1" using x(1,2) by (auto simp: insert_review_def Let_def split: if_splits)
  then have "i \<in> u_id ` set (t_users w3)" by (simp add: get_user_def tget_None_iff)
  moreover have same: "set (map u_id (t_users ?v)) = set (map u_id (t_users w3))" unfolding recompute_frame(3) ..
  have "fst ` ?key ` set (t_users w2) = fst ` ?key ` set (t_users ?v)" using keys by (rule arg_cong)
  then have "u_id ` set (t_users w2) = u_id ` set (t_users ?v)" by (simp only: image_image fst_conv)
  then have "u_id ` set (t_users w2) = u_id ` set (t_users w3)" using same by (simp only: set_map)
  ultimately have "i \<in> u_id ` set (t_users w2)" by blast
  then have "get_user i w2 \<noteq> None" by (simp add: get_user_def tget_None_iff)
  then obtain u where u: "get_user i w2 = Some u" by blast
  then have "u \<in> set (t_users w2)" "u_id u = i" by (auto simp: get_user_def dest: tget_Some)
  then have "?key u \<in> ?key ` set (t_users ?v)" using keys by blast
  then have "u_good u = good_count i w3 \<and> u_bad u = bad_count i w3"
    using \<open>u_id u = i\<close> by (auto simp: recompute_user_rating_def tupd_def split: if_splits)
  then show ?thesis using u counts by simp
qed

section \<open>Sample requests\<close>

definition review_world :: world where
  "review_world = sample_world \<lparr> t_deals := [sample_deal 41 completed 5] \<rparr>"

lemma review_world_rows:
  "reviews_ok review_world" "user_by_name ''bob'' review_world = Some sample_seller" "get_deal 41 review_world = Some (sample_deal 41 completed 5)"
  "get_user 1 review_world = Some sample_buyer" "get_user 2 review_world = Some sample_seller"
  "u_id sample_buyer = 1" "u_id sample_seller = 2" "t_reviews review_world = []"
  by (simp_all add: reviews_ok_def ratings_ok_def tallied_def good_count_def bad_count_def one_per_deal_def tkeys_def review_world_def
      sample_world_def user_by_name_def get_deal_def get_user_def sample_buyer_def sample_seller_def sample_admin_def sample_user_def sample_deal_def)

lemma sample_review:
  "\<exists>r w'. create_review 5 id sample_buyer ''bob'' 5 ''fine'' 41 review_world = (Inr r, w')"
proof -
  have "review_refused sample_buyer sample_seller 5 ''fine'' (Some 41) review_world = None"
    using review_world_rows by (simp add: review_refused_def sample_deal_def REVIEWABLE_DEAL_STATUSES_def review_exists_def)
  then show ?thesis using review_world_rows
    by (simp add: create_review_def post_review_def insert_review_def Let_def split: prod.split)
qed

lemma ratings_follow_the_reviews_witness:
  "\<exists>w. t_reviews w \<noteq> [] \<and> (\<forall>u \<in> set (t_users w). u_good u = good_count (u_id u) w \<and> u_bad u = bad_count (u_id u) w)"
proof -
  obtain r w' where run: "create_review 5 id sample_buyer ''bob'' 5 ''fine'' 41 review_world = (Inr r, w')" using sample_review by blast
  have "review_step\<^sup>*\<^sup>* review_world (id review_world)" by simp
  from review_step.posted [where others = id and w = review_world, OF this, of 5 sample_buyer "''bob''" 5 "''fine''" 41] have "review_step review_world w'" by (simp add: run)
  then have steps: "review_step\<^sup>*\<^sup>* review_world w'" by blast
  have "r \<in> set (t_reviews w')" using run by (rule posted_review_is_kept)
  then show ?thesis using ratings_follow_the_reviews [OF steps review_world_rows(1)] by (intro exI [of _ w']) auto
qed

lemma reviews_are_earned_once_witness:
  "\<exists>r w'. create_review 5 id sample_buyer ''bob'' 5 ''fine'' 41 review_world = (Inr r, w') \<and> rv_deal_id r = Some 41
     \<and> \<not> succeeds (create_review 6 id sample_buyer ''bob'' 1 ''again'' 41 w')"
proof -
  obtain r w' where run: "create_review 5 id sample_buyer ''bob'' 5 ''fine'' 41 review_world = (Inr r, w')" using sample_review by blast
  from reviews_are_earned_once [OF run, of 6 id "''bob''" 1 "''again''"] show ?thesis using run by blast
qed

lemma next_review_drops_the_override_witness:
  "\<exists>u w2. get_user 2 w2 = Some u \<and> u_good u = good_count 2 w2 \<and> t_reviews w2 \<noteq> []"
proof -
  define stats where "stats = \<lparr> si_deals_total = None, si_deals_success = None, si_deals_failed = None, si_deals_arbitrage = None,
     si_good = Some 90, si_bad = None, si_deals_sum_override = None \<rparr>"
  obtain v w1 where set: "set_stats 4 sample_admin 2 stats review_world = (Inr v, w1)"
    using review_world_rows(5)
    by (simp add: set_stats_def get_user_or_404_def stat_changes_def int_change_def stats_def Let_def sample_seller_def sample_user_def)
  have w1: "t_reviews w1 = []" "t_deals w1 = t_deals review_world" "map u_id (t_users w1) = map u_id (t_users review_world)"
    using set review_world_rows(5,8) same_booksD by (auto simp: set_stats_def get_user_or_404_def Let_def audit_and_notify_def log_admin_action_def save_user_def stat_changes_def int_change_def dec_change_def stats_def split: if_splits)
  have "u_id ` set (t_users w1) = {1, 2, 3}"
    using arg_cong [OF w1(3), of set] by (simp add: review_world_def sample_world_def sample_buyer_def sample_seller_def sample_admin_def sample_user_def)
  then have users: "get_user 1 w1 \<noteq> None" "get_user 2 w1 \<noteq> None" by (simp_all add: get_user_def tget_None_iff)
  have deal: "get_deal 41 w1 = Some (sample_deal 41 completed 5)" using w1(2) review_world_rows(3) by (simp add: get_deal_def)
  have ok: "review_refused sample_buyer sample_seller 5 ''fine'' (Some 41) w1 = None"
    using deal w1(1) review_world_rows(6,7) by (simp add: review_refused_def review_exists_def sample_deal_def REVIEWABLE_DEAL_STATUSES_def)
  have "insert_review \<lparr> rv_id = 0, rv_author_id = 1, rv_target_id = 2, rv_deal_id = Some 41, rv_rating = 5, rv_text = ''fine'', rv_created_at = 5 \<rparr> w1 \<noteq> Inl e" for e
    using users deal w1(1) by (auto simp: insert_review_def Let_def)
  then obtain p where ins: "insert_review \<lparr> rv_id = 0, rv_author_id = 1, rv_target_id = 2, rv_deal_id = Some 41, rv_rating = 5, rv_text = ''fine'', rv_created_at = 5 \<rparr> w1 = Inr p"
    by (meson sum.exhaust_sel)
  have "\<exists>r. fst (post_review 5 id sample_buyer sample_seller 5 ''fine'' (Some 41) w1) = Inr r"
    using ok ins unfolding post_review_def review_world_rows(6,7) by (cases p) (simp add: Let_def split: prod.split)
  then obtain r w2 where post: "post_review 5 id sample_buyer sample_seller 5 ''fine'' (Some 41) w1 = (Inr r, w2)"
    by (metis prod.collapse)
  obtain x w3 where "insert_review x w1 = Inr (r, w3)" "same_reviews w2 (recompute_user_rating 2 w3)"
    using post_review_world [OF post] review_world_rows(7) by auto
  then have "t_reviews w2 \<noteq> []" by (auto simp: same_reviews_def insert_review_def Let_def split: if_splits)
  then show ?thesis using next_review_drops_the_override [OF set post] review_world_rows(7) by blast
qed

end
