(* ===== verification/Taxonomy.thy ===== *)
theory Taxonomy
  imports Reviews
begin

text \<open>
  The reference data an administrator edits (\<open>backend/app/routers/admin/taxonomy.py\<close>, its bodies in
  \<open>backend/app/schemas.py\<close>): categories and currencies, created or changed by their natural key and
  deleted unless something still refers to them. Compiling a regular expression is the parameter
  \<open>re_compiles\<close>.
\<close>

section \<open>Bodies\<close>

text \<open>A validated text: trimmed, its letters in one case, at most \<open>n\<close> characters, and not empty when it must not be.\<close>

definition trimmed_upto :: "nat \<Rightarrow> bool \<Rightarrow> (char \<Rightarrow> char) \<Rightarrow> string \<Rightarrow> string option" where
  "trimmed_upto n required recase v = (let s = map recase (strip v) in if required \<and> s = [] \<or> n < length s then None else Some s)"

record category_upsert =
  gu_slug :: string
  gu_name :: string
  gu_icon :: string

definition category_upsert_validated :: "category_upsert \<Rightarrow> category_upsert option" where
  "category_upsert_validated b =
     (case (trimmed_upto 64 True to_lower (gu_slug b), trimmed_upto 128 True id (gu_name b), trimmed_upto 64 False id (gu_icon b)) of
        (Some s, Some n, Some i) \<Rightarrow> Some \<lparr> gu_slug = s, gu_name = n, gu_icon = i \<rparr>
      | _ \<Rightarrow> None)"

record currency_upsert =
  cu_code :: string
  cu_name :: "string option"
  cu_network :: "string option"
  cu_icon_url :: "string option"
  cu_decimals :: "int option"
  cu_min_deposit :: "decimal option"
  cu_min_withdraw :: "decimal option"
  cu_is_active :: "bool option"
  cu_sort_order :: "int option"
  cu_address_regex :: "string option"
  cu_kind :: "currency_kind option"

definition decimals_ok :: "int option \<Rightarrow> bool" where
  "decimals_ok v = (case v of None \<Rightarrow> True | Some d \<Rightarrow> 0 \<le> d \<and> d \<le> 18)"

text \<open>The pattern \<open>\([^()]*[+*]\)[+*]\<close> at the head of a text and anywhere in it.\<close>

definition nested_at :: "string \<Rightarrow> bool" where
  "nested_at s =
     (case s of
        [] \<Rightarrow> False
      | c # r \<Rightarrow>
        let inner = takeWhile (\<lambda>x. x \<noteq> CHR ''('' \<and> x \<noteq> CHR '')'') r; rest = drop (length inner) r
        in c = CHR ''('' \<and> inner \<noteq> [] \<and> last inner \<in> {CHR ''+'', CHR ''*''} \<and> 2 \<le> length rest
           \<and> rest ! 0 = CHR '')'' \<and> rest ! 1 \<in> {CHR ''+'', CHR ''*''})"

fun nested_quantifier :: "string \<Rightarrow> bool" where
  "nested_quantifier [] = False"
| "nested_quantifier (c # r) = (nested_at (c # r) \<or> nested_quantifier r)"

definition address_regex_ok :: "(string \<Rightarrow> bool) \<Rightarrow> string option \<Rightarrow> bool" where
  "address_regex_ok re_compiles v =
     (case v of
        None \<Rightarrow> True
      | Some r \<Rightarrow> if r = [] then True
                  else if 1024 < length r then False
                  else if nested_quantifier r then False else re_compiles r)"

definition currency_upsert_validated :: "(string \<Rightarrow> bool) \<Rightarrow> currency_upsert \<Rightarrow> currency_upsert option" where
  "currency_upsert_validated re_compiles b =
     (case trimmed_upto 16 True to_upper (cu_code b) of
        None \<Rightarrow> None
      | Some code \<Rightarrow>
        if decimals_ok (cu_decimals b) \<and> non_negative (cu_min_deposit b) \<and> non_negative (cu_min_withdraw b)
           \<and> address_regex_ok re_compiles (cu_address_regex b)
           \<and> (case cu_kind b of None \<Rightarrow> True | Some k \<Rightarrow> k = K_crypto \<or> k = K_fiat)
        then Some (b \<lparr> cu_code := code \<rparr>) else None)"

section \<open>Audit payload with a context\<close>

definition state_change_context :: "meta option \<Rightarrow> meta option \<Rightarrow> meta \<Rightarrow> meta" where
  "state_change_context before after extra = state_change_payload before after @ [(''context'', MObj extra)]"

section \<open>Categories\<close>

definition category_by_slug :: "string \<Rightarrow> world \<Rightarrow> category option" where
  "category_by_slug s w = List.find (\<lambda>c. cat_slug c = s) (t_categories w)"

definition list_categories :: "world \<Rightarrow> category list" where
  "list_categories w = sort_key cat_id (t_categories w)"

definition category_side :: "category \<Rightarrow> meta" where
  "category_side c = [(''name'', MStr (cat_name c)), (''icon'', MStr (cat_icon c))]"

definition log_category :: "user \<Rightarrow> string \<Rightarrow> meta option \<Rightarrow> category \<Rightarrow> world \<Rightarrow> world" where
  "log_category admin action before c w =
     log_admin_action admin action ''category'' (cat_id c) None
       (state_change_context before (Some (category_side c)) [(''slug'', MStr (cat_slug c))]) w"

definition upsert_category :: "user \<Rightarrow> category_upsert \<Rightarrow> world \<Rightarrow> category result" where
  "upsert_category admin b0 w =
     (case category_upsert_validated b0 of
        None \<Rightarrow> (Inl (HTTP 422 (E_other ''validation'')), w)
      | Some b \<Rightarrow>
     (case category_by_slug (gu_slug b) w of
        None \<Rightarrow>
          let c = \<lparr> cat_id = seq_categories w, cat_slug = gu_slug b, cat_name = gu_name b, cat_icon = gu_icon b \<rparr>
          in (Inr c, log_category admin ''category.create'' None c
                       (w \<lparr> t_categories := t_categories w @ [c], seq_categories := seq_categories w + 1 \<rparr>))
      | Some old \<Rightarrow>
          let c = old \<lparr> cat_name := gu_name b, cat_icon := gu_icon b \<rparr>
          in (Inr c, log_category admin ''category.update'' (Some (category_side old)) c
                       (w \<lparr> t_categories := tput cat_id c (t_categories w) \<rparr>))))"

definition delete_category :: "user \<Rightarrow> int \<Rightarrow> world \<Rightarrow> unit result" where
  "delete_category admin i w =
     (case tget cat_id i (t_categories w) of
        None \<Rightarrow> (Inl (HTTP 404 (E_other ''category_not_found'')), w)
      | Some c \<Rightarrow>
        if \<exists>s \<in> set (t_services w). sv_category_id s = cat_id c then (Inl (HTTP 409 (E_other ''category_in_use'')), w)
        else (Inr (), log_admin_action admin ''category.delete'' ''category'' i None
                        ((''slug'', MStr (cat_slug c)) # category_side c)
                        (w \<lparr> t_categories := filter (\<lambda>x. cat_id x \<noteq> i) (t_categories w) \<rparr>)))"

section \<open>Currencies\<close>

record currency_out =
  uo_id :: int
  uo_code :: string
  uo_name :: string
  uo_network :: string
  uo_icon_url :: string
  uo_decimals :: nat
  uo_min_deposit :: decimal
  uo_min_withdraw :: decimal
  uo_is_active :: bool
  uo_sort_order :: int
  uo_address_regex :: string
  uo_kind :: currency_kind

definition kind_text :: "currency_kind \<Rightarrow> string" where
  "kind_text k = (case k of K_fiat \<Rightarrow> ''fiat'' | K_crypto \<Rightarrow> ''crypto'' | K_other s \<Rightarrow> s)"

definition kind_or_crypto :: "currency_kind \<Rightarrow> currency_kind" where
  "kind_or_crypto k = (if kind_text k = [] then K_crypto else k)"

definition cur_to_out :: "currency \<Rightarrow> currency_out" where
  "cur_to_out c = \<lparr> uo_id = c_id c, uo_code = c_code c, uo_name = c_name c, uo_network = c_network c, uo_icon_url = c_icon_url c,
     uo_decimals = c_decimals c, uo_min_deposit = c_min_deposit c, uo_min_withdraw = c_min_withdraw c, uo_is_active = c_is_active c,
     uo_sort_order = c_sort_order c, uo_address_regex = c_address_regex c, uo_kind = kind_or_crypto (c_kind c) \<rparr>"

definition list_currencies_admin :: "world \<Rightarrow> currency_out list" where
  "list_currencies_admin w = map cur_to_out (sort_key c_sort_order (sort_key c_id (t_currencies w)))"

text \<open>Minimums appear in the payload as the floats of their decimals.\<close>

definition currency_side :: "currency \<Rightarrow> meta" where
  "currency_side c = [(''name'', MStr (c_name c)), (''network'', MStr (c_network c)), (''icon_url'', MStr (c_icon_url c)),
     (''decimals'', MInt (int (c_decimals c))), (''min_deposit'', MDec (c_min_deposit c)), (''min_withdraw'', MDec (c_min_withdraw c)),
     (''is_active'', MBool (c_is_active c)), (''sort_order'', MInt (c_sort_order c)), (''address_regex'', MStr (c_address_regex c)),
     (''kind'', MStr (kind_text (kind_or_crypto (c_kind c))))]"

definition currency_dump :: "currency \<Rightarrow> meta" where
  "currency_dump c = (''id'', MInt (c_id c)) # (''code'', MStr (c_code c)) # currency_side c"

definition new_currency :: "int \<Rightarrow> currency_upsert \<Rightarrow> currency" where
  "new_currency i b =
     \<lparr> c_id = i, c_code = cu_code b,
       c_name = (case cu_name b of None \<Rightarrow> cu_code b | Some n \<Rightarrow> if n = [] then cu_code b else n),
       c_network = given (cu_network b) [], c_icon_url = given (cu_icon_url b) [],
       c_decimals = nat (given (cu_decimals b) 2),
       c_min_deposit = given (cu_min_deposit b) 1, c_min_withdraw = given (cu_min_withdraw b) 1,
       c_is_active = given (cu_is_active b) True, c_sort_order = given (cu_sort_order b) 0,
       c_address_regex = given (cu_address_regex b) [], c_kind = given (cu_kind b) K_crypto \<rparr>"

definition edited_currency :: "currency_upsert \<Rightarrow> currency \<Rightarrow> currency" where
  "edited_currency b c =
     c \<lparr> c_name := given (cu_name b) (c_name c), c_network := given (cu_network b) (c_network c),
         c_icon_url := given (cu_icon_url b) (c_icon_url c),
         c_decimals := (case cu_decimals b of None \<Rightarrow> c_decimals c | Some d \<Rightarrow> nat d),
         c_min_deposit := given (cu_min_deposit b) (c_min_deposit c),
         c_min_withdraw := given (cu_min_withdraw b) (c_min_withdraw c),
         c_is_active := given (cu_is_active b) (c_is_active c), c_sort_order := given (cu_sort_order b) (c_sort_order c),
         c_address_regex := given (cu_address_regex b) (c_address_regex c), c_kind := given (cu_kind b) (c_kind c) \<rparr>"

text \<open>What the columns take (\<open>String(64)\<close>, \<open>String(32)\<close>, \<open>Integer\<close>, \<open>Numeric(28, 8)\<close>) and what they keep.\<close>

definition int32_fits :: "int \<Rightarrow> bool" where
  "int32_fits i \<longleftrightarrow> - (2 ^ 31) \<le> i \<and> i < 2 ^ 31"

definition money_fits :: "decimal \<Rightarrow> bool" where
  "money_fits x \<longleftrightarrow> \<bar>column x\<bar> < 10 ^ 20"

definition currency_fits :: "currency \<Rightarrow> bool" where
  "currency_fits c \<longleftrightarrow> length (c_name c) \<le> 64 \<and> length (c_network c) \<le> 32 \<and> money_fits (c_min_deposit c)
     \<and> money_fits (c_min_withdraw c) \<and> int32_fits (c_sort_order c)"

definition currency_row :: "currency \<Rightarrow> currency" where
  "currency_row c = c \<lparr> c_min_deposit := column (c_min_deposit c), c_min_withdraw := column (c_min_withdraw c) \<rparr>"

definition currency_by_code :: "string \<Rightarrow> world \<Rightarrow> currency option" where
  "currency_by_code s w = List.find (\<lambda>c. c_code c = s) (t_currencies w)"

definition log_currency :: "user \<Rightarrow> string \<Rightarrow> meta option \<Rightarrow> currency \<Rightarrow> world \<Rightarrow> world" where
  "log_currency admin action before c w =
     log_admin_action admin action ''currency'' (c_id c) None
       (state_change_context before (Some (currency_dump c)) [(''code'', MStr (c_code c))]) w"

definition upsert_currency :: "(string \<Rightarrow> bool) \<Rightarrow> user \<Rightarrow> currency_upsert \<Rightarrow> world \<Rightarrow> currency_out result" where
  "upsert_currency re_compiles admin b0 w =
     (case currency_upsert_validated re_compiles b0 of
        None \<Rightarrow> (Inl (HTTP 422 (E_other ''validation'')), w)
      | Some b \<Rightarrow>
     (case currency_by_code (cu_code b) w of
        None \<Rightarrow>
          let c = new_currency (seq_currencies w) b
          in if \<not> currency_fits c then (Inl DataError, w)
             else (Inr (cur_to_out c), log_currency admin ''currency.create'' None c
                     (w \<lparr> t_currencies := t_currencies w @ [currency_row c], seq_currencies := seq_currencies w + 1 \<rparr>))
      | Some old \<Rightarrow>
          let c = edited_currency b old
          in if \<not> currency_fits c then (Inl DataError, w)
             else (Inr (cur_to_out c), log_currency admin ''currency.update'' (Some (currency_side old)) c
                     (w \<lparr> t_currencies := tput c_id (currency_row c) (t_currencies w) \<rparr>))))"

text \<open>The tables that are asked, and the ones that also have a foreign key to \<open>currencies\<close>.\<close>

definition CURRENCY_REFERENCES :: "(string \<times> (world \<Rightarrow> int list)) list" where
  "CURRENCY_REFERENCES =
     [(''deals'', \<lambda>w. map d_currency_id (t_deals w)),
      (''services'', \<lambda>w. concat (map (\<lambda>s. case sv_currency_id s of None \<Rightarrow> [] | Some c \<Rightarrow> [c]) (t_services w))),
      (''user_balances'', \<lambda>w. map b_currency_id (t_balances w)),
      (''wallet_deposits'', \<lambda>w. map dep_currency_id (t_deposits w)),
      (''wallet_withdrawals'', \<lambda>w. map wd_currency_id (t_withdrawals w))]"

definition blockers :: "int \<Rightarrow> world \<Rightarrow> string list" where
  "blockers i w = map fst (filter (\<lambda>(_, col). i \<in> set (col w)) CURRENCY_REFERENCES)"

definition other_currency_keys :: "world \<Rightarrow> int list" where
  "other_currency_keys w = map r_currency_id (t_usd_rates w) @ map l_currency_id (t_ledger w)
     @ concat (map (\<lambda>a. case ar_currency_id a of None \<Rightarrow> [] | Some c \<Rightarrow> [c]) (t_approvals w))"

definition delete_currency :: "user \<Rightarrow> int \<Rightarrow> world \<Rightarrow> unit result" where
  "delete_currency admin i w =
     (case get_currency i w of
        None \<Rightarrow> (Inl (HTTP 404 E_currency_not_found), w)
      | Some c \<Rightarrow>
        if blockers i w \<noteq> [] then (Inl (HTTP 409 (E_referenced (sort (blockers i w)))), w)
        else if i \<in> set (other_currency_keys w) then (Inl IntegrityError, w)
        else (Inr (), log_admin_action admin ''currency.delete'' ''currency'' i None
                [(''code'', MStr (c_code c)), (''name'', MStr (c_name c)), (''network'', MStr (c_network c)),
                 (''decimals'', MInt (int (c_decimals c))), (''is_active'', MBool (c_is_active c)),
                 (''sort_order'', MInt (c_sort_order c))]
                (w \<lparr> t_currencies := filter (\<lambda>x. c_id x \<noteq> i) (t_currencies w) \<rparr>)))"


section \<open>The tables stay sound\<close>

definition currency_keys :: "world \<Rightarrow> int list" where
  "currency_keys w = concat (map (\<lambda>(_, col). col w) CURRENCY_REFERENCES) @ other_currency_keys w"

definition currency_sound :: "currency \<Rightarrow> bool" where
  "currency_sound c \<longleftrightarrow> c_code c \<noteq> [] \<and> length (c_code c) \<le> 16 \<and> c_decimals c \<le> 18 \<and> currency_fits c
     \<and> 0 \<le> c_min_deposit c \<and> storable (c_min_deposit c) \<and> 0 \<le> c_min_withdraw c \<and> storable (c_min_withdraw c)"

definition category_sound :: "category \<Rightarrow> bool" where
  "category_sound c \<longleftrightarrow> cat_slug c \<noteq> [] \<and> length (cat_slug c) \<le> 64 \<and> cat_name c \<noteq> [] \<and> length (cat_name c) \<le> 128
     \<and> length (cat_icon c) \<le> 64"

text \<open>Keys are unique and below their sequence, every reference is to a row that exists, every row fits its columns.\<close>

definition taxonomy_ok :: "world \<Rightarrow> bool" where
  "taxonomy_ok w \<longleftrightarrow>
     tkeys c_id (t_currencies w) \<and> tkeys c_code (t_currencies w) \<and> tkeys cat_id (t_categories w) \<and> tkeys cat_slug (t_categories w)
     \<and> list_all (\<lambda>c. currency_sound c \<and> c_id c < seq_currencies w) (t_currencies w)
     \<and> list_all (\<lambda>c. category_sound c \<and> cat_id c < seq_categories w) (t_categories w)
     \<and> set (currency_keys w) \<subseteq> c_id ` set (t_currencies w)
     \<and> sv_category_id ` set (t_services w) \<subseteq> cat_id ` set (t_categories w)"

inductive taxonomy_step :: "world \<Rightarrow> world \<Rightarrow> bool" where
  category_put: "taxonomy_step w (snd (upsert_category admin b w))"
| category_gone: "taxonomy_step w (snd (delete_category admin i w))"
| currency_put: "taxonomy_step w (snd (upsert_currency re_compiles admin c w))"
| currency_gone: "taxonomy_step w (snd (delete_currency admin i w))"

lemma log_keeps [simp]:
  "taxonomy_ok (log_admin_action a x y i r m w) = taxonomy_ok w" "currency_keys (log_admin_action a x y i r m w) = currency_keys w"
  "t_currencies (log_admin_action a x y i r m w) = t_currencies w" "t_categories (log_admin_action a x y i r m w) = t_categories w"
  "t_services (log_admin_action a x y i r m w) = t_services w"
  "seq_currencies (log_admin_action a x y i r m w) = seq_currencies w" "seq_categories (log_admin_action a x y i r m w) = seq_categories w"
  by (simp_all add: taxonomy_ok_def currency_keys_def other_currency_keys_def CURRENCY_REFERENCES_def log_admin_action_def)

lemma log_action_same_books [simp]: "same_books (log_admin_action a x y i r m w) w"
  by (simp add: same_books_def log_admin_action_def)

lemmas log_books [simp] = same_booksD(1) [OF log_action_same_books] same_booksD(4) [OF log_action_same_books]

lemma tkeys_snoc [simp]: "tkeys key (xs @ [x]) \<longleftrightarrow> tkeys key xs \<and> key x \<notin> key ` set xs"
  by (auto simp: tkeys_def)

lemma tkeys_filtered: "tkeys key xs \<Longrightarrow> tkeys key (filter p xs)"
  by (auto simp: tkeys_def distinct_map intro: inj_on_subset)

lemma tkeys_put_same:
  assumes "tkeys k1 rows" and "tget k1 (k1 r) rows = Some r0" and "k2 r = k2 r0" and "tkeys k2 rows"
  shows "tkeys k2 (tput k1 r rows)"
proof -
  have "map k2 (tput k1 r rows) = map k2 rows" using assms(1-3)
    by (induction rows) (auto simp: tkeys_def image_iff tput_def split: if_splits)
  then show ?thesis using assms(4) by (simp add: tkeys_def)
qed

lemma find_keyD: "List.find (\<lambda>c. key c = k) xs = Some x \<Longrightarrow> x \<in> set xs \<and> key x = k"
  by (auto simp: find_Some_iff)

lemma find_key_None: "List.find (\<lambda>c. key c = k) xs = None \<Longrightarrow> k \<notin> key ` set xs"
  by (auto simp: find_None_iff)

lemma money_fits_column [simp]: "money_fits (column x) = money_fits x"
  by (simp add: money_fits_def)

lemma currency_row_simps [simp]:
  "c_id (currency_row c) = c_id c" "c_code (currency_row c) = c_code c" "c_decimals (currency_row c) = c_decimals c"
  "currency_fits (currency_row c) = currency_fits c"
  by (simp_all add: currency_row_def currency_fits_def)

lemma trimmed_uptoD: "trimmed_upto n req f v = Some s \<Longrightarrow> length s \<le> n \<and> (req \<longrightarrow> s \<noteq> [])"
  by (auto simp: trimmed_upto_def Let_def split: if_splits)

lemma category_validatedD:
  "category_upsert_validated b0 = Some b \<Longrightarrow> gu_slug b \<noteq> [] \<and> length (gu_slug b) \<le> 64 \<and> gu_name b \<noteq> [] \<and> length (gu_name b) \<le> 128
     \<and> length (gu_icon b) \<le> 64"
  by (auto simp: category_upsert_validated_def split: option.splits dest!: trimmed_uptoD)

lemma currency_validatedD:
  "currency_upsert_validated rc b0 = Some b \<Longrightarrow> cu_code b \<noteq> [] \<and> length (cu_code b) \<le> 16 \<and> decimals_ok (cu_decimals b)
     \<and> non_negative (cu_min_deposit b) \<and> non_negative (cu_min_withdraw b)"
  by (auto simp: currency_upsert_validated_def split: option.splits if_splits dest!: trimmed_uptoD)

lemma keys_currencies: "currency_keys (w \<lparr> t_currencies := x, seq_currencies := n \<rparr>) = currency_keys w"
  "currency_keys (w \<lparr> t_currencies := x \<rparr>) = currency_keys w" "currency_keys (w \<lparr> t_categories := y \<rparr>) = currency_keys w"
  "currency_keys (w \<lparr> t_categories := y, seq_categories := n \<rparr>) = currency_keys w"
  by (simp_all add: currency_keys_def other_currency_keys_def CURRENCY_REFERENCES_def)

lemma upsert_category_keeps: "taxonomy_ok w \<Longrightarrow> taxonomy_ok (snd (upsert_category admin b0 w))"
proof (cases "category_upsert_validated b0")
  case (Some b)
  note v = category_validatedD [OF Some]
  assume ok: "taxonomy_ok w"
  show ?thesis
  proof (cases "category_by_slug (gu_slug b) w")
    case None
    then show ?thesis using ok v Some
      by (auto simp: upsert_category_def Let_def log_category_def category_by_slug_def taxonomy_ok_def category_sound_def keys_currencies
          list_all_iff simp del: list_all_append dest!: find_key_None)
  next
    case (Some old)
    then have old: "old \<in> set (t_categories w)" "cat_slug old = gu_slug b" by (auto simp: category_by_slug_def dest: find_keyD)
    let ?c = "old \<lparr> cat_name := gu_name b, cat_icon := gu_icon b \<rparr>"
    have "tget cat_id (cat_id ?c) (t_categories w) = Some old" using ok old by (auto simp: taxonomy_ok_def intro: tget_in_set)
    then have "tkeys cat_slug (tput cat_id ?c (t_categories w))" using ok by (intro tkeys_put_same) (auto simp: taxonomy_ok_def)
    then show ?thesis using ok v old Some \<open>category_upsert_validated b0 = Some b\<close>
      by (auto simp: upsert_category_def Let_def log_category_def taxonomy_ok_def category_sound_def keys_currencies
          list_all_iff dest!: set_tput_cases)
  qed
qed (simp add: upsert_category_def)

lemma given_simps [simp]: "given None y = y" "given (Some x) y = x"
  by (simp_all add: given_def)

lemma given_non_negative: "non_negative v \<Longrightarrow> 0 \<le> y \<Longrightarrow> 0 \<le> given v y"
  by (cases v) (simp_all add: non_negative_def)

lemma decimals_given: "decimals_ok v \<Longrightarrow> nat (given v 2) \<le> 18"
  by (cases v) (auto simp: decimals_ok_def)

lemma column_non_negative: "0 \<le> x \<Longrightarrow> 0 \<le> column x"
proof -
  assume "0 \<le> x"
  then have "0 \<le> x * 10 ^ MONEY_SCALE" by simp
  then show ?thesis by (simp add: column_def round_half_away_def)
qed

lemma currency_row_sound:
  "\<lbrakk>c_code c \<noteq> []; length (c_code c) \<le> 16; c_decimals c \<le> 18; currency_fits c; 0 \<le> c_min_deposit c; 0 \<le> c_min_withdraw c\<rbrakk>
    \<Longrightarrow> currency_sound (currency_row c)"
  by (simp add: currency_sound_def) (simp add: currency_row_def column_non_negative)

lemma new_currency_sound:
  assumes "currency_upsert_validated rc b0 = Some b" and "currency_fits (new_currency i b)"
  shows "currency_sound (currency_row (new_currency i b))"
  using currency_validatedD [OF assms(1)] assms(2)
  by (intro currency_row_sound) (simp_all add: new_currency_def given_non_negative decimals_given)

lemma edited_currency_sound:
  assumes "currency_upsert_validated rc b0 = Some b" and "currency_fits (edited_currency b c)" and "currency_sound c"
  shows "currency_sound (currency_row (edited_currency b c))"
proof -
  have "c_decimals (edited_currency b c) \<le> 18"
    using currency_validatedD [OF assms(1)] assms(3)
    by (cases "cu_decimals b") (auto simp: edited_currency_def decimals_ok_def currency_sound_def)
  then show ?thesis using currency_validatedD [OF assms(1)] assms(2,3)
    by (intro currency_row_sound) (simp_all add: edited_currency_def given_non_negative currency_sound_def)
qed

lemma edited_ids [simp]: "c_id (edited_currency b c) = c_id c" "c_code (edited_currency b c) = c_code c"
  "c_id (new_currency i b) = i" "c_code (new_currency i b) = cu_code b"
  by (simp_all add: edited_currency_def new_currency_def)

lemma upsert_currency_keeps: "taxonomy_ok w \<Longrightarrow> taxonomy_ok (snd (upsert_currency rc admin b0 w))"
proof (cases "currency_upsert_validated rc b0")
  case (Some b)
  note v = this
  assume ok: "taxonomy_ok w"
  show ?thesis
  proof (cases "currency_by_code (cu_code b) w")
    case None
    let ?c = "new_currency (seq_currencies w) b"
    have "\<not> currency_fits ?c \<or> currency_sound (currency_row ?c)" using new_currency_sound [OF v] by blast
    then show ?thesis using ok v None
      by (auto simp: upsert_currency_def Let_def log_currency_def currency_by_code_def taxonomy_ok_def keys_currencies
          list_all_iff dest!: find_key_None)
  next
    case (Some old)
    then have old: "old \<in> set (t_currencies w)" "c_code old = cu_code b" by (auto simp: currency_by_code_def dest: find_keyD)
    let ?c = "edited_currency b old"
    have "tget c_id (c_id old) (t_currencies w) = Some old" using ok old by (auto simp: taxonomy_ok_def intro: tget_in_set)
    then have keys: "tkeys c_code (tput c_id (currency_row ?c) (t_currencies w))" using ok by (intro tkeys_put_same [of c_id _ _ old]) (auto simp: taxonomy_ok_def)
    have sound: "currency_fits ?c \<Longrightarrow> currency_sound (currency_row ?c)"
      using edited_currency_sound [OF v] ok old by (auto simp: taxonomy_ok_def list_all_iff)
    have below: "c_id old < seq_currencies w" using ok old by (auto simp: taxonomy_ok_def list_all_iff)
    have rows: "x = currency_row ?c \<or> x \<in> set (t_currencies w)" if "x \<in> set (tput c_id (currency_row ?c) (t_currencies w))" for x
      using set_tput_cases [OF that] by blast
    then have all: "list_all (\<lambda>c. currency_sound c \<and> c_id c < seq_currencies w) (tput c_id (currency_row ?c) (t_currencies w))" if "currency_fits ?c"
      using sound [OF that] below ok unfolding taxonomy_ok_def list_all_iff by fastforce
    show ?thesis using ok v Some keys all
      by (simp add: upsert_currency_def Let_def log_currency_def taxonomy_ok_def keys_currencies)
  qed
qed (simp add: upsert_currency_def)

lemma list_all_filtered: "list_all p xs \<Longrightarrow> list_all p (filter q xs)"
  by (auto simp: list_all_iff)

lemma kept_keys: "k \<subseteq> key ` set rows \<Longrightarrow> i \<notin> k \<Longrightarrow> k \<subseteq> key ` set (filter (\<lambda>x. key x \<noteq> i) rows)"
  by auto

lemma delete_category_keeps: "taxonomy_ok w \<Longrightarrow> taxonomy_ok (snd (delete_category admin i w))"
proof (cases "\<exists>c. tget cat_id i (t_categories w) = Some c \<and> (\<forall>s \<in> set (t_services w). sv_category_id s \<noteq> cat_id c)")
  case True
  assume ok: "taxonomy_ok w"
  have "i \<notin> sv_category_id ` set (t_services w)" using True by (auto dest!: tget_Some)
  then have refs: "sv_category_id ` set (t_services w) \<subseteq> cat_id ` set (filter (\<lambda>x. cat_id x \<noteq> i) (t_categories w))"
    using ok by (intro kept_keys) (auto simp: taxonomy_ok_def)
  from True obtain c where "tget cat_id i (t_categories w) = Some c" "\<forall>s \<in> set (t_services w). sv_category_id s \<noteq> cat_id c" by blast
  then show ?thesis using ok refs
    by (simp add: delete_category_def taxonomy_ok_def tkeys_filtered keys_currencies list_all_filtered del: set_filter)
qed (auto simp: delete_category_def split: option.splits)

lemma unblocked: "blockers i w = [] \<Longrightarrow> i \<notin> set (other_currency_keys w) \<Longrightarrow> i \<notin> set (currency_keys w)"
  by (auto simp: blockers_def currency_keys_def filter_empty_conv)

lemma delete_currency_keeps: "taxonomy_ok w \<Longrightarrow> taxonomy_ok (snd (delete_currency admin i w))"
proof (cases "\<exists>c. get_currency i w = Some c \<and> blockers i w = [] \<and> i \<notin> set (other_currency_keys w)")
  case True
  assume ok: "taxonomy_ok w"
  have "i \<notin> set (currency_keys w)" using True unblocked by blast
  then have refs: "set (currency_keys w) \<subseteq> c_id ` set (filter (\<lambda>x. c_id x \<noteq> i) (t_currencies w))"
    using ok by (intro kept_keys) (auto simp: taxonomy_ok_def)
  from True obtain c where "get_currency i w = Some c" "blockers i w = []" "i \<notin> set (other_currency_keys w)" by blast
  then show ?thesis using ok refs
    by (simp add: delete_currency_def taxonomy_ok_def tkeys_filtered keys_currencies list_all_filtered del: set_filter)
qed (auto simp: delete_currency_def split: option.splits)

text \<open>
  C31. Whatever categories and currencies administrators create, change or delete, also with calls that are
  refused: slugs and codes stay unique, every row fits its columns and bounds, and every deal, service,
  account, deposit, withdrawal, rate, ledger entry and approval still refers to a currency that exists,
  every service to a category that exists.
\<close>

theorem reference_data_stays_sound:
  assumes "taxonomy_step\<^sup>*\<^sup>* w0 w" and "taxonomy_ok w0"
  shows "taxonomy_ok w"
  using assms
proof (induction rule: rtranclp_induct)
  case (step y z)
  from step.hyps(2) step.IH [OF step.prems] show ?case
    by (cases rule: taxonomy_step.cases)
      (auto intro: upsert_category_keeps delete_category_keeps upsert_currency_keeps delete_currency_keeps)
qed


text \<open>The guard of \<open>delete_currency\<close> asks five tables; a currency that only a rate, the ledger or an
  approval refers to passes it and ends in the constraint.\<close>

lemma rated_currency_is_not_deleted:
  assumes "get_currency i w = Some c" and "blockers i w = []" and "i \<in> r_currency_id ` set (t_usd_rates w)"
  shows "delete_currency admin i w = (Inl IntegrityError, w)"
  using assms by (simp add: delete_currency_def other_currency_keys_def)

text \<open>The check of an address pattern finds the first of its two textbook shapes and misses the second.\<close>

lemma lazy_quantifier_passes: "nested_quantifier ''^(a+)+$'' \<and> \<not> nested_quantifier ''(.*?)+$''"
  by code_simp

section \<open>Currencies and the books\<close>

lemma other_currencies:
  assumes "books_ok w" and "t_balances w' = t_balances w" and "t_deals w' = t_deals w" and "t_withdrawals w' = t_withdrawals w"
    and "t_deposits w' = t_deposits w" and "seq_deals w' = seq_deals w" and "seq_deposits w' = seq_deposits w"
    and "seq_withdrawals w' = seq_withdrawals w" and "currencies_ok w'" and "list_all (deal_ok w') (t_deals w)"
  shows "books_ok w'"
  using assms
  by (auto simp: books_ok_def balances_ok_def deals_ok_def withdrawals_ok_def deposits_ok_def escrow_def reserved_def books_balance_def
      accounts_def get_balance_def list_all_iff)

lemma accounts_currencies: "accounts (w \<lparr> t_currencies := x, seq_currencies := n \<rparr>) = accounts w"
  "accounts (w \<lparr> t_currencies := x \<rparr>) = accounts w"
  by (simp_all add: accounts_def get_balance_def)

definition cuts_decimals :: "currency_upsert \<Rightarrow> world \<Rightarrow> bool" where
  "cuts_decimals b w =
     (case cu_decimals b of
        None \<Rightarrow> False
      | Some n \<Rightarrow> list_ex (\<lambda>c. c_code c = map to_upper (strip (cu_code b)) \<and> nat n < c_decimals c) (t_currencies w))"

lemma validated_fields:
  "currency_upsert_validated rc b0 = Some b \<Longrightarrow> cu_code b = map to_upper (strip (cu_code b0)) \<and> cu_decimals b = cu_decimals b0"
  by (auto simp: currency_upsert_validated_def trimmed_upto_def Let_def split: option.splits if_splits)

lemma deal_ok_finer:
  assumes "deal_ok w d" and "\<And>c c'. get_currency (d_currency_id d) w = Some c \<Longrightarrow> get_currency (d_currency_id d) w' = Some c' \<Longrightarrow> c_decimals c \<le> c_decimals c'"
    and "get_currency (d_currency_id d) w = None \<Longrightarrow> get_currency (d_currency_id d) w' = None"
  shows "deal_ok w' d"
  using assms by (auto simp: deal_ok_def split: option.splits intro: on_grid_mono)

lemma currency_edit_books:
  assumes "books_ok w" and fresh: "seq_currencies w \<notin> c_id ` set (t_currencies w)"
    and refs: "\<And>d. d \<in> set (t_deals w) \<Longrightarrow> get_currency (d_currency_id d) w \<noteq> None"
    and "\<not> cuts_decimals b0 w" and "\<forall>n. cu_decimals b0 = Some n \<longrightarrow> nat n \<le> MONEY_SCALE"
  shows "books_ok (snd (upsert_currency rc admin b0 w)) \<and> accounts (snd (upsert_currency rc admin b0 w)) = accounts w"
proof (cases "currency_upsert_validated rc b0")
  case (Some b)
  note f = validated_fields [OF Some]
  have cur: "currencies_ok w" "deals_ok w" using assms(1) by (auto simp: books_ok_def)
  show ?thesis
  proof (cases "currency_by_code (cu_code b) w")
    case None
    let ?c = "currency_row (new_currency (seq_currencies w) b)" and ?w = "w \<lparr> t_currencies := t_currencies w @ [currency_row (new_currency (seq_currencies w) b)], seq_currencies := seq_currencies w + 1 \<rparr>"
    have "c_decimals ?c \<le> MONEY_SCALE" using assms(5) f by (cases "cu_decimals b0") (auto simp: new_currency_def MONEY_SCALE_def)
    then have "currencies_ok ?w" using cur fresh by (auto simp: currencies_ok_def)
    moreover have "deal_ok ?w d" if "d \<in> set (t_deals w)" for d
    proof -
      have "get_currency (d_currency_id d) w \<noteq> None" by (rule refs [OF that])
      then show ?thesis using cur(2) that by (auto simp: deals_ok_def list_all_iff deal_ok_def get_currency_def tget_append)
    qed
    ultimately have "books_ok ?w" using other_currencies [OF assms(1), of ?w] by (simp add: list_all_iff)
    then show ?thesis using assms(1) Some None by (simp add: upsert_currency_def Let_def log_currency_def accounts_currencies)
  next
    case (Some old)
    let ?c = "currency_row (edited_currency b old)" and ?w = "w \<lparr> t_currencies := tput c_id (currency_row (edited_currency b old)) (t_currencies w) \<rparr>"
    have old: "old \<in> set (t_currencies w)" "c_code old = cu_code b" using Some by (auto simp: currency_by_code_def dest: find_keyD)
    then have get: "get_currency (c_id old) w = Some old" using cur by (auto simp: get_currency_def currencies_ok_def intro: tget_in_set)
    have le: "c_decimals old \<le> c_decimals ?c" "c_decimals ?c \<le> MONEY_SCALE" using assms(4,5) f old cur
      by (auto simp: edited_currency_def cuts_decimals_def list_ex_iff currencies_ok_def list_all_iff not_less split: option.splits)
    have "currencies_ok ?w" using cur le by (auto simp: currencies_ok_def list_all_iff dest!: set_tput_cases)
    moreover have "deal_ok ?w d" if "d \<in> set (t_deals w)" for d
    proof (rule deal_ok_finer [of w])
      show "deal_ok w d" using cur(2) that by (simp add: deals_ok_def list_all_iff)
      have new: "get_currency i ?w = (if i = c_id old then Some ?c else get_currency i w)" for i
        using get by (auto simp: get_currency_def tget_tput tget_None_iff dest!: tget_Some)
      show "c_decimals c \<le> c_decimals c'" if "get_currency (d_currency_id d) w = Some c" "get_currency (d_currency_id d) ?w = Some c'" for c c'
        using that get le(1) unfolding new by (auto split: if_splits)
      show "get_currency (d_currency_id d) ?w = None" if "get_currency (d_currency_id d) w = None"
        using that get unfolding new by auto
    qed
    ultimately have "books_ok ?w" using other_currencies [OF assms(1), of ?w] by (simp add: list_all_iff)
    then show ?thesis using assms(1) Some \<open>currency_upsert_validated rc b0 = Some b\<close> by (simp add: upsert_currency_def Let_def log_currency_def accounts_currencies)
  qed
qed (simp add: upsert_currency_def assms(1))

text \<open>
  Creating or changing a currency moves no money, and the books stay balanced as long as the currency
  gets at most eight decimals and keeps the ones it had.
\<close>

theorem currency_edits_keep_books:
  assumes "books_ok w" and "taxonomy_ok w" and "\<not> cuts_decimals b0 w" and "\<forall>n. cu_decimals b0 = Some n \<longrightarrow> nat n \<le> MONEY_SCALE"
  shows "books_ok (snd (upsert_currency rc admin b0 w)) \<and> accounts (snd (upsert_currency rc admin b0 w)) = accounts w"
proof (rule currency_edit_books [OF assms(1) _ _ assms(3,4)])
  show "seq_currencies w \<notin> c_id ` set (t_currencies w)" using assms(2) by (auto simp: taxonomy_ok_def list_all_iff)
  fix d assume "d \<in> set (t_deals w)"
  then have "d_currency_id d \<in> c_id ` set (t_currencies w)" using assms(2)
    by (auto simp: taxonomy_ok_def currency_keys_def CURRENCY_REFERENCES_def)
  then show "get_currency (d_currency_id d) w \<noteq> None" by (simp add: get_currency_def tget_None_iff)
qed

text \<open>What an edit of an existing currency leaves.\<close>

lemma upsert_existing:
  assumes "upsert_currency rc admin b0 w = (Inr v, w1)" and "get_currency (uo_id v) w = Some c0" and "taxonomy_ok w"
  shows "t_balances w1 = t_balances w" "t_deals w1 = t_deals w" "t_withdrawals w1 = t_withdrawals w"
    "\<exists>c. get_currency (uo_id v) w1 = Some c \<and> c_decimals c = uo_decimals v"
proof -
  obtain b where b: "currency_upsert_validated rc b0 = Some b" using assms(1) by (auto simp: upsert_currency_def split: option.splits)
  show "t_balances w1 = t_balances w" "t_deals w1 = t_deals w" "t_withdrawals w1 = t_withdrawals w"
    using assms(1) b by (auto simp: upsert_currency_def Let_def log_currency_def log_admin_action_def split: option.splits if_splits)
  have fresh: "seq_currencies w \<notin> c_id ` set (t_currencies w)" using assms(3) by (auto simp: taxonomy_ok_def list_all_iff)
  have "uo_id v \<in> c_id ` set (t_currencies w)" using assms(2) tget_None_iff [of c_id "uo_id v" "t_currencies w"] by (auto simp: get_currency_def)
  then obtain old where old: "currency_by_code (cu_code b) w = Some old" "v = cur_to_out (edited_currency b old)"
    "t_currencies w1 = tput c_id (currency_row (edited_currency b old)) (t_currencies w)"
    using assms(1) b fresh by (auto simp: upsert_currency_def Let_def log_currency_def cur_to_out_def split: option.splits if_splits)
  have "old \<in> set (t_currencies w)" using old(1) by (auto simp: currency_by_code_def dest: find_keyD)
  then have "tget c_id (c_id old) (t_currencies w) = Some old" using assms(3) by (auto simp: taxonomy_ok_def intro: tget_in_set)
  then have "tget c_id (c_id old) (t_currencies w1) = Some (currency_row (edited_currency b old))"
    unfolding old(3) using tget_tput_same [of c_id "currency_row (edited_currency b old)"] by simp
  then show "\<exists>c. get_currency (uo_id v) w1 = Some c \<and> c_decimals c = uo_decimals v"
    using old(2) by (auto simp: get_currency_def cur_to_out_def)
qed

text \<open>
  C32. The decimals of a currency in use can be cut, and its open deals are then settled on the coarser grid:
  the seller of a deal in progress gets the rounded amount, and what the rounding takes off stays in the
  buyer's locked money with no deal or withdrawal that holds it.
\<close>

theorem cut_decimals_strand_escrow:
  fixes u :: user
  assumes "upsert_currency rc admin b w = (Inr v, w1)" and "taxonomy_ok w" and "books_ok w"
    and "get_deal (d_id d) w = Some d" and "d_status d = in_progress" and "u_id u = d_buyer_id d"
    and "uo_id v = d_currency_id d" and "uo_decimals v \<le> MONEY_SCALE" and "quantize_money (d_amount d) (uo_decimals v) < d_amount d"
  shows "\<exists>d' w2. finish_deal now d u w1 = (Inr d', w2)
    \<and> free w2 (d_seller_id d) (d_currency_id d) = free w (d_seller_id d) (d_currency_id d) + quantize_money (d_amount d) (uo_decimals v)
    \<and> held w2 (d_buyer_id d) (d_currency_id d) = escrow w2 (d_buyer_id d) (d_currency_id d) + reserved w2 (d_buyer_id d) (d_currency_id d)
        + (d_amount d - quantize_money (d_amount d) (uo_decimals v))"
proof -
  let ?b = "d_buyer_id d" and ?c = "d_currency_id d" and ?x = "quantize_money (d_amount d) (uo_decimals v)"
  note ok = assms(3) [unfolded books_ok_def]
  have d: "deal_ok w d" "d \<in> set (t_deals w)" using ok assms(4) by (auto intro: get_deal_ok dest: get_deal_in)
  have "?c \<in> c_id ` set (t_currencies w)" using assms(2) d(2) by (auto simp: taxonomy_ok_def currency_keys_def CURRENCY_REFERENCES_def)
  then obtain c0 where c0: "get_currency (uo_id v) w = Some c0" unfolding assms(7)
    by (cases "get_currency ?c w") (auto simp: get_currency_def tget_None_iff)
  note e = upsert_existing [OF assms(1) c0 assms(2)]
  obtain cur where cur: "get_currency ?c w1 = Some cur" "c_decimals cur = uo_decimals v" using e(4) assms(7) by auto
  have x: "0 \<le> ?x" "storable ?x" using d(1) assms(8) by (auto simp: deal_ok_def intro: on_grid_mono on_grid_quantize quantize_ge_grid)
  have bal: "balances_ok w1" "accounts w1 = accounts w" using ok balances_ok_cong [OF e(1)] accounts_cong [OF e(1)] by auto
  obtain w3 where rel: "release_to ?b (d_seller_id d) ?c ?x ?x w1 = Inr ((), w3)" using release_to_total by blast
  note paid = release_to_refines(1) [OF bal(1) x(2) x(1) x(2) rel]
  have ne: "?b \<noteq> d_seller_id d" using d(1) by (simp add: deal_ok_def)
  have "d_amount d \<le> held w ?b ?c"
    using deal_hold_le_held [OF assms(3,4), of ?b ?c] assms(5) by (simp add: deal_hold_def holds_escrow_def)
  then have "?x \<le> held w1 ?b ?c" using assms(9) bal(2) by simp
  from held_pay [OF this paid] have r: "held w3 ?b ?c = held w1 ?b ?c - ?x" by simp
  have f: "free w3 (d_seller_id d) ?c = free w1 (d_seller_id d) ?c + ?x"
    using paid ne by (auto simp: a_credit_def a_burn_def a_upd_def split: prod.splits)
  note fr = release_to_frame [OF rel]
  obtain d' w2 where fin: "finish_deal now d u w1 = (Inr d', w2)" "d_status d' = completed" "same_deal d d'" "closed_by d' w3 w2"
    using assms(5,6) cur rel get_currency_id [OF cur(1)]
    by (auto simp: finish_deal_def deal_currency_def Let_def case_prod_beta closed_by_def same_deal_def)
  have acc: "accounts w2 = accounts w3" using closed_accounts [OF fin(4)] .
  have rows: "t_deals w2 = tput d_id (deal_row d') (t_deals w)" "t_withdrawals w2 = t_withdrawals w"
    using fin(4) fr e by (simp_all add: closed_by_def)
  have keys: "tkeys d_id (t_deals w)" "tget d_id (d_id (deal_row d')) (t_deals w) = Some d"
    using ok assms(4) fin(3) by (auto simp: deals_ok_def get_deal_def same_deal_def)
  have "escrow w2 ?b ?c = escrow w ?b ?c - d_amount d"
    using sum_list_tput [OF keys, of "\<lambda>d. deal_hold d ?b ?c"] assms(5) fin(2)
    by (simp add: escrow_def rows(1) deal_hold_def holds_escrow_def)
  moreover have "reserved w2 ?b ?c = reserved w ?b ?c" by (simp add: reserved_def rows(2))
  moreover have "held w ?b ?c = escrow w ?b ?c + reserved w ?b ?c" using ok by (simp add: books_balance_def)
  ultimately have "held w2 ?b ?c = escrow w2 ?b ?c + reserved w2 ?b ?c + (d_amount d - ?x)"
    using acc r bal(2) by simp
  then show ?thesis using fin(1) acc f bal(2) by (intro exI [of _ d'] exI [of _ w2]) simp
qed


section \<open>Sample requests\<close>

definition cut_body :: currency_upsert where
  "cut_body = \<lparr> cu_code = ''usdt'', cu_name = None, cu_network = None, cu_icon_url = None, cu_decimals = Some 0,
     cu_min_deposit = None, cu_min_withdraw = None, cu_is_active = None, cu_sort_order = None, cu_address_regex = None, cu_kind = None \<rparr>"

definition odd_world :: world where
  "odd_world = sample_world \<lparr> t_deals := [sample_deal 5 in_progress (25/2)], t_withdrawals := [],
     t_balances := [\<lparr> b_user_id = 1, b_currency_id = 7, b_amount = 100, b_locked = 25/2 \<rparr>] \<rparr>"

lemma usdt_sound: "currency_sound usdt"
  by (simp add: currency_sound_def usdt_def currency_fits_def money_fits_def int32_fits_def)

lemma sample_taxonomy_ok: "taxonomy_ok sample_world"
  using usdt_sound by (simp add: taxonomy_ok_def tkeys_def sample_rows currency_keys_def other_currency_keys_def CURRENCY_REFERENCES_def)

lemma odd_taxonomy_ok: "taxonomy_ok odd_world"
  using usdt_sound
  by (simp add: taxonomy_ok_def tkeys_def odd_world_def sample_rows currency_keys_def other_currency_keys_def CURRENCY_REFERENCES_def)

lemma usdt_code: "map to_upper (strip ''usdt'') = ''USDT''"
  by code_simp

lemma cut_validated: "currency_upsert_validated rc cut_body = Some (cut_body \<lparr> cu_code := ''USDT'' \<rparr>)"
proof -
  have "trimmed_upto 16 True to_upper ''usdt'' = Some ''USDT''" by code_simp
  then show ?thesis by (simp add: currency_upsert_validated_def cut_body_def decimals_ok_def non_negative_def address_regex_ok_def)
qed

lemma cut_run:
  assumes "t_currencies w = [usdt]"
  shows "upsert_currency rc admin cut_body w = (Inr (cur_to_out (usdt \<lparr> c_decimals := 0 \<rparr>)),
    log_currency admin ''currency.update'' (Some (currency_side usdt)) (usdt \<lparr> c_decimals := 0 \<rparr>)
      (w \<lparr> t_currencies := [usdt \<lparr> c_decimals := 0 \<rparr>] \<rparr>))"
proof -
  have e: "edited_currency (cut_body \<lparr> cu_code := ''USDT'' \<rparr>) usdt = usdt \<lparr> c_decimals := 0 \<rparr>"
    by (simp add: edited_currency_def cut_body_def)
  have fits: "currency_fits (usdt \<lparr> c_decimals := 0 \<rparr>)" "currency_row (usdt \<lparr> c_decimals := 0 \<rparr>) = usdt \<lparr> c_decimals := 0 \<rparr>"
    using usdt_sound by (simp_all add: currency_sound_def currency_fits_def currency_row_def)
  have "currency_by_code ''USDT'' w = Some usdt" by (simp add: currency_by_code_def assms)
  moreover have "cu_code (cut_body \<lparr> cu_code := ''USDT'' \<rparr>) = ''USDT''" by simp
  ultimately show ?thesis unfolding upsert_currency_def cut_validated using fits by (simp add: e Let_def assms)
qed

lemma reference_data_stays_sound_witness: "taxonomy_ok (snd (upsert_currency (\<lambda>_. True) sample_admin cut_body sample_world))"
proof -
  have "taxonomy_step\<^sup>*\<^sup>* sample_world (snd (upsert_currency (\<lambda>_. True) sample_admin cut_body sample_world))"
    using taxonomy_step.currency_put by blast
  then show ?thesis by (rule reference_data_stays_sound [OF _ sample_taxonomy_ok])
qed

lemma currency_edits_keep_books_witness:
  "books_ok (snd (upsert_currency rc sample_admin (cut_body \<lparr> cu_decimals := Some 4 \<rparr>) sample_world))"
proof -
  have "\<not> cuts_decimals (cut_body \<lparr> cu_decimals := Some 4 \<rparr>) sample_world"
    by (simp add: cuts_decimals_def sample_rows)
  then show ?thesis
    using currency_edits_keep_books [OF sample_books_ok sample_taxonomy_ok, of "cut_body \<lparr> cu_decimals := Some 4 \<rparr>" rc sample_admin]
    by (simp add: MONEY_SCALE_def)
qed

lemma odd_books_ok: "books_ok odd_world"
proof -
  have g: "on_grid 2 (25/2)" "storable (25/2)" by (simp_all add: on_grid_def MONEY_SCALE_def)
  have "deals_ok odd_world"
    by (simp add: deals_ok_def tkeys_def odd_world_def deal_ok_def get_currency_def sample_rows g)
  moreover have "withdrawals_ok odd_world" by (simp add: withdrawals_ok_def tkeys_def odd_world_def)
  moreover have "deposits_ok odd_world" by (simp add: deposits_ok_def tkeys_def odd_world_def sample_rows)
  moreover have "currencies_ok odd_world" by (simp add: currencies_ok_def tkeys_def odd_world_def sample_rows MONEY_SCALE_def)
  moreover have "balances_ok odd_world" using g by (simp add: balances_ok_def tkeys_def odd_world_def balance_ok_def)
  moreover have "books_balance odd_world"
    by (simp add: books_balance_def accounts_def get_balance_def escrow_def reserved_def odd_world_def deal_hold_def bkey_def holds_escrow_def)
  ultimately show ?thesis by (simp add: books_ok_def)
qed

lemma cut_decimals_strand_escrow_witness:
  "\<exists>w1 d' w2. finish_deal 9 (sample_deal 5 in_progress (25/2)) sample_buyer w1 = (Inr d', w2)
     \<and> held w2 1 7 = escrow w2 1 7 + reserved w2 1 7 + 1/2"
proof -
  have cur: "t_currencies odd_world = [usdt]" by (simp add: odd_world_def sample_rows)
  have get: "get_deal (d_id (sample_deal 5 in_progress (25/2))) odd_world = Some (sample_deal 5 in_progress (25/2))"
    by (simp add: get_deal_def odd_world_def)
  have q: "quantize_money (25/2) 0 = 12" by code_simp
  from cut_decimals_strand_escrow [OF cut_run [OF cur, of rc sample_admin] odd_taxonomy_ok odd_books_ok get, of sample_buyer 9]
  show ?thesis using q by (fastforce simp: cur_to_out_def usdt_def)
qed

end
