(* ===== verification/Site_Settings.thy ===== *)
theory Site_Settings
  imports Taxonomy
begin

text \<open>
  The one row of \<open>app_settings\<close> and its editor (\<open>backend/app/routers/admin/settings.py\<close>, its body in
  \<open>backend/app/schemas.py\<close>), with the public reads of the row (\<open>public_settings\<close> of
  \<open>backend/app/main.py\<close>, \<open>backend/app/routers/public_stats.py\<close>).
\<close>

section \<open>Fields\<close>

text \<open>The names in \<open>_EDITABLE_FIELDS\<close>, in the order the body declares them.\<close>

datatype setting_key =
    F_deal_commission_percent | F_vip_commission_percent | F_inactivity_pending_confirmation_days
  | F_inactivity_pending_cancellation_days | F_max_active_services_per_user | F_maintenance_enabled
  | F_maintenance_message | F_auto_withdraw_enabled | F_pending_topup_expiry_hours | F_pin_reset_price_usd
  | F_faq_stats_badge_enabled | F_faq_stats_users | F_faq_stats_deals | F_faq_stats_total_usd

definition EDITABLE_FIELDS :: "setting_key list" where
  "EDITABLE_FIELDS =
     [F_deal_commission_percent, F_vip_commission_percent, F_inactivity_pending_confirmation_days,
      F_inactivity_pending_cancellation_days, F_max_active_services_per_user, F_maintenance_enabled,
      F_maintenance_message, F_auto_withdraw_enabled, F_pending_topup_expiry_hours, F_pin_reset_price_usd,
      F_faq_stats_badge_enabled, F_faq_stats_users, F_faq_stats_deals, F_faq_stats_total_usd]"

definition key_text :: "setting_key \<Rightarrow> string" where
  "key_text k =
     (case k of
        F_deal_commission_percent \<Rightarrow> ''deal_commission_percent'' | F_vip_commission_percent \<Rightarrow> ''vip_commission_percent''
      | F_inactivity_pending_confirmation_days \<Rightarrow> ''inactivity_pending_confirmation_days''
      | F_inactivity_pending_cancellation_days \<Rightarrow> ''inactivity_pending_cancellation_days''
      | F_max_active_services_per_user \<Rightarrow> ''max_active_services_per_user'' | F_maintenance_enabled \<Rightarrow> ''maintenance_enabled''
      | F_maintenance_message \<Rightarrow> ''maintenance_message'' | F_auto_withdraw_enabled \<Rightarrow> ''auto_withdraw_enabled''
      | F_pending_topup_expiry_hours \<Rightarrow> ''pending_topup_expiry_hours'' | F_pin_reset_price_usd \<Rightarrow> ''pin_reset_price_usd''
      | F_faq_stats_badge_enabled \<Rightarrow> ''faq_stats_badge_enabled'' | F_faq_stats_users \<Rightarrow> ''faq_stats_users''
      | F_faq_stats_deals \<Rightarrow> ''faq_stats_deals'' | F_faq_stats_total_usd \<Rightarrow> ''faq_stats_total_usd'')"

datatype setting_value = SDec decimal | SInt int | SBool bool | SStr string | SNull

fun get_setting :: "setting_key \<Rightarrow> app_settings \<Rightarrow> setting_value" where
  "get_setting F_deal_commission_percent s = SDec (s_deal_commission_percent s)"
| "get_setting F_vip_commission_percent s = SDec (s_vip_commission_percent s)"
| "get_setting F_inactivity_pending_confirmation_days s = SInt (s_inactivity_pending_confirmation_days s)"
| "get_setting F_inactivity_pending_cancellation_days s = SInt (s_inactivity_pending_cancellation_days s)"
| "get_setting F_max_active_services_per_user s = SInt (s_max_active_services_per_user s)"
| "get_setting F_maintenance_enabled s = SBool (s_maintenance_enabled s)"
| "get_setting F_maintenance_message s = SStr (s_maintenance_message s)"
| "get_setting F_auto_withdraw_enabled s = SBool (s_auto_withdraw_enabled s)"
| "get_setting F_pending_topup_expiry_hours s = SInt (s_pending_topup_expiry_hours s)"
| "get_setting F_pin_reset_price_usd s = SDec (s_pin_reset_price_usd s)"
| "get_setting F_faq_stats_badge_enabled s = SBool (s_faq_stats_badge_enabled s)"
| "get_setting F_faq_stats_users s = SInt (s_faq_stats_users s)"
| "get_setting F_faq_stats_deals s = SInt (s_faq_stats_deals s)"
| "get_setting F_faq_stats_total_usd s = SDec (s_faq_stats_total_usd s)"

text \<open>\<open>setattr\<close>. A null has no place in the row: \<open>update_settings\<close> keeps track of it.\<close>

fun set_setting :: "setting_key \<Rightarrow> setting_value \<Rightarrow> app_settings \<Rightarrow> app_settings" where
  "set_setting F_deal_commission_percent (SDec x) s = s \<lparr> s_deal_commission_percent := x \<rparr>"
| "set_setting F_vip_commission_percent (SDec x) s = s \<lparr> s_vip_commission_percent := x \<rparr>"
| "set_setting F_inactivity_pending_confirmation_days (SInt i) s = s \<lparr> s_inactivity_pending_confirmation_days := i \<rparr>"
| "set_setting F_inactivity_pending_cancellation_days (SInt i) s = s \<lparr> s_inactivity_pending_cancellation_days := i \<rparr>"
| "set_setting F_max_active_services_per_user (SInt i) s = s \<lparr> s_max_active_services_per_user := i \<rparr>"
| "set_setting F_maintenance_enabled (SBool b) s = s \<lparr> s_maintenance_enabled := b \<rparr>"
| "set_setting F_maintenance_message (SStr t) s = s \<lparr> s_maintenance_message := t \<rparr>"
| "set_setting F_auto_withdraw_enabled (SBool b) s = s \<lparr> s_auto_withdraw_enabled := b \<rparr>"
| "set_setting F_pending_topup_expiry_hours (SInt i) s = s \<lparr> s_pending_topup_expiry_hours := i \<rparr>"
| "set_setting F_pin_reset_price_usd (SDec x) s = s \<lparr> s_pin_reset_price_usd := x \<rparr>"
| "set_setting F_faq_stats_badge_enabled (SBool b) s = s \<lparr> s_faq_stats_badge_enabled := b \<rparr>"
| "set_setting F_faq_stats_users (SInt i) s = s \<lparr> s_faq_stats_users := i \<rparr>"
| "set_setting F_faq_stats_deals (SInt i) s = s \<lparr> s_faq_stats_deals := i \<rparr>"
| "set_setting F_faq_stats_total_usd (SDec x) s = s \<lparr> s_faq_stats_total_usd := x \<rparr>"
| "set_setting _ _ s = s"

section \<open>The body\<close>

text \<open>The fields that were sent, with their values; \<open>None\<close> refuses the body (422). The types are the
  ones the body declares, a null is allowed everywhere.\<close>

type_synonym settings_body = "(setting_key \<times> setting_value) list"

definition commission_ok :: "decimal \<Rightarrow> decimal option" where
  "commission_ok d = (if d < - 1 \<or> 100 < d then None else Some (quantize_money d 2))"

definition msg_ok :: "string \<Rightarrow> string option" where
  "msg_ok v = (let s = strip v in if s = [] then None else if 1024 < length s then None else Some s)"

fun field_validated :: "setting_key \<Rightarrow> setting_value \<Rightarrow> setting_value option" where
  "field_validated k SNull = Some SNull"
| "field_validated k (SDec d) =
     (if k = F_deal_commission_percent \<or> k = F_vip_commission_percent then map_option SDec (commission_ok d)
      else if k = F_pin_reset_price_usd then if d < 0 then None else Some (SDec d)
      else if k = F_faq_stats_total_usd then Some (SDec d) else None)"
| "field_validated k (SInt i) =
     (if k \<in> {F_inactivity_pending_confirmation_days, F_inactivity_pending_cancellation_days, F_max_active_services_per_user,
              F_pending_topup_expiry_hours} then if i < 0 then None else Some (SInt i)
      else if k = F_faq_stats_users \<or> k = F_faq_stats_deals then Some (SInt i) else None)"
| "field_validated k (SBool b) =
     (if k \<in> {F_maintenance_enabled, F_auto_withdraw_enabled, F_faq_stats_badge_enabled} then Some (SBool b) else None)"
| "field_validated k (SStr t) = (if k = F_maintenance_message then map_option SStr (msg_ok t) else None)"

fun body_validated :: "settings_body \<Rightarrow> settings_body option" where
  "body_validated [] = Some []"
| "body_validated ((k, v) # fs) =
     (case (field_validated k v, body_validated fs) of (Some v', Some fs') \<Rightarrow> Some ((k, v') # fs') | _ \<Rightarrow> None)"

section \<open>Reading the row\<close>

text \<open>\<open>fresh\<close>: the row was just made from the defaults and is still the one in memory.\<close>

definition get_settings_row :: "world \<Rightarrow> app_settings \<times> bool" where
  "get_settings_row w = (case t_app_settings w of Some s \<Rightarrow> (s, False) | None \<Rightarrow> (default_app_settings, True))"

text \<open>\<open>_to_out\<close>: an expiry of 0 hours reads as 24.\<close>

definition out_value :: "app_settings \<Rightarrow> setting_key \<Rightarrow> setting_value" where
  "out_value s k =
     (if k = F_pending_topup_expiry_hours \<and> s_pending_topup_expiry_hours s = 0 then SInt 24 else get_setting k s)"

definition settings_out :: "app_settings \<Rightarrow> settings_body" where
  "settings_out s = map (\<lambda>k. (k, out_value s k)) EDITABLE_FIELDS"

definition get_settings :: "world \<Rightarrow> settings_body" where
  "get_settings w = settings_out (fst (get_settings_row w))"

section \<open>The update\<close>

text \<open>Is the attribute a \<open>Decimal\<close> in memory? The defaults of the two percentages are floats, so on a
  fresh row they are not.\<close>

definition is_decimal_attr :: "bool \<Rightarrow> setting_key \<Rightarrow> bool" where
  "is_decimal_attr fresh k =
     (k \<in> {F_pin_reset_price_usd, F_faq_stats_total_usd} \<or> k \<in> {F_deal_commission_percent, F_vip_commission_percent} \<and> \<not> fresh)"

fun value_meta :: "setting_value \<Rightarrow> meta_value" where
  "value_meta (SDec d) = MDec d"
| "value_meta (SInt i) = MInt i"
| "value_meta (SBool b) = MBool b"
| "value_meta (SStr t) = MStr t"
| "value_meta SNull = MNull"

text \<open>The loop: the row and the fields that differ, with the old and the new value. \<open>Decimal("None")\<close>
  is an \<open>InvalidOperation\<close>.\<close>

fun apply_fields ::
  "bool \<Rightarrow> settings_body \<Rightarrow> app_settings \<Rightarrow> py_error + (app_settings \<times> (setting_key \<times> setting_value \<times> setting_value) list)" where
  "apply_fields fresh [] s = Inr (s, [])"
| "apply_fields fresh ((k, v) # fs) s =
     (let old = get_setting k s in
      if v = SNull \<and> is_decimal_attr fresh k then Inl InvalidOperation
      else if v = old then apply_fields fresh fs s
      else case apply_fields fresh fs (set_setting k v s) of
        Inl e \<Rightarrow> Inl e
      | Inr (s', ch) \<Rightarrow> Inr (s', (k, old, v) # ch))"

text \<open>The flush: widths of the columns, \<open>NOT NULL\<close>, and the check on the commission.\<close>

definition settings_fit :: "app_settings \<Rightarrow> bool" where
  "settings_fit s \<longleftrightarrow>
     int32_fits (s_inactivity_pending_confirmation_days s) \<and> int32_fits (s_inactivity_pending_cancellation_days s)
     \<and> int32_fits (s_max_active_services_per_user s) \<and> int32_fits (s_pending_topup_expiry_hours s)
     \<and> int32_fits (s_faq_stats_users s) \<and> int32_fits (s_faq_stats_deals s)
     \<and> money_fits (s_pin_reset_price_usd s) \<and> money_fits (s_faq_stats_total_usd s)"

definition saved_settings :: "app_settings \<Rightarrow> app_settings" where
  "saved_settings s = s \<lparr> s_pin_reset_price_usd := column (s_pin_reset_price_usd s),
                          s_faq_stats_total_usd := column (s_faq_stats_total_usd s) \<rparr>"

definition flush_settings :: "bool \<Rightarrow> app_settings \<Rightarrow> py_error option" where
  "flush_settings nulled s =
     (if \<not> settings_fit s then Some DataError
      else if nulled \<or> s_deal_commission_percent s < 0 \<or> 100 < s_deal_commission_percent s then Some IntegrityError
      else None)"

definition update_settings :: "user \<Rightarrow> settings_body \<Rightarrow> world \<Rightarrow> settings_body result" where
  "update_settings admin b w =
     (case body_validated b of
        None \<Rightarrow> (Inl (HTTP 422 (E_other ''validation'')), w)
      | Some sent \<Rightarrow>
        if sent = [] then (Inl (HTTP 400 (E_other ''no_changes'')), w)
        else case get_settings_row w of (row, fresh) \<Rightarrow>
       (case apply_fields fresh sent row of
          Inl e \<Rightarrow> (Inl e, w)
        | Inr (row', changed) \<Rightarrow>
            if changed = [] then (Inr (settings_out row'), w)
            else case flush_settings (list_ex (\<lambda>(k, old, new). new = SNull) changed) row' of
              Some e \<Rightarrow> (Inl e, w)
            | None \<Rightarrow>
                (Inr (settings_out row'),
                 log_admin_action admin ''settings.update'' ''app_settings'' (s_id row') None
                   (state_change_payload (Some (map (\<lambda>(k, old, new). (key_text k, value_meta old)) changed))
                                         (Some (map (\<lambda>(k, old, new). (key_text k, value_meta new)) changed)))
                   (w \<lparr> t_app_settings := Some (saved_settings row') \<rparr>))))"

section \<open>Public reads\<close>

definition public_settings :: "world \<Rightarrow> (setting_key \<times> setting_value) list" where
  "public_settings w =
     (let s = (case t_app_settings w of Some s \<Rightarrow> s | None \<Rightarrow> default_app_settings)
      in map (\<lambda>k. (k, get_setting k s)) [F_deal_commission_percent, F_vip_commission_percent, F_auto_withdraw_enabled, F_faq_stats_badge_enabled])"

definition public_stats :: "world \<Rightarrow> int \<times> int \<times> decimal" where
  "public_stats w =
     (case t_app_settings w of
        None \<Rightarrow> (0, 0, 0)
      | Some s \<Rightarrow> (s_faq_stats_users s, s_faq_stats_deals s, s_faq_stats_total_usd s))"


section \<open>The row stays well-formed\<close>

text \<open>What the validators promise of a row, and what the columns and the constraint add.\<close>

definition row_bounds :: "app_settings \<Rightarrow> bool" where
  "row_bounds s \<longleftrightarrow>
     - 1 \<le> s_deal_commission_percent s \<and> s_deal_commission_percent s \<le> 100 \<and> on_grid 2 (s_deal_commission_percent s)
     \<and> - 1 \<le> s_vip_commission_percent s \<and> s_vip_commission_percent s \<le> 100 \<and> on_grid 2 (s_vip_commission_percent s)
     \<and> 0 \<le> s_inactivity_pending_confirmation_days s \<and> 0 \<le> s_inactivity_pending_cancellation_days s
     \<and> 0 \<le> s_max_active_services_per_user s \<and> 0 \<le> s_pending_topup_expiry_hours s
     \<and> s_maintenance_message s \<noteq> [] \<and> length (s_maintenance_message s) \<le> 1024 \<and> 0 \<le> s_pin_reset_price_usd s"

definition settings_ok :: "app_settings \<Rightarrow> bool" where
  "settings_ok s \<longleftrightarrow> row_bounds s \<and> settings_fit s \<and> 0 \<le> s_deal_commission_percent s
     \<and> storable (s_pin_reset_price_usd s) \<and> storable (s_faq_stats_total_usd s)"

definition settings_wf :: "world \<Rightarrow> bool" where
  "settings_wf w = (case t_app_settings w of None \<Rightarrow> True | Some s \<Rightarrow> settings_ok s)"

lemma commission_okD:
  assumes "commission_ok d = Some x"
  shows "- 1 \<le> x \<and> x \<le> 100 \<and> on_grid 2 x"
proof -
  have d: "- 1 \<le> d" "d \<le> 100" and x: "x = quantize_money d 2"
    using assms by (auto simp: commission_ok_def not_less split: if_splits)
  have "quantize_money d 2 \<le> 100" by (rule quantize_le_grid [OF d(2)]) simp
  moreover have "- 1 \<le> quantize_money d 2" by (rule quantize_ge_grid [OF d(1)]) simp
  ultimately show ?thesis by (simp add: x)
qed

lemma msg_okD: "msg_ok t = Some m \<Longrightarrow> m \<noteq> [] \<and> length m \<le> 1024"
  by (auto simp: msg_ok_def Let_def split: if_splits)

lemma set_setting_bounds:
  assumes "field_validated k v = Some v'" and "row_bounds s"
  shows "row_bounds (set_setting k v' s)"
  using assms
  by (cases v; cases k) (auto simp: row_bounds_def split: if_splits dest!: commission_okD msg_okD)

lemma body_validatedD: "body_validated b = Some fs \<Longrightarrow> list_all (\<lambda>(k, v). \<exists>v0. field_validated k v0 = Some v) fs"
  by (induction b arbitrary: fs rule: body_validated.induct) (auto split: option.splits)

lemma apply_fields_bounds:
  "apply_fields fresh fs s = Inr (s', ch) \<Longrightarrow> list_all (\<lambda>(k, v). \<exists>v0. field_validated k v0 = Some v) fs \<Longrightarrow> row_bounds s \<Longrightarrow> row_bounds s'"
proof (induction fresh fs s arbitrary: ch rule: apply_fields.induct)
  case (2 fresh k v fs s)
  then show ?case using set_setting_bounds
    by (auto simp: Let_def split: if_splits sum.splits prod.splits)
qed simp

lemma saved_ok:
  "row_bounds s \<Longrightarrow> flush_settings n s = None \<Longrightarrow> settings_ok (saved_settings s)"
  by (auto simp: settings_ok_def row_bounds_def flush_settings_def saved_settings_def settings_fit_def column_non_negative split: if_splits)

lemma default_settings_ok: "settings_ok default_app_settings"
  by (simp add: settings_ok_def row_bounds_def settings_fit_def default_app_settings_def int32_fits_def money_fits_def)

lemma settings_row_ok: "settings_wf w \<Longrightarrow> settings_ok (fst (get_settings_row w))"
  by (auto simp: settings_wf_def get_settings_row_def default_settings_ok split: option.splits)

lemma update_settings_success:
  assumes "update_settings admin b w = (Inr out, w')"
  obtains fs row fresh row' ch where "body_validated b = Some fs" "fs \<noteq> []" "get_settings_row w = (row, fresh)"
    "apply_fields fresh fs row = Inr (row', ch)" "out = settings_out row'"
    "ch = [] \<and> w' = w \<or> ch \<noteq> [] \<and> flush_settings (list_ex (\<lambda>(k, old, new). new = SNull) ch) row' = None
        \<and> t_app_settings w' = Some (saved_settings row') \<and> same_books w' w \<and> length (t_audit w') = length (t_audit w) + 1"
  using assms
  by (auto simp: update_settings_def log_admin_action_def same_books_def split: option.splits if_splits prod.splits sum.splits)

lemma update_settings_refused: "update_settings admin b w = (Inl e, w') \<Longrightarrow> w' = w"
  by (auto simp: update_settings_def split: option.splits if_splits prod.splits sum.splits)

lemma update_settings_keeps:
  assumes "settings_wf w"
  shows "settings_wf (snd (update_settings admin b w))"
proof (cases rule: outcome_cases [of "update_settings admin b w"])
  case (fails e w')
  then show ?thesis using assms update_settings_refused [OF fails] by simp
next
  case (returns out w')
  then obtain fs row fresh row' ch where u: "body_validated b = Some fs" "get_settings_row w = (row, fresh)"
    "apply_fields fresh fs row = Inr (row', ch)"
    "ch = [] \<and> w' = w \<or> ch \<noteq> [] \<and> flush_settings (list_ex (\<lambda>(k, old, new). new = SNull) ch) row' = None
        \<and> t_app_settings w' = Some (saved_settings row') \<and> same_books w' w \<and> length (t_audit w') = length (t_audit w) + 1"
    by (elim update_settings_success) blast
  have "row_bounds row'" using apply_fields_bounds [OF u(3) body_validatedD [OF u(1)]] settings_row_ok [OF assms] u(2) by (simp add: settings_ok_def)
  then show ?thesis using u(4) saved_ok assms returns by (auto simp: settings_wf_def)
qed

inductive settings_step :: "world \<Rightarrow> world \<Rightarrow> bool" where
  "settings_step w (snd (update_settings admin b w))"

text \<open>
  C33. Whatever administrators send to the settings editor: every value of the row keeps its type and its
  range, so the rate a deal is charged is always between nought and a hundred percent, and its commission
  between nought and the amount.
\<close>

theorem settings_stay_well_formed:
  assumes "settings_step\<^sup>*\<^sup>* w0 w" and "settings_wf w0"
  shows "settings_wf w \<and> (\<forall>buyer seller.
      let rate = resolve_commission_rate (fst (settings_row w)) buyer seller
      in 0 \<le> rate \<and> rate \<le> 100 \<and> (\<forall>n amt. 0 \<le> amt \<and> on_grid n amt \<longrightarrow> 0 \<le> commission_of amt rate n \<and> commission_of amt rate n \<le> amt))"
proof -
  have wf: "settings_wf w" using assms
    by (induction rule: rtranclp_induct) (auto simp: settings_step.simps update_settings_keeps)
  then have "settings_ok (fst (settings_row w))"
    by (auto simp: settings_wf_def settings_row_def default_settings_ok split: option.splits)
  then have "0 \<le> resolve_commission_rate (fst (settings_row w)) b s \<and> resolve_commission_rate (fst (settings_row w)) b s \<le> 100" for b s
    by (auto simp: resolve_commission_rate_def settings_ok_def row_bounds_def Let_def)
  then show ?thesis using wf commission_within_amount by (simp add: Let_def)
qed

section \<open>What an update does\<close>

lemma get_set_setting: "field_validated k v0 = Some v \<Longrightarrow> v \<noteq> SNull \<Longrightarrow> get_setting k' (set_setting k v s) = (if k' = k then v else get_setting k' s)"
  by (cases v0; cases k; cases k') (auto split: if_splits)

lemma set_null [simp]: "set_setting k SNull s = s"
  by (cases k) simp_all

lemma set_setting_id [simp]: "s_id (set_setting k v s) = s_id s"
  by (cases v; cases k) simp_all

lemma apply_fields_result:
  "apply_fields fresh fs s = Inr (s', ch) \<Longrightarrow> list_all (\<lambda>(k, v). \<exists>v0. field_validated k v0 = Some v) fs \<Longrightarrow> distinct (map fst fs)
    \<Longrightarrow> \<not> list_ex (\<lambda>(k, old, new). new = SNull) ch
    \<Longrightarrow> (\<forall>k. get_setting k s' = (case map_of fs k of None \<Rightarrow> get_setting k s | Some v \<Rightarrow> v))
        \<and> fst ` set ch = {k. get_setting k s' \<noteq> get_setting k s}"
proof (induction fresh fs s arbitrary: ch rule: apply_fields.induct)
  case (2 fresh k v fs s)
  have none: "map_of fs k = None" using "2.prems"(3) by (simp add: map_of_eq_None_iff)
  show ?case
  proof (cases "v = get_setting k s")
    case True
    then have "apply_fields fresh fs s = Inr (s', ch)" using "2.prems"(1) by (simp add: Let_def split: if_splits)
    from "2.IH"(1) [OF refl _ True this] show ?thesis using "2.prems" True none by (auto simp: Let_def split: if_splits)
  next
    case False
    then obtain ch' where c: "apply_fields fresh fs (set_setting k v s) = Inr (s', ch')" "ch = (k, get_setting k s, v) # ch'"
      using "2.prems"(1) by (auto simp: Let_def split: if_splits sum.splits)
    have v: "v \<noteq> SNull" "\<exists>v0. field_validated k v0 = Some v" using "2.prems"(2,4) c(2) by auto
    then have get: "get_setting k' (set_setting k v s) = (if k' = k then v else get_setting k' s)" for k'
      using get_set_setting by blast
    have "(\<forall>k'. get_setting k' s' = (case map_of fs k' of None \<Rightarrow> get_setting k' (set_setting k v s) | Some x \<Rightarrow> x))
        \<and> fst ` set ch' = {k'. get_setting k' s' \<noteq> get_setting k' (set_setting k v s)}"
      using "2.IH"(2) [OF refl _ False c(1)] "2.prems" c(2) v by auto
    then have vals: "get_setting k' s' = (case map_of fs k' of None \<Rightarrow> get_setting k' (set_setting k v s) | Some x \<Rightarrow> x)"
      and keys: "fst ` set ch' = {k'. get_setting k' s' \<noteq> get_setting k' (set_setting k v s)}" for k' by blast+
    have here: "get_setting k s' = v" unfolding vals none by (simp add: get)
    have "get_setting k' s' = (case map_of ((k, v) # fs) k' of None \<Rightarrow> get_setting k' s | Some x \<Rightarrow> x)" for k'
      using here vals [of k'] get [of k'] by (cases "k' = k") (auto split: option.split)
    moreover have "fst ` set ch = insert k (fst ` set ch')" by (simp add: c(2))
    moreover have "insert k {k'. get_setting k' s' \<noteq> get_setting k' (set_setting k v s)} = {k'. get_setting k' s' \<noteq> get_setting k' s}"
      using here False by (auto simp: get)
    ultimately show ?thesis unfolding keys by blast
  qed
qed simp

text \<open>
  A successful update answers, for every field, with the validated value that was sent, or with the old
  one where none was (an expiry of 0 hours shows as 24). It writes the row and one audit entry exactly
  when some field really changes, and no money table.
\<close>

theorem settings_update_is_exact:
  assumes "update_settings admin b w = (Inr out, w')" and "distinct (map fst b)"
  shows "\<exists>fs s'. body_validated b = Some fs \<and> out = settings_out s'
     \<and> (\<forall>k. get_setting k s' = (case map_of fs k of None \<Rightarrow> get_setting k (fst (get_settings_row w)) | Some v \<Rightarrow> v))
     \<and> same_books w' w
     \<and> (if \<exists>k. get_setting k s' \<noteq> get_setting k (fst (get_settings_row w))
        then t_app_settings w' = Some (saved_settings s') \<and> length (t_audit w') = length (t_audit w) + 1 else w' = w)"
proof -
  obtain fs row fresh s' ch where u: "body_validated b = Some fs" "get_settings_row w = (row, fresh)"
    "apply_fields fresh fs row = Inr (s', ch)" "out = settings_out s'"
    "ch = [] \<and> w' = w \<or> ch \<noteq> [] \<and> flush_settings (list_ex (\<lambda>(k, old, new). new = SNull) ch) s' = None
        \<and> t_app_settings w' = Some (saved_settings s') \<and> same_books w' w \<and> length (t_audit w') = length (t_audit w) + 1"
    using assms(1) by (elim update_settings_success) blast
  have "\<not> list_ex (\<lambda>(k, old, new). new = SNull) ch" using u(5) by (auto simp: flush_settings_def split: if_splits)
  moreover have "map fst fs = map fst b" using u(1) by (induction b arbitrary: fs rule: body_validated.induct) (auto split: option.splits)
  ultimately have "(\<forall>k. get_setting k s' = (case map_of fs k of None \<Rightarrow> get_setting k row | Some v \<Rightarrow> v))
      \<and> fst ` set ch = {k. get_setting k s' \<noteq> get_setting k row}"
    using apply_fields_result [OF u(3) body_validatedD [OF u(1)]] assms(2) by simp
  then have all: "\<forall>k. get_setting k s' = (case map_of fs k of None \<Rightarrow> get_setting k row | Some v \<Rightarrow> v)"
    and diff: "ch = [] \<longleftrightarrow> \<not> (\<exists>k. get_setting k s' \<noteq> get_setting k row)" by (simp, auto)
  have row: "fst (get_settings_row w) = row" using u(2) by simp
  have same: "same_books w' w" using u(5) by auto
  have "if \<exists>k. get_setting k s' \<noteq> get_setting k row
      then t_app_settings w' = Some (saved_settings s') \<and> length (t_audit w') = length (t_audit w) + 1 else w' = w"
    using u(5) unfolding if_bool_eq_conj diff [symmetric] not_not by (cases "ch = []") (use diff in blast)+
  then show ?thesis unfolding row using u(1,4) all same by blast
qed

text \<open>
  A field sent as null passes the body and ends in a server error, and so does a commission below nought
  that the validator lets through; nothing is written.
\<close>

theorem bad_settings_are_server_errors:
  assumes "t_app_settings w = Some s" and "settings_ok s"
  shows "update_settings admin [(k, SNull)] w = (Inl (if is_decimal_attr False k then InvalidOperation else IntegrityError), w)
    \<and> (- 1 \<le> x \<and> x \<le> - 1 / 100 \<longrightarrow> update_settings admin [(F_deal_commission_percent, SDec x)] w = (Inl IntegrityError, w))"
proof (intro conjI impI)
  have fit: "settings_fit s" using assms(2) by (simp add: settings_ok_def)
  have "field_validated k SNull = Some SNull" "get_setting k s \<noteq> SNull" by (cases k, simp_all)+
  then show "update_settings admin [(k, SNull)] w = (Inl (if is_decimal_attr False k then InvalidOperation else IntegrityError), w)"
    using assms(1) fit by (auto simp: update_settings_def get_settings_row_def flush_settings_def Let_def)
  assume x: "- 1 \<le> x \<and> x \<le> - 1 / 100"
  have "on_grid 2 (- 1 / 100)" by (simp add: on_grid_def)
  then have "quantize_money x 2 \<le> - 1 / 100" using x quantize_le_grid by blast
  then have neg: "quantize_money x 2 < 0" by simp
  then have ne: "quantize_money x 2 \<noteq> s_deal_commission_percent s" using assms(2) by (auto simp: settings_ok_def)
  have val: "body_validated [(F_deal_commission_percent, SDec x)] = Some [(F_deal_commission_percent, SDec (quantize_money x 2))]"
    using x by (simp add: commission_ok_def)
  have app: "apply_fields False [(F_deal_commission_percent, SDec (quantize_money x 2))] s
      = Inr (s \<lparr> s_deal_commission_percent := quantize_money x 2 \<rparr>, [(F_deal_commission_percent, SDec (s_deal_commission_percent s), SDec (quantize_money x 2))])"
    using ne by (simp add: Let_def)
  have "settings_fit (s \<lparr> s_deal_commission_percent := quantize_money x 2 \<rparr>)" using fit by (simp add: settings_fit_def)
  then show "update_settings admin [(F_deal_commission_percent, SDec x)] w = (Inl IntegrityError, w)"
    unfolding update_settings_def val using assms(1) neg app by (simp add: get_settings_row_def flush_settings_def del: apply_fields.simps)
qed

section \<open>Sample updates\<close>

definition pause_body :: settings_body where
  "pause_body = [(F_maintenance_enabled, SBool True), (F_maintenance_message, SStr ''Back soon''), (F_deal_commission_percent, SDec 7)]"

lemma pause_validated: "body_validated pause_body = Some pause_body"
proof -
  have "strip ''Back soon'' = ''Back soon''" "quantize_money 7 2 = 7" by code_simp+
  then show ?thesis by (simp add: pause_body_def msg_ok_def commission_ok_def)
qed

lemma sample_settings_wf: "settings_wf sample_world" "t_app_settings sample_world = Some default_app_settings"
  by (simp_all add: settings_wf_def sample_world_def sample_settings_def default_settings_ok)

lemma pause_runs: "\<exists>out w'. update_settings admin pause_body sample_world = (Inr out, w')"
proof -
  have "settings_fit default_app_settings" using default_settings_ok by (simp add: settings_ok_def)
  moreover have "pause_body \<noteq> []" by (simp add: pause_body_def)
  ultimately show ?thesis using sample_settings_wf(2)
    by (simp add: update_settings_def pause_validated get_settings_row_def)
      (simp add: pause_body_def is_decimal_attr_def flush_settings_def settings_fit_def default_app_settings_def)
qed

lemma settings_stay_well_formed_witness:
  "settings_wf (snd (update_settings sample_admin pause_body sample_world))"
proof -
  have "settings_step\<^sup>*\<^sup>* sample_world (snd (update_settings sample_admin pause_body sample_world))"
    by (rule r_into_rtranclp) (rule settings_step.intros)
  from settings_stay_well_formed [OF this sample_settings_wf(1)] show ?thesis by blast
qed

lemma settings_update_is_exact_witness:
  "\<exists>out w'. update_settings sample_admin pause_body sample_world = (Inr out, w')
     \<and> length (t_audit w') = 1 \<and> (\<exists>s. t_app_settings w' = Some (saved_settings s) \<and> get_setting F_deal_commission_percent s = SDec 7)"
proof -
  obtain out w' where run: "update_settings sample_admin pause_body sample_world = (Inr out, w')" using pause_runs by blast
  have "distinct (map fst pause_body)" by (simp add: pause_body_def)
  from settings_update_is_exact [OF run this] obtain s' where
    s: "\<forall>k. get_setting k s' = (case map_of pause_body k of None \<Rightarrow> get_setting k (fst (get_settings_row sample_world)) | Some v \<Rightarrow> v)"
    and w: "if \<exists>k. get_setting k s' \<noteq> get_setting k (fst (get_settings_row sample_world))
        then t_app_settings w' = Some (saved_settings s') \<and> length (t_audit w') = length (t_audit sample_world) + 1 else w' = sample_world"
    unfolding pause_validated by blast
  have seven: "get_setting F_deal_commission_percent s' = SDec 7" using spec [OF s, of F_deal_commission_percent] by (simp add: pause_body_def)
  moreover have "get_setting F_deal_commission_percent (fst (get_settings_row sample_world)) = SDec 5"
    by (simp add: get_settings_row_def sample_settings_wf default_app_settings_def)
  ultimately have "\<exists>k. get_setting k s' \<noteq> get_setting k (fst (get_settings_row sample_world))"
    by (intro exI [of _ F_deal_commission_percent]) simp
  then show ?thesis using w run seven by (auto simp: sample_world_def)
qed

lemma bad_settings_are_server_errors_witness:
  "update_settings sample_admin [(F_pin_reset_price_usd, SNull)] sample_world = (Inl InvalidOperation, sample_world)
   \<and> update_settings sample_admin [(F_deal_commission_percent, SDec (- 1))] sample_world = (Inl IntegrityError, sample_world)"
  using bad_settings_are_server_errors [OF sample_settings_wf(2) default_settings_ok, of sample_admin F_pin_reset_price_usd "- 1"]
  by (simp add: is_decimal_attr_def)

end
