(* ===== verification/Maintenance.thy ===== *)
theory Maintenance
  imports Site_Settings
begin

text \<open>
  The maintenance switch (\<open>backend/app/maintenance.py\<close>): the cached flag of a worker, the log line that
  is throttled, the middleware of the API and the one of the bot (\<open>backend/app/bot/maintenance.py\<close>).
  Times are seconds of the monotonic clock. A lookup in the database either fails or answers with the
  flag and the message; other coroutines run while it is awaited, so each read of the clock and of the
  shared cache is an argument of its own.
\<close>

section \<open>The cached flag\<close>

type_synonym flag = "bool \<times> string"
type_synonym flag_cache = "(decimal \<times> bool \<times> string) option"

definition TTL_SECONDS :: decimal where "TTL_SECONDS = 5"
definition ERROR_TTL_SECONDS :: decimal where "ERROR_TTL_SECONDS = 1"

definition load_from_db :: "world \<Rightarrow> flag" where
  "load_from_db w = (case t_app_settings w of None \<Rightarrow> (False, []) | Some s \<Rightarrow> (s_maintenance_enabled s, s_maintenance_message s))"

definition invalidate_cache :: "flag_cache \<Rightarrow> flag_cache" where
  "invalidate_cache c = None"

definition settings_invalidate :: "settings_body \<Rightarrow> flag_cache \<Rightarrow> flag_cache" where
  "settings_invalidate after c =
     (if list_ex (\<lambda>(k, v). k = F_maintenance_enabled \<or> k = F_maintenance_message) after then invalidate_cache c else c)"

definition fallback_msg :: string where "fallback_msg = ''service unavailable: status check failed''"

text \<open>What a lookup that ended with \<open>got\<close> (\<open>None\<close>: an exception) means, and the entry stored at \<open>now\<close>.\<close>

definition flag_of_answer :: "bool \<Rightarrow> flag option \<Rightarrow> flag" where
  "flag_of_answer fail_closed got =
     (case got of Some f \<Rightarrow> f | None \<Rightarrow> if fail_closed then (True, fallback_msg) else (False, []))"

definition stored_entry :: "bool \<Rightarrow> flag option \<Rightarrow> decimal \<Rightarrow> flag_cache" where
  "stored_entry fail_closed got now =
     Some (now + (if got = None then ERROR_TTL_SECONDS else TTL_SECONDS), flag_of_answer fail_closed got)"

definition live_entry :: "flag_cache \<Rightarrow> decimal \<Rightarrow> flag option" where
  "live_entry c now = (case c of None \<Rightarrow> None | Some (expires, f) \<Rightarrow> if now < expires then Some f else None)"

text \<open>\<open>t0\<close>, \<open>c0\<close>: at the call; \<open>t1\<close>, \<open>c1\<close>: under the lock; \<open>got\<close>, \<open>t2\<close>: the lookup and its end. The
  result is the flag and the cache afterwards.\<close>

definition get_maintenance ::
  "bool \<Rightarrow> decimal \<Rightarrow> flag_cache \<Rightarrow> decimal \<Rightarrow> flag_cache \<Rightarrow> flag option \<Rightarrow> decimal \<Rightarrow> flag \<times> flag_cache" where
  "get_maintenance fail_closed t0 c0 t1 c1 got t2 =
     (case live_entry c0 t0 of
        Some f \<Rightarrow> (f, c0)
      | None \<Rightarrow>
     (case live_entry c1 t1 of
        Some f \<Rightarrow> (f, c1)
      | None \<Rightarrow> (flag_of_answer fail_closed got, stored_entry fail_closed got t2)))"

section \<open>The throttled log line\<close>

definition DB_ERROR_LOG_INTERVAL_SECONDS :: decimal where "DB_ERROR_LOG_INTERVAL_SECONDS = 60"

record log_state =
  next_emit_at :: decimal
  suppressed :: nat

definition initial_log_state :: log_state where
  "initial_log_state = \<lparr> next_emit_at = 0, suppressed = 0 \<rparr>"

text \<open>The line that is written, if any, carries the number of failures kept quiet before it.\<close>

definition log_db_lookup_failure :: "decimal \<Rightarrow> log_state \<Rightarrow> nat option \<times> log_state" where
  "log_db_lookup_failure now st =
     (if next_emit_at st \<le> now
      then (Some (suppressed st), \<lparr> next_emit_at = now + DB_ERROR_LOG_INTERVAL_SECONDS, suppressed = 0 \<rparr>)
      else (None, st \<lparr> suppressed := suppressed st + 1 \<rparr>))"

fun log_failures :: "decimal list \<Rightarrow> log_state \<Rightarrow> (decimal \<times> nat) list \<times> log_state" where
  "log_failures [] st = ([], st)"
| "log_failures (t # ts) st =
     (case log_db_lookup_failure t st of
        (line, st') \<Rightarrow> (case log_failures ts st' of
          (lines, st'') \<Rightarrow> ((case line of None \<Rightarrow> lines | Some n \<Rightarrow> (t, n) # lines), st'')))"

section \<open>The middlewares\<close>

definition READONLY_METHODS :: "string list" where
  "READONLY_METHODS = [''GET'', ''HEAD'', ''OPTIONS'']"

definition ALWAYS_ALLOWED_PREFIXES :: "string list" where
  "ALWAYS_ALLOWED_PREFIXES = [''/api/admin/'', ''/api/payments/webhook/'', ''/assets/'', ''/media/'', ''/health/'', ''/api/settings/maintenance/'']"

definition ALWAYS_ALLOWED_EXACT :: "string list" where
  "ALWAYS_ALLOWED_EXACT = [''/health'', ''/api/settings/maintenance'']"

definition starts_with :: "string \<Rightarrow> string \<Rightarrow> bool" where
  "starts_with p s \<longleftrightarrow> take (length p) s = p"

definition bypasses :: "string \<Rightarrow> string \<Rightarrow> bool" where
  "bypasses http_method path \<longleftrightarrow>
     map to_upper http_method \<in> set READONLY_METHODS \<or> path \<in> set ALWAYS_ALLOWED_EXACT
     \<or> list_ex (\<lambda>p. starts_with p path) ALWAYS_ALLOWED_PREFIXES"

datatype verdict = CallNext | Respond503 string

definition maintenance_middleware :: "string \<Rightarrow> string \<Rightarrow> flag \<Rightarrow> verdict" where
  "maintenance_middleware http_method path f =
     (if bypasses http_method path then CallNext
      else case f of (enabled, message) \<Rightarrow>
        if \<not> enabled then CallNext
        else Respond503 (if message = [] then ''Service under maintenance.'' else message))"

datatype telegram_update = BotMessage string | BotCallback string | BotOther

datatype bot_verdict = Handle | Answer string | Alert string | Drop

definition maintenance_payload :: "flag \<Rightarrow> flag" where
  "maintenance_payload f =
     (case f of (enabled, message) \<Rightarrow>
        if \<not> enabled then (False, ''Service under maintenance. Try later.'')
        else (True, if message = [] then ''Service under maintenance. Try later.'' else message))"

definition bot_middleware :: "flag \<Rightarrow> telegram_update \<Rightarrow> bot_verdict" where
  "bot_middleware f ev =
     (case maintenance_payload f of (enabled, message) \<Rightarrow>
        if \<not> enabled then Handle
        else case ev of BotMessage _ \<Rightarrow> Answer message | BotCallback _ \<Rightarrow> Alert message | BotOther \<Rightarrow> Drop)"

section \<open>How old the flag can be\<close>

text \<open>
  The caches a worker can hold at a time: \<open>db\<close> is the committed database at each moment (\<open>None\<close> while it
  does not got) and \<open>latency\<close> bounds how long a lookup takes from its read to the store of its got.
\<close>

definition answer_at :: "(decimal \<Rightarrow> world option) \<Rightarrow> decimal \<Rightarrow> flag option" where
  "answer_at db s = map_option load_from_db (db s)"

inductive cache_at :: "(decimal \<Rightarrow> world option) \<Rightarrow> decimal \<Rightarrow> bool \<Rightarrow> decimal \<Rightarrow> flag_cache \<Rightarrow> bool"
  for db latency fail_closed where
  cold: "cache_at db latency fail_closed t None"
| later: "cache_at db latency fail_closed t c \<Longrightarrow> t \<le> t' \<Longrightarrow> cache_at db latency fail_closed t' c"
| invalidated: "cache_at db latency fail_closed t c \<Longrightarrow> cache_at db latency fail_closed t (invalidate_cache c)"
| refreshed: "cache_at db latency fail_closed t c \<Longrightarrow> s \<le> t \<Longrightarrow> t \<le> s + latency
    \<Longrightarrow> cache_at db latency fail_closed t (stored_entry fail_closed (answer_at db s) t)"

lemma cache_age:
  "cache_at db latency fail_closed t c \<Longrightarrow> c = Some (expires, f) \<Longrightarrow>
     \<exists>s \<le> t. expires \<le> s + latency + TTL_SECONDS \<and> f = flag_of_answer fail_closed (answer_at db s)"
proof (induction rule: cache_at.induct)
  case (later t c t')
  then show ?case by (meson order_trans)
next
  case (refreshed t c s)
  then show ?case by (intro exI [of _ s]) (auto simp: stored_entry_def TTL_SECONDS_def ERROR_TTL_SECONDS_def split: if_splits)
qed (simp_all add: invalidate_cache_def)

definition on_at :: "(decimal \<Rightarrow> world option) \<Rightarrow> bool \<Rightarrow> decimal \<Rightarrow> bool" where
  "on_at db fail_closed s = (case db s of None \<Rightarrow> fail_closed | Some w \<Rightarrow> fst (load_from_db w))"

lemma on_at_flag: "on_at db fail_closed s \<Longrightarrow> fst (flag_of_answer fail_closed (answer_at db s))"
  by (auto simp: on_at_def flag_of_answer_def answer_at_def split: option.splits)

lemma live_flag_on:
  assumes "cache_at db latency fail_closed t c" and "live_entry c t = Some f" and "t0 \<le> t"
    and "\<And>s. t0 - latency - TTL_SECONDS \<le> s \<Longrightarrow> s \<le> t \<Longrightarrow> on_at db fail_closed s"
  shows "fst f"
proof -
  obtain expires where c: "c = Some (expires, f)" "t < expires" using assms(2) by (auto simp: live_entry_def split: option.splits if_splits)
  then obtain s where "s \<le> t" "expires \<le> s + latency + TTL_SECONDS" "f = flag_of_answer fail_closed (answer_at db s)"
    using cache_age [OF assms(1)] by blast
  then show ?thesis using assms(3) c(2) by (auto intro!: on_at_flag assms(4))
qed

text \<open>
  C34. Once the switch has been on for five seconds and the time of one lookup, every write that is not on the
  list is answered 503 by every worker, whatever it had in its cache; reads and the listed paths always
  pass. With \<open>fail_closed\<close> the times when the database does not got count as on.
\<close>

theorem maintenance_blocks_writes:
  assumes "cache_at db latency fail_closed t0 c0" and "cache_at db latency fail_closed t1 c1" and "t0 \<le> t1" and "t1 \<le> s" and "s \<le> t2"
    and "\<forall>s. t0 - latency - TTL_SECONDS \<le> s \<and> s \<le> t2 \<longrightarrow> on_at db fail_closed s" and "\<not> bypasses http_method path" and "0 \<le> latency"
  shows "\<exists>message. maintenance_middleware http_method path (fst (get_maintenance fail_closed t0 c0 t1 c1 (answer_at db s) t2)) = Respond503 message
    \<and> message \<noteq> []"
proof -
  have on: "on_at db fail_closed x" if "t0 - latency - TTL_SECONDS \<le> x" "x \<le> t2" for x using assms(6) that by blast
  have "fst (fst (get_maintenance fail_closed t0 c0 t1 c1 (answer_at db s) t2))"
  proof (cases "live_entry c0 t0")
    case (Some f)
    have "fst f" by (rule live_flag_on [OF assms(1) Some order_refl]) (use on assms(3-5) in auto)
    then show ?thesis by (simp add: get_maintenance_def Some)
  next
    case None
    show ?thesis
    proof (cases "live_entry c1 t1")
      case (Some f)
      have "fst f" by (rule live_flag_on [OF assms(2) Some assms(3)]) (use on assms(4,5) in auto)
      then show ?thesis by (simp add: get_maintenance_def None Some)
    next
      case none: None
      have "on_at db fail_closed s" by (rule on) (use assms(3-5) \<open>0 \<le> latency\<close> in \<open>auto simp: TTL_SECONDS_def\<close>)
      then show ?thesis using on_at_flag by (simp add: get_maintenance_def None none)
    qed
  qed
  then show ?thesis using assms(7) by (auto simp: maintenance_middleware_def split: prod.splits)
qed


text \<open>The log line: every failure is either the one of a written line or counted in a later one, and two
  lines are at least a minute apart.\<close>

lemma log_counts:
  "log_failures ts st = (lines, st') \<Longrightarrow> length lines + sum_list (map snd lines) + suppressed st' = length ts + suppressed st"
proof (induction ts arbitrary: st lines)
  case (Cons t ts)
  then show ?case
    by (fastforce simp: log_db_lookup_failure_def split: prod.splits if_splits option.splits)
qed simp

lemma log_after: "log_failures ts st = (lines, st') \<Longrightarrow> (x, n) \<in> set lines \<Longrightarrow> next_emit_at st \<le> x"
proof (induction ts arbitrary: st lines)
  case (Cons t ts)
  obtain line st1 where l: "log_db_lookup_failure t st = (line, st1)" by fastforce
  obtain lines1 where r: "log_failures ts st1 = (lines1, st')" "lines = (case line of None \<Rightarrow> lines1 | Some n \<Rightarrow> (t, n) # lines1)"
    using Cons.prems(1) l by (auto split: prod.splits)
  have "next_emit_at st \<le> next_emit_at st1 \<and> (line \<noteq> None \<longrightarrow> next_emit_at st \<le> t) \<or> line = None \<and> next_emit_at st1 = next_emit_at st"
    using l by (auto simp: log_db_lookup_failure_def DB_ERROR_LOG_INTERVAL_SECONDS_def split: if_splits)
  then show ?case using Cons.IH [OF r(1)] Cons.prems(2) r(2) by (fastforce split: option.splits)
qed simp

theorem lookup_failures_are_logged_once_a_minute:
  assumes "log_failures ts initial_log_state = (lines, st)"
  shows "sorted_wrt (\<lambda>x y. fst x + 60 \<le> fst y) lines \<and> length lines + sum_list (map snd lines) + suppressed st = length ts"
proof -
  have "sorted_wrt (\<lambda>x y. fst x + 60 \<le> fst y) lines" if "log_failures ts st0 = (lines, st)" for ts st0 lines
    using that
  proof (induction ts arbitrary: st0 lines)
    case (Cons t ts)
    obtain line st1 where l: "log_db_lookup_failure t st0 = (line, st1)" by fastforce
    obtain lines1 where r: "log_failures ts st1 = (lines1, st)" "lines = (case line of None \<Rightarrow> lines1 | Some n \<Rightarrow> (t, n) # lines1)"
      using Cons.prems l by (auto split: prod.splits)
    have "t + 60 \<le> x" if "(x, n) \<in> set lines1" "line \<noteq> None" for x n
      using log_after [OF r(1) that(1)] l that(2) by (auto simp: log_db_lookup_failure_def DB_ERROR_LOG_INTERVAL_SECONDS_def split: if_splits)
    then show ?case using Cons.IH [OF r(1)] r(2) by (auto split: option.splits)
  qed simp
  then show ?thesis using assms log_counts [OF assms] by (simp add: initial_log_state_def)
qed

text \<open>Two things the documentation says otherwise: the bot answers \<open>/start\<close> with the message too, and a
  cache refreshed by a lookup that began before the switch keeps the old flag although it was invalidated.\<close>

lemma start_is_answered_with_the_message: "bot_middleware (True, ''m'') (BotMessage ''/start'') = Answer ''m''"
  by (simp add: bot_middleware_def maintenance_payload_def)

lemma invalidated_cache_is_overwritten:
  assumes "live_entry c t0 = None" and "t1 < t2 + 5"
  shows "live_entry (snd (get_maintenance fc t0 c t0 (invalidate_cache c') (Some (False, [])) t2)) t1 = Some (False, [])"
  using assms by (simp add: get_maintenance_def invalidate_cache_def live_entry_def stored_entry_def TTL_SECONDS_def flag_of_answer_def)

section \<open>Samples\<close>

definition paused_world :: world where
  "paused_world = sample_world \<lparr> t_app_settings := Some (default_app_settings \<lparr> s_maintenance_enabled := True \<rparr>) \<rparr>"

lemma maintenance_blocks_writes_witness:
  "\<exists>message. maintenance_middleware ''post'' ''/api/deals''
     (fst (get_maintenance False 100 None 100 (Some (101, True, s_maintenance_message default_app_settings)) (answer_at (\<lambda>_. Some paused_world) 100) 101)) = Respond503 message"
proof -
  have on: "on_at (\<lambda>_. Some paused_world) False s" for s
    by (simp add: on_at_def load_from_db_def paused_world_def)
  have by_pass: "\<not> bypasses ''post'' ''/api/deals''" by code_simp
  have "cache_at (\<lambda>_. Some paused_world) 1 False 96 (stored_entry False (answer_at (\<lambda>_. Some paused_world) 96) 96)"
    by (rule cache_at.refreshed [OF cache_at.cold]) simp_all
  then have old: "cache_at (\<lambda>_. Some paused_world) 1 False 100 (stored_entry False (answer_at (\<lambda>_. Some paused_world) 96) 96)"
    by (rule cache_at.later) simp
  have "stored_entry False (answer_at (\<lambda>_. Some paused_world) 96) 96 = Some (101, True, s_maintenance_message default_app_settings)"
    by (simp add: stored_entry_def answer_at_def flag_of_answer_def load_from_db_def paused_world_def TTL_SECONDS_def)
  then have old: "cache_at (\<lambda>_. Some paused_world) 1 False 100 (Some (101, True, s_maintenance_message default_app_settings))" using old by simp
  show ?thesis
    using maintenance_blocks_writes [OF cache_at.cold old, where s = 100 and http_method = "''post''" and path = "''/api/deals''" and ?t2.0 = 101 and ?t0.0 = 100]
      on by_pass by auto
qed

lemma lookup_failures_are_logged_once_a_minute_witness:
  "\<exists>lines st. log_failures [10, 20, 75] initial_log_state = (lines, st) \<and> length lines = 2 \<and> sum_list (map snd lines) = 1"
proof -
  have "log_failures [10, 20, 75] initial_log_state = ([(10, 0), (75, 1)], \<lparr> next_emit_at = 135, suppressed = 0 \<rparr>)"
    by (simp add: log_db_lookup_failure_def initial_log_state_def DB_ERROR_LOG_INTERVAL_SECONDS_def)
  from lookup_failures_are_logged_once_a_minute [OF this] this show ?thesis by simp
qed

end
