(* ===== verification/Search.thy ===== *)
theory Search
  imports Maintenance
begin

text \<open>
  Text search (\<open>backend/app/search.py\<close>) and the directory of users (\<open>backend/app/routers/users.py\<close>).
  Matching a query against a search vector and ranking the hit are PostgreSQL's and parameters.
\<close>

section \<open>Queries\<close>

text \<open>The ASCII part of \<open>\w\<close>.\<close>

definition word_char :: "char \<Rightarrow> bool" where
  "word_char c = (let n = of_char c :: nat in 48 \<le> n \<and> n \<le> 57 \<or> 65 \<le> n \<and> n \<le> 90 \<or> n = 95 \<or> 97 \<le> n \<and> n \<le> 122)"

definition TSQUERY_META :: string where "TSQUERY_META = ''!|&():*<>'' @ [CHR 0x27, CHR 0x22, CHR 0x5C]"

text \<open>\<open>str.split()\<close>: the runs without white space.\<close>

fun split_words :: "string \<Rightarrow> string \<Rightarrow> string list" where
  "split_words word [] = (if word = [] then [] else [rev word])"
| "split_words word (c # s) =
     (if is_space c then (if word = [] then split_words [] s else rev word # split_words [] s)
      else split_words (c # word) s)"

fun join_and :: "string list \<Rightarrow> string" where
  "join_and [] = []"
| "join_and [t] = t"
| "join_and (t # ts) = t @ '' & '' @ join_and ts"

definition prefix_tokens :: "string \<Rightarrow> string list" where
  "prefix_tokens query = filter (\<lambda>t. t \<noteq> []) (map (filter word_char) (split_words [] query))"

datatype 'a asserted = AssertionError | Returns 'a

text \<open>\<open>_assert_safe\<close> on every token, the suffix, the first ten.\<close>

definition build_prefix_tsquery :: "string \<Rightarrow> string option asserted" where
  "build_prefix_tsquery query =
     (let tokens = prefix_tokens query in
      if query = [] then Returns None
      else if list_ex (\<lambda>t. list_ex (\<lambda>c. c \<in> set TSQUERY_META) t) tokens then AssertionError
      else if tokens = [] then Returns None
      else Returns (Some (join_and (take 10 (map (\<lambda>t. t @ '':*'') tokens)))))"

section \<open>Filters of the directory\<close>

definition RATING_BUCKETS :: "(string \<times> decimal option \<times> decimal option) list" where
  "RATING_BUCKETS =
     [(''5.0'', Some 5, None), (''4.5-4.9'', Some (9/2), Some 5), (''4.0-4.4'', Some 4, Some (9/2)),
      (''3.5-3.9'', Some (7/2), Some 4), (''lt3.5'', None, Some (7/2))]"

definition DEALS_BUCKETS :: "(string \<times> int option \<times> int option) list" where
  "DEALS_BUCKETS = [(''0-10'', Some 0, Some 10), (''11-50'', Some 11, Some 50), (''51-100'', Some 51, Some 100), (''101+'', Some 101, None)]"

definition STATUS_KEYS :: "string list" where "STATUS_KEYS = [''5'', ''3'', ''2'']"

definition rating_expr :: "user \<Rightarrow> decimal" where
  "rating_expr u = (let total = u_good u + u_bad u in if 0 < total then 5 * of_int (u_good u) / of_int total else 0)"

definition rating_in :: "decimal option \<times> decimal option \<Rightarrow> decimal \<Rightarrow> bool" where
  "rating_in b r = (case b of (lo, hi) \<Rightarrow>
     (case lo of None \<Rightarrow> True | Some l \<Rightarrow> l \<le> r) \<and> (case hi of None \<Rightarrow> True | Some h \<Rightarrow> r < h))"

definition deals_in :: "int option \<times> int option \<Rightarrow> int \<Rightarrow> bool" where
  "deals_in b n = (case b of (lo, hi) \<Rightarrow>
     (case lo of None \<Rightarrow> True | Some l \<Rightarrow> l \<le> n) \<and> (case hi of None \<Rightarrow> True | Some h \<Rightarrow> n \<le> h))"

text \<open>\<open>YYYY-MM-DD\<close>, as the seconds at its midnight; the other ISO forms of the library are left out.\<close>

definition leap_year :: "int \<Rightarrow> bool" where
  "leap_year y = (y mod 4 = 0 \<and> (y mod 100 \<noteq> 0 \<or> y mod 400 = 0))"

definition days_in_month :: "int \<Rightarrow> int \<Rightarrow> int" where
  "days_in_month y m = (if m \<in> {4, 6, 9, 11} then 30 else if m = 2 then (if leap_year y then 29 else 28) else 31)"

definition days_before_year :: "int \<Rightarrow> int" where
  "days_before_year y = (y - 1) * 365 + (y - 1) div 4 - (y - 1) div 100 + (y - 1) div 400"

definition days_from_civil :: "int \<Rightarrow> int \<Rightarrow> int \<Rightarrow> int" where
  "days_from_civil y m d =
     days_before_year y - days_before_year 1970 + sum_list (map (days_in_month y) (map int [1..<nat m])) + d - 1"

definition digits_value :: "string \<Rightarrow> int option" where
  "digits_value s = (if s \<noteq> [] \<and> list_all (\<lambda>c. 48 \<le> (of_char c :: nat) \<and> (of_char c :: nat) \<le> 57) s
     then Some (foldl (\<lambda>n c. 10 * n + (of_char c - 48)) 0 s) else None)"

definition date_fromisoformat :: "string \<Rightarrow> int option" where
  "date_fromisoformat s =
     (if length s \<noteq> 10 \<or> s ! 4 \<noteq> CHR ''-'' \<or> s ! 7 \<noteq> CHR ''-'' then None
      else case (digits_value (take 4 s), digits_value (take 2 (drop 5 s)), digits_value (drop 8 s)) of
        (Some y, Some m, Some d) \<Rightarrow>
          if 1 \<le> y \<and> 1 \<le> m \<and> m \<le> 12 \<and> 1 \<le> d \<and> d \<le> days_in_month y m
          then Some (86400 * days_from_civil y m d) else None
      | _ \<Rightarrow> None)"

definition parse_date :: "string option \<Rightarrow> py_error + int option" where
  "parse_date v =
     (if falsy v then Inr None
      else case date_fromisoformat (the v) of
        Some t \<Rightarrow> Inr (Some t)
      | None \<Rightarrow> Inl (HTTP 400 (E_other ''bad_date'')))"

section \<open>The directory\<close>

record user_query =
  uq_q :: "string option"
  uq_filter :: "string option"
  uq_rating :: "string option"
  uq_deals :: "string option"
  uq_status :: "string option"
  uq_reg_from :: "string option"
  uq_reg_to :: "string option"
  uq_picker :: bool

record text_index =
  ti_match :: "string \<Rightarrow> user \<Rightarrow> bool"
  ti_rank :: "string \<Rightarrow> user \<Rightarrow> decimal"

definition status_hit :: "string \<Rightarrow> user \<Rightarrow> bool" where
  "status_hit s u = (if s = ''5'' then u_is_admin u else if s = ''3'' then u_is_arbiter u else if s = ''2'' then u_is_vip u else True)"

definition named_bucket :: "(string \<times> 'b) list \<Rightarrow> string \<Rightarrow> string option \<Rightarrow> py_error + 'b option" where
  "named_bucket buckets err v =
     (case v of
        None \<Rightarrow> Inr None
      | Some k \<Rightarrow> case map_of buckets k of None \<Rightarrow> Inl (HTTP 400 (E_other err)) | Some b \<Rightarrow> Inr (Some b))"

text \<open>The filters, checked in the order of the code; a search without a word has no hits and skips them.\<close>

definition directory_hits :: "text_index \<Rightarrow> user_query \<Rightarrow> world \<Rightarrow> py_error + user list" where
  "directory_hits ti uq w =
     (let q_trimmed = strip (given (uq_q uq) []); visible = filter (\<lambda>u. \<not> u_is_hidden_profile u) (t_users w) in
      case (if q_trimmed = [] then Returns None else build_prefix_tsquery q_trimmed) of
        AssertionError \<Rightarrow> Inl (RuntimeErr (E_other ''AssertionError''))
      | Returns ts_q \<Rightarrow>
      if q_trimmed \<noteq> [] \<and> ts_q = None then Inr []
      else
        let searched = (case ts_q of
               None \<Rightarrow> sort_key (\<lambda>u. - u_deals_total u) visible
             | Some ts \<Rightarrow> sort_key (\<lambda>u. - ti_rank ti ts u)
                 (sort_key (\<lambda>u. - u_deals_total u) (filter (ti_match ti ts) visible)));
            filtered = (if uq_filter uq = Some ''arbiters'' then filter u_is_arbiter searched
                        else if uq_filter uq = Some ''admins'' then filter u_is_admin searched else searched) in
      case named_bucket RATING_BUCKETS ''bad_rating_bucket'' (uq_rating uq) of Inl e \<Rightarrow> Inl e | Inr rb \<Rightarrow>
      case named_bucket DEALS_BUCKETS ''bad_deals_bucket'' (uq_deals uq) of Inl e \<Rightarrow> Inl e | Inr db \<Rightarrow>
      if (case uq_status uq of None \<Rightarrow> False | Some s \<Rightarrow> s \<notin> set STATUS_KEYS) then Inl (HTTP 400 (E_other ''bad_status''))
      else case parse_date (uq_reg_from uq) of Inl e \<Rightarrow> Inl e | Inr since \<Rightarrow>
      case parse_date (uq_reg_to uq) of Inl e \<Rightarrow> Inl e | Inr till \<Rightarrow>
        Inr (filter (\<lambda>u. (case rb of None \<Rightarrow> True | Some b \<Rightarrow> rating_in b (rating_expr u))
               \<and> (case db of None \<Rightarrow> True | Some b \<Rightarrow> deals_in b (u_deals_total u))
               \<and> (case uq_status uq of None \<Rightarrow> True | Some s \<Rightarrow> status_hit s u)
               \<and> (case since of None \<Rightarrow> True | Some t \<Rightarrow> t \<le> u_created_at u)
               \<and> (case till of None \<Rightarrow> True | Some t \<Rightarrow> u_created_at u < t + 86400)) filtered))"

definition list_directory ::
  "text_index \<Rightarrow> (int \<Rightarrow> int \<Rightarrow> decimal) \<Rightarrow> int \<Rightarrow> user \<Rightarrow> user_query \<Rightarrow> world \<Rightarrow> py_error + public_profile list" where
  "list_directory ti rate now viewer uq w =
     (if \<not> uq_picker uq \<and> \<not> u_is_admin viewer \<and> u_deals_total viewer = 0 then Inl (HTTP 403 (E_other ''one_deal_for_search''))
      else map_sum id (\<lambda>us. map (\<lambda>u. user_to_public_out rate now u w) (take 100 us)) (directory_hits ti uq w))"

definition get_public_user :: "(int \<Rightarrow> int \<Rightarrow> decimal) \<Rightarrow> int \<Rightarrow> string \<Rightarrow> world \<Rightarrow> py_error + public_profile" where
  "get_public_user rate now name w =
     (case user_by_name name w of
        None \<Rightarrow> Inl (HTTP 404 E_user_not_found)
      | Some u \<Rightarrow> if u_is_hidden_profile u then Inl (HTTP 404 E_user_not_found) else Inr (user_to_public_out rate now u w))"

section \<open>Queries are harmless\<close>

lemma join_and_chars: "set (join_and ts) \<subseteq> \<Union> (set ` set ts) \<union> {CHR '' '', CHR ''&''}"
  by (induction ts rule: join_and.induct) auto

lemma word_char_not_meta: "word_char c \<Longrightarrow> c \<notin> set TSQUERY_META"
  by (auto simp: word_char_def TSQUERY_META_def Let_def)

lemma prefix_tokens_words: "t \<in> set (prefix_tokens q) \<Longrightarrow> t \<noteq> [] \<and> list_all word_char t"
  by (auto simp: prefix_tokens_def list_all_iff)

text \<open>
  The assertion of \<open>build_prefix_tsquery\<close> never fails. What it hands to PostgreSQL is a conjunction of one to
  ten prefixes, each of word characters only: no operator of the user's text reaches the query.
\<close>

theorem search_text_is_harmless:
  "build_prefix_tsquery q = Returns None \<and> prefix_tokens q = []
   \<or> (\<exists>ts. build_prefix_tsquery q = Returns (Some (join_and (map (\<lambda>t. t @ '':*'') ts)))
        \<and> ts \<noteq> [] \<and> length ts \<le> 10 \<and> list_all (\<lambda>t. t \<noteq> [] \<and> list_all word_char t \<and> set t \<inter> set TSQUERY_META = {}) ts)"
proof -
  have words: "t \<noteq> [] \<and> list_all word_char t \<and> set t \<inter> set TSQUERY_META = {}" if "t \<in> set (prefix_tokens q)" for t
    using prefix_tokens_words [OF that] word_char_not_meta by (auto simp: list_all_iff)
  then have safe: "\<not> list_ex (\<lambda>t. list_ex (\<lambda>c. c \<in> set TSQUERY_META) t) (prefix_tokens q)" by (auto simp: list_ex_iff)
  have empty: "q = [] \<Longrightarrow> prefix_tokens q = []" by (simp add: prefix_tokens_def)
  show ?thesis
  proof (cases "prefix_tokens q = []")
    case True
    then show ?thesis using safe by (simp add: build_prefix_tsquery_def)
  next
    case False
    let ?ts = "take 10 (prefix_tokens q)"
    have "build_prefix_tsquery q = Returns (Some (join_and (map (\<lambda>t. t @ '':*'') ?ts)))"
      using safe False empty by (auto simp: build_prefix_tsquery_def Let_def take_map)
    moreover have "list_all (\<lambda>t. t \<noteq> [] \<and> list_all word_char t \<and> set t \<inter> set TSQUERY_META = {}) ?ts"
      using words by (auto simp: list_all_iff dest: in_set_takeD)
    ultimately show ?thesis using False by (intro disjI2 exI [of _ ?ts]) auto
  qed
qed

section \<open>The buckets\<close>

lemma rating_expr_range: "0 \<le> u_good u \<Longrightarrow> 0 \<le> u_bad u \<Longrightarrow> 0 \<le> rating_expr u \<and> rating_expr u \<le> 5"
  by (auto simp: rating_expr_def Let_def divide_simps)

text \<open>
  Every user is in exactly one bucket of ratings and exactly one of deal counts: no gap and no overlap.
\<close>

theorem buckets_partition_users:
  assumes "0 \<le> u_deals_total u"
  shows "length (filter (\<lambda>(k, b). rating_in b (rating_expr u)) RATING_BUCKETS) = 1
    \<and> length (filter (\<lambda>(k, b). deals_in b (u_deals_total u)) DEALS_BUCKETS) = 1"
  using assms by (auto simp: RATING_BUCKETS_def DEALS_BUCKETS_def rating_in_def deals_in_def)

text \<open>The buckets use the votes only; the profile shows a rating an administrator set instead.\<close>

lemma shown_rating_is_not_the_filtered_one:
  assumes "u_rating_manual u = Some 5" and "u_good u = 0" and "0 < u_bad u"
  shows "rating_of rate u = 5 \<and> rating_in (None, Some (7/2)) (rating_expr u)"
  using assms by (simp add: rating_of_def rating_expr_def rating_in_def Let_def)

section \<open>Hidden profiles\<close>

lemma directory_hits_visible:
  assumes "directory_hits ti uq w = Inr us" and "u \<in> set us"
  shows "u \<in> set (t_users w) \<and> \<not> u_is_hidden_profile u"
  using assms
  by (auto simp: directory_hits_def Let_def split: asserted.splits if_splits sum.splits option.splits)

text \<open>
  The directory and the public profile never show a hidden profile, whatever is searched and whoever asks,
  and the directory answers only to administrators, to users with a deal, or as the picker of a new deal.
\<close>

theorem hidden_profiles_stay_hidden:
  assumes "list_directory ti rate now viewer uq w = Inr ps" and "p \<in> set ps"
  shows "\<not> pp_is_hidden_profile p \<and> length ps \<le> 100 \<and> (uq_picker uq \<or> u_is_admin viewer \<or> u_deals_total viewer \<noteq> 0)
    \<and> (\<exists>u \<in> set (t_users w). \<not> u_is_hidden_profile u \<and> p = user_to_public_out rate now u w)
    \<and> (\<forall>name p'. get_public_user rate now name w = Inr p' \<longrightarrow> \<not> pp_is_hidden_profile p')"
proof -
  obtain us where us: "directory_hits ti uq w = Inr us" "ps = map (\<lambda>u. user_to_public_out rate now u w) (take 100 us)"
    and open_to: "uq_picker uq \<or> u_is_admin viewer \<or> u_deals_total viewer \<noteq> 0"
    using assms(1) by (cases "directory_hits ti uq w") (auto simp: list_directory_def split: if_splits)
  obtain u where "u \<in> set us" "p = user_to_public_out rate now u w" using us(2) assms(2) by (auto dest: in_set_takeD)
  moreover from directory_hits_visible [OF us(1) this(1)] have "u \<in> set (t_users w)" "\<not> u_is_hidden_profile u" by auto
  moreover have "\<not> pp_is_hidden_profile p'" if "get_public_user rate now name w = Inr p'" for name p'
    using that by (auto simp: get_public_user_def user_to_public_out_def common_user_fields_def split: option.splits if_splits)
  ultimately show ?thesis using us(2) open_to by (auto simp: user_to_public_out_def common_user_fields_def)
qed

section \<open>Sample queries\<close>

lemma search_sample: "build_prefix_tsquery ''foo | ba:r (!)'' = Returns (Some ''foo:* & bar:*'')"
  by code_simp

lemma date_sample: "date_fromisoformat ''2024-02-29'' = Some 1709164800 \<and> date_fromisoformat ''2023-02-29'' = None"
  by code_simp

lemma buckets_partition_users_witness:
  "length (filter (\<lambda>(k, b). rating_in b (rating_expr sample_buyer)) RATING_BUCKETS) = 1"
  using buckets_partition_users [of sample_buyer] by (simp add: sample_user_rows)

definition everyone :: user_query where
  "everyone = \<lparr> uq_q = None, uq_filter = None, uq_rating = None, uq_deals = None, uq_status = None, uq_reg_from = None,
     uq_reg_to = None, uq_picker = True \<rparr>"

lemma hidden_profiles_stay_hidden_witness:
  "\<exists>ps p. list_directory ti rate 9 sample_buyer everyone sample_world = Inr ps \<and> p \<in> set ps \<and> \<not> pp_is_hidden_profile p"
proof -
  have hits: "directory_hits ti everyone sample_world = Inr [sample_buyer, sample_seller, sample_admin]"
    by (simp add: directory_hits_def everyone_def named_bucket_def parse_date_def falsy_def strip_def given_def sample_world_def sample_user_rows)
  then have "list_directory ti rate 9 sample_buyer everyone sample_world
      = Inr (map (\<lambda>u. user_to_public_out rate 9 u sample_world) [sample_buyer, sample_seller, sample_admin])" (is "_ = Inr ?ps")
    by (simp add: list_directory_def everyone_def)
  moreover have "user_to_public_out rate 9 sample_buyer sample_world \<in> set ?ps" by simp
  ultimately show ?thesis using hidden_profiles_stay_hidden by blast
qed

end
