(* ===== verification/Notices.thy ===== *)
theory Notices
  imports Search
begin

text \<open>
  The inbox of notifications (\<open>backend/app/routers/notifications.py\<close>): pages by cursor, counters, and marking
  as read. The ISO parser of the cursor is a parameter: it answers with the seconds and whether the text
  carried an offset.
\<close>

section \<open>The list\<close>

definition PAGE_SIZE :: nat where "PAGE_SIZE = 200"

definition type_of_text :: "string \<Rightarrow> NotificationType option" where
  "type_of_text t = (if t = ''deals'' then Some NT_deals else if t = ''deposits'' then Some NT_deposits
     else if t = ''system'' then Some NT_system else None)"

text \<open>\<open>ORDER BY created_at DESC, id DESC\<close>\<close>

definition is_older :: "notification \<Rightarrow> int \<times> int \<Rightarrow> bool" where
  "is_older n c = (n_created_at n < fst c \<or> n_created_at n = fst c \<and> n_id n < snd c)"

definition position :: "notification \<Rightarrow> int \<times> int" where
  "position n = (n_created_at n, n_id n)"

fun insert_newest :: "notification \<Rightarrow> notification list \<Rightarrow> notification list" where
  "insert_newest n [] = [n]"
| "insert_newest n (x # xs) = (if is_older x (position n) then n # x # xs else x # insert_newest n xs)"

definition newest_first :: "notification list \<Rightarrow> notification list" where
  "newest_first ns = foldr insert_newest ns []"

text \<open>An unknown type is no filter.\<close>

definition inbox_of :: "user \<Rightarrow> string option \<Rightarrow> world \<Rightarrow> notification list" where
  "inbox_of u t w =
     (let own = filter (\<lambda>n. n_recipient_id n = u_id u) (t_notifications w) in
      newest_first (if falsy t then own
                    else case type_of_text (the t) of None \<Rightarrow> own | Some ty \<Rightarrow> filter (\<lambda>n. n_type n = ty) own))"

text \<open>The column has no time zone: a cursor with an offset is refused by the driver.\<close>

definition list_notifications ::
  "(string \<Rightarrow> (int \<times> bool) option) \<Rightarrow> user \<Rightarrow> string option \<Rightarrow> string option \<Rightarrow> int option \<Rightarrow> nat \<Rightarrow> world
     \<Rightarrow> py_error + notification list" where
  "list_notifications parse_ts u t before_created_at before_id limit w =
     (if limit < 1 \<or> PAGE_SIZE < limit \<or> (case before_id of None \<Rightarrow> False | Some i \<Rightarrow> i < 1)
      then Inl (HTTP 422 (E_other ''validation''))
      else if (before_created_at = None) \<noteq> (before_id = None) then Inl (HTTP 400 (E_other ''cursor_pair''))
      else case (before_created_at, before_id) of
        (Some ts, Some i) \<Rightarrow>
          (case parse_ts ts of
             None \<Rightarrow> Inl (HTTP 400 (E_other ''bad_cursor''))
           | Some (_, True) \<Rightarrow> Inl DataError
           | Some (cursor_ts, False) \<Rightarrow> Inr (take limit (filter (\<lambda>n. is_older n (cursor_ts, i)) (inbox_of u t w))))
      | _ \<Rightarrow> Inr (take limit (inbox_of u t w)))"

section \<open>Counters, reading\<close>

record counters =
  ct_all :: nat
  ct_deals :: nat
  ct_deposits :: nat
  ct_system :: nat
  ct_unread :: nat

definition get_counters :: "user \<Rightarrow> world \<Rightarrow> counters" where
  "get_counters u w =
     (let own = filter (\<lambda>n. n_recipient_id n = u_id u) (t_notifications w);
          count = (\<lambda>p. length (filter p own)) in
      \<lparr> ct_all = length own, ct_deals = count (\<lambda>n. n_type n = NT_deals), ct_deposits = count (\<lambda>n. n_type n = NT_deposits),
        ct_system = count (\<lambda>n. n_type n = NT_system), ct_unread = count (\<lambda>n. \<not> n_is_read n) \<rparr>)"

definition get_notification :: "user \<Rightarrow> int \<Rightarrow> world \<Rightarrow> py_error + notification" where
  "get_notification u i w =
     (case tget n_id i (t_notifications w) of
        None \<Rightarrow> Inl (HTTP 404 (E_other ''notification_not_found''))
      | Some n \<Rightarrow> if n_recipient_id n \<noteq> u_id u then Inl (HTTP 404 (E_other ''notification_not_found'')) else Inr n)"

definition publish_read :: "int \<Rightarrow> int list \<Rightarrow> bool \<Rightarrow> NotificationType option \<Rightarrow> world \<Rightarrow> world" where
  "publish_read recipient ids everything ty w = emit [Publish (WsRead recipient ids everything ty)] w"

definition mark_read :: "user \<Rightarrow> int \<Rightarrow> world \<Rightarrow> unit result" where
  "mark_read u i w =
     (case get_notification u i w of
        Inl e \<Rightarrow> (Inl e, w)
      | Inr n \<Rightarrow>
          let w1 = w \<lparr> t_notifications := tput n_id (n \<lparr> n_is_read := True \<rparr>) (t_notifications w) \<rparr>
          in (Inr (), if n_is_read n then w1 else publish_read (u_id u) [i] False (Some (n_type n)) w1))"

definition unread_of :: "user \<Rightarrow> notification \<Rightarrow> bool" where
  "unread_of u n = (n_recipient_id n = u_id u \<and> \<not> n_is_read n)"

text \<open>\<open>others\<close>: what is committed between the \<open>SELECT\<close> of the ids and the \<open>UPDATE\<close>.\<close>

definition mark_all_read :: "(world \<Rightarrow> world) \<Rightarrow> user \<Rightarrow> world \<Rightarrow> unit result" where
  "mark_all_read others u w =
     (let ids = map n_id (filter (unread_of u) (t_notifications w)) in
      if ids = [] then (Inr (), w)
      else let w0 = others w;
               w1 = w0 \<lparr> t_notifications := tupd (unread_of u) (\<lambda>n. n \<lparr> n_is_read := True \<rparr>) (t_notifications w0) \<rparr>
           in (Inr (), publish_read (u_id u) ids True None w1))"

section \<open>Pages cover the inbox\<close>

lemma set_insert_newest [simp]: "set (insert_newest n xs) = insert n (set xs)"
  by (induction xs) auto

lemma set_newest_first [simp]: "set (newest_first ns) = set ns"
  by (induction ns) (auto simp: newest_first_def)

lemma length_newest_first [simp]: "length (newest_first ns) = length ns"
proof -
  have "length (insert_newest n xs) = Suc (length xs)" for n xs by (induction xs) auto
  then show ?thesis by (induction ns) (auto simp: newest_first_def)
qed

abbreviation newer :: "notification \<Rightarrow> notification \<Rightarrow> bool" where
  "newer a b \<equiv> is_older b (position a)"

lemma newer_trans: "newer a b \<Longrightarrow> newer b c \<Longrightarrow> newer a c"
  by (auto simp: is_older_def position_def)

lemma sorted_newer_distinct: "sorted_wrt newer xs \<Longrightarrow> distinct xs"
  by (induction xs) (auto simp: is_older_def position_def)

lemma newer_total: "n_id a \<noteq> n_id b \<Longrightarrow> newer a b \<or> newer b a"
  by (auto simp: is_older_def position_def)

lemma insert_newest_sorted:
  "sorted_wrt newer xs \<Longrightarrow> n_id n \<notin> n_id ` set xs \<Longrightarrow> sorted_wrt newer (insert_newest n xs)"
proof (induction xs)
  case (Cons x xs)
  then show ?case using newer_total [of n x] by (auto intro: newer_trans)
qed simp

lemma newest_first_sorted: "distinct (map n_id ns) \<Longrightarrow> sorted_wrt newer (newest_first ns)"
proof (induction ns)
  case (Cons n ns)
  then have "n_id n \<notin> n_id ` set (newest_first ns)" by simp
  then show ?case using Cons insert_newest_sorted by (simp add: newest_first_def)
qed (simp add: newest_first_def)

lemma older_than_page:
  assumes "sorted_wrt newer xs" and "0 < k" and "xs \<noteq> []"
  shows "filter (\<lambda>n. is_older n (position (last (take k xs)))) xs = drop k xs"
proof -
  let ?p = "take k xs" and ?d = "drop k xs"
  have split: "xs = ?p @ ?d" by simp
  have s: "sorted_wrt newer ?p" "\<forall>a \<in> set ?p. \<forall>b \<in> set ?d. newer a b"
    using assms(1) unfolding sorted_wrt_append [of newer ?p ?d, unfolded append_take_drop_id] by auto
  have ne: "?p \<noteq> []" using assms(2,3) by simp
  have "\<not> newer (last ?p) a" if "a \<in> set ?p" for a
  proof -
    have "a = last ?p \<or> newer a (last ?p)" 
    proof -
      have "?p = butlast ?p @ [last ?p]" using ne by simp
      then have "sorted_wrt newer (butlast ?p @ [last ?p])" "a \<in> set (butlast ?p @ [last ?p])" using s(1) that by simp_all
      then show ?thesis by (auto simp: sorted_wrt_append)
    qed
    then show ?thesis by (auto simp: is_older_def position_def)
  qed
  moreover have "newer (last ?p) b" if "b \<in> set ?d" for b using s(2) that ne last_in_set by blast
  ultimately have "filter (newer (last ?p)) ?p = []" "filter (newer (last ?p)) ?d = ?d"
    by (auto simp: filter_empty_conv filter_id_conv)
  moreover have "filter (newer (last ?p)) xs = filter (newer (last ?p)) ?p @ filter (newer (last ?p)) ?d"
    by (metis append_take_drop_id filter_append)
  ultimately show ?thesis by simp
qed

lemma inbox_sorted: "tkeys n_id (t_notifications w) \<Longrightarrow> sorted_wrt newer (inbox_of u t w)"
  unfolding inbox_of_def Let_def tkeys_def
  by (rule newest_first_sorted) (auto simp: distinct_map intro: inj_on_subset split: option.split)

text \<open>A client that asks for page after page, with the cursor of the last row it got.\<close>

fun read_pages ::
  "(string \<Rightarrow> (int \<times> bool) option) \<Rightarrow> (int \<Rightarrow> string) \<Rightarrow> nat \<Rightarrow> nat \<Rightarrow> user \<Rightarrow> string option \<Rightarrow> (int \<times> int) option \<Rightarrow> world
     \<Rightarrow> notification list" where
  "read_pages parse_ts show_ts 0 k u t c w = []"
| "read_pages parse_ts show_ts (Suc fuel) k u t c w =
     (case list_notifications parse_ts u t (map_option (\<lambda>p. show_ts (fst p)) c) (map_option snd c) k w of
        Inl e \<Rightarrow> []
      | Inr page \<Rightarrow> if page = [] then []
                    else page @ read_pages parse_ts show_ts fuel k u t (Some (position (last page))) w)"

lemma filter_sorted_newer: "sorted_wrt newer xs \<Longrightarrow> sorted_wrt newer (filter p xs)"
  by (rule sorted_wrt_filter)

lemma read_pages_from:
  assumes "tkeys n_id (t_notifications w)" and "\<forall>n \<in> set (t_notifications w). 1 \<le> n_id n" and "\<And>x. parse_ts (show_ts x) = Some (x, False)"
    and "0 < k" and "k \<le> PAGE_SIZE" and "1 \<le> snd c"
  shows "length (filter (\<lambda>n. is_older n c) (inbox_of u t w)) < fuel \<Longrightarrow>
    read_pages parse_ts show_ts fuel k u t (Some c) w = filter (\<lambda>n. is_older n c) (inbox_of u t w)"
  using assms(6)
proof (induction fuel arbitrary: c)
  case (Suc fuel)
  let ?xs = "filter (\<lambda>n. is_older n c) (inbox_of u t w)"
  have page: "list_notifications parse_ts u t (Some (show_ts (fst c))) (Some (snd c)) k w = Inr (take k ?xs)"
    using assms(3-5) Suc.prems(2) by (simp add: list_notifications_def)
  show ?case
  proof (cases "?xs = []")
    case True
    then show ?thesis using page by simp
  next
    case False
    let ?l = "last (take k ?xs)"
    have "?l \<in> set (take k ?xs)" using False assms(4) by (intro last_in_set) simp
    then have l: "?l \<in> set ?xs" by (rule in_set_takeD)
    then have "?l \<in> set (t_notifications w)" by (auto simp: inbox_of_def Let_def split: if_splits option.splits)
    then have id: "1 \<le> snd (position ?l)" using assms(2) by (simp add: position_def)
    have sorted: "sorted_wrt newer (inbox_of u t w)" using inbox_sorted [OF assms(1)] .
    have older: "is_older n c \<and> is_older n (position ?l) \<longleftrightarrow> is_older n (position ?l)" for n
      using l by (auto simp: is_older_def position_def)
    have "filter (\<lambda>n. is_older n (position ?l)) (inbox_of u t w) = filter (\<lambda>n. is_older n (position ?l)) ?xs"
      using older by (simp add: conj_commute)
    also have "\<dots> = drop k ?xs"
      by (rule older_than_page [OF filter_sorted_newer [OF sorted] assms(4) False])
    finally have rest: "filter (\<lambda>n. is_older n (position ?l)) (inbox_of u t w) = drop k ?xs" .
    have "length (drop k ?xs) < fuel" using Suc.prems(1) False assms(4) by (simp add: less_Suc_eq_le) (meson diff_less le_less_trans length_greater_0_conv less_le_trans)
    then have "read_pages parse_ts show_ts fuel k u t (Some (position ?l)) w = drop k ?xs"
      using Suc.IH [of "position ?l"] id unfolding rest by blast
    moreover have "take k ?xs \<noteq> []" using False assms(4) by simp
    ultimately show ?thesis using page by simp
  qed
qed simp

text \<open>
  C38. Whatever the size of the page, a client that follows the cursors reads its whole inbox, newest first, each
  notification once, and stops.
\<close>

theorem pages_cover_the_inbox:
  assumes "tkeys n_id (t_notifications w)" and "\<forall>n \<in> set (t_notifications w). 1 \<le> n_id n" and "\<forall>x. parse_ts (show_ts x) = Some (x, False)"
    and "0 < k" and "k \<le> PAGE_SIZE" and "length (t_notifications w) < fuel"
  shows "read_pages parse_ts show_ts fuel k u None None w = inbox_of u None w
    \<and> distinct (inbox_of u None w) \<and> set (inbox_of u None w) = {n \<in> set (t_notifications w). n_recipient_id n = u_id u}
    \<and> sorted_wrt newer (inbox_of u None w)"
proof -
  let ?xs = "inbox_of u None w"
  have sorted: "sorted_wrt newer ?xs" by (rule inbox_sorted [OF assms(1)])
  then have dist: "distinct ?xs" by (rule sorted_newer_distinct)
  have own: "set ?xs = {n \<in> set (t_notifications w). n_recipient_id n = u_id u}"
    by (auto simp: inbox_of_def falsy_def)
  have len: "length ?xs \<le> length (t_notifications w)" by (simp add: inbox_of_def falsy_def)
  obtain f where f: "fuel = Suc f" using assms(6) by (cases fuel) auto
  have page: "list_notifications parse_ts u None None None k w = Inr (take k ?xs)"
    using assms(4,5) by (simp add: list_notifications_def)
  have "read_pages parse_ts show_ts fuel k u None None w = ?xs"
  proof (cases "?xs = []")
    case True
    then show ?thesis using page by (simp add: f)
  next
    case False
    let ?l = "last (take k ?xs)"
    have "?l \<in> set (take k ?xs)" using False assms(4) by (intro last_in_set) simp
    then have "1 \<le> snd (position ?l)" using own assms(2) by (auto simp: position_def dest: in_set_takeD)
    moreover have rest: "filter (\<lambda>n. is_older n (position ?l)) ?xs = drop k ?xs" by (rule older_than_page [OF sorted assms(4) False])
    moreover have "length (drop k ?xs) < f" using len assms(4,6) False f by (cases k; cases ?xs) auto
    ultimately have "read_pages parse_ts show_ts f k u None (Some (position ?l)) w = drop k ?xs"
      using read_pages_from [OF assms(1,2) _ assms(4,5), of parse_ts show_ts "position ?l" u None f] assms(3) by simp
    then show ?thesis using page False assms(4) by (simp add: f)
  qed
  then show ?thesis using sorted dist own by blast
qed

section \<open>Reading\<close>

lemma unread_put:
  assumes "tkeys n_id rows" and "n \<in> set rows"
  shows "length (filter (unread_of u) rows) = length (filter (unread_of u) (tput n_id (n \<lparr> n_is_read := True \<rparr>) rows)) + (if unread_of u n then 1 else 0)"
  using assms
proof (induction rows)
  case (Cons x rows)
  then show ?case
  proof (cases "n_id x = n_id n")
    case True
    then have x: "x = n" using Cons.prems by (auto simp: tkeys_def image_iff)
    have "tget n_id (n_id (n \<lparr> n_is_read := True \<rparr>)) rows = None" using Cons.prems(1) x by (auto simp: tkeys_def tget_None_iff)
    then show ?thesis using x tput_absent [of n_id "n \<lparr> n_is_read := True \<rparr>" rows] by (auto simp: unread_of_def)
  qed (auto simp: tkeys_def)
qed simp

lemma ct_unread_eq: "ct_unread (get_counters u w) = length (filter (unread_of u) (t_notifications w))"
  by (simp add: get_counters_def Let_def unread_of_def [abs_def] conj_commute)

lemma mark_read_found:
  assumes "get_notification u i w = Inr n"
  shows "t_notifications (snd (mark_read u i w)) = tput n_id (n \<lparr> n_is_read := True \<rparr>) (t_notifications w)"
  using assms by (simp add: mark_read_def Let_def publish_read_def emit_def)

text \<open>
  The inbox is private: a notification of somebody else is answered 404 and stays as it is. Reading one
  lowers the unread counter by one, or by none when it was read; reading all takes it to nought, with what
  arrives in the meantime, and tells the other tabs of the ones it knew.
\<close>

theorem reading_is_private_and_counted:
  assumes "tkeys n_id (t_notifications w)" and "tget n_id i (t_notifications w) = Some n"
  shows "(if n_recipient_id n \<noteq> u_id u
      then get_notification u i w = Inl (HTTP 404 (E_other ''notification_not_found'')) \<and> snd (mark_read u i w) = w
      else get_notification u i w = Inr n
        \<and> ct_unread (get_counters u w) = ct_unread (get_counters u (snd (mark_read u i w))) + (if n_is_read n then 0 else 1))
    \<and> (filter (unread_of u) (t_notifications w) \<noteq> [] \<longrightarrow> ct_unread (get_counters u (snd (mark_all_read others u w))) = 0)"
proof (intro conjI impI)
  show "if n_recipient_id n \<noteq> u_id u
      then get_notification u i w = Inl (HTTP 404 (E_other ''notification_not_found'')) \<and> snd (mark_read u i w) = w
      else get_notification u i w = Inr n
        \<and> ct_unread (get_counters u w) = ct_unread (get_counters u (snd (mark_read u i w))) + (if n_is_read n then 0 else 1)"
  proof (cases "n_recipient_id n = u_id u")
    case True
    then have g: "get_notification u i w = Inr n" by (simp add: get_notification_def assms(2))
    have "n \<in> set (t_notifications w)" using tget_Some [OF assms(2)] by blast
    from unread_put [OF assms(1) this, of u] show ?thesis using True g mark_read_found [OF g]
      by (simp add: ct_unread_eq unread_of_def)
  qed (simp add: get_notification_def mark_read_def assms(2))
  assume "filter (unread_of u) (t_notifications w) \<noteq> []"
  then have "t_notifications (snd (mark_all_read others u w)) = tupd (unread_of u) (\<lambda>n. n \<lparr> n_is_read := True \<rparr>) (t_notifications (others w))"
    by (auto simp: mark_all_read_def Let_def publish_read_def emit_def)
  then show "ct_unread (get_counters u (snd (mark_all_read others u w))) = 0"
    by (auto simp: ct_unread_eq filter_empty_conv tupd_def unread_of_def split: if_splits)
qed

text \<open>A cursor that ends in \<open>Z\<close> is turned into one with the offset \<open>+00:00\<close>, and never works.\<close>

lemma cursor_with_offset_fails:
  assumes "parse_ts ts = Some (t0, True)" and "1 \<le> i" and "0 < k" and "k \<le> PAGE_SIZE"
  shows "list_notifications parse_ts u t (Some ts) (Some i) k w = Inl DataError"
  using assms by (simp add: list_notifications_def)

section \<open>Samples\<close>

definition sample_notice :: "int \<Rightarrow> int \<Rightarrow> int \<Rightarrow> bool \<Rightarrow> notification" where
  "sample_notice i recipient at_time is_read = \<lparr> n_id = i, n_recipient_id = recipient, n_type = NT_system, n_notice = N_trust_set 1,
     n_payload = None, n_is_read = is_read, n_created_at = at_time \<rparr>"

definition notice_world :: world where
  "notice_world = sample_world \<lparr> t_notifications :=
     [sample_notice 1 1 10 True, sample_notice 2 1 10 False, sample_notice 3 2 11 False, sample_notice 4 1 12 False] \<rparr>"

text \<open>A text for a time: one character for each second, after a sign.\<close>

definition sample_show_ts :: "int \<Rightarrow> string" where
  "sample_show_ts n = (if n < 0 then CHR ''-'' else CHR ''+'') # replicate (nat \<bar>n\<bar>) CHR ''1''"

definition sample_parse_ts :: "string \<Rightarrow> (int \<times> bool) option" where
  "sample_parse_ts s = (if s = [] then None else Some (if hd s = CHR ''-'' then - int (length (tl s)) else int (length (tl s)), False))"

lemma pages_cover_the_inbox_witness:
  "map n_id (read_pages sample_parse_ts sample_show_ts 5 2 sample_buyer None None notice_world) = [4, 2, 1]"
proof -
  have "tkeys n_id (t_notifications notice_world)" "\<forall>n \<in> set (t_notifications notice_world). 1 \<le> n_id n"
    by (simp_all add: tkeys_def notice_world_def sample_notice_def)
  moreover have "\<forall>x. sample_parse_ts (sample_show_ts x) = Some (x, False)" by (simp add: sample_parse_ts_def sample_show_ts_def)
  ultimately have "read_pages sample_parse_ts sample_show_ts 5 2 sample_buyer None None notice_world = inbox_of sample_buyer None notice_world"
    using pages_cover_the_inbox [of notice_world sample_parse_ts sample_show_ts 2 5 sample_buyer]
    by (simp add: PAGE_SIZE_def notice_world_def)
  then show ?thesis
    by (simp add: inbox_of_def falsy_def newest_first_def notice_world_def sample_notice_def is_older_def position_def)
qed

lemma reading_is_private_and_counted_witness:
  "ct_unread (get_counters sample_buyer notice_world) = ct_unread (get_counters sample_buyer (snd (mark_read sample_buyer 2 notice_world))) + 1
   \<and> ct_unread (get_counters sample_buyer (snd (mark_all_read id sample_buyer notice_world))) = 0"
proof -
  have keys: "tkeys n_id (t_notifications notice_world)" by (simp add: tkeys_def notice_world_def sample_notice_def)
  have row: "tget n_id 2 (t_notifications notice_world) = Some (sample_notice 2 1 10 False)"
    by (simp add: notice_world_def sample_notice_def)
  have "filter (unread_of sample_buyer) (t_notifications notice_world) \<noteq> []"
    by (simp add: notice_world_def unread_of_def sample_notice_def)
  then show ?thesis
    using reading_is_private_and_counted [OF keys row, of sample_buyer id] by (simp add: sample_notice_def)
qed

end
