(* ===== verification/Catalogue.thy ===== *)
theory Catalogue
  imports Notices
begin

text \<open>
  The catalogue of services (\<open>backend/app/routers/services.py\<close>, \<open>backend/app/routers/categories.py\<close>) and its
  moderation (\<open>backend/app/routers/admin/content.py\<close>): listing, the quota of active services, comments and the
  administrators' edits. Matching a query against a search vector is a parameter.
\<close>

section \<open>Bodies\<close>

definition MAX_SERVICE_PHOTOS :: nat where "MAX_SERVICE_PHOTOS = 6"
definition MAX_DESCRIPTION_LEN :: nat where "MAX_DESCRIPTION_LEN = 4000"

text \<open>The photos: trimmed, empty ones dropped, repeated ones dropped; \<open>None\<close> refuses the body.\<close>

fun clean_photos :: "string list \<Rightarrow> string list \<Rightarrow> string list option" where
  "clean_photos seen [] = Some []"
| "clean_photos seen (entry # rest) =
     (let s = strip entry; low = map to_lower s in
      if s = [] then clean_photos seen rest
      else if 1024 < length s then None
      else if \<not> (starts_with ''https://'' low \<or> starts_with ''/media/'' low) then None
      else if s \<in> set seen then clean_photos seen rest
      else map_option ((#) s) (clean_photos (s # seen) rest))"

definition service_photos_ok :: "string list \<Rightarrow> string list option" where
  "service_photos_ok v = (if MAX_SERVICE_PHOTOS < length v then None else clean_photos [] v)"

record service_create =
  nb_category_slug :: string
  nb_title :: string
  nb_description :: string
  nb_price :: decimal
  nb_photo_urls :: "string list"

definition service_create_validated :: "service_create \<Rightarrow> service_create option" where
  "service_create_validated b =
     (if nb_price b < 0 \<or> MAX_DESCRIPTION_LEN < length (nb_description b) then None
      else map_option (\<lambda>ps. b \<lparr> nb_photo_urls := ps \<rparr>) (service_photos_ok (nb_photo_urls b)))"

record service_update =
  eb_title :: "string option"
  eb_description :: "string option"
  eb_price :: "decimal option"
  eb_status :: "string option"
  eb_photo_urls :: "string list option"

definition opt_ok :: "('a \<Rightarrow> 'b option) \<Rightarrow> 'a option \<Rightarrow> 'b option option" where
  "opt_ok f v = (case v of None \<Rightarrow> Some None | Some x \<Rightarrow> map_option Some (f x))"

definition service_update_validated :: "service_update \<Rightarrow> service_update option" where
  "service_update_validated b =
     (if \<not> non_negative (eb_price b) \<or> (case eb_description b of None \<Rightarrow> False | Some d \<Rightarrow> MAX_DESCRIPTION_LEN < length d) then None
      else map_option (\<lambda>ps. b \<lparr> eb_photo_urls := ps \<rparr>) (opt_ok service_photos_ok (eb_photo_urls b)))"

definition status_of_text :: "string \<Rightarrow> ServiceStatus option" where
  "status_of_text s = (if s = ''draft'' then Some SV_draft else if s = ''active'' then Some SV_active
     else if s = ''paused'' then Some SV_paused else if s = ''banned'' then Some SV_banned else None)"

definition service_status_text :: "ServiceStatus \<Rightarrow> string" where
  "service_status_text s = (case s of SV_draft \<Rightarrow> ''draft'' | SV_active \<Rightarrow> ''active'' | SV_paused \<Rightarrow> ''paused'' | SV_banned \<Rightarrow> ''banned'')"

record comment_create =
  kb_text :: string
  kb_rating :: "int option"

definition rating_range_ok :: "int option \<Rightarrow> bool" where
  "rating_range_ok v = (case v of None \<Rightarrow> True | Some r \<Rightarrow> 1 \<le> r \<and> r \<le> 5)"

definition comment_create_validated :: "comment_create \<Rightarrow> comment_create option" where
  "comment_create_validated b =
     (let v = strip (kb_text b) in
      if 1024 < length v \<or> \<not> rating_range_ok (kb_rating b) then None else Some (b \<lparr> kb_text := v \<rparr>))"

section \<open>Output\<close>

record service_out =
  xo_id :: int
  xo_owner_username :: "string option"
  xo_title :: string
  xo_description :: string
  xo_price :: decimal
  xo_currency :: string
  xo_status :: string
  xo_category :: "category option"
  xo_created_at :: int
  xo_photo_urls :: "string list"

definition service_out_of :: "world \<Rightarrow> service \<Rightarrow> service_out" where
  "service_out_of w s =
     \<lparr> xo_id = sv_id s, xo_owner_username = username_of (sv_owner_id s) w, xo_title = sv_title s, xo_description = sv_description s,
       xo_price = sv_price s,
       xo_currency = (case sv_currency_id s of None \<Rightarrow> ''USD'' | Some c \<Rightarrow>
          case get_currency c w of None \<Rightarrow> ''USD'' | Some cur \<Rightarrow> c_code cur),
       xo_status = service_status_text (sv_status s), xo_category = tget cat_id (sv_category_id s) (t_categories w),
       xo_created_at = sv_created_at s, xo_photo_urls = sv_photo_urls s \<rparr>"

record owner_out =
  oo_id :: int
  oo_username :: "string option"
  oo_display_name :: string
  oo_photo_url :: "string option"
  oo_rating :: decimal
  oo_deals_count :: int
  oo_good :: int
  oo_bad :: int
  oo_is_admin :: bool
  oo_is_arbiter :: bool

definition owner_out_of :: "user \<Rightarrow> owner_out" where
  "owner_out_of u =
     (let total = u_good u + u_bad u in
      \<lparr> oo_id = u_id u, oo_username = u_username u,
        oo_display_name = (if u_display_name u = [] then given (u_username u) [] else u_display_name u), oo_photo_url = u_photo_url u,
        oo_rating = (if total \<noteq> 0 then quantize_money (of_int (u_good u) * 5 / of_int total) 2 else 0),
        oo_deals_count = u_deals_total u, oo_good = u_good u, oo_bad = u_bad u, oo_is_admin = u_is_admin u, oo_is_arbiter = u_is_arbiter u \<rparr>)"

record comment_out =
  co_id :: int
  co_service_id :: int
  co_author_id :: int
  co_author_username :: "string option"
  co_author_display_name :: string
  co_author_photo_url :: "string option"
  co_text :: string
  co_rating :: "int option"
  co_created_at :: int

definition comment_out_of :: "world \<Rightarrow> service_comment \<Rightarrow> comment_out" where
  "comment_out_of w c =
     (let author = get_user (sc_author_id c) w in
      \<lparr> co_id = sc_id c, co_service_id = sc_service_id c, co_author_id = sc_author_id c,
        co_author_username = (case author of None \<Rightarrow> None | Some u \<Rightarrow> u_username u),
        co_author_display_name = (case author of None \<Rightarrow> [] | Some u \<Rightarrow> if u_display_name u = [] then given (u_username u) [] else u_display_name u),
        co_author_photo_url = (case author of None \<Rightarrow> None | Some u \<Rightarrow> u_photo_url u),
        co_text = sc_text c, co_rating = sc_rating c, co_created_at = sc_created_at c \<rparr>)"

section \<open>The quota\<close>

definition active_count :: "int \<Rightarrow> world \<Rightarrow> nat" where
  "active_count owner w = length (filter (\<lambda>s. sv_owner_id s = owner \<and> sv_status s = SV_active) (t_services w))"

text \<open>A missing row and a limit of 0 both mean 10.\<close>

definition quota_snapshot :: "int \<Rightarrow> world \<Rightarrow> nat \<times> int" where
  "quota_snapshot owner w =
     (active_count owner w,
      case t_app_settings w of None \<Rightarrow> 10
      | Some s \<Rightarrow> if s_max_active_services_per_user s = 0 then 10 else s_max_active_services_per_user s)"

section \<open>The public catalogue\<close>

record service_query =
  sq_category :: "string option"
  sq_q :: "string option"
  sq_owner :: "string option"
  sq_status :: "ServiceStatus option"
  sq_limit :: nat
  sq_offset :: nat

record service_index =
  si_match :: "string \<Rightarrow> service \<Rightarrow> bool"
  si_rank :: "string \<Rightarrow> service \<Rightarrow> decimal"

definition newest_services :: "service list \<Rightarrow> service list" where
  "newest_services ss = sort_key (\<lambda>s. - sv_created_at s) (sort_key (\<lambda>s. - sv_id s) ss)"

definition owner_hidden :: "world \<Rightarrow> service \<Rightarrow> bool" where
  "owner_hidden w s = (case get_user (sv_owner_id s) w of None \<Rightarrow> False | Some u \<Rightarrow> u_is_hidden_profile u)"

definition own_catalogue :: "user \<Rightarrow> service_query \<Rightarrow> bool" where
  "own_catalogue u sq = (\<not> falsy (sq_owner sq) \<and> the (sq_owner sq) = given (u_username u) [])"

definition catalogue_status_ok :: "user \<Rightarrow> service_query \<Rightarrow> bool" where
  "catalogue_status_ok u sq =
     (case sq_status sq of None \<Rightarrow> True | Some st \<Rightarrow> st = SV_active \<or> u_is_admin u \<or> own_catalogue u sq)"

definition catalogue_filter :: "user \<Rightarrow> service_query \<Rightarrow> world \<Rightarrow> service \<Rightarrow> bool" where
  "catalogue_filter u sq w s =
     ((falsy (sq_category sq) \<or> (\<exists>c \<in> set (t_categories w). cat_id c = sv_category_id s \<and> cat_slug c = the (sq_category sq)))
      \<and> (falsy (sq_owner sq) \<or> username_of (sv_owner_id s) w = sq_owner sq)
      \<and> (case sq_status sq of
           Some st \<Rightarrow> sv_status s = st
         | None \<Rightarrow> own_catalogue u sq \<or> u_is_admin u \<or> sv_status s = SV_active)
      \<and> (u_is_admin u \<or> own_catalogue u sq \<or> \<not> owner_hidden w s))"

text \<open>The page and the total of \<open>X-Total-Count\<close>.\<close>

definition list_services :: "service_index \<Rightarrow> user \<Rightarrow> service_query \<Rightarrow> world \<Rightarrow> py_error + (nat \<times> service_out list)" where
  "list_services si u sq w =
     (if sq_limit sq < 1 \<or> 200 < sq_limit sq then Inl (HTTP 422 (E_other ''validation''))
      else if \<not> u_is_admin u \<and> u_deals_total u = 0 then Inl (HTTP 403 (E_other ''one_deal_for_search''))
      else
        let q_trimmed = strip (given (sq_q sq) []) in
        case (if q_trimmed = [] then Returns None else build_prefix_tsquery q_trimmed) of
          AssertionError \<Rightarrow> Inl (RuntimeErr (E_other ''AssertionError''))
        | Returns ts_q \<Rightarrow>
        if q_trimmed \<noteq> [] \<and> ts_q = None then Inr (0, [])
        else if \<not> catalogue_status_ok u sq then Inl (HTTP 403 (E_other ''status_forbidden''))
        else
          let hits = filter (catalogue_filter u sq w) (t_services w);
              found = (case ts_q of None \<Rightarrow> newest_services hits
                       | Some ts \<Rightarrow> sort_key (\<lambda>s. - si_rank si ts s) (newest_services (filter (si_match si ts) hits)))
          in Inr (length found, map (service_out_of w) (take (sq_limit sq) (drop (sq_offset sq) found))))"

text \<open>The gate of the three endpoints on one service.\<close>

definition visible_service :: "user \<Rightarrow> int \<Rightarrow> world \<Rightarrow> py_error + service" where
  "visible_service u i w =
     (case tget sv_id i (t_services w) of
        None \<Rightarrow> Inl (HTTP 404 (E_other ''service_not_found''))
      | Some s \<Rightarrow>
        if sv_status s \<noteq> SV_active \<and> \<not> (u_is_admin u \<or> sv_owner_id s = u_id u) then Inl (HTTP 404 (E_other ''service_not_found''))
        else if owner_hidden w s \<and> \<not> (u_is_admin u \<or> sv_owner_id s = u_id u) then Inl (HTTP 404 (E_other ''service_not_found''))
        else Inr s)"

record service_detail =
  xd_base :: service_out
  xd_owner :: "owner_out option"
  xd_comments_count :: nat
  xd_rating_avg :: "decimal option"
  xd_rating_count :: nat

definition comment_ratings :: "int \<Rightarrow> world \<Rightarrow> int list" where
  "comment_ratings i w = List.map_filter sc_rating (filter (\<lambda>c. sc_service_id c = i) (t_comments w))"

definition get_service :: "user \<Rightarrow> int \<Rightarrow> world \<Rightarrow> py_error + service_detail" where
  "get_service u i w =
     map_sum id (\<lambda>s. let rs = comment_ratings (sv_id s) w in
       \<lparr> xd_base = service_out_of w s, xd_owner = map_option owner_out_of (get_user (sv_owner_id s) w),
         xd_comments_count = length (filter (\<lambda>c. sc_service_id c = sv_id s) (t_comments w)),
         xd_rating_avg = (if rs = [] then None else Some (quantize_money (of_int (sum_list rs) / of_nat (length rs)) 2)),
         xd_rating_count = length rs \<rparr>) (visible_service u i w)"

definition list_service_comments :: "user \<Rightarrow> int \<Rightarrow> nat \<Rightarrow> world \<Rightarrow> py_error + comment_out list" where
  "list_service_comments u i limit w =
     map_sum id (\<lambda>s. map (comment_out_of w) (take limit (sort_key (\<lambda>c. - sc_created_at c)
        (filter (\<lambda>c. sc_service_id c = sv_id s) (t_comments w))))) (visible_service u i w)"

record category_out =
  yo_category :: category
  yo_services_count :: nat

definition list_public_categories :: "bool \<Rightarrow> user \<Rightarrow> world \<Rightarrow> py_error + category_out list" where
  "list_public_categories enforce_gating u w =
     (if \<not> u_is_admin u \<and> u_deals_total u = 0 \<and> enforce_gating then Inl (HTTP 403 (E_other ''one_deal_for_search''))
      else Inr (map (\<lambda>c. \<lparr> yo_category = c,
             yo_services_count = length (filter (\<lambda>s. sv_category_id s = cat_id c \<and> sv_status s = SV_active) (t_services w)) \<rparr>)
           (list_categories w)))"

section \<open>Creating, changing, deleting\<close>

definition service_title :: "string \<Rightarrow> py_error + string" where
  "service_title raw =
     (let t = strip raw in
      if t = [] then Inl (HTTP 400 (E_other ''empty_title'')) else if 256 < length t then Inl (HTTP 400 (E_other ''long_title'')) else Inr t)"

text \<open>\<open>others\<close>: what is committed before the lock on the owner is granted.\<close>

definition create_service :: "int \<Rightarrow> (world \<Rightarrow> world) \<Rightarrow> user \<Rightarrow> service_create \<Rightarrow> world \<Rightarrow> service_out result" where
  "create_service now others u b0 w =
     (case service_create_validated b0 of
        None \<Rightarrow> (Inl (HTTP 422 (E_other ''validation'')), w)
      | Some b \<Rightarrow>
     (case service_title (nb_title b) of
        Inl e \<Rightarrow> (Inl e, w)
      | Inr title \<Rightarrow>
     (case category_by_slug (nb_category_slug b) w of
        None \<Rightarrow> (Inl (HTTP 404 (E_other ''category_not_found'')), w)
      | Some cat \<Rightarrow>
        let w0 = others w in
        case quota_snapshot (u_id u) w0 of
          (active_now, max_active) \<Rightarrow>
            if max_active \<le> int active_now then (Inl (HTTP 400 (E_other ''active_limit'')), w0)
            else
              let s = \<lparr> sv_id = seq_services w0, sv_owner_id = u_id u, sv_category_id = cat_id cat, sv_title = title,
                        sv_description = nb_description b, sv_price = nb_price b, sv_status = SV_active, sv_ban_reason = None,
                        sv_views = 0, sv_deals_count = 0, sv_deposit = 0, sv_rating_manual = None, sv_photo_urls = nb_photo_urls b,
                        sv_created_at = now, sv_currency_id = None \<rparr>
              in if \<not> money_fits (sv_price s) then (Inl DataError, w0)
                 else if tget cat_id (cat_id cat) (t_categories w0) = None then (Inl IntegrityError, w0)
                 else let w1 = w0 \<lparr> t_services := t_services w0 @ [s \<lparr> sv_price := column (sv_price s) \<rparr>], seq_services := seq_services w0 + 1 \<rparr>
                      in (Inr (service_out_of w1 s), w1))))"


text \<open>
  \<open>update_service\<close> works on the row it read at first. \<open>patched\<close> is that row in memory; the flush writes the columns
  that differ from what was read into the row as it is by then.
\<close>

definition written :: "'a \<Rightarrow> 'a \<Rightarrow> 'a \<Rightarrow> 'a" where
  "written old new cur = (if new = old then cur else new)"

definition service_fits :: "service \<Rightarrow> bool" where
  "service_fits s \<longleftrightarrow> money_fits (sv_price s) \<and> money_fits (sv_deposit s) \<and> int32_fits (sv_views s) \<and> int32_fits (sv_deals_count s)"

definition flush_service :: "service \<Rightarrow> service \<Rightarrow> world \<Rightarrow> py_error + world" where
  "flush_service s s' w0 =
     (if s' = s then Inr w0
      else if \<not> service_fits s' then Inl DataError
      else case tget sv_id (sv_id s) (t_services w0) of
        None \<Rightarrow> Inl (RuntimeErr (E_other ''StaleDataError''))
      | Some r \<Rightarrow>
          Inr (w0 \<lparr> t_services := tput sv_id
            (r \<lparr> sv_title := written (sv_title s) (sv_title s') (sv_title r),
                 sv_description := written (sv_description s) (sv_description s') (sv_description r),
                 sv_price := column (written (sv_price s) (sv_price s') (sv_price r)),
                 sv_deposit := column (written (sv_deposit s) (sv_deposit s') (sv_deposit r)),
                 sv_views := written (sv_views s) (sv_views s') (sv_views r),
                 sv_deals_count := written (sv_deals_count s) (sv_deals_count s') (sv_deals_count r),
                 sv_rating_manual := written (sv_rating_manual s) (sv_rating_manual s') (sv_rating_manual r),
                 sv_status := written (sv_status s) (sv_status s') (sv_status r),
                 sv_ban_reason := written (sv_ban_reason s) (sv_ban_reason s') (sv_ban_reason r),
                 sv_photo_urls := written (sv_photo_urls s) (sv_photo_urls s') (sv_photo_urls r) \<rparr>) (t_services w0) \<rparr>))"

definition patched :: "service_update \<Rightarrow> string option \<Rightarrow> ServiceStatus option \<Rightarrow> service \<Rightarrow> service" where
  "patched b title wanted s =
     s \<lparr> sv_title := given title (sv_title s), sv_description := given (eb_description b) (sv_description s),
         sv_price := given (eb_price b) (sv_price s), sv_status := given wanted (sv_status s),
         sv_ban_reason := (if wanted = None then sv_ban_reason s else None),
         sv_photo_urls := given (eb_photo_urls b) (sv_photo_urls s) \<rparr>"

definition opt_title :: "string option \<Rightarrow> py_error + string option" where
  "opt_title v = (case v of None \<Rightarrow> Inr None | Some raw \<Rightarrow> map_sum id Some (service_title raw))"

definition wanted_status :: "string option \<Rightarrow> py_error + ServiceStatus option" where
  "wanted_status v =
     (case v of
        None \<Rightarrow> Inr None
      | Some t \<Rightarrow> case status_of_text t of
          None \<Rightarrow> Inl (HTTP 400 (E_other ''unknown_status''))
        | Some st \<Rightarrow> if st = SV_banned then Inl (HTTP 400 (E_other ''ban_is_for_admins'')) else Inr (Some st))"

definition over_quota :: "user \<Rightarrow> ServiceStatus option \<Rightarrow> service \<Rightarrow> world \<Rightarrow> bool" where
  "over_quota u wanted s w0 =
     (wanted = Some SV_active \<and> sv_status s \<noteq> SV_active \<and> \<not> u_is_admin u
      \<and> (case quota_snapshot (sv_owner_id s) w0 of (active_now, max_active) \<Rightarrow> max_active \<le> int active_now))"

definition update_service :: "(world \<Rightarrow> world) \<Rightarrow> user \<Rightarrow> int \<Rightarrow> service_update \<Rightarrow> world \<Rightarrow> service_out result" where
  "update_service others u i b0 w =
     (case service_update_validated b0 of
        None \<Rightarrow> (Inl (HTTP 422 (E_other ''validation'')), w)
      | Some b \<Rightarrow>
     (case tget sv_id i (t_services w) of
        None \<Rightarrow> (Inl (HTTP 404 (E_other ''service_not_found'')), w)
      | Some s \<Rightarrow>
        if sv_owner_id s \<noteq> u_id u \<and> \<not> u_is_admin u then (Inl (HTTP 403 E_forbidden), w)
        else if sv_status s = SV_banned \<and> \<not> u_is_admin u then (Inl (HTTP 403 (E_other ''service_banned'')), w)
        else case opt_title (eb_title b) of Inl e \<Rightarrow> (Inl e, w) | Inr title \<Rightarrow>
        case wanted_status (eb_status b) of Inl e \<Rightarrow> (Inl e, w) | Inr wanted \<Rightarrow>
          let w0 = others w; s' = patched b title wanted s in
          if over_quota u wanted s w0 then (Inl (HTTP 400 (E_other ''active_limit'')), w0)
          else case flush_service s s' w0 of
            Inl e \<Rightarrow> (Inl e, w0)
          | Inr w1 \<Rightarrow> (Inr (service_out_of w1 s'), w1)))"

definition service_meta :: "service \<Rightarrow> meta" where
  "service_meta s = [(''id'', MInt (sv_id s)), (''owner_id'', MInt (sv_owner_id s)), (''title'', MStr (sv_title s)),
     (''description'', MStr (sv_description s)), (''price'', MDec (sv_price s)), (''status'', MStr (service_status_text (sv_status s)))]"

text \<open>The comments go first, then the row; an administrator leaves a trace on somebody else's service.\<close>

definition drop_service :: "int \<Rightarrow> world \<Rightarrow> world" where
  "drop_service i w = w \<lparr> t_comments := filter (\<lambda>c. sc_service_id c \<noteq> i) (t_comments w),
     t_services := filter (\<lambda>s. sv_id s \<noteq> i) (t_services w) \<rparr>"

definition delete_service :: "user \<Rightarrow> int \<Rightarrow> world \<Rightarrow> unit result" where
  "delete_service u i w =
     (case tget sv_id i (t_services w) of
        None \<Rightarrow> (Inl (HTTP 404 (E_other ''service_not_found'')), w)
      | Some s \<Rightarrow>
        if sv_owner_id s \<noteq> u_id u \<and> \<not> u_is_admin u then (Inl (HTTP 403 E_forbidden), w)
        else (Inr (), drop_service i
               (if u_is_admin u \<and> sv_owner_id s \<noteq> u_id u
                then log_admin_action u ''service.delete'' ''service'' i None (service_meta s @ [(''via'', MStr ''user_route'')]) w
                else w)))"

section \<open>Comments\<close>

definition create_service_comment :: "int \<Rightarrow> user \<Rightarrow> int \<Rightarrow> comment_create \<Rightarrow> world \<Rightarrow> comment_out result" where
  "create_service_comment now u i b0 w =
     (case comment_create_validated b0 of
        None \<Rightarrow> (Inl (HTTP 422 (E_other ''validation'')), w)
      | Some b \<Rightarrow>
     (case visible_service u i w of
        Inl e \<Rightarrow> (Inl e, w)
      | Inr s \<Rightarrow>
        if sv_owner_id s = u_id u then (Inl (HTTP 400 (E_other ''own_service'')), w)
        else let body = strip (kb_text b) in
        if body = [] \<and> kb_rating b = None then (Inl (HTTP 400 (E_other ''empty_comment'')), w)
        else let c = \<lparr> sc_id = seq_comments w, sc_service_id = sv_id s, sc_author_id = u_id u, sc_text = body,
                       sc_rating = kb_rating b, sc_created_at = now \<rparr>;
                 w1 = w \<lparr> t_comments := t_comments w @ [c], seq_comments := seq_comments w + 1 \<rparr>
             in (Inr (comment_out_of w1 c), w1)))"

definition drop_comment :: "int \<Rightarrow> world \<Rightarrow> world" where
  "drop_comment i w = w \<lparr> t_comments := filter (\<lambda>c. sc_id c \<noteq> i) (t_comments w) \<rparr>"

definition delete_service_comment :: "user \<Rightarrow> int \<Rightarrow> int \<Rightarrow> world \<Rightarrow> unit result" where
  "delete_service_comment u i comment_id w =
     (case tget sc_id comment_id (t_comments w) of
        None \<Rightarrow> (Inl (HTTP 404 (E_other ''comment_not_found'')), w)
      | Some c \<Rightarrow>
        if sc_service_id c \<noteq> i then (Inl (HTTP 404 (E_other ''comment_not_found'')), w)
        else case tget sv_id i (t_services w) of
          None \<Rightarrow> (Inl (HTTP 404 (E_other ''service_not_found'')), w)
        | Some s \<Rightarrow>
          if sc_author_id c = u_id u \<or> sv_owner_id s = u_id u \<or> u_is_admin u then (Inr (), drop_comment comment_id w)
          else (Inl (HTTP 403 E_forbidden), w))"

section \<open>Moderation\<close>

record moderation =
  mo_action :: string
  mo_reason :: string

definition admin_list_services :: "service_index \<Rightarrow> ServiceStatus option \<Rightarrow> string option \<Rightarrow> nat \<Rightarrow> nat \<Rightarrow> world \<Rightarrow> service_out list" where
  "admin_list_services si st q offset limit w =
     (let q_trimmed = strip (given q []); hits = filter (\<lambda>s. st = None \<or> st = Some (sv_status s)) (t_services w) in
      case (if q_trimmed = [] then Returns None else build_prefix_tsquery q_trimmed) of
        AssertionError \<Rightarrow> []
      | Returns ts_q \<Rightarrow>
        if q_trimmed \<noteq> [] \<and> ts_q = None then []
        else map (service_out_of w) (take limit (drop offset (case ts_q of
          None \<Rightarrow> newest_services hits
        | Some ts \<Rightarrow> sort_key (\<lambda>s. - si_rank si ts s) (newest_services (filter (si_match si ts) hits))))))"

definition moderated :: "moderation \<Rightarrow> service \<Rightarrow> service option" where
  "moderated b s =
     (if mo_action b = ''ban''
      then Some (s \<lparr> sv_status := SV_banned, sv_ban_reason := Some (if mo_reason b = [] then ''rules violated'' else mo_reason b) \<rparr>)
      else if mo_action b = ''unban'' then Some (s \<lparr> sv_status := SV_active, sv_ban_reason := None \<rparr>)
      else None)"

definition save_service :: "service \<Rightarrow> world \<Rightarrow> world" where
  "save_service s w = w \<lparr> t_services := tput sv_id s (t_services w) \<rparr>"

definition admin_moderate :: "user \<Rightarrow> int \<Rightarrow> moderation \<Rightarrow> world \<Rightarrow> service_out result" where
  "admin_moderate admin i b w =
     (case tget sv_id i (t_services w) of
        None \<Rightarrow> (Inl (HTTP 404 (E_other ''service_not_found'')), w)
      | Some s \<Rightarrow>
     (case moderated b s of
        None \<Rightarrow> (Inl (HTTP 400 (E_other ''unknown_action'')), w)
      | Some s' \<Rightarrow>
          let w1 = log_admin_action admin (''service.'' @ mo_action b) ''service'' i (Some (mo_reason b))
                [(''service_id'', MInt i), (''owner_id'', MInt (sv_owner_id s)), (''title'', MStr (sv_title s)),
                 (''old_status'', MStr (service_status_text (sv_status s))), (''new_status'', MStr (service_status_text (sv_status s')))]
                (save_service s' w)
          in (Inr (service_out_of w1 s'), w1)))"


section \<open>The administrators' edits\<close>

record service_edit =
  ae_title :: "string option"
  ae_description :: "string option"
  ae_price :: "decimal option"
  ae_deposit :: "decimal option"
  ae_views :: "int option"
  ae_deals_count :: "int option"
  ae_rating_manual :: "decimal option"
  ae_clear_rating :: bool
  ae_status :: "ServiceStatus option"
  ae_ban_reason :: "string option"

definition edit_title_ok :: "string \<Rightarrow> string option" where
  "edit_title_ok v = trimmed_upto 256 True id v"

text \<open>\<open>quantize(Decimal("0.1"))\<close> of a rating between 0 and 5; the description is not trimmed.\<close>

definition edit_rating_ok :: "decimal \<Rightarrow> decimal option" where
  "edit_rating_ok d = (if d < 0 \<or> 5 < d then None else Some (quantize_money d 1))"

definition service_edit_validated :: "service_edit \<Rightarrow> service_edit option" where
  "service_edit_validated b =
     (if (case ae_description b of None \<Rightarrow> False | Some d \<Rightarrow> 4000 < length d) \<or> \<not> non_negative (ae_price b) \<or> \<not> non_negative (ae_deposit b)
         \<or> \<not> non_negative (ae_views b) \<or> \<not> non_negative (ae_deals_count b) then None
      else case (opt_ok edit_title_ok (ae_title b), opt_ok edit_rating_ok (ae_rating_manual b)) of
        (Some t, Some r) \<Rightarrow> Some (b \<lparr> ae_title := t, ae_rating_manual := r \<rparr>)
      | _ \<Rightarrow> None)"

definition edited_service :: "service_edit \<Rightarrow> service \<Rightarrow> service" where
  "edited_service b s =
     s \<lparr> sv_title := given (ae_title b) (sv_title s), sv_description := given (ae_description b) (sv_description s),
         sv_price := given (ae_price b) (sv_price s), sv_deposit := given (ae_deposit b) (sv_deposit s),
         sv_views := given (ae_views b) (sv_views s), sv_deals_count := given (ae_deals_count b) (sv_deals_count s),
         sv_rating_manual := (if ae_clear_rating b then None
            else case ae_rating_manual b of None \<Rightarrow> sv_rating_manual s | Some r \<Rightarrow> Some r),
         sv_status := given (ae_status b) (sv_status s),
         sv_ban_reason := (case ae_ban_reason b of None \<Rightarrow> sv_ban_reason s | Some r \<Rightarrow> Some r) \<rparr>"

definition changed_value :: "string \<Rightarrow> 'a \<Rightarrow> 'a \<Rightarrow> meta_value \<Rightarrow> meta" where
  "changed_value key old new shown = (if new = old then [] else [(key, shown)])"

text \<open>One side of the payload: the fields in which two rows differ, as the first shows them.\<close>

definition service_side :: "service \<Rightarrow> service \<Rightarrow> meta" where
  "service_side s t =
     changed_value ''title'' (sv_title s) (sv_title t) (MStr (sv_title s))
     @ changed_value ''description'' (sv_description s) (sv_description t) (MStr (sv_description s))
     @ changed_value ''price'' (sv_price s) (sv_price t) (MDec (sv_price s))
     @ changed_value ''deposit'' (sv_deposit s) (sv_deposit t) (MDec (sv_deposit s))
     @ changed_value ''views'' (sv_views s) (sv_views t) (MInt (sv_views s))
     @ changed_value ''deals_count'' (sv_deals_count s) (sv_deals_count t) (MInt (sv_deals_count s))
     @ changed_value ''rating_manual'' (sv_rating_manual s) (sv_rating_manual t) (opt_dec (sv_rating_manual s))
     @ changed_value ''status'' (sv_status s) (sv_status t) (MStr (service_status_text (sv_status s)))
     @ changed_value ''ban_reason'' (sv_ban_reason s) (sv_ban_reason t) (case sv_ban_reason s of None \<Rightarrow> MNull | Some r \<Rightarrow> MStr r)"

definition admin_update_service :: "user \<Rightarrow> int \<Rightarrow> service_edit \<Rightarrow> world \<Rightarrow> service result" where
  "admin_update_service admin i b0 w =
     (case service_edit_validated b0 of
        None \<Rightarrow> (Inl (HTTP 422 (E_other ''validation'')), w)
      | Some b \<Rightarrow>
     (case tget sv_id i (t_services w) of
        None \<Rightarrow> (Inl (HTTP 404 (E_other ''service_not_found'')), w)
      | Some s \<Rightarrow>
        let s' = edited_service b s in
        if s' = s then (Inr s, w)
        else case flush_service s s' w of
          Inl e \<Rightarrow> (Inl e, w)
        | Inr w1 \<Rightarrow> (Inr s', log_admin_action admin ''service.edit'' ''service'' i None
            [(''before'', MObj (service_side s s')), (''after'', MObj (service_side s' s)), (''owner_id'', MInt (sv_owner_id s))] w1)))"

definition admin_delete_service :: "user \<Rightarrow> int \<Rightarrow> world \<Rightarrow> int result" where
  "admin_delete_service admin i w =
     (case tget sv_id i (t_services w) of
        None \<Rightarrow> (Inl (HTTP 404 (E_other ''service_not_found'')), w)
      | Some s \<Rightarrow> (Inr i, drop_service i (log_admin_action admin ''service.delete'' ''service'' i None (service_meta s) w)))"

record comment_edit =
  ke_text :: "string option"
  ke_rating :: "int option"
  ke_clear_rating :: bool

definition comment_edit_validated :: "comment_edit \<Rightarrow> comment_edit option" where
  "comment_edit_validated b =
     (if \<not> rating_range_ok (ke_rating b) then None
      else map_option (\<lambda>t. b \<lparr> ke_text := t \<rparr>) (opt_ok (trimmed_upto 1024 True id) (ke_text b)))"

definition edited_comment :: "comment_edit \<Rightarrow> service_comment \<Rightarrow> service_comment" where
  "edited_comment b c =
     c \<lparr> sc_text := given (ke_text b) (sc_text c),
         sc_rating := (if ke_clear_rating b then None else case ke_rating b of None \<Rightarrow> sc_rating c | Some r \<Rightarrow> Some r) \<rparr>"

definition comment_side :: "service_comment \<Rightarrow> service_comment \<Rightarrow> meta" where
  "comment_side c d = changed_value ''text'' (sc_text c) (sc_text d) (MStr (sc_text c))
     @ changed_value ''rating'' (sc_rating c) (sc_rating d) (opt_int (sc_rating c))"

definition admin_update_comment :: "user \<Rightarrow> int \<Rightarrow> comment_edit \<Rightarrow> world \<Rightarrow> service_comment result" where
  "admin_update_comment admin i b0 w =
     (case comment_edit_validated b0 of
        None \<Rightarrow> (Inl (HTTP 422 (E_other ''validation'')), w)
      | Some b \<Rightarrow>
     (case tget sc_id i (t_comments w) of
        None \<Rightarrow> (Inl (HTTP 404 (E_other ''comment_not_found'')), w)
      | Some c \<Rightarrow>
        let c' = edited_comment b c in
        if c' = c then (Inr c, w)
        else (Inr c', log_admin_action admin ''comment.edit'' ''comment'' i None
               [(''before'', MObj (comment_side c c')), (''after'', MObj (comment_side c' c)), (''service_id'', MInt (sc_service_id c))]
               (w \<lparr> t_comments := tput sc_id c' (t_comments w) \<rparr>))))"

definition admin_delete_comment :: "user \<Rightarrow> int \<Rightarrow> world \<Rightarrow> service_comment result" where
  "admin_delete_comment admin i w =
     (case tget sc_id i (t_comments w) of
        None \<Rightarrow> (Inl (HTTP 404 (E_other ''comment_not_found'')), w)
      | Some c \<Rightarrow>
        (Inr c, drop_comment i (log_admin_action admin ''comment.delete'' ''comment'' i None
           [(''id'', MInt (sc_id c)), (''service_id'', MInt (sc_service_id c)), (''author_id'', MInt (sc_author_id c)),
            (''text'', MStr (sc_text c)), (''rating'', opt_int (sc_rating c))] w)))"

definition list_user_services :: "int \<Rightarrow> world \<Rightarrow> py_error + service list" where
  "list_user_services i w =
     (case get_user i w of
        None \<Rightarrow> Inl (HTTP 404 E_user_not_found)
      | Some _ \<Rightarrow> Inr (sort_key (\<lambda>s. - sv_created_at s) (filter (\<lambda>s. sv_owner_id s = i) (t_services w))))"

definition list_user_comments :: "int \<Rightarrow> world \<Rightarrow> py_error + service_comment list" where
  "list_user_comments i w =
     (case get_user i w of
        None \<Rightarrow> Inl (HTTP 404 E_user_not_found)
      | Some _ \<Rightarrow> Inr (sort_key (\<lambda>c. - sc_created_at c) (filter (\<lambda>c. sc_author_id c = i) (t_comments w))))"

definition admin_list_service_comments :: "int \<Rightarrow> world \<Rightarrow> py_error + service_comment list" where
  "admin_list_service_comments i w =
     (case tget sv_id i (t_services w) of
        None \<Rightarrow> Inl (HTTP 404 (E_other ''service_not_found''))
      | Some _ \<Rightarrow> Inr (sort_key (\<lambda>c. - sc_created_at c) (filter (\<lambda>c. sc_service_id c = i) (t_comments w))))"

section \<open>What the catalogue shows\<close>

lemma set_newest_services [simp]: "set (newest_services ss) = set ss"
  by (simp add: newest_services_def)

text \<open>
  C36. Who is not an administrator sees of other users only active services of owners with a visible profile: in
  the catalogue, and behind the link of one service, its comments and the form for a comment. A viewer may
  have no username; one that a viewer has is nobody else's.
\<close>

theorem others_see_active_services_only:
  assumes "\<not> u_is_admin u" and "\<forall>x \<in> set (t_users w). u_username u \<noteq> None \<and> u_username x = u_username u \<longrightarrow> u_id x = u_id u"
    and "\<forall>s \<in> set (t_services w). get_user (sv_owner_id s) w \<noteq> None"
  shows "(\<forall>sq n xs x. list_services si u sq w = Inr (n, xs) \<and> x \<in> set xs \<longrightarrow>
      (\<exists>s \<in> set (t_services w). x = service_out_of w s \<and> (sv_owner_id s = u_id u \<or> sv_status s = SV_active \<and> \<not> owner_hidden w s)))
    \<and> (\<forall>i s. visible_service u i w = Inr s \<longrightarrow> sv_owner_id s = u_id u \<or> sv_status s = SV_active \<and> \<not> owner_hidden w s)"
proof (intro conjI allI impI)
  fix sq n xs x assume run: "list_services si u sq w = Inr (n, xs) \<and> x \<in> set xs"
  then obtain s where s: "s \<in> set (t_services w)" "catalogue_filter u sq w s" "x = service_out_of w s" and ok: "catalogue_status_ok u sq"
    by (auto simp: list_services_def Let_def split: if_splits asserted.splits option.splits dest!: in_set_takeD in_set_dropD)
  have "sv_owner_id s = u_id u \<or> sv_status s = SV_active \<and> \<not> owner_hidden w s"
  proof (cases "own_catalogue u sq")
    case True
    then have "username_of (sv_owner_id s) w = u_username u" "u_username u \<noteq> None"
      using s(2) by (auto simp: own_catalogue_def catalogue_filter_def falsy_def given_def split: option.splits)
    moreover obtain x where "get_user (sv_owner_id s) w = Some x" using assms(3) s(1) by blast
    ultimately show ?thesis using assms(2) by (auto simp: username_of_def get_user_def dest!: tget_Some)
  next
    case False
    then show ?thesis using s(2) ok assms(1) by (auto simp: catalogue_filter_def catalogue_status_ok_def split: option.splits)
  qed
  then show "\<exists>s \<in> set (t_services w). x = service_out_of w s \<and> (sv_owner_id s = u_id u \<or> sv_status s = SV_active \<and> \<not> owner_hidden w s)"
    using s by blast
next
  fix i s assume "visible_service u i w = Inr s"
  then show "sv_owner_id s = u_id u \<or> sv_status s = SV_active \<and> \<not> owner_hidden w s"
    using assms(1) by (auto simp: visible_service_def split: option.splits if_splits)
qed


section \<open>The quota holds\<close>

definition quota_limit :: "world \<Rightarrow> nat" where
  "quota_limit w = nat (snd (quota_snapshot 0 w))"

definition services_ok :: "world \<Rightarrow> bool" where
  "services_ok w \<longleftrightarrow> tkeys sv_id (t_services w) \<and> (\<forall>s \<in> set (t_services w). sv_id s < seq_services w)"

text \<open>What every request of a user promises: rows keep their owner, and nobody gets above the limit.\<close>

definition quota_kept :: "world \<Rightarrow> world \<Rightarrow> bool" where
  "quota_kept w w' \<longleftrightarrow> services_ok w' \<and> seq_services w \<le> seq_services w' \<and> t_app_settings w' = t_app_settings w
     \<and> (\<forall>r \<in> set (t_services w'). sv_id r < seq_services w \<longrightarrow> (\<exists>s \<in> set (t_services w). sv_id s = sv_id r \<and> sv_owner_id s = sv_owner_id r))
     \<and> (\<forall>u. active_count u w' \<le> max (active_count u w) (quota_limit w))"

inductive owner_step :: "world \<Rightarrow> world \<Rightarrow> bool" where
  created: "owner_step\<^sup>*\<^sup>* w (others w) \<Longrightarrow> owner_step w (snd (create_service now others u b w))"
| updated: "owner_step\<^sup>*\<^sup>* w (others w) \<Longrightarrow> \<not> u_is_admin u \<Longrightarrow> owner_step w (snd (update_service others u i c w))"
| deleted: "owner_step w (snd (delete_service u i w))"
| commented: "owner_step w (snd (create_service_comment now u i k w))"
| comment_deleted: "owner_step w (snd (delete_service_comment u i j w))"

lemma quota_kept_refl: "services_ok w \<Longrightarrow> quota_kept w w"
  by (auto simp: quota_kept_def)

lemma quota_kept_ok: "quota_kept w w' \<Longrightarrow> services_ok w'"
  by (simp add: quota_kept_def)

lemma quota_kept_trans: "quota_kept w1 w2 \<Longrightarrow> quota_kept w2 w3 \<Longrightarrow> quota_kept w1 w3"
proof -
  assume a: "quota_kept w1 w2" and b: "quota_kept w2 w3"
  have lim: "quota_limit w2 = quota_limit w1" using a by (simp add: quota_kept_def quota_limit_def quota_snapshot_def)
  have "active_count u w3 \<le> max (active_count u w1) (quota_limit w1)" for u
    using a b unfolding quota_kept_def lim by (meson max.bounded_iff max.cobounded2 order_trans)
  moreover have "\<exists>s \<in> set (t_services w1). sv_id s = sv_id r \<and> sv_owner_id s = sv_owner_id r"
    if r: "r \<in> set (t_services w3)" "sv_id r < seq_services w1" for r
  proof -
    have "sv_id r < seq_services w2" using a r(2) by (simp add: quota_kept_def)
    then obtain s where "s \<in> set (t_services w2)" "sv_id s = sv_id r" "sv_owner_id s = sv_owner_id r"
      using b r(1) unfolding quota_kept_def by blast
    moreover from this r(2) have "sv_id s < seq_services w1" by simp
    ultimately obtain y where "y \<in> set (t_services w1)" "sv_id y = sv_id s" "sv_owner_id y = sv_owner_id s"
      using a unfolding quota_kept_def by blast
    then show ?thesis using \<open>sv_id s = sv_id r\<close> \<open>sv_owner_id s = sv_owner_id r\<close> by auto
  qed
  ultimately show ?thesis using a b by (auto simp: quota_kept_def)
qed

lemma quota_kept_same:
  assumes "services_ok w" and "t_services w' = filter p (t_services w)" and "seq_services w' = seq_services w" and "t_app_settings w' = t_app_settings w"
  shows "quota_kept w w'"
proof -
  have "length (filter q (filter p xs)) \<le> length (filter q xs)" for q and xs :: "service list" by (induction xs) auto
  then have "active_count u w' \<le> active_count u w" for u by (simp only: active_count_def assms(2))
  then show ?thesis using assms by (auto simp: quota_kept_def services_ok_def tkeys_filtered le_max_iff_disj)
qed

lemma quota_snapshot_limit: "quota_snapshot u w = (active_count u w, snd (quota_snapshot 0 w))"
  by (simp add: quota_snapshot_def)

lemma create_service_kept:
  assumes "services_ok (others w)"
  shows "snd (create_service now others u b w) = w \<or> quota_kept (others w) (snd (create_service now others u b w))"
proof -
  let ?w = "others w"
  have new: "quota_kept ?w (?w \<lparr> t_services := t_services ?w @ [r], seq_services := seq_services ?w + 1 \<rparr>)"
    if "sv_owner_id r = u_id u" "sv_id r = seq_services ?w" "\<not> snd (quota_snapshot 0 ?w) \<le> int (active_count (u_id u) ?w)" for r
  proof -
    have "active_count (u_id u) ?w + 1 \<le> quota_limit ?w" using that(3) by (simp add: quota_limit_def)
    then have "active_count v (?w \<lparr> t_services := t_services ?w @ [r], seq_services := seq_services ?w + 1 \<rparr>) \<le> max (active_count v ?w) (quota_limit ?w)" for v
      using that(1) by (auto simp: active_count_def le_max_iff_disj)
    then show ?thesis using assms that(2) by (auto simp: quota_kept_def services_ok_def)
  qed
  show ?thesis
    using quota_kept_refl [OF assms] new
    by (auto simp: create_service_def quota_snapshot_limit [of "u_id u"] Let_def split: option.splits sum.splits)
qed

lemma active_count_put:
  assumes "tkeys sv_id rows" and "tget sv_id (sv_id r) rows = Some r0"
  shows "length (filter p (tput sv_id r rows)) + (if p r0 then 1 else 0) = length (filter p rows) + (if p r then 1 else 0)"
  using assms
proof (induction rows)
  case (Cons x rows)
  show ?case
  proof (cases "sv_id x = sv_id r")
    case True
    with Cons.prems have "r0 = x" and "tget sv_id (sv_id r) rows = None" by (auto simp: tkeys_def tget_None_iff)
    with True show ?thesis by (simp add: tput_absent)
  next
    case False
    with Cons show ?thesis by (simp add: tkeys_def)
  qed
qed simp

lemma flush_service_kept:
  assumes "services_ok w0" and "flush_service s s' w0 = Inr w1"
    and "\<And>r. tget sv_id (sv_id s) (t_services w0) = Some r \<Longrightarrow> sv_owner_id r = sv_owner_id s"
    and "sv_status s' = SV_active \<and> sv_status s \<noteq> SV_active \<Longrightarrow> int (active_count (sv_owner_id s) w0) < snd (quota_snapshot 0 w0)"
  shows "quota_kept w0 w1"
proof (cases "s' = s")
  case True
  then show ?thesis using assms quota_kept_refl by (simp add: flush_service_def)
next
  case False
  then obtain r r' where r: "tget sv_id (sv_id s) (t_services w0) = Some r" "w1 = w0 \<lparr> t_services := tput sv_id r' (t_services w0) \<rparr>"
    "sv_id r' = sv_id r" "sv_owner_id r' = sv_owner_id r" "sv_status r' = written (sv_status s) (sv_status s') (sv_status r)"
    using assms(2) by (auto simp: flush_service_def split: if_splits option.splits)
  have id: "sv_id r = sv_id s" using tget_Some [OF r(1)] by simp
  have keys: "tkeys sv_id (t_services w0)" using assms(1) by (simp add: services_ok_def)
  have get: "tget sv_id (sv_id r') (t_services w0) = Some r" using r(1,3) id by simp
  have "active_count u w1 \<le> max (active_count u w0) (quota_limit w0)" for u
  proof -
    let ?p = "\<lambda>x. sv_owner_id x = u \<and> sv_status x = SV_active"
    have c: "active_count u w1 + (if ?p r then 1 else 0) = active_count u w0 + (if ?p r' then 1 else 0)"
      using active_count_put [OF keys get, of ?p] by (simp add: active_count_def r(2))
    show ?thesis
    proof (cases "?p r' \<and> \<not> ?p r")
      case True
      then have st: "sv_status s' = SV_active" "sv_status s \<noteq> SV_active" "u = sv_owner_id s"
        using r(4,5) assms(3) [OF r(1)] by (auto simp: written_def split: if_splits)
      then have "active_count u w0 + 1 \<le> quota_limit w0" using assms(4) by (simp add: quota_limit_def)
      then show ?thesis using c True by simp
    qed (use c in \<open>auto split: if_splits\<close>)
  qed
  moreover have "services_ok w1" using assms(1) r tget_Some [OF r(1)] unfolding services_ok_def by (auto dest!: set_tput_cases)
  moreover have "\<exists>y \<in> set (t_services w0). sv_id y = sv_id x \<and> sv_owner_id y = sv_owner_id x" if "x \<in> set (t_services w1)" for x
    using that r tget_Some [OF r(1)] by (auto dest!: set_tput_cases)
  ultimately show ?thesis using r(2) by (auto simp: quota_kept_def)
qed

lemma update_service_kept:
  assumes "\<not> u_is_admin u" and "services_ok w" and "quota_kept w (others w)"
  shows "snd (update_service others u i b w) = w \<or> quota_kept (others w) (snd (update_service others u i b w))"
proof -
  let ?w = "others w"
  have ok: "services_ok ?w" using assms(3) by (simp add: quota_kept_def)
  have flushed: "quota_kept ?w w1"
    if "tget sv_id i (t_services w) = Some s" "flush_service s (patched b' title wanted s) ?w = Inr w1" "\<not> over_quota u wanted s ?w" for s b' title wanted w1
  proof (rule flush_service_kept [OF ok that(2)])
    fix r assume r: "tget sv_id (sv_id s) (t_services ?w) = Some r"
    have s: "s \<in> set (t_services w)" "sv_id s = i" using tget_Some [OF that(1)] by auto
    have ri: "r \<in> set (t_services ?w)" "sv_id r = sv_id s" using tget_Some [OF r] by auto
    then have "sv_id r < seq_services w" using assms(2) s by (auto simp: services_ok_def)
    then obtain y where y: "y \<in> set (t_services w)" "sv_id y = sv_id r" "sv_owner_id y = sv_owner_id r"
      using assms(3) ri(1) unfolding quota_kept_def by blast
    have "tget sv_id (sv_id y) (t_services w) = Some y" using assms(2) y(1) by (auto simp: services_ok_def intro: tget_in_set)
    then show "sv_owner_id r = sv_owner_id s" using y ri(2) s(2) that(1) by simp
  next
    assume "sv_status (patched b' title wanted s) = SV_active \<and> sv_status s \<noteq> SV_active"
    then have "wanted = Some SV_active" "sv_status s \<noteq> SV_active" by (auto simp: patched_def given_def split: option.splits)
    then show "int (active_count (sv_owner_id s) ?w) < snd (quota_snapshot 0 ?w)"
      using that(3) assms(1) by (simp add: over_quota_def quota_snapshot_limit [of "sv_owner_id s"])
  qed
  show ?thesis
    using quota_kept_refl [OF ok] flushed
    by (auto simp: update_service_def Let_def split: option.splits sum.splits)
qed

lemma drop_service_kept: "services_ok w \<Longrightarrow> quota_kept w (drop_service i w)"
  by (rule quota_kept_same [of _ _ "\<lambda>s. sv_id s \<noteq> i"]) (simp_all add: drop_service_def)

lemma same_services_kept:
  "services_ok w \<Longrightarrow> t_services w' = t_services w \<Longrightarrow> seq_services w' = seq_services w \<Longrightarrow> t_app_settings w' = t_app_settings w \<Longrightarrow> quota_kept w w'"
  by (rule quota_kept_same [of _ _ "\<lambda>_. True"]) simp_all

lemma delete_service_kept: "services_ok w \<Longrightarrow> quota_kept w (snd (delete_service u i w))"
proof -
  assume ok: "services_ok w"
  have "services_ok (log_admin_action a x y j r m w)" for a x y j r m using ok by (simp add: services_ok_def log_admin_action_def)
  then have "quota_kept w (drop_service i (log_admin_action a x y j r m w))" for a x y j r m
    using drop_service_kept same_services_kept [OF ok, of "log_admin_action a x y j r m w"] quota_kept_trans
    by (simp add: log_admin_action_def)
  then show ?thesis using ok drop_service_kept quota_kept_refl by (simp add: delete_service_def split: option.split)
qed

lemma comments_kept:
  "services_ok w \<Longrightarrow> quota_kept w (snd (create_service_comment now u i k w))"
  "services_ok w \<Longrightarrow> quota_kept w (snd (delete_service_comment u i j w))"
  by (rule same_services_kept; auto simp: create_service_comment_def delete_service_comment_def drop_comment_def Let_def split: option.split sum.split)+

lemma steps_kept:
  "(\<lambda>x y. owner_step x y \<and> (services_ok x \<longrightarrow> quota_kept x y))\<^sup>*\<^sup>* w w' \<Longrightarrow> services_ok w \<Longrightarrow> quota_kept w w'"
  by (induction rule: rtranclp_induct) (auto intro: quota_kept_refl quota_kept_trans dest: quota_kept_ok)

lemma owner_step_kept: "owner_step w w' \<Longrightarrow> services_ok w \<Longrightarrow> quota_kept w w'"
proof (induction rule: owner_step.induct)
  case (created w others now u b)
  have k: "quota_kept w (others w)" by (rule steps_kept [OF created.IH created.prems])
  then have "services_ok (others w)" by (simp add: quota_kept_def)
  then show ?case using create_service_kept quota_kept_refl [OF created.prems] quota_kept_trans [OF k] by metis
next
  case (updated w others u i c)
  have k: "quota_kept w (others w)" by (rule steps_kept [OF updated.IH(1) updated.prems])
  then show ?case
    using update_service_kept [where others = others and w = w, OF updated.hyps updated.prems k] quota_kept_refl [OF updated.prems] quota_kept_trans [OF k] by metis
qed (simp_all add: delete_service_kept comments_kept)

text \<open>
  C35. However users create, edit, pause, activate and delete services and comment on them, also at the same
  time: nobody's active services exceed the limit of the settings, or what the user had above it at the start.
\<close>

theorem active_services_stay_within_quota:
  assumes "owner_step\<^sup>*\<^sup>* w0 w" and "services_ok w0"
  shows "active_count u w \<le> max (active_count u w0) (quota_limit w0)"
proof -
  have "quota_kept w0 w" using assms
    by (induction rule: rtranclp_induct) (auto intro: quota_kept_refl quota_kept_trans owner_step_kept dest: quota_kept_ok)
  then show ?thesis by (simp add: quota_kept_def)
qed


section \<open>Bans and moderation\<close>

definition status_only :: "string \<Rightarrow> service_update" where
  "status_only st = \<lparr> eb_title = None, eb_description = None, eb_price = None, eb_status = Some st, eb_photo_urls = None \<rparr>"

lemma status_only_validated [simp]: "service_update_validated (status_only st) = Some (status_only st)"
  by (simp add: service_update_validated_def status_only_def non_negative_def opt_ok_def)

text \<open>
  C37. A ban keeps the owner from activating the service, unless the owner's request was already waiting for its
  lock when the ban was committed: the status was checked on the row as it was read before, so the request
  then puts the banned service back into the catalogue.
\<close>

theorem ban_is_lost_to_a_waiting_owner:
  fixes u :: user
  assumes "tkeys sv_id (t_services w)" and "tget sv_id i (t_services w) = Some s" and "sv_status s = SV_paused" and "sv_ban_reason s = None"
    and "sv_owner_id s = u_id u" and "\<not> u_is_admin u" and "service_fits s" and "int (active_count (u_id u) w) < snd (quota_snapshot 0 w)"
  shows "let ban = (\<lambda>w. snd (admin_moderate admin i \<lparr> mo_action = ''ban'', mo_reason = reason \<rparr> w)) in
    fst (update_service id u i (status_only ''active'') (ban w)) = Inl (HTTP 403 (E_other ''service_banned''))
    \<and> (\<exists>out w' r. update_service ban u i (status_only ''active'') w = (Inr out, w') \<and> tget sv_id i (t_services w') = Some r
        \<and> sv_status r = SV_active \<and> visible_service u i w' = Inr r)"
proof -
  let ?ban = "\<lambda>w. snd (admin_moderate admin i \<lparr> mo_action = ''ban'', mo_reason = reason \<rparr> w)"
  define w0 where "w0 = ?ban w"
  obtain b where b: "b = s \<lparr> sv_status := SV_banned, sv_ban_reason := Some (if reason = [] then ''rules violated'' else reason) \<rparr>" by blast
  have id: "sv_id s = i" using tget_Some [OF assms(2)] by simp
  have w0: "t_services w0 = tput sv_id b (t_services w)" "t_app_settings w0 = t_app_settings w" "t_users w0 = t_users w"
    using assms(2) b by (simp_all add: w0_def admin_moderate_def moderated_def Let_def log_admin_action_def save_service_def)
  have bid: "sv_id b = i" "sv_owner_id b = u_id u" using b id assms(5) by simp_all
  have get: "tget sv_id i (t_services w0) = Some b"
    unfolding w0 using tget_tput_same [of sv_id b "t_services w" s] bid assms(2) by simp
  have refused: "fst (update_service id u i (status_only ''active'') w0) = Inl (HTTP 403 (E_other ''service_banned''))"
    using get bid assms(6) b by (simp add: update_service_def)
  have "active_count (u_id u) w0 = active_count (u_id u) w"
    using active_count_put [OF assms(1), of b s "\<lambda>x. sv_owner_id x = u_id u \<and> sv_status x = SV_active"] assms(2,3) bid b
    by (simp add: active_count_def w0)
  then have quota: "int (active_count (u_id u) w0) < snd (quota_snapshot 0 w0)" using assms(8) by (simp add: quota_snapshot_def w0)
  let ?s = "s \<lparr> sv_status := SV_active \<rparr>" and ?r = "b \<lparr> sv_price := column (sv_price b), sv_deposit := column (sv_deposit b), sv_status := SV_active \<rparr>"
  have patch: "patched (status_only ''active'') None (Some SV_active) s = ?s"
    using assms(4) by (simp add: patched_def status_only_def)
  have fits: "service_fits ?s" using assms(7) by (simp add: service_fits_def)
  have ne: "?s \<noteq> s" using assms(3) by (metis ServiceStatus.distinct(7) service.select_convs(7) service.surjective service.update_convs(7))
  have "flush_service s ?s w0 = Inr (w0 \<lparr> t_services := tput sv_id ?r (t_services w0) \<rparr>)"
    using ne fits get id assms(3) by (simp add: flush_service_def written_def)
  moreover have "\<not> over_quota u (Some SV_active) s w0" using quota assms(5) by (simp add: over_quota_def quota_snapshot_limit [of "u_id u"])
  moreover have "opt_title (eb_title (status_only ''active'')) = Inr None" "wanted_status (eb_status (status_only ''active'')) = Inr (Some SV_active)"
    by (simp_all add: opt_title_def wanted_status_def status_only_def status_of_text_def)
  ultimately obtain out where run: "update_service ?ban u i (status_only ''active'') w = (Inr out, w0 \<lparr> t_services := tput sv_id ?r (t_services w0) \<rparr>)"
    using assms(2,3,5) patch by (simp add: update_service_def w0_def [symmetric])
  have "sv_id ?r = i" using bid by simp
  then have new: "tget sv_id i (t_services (w0 \<lparr> t_services := tput sv_id ?r (t_services w0) \<rparr>)) = Some ?r"
    using tget_tput_same [of sv_id ?r "t_services w0" b] get by simp
  then have "visible_service u i (w0 \<lparr> t_services := tput sv_id ?r (t_services w0) \<rparr>) = Inr ?r"
    using bid by (simp add: visible_service_def)
  then show ?thesis using refused run new unfolding Let_def w0_def by (intro conjI exI) (simp, assumption, simp_all)
qed

text \<open>Unbanning does not ask whether the service is banned: it publishes a draft.\<close>

lemma unban_publishes_drafts:
  assumes "tget sv_id i (t_services w) = Some s" and "sv_status s = SV_draft"
  shows "\<exists>out w'. admin_moderate admin i \<lparr> mo_action = ''unban'', mo_reason = r \<rparr> w = (Inr out, w') \<and> xo_status out = ''active''"
  using assms by (simp add: admin_moderate_def moderated_def Let_def service_out_of_def service_status_text_def)

definition leaves_trace :: "user \<Rightarrow> int \<Rightarrow> world \<Rightarrow> world \<Rightarrow> bool" where
  "leaves_trace admin i w w' \<longleftrightarrow> same_books w' w
     \<and> (\<exists>row. t_audit w' = t_audit w @ [row] \<and> al_actor_id row = Some (u_id admin) \<and> al_target_id row = Some i)"

lemma log_leaves_trace: "same_books w1 w \<Longrightarrow> t_audit w1 = t_audit w \<Longrightarrow> leaves_trace admin i w (log_admin_action admin a x i r m w1)"
  by (simp add: leaves_trace_def log_admin_action_def same_books_def)

lemma flush_service_frame:
  "flush_service s s' w = Inr w1 \<Longrightarrow> same_books w1 w \<and> t_audit w1 = t_audit w"
  by (auto simp: flush_service_def same_books_def split: if_splits option.splits)

lemma moderate_trace: "snd (admin_moderate admin i m w) = w \<or> leaves_trace admin i w (snd (admin_moderate admin i m w))"
  by (simp add: admin_moderate_def Let_def log_leaves_trace same_books_def save_service_def split: option.split)

lemma update_service_trace: "snd (admin_update_service admin i e w) = w \<or> leaves_trace admin i w (snd (admin_update_service admin i e w))"
  by (auto simp: admin_update_service_def Let_def intro!: log_leaves_trace split: option.split sum.split dest!: flush_service_frame)

lemma delete_service_trace: "snd (admin_delete_service admin i w) = w \<or> leaves_trace admin i w (snd (admin_delete_service admin i w))"
  by (simp add: admin_delete_service_def drop_service_def leaves_trace_def log_admin_action_def same_books_def split: option.split)

lemma update_comment_trace: "snd (admin_update_comment admin i k w) = w \<or> leaves_trace admin i w (snd (admin_update_comment admin i k w))"
  by (simp add: admin_update_comment_def Let_def log_leaves_trace same_books_def split: option.split)

lemma delete_comment_trace: "snd (admin_delete_comment admin i w) = w \<or> leaves_trace admin i w (snd (admin_delete_comment admin i w))"
  by (simp add: admin_delete_comment_def drop_comment_def leaves_trace_def log_admin_action_def same_books_def split: option.split)

text \<open>
  A request of the moderators changes nothing, or it writes one audit row in their name about its target and
  moves no money.
\<close>

theorem moderation_is_audited:
  "\<forall>call \<in> {\<lambda>w. snd (admin_moderate admin i m w), \<lambda>w. snd (admin_update_service admin i e w), \<lambda>w. snd (admin_delete_service admin i w),
      \<lambda>w. snd (admin_update_comment admin i k w), \<lambda>w. snd (admin_delete_comment admin i w)}.
    call w = w \<or> leaves_trace admin i w (call w)"
  using moderate_trace update_service_trace delete_service_trace update_comment_trace delete_comment_trace by simp

section \<open>Samples\<close>

definition sample_service :: "int \<Rightarrow> ServiceStatus \<Rightarrow> service" where
  "sample_service i st = \<lparr> sv_id = i, sv_owner_id = 2, sv_category_id = 1, sv_title = ''logo'', sv_description = [], sv_price = 10,
     sv_status = st, sv_ban_reason = None, sv_views = 0, sv_deals_count = 0, sv_deposit = 0, sv_rating_manual = None, sv_photo_urls = [],
     sv_created_at = 5, sv_currency_id = None \<rparr>"

definition catalogue_world :: world where
  "catalogue_world = sample_world \<lparr> t_categories := [\<lparr> cat_id = 1, cat_slug = ''design'', cat_name = ''Design'', cat_icon = [] \<rparr>],
     t_services := [sample_service 1 SV_active, sample_service 2 SV_paused, sample_service 3 SV_draft], seq_services := 4 \<rparr>"

lemma sample_service_simps [simp]:
  "sv_id (sample_service i st) = i" "sv_owner_id (sample_service i st) = 2" "sv_status (sample_service i st) = st"
  "sv_ban_reason (sample_service i st) = None" "service_fits (sample_service i st)"
  by (simp_all add: sample_service_def service_fits_def money_fits_def int32_fits_def)

lemma catalogue_rows [simp]:
  "t_services catalogue_world = [sample_service 1 SV_active, sample_service 2 SV_paused, sample_service 3 SV_draft]"
  "seq_services catalogue_world = 4" "t_users catalogue_world = [sample_buyer, sample_seller, sample_admin]"
  "t_app_settings catalogue_world = Some default_app_settings"
  by (simp_all add: catalogue_world_def sample_world_def sample_settings_def)

lemma catalogue_users [simp]: "get_user 2 catalogue_world = Some sample_seller" "\<not> owner_hidden catalogue_world (sample_service i st)"
  by (simp_all add: get_user_def owner_hidden_def) (simp add: sample_user_rows)

text \<open>A viewer with a username, and one without.\<close>

definition nameless :: user where
  "nameless = sample_buyer \<lparr> u_username := None \<rparr>"

lemma others_see_active_services_only_witness:
  "visible_service sample_buyer 1 catalogue_world = Inr (sample_service 1 SV_active)
   \<and> visible_service sample_buyer 2 catalogue_world \<noteq> Inr (sample_service 2 SV_paused)
   \<and> visible_service nameless 1 catalogue_world = Inr (sample_service 1 SV_active)
   \<and> visible_service nameless 3 catalogue_world \<noteq> Inr (sample_service 3 SV_draft)"
proof -
  have owners: "\<forall>s \<in> set (t_services catalogue_world). get_user (sv_owner_id s) catalogue_world \<noteq> None" by simp
  have viewer: "\<not> u_is_admin v" "\<forall>x \<in> set (t_users catalogue_world). u_username v \<noteq> None \<and> u_username x = u_username v \<longrightarrow> u_id x = u_id v"
    and id: "u_id v \<noteq> 2" if "v = sample_buyer \<or> v = nameless" for v
    using that by (auto simp: sample_user_rows nameless_def)
  have sees: "sv_owner_id s = u_id v \<or> sv_status s = SV_active \<and> \<not> owner_hidden catalogue_world s"
    if "visible_service v i catalogue_world = Inr s" "v = sample_buyer \<or> v = nameless" for v i s
    using conjunct2 [OF others_see_active_services_only [OF viewer [OF that(2)] owners]] that(1) by simp
  from sees [of sample_buyer 2 "sample_service 2 SV_paused"] sees [of nameless 3 "sample_service 3 SV_draft"]
    id [of sample_buyer] id [of nameless]
  show ?thesis by (auto simp: visible_service_def)
qed

lemma active_services_stay_within_quota_witness:
  "active_count 2 (snd (update_service id sample_seller 2 (status_only ''active'') catalogue_world)) \<le> 10"
proof -
  have "\<not> u_is_admin sample_seller" by (simp add: sample_user_rows)
  then have "owner_step catalogue_world (snd (update_service id sample_seller 2 (status_only ''active'') catalogue_world))"
    by (intro owner_step.updated) simp_all
  then have steps: "owner_step\<^sup>*\<^sup>* catalogue_world (snd (update_service id sample_seller 2 (status_only ''active'') catalogue_world))" by blast
  have "services_ok catalogue_world" by (simp add: services_ok_def tkeys_def)
  from active_services_stay_within_quota [OF steps this, of 2] show ?thesis
    by (simp add: active_count_def quota_limit_def quota_snapshot_def default_app_settings_def)
qed

lemma ban_is_lost_to_a_waiting_owner_witness:
  "\<exists>out w' r. update_service (\<lambda>w. snd (admin_moderate sample_admin 2 \<lparr> mo_action = ''ban'', mo_reason = ''spam'' \<rparr> w)) sample_seller 2
      (status_only ''active'') catalogue_world = (Inr out, w') \<and> tget sv_id 2 (t_services w') = Some r \<and> sv_status r = SV_active"
proof -
  have "tkeys sv_id (t_services catalogue_world)" "tget sv_id 2 (t_services catalogue_world) = Some (sample_service 2 SV_paused)"
    "\<not> u_is_admin sample_seller" "int (active_count (u_id sample_seller) catalogue_world) < snd (quota_snapshot 0 catalogue_world)"
    by (simp_all add: tkeys_def active_count_def quota_snapshot_def default_app_settings_def) (simp add: sample_user_rows)
  from ban_is_lost_to_a_waiting_owner [OF this(1,2) _ _ _ this(3) _ this(4), of sample_admin "''spam''"]
  show ?thesis by (simp add: Let_def) blast
qed

end
