(* ===== verification/Sockets.thy ===== *)
theory Sockets
  imports Catalogue "HOL-Library.Sublist"
begin

text \<open>
  The channel that pushes events to open clients: the connection manager (\<open>backend/app/ws.py\<close>) and the
  endpoint (\<open>backend/app/routers/ws.py\<close>). The manager keeps the sockets of each user and a bounded queue
  per socket that a writer task drains. The coroutines of a worker interleave at their awaits, so each
  stretch between two awaits is an operation of its own; a run is any sequence of them.
  Two simplifications: closing a socket (mark, close, disconnect) is one operation, and a send that is in flight when its
  writer is cancelled does not reach the wire.
  Redis carries an event to the other workers; a supervisor keeps the listening task alive.
\<close>

section \<open>Sockets and the manager\<close>

definition WS_INVALIDATE_CLOSE_CODE :: int where "WS_INVALIDATE_CLOSE_CODE = 4001"
definition WS_AGE_CLOSE_CODE :: int where "WS_AGE_CLOSE_CODE = 4002"
definition WS_SLOW_CONSUMER_CLOSE_CODE :: int where "WS_SLOW_CONSUMER_CLOSE_CODE = 4003"

text \<open>The writer task of a socket waits, or is inside \<open>send_text\<close> with a message, or has returned.\<close>

datatype writer = Waiting | Sending string | Finished

record socket_state =
  ss_ws :: int
  ss_user :: int
  ss_auth_date :: "int option"
  ss_queue :: "string list"
  ss_writer :: writer
  ss_closed :: bool
  ss_dropped :: nat
  ss_window_start :: rat
  ss_count :: nat

text \<open>What the server does to a socket: a text frame, a heartbeat, a close with its code.\<close>

datatype frame = Text string | Heartbeat | Close int

record ws_settings =
  ws_max_sockets_per_user :: int
  ws_recv_max_messages_per_second :: rat
  ws_send_queue_size :: nat
  ws_max_age_seconds :: int

definition default_ws_settings :: ws_settings where
  "default_ws_settings = \<lparr> ws_max_sockets_per_user = 5, ws_recv_max_messages_per_second = 10, ws_send_queue_size = 100,
     ws_max_age_seconds = 12 * 60 * 60 \<rparr>"

record manager =
  m_connections :: "int \<Rightarrow> int list option"
  m_states :: "socket_state list"
  m_wire :: "(int \<times> frame) list"

definition empty_manager :: manager where
  "empty_manager = \<lparr> m_connections = Map.empty, m_states = [], m_wire = [] \<rparr>"

definition conns_of :: "int \<Rightarrow> manager \<Rightarrow> int list" where
  "conns_of u m = (case m_connections m u of None \<Rightarrow> [] | Some l \<Rightarrow> l)"

definition get_state :: "int \<Rightarrow> manager \<Rightarrow> socket_state option" where
  "get_state ws m = tget ss_ws ws (m_states m)"

definition put_state :: "socket_state \<Rightarrow> manager \<Rightarrow> manager" where
  "put_state s m = m \<lparr> m_states := tput ss_ws s (m_states m) \<rparr>"

definition on_wire :: "int \<Rightarrow> frame \<Rightarrow> manager \<Rightarrow> manager" where
  "on_wire ws f m = m \<lparr> m_wire := m_wire m @ [(ws, f)] \<rparr>"

section \<open>Operations\<close>

definition new_state :: "int \<Rightarrow> int \<Rightarrow> int option \<Rightarrow> socket_state" where
  "new_state u ws auth = \<lparr> ss_ws = ws, ss_user = u, ss_auth_date = auth, ss_queue = [], ss_writer = Waiting,
     ss_closed = False, ss_dropped = 0, ss_window_start = 0, ss_count = 0 \<rparr>"

definition connect :: "ws_settings \<Rightarrow> int \<Rightarrow> int \<Rightarrow> int option \<Rightarrow> manager \<Rightarrow> manager" where
  "connect cfg u ws auth m =
     (let existing = conns_of u m; cap = ws_max_sockets_per_user cfg in
      if cap \<noteq> 0 \<and> cap \<le> int (length existing) then on_wire ws (Close 4008) m
      else m \<lparr> m_connections := (m_connections m)(u := Some (existing @ [ws])),
               m_states := m_states m @ [new_state u ws auth] \<rparr>)"

definition disconnect :: "int \<Rightarrow> int \<Rightarrow> manager \<Rightarrow> manager" where
  "disconnect u ws m =
     (let conns = remove1 ws (conns_of u m) in
      m \<lparr> m_connections := (m_connections m)(u := (if conns = [] then None else Some conns)),
          m_states := filter (\<lambda>s. ss_ws s \<noteq> ws) (m_states m) \<rparr>)"

text \<open>A \<open>deque\<close> with \<open>maxlen\<close> drops its oldest item.\<close>

definition deque_append :: "nat \<Rightarrow> string list \<Rightarrow> string \<Rightarrow> string list" where
  "deque_append maxlen q x = drop (length q + 1 - maxlen) (q @ [x])"

definition enqueue :: "ws_settings \<Rightarrow> string \<Rightarrow> socket_state \<Rightarrow> socket_state" where
  "enqueue cfg payload s =
     (let full = (length (ss_queue s) = ws_send_queue_size cfg) in
      s \<lparr> ss_dropped := (if full then ss_dropped s + 1 else ss_dropped s),
          ss_queue := deque_append (ws_send_queue_size cfg) (ss_queue s) payload \<rparr>)"

definition offer :: "ws_settings \<Rightarrow> string \<Rightarrow> int \<Rightarrow> manager \<Rightarrow> manager" where
  "offer cfg payload ws m =
     (case get_state ws m of None \<Rightarrow> m | Some s \<Rightarrow> if ss_closed s then m else put_state (enqueue cfg payload s) m)"

definition send_local :: "ws_settings \<Rightarrow> int \<Rightarrow> string \<Rightarrow> manager \<Rightarrow> manager" where
  "send_local cfg u payload m = fold (offer cfg payload) (conns_of u m) m"

text \<open>The writer between its awaits: it takes the oldest message, and then the send ends in one way or another.\<close>

definition writer_take :: "int \<Rightarrow> manager \<Rightarrow> manager" where
  "writer_take ws m =
     (case get_state ws m of None \<Rightarrow> m
      | Some s \<Rightarrow> (case ss_writer s of
          Waiting \<Rightarrow> if ss_closed s then put_state (s \<lparr> ss_writer := Finished \<rparr>) m
                     else (case ss_queue s of [] \<Rightarrow> m | item # rest \<Rightarrow> put_state (s \<lparr> ss_queue := rest, ss_writer := Sending item \<rparr>) m)
        | _ \<Rightarrow> m))"

datatype send_outcome = Sent | TimedOut | SendFailed

definition writer_done :: "int \<Rightarrow> send_outcome \<Rightarrow> manager \<Rightarrow> manager" where
  "writer_done ws res m =
     (case get_state ws m of None \<Rightarrow> m
      | Some s \<Rightarrow> (case ss_writer s of
          Sending item \<Rightarrow> (case res of
              Sent \<Rightarrow> on_wire ws (Text item) (put_state (s \<lparr> ss_writer := Waiting \<rparr>) m)
            | TimedOut \<Rightarrow> on_wire ws (Close WS_SLOW_CONSUMER_CLOSE_CODE) (put_state (s \<lparr> ss_closed := True, ss_writer := Finished \<rparr>) m)
            | SendFailed \<Rightarrow> put_state (s \<lparr> ss_closed := True, ss_writer := Finished \<rparr>) m)
        | _ \<Rightarrow> m))"

definition mark_closed :: "int \<Rightarrow> manager \<Rightarrow> manager" where
  "mark_closed ws m = (case get_state ws m of None \<Rightarrow> m | Some s \<Rightarrow> put_state (s \<lparr> ss_closed := True \<rparr>) m)"

definition close_one :: "int \<Rightarrow> int \<Rightarrow> manager \<Rightarrow> manager" where
  "close_one u ws m = disconnect u ws (on_wire ws (Close WS_INVALIDATE_CLOSE_CODE) (mark_closed ws m))"

definition close_local :: "int \<Rightarrow> manager \<Rightarrow> manager" where
  "close_local u m = fold (close_one u) (conns_of u m) m"

definition expired_states :: "ws_settings \<Rightarrow> int \<Rightarrow> manager \<Rightarrow> socket_state list" where
  "expired_states cfg now m = filter (\<lambda>s. \<not> ss_closed s \<and>
     (case ss_auth_date s of None \<Rightarrow> False | Some t \<Rightarrow> t < now - ws_max_age_seconds cfg)) (m_states m)"

definition evict_one :: "int \<Rightarrow> manager \<Rightarrow> manager" where
  "evict_one ws m = on_wire ws (Close WS_AGE_CLOSE_CODE) (mark_closed ws m)"

definition evict_expired_once :: "ws_settings \<Rightarrow> int \<Rightarrow> manager \<Rightarrow> nat \<times> manager" where
  "evict_expired_once cfg now m =
     (let expired = expired_states cfg now m in (length expired, fold (\<lambda>s. evict_one (ss_ws s)) expired m))"

definition check_recv_rate :: "ws_settings \<Rightarrow> rat \<Rightarrow> int \<Rightarrow> manager \<Rightarrow> bool \<times> manager" where
  "check_recv_rate cfg now ws m =
     (case get_state ws m of None \<Rightarrow> (True, m)
      | Some s \<Rightarrow>
          let s1 = (if 1 \<le> now - ss_window_start s then s \<lparr> ss_window_start := now, ss_count := 0 \<rparr> else s);
              s2 = s1 \<lparr> ss_count := ss_count s1 + 1 \<rparr>
          in (of_nat (ss_count s2) \<le> ws_recv_max_messages_per_second cfg, put_state s2 m))"

definition send_heartbeat :: "int \<Rightarrow> manager \<Rightarrow> manager" where
  "send_heartbeat ws m = on_wire ws Heartbeat m"

section \<open>Runs\<close>

text \<open>Everything a worker may do between two awaits, in any order. A socket has one owner for its life.\<close>

datatype ws_op =
    Connect int int "int option" | Disconnect int int | Push int string | Take int | Done int send_outcome
  | CloseOne int int | Evict int | Receive rat int | Beat int

primrec apply_op :: "ws_settings \<Rightarrow> ws_op \<Rightarrow> manager \<Rightarrow> manager" where
  "apply_op cfg (Connect u ws auth) m = connect cfg u ws auth m"
| "apply_op cfg (Disconnect u ws) m = disconnect u ws m"
| "apply_op cfg (Push u payload) m = send_local cfg u payload m"
| "apply_op cfg (Take ws) m = writer_take ws m"
| "apply_op cfg (Done ws res) m = writer_done ws res m"
| "apply_op cfg (CloseOne u ws) m = close_one u ws m"
| "apply_op cfg (Evict ws) m = evict_one ws m"
| "apply_op cfg (Receive now ws) m = snd (check_recv_rate cfg now ws m)"
| "apply_op cfg (Beat ws) m = send_heartbeat ws m"

definition run :: "ws_settings \<Rightarrow> ws_op list \<Rightarrow> manager" where
  "run cfg ops = fold (apply_op cfg) ops empty_manager"

primrec connects :: "int \<Rightarrow> ws_op \<Rightarrow> bool" where
  "connects ws (Connect u v auth) = (v = ws)"
| "connects ws (Disconnect u v) = False" | "connects ws (Push u payload) = False" | "connects ws (Take v) = False"
| "connects ws (Done v res) = False" | "connects ws (CloseOne u v) = False" | "connects ws (Evict v) = False"
| "connects ws (Receive now v) = False" | "connects ws (Beat v) = False"

primrec owned :: "(int \<Rightarrow> int) \<Rightarrow> ws_op \<Rightarrow> bool" where
  "owned owner (Connect u ws auth) = (owner ws = u)" | "owned owner (Disconnect u ws) = (owner ws = u)"
| "owned owner (CloseOne u ws) = (owner ws = u)" | "owned owner (Push u payload) = True" | "owned owner (Take v) = True"
| "owned owner (Done v res) = True" | "owned owner (Evict v) = True" | "owned owner (Receive now v) = True" | "owned owner (Beat v) = True"

text \<open>Every socket is connected once at most, under its owner.\<close>

inductive legal :: "(int \<Rightarrow> int) \<Rightarrow> ws_op list \<Rightarrow> bool" for owner where
  legal_Nil: "legal owner []"
| legal_snoc: "legal owner ops \<Longrightarrow> owned owner x \<Longrightarrow> \<forall>ws. connects ws x \<longrightarrow> \<not> list_ex (connects ws) ops
    \<Longrightarrow> legal owner (ops @ [x])"

text \<open>What a socket should see: the events of its owner that were published after it connected.\<close>

primrec payload_for :: "int \<Rightarrow> ws_op \<Rightarrow> string list" where
  "payload_for u (Push v payload) = (if v = u then [payload] else [])"
| "payload_for u (Connect v ws auth) = []" | "payload_for u (Disconnect v ws) = []" | "payload_for u (Take ws) = []"
| "payload_for u (Done ws res) = []" | "payload_for u (CloseOne v ws) = []" | "payload_for u (Evict ws) = []"
| "payload_for u (Receive now ws) = []" | "payload_for u (Beat ws) = []"

definition offered :: "(int \<Rightarrow> int) \<Rightarrow> int \<Rightarrow> ws_op list \<Rightarrow> string list" where
  "offered owner ws ops = concat (map (payload_for (owner ws)) (tl (dropWhile (\<lambda>x. \<not> connects ws x) ops)))"

definition texts :: "int \<Rightarrow> manager \<Rightarrow> string list" where
  "texts ws m = concat (map (\<lambda>(v, f). case f of Text t \<Rightarrow> if v = ws then [t] else [] | _ \<Rightarrow> []) (m_wire m))"

definition in_flight :: "socket_state \<Rightarrow> string list" where
  "in_flight s = (case ss_writer s of Sending t \<Rightarrow> [t] | _ \<Rightarrow> [])"

text \<open>What was sent to a socket, is being sent and waits for it.\<close>

definition pending :: "int \<Rightarrow> manager \<Rightarrow> string list" where
  "pending ws m = (case get_state ws m of None \<Rightarrow> [] | Some s \<Rightarrow> in_flight s @ ss_queue s)"

definition flow :: "int \<Rightarrow> manager \<Rightarrow> string list" where
  "flow ws m = texts ws m @ pending ws m"

section \<open>What each operation does to one socket\<close>

lemma get_put_state: "get_state ws (put_state s m) = (if ws = ss_ws s \<and> get_state ws m \<noteq> None then Some s else get_state ws m)"
  unfolding get_state_def put_state_def by (auto simp: tget_tput tget_None_iff tget_None_iff [THEN iffD2, THEN sym])

lemma get_state_frame [simp]:
  "get_state ws (on_wire v f m) = get_state ws m" "m_connections (on_wire v f m) = m_connections m"
  "conns_of u (on_wire v f m) = conns_of u m" "conns_of u (put_state s m) = conns_of u m" "m_states (on_wire v f m) = m_states m"
  "m_connections (put_state s m) = m_connections m" "m_wire (put_state s m) = m_wire m" "texts ws (put_state s m) = texts ws m"
  by (simp_all add: get_state_def on_wire_def put_state_def conns_of_def texts_def)

lemma texts_on_wire [simp]:
  "texts ws (on_wire v f m) = texts ws m @ (case f of Text t \<Rightarrow> if v = ws then [t] else [] | _ \<Rightarrow> [])"
  by (simp add: texts_def on_wire_def)

lemma get_state_ws: "get_state ws m = Some s \<Longrightarrow> ss_ws s = ws"
  unfolding get_state_def by (drule tget_Some) simp

lemma keys_put [simp]: "tkeys ss_ws (m_states (put_state s m)) = tkeys ss_ws (m_states m)"
  by (simp add: put_state_def)

lemma enqueue_frame [simp]:
  "ss_ws (enqueue cfg payload s) = ss_ws s" "ss_user (enqueue cfg payload s) = ss_user s" "ss_closed (enqueue cfg payload s) = ss_closed s"
  "ss_writer (enqueue cfg payload s) = ss_writer s" "ss_auth_date (enqueue cfg payload s) = ss_auth_date s"
  by (simp_all add: enqueue_def Let_def)

lemma offer_state: "get_state ws (offer cfg payload v m) =
    (if ws = v then map_option (\<lambda>s. if ss_closed s then s else enqueue cfg payload s) (get_state ws m) else get_state ws m)"
  by (auto simp: offer_def get_put_state get_state_ws split: option.splits)

lemma offer_frame [simp]: "m_connections (offer cfg payload v m) = m_connections m" "m_wire (offer cfg payload v m) = m_wire m"
  "conns_of u (offer cfg payload v m) = conns_of u m" "texts ws (offer cfg payload v m) = texts ws m"
  by (auto simp: offer_def split: option.splits)

lemma send_fold:
  "distinct vs \<Longrightarrow> get_state ws (fold (offer cfg payload) vs m) =
     (if ws \<in> set vs then map_option (\<lambda>s. if ss_closed s then s else enqueue cfg payload s) (get_state ws m) else get_state ws m)"
  "texts ws (fold (offer cfg payload) vs m) = texts ws m" "conns_of u (fold (offer cfg payload) vs m) = conns_of u m"
  by (induction vs arbitrary: m) (auto simp: offer_state)

lemma get_disconnect: "get_state ws (disconnect u v m) = (if ws = v then None else get_state ws m)"
  "texts ws (disconnect u v m) = texts ws m"
  "conns_of x (disconnect u v m) = (if x = u then remove1 v (conns_of u m) else conns_of x m)"
  unfolding get_state_def disconnect_def texts_def conns_of_def by (induction "m_states m") (auto simp: Let_def tget_filter_key)

section \<open>Caps and queues\<close>

text \<open>The two tables of the manager agree, nobody has more sockets than the cap, no queue is longer
  than its bound.\<close>

definition manager_ok :: "ws_settings \<Rightarrow> (int \<Rightarrow> int) \<Rightarrow> manager \<Rightarrow> bool" where
  "manager_ok cfg owner m \<longleftrightarrow> tkeys ss_ws (m_states m)
     \<and> (\<forall>ws s. get_state ws m = Some s \<longrightarrow> owner ws = ss_user s \<and> ws \<in> set (conns_of (ss_user s) m)
          \<and> length (ss_queue s) \<le> ws_send_queue_size cfg)
     \<and> (\<forall>u. distinct (conns_of u m) \<and> m_connections m u \<noteq> Some []
          \<and> (ws_max_sockets_per_user cfg \<noteq> 0 \<longrightarrow> int (length (conns_of u m)) \<le> max 0 (ws_max_sockets_per_user cfg))
          \<and> (\<forall>ws \<in> set (conns_of u m). owner ws = u \<and> get_state ws m \<noteq> None))"

lemma manager_okD:
  assumes "manager_ok cfg owner m"
  shows "tkeys ss_ws (m_states m)" "get_state ws m = Some s \<Longrightarrow> owner ws = ss_user s"
    "get_state ws m = Some s \<Longrightarrow> ws \<in> set (conns_of (ss_user s) m)"
    "get_state ws m = Some s \<Longrightarrow> length (ss_queue s) \<le> ws_send_queue_size cfg"
    "distinct (conns_of u m)" "ws \<in> set (conns_of u m) \<Longrightarrow> owner ws = u" "ws \<in> set (conns_of u m) \<Longrightarrow> get_state ws m \<noteq> None"
  using assms by (auto simp: manager_ok_def)

lemma put_state_ok:
  assumes "manager_ok cfg owner m" and "get_state (ss_ws s') m = Some s" and "ss_user s' = ss_user s"
    and "length (ss_queue s') \<le> ws_send_queue_size cfg"
  shows "manager_ok cfg owner (put_state s' m)"
  using assms get_state_ws [OF assms(2)] by (auto simp: manager_ok_def get_put_state)

lemma on_wire_ok [simp]: "manager_ok cfg owner (on_wire ws f m) = manager_ok cfg owner m"
  by (simp add: manager_ok_def)

lemma enqueue_length: "length (ss_queue s) \<le> ws_send_queue_size cfg \<Longrightarrow> length (ss_queue (enqueue cfg payload s)) \<le> ws_send_queue_size cfg"
  by (simp add: enqueue_def deque_append_def Let_def)

lemma offer_ok: "manager_ok cfg owner m \<Longrightarrow> manager_ok cfg owner (offer cfg payload ws m)"
  by (auto simp: offer_def get_state_ws intro!: put_state_ok enqueue_length dest: manager_okD(4) split: option.splits)

lemma fold_ok: "(\<And>x m. manager_ok cfg owner m \<Longrightarrow> manager_ok cfg owner (f x m)) \<Longrightarrow> manager_ok cfg owner m \<Longrightarrow> manager_ok cfg owner (fold f xs m)"
  by (induction xs arbitrary: m) simp_all

lemma disconnect_ok:
  assumes ok: "manager_ok cfg owner m" and own: "owner ws = u"
  shows "manager_ok cfg owner (disconnect u ws m)"
proof -
  have states: "tkeys ss_ws (m_states (disconnect u ws m))" and conns: "m_connections (disconnect u ws m) x \<noteq> Some []" for x
    using ok by (auto simp: manager_ok_def disconnect_def Let_def tkeys_filtered)
  have kept: "v \<in> set (remove1 ws (conns_of (ss_user s) m))" if "get_state v m = Some s" "v \<noteq> ws" for v s
    using manager_okD(3) [OF ok that(1)] that(2) by simp
  have shorter: "length (remove1 ws xs) \<le> length xs" for xs :: "int list" by (simp add: length_remove1)
  have cap: "ws_max_sockets_per_user cfg \<noteq> 0 \<Longrightarrow> int (length (conns_of x (disconnect u ws m))) \<le> max 0 (ws_max_sockets_per_user cfg)" for x
    using ok shorter [of "conns_of u m"] by (auto simp: manager_ok_def get_disconnect intro: order_trans [of _ "int (length (conns_of u m))"])
  have "ws \<notin> set (conns_of x m)" if "x \<noteq> u" for x using manager_okD(6) [OF ok] own that by blast
  moreover note d = get_disconnect [of _ u ws m]
  moreover have "v \<noteq> ws" if "v \<in> set (remove1 ws (conns_of u m))" for v
    using that manager_okD(5) [OF ok, of u] by auto
  ultimately show ?thesis unfolding manager_ok_def
    using states conns kept cap manager_okD(2-7) [OF ok] by (auto simp: d)
qed

definition at_cap :: "ws_settings \<Rightarrow> int \<Rightarrow> manager \<Rightarrow> bool" where
  "at_cap cfg u m \<longleftrightarrow> ws_max_sockets_per_user cfg \<noteq> 0 \<and> ws_max_sockets_per_user cfg \<le> int (length (conns_of u m))"

lemma connect_at_cap: "at_cap cfg u m \<Longrightarrow> connect cfg u ws auth m = on_wire ws (Close 4008) m"
  by (simp add: connect_def at_cap_def)

lemma connect_below_cap:
  assumes "\<not> at_cap cfg u m"
  shows "get_state ws m = None \<Longrightarrow> get_state v (connect cfg u ws auth m) = (if v = ws then Some (new_state u ws auth) else get_state v m)"
    "conns_of x (connect cfg u ws auth m) = (if x = u then conns_of u m @ [ws] else conns_of x m)"
    "m_connections (connect cfg u ws auth m) = (m_connections m)(u := Some (conns_of u m @ [ws]))"
    "m_states (connect cfg u ws auth m) = m_states m @ [new_state u ws auth]" "texts v (connect cfg u ws auth m) = texts v m"
  using assms
  by (auto simp: connect_def at_cap_def get_state_def tget_append conns_of_def texts_def new_state_def Let_def split: option.splits)

lemma new_state_simps [simp]:
  "ss_ws (new_state u ws auth) = ws" "ss_user (new_state u ws auth) = u" "ss_queue (new_state u ws auth) = []"
  "ss_closed (new_state u ws auth) = False" "ss_writer (new_state u ws auth) = Waiting" "ss_dropped (new_state u ws auth) = 0"
  "ss_auth_date (new_state u ws auth) = auth"
  by (simp_all add: new_state_def)

lemma connect_ok:
  assumes ok: "manager_ok cfg owner m" and new: "get_state ws m = None" and own: "owner ws = u"
  shows "manager_ok cfg owner (connect cfg u ws auth m)"
proof (cases "at_cap cfg u m")
  case True
  then show ?thesis using ok by (simp add: connect_at_cap)
next
  case False
  note c = connect_below_cap [OF False]
  have fresh: "ws \<notin> set (conns_of x m)" for x using manager_okD(7) [OF ok] new by blast
  have "ws \<notin> ss_ws ` set (m_states m)" using new by (simp add: get_state_def tget_None_iff)
  then have "tkeys ss_ws (m_states (connect cfg u ws auth m))" using manager_okD(1) [OF ok] by (auto simp: c(4))
  moreover have "ws_max_sockets_per_user cfg \<noteq> 0 \<Longrightarrow> int (length (conns_of u m @ [ws])) \<le> max 0 (ws_max_sockets_per_user cfg)"
    using False by (auto simp: at_cap_def)
  moreover have "v \<in> set (conns_of u m)" if "get_state v m = Some s" "ss_user s = u" for v s
    using manager_okD(3) [OF ok] that by blast
  ultimately show ?thesis using ok new own fresh by (auto simp: manager_ok_def c)
qed

lemma mark_closed_ok: "manager_ok cfg owner m \<Longrightarrow> manager_ok cfg owner (mark_closed ws m)"
  by (auto simp: mark_closed_def get_state_ws intro!: put_state_ok dest: manager_okD(4) split: option.splits)

lemma writer_ok: "manager_ok cfg owner m \<Longrightarrow> manager_ok cfg owner (writer_take ws m)"
  "manager_ok cfg owner m \<Longrightarrow> manager_ok cfg owner (writer_done ws res m)"
  by (auto simp: writer_take_def writer_done_def get_state_ws intro!: put_state_ok dest: manager_okD(4)
      split: option.splits writer.splits send_outcome.splits list.splits)

lemma receive_ok: "manager_ok cfg owner m \<Longrightarrow> manager_ok cfg owner (snd (check_recv_rate cfg now ws m))"
  by (auto simp: check_recv_rate_def Let_def get_state_ws intro!: put_state_ok dest: manager_okD(4) split: option.splits)

lemma close_one_ok: "manager_ok cfg owner m \<Longrightarrow> owner ws = u \<Longrightarrow> manager_ok cfg owner (close_one u ws m)"
  by (simp add: close_one_def disconnect_ok mark_closed_ok)

lemma apply_op_ok:
  assumes "manager_ok cfg owner m" and "owned owner x" and "\<And>ws. connects ws x \<Longrightarrow> get_state ws m = None"
  shows "manager_ok cfg owner (apply_op cfg x m)"
proof (cases x)
  case (Connect u ws auth)
  then show ?thesis using assms connect_ok by simp
next
  case (Disconnect u ws)
  then show ?thesis using assms disconnect_ok by simp
next
  case (CloseOne u ws)
  then show ?thesis using assms close_one_ok by simp
next
  case (Push u payload)
  then show ?thesis using assms(1) by (simp add: send_local_def fold_ok offer_ok)
next
  case (Evict ws)
  then show ?thesis using assms(1) by (simp add: evict_one_def mark_closed_ok)
qed (use assms(1) in \<open>simp_all add: writer_ok receive_ok send_heartbeat_def\<close>)

section \<open>What reaches a socket\<close>

lemma offered_snoc: "offered owner ws (ops @ [x]) =
    (if list_ex (connects ws) ops then offered owner ws ops @ payload_for (owner ws) x else [])"
proof (cases "list_ex (connects ws) ops")
  case True
  then obtain y where y: "y \<in> set ops" "connects ws y" by (auto simp: list_ex_iff)
  then have "dropWhile (\<lambda>y. \<not> connects ws y) ops \<noteq> []" by (auto simp: dropWhile_eq_Nil_conv)
  then show ?thesis using True y by (simp add: offered_def dropWhile_append1)
next
  case False
  then have "dropWhile (\<lambda>y. \<not> connects ws y) (ops @ [x]) = (if connects ws x then [x] else [])"
    by (simp add: list_ex_iff dropWhile_append3)
  then show ?thesis using False by (auto simp: offered_def)
qed

text \<open>
  The state of the delivery to one socket: what it got, is getting and waits for is what was published for
  it, in that order, less the messages that were dropped, and those are the oldest that still waited.
\<close>

definition delivery_ok :: "(int \<Rightarrow> int) \<Rightarrow> ws_op list \<Rightarrow> manager \<Rightarrow> int \<Rightarrow> bool" where
  "delivery_ok owner ops m ws \<longleftrightarrow>
     (\<not> list_ex (connects ws) ops \<longrightarrow> get_state ws m = None \<and> texts ws m = [])
     \<and> subseq (flow ws m) (offered owner ws ops)
     \<and> (\<forall>s. get_state ws m = Some s \<and> \<not> ss_closed s \<longrightarrow> suffix (ss_queue s) (offered owner ws ops)
          \<and> length (flow ws m) + ss_dropped s = length (offered owner ws ops))"

lemma delivery_other:
  assumes "delivery_ok owner ops m ws" and "get_state ws m' = get_state ws m" and "texts ws m' = texts ws m"
    and "payload_for (owner ws) x = []" and "\<not> connects ws x"
  shows "delivery_ok owner (ops @ [x]) m' ws"
  using assms by (auto simp: delivery_ok_def offered_snoc flow_def pending_def)

text \<open>A step that moves messages on, or loses them with the socket.\<close>

lemma delivery_moved:
  assumes "delivery_ok owner ops m ws" and "payload_for (owner ws) x = []" and "\<not> connects ws x"
    and "get_state ws m = Some s" and "subseq (flow ws m') (flow ws m)"
    and "\<And>s'. get_state ws m' = Some s' \<Longrightarrow> \<not> ss_closed s' \<Longrightarrow>
       \<not> ss_closed s \<and> suffix (ss_queue s') (ss_queue s) \<and> length (flow ws m') = length (flow ws m) \<and> ss_dropped s' = ss_dropped s"
  shows "delivery_ok owner (ops @ [x]) m' ws"
  using assms by (auto simp: delivery_ok_def offered_snoc intro: subseq_order.trans suffix_order.trans)

lemma delivery_published:
  assumes d: "delivery_ok owner ops m ws" and s: "get_state ws m = Some s" "\<not> ss_closed s"
    and len: "length (ss_queue s) \<le> ws_send_queue_size cfg" and x: "payload_for (owner ws) x = [p]"
    and m': "get_state ws m' = Some (enqueue cfg p s)" "texts ws m' = texts ws m"
  shows "delivery_ok owner (ops @ [x]) m' ws"
proof -
  let ?off = "offered owner ws ops" and ?q = "ss_queue s" and ?a = "texts ws m @ in_flight s"
  have c: "list_ex (connects ws) ops" using d s(1) by (auto simp: delivery_ok_def)
  have off: "offered owner ws (ops @ [x]) = ?off @ [p]" using c x by (simp add: offered_snoc)
  have old: "subseq (?a @ ?q) ?off" "suffix ?q ?off" "length (?a @ ?q) + ss_dropped s = length ?off"
    using d s by (auto simp: delivery_ok_def flow_def pending_def)
  let ?q' = "ss_queue (enqueue cfg p s)"
  have q': "?q' = drop (length ?q + 1 - ws_send_queue_size cfg) (?q @ [p])" by (simp add: enqueue_def deque_append_def Let_def)
  have flow: "flow ws m' = ?a @ ?q'" using m' by (simp add: flow_def pending_def in_flight_def)
  have "suffix ?q' (?q @ [p])" unfolding q' by (rule suffix_drop)
  then have "subseq ?q' (?q @ [p])" by (rule suffix_imp_subseq)
  then have "subseq (?a @ ?q') (?a @ ?q @ [p])" by (simp only: append_assoc subseq_append')
  moreover have "subseq (?a @ ?q @ [p]) (?off @ [p])" using list_emb_append_mono [OF old(1), of "[p]" "[p]"] by simp
  ultimately have "subseq (flow ws m') (?off @ [p])" unfolding flow by (rule subseq_order.trans)
  moreover have "suffix ?q' (?off @ [p])"
    using \<open>suffix ?q' (?q @ [p])\<close> old(2) by (meson suffix_order.trans same_suffix_suffix)
  moreover have "length (flow ws m') + ss_dropped (enqueue cfg p s) = length ?off + 1"
    using old(3) len unfolding flow q' by (auto simp: enqueue_def Let_def)
  ultimately show ?thesis using m'(1) c unfolding delivery_ok_def off by auto
qed

lemma mark_closed_frame: "get_state ws (mark_closed v m) =
    (if ws = v then map_option (\<lambda>s. s \<lparr> ss_closed := True \<rparr>) (get_state ws m) else get_state ws m)"
  "texts ws (mark_closed v m) = texts ws m"
  by (auto simp: mark_closed_def get_put_state get_state_ws split: option.splits)

lemma delivery_mark_closed:
  "delivery_ok owner ops m ws \<Longrightarrow> payload_for (owner ws) x = [] \<Longrightarrow> \<not> connects ws x \<Longrightarrow> get_state ws m' = get_state ws (mark_closed v m)
    \<Longrightarrow> texts ws m' = texts ws m \<Longrightarrow> delivery_ok owner (ops @ [x]) m' ws"
  by (auto simp: delivery_ok_def offered_snoc flow_def pending_def mark_closed_frame in_flight_def split: option.splits if_splits)

lemma subseq_front: "subseq (xs @ ys) zs \<Longrightarrow> subseq xs zs"
  by (meson prefixI prefix_imp_subseq subseq_order.trans)

lemma delivery_gone:
  "delivery_ok owner ops m ws \<Longrightarrow> payload_for (owner ws) x = [] \<Longrightarrow> \<not> connects ws x \<Longrightarrow> get_state ws m' = None
    \<Longrightarrow> texts ws m' = texts ws m \<Longrightarrow> delivery_ok owner (ops @ [x]) m' ws"
  by (auto simp: delivery_ok_def offered_snoc flow_def pending_def split: option.splits dest: subseq_front)

lemma writer_take_frame:
  "v \<noteq> ws \<Longrightarrow> get_state ws (writer_take v m) = get_state ws m" "texts ws (writer_take v m) = texts ws m"
  by (auto simp: writer_take_def get_put_state get_state_ws split: option.splits writer.splits list.splits)

lemma writer_done_frame:
  "v \<noteq> ws \<Longrightarrow> get_state ws (writer_done v res m) = get_state ws m" "v \<noteq> ws \<Longrightarrow> texts ws (writer_done v res m) = texts ws m"
  by (auto simp: writer_done_def get_put_state get_state_ws split: option.splits writer.splits send_outcome.splits)

lemma receive_frame:
  "v \<noteq> ws \<Longrightarrow> get_state ws (snd (check_recv_rate cfg now v m)) = get_state ws m" "texts ws (snd (check_recv_rate cfg now v m)) = texts ws m"
  by (auto simp: check_recv_rate_def Let_def get_put_state get_state_ws split: option.splits)

lemma take_moves:
  assumes "get_state ws m = Some s"
  shows "\<exists>s'. get_state ws (writer_take ws m) = Some s' \<and> in_flight s' @ ss_queue s' = in_flight s @ ss_queue s
    \<and> ss_closed s' = ss_closed s \<and> suffix (ss_queue s') (ss_queue s) \<and> ss_dropped s' = ss_dropped s"
  using assms get_state_ws [OF assms]
  by (auto simp: writer_take_def get_put_state in_flight_def suffix_Cons split: writer.splits list.splits)

lemma done_moves:
  assumes "get_state ws m = Some s"
  shows "\<exists>s'. get_state ws (writer_done ws res m) = Some s' \<and> subseq (flow ws (writer_done ws res m)) (flow ws m)
    \<and> ss_queue s' = ss_queue s \<and> (\<not> ss_closed s' \<longrightarrow> \<not> ss_closed s \<and> flow ws (writer_done ws res m) = flow ws m \<and> ss_dropped s' = ss_dropped s)"
  using assms get_state_ws [OF assms]
  by (cases "ss_writer s"; cases res)
    (auto simp: writer_done_def get_put_state in_flight_def flow_def pending_def subseq_append' list_emb_Cons)

lemma receive_moves:
  assumes "get_state ws m = Some s"
  shows "\<exists>s'. get_state ws (snd (check_recv_rate cfg now ws m)) = Some s' \<and> in_flight s' = in_flight s \<and> ss_queue s' = ss_queue s
    \<and> ss_closed s' = ss_closed s \<and> ss_dropped s' = ss_dropped s"
proof -
  define s1 where "s1 = (if 1 \<le> now - ss_window_start s then s \<lparr> ss_window_start := now, ss_count := 0 \<rparr> else s)"
  define s2 where "s2 = s1 \<lparr> ss_count := ss_count s1 + 1 \<rparr>"
  have same: "ss_ws s2 = ws" "in_flight s2 = in_flight s" "ss_queue s2 = ss_queue s" "ss_closed s2 = ss_closed s" "ss_dropped s2 = ss_dropped s"
    using get_state_ws [OF assms] by (simp_all add: s1_def s2_def in_flight_def)
  have "snd (check_recv_rate cfg now ws m) = put_state s2 m"
    using assms by (simp add: check_recv_rate_def Let_def s1_def s2_def)
  then show ?thesis using same assms by (simp add: get_put_state)
qed

lemma connect_frame:
  assumes "get_state v m = None"
  shows "v \<noteq> ws \<Longrightarrow> get_state ws (connect cfg u v auth m) = get_state ws m" "texts ws (connect cfg u v auth m) = texts ws m"
    "get_state v (connect cfg u v auth m) = (if at_cap cfg u m then None else Some (new_state u v auth))"
  using assms by (cases "at_cap cfg u m"; simp add: connect_at_cap connect_below_cap)+

lemma absent_socket:
  assumes "get_state ws m = None"
  shows "writer_take ws m = m" "writer_done ws res m = m" "snd (check_recv_rate cfg now ws m) = m"
  using assms by (simp_all add: writer_take_def writer_done_def check_recv_rate_def)

lemma delivery_step:
  assumes ok: "manager_ok cfg owner m" and d: "\<And>v. delivery_ok owner ops m v"
    and x: "owned owner x" "\<And>v. connects v x \<Longrightarrow> \<not> list_ex (connects v) ops"
  shows "delivery_ok owner (ops @ [x]) (apply_op cfg x m) ws"
proof (cases x)
  case (Connect u v auth)
  then have new: "\<not> list_ex (connects v) ops" "get_state v m = None" "texts v m = []"
    using x(2) [of v] d [of v] by (simp_all add: delivery_ok_def)
  note c = connect_frame [OF new(2), where u = u and cfg = cfg and auth = auth]
  show ?thesis
  proof (cases "v = ws")
    case True
    then show ?thesis using c(2,3) new Connect
      by (auto simp: delivery_ok_def offered_snoc flow_def pending_def in_flight_def)
  next
    case False
    then show ?thesis using delivery_other [OF d] c Connect by simp
  qed
next
  case (Disconnect u v)
  then show ?thesis using delivery_gone [OF d, of ws x "disconnect u v m"] delivery_other [OF d, of ws "disconnect u v m" x]
    by (cases "v = ws") (auto simp: get_disconnect)
next
  case (CloseOne u v)
  then show ?thesis using delivery_gone [OF d, of ws x "close_one u v m"] delivery_other [OF d, of ws "close_one u v m" x]
    by (cases "v = ws") (auto simp: close_one_def get_disconnect mark_closed_frame)
next
  case (Evict v)
  then show ?thesis using delivery_mark_closed [OF d, of ws x "evict_one v m" v] by (simp add: evict_one_def mark_closed_frame)
next
  case (Beat v)
  then show ?thesis using delivery_other [OF d, of ws "send_heartbeat v m" x] by (simp add: send_heartbeat_def)
next
  case (Take v)
  show ?thesis
  proof (cases "v = ws \<and> get_state ws m \<noteq> None")
    case True
    then obtain s where s: "get_state ws m = Some s" by blast
    show ?thesis using take_moves [OF s] True s Take
      by (intro delivery_moved [OF d _ _ s]) (auto simp: flow_def pending_def writer_take_frame)
  next
    case False
    then have "get_state ws (writer_take v m) = get_state ws m"
      using writer_take_frame(1) [of v ws m] absent_socket(1) [of ws m] by (cases "v = ws") simp_all
    then show ?thesis using delivery_other [OF d] Take by (simp add: writer_take_frame)
  qed
next
  case (Done v res)
  show ?thesis
  proof (cases "v = ws \<and> get_state ws m \<noteq> None")
    case True
    then obtain s where s: "get_state ws m = Some s" by blast
    show ?thesis using done_moves [OF s, of res] True s Done by (intro delivery_moved [OF d _ _ s]) auto
  next
    case False
    then have "get_state ws (writer_done v res m) = get_state ws m" "texts ws (writer_done v res m) = texts ws m"
      using writer_done_frame [of v ws res m] absent_socket(2) [of ws m] by (cases "v = ws", simp_all)+
    then show ?thesis using delivery_other [OF d] Done by simp
  qed
next
  case (Receive now v)
  show ?thesis
  proof (cases "v = ws \<and> get_state ws m \<noteq> None")
    case True
    then obtain s where s: "get_state ws m = Some s" by blast
    show ?thesis using receive_moves [OF s, of cfg now] True s Receive
      by (intro delivery_moved [OF d _ _ s]) (auto simp: flow_def pending_def receive_frame)
  next
    case False
    then have "get_state ws (snd (check_recv_rate cfg now v m)) = get_state ws m"
      using receive_frame(1) [of v ws cfg now m] absent_socket(3) [of ws m] by (cases "v = ws") simp_all
    then show ?thesis using delivery_other [OF d] Receive by (simp add: receive_frame)
  qed
next
  case (Push u p)
  have f: "get_state ws (send_local cfg u p m) = (if ws \<in> set (conns_of u m)
      then map_option (\<lambda>s. if ss_closed s then s else enqueue cfg p s) (get_state ws m) else get_state ws m)"
    "texts ws (send_local cfg u p m) = texts ws m"
    unfolding send_local_def by (simp_all add: send_fold manager_okD(5) [OF ok])
  have away: "get_state ws m = None \<or> owner ws \<noteq> u" if "ws \<notin> set (conns_of u m)"
    using that manager_okD(2,3) [OF ok] by fastforce
  show ?thesis
  proof (cases "owner ws = u")
    case False
    then have "ws \<notin> set (conns_of u m)" using manager_okD(6) [OF ok] by blast
    then show ?thesis using delivery_other [OF d, of ws "send_local cfg u p m" x] f False Push by simp
  next
    case own: True
    show ?thesis
    proof (cases "\<exists>s. get_state ws m = Some s \<and> \<not> ss_closed s")
      case True
      then obtain s where s: "get_state ws m = Some s" "\<not> ss_closed s" by blast
      then show ?thesis using away f own Push
        by (intro delivery_published [OF d s manager_okD(4) [OF ok s(1)], of x p]) auto
    next
      case False
      then have same: "get_state ws (send_local cfg u p m) = get_state ws m" using f(1) by (cases "get_state ws m") auto
      show ?thesis using d [of ws] False same f(2) own Push
        by (auto simp: delivery_ok_def offered_snoc flow_def pending_def intro: list_emb_append2)
    qed
  qed
qed

section \<open>What the manager promises\<close>

lemma run_snoc [simp]: "run cfg (ops @ [x]) = apply_op cfg x (run cfg ops)"
  by (simp add: run_def)

lemma run_ok:
  assumes "legal owner ops"
  shows "manager_ok cfg owner (run cfg ops) \<and> (\<forall>ws. delivery_ok owner ops (run cfg ops) ws)"
  using assms
proof (induction rule: legal.induct)
  case legal_Nil
  then show ?case by (auto simp: run_def empty_manager_def manager_ok_def conns_of_def get_state_def tkeys_def delivery_ok_def
        flow_def pending_def texts_def offered_def)
next
  case (legal_snoc ops x)
  have "get_state ws (run cfg ops) = None" if "connects ws x" for ws
    using that legal_snoc.hyps(3) legal_snoc.IH by (auto simp: delivery_ok_def)
  then show ?case using legal_snoc apply_op_ok delivery_step by auto
qed

text \<open>
  C39. However the coroutines of a worker interleave: nobody has more open sockets than the cap, no queue
  grows past its bound, and what a socket got, gets and waits for are the events of its own user since it
  connected, in order. Of those an open socket misses exactly as many as its counter says, the newest
  events are the ones that still wait, and a slow one holds up nobody.
\<close>

theorem sockets_are_bounded_and_private:
  assumes "legal owner ops" and "0 < ws_max_sockets_per_user cfg"
  shows "int (length (conns_of u (run cfg ops))) \<le> ws_max_sockets_per_user cfg
    \<and> subseq (texts ws (run cfg ops)) (offered owner ws ops)
    \<and> (\<forall>s. get_state ws (run cfg ops) = Some s \<longrightarrow> ss_user s = owner ws \<and> length (ss_queue s) \<le> ws_send_queue_size cfg
        \<and> (\<not> ss_closed s \<longrightarrow> suffix (ss_queue s) (offered owner ws ops)
            \<and> length (texts ws (run cfg ops)) + length (in_flight s) + length (ss_queue s) + ss_dropped s = length (offered owner ws ops)))"
proof -
  note r = run_ok [OF assms(1), of cfg]
  have "int (length (conns_of u (run cfg ops))) \<le> ws_max_sockets_per_user cfg" using r assms(2) by (auto simp: manager_ok_def)
  moreover have "subseq (flow ws (run cfg ops)) (offered owner ws ops)" using r by (simp add: delivery_ok_def)
  then have "subseq (texts ws (run cfg ops)) (offered owner ws ops)" unfolding flow_def by (rule subseq_front)
  moreover have "length (flow ws (run cfg ops)) + ss_dropped s = length (offered owner ws ops) \<and> suffix (ss_queue s) (offered owner ws ops)"
    if "get_state ws (run cfg ops) = Some s" "\<not> ss_closed s" for s
    using r that by (auto simp: delivery_ok_def)
  ultimately show ?thesis using r by (auto simp: manager_ok_def flow_def pending_def)
qed

text \<open>A revoked user keeps no socket on the worker, and what is published for them later waits nowhere.\<close>

lemma mark_closed_conns [simp]: "conns_of u (mark_closed v m) = conns_of u m"
  by (simp add: mark_closed_def split: option.split)

lemma close_fold: "conns_of u (fold (close_one u) vs m) = fold remove1 vs (conns_of u m)"
  by (induction vs arbitrary: m) (simp_all add: close_one_def get_disconnect)

lemma fold_remove_self: "fold remove1 xs xs = []"
  by (induction xs) simp_all

lemma revoked_user_has_no_socket:
  "conns_of u (close_local u m) = [] \<and> send_local cfg u payload (close_local u m) = close_local u m"
  by (simp add: send_local_def close_local_def close_fold fold_remove_self)

text \<open>After a sweep of the reaper no open socket is older than the cap; the ones it closed get nothing more.\<close>

lemma evict_fold: "get_state ws (fold (\<lambda>s. evict_one (ss_ws s)) ss m) =
    (if ws \<in> ss_ws ` set ss then map_option (\<lambda>s. s \<lparr> ss_closed := True \<rparr>) (get_state ws m) else get_state ws m)"
  by (induction ss arbitrary: m) (auto simp: evict_one_def mark_closed_frame option.map_comp comp_def)

theorem sweep_leaves_no_old_socket:
  assumes "get_state ws (snd (evict_expired_once cfg now m)) = Some s" and "\<not> ss_closed s" and "ss_auth_date s = Some t"
  shows "now - ws_max_age_seconds cfg \<le> t"
proof -
  have g: "get_state ws m = Some s" "ws \<notin> ss_ws ` set (expired_states cfg now m)"
    using assms(1,2) by (auto simp: evict_expired_once_def Let_def evict_fold split: if_splits)
  then have "s \<in> set (m_states m)" "s \<notin> set (expired_states cfg now m)" by (auto simp: get_state_def dest: tget_Some)
  then show ?thesis using assms(2,3) by (simp add: expired_states_def)
qed

section \<open>The other workers\<close>

text \<open>
  A message travels as text; \<open>loads\<close> is what its reader makes of it. An event goes through Redis to the
  workers whose listener runs; without Redis, or when publishing fails, to the worker that has it.
\<close>

datatype channel = WS_CHANNEL | WS_INVALIDATE_CHANNEL

record worker =
  wk_manager :: manager
  wk_listening :: bool

record envelopes =
  en_dumps :: "int \<Rightarrow> string \<Rightarrow> string"
  en_loads :: "string \<Rightarrow> (int \<times> string) option"
  en_dumps_user :: "int \<Rightarrow> string"
  en_loads_user :: "string \<Rightarrow> int option"

definition WS_MAX_ENVELOPE_BYTES :: nat where "WS_MAX_ENVELOPE_BYTES = 64 * 1024"

definition listen_message :: "ws_settings \<Rightarrow> envelopes \<Rightarrow> channel \<Rightarrow> string \<Rightarrow> manager \<Rightarrow> manager" where
  "listen_message cfg en ch raw m =
     (if WS_MAX_ENVELOPE_BYTES < length raw then m
      else case ch of
        WS_INVALIDATE_CHANNEL \<Rightarrow> (case en_loads_user en raw of None \<Rightarrow> m | Some u \<Rightarrow> close_local u m)
      | WS_CHANNEL \<Rightarrow> (case en_loads en raw of None \<Rightarrow> m | Some (u, payload) \<Rightarrow> send_local cfg u payload m))"

datatype redis_outcome = NoRedis | PublishFailed | Published

definition at_worker :: "(manager \<Rightarrow> manager) \<Rightarrow> worker \<Rightarrow> worker" where
  "at_worker f k = k \<lparr> wk_manager := f (wk_manager k) \<rparr>"

definition all_listeners :: "(manager \<Rightarrow> manager) \<Rightarrow> worker list \<Rightarrow> worker list" where
  "all_listeners f = map (\<lambda>k. if wk_listening k then at_worker f k else k)"

definition publish :: "ws_settings \<Rightarrow> envelopes \<Rightarrow> redis_outcome \<Rightarrow> nat \<Rightarrow> int \<Rightarrow> string \<Rightarrow> worker list \<Rightarrow> worker list" where
  "publish cfg en r i u payload ks =
     (if r = Published then all_listeners (listen_message cfg en WS_CHANNEL (en_dumps en u payload)) ks
      else ks[i := at_worker (send_local cfg u payload) (ks ! i)])"

definition invalidate_user :: "ws_settings \<Rightarrow> envelopes \<Rightarrow> redis_outcome \<Rightarrow> nat \<Rightarrow> int \<Rightarrow> worker list \<Rightarrow> worker list" where
  "invalidate_user cfg en r i u ks =
     (if r = Published then all_listeners (listen_message cfg en WS_INVALIDATE_CHANNEL (en_dumps_user en u)) ks
      else ks[i := at_worker (close_local u) (ks ! i)])"

text \<open>What is written can be read back, and fits.\<close>

definition envelopes_ok :: "envelopes \<Rightarrow> bool" where
  "envelopes_ok en \<longleftrightarrow> (\<forall>u p. en_loads en (en_dumps en u p) = Some (u, p))
     \<and> (\<forall>u. en_loads_user en (en_dumps_user en u) = Some u \<and> length (en_dumps_user en u) \<le> WS_MAX_ENVELOPE_BYTES)"

text \<open>
  Through Redis an event reaches the user's open sockets of exactly the workers that listen, and a revocation
  leaves the user no socket there; an event that is too large reaches nobody.
\<close>

theorem events_reach_listening_workers:
  assumes en: "envelopes_ok en" and k: "k < length ks" "ks ! k = wk"
  shows "publish cfg en Published i u payload ks ! k =
      (if wk_listening wk \<and> length (en_dumps en u payload) \<le> WS_MAX_ENVELOPE_BYTES then at_worker (send_local cfg u payload) wk else wk)
    \<and> (wk_listening wk \<longrightarrow> conns_of u (wk_manager (invalidate_user cfg en Published i u ks ! k)) = [])"
proof -
  have "\<not> WS_MAX_ENVELOPE_BYTES < length (en_dumps_user en u)" using en by (simp add: envelopes_ok_def not_less)
  then show ?thesis using assms revoked_user_has_no_socket
    by (simp add: publish_def invalidate_user_def all_listeners_def listen_message_def envelopes_ok_def at_worker_def)
qed

section \<open>The listener\<close>

text \<open>
  The supervisor's loop: a listening session ends, it sleeps, it tries to subscribe again. The pause is
  \<open>min(30, 0.5 * 2 ** (n - 1))\<close> after \<open>n\<close> failures in a row: the power is an integer, and a product of a float
  with an integer of \<open>2 ** 1024\<close> or more is an \<open>OverflowError\<close>, which nothing catches.
\<close>

datatype retry = RedisGone | SubscribeFailed | Resubscribed

definition WS_LISTEN_BACKOFF_BASE :: rat where "WS_LISTEN_BACKOFF_BASE = 1 / 2"
definition WS_LISTEN_BACKOFF_CAP :: rat where "WS_LISTEN_BACKOFF_CAP = 30"

definition listen_delay :: "nat \<Rightarrow> rat option" where
  "listen_delay n = (if (2::nat) ^ 1024 \<le> 2 ^ (n - 1) then None
     else Some (min WS_LISTEN_BACKOFF_CAP (WS_LISTEN_BACKOFF_BASE * 2 ^ (n - 1))))"

text \<open>The failures in a row and the seconds slept; \<open>None\<close> when the task has died.\<close>

primrec listen_supervisor :: "retry list \<Rightarrow> nat \<Rightarrow> rat \<Rightarrow> (nat \<times> rat) option" where
  "listen_supervisor [] failures slept = Some (failures, slept)"
| "listen_supervisor (r # rs) failures slept =
     (case listen_delay (failures + 1) of None \<Rightarrow> None
      | Some d \<Rightarrow> listen_supervisor rs (if r = Resubscribed then 0 else failures + 1) (slept + d))"

definition total_delay :: "nat \<Rightarrow> rat" where
  "total_delay n = sum_list (map (\<lambda>k. min 30 (1 / 2 * 2 ^ k)) [0..<n])"

lemma total_delay_Suc: "total_delay (Suc n) = total_delay n + min 30 (1 / 2 * 2 ^ n)"
  by (simp add: total_delay_def)

lemma listen_delay_eq: "listen_delay (n + 1) = (if 1024 \<le> n then None else Some (min 30 (1 / 2 * 2 ^ n)))"
proof -
  have "(2::nat) ^ 1024 \<le> 2 ^ n \<longleftrightarrow> 1024 \<le> n" by (rule power_increasing_iff) simp
  then show ?thesis unfolding listen_delay_def WS_LISTEN_BACKOFF_BASE_def WS_LISTEN_BACKOFF_CAP_def add_diff_cancel_right' by presburger
qed

lemma supervisor_alive:
  assumes "\<forall>r \<in> set rs. r \<noteq> Resubscribed" and "n + length rs \<le> 1024"
  shows "listen_supervisor rs n (total_delay n) = Some (n + length rs, total_delay (n + length rs))"
  using assms
proof (induction rs arbitrary: n)
  case (Cons r rs)
  then show ?case using Cons.IH [of "Suc n"] listen_delay_eq [of n] by (auto simp: total_delay_Suc)
qed simp

lemma supervisor_append: "listen_supervisor (rs @ qs) n t =
    (case listen_supervisor rs n t of None \<Rightarrow> None | Some (k, t') \<Rightarrow> listen_supervisor qs k t')"
  by (induction rs arbitrary: n t) (simp_all split: option.splits)

lemma total_delay_late: "total_delay (6 + n) = 63 / 2 + 30 * of_nat n"
proof (induction n)
  case 0
  show ?case by (simp add: total_delay_def upt_rec)
next
  case (Suc n)
  have "(1::rat) \<le> 2 ^ n" by simp
  then have "(32::rat) \<le> 1 / 2 * 2 ^ (6 + n)" unfolding power_add by simp
  then have "min 30 (1 / 2 * 2 ^ (6 + n)) = (30::rat)" by (intro min_absorb1) linarith
  then show ?case using Suc by (simp only: add_Suc_right total_delay_Suc) (simp add: algebra_simps)
qed

text \<open>
  C40. The supervisor is there so that a worker never stays deaf. It survives any 1024 failed attempts, with
  pauses of at most thirty seconds, and starts afresh once it subscribes. But the attempt after that raises in
  the computation of the pause and the task is gone: an outage of Redis of about eight and a half hours leaves every
  worker deaf for good, while publishing works again.
\<close>

theorem listener_dies_in_a_long_outage:
  assumes "\<forall>r \<in> set rs. r \<noteq> Resubscribed"
  shows "listen_supervisor rs 0 0 = (if length rs \<le> 1024 then Some (length rs, total_delay (length rs)) else None)
    \<and> (length rs \<le> 1023 \<longrightarrow> (\<exists>t. listen_supervisor (rs @ [Resubscribed]) 0 0 = Some (0, t)))
    \<and> total_delay 1024 = 61143 / 2"
proof -
  have start: "total_delay 0 = 0" by (simp add: total_delay_def)
  have early: "listen_supervisor qs 0 0 = Some (length qs, total_delay (length qs))" if "length qs \<le> 1024" "\<forall>r \<in> set qs. r \<noteq> Resubscribed" for qs
    using supervisor_alive [OF that(2), of 0] that(1) start by simp
  have late: "listen_supervisor rs 0 0 = None" if "1024 < length rs"
  proof -
    have "listen_supervisor (take 1024 rs) 0 0 = Some (1024, total_delay 1024)"
      using early [of "take 1024 rs"] assms that by (auto dest: in_set_takeD)
    moreover have "drop 1024 rs \<noteq> []" using that by simp
    then obtain b bs where "drop 1024 rs = b # bs" by (meson neq_Nil_conv)
    ultimately have "listen_supervisor (take 1024 rs @ drop 1024 rs) 0 0 = None"
      using listen_delay_eq [of 1024] by (simp only: supervisor_append) simp
    then show ?thesis by (simp only: append_take_drop_id)
  qed
  have "\<exists>t. listen_supervisor (rs @ [Resubscribed]) 0 0 = Some (0, t)" if "length rs \<le> 1023"
    using that early [of rs] assms listen_delay_eq [of "length rs"] by (simp add: supervisor_append)
  moreover have "total_delay 1024 = 61143 / 2" using total_delay_late [of 1018] by simp
  ultimately show ?thesis using early [of rs] late assms by auto
qed

section \<open>The endpoint\<close>

text \<open>The first frame of a client: none in time, a disconnect, or a text. A document is read down to the two
  fields that count, each only when it is a string.\<close>

datatype first_frame = AuthTimeout | Disconnected | Received string

datatype ws_document = WsObject "string option" "string option" | WsOther

definition WS_AUTH_MAX_BYTES :: nat where "WS_AUTH_MAX_BYTES = 8 * 1024"

datatype handshake_end = Refused int string | Gone | Crashed py_error | Admitted int "int option"

definition read_auth_frame :: "(string \<Rightarrow> ws_document option) \<Rightarrow> first_frame \<Rightarrow> handshake_end + string" where
  "read_auth_frame loads f =
     (case f of
        AuthTimeout \<Rightarrow> Inl (Refused 4001 ''Auth timeout'') | Disconnected \<Rightarrow> Inl Gone
      | Received raw \<Rightarrow>
          if WS_AUTH_MAX_BYTES < length raw then Inl (Refused 4001 ''Auth payload too large'')
          else (case loads raw of
              None \<Rightarrow> Inl (Refused 4001 ''Auth: invalid JSON'') | Some WsOther \<Rightarrow> Inl (Refused 4001 ''Auth: bad envelope'')
            | Some (WsObject ty init_data) \<Rightarrow>
                if ty \<noteq> Some ''auth'' then Inl (Refused 4001 ''Auth: bad envelope'')
                else if falsy init_data then Inl (Refused 4001 ''Auth: missing init_data'') else Inr (the init_data)))"

definition parse_auth_date :: "string \<Rightarrow> int option" where
  "parse_auth_date init_data = (case map_of (parse_qs init_data) ''auth_date'' of None \<Rightarrow> None | Some raw \<Rightarrow> python_int raw)"

definition ws_first_touch :: "int \<Rightarrow> int \<Rightarrow> tg_user \<Rightarrow> world \<Rightarrow> (user \<times> bool) result" where
  "ws_first_touch now tg t w =
     (case user_with_tg tg w of
        Some u \<Rightarrow> (Inr (u, False), w)
      | None \<Rightarrow> (case ensure_user_row tg t now (normalise_language_code (tg_language_code t)) False None w of
            (Inl e, w1) \<Rightarrow> (Inl e, w1) | (Inr u, w1) \<Rightarrow> (Inr (u, True), w1)))"

definition handshake ::
  "telegram \<Rightarrow> login_env \<Rightarrow> (string \<Rightarrow> ws_document option) \<Rightarrow> int \<Rightarrow> first_frame \<Rightarrow> world \<Rightarrow> handshake_end \<times> world" where
  "handshake tg env loads now f w =
     (case read_auth_frame loads f of Inl r \<Rightarrow> (r, w)
      | Inr init_data \<Rightarrow> (case verify_init_data tg env now init_data of
          Inl (InitDataError m) \<Rightarrow> (Refused 4001 m, w)
        | Inl JSONDecodeError \<Rightarrow> (Crashed (ValueErr (E_other ''JSONDecodeError'')), w)
        | Inr JOther \<Rightarrow> (Crashed (RuntimeErr (E_other ''AttributeError'')), w)
        | Inr (JObject t) \<Rightarrow>
            (case tg_id t of None \<Rightarrow> (Refused 4001 ''No user id'', w)
             | Some i \<Rightarrow>
                 if i = 0 then (Refused 4001 ''No user id'', w)
                 else (case ws_first_touch now i t w of
                     (Inl (RuntimeErr _), w1) \<Rightarrow> (Refused 1011 ''Server error'', w1)
                   | (Inl e, w1) \<Rightarrow> (Crashed e, w1)
                   | (Inr (u, was_new), w1) \<Rightarrow>
                       if u_is_banned u \<or> u_is_frozen u then (Refused 4003 ''Account is locked out'', w1)
                       else (Admitted (u_id u) (parse_auth_date init_data), w1)))))"

text \<open>After the handshake the client is told so, and then the socket is registered: what other requests do to
  the worker in between is an argument.\<close>

definition open_socket :: "ws_settings \<Rightarrow> handshake_end \<Rightarrow> int \<Rightarrow> (manager \<Rightarrow> manager) \<Rightarrow> manager \<Rightarrow> manager" where
  "open_socket cfg h ws others m =
     (case h of Admitted u auth \<Rightarrow> connect cfg u ws auth (others m) | Refused code reason \<Rightarrow> on_wire ws (Close code) (others m) | _ \<Rightarrow> others m)"

text \<open>A frame the client sends later: whether the loop goes on.\<close>

definition receive_frame_loop :: "ws_settings \<Rightarrow> rat \<Rightarrow> int \<Rightarrow> string \<Rightarrow> manager \<Rightarrow> bool \<times> manager" where
  "receive_frame_loop cfg now ws raw m =
     (case check_recv_rate cfg now ws m of (fine, m1) \<Rightarrow>
        if \<not> fine then (False, on_wire ws (Close 4008) m1)
        else if WS_AUTH_MAX_BYTES < length raw then (False, on_wire ws (Close 1009) m1) else (True, m1))"

lemma frame_admits_nobody: "read_auth_frame loads f \<noteq> Inl (Admitted i auth)"
  by (auto simp: read_auth_frame_def split: first_frame.split option.split ws_document.split)

text \<open>
  A socket is opened for data signed with the bot's token and recent only, under the row of the signed id, which
  was neither banned nor frozen; the age it is given is the signed one, so the reaper will not overlook it.
\<close>

theorem socket_needs_signature:
  assumes run: "handshake tg env loads now f w = (Admitted i auth, w1)" and prod: "\<not> le_allow_unsigned_init_data env"
    and keys: "tkeys u_id (t_users w)" "\<forall>x \<in> set (t_users w). u_id x < seq_users w"
  shows "\<exists>init d t u. map_of (parse_qs init) ''hash'' = Some (signature_of tg env (filter (\<lambda>p. fst p \<noteq> ''hash'') (parse_qs init)))
    \<and> auth = Some d \<and> d \<le> now + 300 \<and> now \<le> d + le_init_data_max_age_seconds env
    \<and> verify_init_data tg env now init = Inr (JObject t) \<and> get_user i w1 = Some u \<and> tg_id t = Some (u_tg_user_id u)
    \<and> \<not> u_is_banned u \<and> \<not> u_is_frozen u"
proof -
  obtain init t j u b where v: "verify_init_data tg env now init = Inr (JObject t)" "tg_id t = Some j"
    and touch: "ws_first_touch now j t w = (Inr (u, b), w1)" "\<not> u_is_banned u" "\<not> u_is_frozen u" "i = u_id u" "auth = parse_auth_date init"
    using run by (auto simp: handshake_def frame_admits_nobody split: sum.splits init_data_error.splits json_doc.splits option.splits if_splits prod.splits py_error.splits)
  have "get_user i w1 = Some u \<and> u_tg_user_id u = j"
  proof (cases "user_with_tg j w")
    case None
    have "tget u_id (seq_users w) (t_users w) = None" using keys(2) by (force simp: tget_None_iff)
    then show ?thesis using touch None
      by (auto simp: ws_first_touch_def ensure_user_row_def get_user_def tget_append new_user_row_def Let_def split: if_splits)
  next
    case (Some x)
    then show ?thesis using touch user_with_tg_in [OF Some] get_user_member keys(1) by (auto simp: ws_first_touch_def)
  qed
  moreover have "map_of (filter (\<lambda>p. fst p \<noteq> ''hash'') ps) ''auth_date'' = map_of ps ''auth_date''" for ps :: "(string \<times> string) list"
    by (induction ps) auto
  ultimately show ?thesis using v touch prod
    by (intro exI [of _ init]) (auto simp: verify_init_data_def parse_auth_date_def falsy_def Let_def split: if_splits option.splits)
qed

text \<open>A ban that is decided, and a revocation that runs, between the handshake and the registration miss the
  socket: it is opened all the same and gets the user's events.\<close>

lemma revocation_misses_a_handshake:
  assumes "get_state ws m = None" and "0 < ws_max_sockets_per_user cfg" and "0 < ws_send_queue_size cfg" and "m_connections m u = None"
  shows "\<exists>s. get_state ws (send_local cfg u payload (open_socket cfg (Admitted u auth) ws (close_local u) m)) = Some s
    \<and> \<not> ss_closed s \<and> ss_queue s = [payload]"
  using assms
  by (simp add: open_socket_def close_local_def conns_of_def send_local_def connect_def Let_def offer_def get_state_def tget_append
      put_state_def tget_tput enqueue_def deque_append_def)

section \<open>Instances\<close>

definition sample_ops :: "ws_op list" where
  "sample_ops = [Connect 1 7 (Some 100), Push 1 ''a'', Push 2 ''x'', Take 7, Done 7 Sent, Push 1 ''b'']"

lemma sample_ops_legal: "legal (\<lambda>_. 1) sample_ops"
proof -
  have one: "legal (\<lambda>_. 1) [Connect 1 7 (Some 100)]" using legal_snoc [OF legal_Nil, of "\<lambda>_. 1" "Connect 1 7 (Some 100)"] by simp
  have more: "legal (\<lambda>_. 1) (ops @ [x])" if "legal (\<lambda>_. 1) ops" "\<forall>ws. \<not> connects ws x" "owned (\<lambda>_. 1) x" for ops x
    using legal_snoc [OF that(1,3)] that(2) by simp
  show ?thesis
    using more [OF more [OF more [OF more [OF more [OF one, of "Push 1 ''a''"], of "Push 2 ''x''"], of "Take 7"], of "Done 7 Sent"], of "Push 1 ''b''"]
    by (simp add: sample_ops_def)
qed

lemma sample_run_socket: "texts 7 (run default_ws_settings sample_ops) = [''a'']"
  by (simp add: run_def sample_ops_def empty_manager_def connect_def conns_of_def send_local_def offer_def get_state_def put_state_def
      enqueue_def deque_append_def writer_take_def writer_done_def on_wire_def texts_def new_state_def default_ws_settings_def Let_def)

lemma sockets_are_bounded_and_private_witness:
  "int (length (conns_of 1 (run default_ws_settings sample_ops))) \<le> 5 \<and> texts 7 (run default_ws_settings sample_ops) = [''a'']
   \<and> subseq (texts 7 (run default_ws_settings sample_ops)) [''a'', ''b'']"
proof -
  have "offered (\<lambda>_. 1) 7 sample_ops = [''a'', ''b'']" by (simp add: offered_def sample_ops_def)
  then show ?thesis
    using sockets_are_bounded_and_private [OF sample_ops_legal, of default_ws_settings 1 7] sample_run_socket
    by (simp add: default_ws_settings_def)
qed

lemma listener_dies_in_a_long_outage_witness:
  "listen_supervisor (replicate 1025 RedisGone) 0 0 = None \<and> listen_supervisor [RedisGone, SubscribeFailed] 0 0 = Some (2, 3 / 2)"
proof -
  have "\<forall>r \<in> set (replicate 1025 RedisGone). r \<noteq> Resubscribed" "\<forall>r \<in> set [RedisGone, SubscribeFailed]. r \<noteq> Resubscribed" by simp_all
  note dies = this(1) [THEN listener_dies_in_a_long_outage] and lives = this(2) [THEN listener_dies_in_a_long_outage]
  have "total_delay (length [RedisGone, SubscribeFailed]) = 3 / 2" by (simp add: total_delay_def upt_rec)
  then show ?thesis using dies lives by (simp del: listen_supervisor.simps)
qed

end
