(* ===== verification/System.thy ===== *)
theory System
  imports Evolution Sockets
begin

text \<open>
  The program as one labelled transition system. \<open>step m w w'\<close> is one transaction of one operation, whatever
  its arguments and whether it returns or raises; an operation with several transactions is one
  step for each. No rule leaves a call out: the label \<open>m\<close> says what kind of step the call makes from
  the database it finds. The premises are conditions of the code itself: what the request schemas refuse, and the
  branch of a handler that reaches its second transaction.
\<close>

section \<open>Labels\<close>

text \<open>
  \<open>Sound\<close>: the books stay balanced and the ledger explains the change. \<open>Off_ledger\<close>: the books stay balanced,
  but the ledger does not tell the whole change (nothing is written, a deal or the entries of a user are deleted, or a trust deposit is
  written as if it were wallet money). The others are the calls for which nothing is promised: arbitration
  forced on a deal without escrow; a payout that trusts an object an earlier transaction
  read although its row has changed; a withdrawal, correction or price that has more than eight decimals; a
  provider that reports a negative payment; an edit that cuts the decimals of a currency or gives it more than
  eight; and a row whose currency is gone, which the foreign keys exclude.
\<close>

datatype mark = Sound | Off_ledger | Unfunded_arbitration | Stale_object | Unrounded_amount | Negative_report
  | Currency_precision | Dangling_reference

definition report_mark :: "wallet_deposit \<Rightarrow> pydecimal option \<Rightarrow> mark" where
  "report_mark dep p =
     (case dep_purpose dep of
        P_wallet \<Rightarrow> Sound
      | P_trust \<Rightarrow> Off_ledger
      | P_deal_topup \<Rightarrow> (case finite_amount p of None \<Rightarrow> Sound | Some x \<Rightarrow> if x < 0 then Negative_report else Sound))"

definition delivery_mark :: "WalletDepositProvider \<Rightarrow> string option \<Rightarrow> webhook_payload \<Rightarrow> world \<Rightarrow> mark" where
  "delivery_mark provider i payload w =
     (case delivered provider i w of None \<Rightarrow> Sound | Some dep \<Rightarrow> report_mark dep (parse_paid_amount (wp_amount payload)))"

definition poll_mark :: "wallet_deposit \<Rightarrow> world \<Rightarrow> mark" where
  "poll_mark dep w = (case get_deposit (dep_id dep) w of None \<Rightarrow> Sound | Some row \<Rightarrow> report_mark row None)"

definition amount_mark :: "mark \<Rightarrow> decimal \<Rightarrow> mark" where
  "amount_mark m x = (if storable x then m else Unrounded_amount)"

definition sent_mark :: "wallet_withdrawal \<Rightarrow> decimal \<Rightarrow> world \<Rightarrow> mark" where
  "sent_mark x amount w =
     (case get_withdrawal (wd_id x) w of
        None \<Rightarrow> Sound
      | Some row \<Rightarrow> if wd_status row = WS_pending \<and> wd_amount row \<noteq> amount then Unrounded_amount else Sound)"

definition failed_mark :: "user \<Rightarrow> currency \<Rightarrow> decimal \<Rightarrow> wallet_withdrawal \<Rightarrow> world \<Rightarrow> mark" where
  "failed_mark u cur amount x w =
     (case get_withdrawal (wd_id x) w of
        None \<Rightarrow> Sound
      | Some row \<Rightarrow> if wd_status row = WS_pending \<and> wd_user_id row = u_id u \<and> wd_currency_id row = c_id cur \<and> wd_amount row = amount
                    then Sound else Stale_object)"

text \<open>A later transaction on an object \<open>x\<close> whose status was \<open>st\<close> when it was read.\<close>

definition object_mark :: "mark \<Rightarrow> WalletWithdrawStatus \<Rightarrow> wallet_withdrawal \<Rightarrow> world \<Rightarrow> mark" where
  "object_mark m st x w =
     (case get_withdrawal (wd_id x) w of
        None \<Rightarrow> m
      | Some row \<Rightarrow> if wd_status x = st \<and> \<not> (same_withdrawal row x \<and> withdrawal_open (wd_status row)) then Stale_object else m)"

definition arbitration_mark :: "int \<Rightarrow> world \<Rightarrow> mark" where
  "arbitration_mark i w =
     (case get_deal i w of
        None \<Rightarrow> Sound
      | Some d \<Rightarrow> if d_status d = pending_topup \<or> d_status d = pending_payment then Unfunded_arbitration else Sound)"

definition deletion_mark :: "int \<Rightarrow> world \<Rightarrow> mark" where
  "deletion_mark i w =
     (case get_deal i w of
        None \<Rightarrow> Sound
      | Some d \<Rightarrow> if get_currency (d_currency_id d) w = None then Dangling_reference else Off_ledger)"

text \<open>What the unique and the foreign keys say of the currencies.\<close>

definition currency_rows_ok :: "world \<Rightarrow> bool" where
  "currency_rows_ok w \<longleftrightarrow> seq_currencies w \<notin> set (map c_id (t_currencies w))
     \<and> list_all (\<lambda>d. get_currency (d_currency_id d) w \<noteq> None) (t_deals w)"

definition currency_mark :: "currency_upsert \<Rightarrow> world \<Rightarrow> mark" where
  "currency_mark b w =
     (if cuts_decimals b w \<or> (case cu_decimals b of None \<Rightarrow> False | Some n \<Rightarrow> MONEY_SCALE < nat n) then Currency_precision
      else if currency_rows_ok w then Sound else Dangling_reference)"

section \<open>Steps\<close>

inductive step :: "mark \<Rightarrow> world \<Rightarrow> world \<Rightarrow> bool" where
  create: "step Sound w (snd (create_deal now b s code amount desc prov w))"
| create_topup: "step Sound w (snd (create_deal_with_topup now cfg api b s code amount desc prov w))"
| accept: "step Sound w (snd (accept_deal_endpoint now i u w))"
| decline: "step Sound w (snd (decline_deal_endpoint now i u w))"
| finish: "step Sound w (snd (finish_deal_endpoint now i u w))"
| cancel_request: "step Sound w (snd (cancel_request_endpoint now i reason u w))"
| cancel_revoke: "step Sound w (snd (cancel_revoke_endpoint now i u w))"
| cancel_accept: "step Sound w (snd (cancel_accept_endpoint now i u w))"
| debate: "step Sound w (snd (debate_endpoint now i reason u w))"
| resolve: "step Sound w (snd (resolve_endpoint now i winner remark u w))"
| cancel_topup: "step Sound w (snd (cancel_topup_endpoint now i u w))"
| inactivity: "step Sound w (snd (sweep_inactivity now skip w))"
| topup_expiry: "step Sound w (snd (sweep_pending_topup now skip w))"
| deposit_expiry: "step Sound w (snd (sweep_expired_deposits now cfg skip w))"
| invoice: "0 < amount \<Longrightarrow> step Sound w (snd (create_deposit_invoice_commit now cfg api u code amount purpose prov w))"
| invoice_paid: "step (delivery_mark cryptobot (wp_invoice_id payload) payload w) w (snd (handle_invoice_paid now cfg api payload w))"
| invoice_expired: "step Sound w (snd (handle_invoice_expired now payload w))"
| crystalpay_invoice: "step (delivery_mark crystalpay (crystalpay_provider_id payload) payload w) w
    (snd (handle_crystalpay_invoice now cfg api payload w))"
| poll: "step (poll_mark dep w) w (snd (poll_deposit_status now cfg api dep w))"
| mark_deposit: "step Off_ledger w (snd (mark_paid now admin reason i w))"
| refund_deposit: "step Off_ledger w (snd (refund_deposit now admin reason i w))"
| withdraw: "0 < amount \<Longrightarrow> step (amount_mark Sound amount) w (snd (create_withdrawal_phase1 now cfg worker u code amount address w))"
| withdraw_sent: "step (sent_mark x amount w) w (snd (withdrawal_sent now u cur amount x tr w))"
| withdraw_failed: "withdrawal_auto_failed_refund now u cur amount x w = Some (x', w') \<Longrightarrow> step (failed_mark u cur amount x w) w w'"
| withdraw_queue: "step Sound w (withdrawal_queue now u cur amount x w)"
| decide: "dec_action body = ''approve'' \<longrightarrow> \<not> is_cryptopay_configured cfg \<Longrightarrow>
    step Sound w (snd (decide_withdrawal now cfg api admin i body others w))"
| approve: "decision_target i w = Inr (x, cur, u) \<Longrightarrow> wd_status x = WS_pending \<Longrightarrow>
    step Sound w (save_withdrawal (approve_withdrawal_row remark x) w)"
| approved_sent: "step (object_mark Sound WS_approved x w) w (snd (approve_phase3 now admin remark x cur tr w))"
| approved_failed: "step Sound w (approve_failed admin remark x cur w)"
| reconcile: "reconcile_withdrawal now c transfer w = Inr (r, w') \<Longrightarrow> step (object_mark Off_ledger WS_pending c w) w w'"
| adjust: "step (amount_mark Sound delta) w (snd (adjust_user_balance admin i code delta reason w))"
| pin_reset: "step (amount_mark Off_ledger (pin_reset_price_of w)) w (snd (pin_reset_paid now acfg cr code told u w))"
| force_release: "step Sound w (snd (force_release now thr admin i body w))"
| force_refund: "step Sound w (snd (force_refund now thr admin i body w))"
| split: "0 \<le> p \<Longrightarrow> p \<le> 100 \<Longrightarrow> step Sound w (snd (split_deal now thr admin i p body w))"
| approve_request: "step Sound w (snd (approve_deal_approval now j admin w))"
| reject_request: "step Sound w (snd (reject_deal_approval now j admin w))"
| assign: "step Sound w (snd (assign_arbiter now admin i a w))"
| force_arbitration: "step (arbitration_mark i w) w (snd (force_arbitration now admin i reason w))"
| delete: "step (deletion_mark i w) w (snd (delete_deal now admin i reason w))"
| edit_currency: "step (currency_mark b w) w (snd (upsert_currency rc admin b w))"
| drop_currency: "step Sound w (snd (delete_currency admin i w))"
| transfer: "confirm_locked acfg cr now target code row w = Inr (s, w') \<Longrightarrow> step Off_ledger w w'"
| elsewhere: "same_books w' w \<Longrightarrow> step Sound w w'"

abbreviation safe :: "mark \<Rightarrow> bool" where
  "safe m \<equiv> m = Sound \<or> m = Off_ledger"

abbreviation sound :: "mark \<Rightarrow> bool" where
  "sound m \<equiv> m = Sound"

section \<open>Every step keeps the books\<close>

lemma pin_reset_books:
  assumes "books_ok w" and "storable (pin_reset_price_of w)"
  shows "books_ok (snd (pin_reset_paid now acfg cr code told u0 w))"
proof (cases "lock_user_for_pin u0 w")
  case (Inr u)
  show ?thesis
  proof (cases "currency_with_code ''USD'' w")
    case (Some usd)
    let ?p = "pin_reset_price_of w"
    obtain b w1 where l: "lock_user_balance (u_id u) (c_id usd) w = Inr (b, w1)" using lock_user_balance_total by blast
    let ?v = "snd (mint_and_send_reset_code now acfg cr code told u w)"
      and ?w = "snd (mint_and_send_reset_code now acfg cr code told u (save_balance (b \<lparr> b_amount := b_amount b - ?p \<rparr>) w1))"
    have "storable (0 - ?p)" using assms(2) by (intro grid) simp_all
    then have st: "storable (- ?p)" by simp
    have "same_books ?w (save_balance (b \<lparr> b_amount := b_amount b + - ?p \<rparr>) w1)" by simp
    note f = free_write_books [OF assms(1) l st _ this]
    have "same_books ?v w" by simp
    then have v: "books_ok ?v" using same_booksD(4) assms(1) by blast
    show ?thesis
    proof (cases "?p \<le> 0 \<or> b_amount b < ?p")
      case True
      then show ?thesis using v assms(1) Inr Some l
        by (auto simp: pin_reset_paid_def usd_currency_or_404_def Let_def mint_and_send_reset_code_def)
    next
      case False
      then show ?thesis using f Inr Some l
        by (simp add: pin_reset_paid_def usd_currency_or_404_def Let_def mint_and_send_reset_code_def)
    qed
  qed (use Inr assms(1) in \<open>simp add: pin_reset_paid_def usd_currency_or_404_def Let_def\<close>)
qed (simp add: pin_reset_paid_def assms(1))

lemma transfer_books:
  assumes "books_ok w" and "confirm_locked acfg cr now target code row w = Inr (s, w')"
  shows "books_ok w'"
proof -
  obtain source w1 where t: "delete_user (u_id target) w = Inr w1" "\<not> has_tradable_data target w"
    and w': "same_books w' w1"
    using assms(2) save_user_same_books
    by (auto simp: confirm_locked_def Let_def same_books_def save_code_def save_user_def split: if_splits option.splits sum.splits)
  show ?thesis using delete_shell_books [OF t assms(1)] same_booksD(4) [OF w'] by simp
qed

lemma deletion_books:
  assumes "books_ok w" and "safe (deletion_mark i w)"
  shows "books_ok (snd (delete_deal now admin i reason w))"
  using delete_deal_effect [OF assms(1), where now = now and admin = admin and i = i and reason = reason] assms
  by (auto simp: deletion_mark_def split: prod.splits sum.splits if_splits option.splits)

lemma tget_filter_other: "j \<noteq> i \<Longrightarrow> tget key j (filter (\<lambda>x. key x \<noteq> i) xs) = tget key j xs"
  by (induction xs) auto

lemma drop_currency_books:
  assumes "books_ok w" shows "books_ok (snd (delete_currency admin i w))"
proof (cases "get_currency i w = None \<or> blockers i w \<noteq> [] \<or> i \<in> set (other_currency_keys w)")
  case True
  then show ?thesis using assms by (auto simp: delete_currency_def split: option.split)
next
  case False
  let ?w = "w \<lparr> t_currencies := filter (\<lambda>x. c_id x \<noteq> i) (t_currencies w) \<rparr>"
  have free: "d_currency_id d \<noteq> i" if "d \<in> set (t_deals w)" for d
    using False that by (auto simp: blockers_def CURRENCY_REFERENCES_def)
  have get: "get_currency j ?w = get_currency j w" if "j \<noteq> i" for j
    using tget_filter_other [OF that] by (simp add: get_currency_def)
  have "deal_ok ?w d" if "d \<in> set (t_deals w)" for d
    using assms that get free [OF that] by (auto simp: books_ok_def deals_ok_def list_all_iff deal_ok_def)
  moreover have "currencies_ok ?w" using assms by (auto simp: books_ok_def currencies_ok_def list_all_iff distinct_map_filter tkeys_def)
  ultimately have b: "books_ok ?w" using other_currencies [OF assms, of ?w] by (simp add: list_all_iff)
  have "same_books (snd (delete_currency admin i w)) ?w"
    using False by (auto simp: delete_currency_def same_books_def log_admin_action_def)
  then show ?thesis using b same_booksD(4) by blast
qed

lemma currency_mark_books:
  assumes "books_ok w" and "safe (currency_mark b w)"
  shows "books_ok (snd (upsert_currency rc admin b w))"
proof -
  have m: "\<not> cuts_decimals b w" "currency_rows_ok w" "\<forall>n. cu_decimals b = Some n \<longrightarrow> nat n \<le> MONEY_SCALE"
    using assms(2) by (auto simp: currency_mark_def split: if_splits option.splits)
  show ?thesis
    using currency_edit_books [OF assms(1) _ _ m(1,3)] m(2) by (auto simp: currency_rows_ok_def list_all_iff)
qed

lemma taxonomy_money:
  "t_balances (snd (upsert_currency rc admin b w)) = t_balances w" "t_ledger (snd (upsert_currency rc admin b w)) = t_ledger w"
  "t_deals (snd (upsert_currency rc admin b w)) = t_deals w"
  "t_balances (snd (delete_currency admin i w)) = t_balances w" "t_ledger (snd (delete_currency admin i w)) = t_ledger w"
  "t_deals (snd (delete_currency admin i w)) = t_deals w"
  by (auto simp: upsert_currency_def delete_currency_def log_currency_def log_admin_action_def Let_def split: option.splits)

text \<open>What a step keeps, by its label.\<close>

definition kept :: "mark \<Rightarrow> world \<Rightarrow> world \<Rightarrow> bool" where
  "kept m w w' \<longleftrightarrow> (books_ok w \<longrightarrow> safe m \<longrightarrow> books_ok w' \<and> (sound m \<longrightarrow> audited w w' \<and> evolves w w'))"

lemma kept_sound: "(books_ok w \<Longrightarrow> good w w') \<Longrightarrow> (books_ok w \<Longrightarrow> evolves w w') \<Longrightarrow> kept m w w'"
  by (simp add: kept_def good_def)

lemma kept_marked:
  "(books_ok w \<Longrightarrow> sound m \<Longrightarrow> good w w') \<Longrightarrow> (books_ok w \<Longrightarrow> sound m \<Longrightarrow> evolves w w') \<Longrightarrow> m \<noteq> Off_ledger \<Longrightarrow> kept m w w'"
  by (auto simp: kept_def good_def)

lemma kept_off: "(books_ok w \<Longrightarrow> safe m \<Longrightarrow> books_ok w') \<Longrightarrow> m \<noteq> Sound \<Longrightarrow> kept m w w'"
  by (auto simp: kept_def)

lemma kept_moved:
  assumes "books_ok w \<Longrightarrow> moves now cfg api P w w'" and P: "\<And>dep p. P dep p \<Longrightarrow> report_mark dep p = m"
  shows "kept m w w'"
proof (cases "books_ok w \<and> safe m")
  case True
  then obtain v where v: "deposit_moved now cfg api v w w'" "\<And>dep p. v = Credited dep p \<Longrightarrow> report_mark dep p = m"
    using assms by (auto simp: moves_def)
  have r: "case finite_amount p of None \<Rightarrow> True | Some x \<Rightarrow> 0 \<le> x" if "v = Credited dep p" "dep_purpose dep = P_deal_topup" for dep p
    using v(2) [OF that(1)] that(2) True by (auto simp: report_mark_def split: option.splits if_splits)
  have t: "dep_purpose dep \<noteq> P_trust" if "sound m" "v = Credited dep p" for dep p
    using v(2) [OF that(2)] that(1) by (auto simp: report_mark_def)
  have ok: "books_ok w" using True by simp
  have "books_ok w'" by (rule good_moved(1) [OF ok v(1)]) (erule (1) r)
  moreover have "audited w w'" if "sound m"
  proof -
    have "good w w'" by (rule good_moved(2) [OF ok v(1)]) (erule (1) r, erule t [OF that])
    then show ?thesis by (simp add: good_def)
  qed
  moreover have "evolves w w'" by (rule evolves_moved [OF ok v(1)]) (erule (1) r)
  ultimately show ?thesis by (simp add: kept_def)
qed (auto simp: kept_def)

lemma kept_deliveries:
  "kept (delivery_mark cryptobot (wp_invoice_id payload) payload w) w (snd (handle_invoice_paid now cfg api payload w))"
  "kept Sound w (snd (handle_invoice_expired now payload w))"
  "kept (delivery_mark crystalpay (crystalpay_provider_id payload) payload w) w (snd (handle_crystalpay_invoice now cfg api payload w))"
  "kept (poll_mark dep w) w (snd (poll_deposit_status now cfg api dep w))"
  by (rule kept_moved, erule delivery_moves(1), simp add: delivery_mark_def)
    (rule kept_moved, erule delivery_moves(2), simp,
     rule kept_moved, erule delivery_moves(3), simp add: delivery_mark_def,
     rule kept_moved, rule poll_moves, simp add: poll_mark_def)

lemma kept_payouts:
  "kept (sent_mark x amount w) w (snd (withdrawal_sent now u cur amount x tr w))"
  "withdrawal_auto_failed_refund now u cur amount x w = Some (x', w') \<Longrightarrow> kept (failed_mark u cur amount x w) w w'"
  "kept (object_mark Sound WS_approved x w) w (snd (approve_phase3 now admin remark x cur tr w))"
  "reconcile_withdrawal now c transfer w = Inr (r, w') \<Longrightarrow> kept (object_mark Off_ledger WS_pending c w) w w'"
proof -
  show "kept (sent_mark x amount w) w (snd (withdrawal_sent now u cur amount x tr w))"
    by (rule kept_marked; (rule good_sent evolves_withdrawals)?) (auto simp: sent_mark_def split: option.splits if_splits)
  show "kept (failed_mark u cur amount x w) w w'" if "withdrawal_auto_failed_refund now u cur amount x w = Some (x', w')"
    by (rule kept_marked; (rule good_failed [OF _ that] evolves_withdrawals(3) [OF that])?)
      (auto simp: failed_mark_def split: option.splits if_splits)
  show "kept (object_mark Sound WS_approved x w) w (snd (approve_phase3 now admin remark x cur tr w))"
    by (rule kept_marked; (rule good_phase3 evolves_withdrawals)?) (auto simp: object_mark_def split: option.splits if_splits)
  show "kept (object_mark Off_ledger WS_pending c w) w w'" if "reconcile_withdrawal now c transfer w = Inr (r, w')"
    by (rule kept_off, erule reconcile_books [OF _ that]) (auto simp: object_mark_def split: option.splits if_splits)
qed

lemma kept_withdraw:
  "0 < amount \<Longrightarrow> kept (amount_mark Sound amount) w (snd (create_withdrawal_phase1 now cfg worker u code amount address w))"
  by (rule kept_marked; (rule good_withdraw evolves_withdrawals; assumption)?) (auto simp: amount_mark_def split: if_splits intro: good_withdraw)

lemma kept_corrections:
  "kept (amount_mark Sound delta) w (snd (adjust_user_balance admin i code delta reason w))"
  "kept (amount_mark Off_ledger (pin_reset_price_of w)) w (snd (pin_reset_paid now acfg cr code told u w))"
  "kept Off_ledger w (snd (mark_paid now admin remark i w))"
  "kept Off_ledger w (snd (refund_deposit now admin remark i w))"
proof -
  show "kept (amount_mark Sound delta) w (snd (adjust_user_balance admin i code delta reason w))"
    by (rule kept_marked) (auto simp: amount_mark_def evolves_adjust intro: good_adjust split: if_splits)
  show "kept (amount_mark Off_ledger (pin_reset_price_of w)) w (snd (pin_reset_paid now acfg cr code told u w))"
    by (rule kept_off, erule pin_reset_books) (auto simp: amount_mark_def split: if_splits)
qed (rule kept_off; simp add: mark_paid_books refund_deposit_books)+

lemma kept_edits:
  "kept (arbitration_mark i w) w (snd (force_arbitration now admin i reason w))"
  "kept (deletion_mark i w) w (snd (delete_deal now admin i reason w))"
  "kept (currency_mark b w) w (snd (upsert_currency rc admin b w))"
  "kept Sound w (snd (delete_currency admin i w))"
proof -
  show "kept (arbitration_mark i w) w (snd (force_arbitration now admin i reason w))"
  proof (cases "get_deal i w")
    case None
    then show ?thesis by (simp add: force_arbitration_def kept_def)
  next
    case (Some d)
    then show ?thesis
      by (intro kept_marked) (auto simp: arbitration_mark_def split: if_splits intro: good_force_arbitration evolves_force_arbitration)
  qed
  show "kept (deletion_mark i w) w (snd (delete_deal now admin i reason w))"
  proof (cases "get_deal i w")
    case None
    then show ?thesis by (simp add: delete_deal_def kept_def)
  next
    case (Some d)
    then show ?thesis by (intro kept_off deletion_books) (auto simp: deletion_mark_def)
  qed
  show "kept (currency_mark b w) w (snd (upsert_currency rc admin b w))"
    by (intro kept_marked evolves_same good_no_money currency_mark_books) (auto simp: taxonomy_money currency_mark_def)
  show "kept Sound w (snd (delete_currency admin i w))"
    by (intro kept_sound evolves_same good_no_money drop_currency_books) (auto simp: taxonomy_money)
qed

lemma kept_same: "same_books w' w \<Longrightarrow> kept Sound w w'"
  by (intro kept_sound good_same evolves_same) (simp_all add: same_books_def)

lemma kept_approve:
  "decision_target i w = Inr (x, cur, u) \<Longrightarrow> wd_status x = WS_pending \<Longrightarrow> kept Sound w (save_withdrawal (approve_withdrawal_row remark x) w)"
  by (intro kept_sound good_withdraw_approve evolves_withdrawals(5)) (auto dest: decision_row)

lemmas good_calls = good_create good_create_topup good_lifecycle good_resolve good_cancel_topup good_sweeps good_queue
  good_decide good_phase2_failed good_approval_requests good_assign good_invoice [OF _ less_imp_le]
  good_forced [OF release.forced_payout_axioms] good_forced [OF refund.forced_payout_axioms] good_forced [OF split_contract]

lemmas evolves_calls = evolves_create evolves_create_topup evolves_lifecycle evolves_resolve evolves_cancel_topup evolves_sweeps
  evolves_withdrawals(4,7) evolves_decide evolves_approval_requests evolves_assign evolves_invoice
  evolves_forced [OF release.forced_payout_axioms] evolves_forced [OF refund.forced_payout_axioms] evolves_forced [OF split_contract]

lemma step_kept: "step m w w' \<Longrightarrow> kept m w w'"
proof (induction rule: step.induct)
  case (transfer acfg cr now target code row w s w')
  then show ?case using transfer_books by (blast intro: kept_off)
qed (assumption | rule kept_deliveries kept_payouts kept_withdraw kept_corrections kept_edits kept_same kept_approve; assumption
    | rule kept_sound; (rule good_calls evolves_calls; assumption))+

interpretation desk: invariant_system step safe books_ok "\<lambda>_ _. True"
  using step_kept by unfold_locales (auto simp: kept_def)

interpretation wallet: invariant_system step sound books_ok "\<lambda>w w'. audited w w' \<and> evolves w w'"
  using step_kept by unfold_locales (auto simp: kept_def intro: audited_trans evolves_trans)

section \<open>Requests of several transactions\<close>

text \<open>
  A withdrawal, its approval, the sweep of stale withdrawals and an account transfer commit or wait for a lock in between, and a webhook
  commits three times. When what the other sessions do in between is a run, so is the whole request.
\<close>

abbreviation runs :: "world \<Rightarrow> world \<Rightarrow> bool" where
  "runs w w' \<equiv> \<exists>ms. trace step ms w w'"

lemma runs_step: "step m w w' \<Longrightarrow> runs w w'"
  by (blast intro: trace_one)

lemma runs_trans: "runs w v \<Longrightarrow> runs v w' \<Longrightarrow> runs w w'"
  by (blast intro: trace_append)

lemma create_withdrawal_runs:
  assumes "0 < amount" and "\<And>v. runs v (others v)"
  shows "runs w (snd (create_withdrawal now cfg api worker u code amount address others w))"
proof (cases "create_withdrawal_phase1 now cfg worker u code amount address w")
  case (Pair r w1)
  have first: "runs w w1" using step.withdraw [OF assms(1)] Pair runs_step by (metis snd_conv)
  then have o: "runs w (others w1)" using assms(2) runs_trans by blast
  show ?thesis
  proof (cases r)
    case (Inl e)
    then show ?thesis using Pair first by (simp add: create_withdrawal_def)
  next
    case (Inr plan)
    note q = runs_trans [OF first runs_step [OF step.withdraw_queue]] runs_trans [OF o runs_step [OF step.withdraw_queue]]
    note f = runs_trans [OF o runs_step [OF step.withdraw_sent]] runs_trans [OF o runs_step [OF step.withdraw_failed]]
    have s: "runs w w2" if "withdrawal_sent now u cur amount x tr (others w1) = (x', w2)" for cur x tr x' w2
      using f(1) [of now u cur amount x tr] that by simp
    show ?thesis using Pair Inr q f(2) s by (auto simp: create_withdrawal_def Let_def split: option.splits prod.splits)
  qed
qed

lemma decide_withdrawal_runs:
  assumes "\<And>v. runs v (others v)"
  shows "runs w (snd (decide_withdrawal now cfg api admin i body others w))"
proof (cases "dec_action body = ''approve'' \<longrightarrow> \<not> is_cryptopay_configured cfg")
  case True
  then show ?thesis by (blast intro: runs_step step.decide)
next
  case False
  show ?thesis
  proof (cases "decision_target i w")
    case (Inl e)
    have "runs w w" by (blast intro: trace.stop)
    then show ?thesis using Inl by (simp add: decide_withdrawal_def)
  next
    case (Inr t)
    obtain x cur u where t: "decision_target i w = Inr (x, cur, u)" using Inr by (cases t) auto
    show ?thesis
    proof (cases "wd_status x = WS_pending")
      case p: True
      let ?x = "approve_withdrawal_row (dec_note body) x"
      have o: "runs w (others (save_withdrawal ?x w))"
        using runs_trans [OF runs_step [OF step.approve [OF t p]]] assms by blast
      note f = runs_trans [OF o runs_step [OF step.approved_sent]] runs_trans [OF o runs_step [OF step.approved_failed]]
      show ?thesis using False t p f by (auto simp: decide_withdrawal_def decide_approve_def Let_def split: option.splits)
    next
      case no: False
      have "runs w w" by (blast intro: trace.stop)
      then show ?thesis using no False t by (simp add: decide_withdrawal_def decide_approve_def)
    qed
  qed
qed

text \<open>A webhook commits the event, handles it and commits how that ended; only the handler touches money.\<close>

lemma runs_same: "same_books w' w \<Longrightarrow> runs w w'"
  by (rule runs_step [OF step.elsewhere])

lemma inbox_writes_same [simp]:
  "same_books (save_event e w) w" "same_books (enqueue_webhook_outbox e k r w) w" "same_books (mark_webhook_failed now e err w) w"
  "same_books (snd (acquire_webhook_event now h pr i ty ref hs raw w)) w"
  by (auto simp: same_books_def save_event_def enqueue_webhook_outbox_def mark_webhook_failed_def acquire_webhook_event_def Let_def
      split: option.splits)

lemma process_webhook_runs:
  assumes "same_books (snd acquired) w" and h: "\<And>v. runs v (snd (handler v))"
  shows "runs w (snd (process_webhook now acquired handler handled))"
proof -
  obtain e d w1 where a: "acquired = ((e, d), w1)" by (cases acquired) auto
  have first: "runs w w1" using assms(1) a by (simp add: runs_same)
  define v where "v = save_event (e \<lparr> we_status := ''processing'', we_processed_at := Some now \<rparr>) w1"
  have "runs w1 (snd (handler v))" using runs_trans [OF runs_same h] by (simp add: v_def)
  then have mid: "runs w (snd (handler v))" using runs_trans first by blast
  have last: "runs w w'" if "same_books w' (snd (handler v))" for w' using runs_trans [OF mid runs_same [OF that]] .
  have "same_books (save_event x (enqueue_webhook_outbox y k r u)) u" for x y k r u
    by (simp add: same_books_def save_event_def enqueue_webhook_outbox_def)
  then show ?thesis using first last
    by (cases "handler v") (auto simp: process_webhook_def a Let_def v_def [symmetric] split: sum.splits)
qed

lemma webhook_runs:
  "runs w (snd (cryptobot_webhook now cfg api sha_hex sha hmac loads cl chunks sig headers w))"
  "runs w (snd (crystalpay_webhook now cfg api sha_hex sha1 loads' cl chunks headers w))"
proof -
  have refl: "runs w w" by (blast intro: trace.stop)
  have cb: "runs v (snd (cryptobot_handler cfg api ty payload now v))" for ty payload v
    by (auto simp: cryptobot_handler_def intro: runs_step step.invoice_paid step.invoice_expired runs_same)
  have cp: "runs v (snd (handle_crystalpay_invoice now cfg api payload v))" for payload v
    by (rule runs_step [OF step.crystalpay_invoice])
  show "runs w (snd (cryptobot_webhook now cfg api sha_hex sha hmac loads cl chunks sig headers w))"
    using refl by (auto simp: cryptobot_webhook_def Let_def cryptobot_handler_def [symmetric] intro!: process_webhook_runs cb
        split: sum.splits json_body.splits)
  show "runs w (snd (crystalpay_webhook now cfg api sha_hex sha1 loads' cl chunks headers w))"
    using refl by (auto simp: crystalpay_webhook_def Let_def intro!: process_webhook_runs cp split: sum.splits json_body.splits)
qed

lemma reconcile_all_runs:
  assumes "\<And>i v. runs v (others i v)"
  shows "reconcile_all now api others cs w = Inr (r, w') \<Longrightarrow> runs w w'"
proof (induction cs arbitrary: w r)
  case Nil
  then show ?case by (auto intro: trace.stop)
next
  case (Cons c cs)
  show ?case
  proof (cases "cp_get_transfers api (wd_id c)")
    case None
    then have "runs (others (wd_id c) w) w'" using Cons by (simp add: Let_def)
    then show ?thesis by (rule runs_trans [OF assms])
  next
    case (Some ts)
    then obtain p v q where a: "reconcile_withdrawal now c (completed_transfer ts) (others (wd_id c) w) = Inr (p, v)"
      and b: "reconcile_all now api others cs v = Inr (q, w')"
      using Cons.prems by (auto simp: Let_def split: sum.splits prod.splits)
    show ?thesis by (rule runs_trans [OF assms runs_trans [OF runs_step [OF step.reconcile [OF a]] Cons.IH [OF b]]])
  qed
qed

lemma sweep_stale_withdrawals_runs:
  assumes "\<And>i v. runs v (others i v)"
  shows "runs w (snd (sweep_stale_withdrawals now cfg api others w))"
proof -
  have "runs w w" by (blast intro: trace.stop)
  moreover have "runs w (safe_dispatch ns v)" if "reconcile_all now api others cs w = Inr (r, v)" for cs r v ns
    by (rule runs_trans [OF reconcile_all_runs [OF assms that] runs_same]) (simp add: same_books_def)
  ultimately show ?thesis by (auto simp: sweep_stale_withdrawals_def Let_def split: sum.splits prod.splits)
qed

lemma confirm_transfer_runs:
  assumes "\<And>v. runs v (others v)"
  shows "runs w (snd (confirm_transfer acfg cr now dice others target code w))"
proof (cases "find_code acfg cr now (strip code) (purge_expired_sampled dice now w)")
  case None
  have "runs w w" by (blast intro: trace.stop)
  then show ?thesis using None by (simp add: confirm_transfer_def Let_def)
next
  case (Some row)
  let ?v = "purge_expired_sampled dice now (others w)"
  have refl: "runs w w" by (blast intro: trace.stop)
  have v: "runs w ?v" using runs_trans [OF assms runs_same] by simp
  have "runs w (save_code r ?v)" for r by (rule runs_trans [OF v runs_same]) simp
  moreover have "runs w w'" if "confirm_locked acfg cr now target (strip code) row ?v = Inr (s, w')" for s w'
    by (rule runs_trans [OF v runs_step [OF step.transfer [OF that]]])
  ultimately show ?thesis using refl assms Some by (auto simp: confirm_transfer_def Let_def split: sum.splits prod.splits)
qed

end
