(* ===== verification/Spec2Isabelle.thy ===== *)
theory Spec2Isabelle
  imports System
begin

text \<open>
  A model of the backend of an escrow marketplace inside Telegram (\<open>src/backend/app\<close>): users deposit
  money through two payment providers, lock it in deals, pay each other when a deal is finished, cancel
  or take a deal to arbitration, withdraw, and review each other; administrators settle, correct and
  configure all of it.

  \<^bold>\<open>How the parts interact.\<close> Every request is an \<open>async\<close> handler (\<open>routers/\<close>) that opens a database session,
  finds the caller (\<open>deps.py\<close>), calls a service (\<open>services_*.py\<close>), commits, and only then sends events
  over the WebSocket and the bot (\<open>notifier.py\<close>). Providers call back through signed webhooks
  (\<open>routers/payments.py\<close>), which are stored in an inbox (\<open>services_webhooks.py\<close>) and handled by
  \<open>services_payments.py\<close>. Periodic sweeps close stale deals, invoices and withdrawals. All money is in
  the columns \<open>amount\<close> (free) and \<open>locked\<close> of one row per user and currency; each change writes a ledger row.

  \<^bold>\<open>State.\<close> A \<open>world\<close> (theory World) is the committed database: one list of records per table of
  \<open>models.py\<close> (theory Models, a field per column, a nullable column an option), the id sequences, and
  the events that were sent. A helper that runs inside a transaction has the type \<open>world \<Rightarrow> py_error + ('a \<times> world)\<close>
  (\<open>tx\<close>), so an exception drops its writes; an operation that commits answers \<open>(result, world)\<close>.
  Exceptions are the constructors of \<open>py_error\<close>, messages those of \<open>detail\<close>; every \<open>raise\<close> is a branch.
  Where an operation has several transactions, or reads before it locks, what other sessions commit in
  between is an argument (\<open>others\<close>) that the theorems quantify over.

  \<^bold>\<open>Theories and the code they model.\<close>
    \<^item> Prelude: tables as lists keyed by a field, sums over them, outcomes. Money: \<open>money.py\<close>. Models, World:
      \<open>models.py\<close>, sessions. Sample: the database the concrete instances run on.
    \<^item> Ledger: \<open>services_ledger.py\<close>. Notifier: \<open>notifier.py\<close>. Providers: \<open>cryptopay.py\<close>, \<open>crystalpay.py\<close>, \<open>config.py\<close>.
    \<^item> Wallet, Invoices, Deposits, Withdrawals: \<open>services_wallet.py\<close>. Payments, Webhooks: \<open>services_payments.py\<close>,
      \<open>services_webhooks.py\<close>, \<open>routers/payments.py\<close>.
    \<^item> Escrow, Deals, Topup: \<open>services_deals.py\<close>, \<open>routers/deals.py\<close>. AdminMoney, AdminDeals:
      \<open>routers/admin/withdrawals.py\<close>, \<open>wallets.py\<close>, \<open>deposits.py\<close>, \<open>deals.py\<close>, \<open>admin_audit.py\<close>.
    \<^item> Accounts, Trail, Books: the specification. \<open>accounts w u c\<close> is the pair of free and held money; \<open>audited\<close>
      says that the ledger explains a change; \<open>books_ok\<close> that what is locked is what open deals and
      withdrawals hold. Crediting, Payouts, Inbox, Funding, Unfunded, Enforcement, Steps: what the operations
      do to them. Evolution: the lifecycle of a deal. System: every operation that can touch money, deals or currencies as one
      relation \<open>step m w w'\<close>, one transaction each; the label \<open>m\<close> says whether the call, in the database it finds, is one that
      keeps the books and the ledger, keeps the books only, or is one of six kinds that can break them.
    \<^item> Rate_Limit: \<open>rate_limit.py\<close>. Tokens, Pins: \<open>pin.py\<close>, \<open>routers/pin.py\<close>. Base32, Totp: \<open>auth_2fa.py\<close>,
      \<open>admin_guard.py\<close>, \<open>routers/admin/twofa.py\<close>. Login: \<open>security.py\<close>, \<open>auth_helpers.py\<close>, \<open>deps.py\<close>. Account_Transfer:
      \<open>services_account.py\<close>, \<open>routers/account.py\<close>. Profile: \<open>routers/me.py\<close>, \<open>serializers.py\<close>. Admin_Users:
      \<open>routers/admin/users.py\<close>.
    \<^item> Reviews: \<open>services.py\<close>, \<open>routers/reviews.py\<close>, part of \<open>routers/admin/content.py\<close>. Taxonomy:
      \<open>routers/admin/taxonomy.py\<close>. Site_Settings: \<open>routers/admin/settings.py\<close>. Maintenance: \<open>maintenance.py\<close>,
      \<open>bot/maintenance.py\<close>. Search: \<open>search.py\<close>, \<open>routers/users.py\<close>. Notices:
      \<open>routers/notifications.py\<close>. Catalogue: \<open>routers/services.py\<close>, \<open>routers/categories.py\<close>, rest of
      \<open>routers/admin/content.py\<close>. Sockets: \<open>ws.py\<close>, \<open>routers/ws.py\<close>; its state is a \<open>manager\<close> of one worker, its
      runs are sequences of the stretches between two awaits.
    Bodies of requests and their validators (\<open>schemas.py\<close>) stand with the operation that takes them.

  \<^bold>\<open>Interfaces.\<close> \<open>escrow_ops\<close> (Escrow) is what the lifecycle needs of the balance helpers, \<open>deal_op\<close> and
  \<open>settling_op\<close> (Books) what an operation on one deal promises, \<open>inbox_endpoint\<close> (Inbox) what a webhook
  endpoint promises, \<open>forced_payout\<close> (Enforcement) what a payout above the threshold asks for,
  \<open>session\<close> (Tokens) what a signed token promises, \<open>sliding_window\<close> (Rate_Limit) what a limiter promises.
  \<open>invariant_system\<close> (Steps) carries an invariant, and a relation, along the runs whose labels are safe; it is interpreted on
  \<open>step\<close> twice, once for the books and once for the ledger and the deals.
  Each is interpreted on the definitions of the code, and the properties rest on the interpretations.

  \<^bold>\<open>What the lemmas show.\<close> Invariants of the state (books, ledger, approvals, counters of reviews, reference
  data, settings), the effect of each operation on every branch, refinement of the account operations,
  equivalence of the two rate limiters with one specification, round trips, bounds (guesses of a PIN, age
  of a cached flag, sockets and queues, rounding), termination of the sweeps, and that no deal is stuck. Where the code
  breaks such a promise, a theorem says how: the labels that are not safe name the calls that are outside the invariant of the
  books, and Enforcement and Taxonomy show two of them break it.

  \<^bold>\<open>Bounds and simplifications.\<close> A \<open>Decimal\<close> is a rational number: a product or sum that
  needs more than the 28 digits of the code's context would be rounded there and is exact here. A write to \<open>Numeric(28, 8)\<close> rounds to
  eight digits (\<open>column\<close>). Timestamps are whole seconds, clocks of caches rational numbers. Texts are lists
  of ASCII characters; the messages of the code, which are in Russian, appear as tags or translated, and
  log lines are left out. A locked row is held by one transaction at a time, so a transaction is a
  function. Loops are recursive over the rows they read, so they end. Only the
  digits of a number are computed with fuel (\<open>show_nat_fuel\<close>): \<open>n + 1\<close> for \<open>n\<close>, which \<open>show_nat_value\<close> (Tokens) shows to be enough.

  \<^bold>\<open>Parameters.\<close> Code that is not under src is an argument: the answers of the payment providers and of Telegram, hashes,
  HMAC and JWT, parsing of JSON, compiling and matching of regular expressions, Redis, random bytes and the float nearest to a decimal.
  Theorems name what they ask of them.

  \<^bold>\<open>Not modelled.\<close> Uploaded media and their files (\<open>routers/media.py\<close>), the chat of a deal
  (\<open>routers/deal_messages.py\<close>), broadcasts, dashboards, analytics and support: they keep no money and
  mostly read. Listing and serialisation of deals. The bot (\<open>bot/\<close> but for its maintenance
  middleware), process wiring (\<open>main.py\<close> but for the public settings, \<open>db.py\<close>, \<open>redis_client.py\<close>, \<open>seed.py\<close>)
  and migrations: input, output and configuration. The payload cap of 4096 bytes and the client
  address of an audit row.
\<close>

section \<open>Properties\<close>

text \<open>
  C1. From balanced books, every database that calls labelled \<open>Sound\<close> or \<open>Off_ledger\<close> reach, whatever
  the calls, their arguments and their order and whether they succeed or fail, has balanced books: the locked money of every
  account is exactly what its open deals and withdrawals hold, no column is negative, every amount is storable. A rule of
  \<open>step\<close> stands for every operation that can touch the money, the deals or the currencies; the runs this leaves out
  are those with a call that carries one of the six other labels of \<open>mark\<close>: arbitration forced on a deal without escrow, a payout on
  an object whose row has changed since it was read, a withdrawal, correction or price with more than eight
  decimals, a negative payment from a provider, an edit that cuts decimals or sets more than eight, and a row whose currency is gone.
\<close>

theorem books_balance_always:
  assumes "trace step ms w0 w" and "set ms \<subseteq> {Sound, Off_ledger}" and "books_ok w0"
  shows "books_ok w"
proof -
  have "list_all (\<lambda>m. safe m) ms" using assms(2) by (auto simp: list_all_iff)
  from desk.reachable [OF assms(1) this assms(3)] show ?thesis by simp
qed

text \<open>
  C2. Along every run whose calls are all labelled \<open>Sound\<close> the ledger explains each change of every account, each deal keeps its parties,
  currency and amount, its status moves only along the lifecycle, and the row of a deal in a terminal
  status never changes again. Besides the calls C1 leaves out, these runs have no call labelled \<open>Off_ledger\<close>: no deposit marked paid or refunded by hand,
  no deletion of a deal, no reconciliation of a withdrawal, no PIN reset, no credit of a trust deposit and no account transfer,
  which write no ledger row, write one that is not about the wallet, or delete rows.
\<close>

theorem runs_are_audited_and_deals_evolve:
  assumes "trace step ms w0 w" and "set ms \<subseteq> {Sound}" and "books_ok w0"
  shows "audited w0 w \<and> (\<forall>i d. get_deal i w0 = Some d \<longrightarrow>
    (\<exists>d'. get_deal i w = Some d' \<and> same_deal d d' \<and> leads_to (d_status d) (d_status d')
       \<and> (d_status d \<in> set TERMINAL_DEAL_STATUSES \<longrightarrow> d' = d)))"
proof -
  have "list_all (\<lambda>m. sound m) ms" using assms(2) by (auto simp: list_all_iff)
  from wallet.reachable [OF assms(1) this assms(3)] show ?thesis by (simp add: evolves_def grows_to_def terminal_def)
qed

text \<open>
  C10. In every database that calls labelled \<open>Sound\<close> or \<open>Off_ledger\<close> reach from balanced books the escrow of a deal is
  really there: the buyer of a deal in progress can finish it, and its whole amount then leaves the
  buyer's locked money and reaches the seller's free money.
\<close>

theorem reachable_deals_can_be_paid:
  fixes u :: user
  assumes "trace step ms w0 w" and "set ms \<subseteq> {Sound, Off_ledger}" and "books_ok w0"
    and "get_deal (d_id d) w = Some d" and "d_status d = in_progress" and "u_id u = d_buyer_id d"
    and "get_currency (d_currency_id d) w = Some cur"
  shows "d_amount d \<le> held w (d_buyer_id d) (d_currency_id d)
    \<and> (\<exists>d' w'. finish_deal now d u w = (Inr d', w') \<and> d_status d' = completed
        \<and> held w' (d_buyer_id d) (d_currency_id d) = held w (d_buyer_id d) (d_currency_id d) - d_amount d
        \<and> free w' (d_seller_id d) (d_currency_id d) = free w (d_seller_id d) (d_currency_id d) + d_amount d)"
proof -
  have "list_all (\<lambda>m. safe m) ms" using assms(2) by (auto simp: list_all_iff)
  from desk.reachable [OF assms(1) this assms(3)] have ok: "books_ok w" by simp
  have le: "d_amount d \<le> held w (d_buyer_id d) (d_currency_id d)"
    using deal_hold_le_held [OF ok assms(4), of "d_buyer_id d" "d_currency_id d"] assms(5) by (simp add: deal_hold_def)
  have ne: "d_buyer_id d \<noteq> d_seller_id d" using get_deal_facts(5) [OF ok assms(4)] .
  obtain d' w' where run: "finish_deal now d u w = (Inr d', w')"
    using finish_succeeds [OF assms(6,5,7)] by blast
  have "d_status d' = completed" using finish.target [OF run] by simp
  with run le ne finish_pays [OF run ok assms(4)] show ?thesis
    by (auto simp: a_defs split: prod.splits)
qed

text \<open>A deal that is over, with its escrow back in the free money of the buyer and every other account as it was.\<close>

definition given_back :: "deal \<Rightarrow> world \<Rightarrow> world \<Rightarrow> bool" where
  "given_back d w w' \<longleftrightarrow> (case get_deal (d_id d) w' of None \<Rightarrow> False | Some d' \<Rightarrow> d_status d' \<in> set TERMINAL_DEAL_STATUSES)
     \<and> books_ok w' \<and> accounts w' = (if holds_escrow (d_status d)
         then a_unlock (d_buyer_id d) (d_currency_id d) (d_amount d) (accounts w) else accounts w)"

lemma cancelled_topup_given_back:
  fixes u :: user
  assumes "books_ok w" and "get_deal i w = Some d" and "d_status d = pending_topup" and "u_id u = d_buyer_id d"
  shows "given_back d w (snd (cancel_topup_endpoint now i u w))"
proof -
  have id: "d_id d = i" and g: "get_deal (d_id d) w = Some d" using get_deal_in [OF assms(2)] assms(2) by simp_all
  obtain d' w' where run: "cancel_pending_topup now d u w = (Inr d', w')"
    using assms(3,4) by (simp add: cancel_pending_topup_def Let_def case_prod_beta)
  have "cancel_topup_endpoint now i u w = (Inr d', w')"
    using run assms(2) by (simp add: cancel_topup_endpoint_def on_locked_deal_def get_locked_def)
  moreover have e: "books_ok w'" "t_balances w' = t_balances w" "get_deal i w' = Some (deal_row d')" "d_status d' = cancelled"
    using cancel_topup_effect [OF assms(1) g, where now = now and u = u] run id by auto
  ultimately show ?thesis using accounts_cong [OF e(2)] assms(3) id by (simp add: given_back_def TERMINAL_DEAL_STATUSES_def)
qed

lemma refund_given_back:
  assumes "forced d (d_amount d) (d_amount d - d_amount d) d' v w'" and "d_status d' = resolved_for_buyer" and "accounts v = accounts w"
  shows "given_back d w w'"
proof -
  have "a_credit s c 0 A = A" "a_credit b c x (a_burn b c x A) = a_unlock b c x A" for s b c and x :: decimal and A
    by (simp_all add: a_defs fun_eq_iff split: prod.split)
  then show ?thesis using assms by (simp add: given_back_def forced_def TERMINAL_DEAL_STATUSES_def)
qed

text \<open>
  C11. No deal is stuck. In balanced books, whatever the threshold for a second approval, every deal that is not over and whose
  currency exists can be ended. One that waits for its top-up ends when its buyer cancels. One that holds money
  ends with its whole amount back in the buyer's free money when an administrator refunds it: at once, or the
  call answers with a pending request, which one of any two administrators can approve, and the same call with that approval
  then ends it. A deal in \<open>pending_payment\<close>, a status no operation writes, is removed by an administrator.
\<close>

theorem every_deal_can_end:
  fixes u a b :: user
  assumes "books_ok w" and "approvals_ok w" and "get_deal i w = Some d" and "d_status d \<notin> set TERMINAL_DEAL_STATUSES"
    and "get_currency (d_currency_id d) w \<noteq> None" and "u_id u = d_buyer_id d" and "u_id a \<noteq> u_id b"
  shows "if d_status d = pending_payment then get_deal i (snd (delete_deal now a i reason w)) = None
    else if d_status d = pending_topup then given_back d w (snd (cancel_topup_endpoint now i u w))
    else case force_refund now thr a i \<lparr> fb_reason = reason, fb_approval_id = None \<rparr> w of
        (Inl e, w') \<Rightarrow> False
      | (Inr (d', None), w') \<Rightarrow> given_back d w w'
      | (Inr (d', Some r), w') \<Rightarrow> (\<exists>c r' w1. (c = a \<or> c = b) \<and> approve_deal_approval later (ar_id r) c w' = (Inr r', w1)
          \<and> given_back d w (snd (force_refund then_at thr a i \<lparr> fb_reason = reason, fb_approval_id = Some (ar_id r) \<rparr> w1)))"
proof -
  have id: "d_id d = i" and g: "get_deal (d_id d) w = Some d" using get_deal_in [OF assms(3)] assms(3) by simp_all
  consider "d_status d = pending_payment" | "d_status d = pending_topup" | "holds_escrow (d_status d)"
    using assms(4) by (cases "d_status d") (simp_all add: TERMINAL_DEAL_STATUSES_def)
  then show ?thesis
  proof cases
    case 1
    then show ?thesis
      using delete_deal_effect [OF assms(1), where now = now and admin = a and i = i and reason = reason] assms(3)
      by (auto split: prod.splits sum.splits)
  next
    case 2
    then show ?thesis using cancelled_topup_given_back [OF assms(1,3) 2 assms(6)] by simp
  next
    case 3
    then have st: "d_status d \<noteq> pending_payment" "d_status d \<noteq> pending_topup" by auto
    obtain cur where cur: "get_currency (d_currency_id d) w = Some cur" using assms(5) by auto
    have t: "money_action_target i w = Inr (d, cur)" using assms(3) 3 cur by (simp add: money_action_target_def active_holds)
    note first = refund.first_call [OF assms(1,2) t, of now thr a reason]
    show ?thesis
    proof (cases rule: outcome_cases [of "force_refund now thr a i \<lparr> fb_reason = reason, fb_approval_id = None \<rparr> w"])
      case (fails e w')
      then show ?thesis using first by simp
    next
      case (returns p w')
      obtain d' ap where p: "p = (d', ap)" by (cases p)
      show ?thesis
      proof (cases ap)
        case None
        then show ?thesis using first returns p st refund_given_back [of d d' w w'] by simp
      next
        case (Some r)
        then have same: "same_books w' w" and req: "requests r d ''deal.force_refund'' [(''currency'', MStr (c_code cur)), (''amount'', MDec (d_amount d))] w'"
          using first returns p by simp_all
        obtain c where c: "c = a \<or> c = b" "ar_requested_by_id r \<noteq> Some (u_id c)" using assms(7) by (cases "ar_requested_by_id r = Some (u_id a)") auto
        have ok': "books_ok w'" and acc: "accounts w' = accounts w" using same_booksD [OF same] assms(1) by simp_all
        have t': "money_action_target i w' = Inr (d, cur)" using money_action_target_same [OF same] t by simp
        obtain r' w1 e w2 where "approve_deal_approval later (ar_id r) c w' = (Inr r', w1)"
          "force_refund then_at thr a i \<lparr> fb_reason = reason, fb_approval_id = Some (ar_id r) \<rparr> w1 = (Inr (e, None), w2)"
          "d_status e = resolved_for_buyer" "forced d (d_amount d) (d_amount d - d_amount d) e w1 w2" "accounts w1 = accounts w'"
          using refund.second_call [OF ok' t' req c(2), of later then_at thr a reason] by auto
        then show ?thesis using returns p Some st c(1) refund_given_back [of d e w1 w2 w] acc by auto
      qed
    qed
  qed
qed

definition sample_run :: world where
  "sample_run = snd (finish_deal_endpoint 9 5 sample_buyer sample_world)"

lemma sample_run_step: "step Sound sample_world sample_run"
  unfolding sample_run_def by (rule step.finish)

lemma sample_run_facts:
  "accounts sample_run 2 7 = (28, 0)" "\<exists>d'. get_deal 5 sample_run = Some d' \<and> d_status d' = completed"
  "get_deal 12 sample_run = Some (sample_deal 12 completed 30)" "get_deal 10 sample_run = Some (sample_deal 10 arbitration 20)"
  "get_currency 7 sample_run = Some usdt"
proof -
  let ?d = "sample_deal 5 in_progress 25"
  obtain d' w' where run: "finish_deal 9 ?d sample_buyer sample_world = (Inr d', w')"
    using finish_succeeds [of sample_buyer ?d sample_world usdt 9] by auto
  then have r: "sample_run = w'" by (simp add: sample_run_def finish_deal_endpoint_def on_locked_deal_def get_locked_def)
  have g: "get_deal (d_id ?d) sample_world = Some ?d" by simp
  show "accounts sample_run 2 7 = (28, 0)" using finish_pays [OF run sample_books_ok g] r by (simp add: a_defs)
  show "\<exists>d'. get_deal 5 sample_run = Some d' \<and> d_status d' = completed"
    using finish.row_after [OF run g] finish.target [OF run] r by simp
  show "get_deal 12 sample_run = Some (sample_deal 12 completed 30)" "get_deal 10 sample_run = Some (sample_deal 10 arbitration 20)"
    using finish.other_rows [OF run, of 12] finish.other_rows [OF run, of 10] r by simp_all
  show "get_currency 7 sample_run = Some usdt"
    using finish.others [OF run] sample_get(1) r by (simp add: get_currency_def)
qed

text \<open>A deal is finished, and then an administrator deletes another one.\<close>

lemma sample_deletion: "trace step [Sound, Off_ledger] sample_world (snd (delete_deal 9 sample_admin 10 None sample_run))"
proof -
  have "deletion_mark 10 sample_run = Off_ledger" by (simp add: deletion_mark_def sample_run_facts)
  then show ?thesis using step.delete [of 10 sample_run 9 sample_admin None] sample_run_step by (auto intro!: trace.intros)
qed

lemma books_balance_always_witness:
  "books_ok (snd (delete_deal 9 sample_admin 10 None sample_run)) \<and> accounts sample_run 2 7 = (28, 0)"
  using books_balance_always [OF sample_deletion _ sample_books_ok] sample_run_facts(1) by simp

lemma runs_are_audited_and_deals_evolve_witness:
  "audited sample_world sample_run
   \<and> (\<exists>d'. get_deal 5 sample_run = Some d' \<and> same_deal (sample_deal 5 in_progress 25) d' \<and> leads_to in_progress (d_status d'))"
  using runs_are_audited_and_deals_evolve [OF trace_one, OF sample_run_step _ sample_books_ok] by force

lemma reachable_deals_can_be_paid_witness:
  "\<exists>d' w'. finish_deal 9 (sample_deal 5 in_progress 25) sample_buyer sample_world = (Inr d', w') \<and> d_status d' = completed
     \<and> held w' 1 7 = 56 \<and> free w' 2 7 = 28"
  using reachable_deals_can_be_paid [OF trace.stop _ sample_books_ok, where d = "sample_deal 5 in_progress 25" and u = sample_buyer
      and cur = usdt and now = 9] by simp

text \<open>With no USD rate at hand every payout asks for a second administrator.\<close>

lemma every_deal_can_end_witness:
  "given_back (sample_deal 8 pending_topup 50) sample_world (snd (cancel_topup_endpoint 9 8 sample_buyer sample_world))
   \<and> (case force_refund 9 50 sample_admin 10 \<lparr> fb_reason = None, fb_approval_id = None \<rparr> sample_world of
        (Inl e, w') \<Rightarrow> False
      | (Inr (d', None), w') \<Rightarrow> given_back (sample_deal 10 arbitration 20) sample_world w'
      | (Inr (d', Some r), w') \<Rightarrow> (\<exists>c r' w1. (c = sample_admin \<or> c = sample_seller) \<and> approve_deal_approval 10 (ar_id r) c w' = (Inr r', w1)
          \<and> given_back (sample_deal 10 arbitration 20) sample_world
              (snd (force_refund 11 50 sample_admin 10 \<lparr> fb_reason = None, fb_approval_id = Some (ar_id r) \<rparr> w1))))"
proof -
  have a: "approvals_ok sample_world" by (simp add: approvals_ok_def sample_rows tkeys_def)
  note ending = every_deal_can_end [OF sample_books_ok a, where u = sample_buyer and a = sample_admin and b = sample_seller
      and now = 9 and thr = 50 and reason = None and later = 10 and then_at = 11]
  show ?thesis
    using ending [of 8 "sample_deal 8 pending_topup 50"] ending [of 10 "sample_deal 10 arbitration 20"]
    by (simp add: TERMINAL_DEAL_STATUSES_def)
qed

end
